(* ===== verification/Prelude.thy ===== *)
theory Prelude
  imports Main "HOL-Library.AList" "HOL-Library.Word" "HOL-Library.Char_ord"
    "HOL-Library.List_Lexorder" "HOL-Library.Product_Lexorder"
begin

text \<open>
  Shared vocabulary of the development: the collections of simplification facts, Go maps as
  association lists, the result type of a fallible Go call, and the interface of a
  transition system with an invariant that the two concurrent components
  (theories \<open>SingleFlight\<close> and \<open>SshSession\<close>) provide.
\<close>

named_theorems go_defs \<open>definitions unfolded when a concrete input is evaluated\<close>
named_theorems state_simps \<open>how the operations of a component change each field of its state\<close>

section \<open>Go maps\<close>

text \<open>
  A Go map is an association list without duplicate keys. \<open>map_of\<close> reads it,
  \<^const>\<open>AList.update\<close> stores, \<^const>\<open>AList.delete\<close> deletes. Where the code
  ranges over a map the list order stands for one of the orders Go may pick, and the
  lemmas say when the result does not depend on it.
\<close>

type_synonym ('k, 'v) gomap = "('k \<times> 'v) list"

definition getz :: "('k, 'v) gomap \<Rightarrow> 'k \<Rightarrow> 'v \<Rightarrow> 'v" where
  "getz m k zero = (case map_of m k of None \<Rightarrow> zero | Some v \<Rightarrow> v)"

definition gokeys :: "('k, 'v) gomap \<Rightarrow> 'k list" where
  "gokeys m = map fst m"

lemma map_of_update [simp]: "map_of (AList.update k v m) = (map_of m)(k \<mapsto> v)"
  by (rule AList.update_conv')

lemma map_of_delete [simp]: "map_of (AList.delete k m) = (map_of m)(k := None)"
  by (rule AList.delete_conv')

lemma getz_update [simp]:
  "getz (AList.update k v m) k' z = (if k' = k then v else getz m k' z)"
  by (simp add: getz_def)

lemma getz_delete [simp]:
  "getz (AList.delete k m) k' z = (if k' = k then z else getz m k' z)"
  by (simp add: getz_def)

lemma getz_Nil [simp]: "getz [] k z = z"
  by (simp add: getz_def)

lemma distinct_keys_update [simp]:
  "distinct (map fst m) \<Longrightarrow> distinct (map fst (AList.update k v m))"
  by (rule AList.distinct_update)

lemma distinct_keys_delete [simp]:
  "distinct (map fst m) \<Longrightarrow> distinct (map fst (AList.delete k m))"
  by (rule AList.distinct_delete)

lemma set_delete_eq: "set (AList.delete k m) = {kv \<in> set m. fst kv \<noteq> k}"
  by (auto simp: AList.delete_eq)

lemma length_delete_key:
  assumes "distinct (map fst m)" and "k \<in> fst ` set m"
  shows "length (AList.delete k m) = length m - 1"
  using assms
proof (induction m)
  case Nil
  then show ?case by simp
next
  case (Cons kv m)
  show ?case
  proof (cases "fst kv = k")
    case True
    with Cons.prems have "AList.delete k m = m"
      by (auto simp: AList.delete_eq filter_id_conv image_iff)
    with True show ?thesis by (cases kv) (simp add: AList.delete_eq)
  next
    case False
    with Cons.prems have "k \<in> fst ` set m" by auto
    with False Cons show ?thesis
      by (cases m) (auto simp: AList.delete_eq)
  qed
qed

lemma update_fresh:
  "k \<notin> fst ` set m \<Longrightarrow> AList.update k v m = m @ [(k, v)]"
  by (induction m) auto

section \<open>Results of fallible calls\<close>

text \<open>
  A Go call returning \<open>(T, error)\<close> is a sum: \<open>Inl e\<close> the error, \<open>Inr v\<close> the value.
\<close>

fun is_ok :: "'e + 'a \<Rightarrow> bool" where
  "is_ok (Inl _) = False"
| "is_ok (Inr _) = True"

lemma is_ok_iff: "is_ok r \<longleftrightarrow> (\<exists>v. r = Inr v)"
  by (cases r) auto

section \<open>Loops without a bound\<close>

text \<open>
  A \<open>for { ... }\<close> of the source: one round either returns or gives the variables of the
  next round. \<open>None\<close> is a loop that never returns.
\<close>

partial_function (option) forever :: "('s \<Rightarrow> 's + 'r) \<Rightarrow> 's \<Rightarrow> 'r option" where
  "forever f s = (case f s of Inr r \<Rightarrow> Some r | Inl s' \<Rightarrow> forever f s')"

lemma forever_return: "f s = Inr r \<Longrightarrow> forever f s = Some r"
  by (subst forever.simps) simp

lemma forever_next: "f s = Inl s' \<Longrightarrow> forever f s = forever f s'"
  by (subst forever.simps) simp

lemma forever_induct [consumes 1, case_names returns again]:
  assumes "forever f s = Some r"
    and "\<And>s r. f s = Inr r \<Longrightarrow> Q s r"
    and "\<And>s s' r. f s = Inl s' \<Longrightarrow> forever f s' = Some r \<Longrightarrow> Q s' r \<Longrightarrow> Q s r"
  shows "Q s r"
proof -
  let ?P = "\<lambda>g s r. g = f \<longrightarrow> Q s r \<and> forever f s = Some r"
  have "?P f s r"
  proof (rule forever.raw_induct [OF _ assms(1), of ?P])
    fix fv g s r
    assume IH: "\<And>g s r. fv g s = Some r \<Longrightarrow> ?P g s r"
      and body: "(case g s of Inl s' \<Rightarrow> fv g s' | Inr r \<Rightarrow> Some r) = Some r"
    show "?P g s r"
    proof (cases "g s")
      case (Inl s')
      with body IH [of g s' r] show ?thesis using assms(3) [of s s' r] by (auto simp: forever_next)
    next
      case (Inr r')
      with body show ?thesis using assms(2) by (auto simp: forever_return)
    qed
  qed
  then show ?thesis by simp
qed

lemma forever_terminates:
  assumes "wf R" and "Q s"
    and "\<And>s s'. Q s \<Longrightarrow> f s = Inl s' \<Longrightarrow> Q s' \<and> (s', s) \<in> R"
  shows "\<exists>r. forever f s = Some r"
  using assms(1,2)
proof (induction s rule: wf_induct_rule)
  case (less s)
  show ?case
  proof (cases "f s")
    case (Inl s')
    with less assms(3) have "\<exists>r. forever f s' = Some r" by blast
    with Inl show ?thesis by (simp add: forever_next)
  qed (simp add: forever_return)
qed

section \<open>Transition systems with an invariant\<close>

locale step_system =
  fixes start :: "'s \<Rightarrow> bool"
    and step :: "'s \<Rightarrow> 's \<Rightarrow> bool"
    and inv :: "'s \<Rightarrow> bool"
  assumes inv_start: "start s \<Longrightarrow> inv s"
    and inv_step: "step s t \<Longrightarrow> inv s \<Longrightarrow> inv t"
begin

lemma inv_steps: "step\<^sup>*\<^sup>* s t \<Longrightarrow> inv s \<Longrightarrow> inv t"
  by (induction rule: rtranclp_induct) (auto intro: inv_step)

lemma inv_reachable: "start s \<Longrightarrow> step\<^sup>*\<^sup>* s t \<Longrightarrow> inv t"
  by (blast intro: inv_start inv_steps)

end

section \<open>Lists\<close>

lemma length_filter_update:
  assumes "i < length xs"
  shows "int (length (filter P (xs[i := y]))) =
    int (length (filter P xs)) - (if P (xs ! i) then 1 else 0) + (if P y then 1 else 0)"
  using assms
proof (induction xs arbitrary: i)
  case Nil
  then show ?case by simp
next
  case (Cons x xs)
  show ?case
  proof (cases i)
    case 0
    then show ?thesis by simp
  next
    case (Suc j)
    with Cons.prems have "j < length xs" by simp
    from Cons.IH [OF this] Suc show ?thesis by (simp split: if_splits)
  qed
qed

lemma filter_nth_pos: "i < length xs \<Longrightarrow> P (xs ! i) \<Longrightarrow> 0 < length (filter P xs)"
  by (metis length_greater_0_conv filter_empty_conv nth_mem)

end
