(* ===== verification/GoStrings.thy ===== *)
theory GoStrings
  imports Prelude
begin

text \<open>
  Go strings are byte sequences; so are HOL strings (\<open>char\<close> is a byte). This theory
  models what the gateway uses of packages \<open>strings\<close>, \<open>strconv\<close>, \<open>fmt\<close> (\<open>%d\<close>) and
  \<open>unicode/utf8\<close>: prefixes, search, cut, replacement, splitting, trimming of white space
  (ASCII and the Unicode spaces in their UTF-8 encoding), decimal numbers. \<open>ToLower\<close> folds
  the ASCII letters and leaves every other byte alone.
\<close>

section \<open>UTF-8 literals\<close>

text \<open>
  The messages of the gateway are in part Chinese. A literal is given by its code points,
  encoded as Go encodes a source literal.
\<close>

definition utf8_rune :: "nat \<Rightarrow> string" where
  "utf8_rune n =
    (if n < 0x80 then [char_of n]
     else if n < 0x800 then [char_of (0xC0 + n div 64), char_of (0x80 + n mod 64)]
     else if n < 0x10000 then
       [char_of (0xE0 + n div 4096), char_of (0x80 + (n div 64) mod 64), char_of (0x80 + n mod 64)]
     else
       [char_of (0xF0 + n div 262144), char_of (0x80 + (n div 4096) mod 64),
        char_of (0x80 + (n div 64) mod 64), char_of (0x80 + n mod 64)])"

definition utf8 :: "nat list \<Rightarrow> string" where
  "utf8 cps = concat (map utf8_rune cps)"

abbreviation newline :: char where
  "newline \<equiv> CHR 0x0A"

section \<open>Searching\<close>

definition HasPrefix :: "string \<Rightarrow> string \<Rightarrow> bool" where
  "HasPrefix s p \<longleftrightarrow> take (length p) s = p"

definition HasSuffix :: "string \<Rightarrow> string \<Rightarrow> bool" where
  "HasSuffix s p \<longleftrightarrow> HasPrefix (rev s) (rev p)"

definition TrimPrefix :: "string \<Rightarrow> string \<Rightarrow> string" where
  "TrimPrefix s p = (if HasPrefix s p then drop (length p) s else s)"

fun str_index :: "string \<Rightarrow> string \<Rightarrow> nat option" where
  "str_index [] sub = (if sub = [] then Some 0 else None)"
| "str_index (c # cs) sub =
     (if HasPrefix (c # cs) sub then Some 0 else map_option Suc (str_index cs sub))"

definition Contains :: "string \<Rightarrow> string \<Rightarrow> bool" where
  "Contains s sub \<longleftrightarrow> str_index s sub \<noteq> None"

definition Cut :: "string \<Rightarrow> string \<Rightarrow> string \<times> string \<times> bool" where
  "Cut s sep = (case str_index s sep of
       None \<Rightarrow> (s, [], False)
     | Some i \<Rightarrow> (take i s, drop (i + length sep) s, True))"

lemma HasPrefix_iff: "HasPrefix s p \<longleftrightarrow> (\<exists>r. s = p @ r)"
  by (auto simp: HasPrefix_def) (metis append_take_drop_id)

lemma HasPrefix_Nil [simp]: "HasPrefix s []"
  by (simp add: HasPrefix_def)

lemma HasPrefix_append [simp]: "HasPrefix (p @ r) p"
  by (simp add: HasPrefix_def)

lemma HasPrefix_Cons [simp]: "HasPrefix (c # s) (d # p) \<longleftrightarrow> c = d \<and> HasPrefix s p"
  by (auto simp: HasPrefix_def)

lemma HasPrefix_empty [simp]: "HasPrefix [] p \<longleftrightarrow> p = []"
  by (auto simp: HasPrefix_def)

lemma HasSuffix_iff: "HasSuffix s p \<longleftrightarrow> (\<exists>r. s = r @ p)"
proof -
  have "HasSuffix s p \<longleftrightarrow> (\<exists>r. rev s = rev p @ r)"
    by (simp add: HasSuffix_def HasPrefix_iff)
  also have "\<dots> \<longleftrightarrow> (\<exists>r. s = r @ p)"
    by (metis rev_append rev_rev_ident)
  finally show ?thesis .
qed

lemma str_index_Some:
  "str_index s sub = Some i \<Longrightarrow> i + length sub \<le> length s \<and> take (length sub) (drop i s) = sub"
proof (induction s arbitrary: i)
  case Nil
  then show ?case by (simp split: if_splits)
next
  case (Cons c cs)
  show ?case
  proof (cases "HasPrefix (c # cs) sub")
    case True
    with Cons.prems have "i = 0" by simp
    from True obtain r where "c # cs = sub @ r" by (auto simp: HasPrefix_iff)
    then have "length (c # cs) = length sub + length r" by simp
    with \<open>i = 0\<close> True show ?thesis by (simp add: HasPrefix_def)
  next
    case False
    with Cons.prems obtain j where "str_index cs sub = Some j" "i = Suc j" by auto
    with Cons.IH show ?thesis by simp
  qed
qed

lemma str_index_decomp:
  assumes "str_index s sub = Some i"
  shows "s = take i s @ sub @ drop (i + length sub) s"
proof -
  from str_index_Some [OF assms] have "take (length sub) (drop i s) = sub" by simp
  then have "drop i s = sub @ drop (length sub) (drop i s)"
    by (metis append_take_drop_id)
  then show ?thesis by (metis append_take_drop_id drop_drop add.commute)
qed

lemma str_index_Nil [simp]: "str_index s [] = Some 0"
  by (cases s) simp_all

lemma Contains_append: "Contains (a @ sub @ b) sub"
proof (induction a)
  case Nil
  have "HasPrefix (sub @ b) sub" by simp
  then have "str_index (sub @ b) sub = Some 0"
    by (cases "sub @ b") (simp_all only: str_index.simps, auto)
  then show ?case by (simp add: Contains_def)
next
  case (Cons c a)
  then show ?case by (auto simp: Contains_def)
qed

lemma Contains_iff: "Contains s sub \<longleftrightarrow> (\<exists>a b. s = a @ sub @ b)"
proof
  assume "Contains s sub"
  then obtain i where "str_index s sub = Some i" by (auto simp: Contains_def)
  from str_index_decomp [OF this] show "\<exists>a b. s = a @ sub @ b" by blast
next
  assume "\<exists>a b. s = a @ sub @ b"
  then show "Contains s sub" by (auto simp: Contains_append)
qed

lemma Contains_Cons:
  "Contains (c # s) sub \<longleftrightarrow> HasPrefix (c # s) sub \<or> Contains s sub"
  by (auto simp: Contains_def)

lemma Contains_Nil [simp]: "Contains [] sub \<longleftrightarrow> sub = []"
  by (simp add: Contains_def)

text \<open>The first occurrence is the first: nothing of the text before it starts a match.\<close>

lemma str_index_append:
  assumes "\<And>k. k < length a \<Longrightarrow> \<not> HasPrefix (drop k (a @ s)) sub"
    and "HasPrefix s sub"
  shows "str_index (a @ s) sub = Some (length a)"
  using assms
proof (induction a)
  case Nil
  then show ?case by (cases s) (auto simp: HasPrefix_def)
next
  case (Cons c a)
  from Cons.prems(1) [of 0] have no: "\<not> HasPrefix (c # a @ s) sub" by simp
  have "\<And>k. k < length a \<Longrightarrow> \<not> HasPrefix (drop k (a @ s)) sub"
    using Cons.prems(1) [of "Suc k" for k] by simp
  with Cons have "str_index (a @ s) sub = Some (length a)" by blast
  with no show ?case by simp
qed

lemma str_index_char:
  assumes "c \<notin> set a"
  shows "str_index (a @ c # b) [c] = Some (length a)"
proof (rule str_index_append)
  fix k assume k: "k < length a"
  then have "drop k (a @ c # b) = a ! k # drop (Suc k) (a @ c # b)"
    by (metis Cons_nth_drop_Suc length_append nth_append trans_less_add1)
  with k assms show "\<not> HasPrefix (drop k (a @ c # b)) [c]"
    by (metis HasPrefix_Cons nth_mem)
qed simp

lemma Cut_char: "c \<notin> set a \<Longrightarrow> Cut (a @ c # b) [c] = (a, b, True)"
  by (simp add: Cut_def str_index_char)

lemma str_index_char_None: "str_index s [c] = None \<longleftrightarrow> c \<notin> set s"
  by (induction s) auto

section \<open>Replacement\<close>

text \<open>
  \<open>strings.ReplaceAll\<close> with a non-empty \<open>old\<close> (the only use in the gateway): leftmost
  occurrences, not overlapping.
\<close>

function ReplaceAll :: "string \<Rightarrow> string \<Rightarrow> string \<Rightarrow> string" where
  "ReplaceAll s old new =
    (case s of
       [] \<Rightarrow> []
     | c # cs \<Rightarrow>
        if old \<noteq> [] \<and> HasPrefix s old then new @ ReplaceAll (drop (length old) s) old new
        else c # ReplaceAll cs old new)"
  by pat_completeness auto
termination
proof (relation "measure (\<lambda>(s, old, new). length s)", goal_cases)
  case (2 s old new c cs)
  then have "0 < length old" by simp
  with 2 show ?case by simp
qed simp_all

declare ReplaceAll.simps [simp del]

lemma ReplaceAll_Nil [simp]: "ReplaceAll [] old new = []"
  by (simp add: ReplaceAll.simps)

lemma ReplaceAll_prefix:
  "old \<noteq> [] \<Longrightarrow> HasPrefix s old \<Longrightarrow>
   ReplaceAll s old new = new @ ReplaceAll (drop (length old) s) old new"
  by (subst ReplaceAll.simps) (auto split: list.splits)

lemma ReplaceAll_step:
  "\<not> HasPrefix (c # cs) old \<Longrightarrow> ReplaceAll (c # cs) old new = c # ReplaceAll cs old new"
  by (subst ReplaceAll.simps) simp

lemma ReplaceAll_induct [case_names Nil match skip]:
  assumes "old \<noteq> []"
    and "P []"
    and "\<And>s. HasPrefix s old \<Longrightarrow> P (drop (length old) s) \<Longrightarrow> P s"
    and "\<And>c cs. \<not> HasPrefix (c # cs) old \<Longrightarrow> P cs \<Longrightarrow> P (c # cs)"
  shows "P s"
proof (induction s rule: length_induct)
  case (1 s)
  show ?case
  proof (cases s)
    case Nil
    with assms(2) show ?thesis by simp
  next
    case (Cons c cs)
    show ?thesis
    proof (cases "HasPrefix s old")
      case True
      have "length (drop (length old) s) < length s" using Cons assms(1) by simp
      with 1 True assms(3) show ?thesis by blast
    next
      case False
      with 1 Cons assms(4) show ?thesis by auto
    qed
  qed
qed

text \<open>
  Replacing by text made of stars: a star-free piece of the result was a piece of the input,
  and the replaced text itself is gone.
\<close>

abbreviation stars :: string where
  "stars \<equiv> ''***''"

lemma ReplaceAll_prefix_back:
  assumes "old \<noteq> []"
  shows "CHR ''*'' \<notin> set t \<Longrightarrow> HasPrefix (ReplaceAll s old stars) t \<Longrightarrow> HasPrefix s t"
proof (induction s arbitrary: t rule: ReplaceAll_induct [OF assms])
  case 1
  then show ?case by simp
next
  case (2 s)
  then show ?case by (cases t) (auto simp: ReplaceAll_prefix assms)
next
  case (3 c cs)
  then show ?case by (cases t) (auto simp: ReplaceAll_step)
qed

lemma Contains_stars:
  assumes "CHR ''*'' \<notin> set t" and "t \<noteq> []"
  shows "Contains (stars @ s) t \<longleftrightarrow> Contains s t"
  using assms by (cases t) (simp_all add: Contains_Cons)

lemma Contains_drop: "Contains (drop n s) t \<Longrightarrow> Contains s t"
  by (auto simp: Contains_iff) (metis append.assoc append_take_drop_id)

lemma ReplaceAll_no_new:
  assumes "old \<noteq> []" and "CHR ''*'' \<notin> set t" and "t \<noteq> []"
  shows "Contains (ReplaceAll s old stars) t \<Longrightarrow> Contains s t"
proof (induction s rule: ReplaceAll_induct [OF assms(1)])
  case 1
  then show ?case by simp
next
  case (2 s)
  then have "Contains (drop (length old) s) t"
    using assms by (metis ReplaceAll_prefix Contains_stars)
  then show ?case by (rule Contains_drop)
next
  case (3 c cs)
  then show ?case
    using ReplaceAll_prefix_back [OF assms(1,2), of "c # cs"]
    by (auto simp: ReplaceAll_step Contains_Cons)
qed

lemma ReplaceAll_gone:
  assumes "old \<noteq> []" and "CHR ''*'' \<notin> set old"
  shows "\<not> Contains (ReplaceAll s old stars) old"
proof (induction s rule: ReplaceAll_induct [OF assms(1)])
  case 1
  then show ?case using assms by simp
next
  case (2 s)
  then show ?case using assms by (metis ReplaceAll_prefix Contains_stars)
next
  case (3 c cs)
  then show ?case
    using ReplaceAll_prefix_back [OF assms, of "c # cs"]
    by (auto simp: ReplaceAll_step Contains_Cons)
qed

lemma ReplaceAll_id: "\<not> Contains s old \<Longrightarrow> ReplaceAll s old new = s"
  by (induction s) (auto simp: Contains_Cons ReplaceAll_step)

section \<open>Splitting and joining\<close>

text \<open>\<open>strings.Split\<close> at a one-byte separator.\<close>

fun split_on :: "char \<Rightarrow> string \<Rightarrow> string list" where
  "split_on c [] = [[]]"
| "split_on c (x # xs) =
     (if x = c then [] # split_on c xs
      else (case split_on c xs of [] \<Rightarrow> [[x]] | y # ys \<Rightarrow> (x # y) # ys))"

fun Join :: "string list \<Rightarrow> string \<Rightarrow> string" where
  "Join [] sep = []"
| "Join [x] sep = x"
| "Join (x # y # xs) sep = x @ sep @ Join (y # xs) sep"

lemma split_on_nonempty [simp]: "split_on c s \<noteq> []"
  by (induction s) (auto split: list.splits)

lemma split_on_none: "c \<notin> set s \<Longrightarrow> split_on c s = [s]"
  by (induction s) auto

lemma split_on_append:
  "c \<notin> set a \<Longrightarrow> split_on c (a @ c # b) = a # split_on c b"
  by (induction a) auto

lemma split_on_at: "split_on c (a @ c # b) = split_on c a @ split_on c b"
proof (induction a)
  case (Cons x a)
  obtain y ys where "split_on c a = y # ys" by (cases "split_on c a") auto
  with Cons show ?case by auto
qed simp

lemma split_on_no_sep: "p \<in> set (split_on c s) \<Longrightarrow> c \<notin> set p"
  by (induction s arbitrary: p) (auto split: if_splits list.splits)

lemma Join_split_on: "Join (split_on c s) [c] = s"
proof (induction s)
  case Nil
  show ?case by simp
next
  case (Cons x xs)
  obtain y ys where ys: "split_on c xs = y # ys"
    by (cases "split_on c xs") auto
  show ?case
    using Cons.IH ys by (cases ys) auto
qed

section \<open>White space\<close>

text \<open>
  \<open>unicode.IsSpace\<close>, each rune as its UTF-8 bytes. A byte sequence of this list at the
  start (end) of a string is always decoded as that rune, so trimming by these sequences is
  \<open>strings.TrimSpace\<close> on every byte string.
\<close>

definition space_runes :: "string list" where
  "space_runes = [
     [CHR 0x09], [CHR 0x0A], [CHR 0x0B], [CHR 0x0C], [CHR 0x0D], [CHR 0x20],
     [CHR 0xC2, CHR 0x85], [CHR 0xC2, CHR 0xA0], [CHR 0xE1, CHR 0x9A, CHR 0x80],
     [CHR 0xE2, CHR 0x80, CHR 0x80], [CHR 0xE2, CHR 0x80, CHR 0x81],
     [CHR 0xE2, CHR 0x80, CHR 0x82], [CHR 0xE2, CHR 0x80, CHR 0x83],
     [CHR 0xE2, CHR 0x80, CHR 0x84], [CHR 0xE2, CHR 0x80, CHR 0x85],
     [CHR 0xE2, CHR 0x80, CHR 0x86], [CHR 0xE2, CHR 0x80, CHR 0x87],
     [CHR 0xE2, CHR 0x80, CHR 0x88], [CHR 0xE2, CHR 0x80, CHR 0x89],
     [CHR 0xE2, CHR 0x80, CHR 0x8A], [CHR 0xE2, CHR 0x80, CHR 0xA8],
     [CHR 0xE2, CHR 0x80, CHR 0xA9], [CHR 0xE2, CHR 0x80, CHR 0xAF],
     [CHR 0xE2, CHR 0x81, CHR 0x9F], [CHR 0xE3, CHR 0x80, CHR 0x80]]"

definition leading :: "string list \<Rightarrow> string \<Rightarrow> string option" where
  "leading pats s = find (\<lambda>p. p \<noteq> [] \<and> HasPrefix s p) pats"

function trim_front :: "string list \<Rightarrow> string \<Rightarrow> string" where
  "trim_front pats s =
    (case leading pats s of None \<Rightarrow> s | Some p \<Rightarrow> trim_front pats (drop (length p) s))"
  by pat_completeness auto
termination
proof (relation "measure (\<lambda>(pats, s). length s)", goal_cases)
  case (2 pats s p)
  then have "p \<noteq> []" and "HasPrefix s p"
    by (auto simp: leading_def find_Some_iff)
  then show ?case by (cases s) auto
qed simp

declare trim_front.simps [simp del]

definition TrimLeft :: "string \<Rightarrow> string" where
  "TrimLeft s = trim_front space_runes s"

definition TrimRight :: "string \<Rightarrow> string" where
  "TrimRight s = rev (trim_front (map rev space_runes) (rev s))"

definition TrimSpace :: "string \<Rightarrow> string" where
  "TrimSpace s = TrimRight (TrimLeft s)"

lemma trim_front_stop: "leading pats s = None \<Longrightarrow> trim_front pats s = s"
  by (subst trim_front.simps) simp

lemma trim_front_done: "leading pats (trim_front pats s) = None"
proof (induction pats s rule: trim_front.induct)
  case (1 pats s)
  show ?case
    by (subst trim_front.simps) (auto split: option.splits simp: 1)
qed

lemma trim_front_idem [simp]: "trim_front pats (trim_front pats s) = trim_front pats s"
  by (rule trim_front_stop) (rule trim_front_done)

lemma trim_front_suffix: "\<exists>r. s = r @ trim_front pats s"
proof (induction pats s rule: trim_front.induct)
  case (1 pats s)
  show ?case
  proof (cases "leading pats s")
    case None
    then show ?thesis by (simp add: trim_front_stop)
  next
    case (Some p)
    then have "HasPrefix s p" by (auto simp: leading_def find_Some_iff)
    then obtain t where t: "s = p @ t" by (auto simp: HasPrefix_iff)
    from 1 [OF Some] obtain r where "drop (length p) s = r @ trim_front pats (drop (length p) s)"
      by blast
    with t Some show ?thesis
      by (subst trim_front.simps) (auto intro: exI [of _ "p @ r"])
  qed
qed

lemma leading_None_iff:
  "leading pats s = None \<longleftrightarrow> (\<forall>p\<in>set pats. p = [] \<or> \<not> HasPrefix s p)"
  by (auto simp: leading_def find_None_iff)

lemma leading_take:
  "leading pats (a @ b) = None \<Longrightarrow> leading pats a = None"
  by (auto simp: leading_None_iff HasPrefix_iff)

text \<open>
  A text that neither starts nor ends with a space is its own trim; this is decided on the
  first and the last byte for text whose ends are printable ASCII.
\<close>

definition trimmed :: "string \<Rightarrow> bool" where
  "trimmed s \<longleftrightarrow> leading space_runes s = None \<and> leading (map rev space_runes) (rev s) = None"

lemma TrimSpace_trimmed: "trimmed s \<Longrightarrow> TrimSpace s = s"
  by (simp add: trimmed_def TrimSpace_def TrimLeft_def TrimRight_def trim_front_stop)

lemma trimmed_TrimSpace: "trimmed (TrimSpace s)"
proof -
  let ?l = "trim_front space_runes s"
  let ?t = "TrimSpace s"
  have t: "?t = rev (trim_front (map rev space_runes) (rev ?l))"
    by (simp add: TrimSpace_def TrimLeft_def TrimRight_def)
  obtain r where "rev ?l = r @ trim_front (map rev space_runes) (rev ?l)"
    using trim_front_suffix by blast
  then have "?l = ?t @ rev r" unfolding t by (metis rev_append rev_rev_ident)
  moreover have "leading space_runes ?l = None" by (rule trim_front_done)
  ultimately have "leading space_runes ?t = None" using leading_take by metis
  moreover have "leading (map rev space_runes) (rev ?t) = None"
    unfolding t by (simp add: trim_front_done)
  ultimately show ?thesis by (simp add: trimmed_def)
qed

lemma TrimSpace_idem [simp]: "TrimSpace (TrimSpace s) = TrimSpace s"
  by (rule TrimSpace_trimmed) (rule trimmed_TrimSpace)

lemma trimmed_Nil [simp]: "trimmed []"
  by (simp add: trimmed_def leading_None_iff)

lemma TrimSpace_Nil [simp]: "TrimSpace [] = []"
  by (rule TrimSpace_trimmed) simp

text \<open>Printable ASCII other than the blank is never trimmed.\<close>

definition plain :: "char \<Rightarrow> bool" where
  "plain c \<longleftrightarrow> (of_char c :: nat) \<in> {0x21..0x7E}"

lemma space_ends: "p \<in> set space_runes \<Longrightarrow> p \<noteq> [] \<and> \<not> plain (hd p) \<and> \<not> plain (last p)"
  by (auto simp: space_runes_def plain_def)

lemma trimmed_plain:
  assumes "s \<noteq> []" and "plain (hd s)" and "plain (last s)"
  shows "trimmed s"
proof -
  have "\<not> HasPrefix s p" if "p \<in> set space_runes" for p
  proof
    assume "HasPrefix s p"
    then obtain r where "s = p @ r" by (auto simp: HasPrefix_iff)
    with assms(2) space_ends [OF that] show False by simp
  qed
  moreover have "\<not> HasPrefix (rev s) (rev p)" if "p \<in> set space_runes" for p
  proof
    assume "HasPrefix (rev s) (rev p)"
    then obtain r where "rev s = rev p @ r" by (auto simp: HasPrefix_iff)
    then have "s = rev r @ p" by (metis rev_append rev_rev_ident)
    with assms(3) space_ends [OF that] show False by simp
  qed
  ultimately show ?thesis by (auto simp: trimmed_def leading_None_iff)
qed

section \<open>Case folding\<close>

definition lower_char :: "char \<Rightarrow> char" where
  "lower_char c = (let n = of_char c in
     if (65::nat) \<le> n \<and> n \<le> 90 then char_of (n + 32) else c)"

definition ToLower :: "string \<Rightarrow> string" where
  "ToLower s = map lower_char s"

text \<open>
  \<open>EqualFold\<close> compares by Unicode's simple folding. Two runes beyond ASCII fold to an ASCII letter, the Kelvin sign to
  \<open>k\<close> and the long s to \<open>s\<close>; with them the comparison with an ASCII text is Go's. Other letters beyond ASCII are compared as they are.
\<close>

fun fold_case :: "string \<Rightarrow> string" where
  "fold_case [] = []"
| "fold_case (c # s) =
    (if c = CHR 0xE2 \<and> take 2 s = [CHR 0x84, CHR 0xAA] then CHR ''k'' # fold_case (drop 2 s)
     else if c = CHR 0xC5 \<and> take 1 s = [CHR 0xBF] then CHR ''s'' # fold_case (drop 1 s)
     else lower_char c # fold_case s)"

definition EqualFold :: "string \<Rightarrow> string \<Rightarrow> bool" where
  "EqualFold s t \<longleftrightarrow> fold_case s = fold_case t"

lemma lower_char_idem [simp]: "lower_char (lower_char c) = lower_char c"
  by (auto simp: lower_char_def Let_def of_char_of)

lemma ToLower_idem [simp]: "ToLower (ToLower s) = ToLower s"
  by (simp add: ToLower_def)

section \<open>Decimal numbers\<close>

fun show_nat :: "nat \<Rightarrow> string" where
  "show_nat n =
    (if n < 10 then [char_of (48 + n)] else show_nat (n div 10) @ [char_of (48 + n mod 10)])"

declare show_nat.simps [simp del]

definition show_int :: "int \<Rightarrow> string" where
  "show_int i = (if i < 0 then ''-'' @ show_nat (nat (- i)) else show_nat (nat i))"

definition is_digit :: "char \<Rightarrow> bool" where
  "is_digit c \<longleftrightarrow> (48::nat) \<le> of_char c \<and> of_char c \<le> (57::nat)"

fun read_digits :: "nat \<Rightarrow> string \<Rightarrow> nat option" where
  "read_digits acc [] = Some acc"
| "read_digits acc (c # cs) =
     (if is_digit c then read_digits (10 * acc + (of_char c - 48)) cs else None)"

text \<open>
  \<open>strconv.Atoi\<close>: an optional sign and at least one digit, in the range of a 64-bit
  \<open>int\<close>.
\<close>

definition Atoi :: "string \<Rightarrow> int option" where
  "Atoi s =
    (let (neg, ds) = (case s of
          [] \<Rightarrow> (False, [])
        | c # cs \<Rightarrow> if c = CHR ''-'' then (True, cs) else if c = CHR ''+'' then (False, cs) else (False, s))
     in if ds = [] then None
        else (case read_digits 0 ds of
                None \<Rightarrow> None
              | Some n \<Rightarrow>
                 (let i = (if neg then - int n else int n)
                  in if - (2 ^ 63) \<le> i \<and> i < 2 ^ 63 then Some i else None)))"

lemma read_digits_append:
  "read_digits acc (xs @ ys) =
     (case read_digits acc xs of None \<Rightarrow> None | Some n \<Rightarrow> read_digits n ys)"
  by (induction xs arbitrary: acc) auto

lemma of_char_digit [simp]:
  "d < 10 \<Longrightarrow> of_char (char_of (48 + d) :: char) = (48 + d :: nat)"
  by (simp add: of_char_of)

lemma read_show_nat: "read_digits 0 (show_nat n) = Some n"
proof (induction n rule: show_nat.induct)
  case (1 n)
  show ?case
  proof (cases "n < 10")
    case True
    then show ?thesis by (subst show_nat.simps) (simp add: is_digit_def)
  next
    case False
    with 1 have "read_digits 0 (show_nat (n div 10)) = Some (n div 10)" by simp
    with False show ?thesis
      by (subst show_nat.simps) (simp add: read_digits_append is_digit_def)
  qed
qed

lemma show_nat_inj [simp]: "show_nat m = show_nat n \<longleftrightarrow> m = n"
  by (metis option.inject read_show_nat)

lemma show_nat_nonempty [simp]: "show_nat n \<noteq> []"
  by (subst show_nat.simps) simp

lemma show_nat_digits: "c \<in> set (show_nat n) \<Longrightarrow> is_digit c"
proof (induction n rule: show_nat.induct)
  case (1 n)
  then show ?case
    by (cases "n < 10") (auto simp: show_nat.simps [of n] is_digit_def)
qed

lemma Atoi_show_nat:
  assumes "n < 2 ^ 63"
  shows "Atoi (show_nat n) = Some (int n)"
proof -
  obtain c cs where s: "show_nat n = c # cs"
    by (cases "show_nat n") auto
  then have "is_digit c" using show_nat_digits by (metis list.set_intros(1))
  then have "c \<noteq> CHR ''-''" and "c \<noteq> CHR ''+''" by (auto simp: is_digit_def)
  then have "Atoi (show_nat n) = (case read_digits 0 (show_nat n) of None \<Rightarrow> None
      | Some n \<Rightarrow> (if - (2 ^ 63) \<le> int n \<and> int n < 2 ^ 63 then Some (int n) else None))"
    by (simp add: Atoi_def s Let_def split: option.splits)
  with assms show ?thesis by (simp add: read_show_nat)
qed

section \<open>Fields\<close>

text \<open>\<open>strings.Fields\<close>: the maximal runs of non-space runes.\<close>

function fields_from :: "string \<Rightarrow> string \<Rightarrow> string list" where
  "fields_from cur s =
    (case s of
       [] \<Rightarrow> if cur = [] then [] else [rev cur]
     | c # cs \<Rightarrow>
        (case leading space_runes s of
           Some p \<Rightarrow> (if cur = [] then [] else [rev cur]) @ fields_from [] (drop (length p) s)
         | None \<Rightarrow> fields_from (c # cur) cs))"
  by pat_completeness auto
termination
proof (relation "measure (\<lambda>(cur, s). length s)", goal_cases)
  case (2 cur s c cs)
  then show ?case by simp
next
  case (3 cur s c cs p)
  then have "p \<noteq> []" by (auto simp: leading_def find_Some_iff)
  with 3 show ?case by simp
qed simp_all

declare fields_from.simps [simp del]

definition Fields :: "string \<Rightarrow> string list" where
  "Fields s = fields_from [] s"

end
