(* ===== verification/Errors.thy ===== *)
theory Errors
  imports GoStrings
begin

text \<open>
  Go errors as values (\<open>providers/errors.go\<close>, package \<open>errors\<close>, and the error values
  of the other packages). An error is a sentinel, a wrapper or a leaf with a text; the
  functions \<open>errors.Is\<close>, \<open>IsTemporary\<close> (an \<open>errors.As\<close> for the \<open>Temporary\<close> method)
  and \<open>Error()\<close> follow the chain of \<open>Unwrap\<close> as the library does.
\<close>

section \<open>Error values\<close>

text \<open>
  The sentinels of the gateway, \<open>context.Canceled\<close> and \<open>context.DeadlineExceeded\<close>:
  values compared by identity.
\<close>

datatype sentinel =
    ErrNotFound | ErrNotSupported | ErrAuth | ErrConflict | ErrUnavailable
  | Canceled | DeadlineExceeded
  | ErrTooManySessions | ErrTooManySessionsForEnv
  | ErrNoAuthMethods | ErrNoConfig
  | ErrStdioUnsupported | ErrGHMissing | ErrNoPTY | ErrNoToken

text \<open>A non-2xx answer of the GitHub API (\<open>providers/github/api.go\<close>); durations are in ns.\<close>

record api_error =
  ae_Method :: string
  ae_Path :: string
  ae_Status :: int
  ae_Message :: string
  ae_DocURL :: string
  ae_RetryAfter :: int
  ae_rateLimit :: bool

text \<open>
  \<open>Errorf s\<close> is a fresh error with no cause, \<open>Wrapf p e s\<close> a \<open>fmt.Errorf\<close> whose
  format puts \<open>e\<close> at a \<open>%w\<close> between the texts \<open>p\<close> and \<open>s\<close>, \<open>Ext s b\<close> an
  error of code outside the repository with the answer of its \<open>Temporary\<close> method, if it
  has one.
\<close>

datatype goerr =
    Sentinel sentinel
  | TemporaryError goerr
  | NotFoundError string string
  | ApiError api_error
  | Errorf string
  | Wrapf string goerr string
  | Ext string "bool option"

section \<open>The API error's own methods\<close>

definition http_StatusText :: "int \<Rightarrow> string" where
  "http_StatusText code = (case map_of
    [(100, ''Continue''),
     (101, ''Switching Protocols''),
     (102, ''Processing''),
     (103, ''Early Hints''),
     (200, ''OK''),
     (201, ''Created''),
     (202, ''Accepted''),
     (203, ''Non-Authoritative Information''),
     (204, ''No Content''),
     (205, ''Reset Content''),
     (206, ''Partial Content''),
     (207, ''Multi-Status''),
     (208, ''Already Reported''),
     (226, ''IM Used''),
     (300, ''Multiple Choices''),
     (301, ''Moved Permanently''),
     (302, ''Found''),
     (303, ''See Other''),
     (304, ''Not Modified''),
     (305, ''Use Proxy''),
     (307, ''Temporary Redirect''),
     (308, ''Permanent Redirect''),
     (400, ''Bad Request''),
     (401, ''Unauthorized''),
     (402, ''Payment Required''),
     (403, ''Forbidden''),
     (404, ''Not Found''),
     (405, ''Method Not Allowed''),
     (406, ''Not Acceptable''),
     (407, ''Proxy Authentication Required''),
     (408, ''Request Timeout''),
     (409, ''Conflict''),
     (410, ''Gone''),
     (411, ''Length Required''),
     (412, ''Precondition Failed''),
     (413, ''Request Entity Too Large''),
     (414, ''Request URI Too Long''),
     (415, ''Unsupported Media Type''),
     (416, ''Requested Range Not Satisfiable''),
     (417, ''Expectation Failed''),
     (418, ''I'' @ [CHR 0x27] @ ''m a teapot''),
     (421, ''Misdirected Request''),
     (422, ''Unprocessable Entity''),
     (423, ''Locked''),
     (424, ''Failed Dependency''),
     (425, ''Too Early''),
     (426, ''Upgrade Required''),
     (428, ''Precondition Required''),
     (429, ''Too Many Requests''),
     (431, ''Request Header Fields Too Large''),
     (451, ''Unavailable For Legal Reasons''),
     (500, ''Internal Server Error''),
     (501, ''Not Implemented''),
     (502, ''Bad Gateway''),
     (503, ''Service Unavailable''),
     (504, ''Gateway Timeout''),
     (505, ''HTTP Version Not Supported''),
     (506, ''Variant Also Negotiates''),
     (507, ''Insufficient Storage''),
     (508, ''Loop Detected''),
     (510, ''Not Extended''),
     (511, ''Network Authentication Required'')] code of None \<Rightarrow> [] | Some t \<Rightarrow> t)"

definition api_unwrap :: "api_error \<Rightarrow> sentinel option" where
  "api_unwrap e =
    (if ae_Status e = 401 then Some ErrAuth
     else if ae_Status e = 403 \<and> \<not> ae_rateLimit e then Some ErrAuth
     else if ae_Status e = 404 then Some ErrNotFound
     else if ae_Status e = 409 then Some ErrConflict
     else if ae_Status e = 503 then Some ErrUnavailable
     else None)"

definition api_temporary :: "api_error \<Rightarrow> bool" where
  "api_temporary e \<longleftrightarrow> ae_Status e = 429 \<or> ae_Status e \<ge> 500 \<or> ae_rateLimit e"

definition api_error_text :: "api_error \<Rightarrow> string" where
  "api_error_text e =
    (let msg = (if ae_Message e = [] then http_StatusText (ae_Status e) else ae_Message e);
         pre = ''github api '' @ ae_Method e @ '' '' @ ae_Path e @ '': ''
     in if ae_Status e = 401 then
          pre @ ''401 '' @ msg @ '' (token invalid, expired or revoked)''
        else if ae_Status e = 403 then
          (if ae_rateLimit e then pre @ ''403 rate limited ('' @ msg @ '')''
           else pre @ ''403 '' @ msg @ '' (token is missing the '' @ [CHR 0x22] @ ''codespace'' @
                [CHR 0x22] @ '' scope?)'')
        else pre @ show_int (ae_Status e) @ '' '' @ msg)"

section \<open>Walking the chain\<close>

fun unwrap :: "goerr \<Rightarrow> goerr option" where
  "unwrap (TemporaryError e) = Some e"
| "unwrap (NotFoundError _ _) = Some (Sentinel ErrNotFound)"
| "unwrap (ApiError a) = map_option Sentinel (api_unwrap a)"
| "unwrap (Wrapf _ e _) = Some e"
| "unwrap _ = None"

fun errors_Is :: "goerr \<Rightarrow> sentinel \<Rightarrow> bool" where
  "errors_Is (Sentinel s) t \<longleftrightarrow> s = t"
| "errors_Is (TemporaryError e) t \<longleftrightarrow> errors_Is e t"
| "errors_Is (NotFoundError _ _) t \<longleftrightarrow> t = ErrNotFound"
| "errors_Is (ApiError a) t \<longleftrightarrow> api_unwrap a = Some t"
| "errors_Is (Errorf _) t \<longleftrightarrow> False"
| "errors_Is (Wrapf _ e _) t \<longleftrightarrow> errors_Is e t"
| "errors_Is (Ext _ _) t \<longleftrightarrow> False"

text \<open>
  \<open>IsTemporary\<close>: the first error of the chain with a \<open>Temporary\<close> method decides.
  \<open>context.DeadlineExceeded\<close> has one, and it answers true.
\<close>

fun IsTemporary :: "goerr \<Rightarrow> bool" where
  "IsTemporary (Sentinel s) \<longleftrightarrow> s = DeadlineExceeded"
| "IsTemporary (TemporaryError _) \<longleftrightarrow> True"
| "IsTemporary (NotFoundError _ _) \<longleftrightarrow> False"
| "IsTemporary (ApiError a) \<longleftrightarrow> api_temporary a"
| "IsTemporary (Errorf _) \<longleftrightarrow> False"
| "IsTemporary (Wrapf _ e _) \<longleftrightarrow> IsTemporary e"
| "IsTemporary (Ext _ b) \<longleftrightarrow> b = Some True"

text \<open>\<open>errors.As\<close> for \<open>*apiError\<close>.\<close>

fun as_api_error :: "goerr \<Rightarrow> api_error option" where
  "as_api_error (ApiError a) = Some a"
| "as_api_error (TemporaryError e) = as_api_error e"
| "as_api_error (Wrapf _ e _) = as_api_error e"
| "as_api_error _ = None"

fun sentinel_text :: "sentinel \<Rightarrow> string" where
  "sentinel_text ErrNotFound = ''environment not found''"
| "sentinel_text ErrNotSupported = ''not supported by provider''"
| "sentinel_text ErrAuth = ''provider authentication failed''"
| "sentinel_text ErrConflict = ''conflicting operation in progress''"
| "sentinel_text ErrUnavailable = ''environment unavailable''"
| "sentinel_text Canceled = ''context canceled''"
| "sentinel_text DeadlineExceeded = ''context deadline exceeded''"
| "sentinel_text ErrTooManySessions = ''too many sessions''"
| "sentinel_text ErrTooManySessionsForEnv = ''too many sessions for environment''"
| "sentinel_text ErrNoAuthMethods =
     ''no authentication configured for a non-loopback listener: '' @
     ''bind ssh.listen to 127.0.0.1, or add a public key (ssh.authorized_keys / '' @
     ''ssh.authorized_keys_inline) or set ssh.password_auth: true''"
| "sentinel_text ErrNoConfig = ''config file not found''"
| "sentinel_text ErrStdioUnsupported =
     ''gh codespace ssh --stdio is not supported by this gh version''"
| "sentinel_text ErrGHMissing =
     ''the GitHub CLI (gh) is required to open a codespace connection; '' @
     ''install it from https://cli.github.com or set github.gh_path''"
| "sentinel_text ErrNoPTY =
     ''the exec connector needs a local pty, which this build does not provide; '' @
     ''set github.connector: stdio''"
| "sentinel_text ErrNoToken =
     ''no GitHub token available: set github.token, github.token_file, '' @
     ''$GITHUB_TOKEN/$GH_TOKEN, or sign in with `gh auth login`''"

text \<open>
  \<open>%q\<close>: a double-quoted Go literal. Bytes from 0x80 on are left alone, as for printable
  Unicode text.
\<close>

definition hex_digit :: "nat \<Rightarrow> char" where
  "hex_digit n = (if n < 10 then char_of (48 + n) else char_of (87 + n))"

definition quote_char :: "char \<Rightarrow> string" where
  "quote_char c = (let n = (of_char c :: nat) in
     if n = 34 \<or> n = 92 then [CHR 0x5C, c]
     else if n = 7 then [CHR 0x5C, CHR ''a''] else if n = 8 then [CHR 0x5C, CHR ''b'']
     else if n = 9 then [CHR 0x5C, CHR ''t''] else if n = 10 then [CHR 0x5C, CHR ''n'']
     else if n = 11 then [CHR 0x5C, CHR ''v''] else if n = 12 then [CHR 0x5C, CHR ''f'']
     else if n = 13 then [CHR 0x5C, CHR ''r'']
     else if n < 32 \<or> n = 127 then [CHR 0x5C, CHR ''x'', hex_digit (n div 16), hex_digit (n mod 16)]
     else [c])"

definition quote :: "string \<Rightarrow> string" where
  "quote s = [CHR 0x22] @ concat (map quote_char s) @ [CHR 0x22]"

fun err_text :: "goerr \<Rightarrow> string" where
  "err_text (Sentinel s) = sentinel_text s"
| "err_text (TemporaryError e) = err_text e"
| "err_text (NotFoundError p i) =
     (if i = [] then p @ '': '' @ sentinel_text ErrNotFound
      else p @ '': environment '' @ quote i @ '' not found'')"
| "err_text (ApiError a) = api_error_text a"
| "err_text (Errorf s) = s"
| "err_text (Wrapf p e s) = p @ err_text e @ s"
| "err_text (Ext s _) = s"

definition Temporary :: "goerr option \<Rightarrow> goerr option" where
  "Temporary err = (case err of None \<Rightarrow> None | Some e \<Rightarrow> Some (TemporaryError e))"

section \<open>Facts about chains\<close>

lemma errors_Is_unwrap:
  "errors_Is e t \<longleftrightarrow>
     e = Sentinel t \<or> (\<exists>e'. unwrap e = Some e' \<and> errors_Is e' t)"
  by (cases e) auto

lemma api_unwrap_temporary:
  "api_unwrap a = Some s \<Longrightarrow> s \<in> {ErrAuth, ErrNotFound, ErrConflict, ErrUnavailable}"
  by (auto simp: api_unwrap_def split: if_splits)

lemma api_auth_rate_limit:
  "api_unwrap a = Some ErrAuth \<Longrightarrow> ae_Status a \<noteq> 401 \<Longrightarrow> \<not> api_temporary a"
  by (auto simp: api_unwrap_def api_temporary_def split: if_splits)

end
