(* ===== verification/Providers.thy ===== *)
theory Providers
  imports Errors "HOL-Library.Multiset"
begin

text \<open>
  The provider-neutral vocabulary (\<open>providers/\<close>): the runtime states of a remote
  environment, its data, the session request of a client, capabilities, and the registry of
  compiled-in providers (\<open>Register\<close>, \<open>Lookup\<close>, \<open>Registrations\<close>, \<open>New\<close>).
\<close>

section \<open>States (providers/environment.go)\<close>

datatype pstate =
    StateUnknown | StateNotFound | StateProvisioning | StateStarting | StateRunning
  | StateStopping | StateStopped | StateFailed | StateUnavailable

fun state_name :: "pstate \<Rightarrow> string" where
  "state_name StateUnknown = ''UNKNOWN''"
| "state_name StateNotFound = ''NOT_FOUND''"
| "state_name StateProvisioning = ''PROVISIONING''"
| "state_name StateStarting = ''STARTING''"
| "state_name StateRunning = ''RUNNING''"
| "state_name StateStopping = ''STOPPING''"
| "state_name StateStopped = ''STOPPED''"
| "state_name StateFailed = ''FAILED''"
| "state_name StateUnavailable = ''UNAVAILABLE''"

definition Transitional :: "pstate \<Rightarrow> bool" where
  "Transitional s \<longleftrightarrow> s \<in> {StateProvisioning, StateStarting, StateStopping}"

definition Connectable :: "pstate \<Rightarrow> bool" where
  "Connectable s \<longleftrightarrow> s = StateRunning"

definition Startable :: "pstate \<Rightarrow> bool" where
  "Startable s \<longleftrightarrow> s \<in> {StateStopped, StateUnknown, StateFailed}"

text \<open>No state is in two of the three classes.\<close>

lemma state_classes_disjoint:
  "\<not> (Connectable s \<and> Startable s)" "\<not> (Connectable s \<and> Transitional s)"
  "\<not> (Startable s \<and> Transitional s)"
  by (auto simp: Connectable_def Startable_def Transitional_def)

section \<open>Environments\<close>

record environment =
  env_ID :: string
  env_DisplayName :: string
  env_Provider :: string
  env_State :: pstate
  env_NativeState :: string
  env_Attributes :: "(string, string) gomap"
  env_IdleTimeout :: int
  env_LastUsedAt :: "int option"
  env_WebURL :: string

text \<open>The zero \<open>Environment{}\<close> that an error return carries.\<close>

definition no_env :: environment where
  "no_env = \<lparr>env_ID = [], env_DisplayName = [], env_Provider = [], env_State = StateUnknown,
     env_NativeState = [], env_Attributes = [], env_IdleTimeout = 0, env_LastUsedAt = None,
     env_WebURL = []\<rparr>"

definition AttrLine :: "environment \<Rightarrow> string" where
  "AttrLine e =
    Join (map (\<lambda>k. k @ ''='' @ getz (env_Attributes e) k [])
            (sort (gokeys (env_Attributes e)))) '' ''"

text \<open>The attribute line does not depend on the order in which Go ranges over the map.\<close>

lemma AttrLine_order:
  assumes "distinct (map fst (env_Attributes e))" "distinct (map fst (env_Attributes e'))"
    and "map_of (env_Attributes e) = map_of (env_Attributes e')"
  shows "AttrLine e = AttrLine e'"
proof -
  have "set (map fst (env_Attributes e)) = set (map fst (env_Attributes e'))"
    using assms(3) by (metis dom_map_of_conv_image_fst image_set)
  with assms(1,2) have "sort (gokeys (env_Attributes e)) = sort (gokeys (env_Attributes e'))"
    unfolding gokeys_def
    by (metis distinct_sort set_sort sorted_distinct_set_unique sorted_sort)
  with assms(3) show ?thesis by (simp add: AttrLine_def getz_def)
qed

text \<open>
  A dynamically typed option value: \<open>CreateSpec.Options\<close> maps names to \<open>any\<close>. The last
  constructor is a value of another type with its \<open>fmt.Sprint\<close> text; a \<open>float64\<close> is
  given by its truncation and its text.
\<close>

datatype anyval = AnyInt int | AnyInt64 int | AnyFloat64 int string | AnyString string | AnyOther string

record create_spec =
  cs_Name :: string
  cs_Options :: "(string, anyval) gomap"

section \<open>Session requests (providers/conn.go)\<close>

record connect_request =
  req_PTY :: bool
  req_Term :: string
  req_Rows :: "16 word"
  req_Cols :: "16 word"
  req_Modes :: string
  req_Command :: string
  req_Subsystem :: string
  req_Env :: "(string, string) gomap"
  req_Progress :: "nat option"

record exit_status =
  ex_Code :: int
  ex_Signal :: string

section \<open>Capabilities (providers/capabilities.go)\<close>

datatype idle_attribution =
  IdleAttributionUnverified | IdleAttributionDocumented | IdleAttributionNone

record capabilities =
  cap_Create :: bool
  cap_Stop :: bool
  cap_Subsystems :: bool
  cap_Signals :: bool
  cap_Resize :: bool
  cap_ProviderManagedIdle :: bool
  cap_IdleMechanism :: string
  cap_SSHActivityAttribution :: idle_attribution
  cap_Notes :: "string list"

section \<open>The registry (providers/provider.go)\<close>

text \<open>
  \<open>'f\<close> is the type of the factory function; a missing factory is \<open>None\<close>. A panic of
  \<open>Register\<close> is the left side of the sum.
\<close>

record 'f registration =
  reg_Name :: string
  reg_Summary :: string
  reg_ConfigKey :: string
  reg_DefaultEnvironmentKey :: string
  reg_Factory :: "'f option"

type_synonym 'f registry = "(string, 'f registration) gomap"

definition Register :: "'f registration \<Rightarrow> 'f registry \<Rightarrow> string + 'f registry" where
  "Register r reg =
    (if reg_Name r = [] \<or> reg_Factory r = None then
       Inl ''providers: registration needs a name and a factory''
     else if map_of reg (reg_Name r) \<noteq> None then
       Inl (''providers: duplicate registration for '' @ reg_Name r)
     else
       (let r1 = (if reg_ConfigKey r = [] then r\<lparr>reg_ConfigKey := reg_Name r\<rparr> else r);
            r2 = (if reg_DefaultEnvironmentKey r1 = []
                  then r1\<lparr>reg_DefaultEnvironmentKey := ''environment''\<rparr> else r1)
        in Inr (AList.update (reg_Name r) r2 reg)))"

definition Lookup :: "string \<Rightarrow> 'f registry \<Rightarrow> 'f registration option" where
  "Lookup name reg = map_of reg name"

definition Registrations :: "'f registry \<Rightarrow> 'f registration list" where
  "Registrations reg = sort_key reg_Name (map snd reg)"

text \<open>
  \<open>New\<close> calls the factory of the named provider. \<open>%v\<close> of a string slice is the names
  between brackets, separated by blanks. The factory's outcome is \<open>'f\<close> itself here; the
  defaults \<open>deps.Logger\<close> and \<open>deps.Redact\<close> only replace a nil value by a no-op.
\<close>

definition New_provider :: "string \<Rightarrow> 'f registry \<Rightarrow> goerr + 'f" where
  "New_provider name reg =
    (case Lookup name reg of
       None \<Rightarrow> Inl (Errorf (''unknown provider '' @ quote name @ '' (known: ['' @
                 Join (map reg_Name (Registrations reg)) '' '' @ ''])''))
     | Some r \<Rightarrow> (case reg_Factory r of
           None \<Rightarrow> Inl (Errorf ''nil factory'')
         | Some f \<Rightarrow> Inr f))"

text \<open>
  The registry invariant: keys are unique, an entry is stored under its own name, and it
  has a name, a factory, a config key and a default-environment key.
\<close>

definition registry_ok :: "'f registry \<Rightarrow> bool" where
  "registry_ok reg \<longleftrightarrow> distinct (map fst reg) \<and>
     (\<forall>(k, r)\<in>set reg. reg_Name r = k \<and> k \<noteq> [] \<and> reg_Factory r \<noteq> None \<and>
        reg_ConfigKey r \<noteq> [] \<and> reg_DefaultEnvironmentKey r \<noteq> [])"

lemma registry_ok_Nil [simp]: "registry_ok []"
  by (simp add: registry_ok_def)

lemma Register_ok:
  assumes "registry_ok reg" and "Register r reg = Inr reg'"
  shows "registry_ok reg'"
proof -
  from assms(2) have new: "reg_Name r \<noteq> []" "reg_Factory r \<noteq> None"
      "reg_Name r \<notin> fst ` set reg"
    by (auto simp: Register_def map_of_eq_None_iff split: if_splits)
  from assms(2) new show ?thesis
    using assms(1)
    by (auto simp: Register_def registry_ok_def Let_def update_fresh split: if_splits)
qed

lemma Register_lookup:
  assumes "Register r reg = Inr reg'"
  shows "Lookup n reg' = (if n = reg_Name r then Lookup n reg' else Lookup n reg)"
    and "Lookup (reg_Name r) reg' \<noteq> None"
  using assms by (auto simp: Register_def Lookup_def Let_def split: if_splits)

lemma registry_names:
  "registry_ok reg \<Longrightarrow> map reg_Name (map snd reg) = map fst reg"
  by (auto simp: registry_ok_def)

lemma Registrations_sorted:
  assumes "registry_ok reg"
  shows "sorted (map reg_Name (Registrations reg))"
    and "distinct (map reg_Name (Registrations reg))"
    and "set (map reg_Name (Registrations reg)) = fst ` set reg"
proof -
  have m: "mset (map reg_Name (Registrations reg)) = mset (map fst reg)"
    using registry_names [OF assms] by (metis Registrations_def mset_map mset_sort)
  show "sorted (map reg_Name (Registrations reg))"
    by (simp add: Registrations_def)
  from m assms show "distinct (map reg_Name (Registrations reg))"
    by (metis mset_eq_imp_distinct_iff registry_ok_def)
  from m show "set (map reg_Name (Registrations reg)) = fst ` set reg"
    by (metis image_set mset_eq_setD)
qed

lemma New_known:
  assumes "registry_ok reg"
  shows "is_ok (New_provider name reg) \<longleftrightarrow> name \<in> fst ` set reg"
proof (cases "map_of reg name")
  case None
  then have "name \<notin> fst ` set reg" by (simp add: map_of_eq_None_iff)
  with None show ?thesis by (simp add: New_provider_def Lookup_def)
next
  case (Some r)
  then have "(name, r) \<in> set reg" by (rule map_of_SomeD)
  with assms have "reg_Factory r \<noteq> None" and "name \<in> fst ` set reg"
    by (force simp: registry_ok_def)+
  with Some show ?thesis by (auto simp: New_provider_def Lookup_def)
qed

end
