(* ===== verification/Lifecycle.thy ===== *)
theory Lifecycle
  imports Providers
begin

text \<open>
  The lifecycle manager (\<open>core/lifecycle\<close>), its state and its sequential code: phases and
  their history (\<open>phase.go\<close>), the manager's bookkeeping (\<open>manager.go\<close>), the state machine
  \<open>ensure\<close> with its polling loop (\<open>ensure.go\<close>), and opening, closing and stopping
  (\<open>connect.go\<close>). The provider, the clock and the \<open>select\<close> statements are the record
  \<open>prov\<close>, a parameter. What happens when several callers are in \<open>Ensure\<close> at once is in
  theory \<open>SingleFlight\<close>, over the same critical sections.
\<close>

section \<open>Phases (core/lifecycle/phase.go)\<close>

datatype phase =
    PhaseUnknown | PhaseStopped | PhaseProvisioning | PhaseStarting | PhaseRunning
  | PhaseConnecting | PhaseConnected | PhaseStopping | PhaseProviderManaged | PhaseFailed

fun phase_name :: "phase \<Rightarrow> string" where
  "phase_name PhaseUnknown = ''UNKNOWN''"
| "phase_name PhaseStopped = ''STOPPED''"
| "phase_name PhaseProvisioning = ''PROVISIONING''"
| "phase_name PhaseStarting = ''STARTING''"
| "phase_name PhaseRunning = ''RUNNING''"
| "phase_name PhaseConnecting = ''CONNECTING''"
| "phase_name PhaseConnected = ''CONNECTED''"
| "phase_name PhaseStopping = ''STOPPING''"
| "phase_name PhaseProviderManaged = ''IDLE/PROVIDER_MANAGED''"
| "phase_name PhaseFailed = ''FAILED''"

fun PhaseForState :: "pstate \<Rightarrow> phase" where
  "PhaseForState StateRunning = PhaseRunning"
| "PhaseForState StateStopped = PhaseStopped"
| "PhaseForState StateStarting = PhaseStarting"
| "PhaseForState StateProvisioning = PhaseProvisioning"
| "PhaseForState StateStopping = PhaseStopping"
| "PhaseForState StateFailed = PhaseFailed"
| "PhaseForState _ = PhaseUnknown"

text \<open>
  The notices, in the source's words: "does not exist, creating", "stopped, starting",
  "shutting down, will start it afterwards", "ready", "connecting", "could not be prepared".
\<close>

fun Notice :: "phase \<Rightarrow> string" where
  "Notice PhaseProvisioning = ''codespace '' @ utf8 [0x4E0D, 0x5B58, 0x5728, 0xFF0C, 0x6B63, 0x5728, 0x521B, 0x5EFA, 0x2026]"
| "Notice PhaseStarting = ''codespace '' @ utf8 [0x5DF2, 0x505C, 0x6B62, 0xFF0C, 0x6B63, 0x5728, 0x542F, 0x52A8, 0x2026]"
| "Notice PhaseStopping = ''codespace '' @ utf8 [0x6B63, 0x5728, 0x5173, 0x673A, 0xFF0C, 0x7B49, 0x5B83, 0x7ED3, 0x675F, 0x540E, 0x518D, 0x542F, 0x52A8, 0x2026]"
| "Notice PhaseRunning = ''codespace '' @ utf8 [0x5DF2, 0x5C31, 0x7EEA]"
| "Notice PhaseConnecting = utf8 [0x6B63, 0x5728, 0x5EFA, 0x7ACB, 0x8FDE, 0x63A5, 0x2026]"
| "Notice PhaseFailed = utf8 [0x51C6, 0x5907] @ '' codespace '' @ utf8 [0x5931, 0x8D25]"
| "Notice _ = []"

record transition =
  tr_From :: phase
  tr_To :: phase
  tr_At :: int
  tr_Reason :: string

definition maxHistory :: nat where
  "maxHistory = 32"

section \<open>Options and state (core/lifecycle/manager.go)\<close>

text \<open>Durations and times are in nanoseconds.\<close>

definition second :: int where
  "second = 1000000000"

record options =
  AutoCreate :: bool
  StartTimeout :: int
  CreateTimeout :: int
  ConnectTimeout :: int
  PollInterval :: int
  ConnectRetries :: int
  StopOnLastDisconnect :: bool

definition withDefaults :: "options \<Rightarrow> options" where
  "withDefaults o1 =
    (let o2 = (if StartTimeout o1 \<le> 0 then o1\<lparr>StartTimeout := 5 * 60 * second\<rparr> else o1);
         o3 = (if CreateTimeout o2 \<le> 0 then o2\<lparr>CreateTimeout := 20 * 60 * second\<rparr> else o2);
         o4 = (if ConnectTimeout o3 \<le> 0 then o3\<lparr>ConnectTimeout := 2 * 60 * second\<rparr> else o3);
         o5 = (if PollInterval o4 \<le> 0 then o4\<lparr>PollInterval := 2 * second\<rparr> else o4)
     in if ConnectRetries o5 < 0 then o5\<lparr>ConnectRetries := 0\<rparr> else o5)"

record env_state =
  es_phase :: phase
  es_since :: int
  es_resolved :: string
  es_native :: string
  es_lastErr :: string
  es_starts :: int
  es_creates :: int
  es_connects :: int
  es_history :: "transition list"

text \<open>
  One in-flight \<open>Ensure\<close>. Operations are pointers in Go; here they index \<open>m_opobjs\<close>.
  A notifier is the number of a callback.
\<close>

record operation =
  op_done :: bool
  op_result :: "(goerr + environment) option"
  op_waiters :: int
  op_cancelled :: bool
  op_startedAt :: int
  op_notifiers :: "(int, nat) gomap"
  op_nextToken :: int

record manager =
  m_opts :: options
  m_states :: "(string, env_state) gomap"
  m_ops :: "(string, nat) gomap"
  m_opobjs :: "operation list"
  m_delivered :: "(nat \<times> string) list"

definition New_manager :: "options \<Rightarrow> manager" where
  "New_manager opts = \<lparr>m_opts = withDefaults opts, m_states = [], m_ops = [], m_opobjs = [],
     m_delivered = []\<rparr>"

definition addNotifier :: "operation \<Rightarrow> nat option \<Rightarrow> int \<times> operation" where
  "addNotifier op fn =
    (case fn of
       None \<Rightarrow> (0, op)
     | Some f \<Rightarrow> (let t = op_nextToken op + 1
          in (t, op\<lparr>op_nextToken := t, op_notifiers := AList.update t f (op_notifiers op)\<rparr>)))"

definition removeNotifier :: "operation \<Rightarrow> int \<Rightarrow> operation" where
  "removeNotifier op token =
    (if token \<noteq> 0 then op\<lparr>op_notifiers := AList.delete token (op_notifiers op)\<rparr> else op)"

section \<open>Bookkeeping (core/lifecycle/manager.go)\<close>

definition fresh_state :: "int \<Rightarrow> env_state" where
  "fresh_state now = \<lparr>es_phase = PhaseUnknown, es_since = now, es_resolved = [], es_native = [],
     es_lastErr = [], es_starts = 0, es_creates = 0, es_connects = 0, es_history = []\<rparr>"

definition stateLocked :: "int \<Rightarrow> string \<Rightarrow> manager \<Rightarrow> env_state" where
  "stateLocked now env m = (case map_of (m_states m) env of None \<Rightarrow> fresh_state now | Some st \<Rightarrow> st)"

text \<open>\<open>bump\<close> applies a change to the (possibly new) state of an environment.\<close>

definition bump :: "int \<Rightarrow> string \<Rightarrow> (env_state \<Rightarrow> env_state) \<Rightarrow> manager \<Rightarrow> manager" where
  "bump now env f m = m\<lparr>m_states := AList.update env (f (stateLocked now env m)) (m_states m)\<rparr>"

text \<open>Every callback waiting on the environment gets the line, in the order of the map.\<close>

definition notify :: "string \<Rightarrow> string \<Rightarrow> manager \<Rightarrow> manager" where
  "notify env msg m =
    (case map_of (m_ops m) env of
       None \<Rightarrow> m
     | Some k \<Rightarrow> m\<lparr>m_delivered := m_delivered m @
          map (\<lambda>(_, fn). (fn, msg)) (op_notifiers (m_opobjs m ! k))\<rparr>)"

definition keep_last :: "nat \<Rightarrow> 'a list \<Rightarrow> 'a list" where
  "keep_last n xs = (if length xs > n then drop (length xs - n) xs else xs)"

definition phase_change :: "int \<Rightarrow> phase \<Rightarrow> string \<Rightarrow> env_state \<Rightarrow> env_state" where
  "phase_change now to reason st =
    (let st1 = st\<lparr>es_phase := to, es_since := now\<rparr>;
         st2 = (if to \<noteq> PhaseFailed then st1\<lparr>es_lastErr := []\<rparr> else st1)
     in st2\<lparr>es_history := keep_last maxHistory (es_history st2 @
          [\<lparr>tr_From = es_phase st, tr_To = to, tr_At = now, tr_Reason = reason\<rparr>])\<rparr>)"

definition setPhase :: "int \<Rightarrow> string \<Rightarrow> phase \<Rightarrow> string \<Rightarrow> manager \<Rightarrow> manager" where
  "setPhase now env to reason m =
    (if es_phase (stateLocked now env m) = to then bump now env (\<lambda>st. st) m
     else (let m' = bump now env (phase_change now to reason) m
           in if Notice to = [] then m' else notify env (Notice to) m'))"

definition Phase :: "int \<Rightarrow> string \<Rightarrow> manager \<Rightarrow> phase" where
  "Phase now env m = es_phase (stateLocked now env m)"

definition observe :: "int \<Rightarrow> environment \<Rightarrow> manager \<Rightarrow> manager" where
  "observe now env m =
    (if env_ID env = [] then m
     else bump now (env_ID env)
       (\<lambda>st. if env_NativeState env \<noteq> [] then st\<lparr>es_native := env_NativeState env\<rparr> else st) m)"

definition resolve :: "int \<Rightarrow> string \<Rightarrow> environment \<Rightarrow> manager \<Rightarrow> manager" where
  "resolve now handle env m =
    (if env_ID env = [] then m else bump now handle (\<lambda>st. st\<lparr>es_resolved := env_ID env\<rparr>) m)"

definition ResolvedID :: "string \<Rightarrow> manager \<Rightarrow> string" where
  "ResolvedID handle m =
    (case map_of (m_states m) handle of
       None \<Rightarrow> handle
     | Some st \<Rightarrow> if es_resolved st \<noteq> [] then es_resolved st else handle)"

definition recordErr :: "int \<Rightarrow> string \<Rightarrow> goerr \<Rightarrow> manager \<Rightarrow> manager" where
  "recordErr now env e m = bump now env (\<lambda>st. st\<lparr>es_lastErr := err_text e\<rparr>) m"

record env_status =
  st_Environment :: string
  st_State :: env_state
  st_InFlight :: bool
  st_Waiters :: int

definition Status :: "int \<Rightarrow> string \<Rightarrow> manager \<Rightarrow> env_status \<times> manager" where
  "Status now env m =
    (let st = stateLocked now env m
     in (case map_of (m_ops m) env of
           None \<Rightarrow> \<lparr>st_Environment = env, st_State = st, st_InFlight = False, st_Waiters = 0\<rparr>
         | Some k \<Rightarrow> \<lparr>st_Environment = env, st_State = st, st_InFlight = True,
              st_Waiters = op_waiters (m_opobjs m ! k)\<rparr>,
         bump now env (\<lambda>st. st) m))"

fun All_from :: "int \<Rightarrow> string list \<Rightarrow> manager \<Rightarrow> env_status list \<times> manager" where
  "All_from now [] m = ([], m)"
| "All_from now (n # ns) m =
     (let (s, m1) = Status now n m; (ss, m2) = All_from now ns m1 in (s # ss, m2))"

definition All_status :: "int \<Rightarrow> manager \<Rightarrow> env_status list \<times> manager" where
  "All_status now m = All_from now (sort (gokeys (m_states m))) m"

section \<open>Contexts, the provider and the clock\<close>

text \<open>
  A context is its deadline, the instant at which its cancel function is called, when that is fixed, and the
  number of the cancellation signal it follows. \<open>WithTimeout\<close> can only bring the deadline forward;
  \<open>WithoutCancel\<close> drops all three (signal 0 is never given). \<open>ctx_end\<close> is the instant at which a
  context ends without a signal, with its error.
\<close>

record ctx =
  ctx_deadline :: "int option"
  ctx_cancel :: "int option"
  ctx_signal :: nat

definition WithTimeout :: "ctx \<Rightarrow> int \<Rightarrow> int \<Rightarrow> ctx" where
  "WithTimeout c d now =
    c\<lparr>ctx_deadline := Some (case ctx_deadline c of None \<Rightarrow> now + d | Some t \<Rightarrow> min t (now + d))\<rparr>"

definition WithoutCancel :: "ctx \<Rightarrow> ctx" where
  "WithoutCancel c = \<lparr>ctx_deadline = None, ctx_cancel = None, ctx_signal = 0\<rparr>"

definition ctx_end :: "ctx \<Rightarrow> (int \<times> goerr) option" where
  "ctx_end c =
    (case (ctx_deadline c, ctx_cancel c) of
       (None, None) \<Rightarrow> None
     | (Some d, None) \<Rightarrow> Some (d, Sentinel DeadlineExceeded)
     | (None, Some t) \<Rightarrow> Some (t, Sentinel Canceled)
     | (Some d, Some t) \<Rightarrow> Some (if t < d then (t, Sentinel Canceled) else (d, Sentinel DeadlineExceeded)))"

text \<open>
  The provider interface (\<open>providers/provider.go\<close>) over a world \<open>'w\<close>, with the clock and
  \<open>select\<close>: \<open>w_sel c t\<close> is \<open>select\<close> between \<open>c.Done()\<close> and a timer that fires at \<open>t\<close>;
  it answers \<open>Some\<close> of \<open>c.Err()\<close> when the first branch was taken. \<open>w_err c\<close> is
  \<open>c.Err()\<close>.
\<close>

record 'w prov =
  w_now :: "'w \<Rightarrow> int"
  w_err :: "ctx \<Rightarrow> 'w \<Rightarrow> goerr option"
  w_sel :: "ctx \<Rightarrow> int \<Rightarrow> 'w \<Rightarrow> goerr option \<times> 'w"
  w_Name :: string
  w_Capabilities :: capabilities
  w_DefaultEnvironment :: string
  w_List :: "ctx \<Rightarrow> 'w \<Rightarrow> (goerr + environment list) \<times> 'w"
  w_Get :: "ctx \<Rightarrow> string \<Rightarrow> 'w \<Rightarrow> (goerr + environment) \<times> 'w"
  w_Create :: "ctx \<Rightarrow> create_spec \<Rightarrow> 'w \<Rightarrow> (goerr + environment) \<times> 'w"
  w_Start :: "ctx \<Rightarrow> string \<Rightarrow> 'w \<Rightarrow> goerr option \<times> 'w"
  w_Stop :: "ctx \<Rightarrow> string \<Rightarrow> 'w \<Rightarrow> goerr option \<times> 'w"
  w_Connect :: "ctx \<Rightarrow> string \<Rightarrow> connect_request \<Rightarrow> 'w \<Rightarrow> (goerr + nat) \<times> 'w"

type_synonym 'w outcome = "(goerr + environment) \<times> manager \<times> 'w"

section \<open>What the bookkeeping does to the manager\<close>

lemma bump_simps [simp]:
  "m_opts (bump t h f m) = m_opts m" "m_ops (bump t h f m) = m_ops m"
  "m_opobjs (bump t h f m) = m_opobjs m" "m_delivered (bump t h f m) = m_delivered m"
  "stateLocked t' h' (bump t h f m) = (if h' = h then f (stateLocked t h m) else stateLocked t' h' m)"
  by (simp_all add: bump_def stateLocked_def)

lemma notify_simps [simp]:
  "m_opts (notify h s m) = m_opts m" "m_ops (notify h s m) = m_ops m"
  "m_opobjs (notify h s m) = m_opobjs m" "m_states (notify h s m) = m_states m"
  "stateLocked t h' (notify h s m) = stateLocked t h' m"
  by (auto simp: notify_def stateLocked_def split: option.splits)

lemma setPhase_simps [simp]:
  "m_opts (setPhase t h p r m) = m_opts m" "m_ops (setPhase t h p r m) = m_ops m"
  "m_opobjs (setPhase t h p r m) = m_opobjs m"
  by (auto simp: setPhase_def Let_def)

lemma recordErr_simps [simp]:
  "m_opts (recordErr t h e m) = m_opts m" "m_ops (recordErr t h e m) = m_ops m"
  "m_opobjs (recordErr t h e m) = m_opobjs m"
  by (simp_all add: recordErr_def)

lemma observe_simps [simp]:
  "m_opts (observe t env m) = m_opts m" "m_ops (observe t env m) = m_ops m"
  "m_opobjs (observe t env m) = m_opobjs m"
  by (simp_all add: observe_def)

lemma resolve_simps [simp]:
  "m_opts (resolve t h env m) = m_opts m" "m_ops (resolve t h env m) = m_ops m"
  "m_opobjs (resolve t h env m) = m_opobjs m"
  by (simp_all add: resolve_def)

text \<open>The state of one environment, without creating it: the zero state when it is unknown.\<close>

definition state_of :: "string \<Rightarrow> manager \<Rightarrow> env_state" where
  "state_of h m = stateLocked 0 h m"

lemma fresh_fields [simp]:
  "es_phase (fresh_state t) = PhaseUnknown" "es_lastErr (fresh_state t) = []"
  "es_starts (fresh_state t) = 0" "es_creates (fresh_state t) = 0"
  "es_connects (fresh_state t) = 0" "es_history (fresh_state t) = []"
  "es_resolved (fresh_state t) = []" "es_native (fresh_state t) = []" "es_since (fresh_state t) = t"
  by (simp_all add: fresh_state_def)

lemma phase_change_fields [simp]:
  "es_phase (phase_change t p r st) = p" "es_since (phase_change t p r st) = t"
  "es_starts (phase_change t p r st) = es_starts st"
  "es_creates (phase_change t p r st) = es_creates st"
  "es_connects (phase_change t p r st) = es_connects st"
  "es_resolved (phase_change t p r st) = es_resolved st"
  "es_native (phase_change t p r st) = es_native st"
  "es_lastErr (phase_change t p r st) = (if p = PhaseFailed then es_lastErr st else [])"
  by (simp_all add: phase_change_def Let_def)

lemma state_field_time:
  "es_phase (stateLocked t h m) = es_phase (state_of h m)"
  "es_lastErr (stateLocked t h m) = es_lastErr (state_of h m)"
  "es_starts (stateLocked t h m) = es_starts (state_of h m)"
  "es_creates (stateLocked t h m) = es_creates (state_of h m)"
  "es_connects (stateLocked t h m) = es_connects (state_of h m)"
  "es_history (stateLocked t h m) = es_history (state_of h m)"
  by (auto simp: state_of_def stateLocked_def split: option.splits)

lemma state_of_notify [simp]: "state_of h (notify h' s m) = state_of h m"
  by (simp add: state_of_def)

lemma state_of_bump:
  "state_of h' (bump t h f m) = (if h' = h then f (stateLocked t h m) else state_of h' m)"
  by (simp add: state_of_def)

lemma setPhase_other [simp]: "h' \<noteq> h \<Longrightarrow> state_of h' (setPhase t h p r m) = state_of h' m"
  by (auto simp: setPhase_def Let_def state_of_bump)

lemma setPhase_phase [simp]:
  "es_phase (state_of h (setPhase t h p r m)) = p"
  by (auto simp: setPhase_def Let_def state_of_bump state_field_time)

lemma setPhase_counts [simp]:
  "es_starts (state_of h' (setPhase t h p r m)) = es_starts (state_of h' m)"
  "es_creates (state_of h' (setPhase t h p r m)) = es_creates (state_of h' m)"
  "es_connects (state_of h' (setPhase t h p r m)) = es_connects (state_of h' m)"
  by (auto simp: setPhase_def Let_def state_of_bump state_field_time)

lemma setPhase_failed_lastErr [simp]:
  "es_lastErr (state_of h (setPhase t h PhaseFailed r m)) = es_lastErr (state_of h m)"
  by (auto simp: setPhase_def Let_def state_of_bump state_field_time)

lemma state_of_recordErr:
  "state_of h' (recordErr t h e m) =
     (if h' = h then (stateLocked t h m)\<lparr>es_lastErr := err_text e\<rparr> else state_of h' m)"
  by (simp add: recordErr_def state_of_bump)

lemma observe_fields [simp]:
  "es_phase (state_of h (observe t env m)) = es_phase (state_of h m)"
  "es_starts (state_of h (observe t env m)) = es_starts (state_of h m)"
  "es_creates (state_of h (observe t env m)) = es_creates (state_of h m)"
  "es_lastErr (state_of h (observe t env m)) = es_lastErr (state_of h m)"
  by (auto simp: observe_def state_of_bump state_field_time)

lemma resolve_fields [simp]:
  "es_phase (state_of h (resolve t h' env m)) = es_phase (state_of h m)"
  "es_starts (state_of h (resolve t h' env m)) = es_starts (state_of h m)"
  "es_creates (state_of h (resolve t h' env m)) = es_creates (state_of h m)"
  "es_lastErr (state_of h (resolve t h' env m)) = es_lastErr (state_of h m)"
  by (auto simp: resolve_def state_of_bump state_field_time)

section \<open>The history\<close>

text \<open>
  The recorded transitions of an environment form a chain without repetitions that ends in
  the current phase, at most \<open>maxHistory\<close> of them.
\<close>

fun chained :: "transition list \<Rightarrow> bool" where
  "chained [] = True"
| "chained [t] = (tr_From t \<noteq> tr_To t)"
| "chained (t # u # ts) = (tr_From t \<noteq> tr_To t \<and> tr_To t = tr_From u \<and> chained (u # ts))"

definition hist_ok :: "env_state \<Rightarrow> bool" where
  "hist_ok st \<longleftrightarrow> length (es_history st) \<le> maxHistory \<and> chained (es_history st) \<and>
     (if es_history st = [] then es_phase st = PhaseUnknown
      else tr_To (last (es_history st)) = es_phase st \<and> tr_At (last (es_history st)) = es_since st)"

definition mgr_hist :: "manager \<Rightarrow> bool" where
  "mgr_hist m \<longleftrightarrow> list_all (\<lambda>(_, st). hist_ok st) (m_states m)"

lemma chained_append:
  "chained (ts @ [t]) \<longleftrightarrow>
     chained ts \<and> tr_From t \<noteq> tr_To t \<and> (ts = [] \<or> tr_To (last ts) = tr_From t)"
  by (induction ts rule: chained.induct) auto

lemma chained_drop: "chained ts \<Longrightarrow> chained (drop n ts)"
proof (induction n arbitrary: ts)
  case (Suc n)
  then show ?case by (cases ts rule: chained.cases) (auto simp: Suc.IH)
qed simp

lemma keep_last_append:
  "0 < n \<Longrightarrow> last (keep_last n (xs @ [x])) = x" "0 < n \<Longrightarrow> keep_last n (xs @ [x]) \<noteq> []"
  "length (keep_last n ys) \<le> n"
  by (auto simp: keep_last_def)

lemma hist_ok_fresh [simp]: "hist_ok (fresh_state t)"
  by (simp add: hist_ok_def)

lemma hist_ok_phase_change:
  assumes "hist_ok st" and "es_phase st \<noteq> p"
  shows "hist_ok (phase_change t p r st)"
proof -
  let ?e = "\<lparr>tr_From = es_phase st, tr_To = p, tr_At = t, tr_Reason = r\<rparr>"
  have h: "es_history (phase_change t p r st) = keep_last maxHistory (es_history st @ [?e])"
    by (simp add: phase_change_def Let_def)
  have "chained (es_history st @ [?e])"
    using assms by (auto simp: chained_append hist_ok_def split: if_splits)
  then have "chained (keep_last maxHistory (es_history st @ [?e]))"
    unfolding keep_last_def by (simp only: chained_drop split: if_split) simp
  moreover have "0 < maxHistory" by (simp add: maxHistory_def)
  ultimately show ?thesis unfolding hist_ok_def h
    by (simp add: keep_last_append)
qed

lemma mgr_hist_update:
  "mgr_hist m \<Longrightarrow> hist_ok st \<Longrightarrow> mgr_hist (m\<lparr>m_states := AList.update h st (m_states m)\<rparr>)"
proof -
  have "list_all (\<lambda>(_, s). hist_ok s) xs \<Longrightarrow> hist_ok st \<Longrightarrow>
      list_all (\<lambda>(_, s). hist_ok s) (AList.update h st xs)" for xs
    by (induction xs) auto
  then show "mgr_hist m \<Longrightarrow> hist_ok st \<Longrightarrow> ?thesis" by (simp add: mgr_hist_def)
qed

lemma hist_ok_stateLocked: "mgr_hist m \<Longrightarrow> hist_ok (stateLocked t h m)"
  by (auto simp: mgr_hist_def stateLocked_def list_all_iff dest!: map_of_SomeD split: option.splits)

lemma mgr_hist_bump:
  "mgr_hist m \<Longrightarrow> (\<And>st. hist_ok st \<Longrightarrow> hist_ok (f st)) \<Longrightarrow> mgr_hist (bump t h f m)"
  unfolding bump_def by (intro mgr_hist_update) (auto intro: hist_ok_stateLocked)

lemma mgr_hist_notify [simp]: "mgr_hist (notify h s m) = mgr_hist m"
  by (simp add: mgr_hist_def)

lemma mgr_hist_setPhase:
  assumes "mgr_hist m"
  shows "mgr_hist (setPhase t h p r m)"
proof (cases "es_phase (stateLocked t h m) = p")
  case True
  then show ?thesis by (simp add: setPhase_def mgr_hist_bump assms)
next
  case False
  then have "hist_ok (phase_change t p r (stateLocked t h m))"
    using hist_ok_phase_change [OF hist_ok_stateLocked [OF assms]] by blast
  then have "mgr_hist (bump t h (phase_change t p r) m)"
    using mgr_hist_update [OF assms] by (simp add: bump_def)
  with False show ?thesis by (simp add: setPhase_def Let_def)
qed

lemma mgr_hist_New [simp]: "mgr_hist (New_manager opts)"
  by (simp add: mgr_hist_def New_manager_def)

lemma hist_ok_counters [simp]:
  "hist_ok (st\<lparr>es_starts := a\<rparr>) = hist_ok st" "hist_ok (st\<lparr>es_creates := a\<rparr>) = hist_ok st"
  "hist_ok (st\<lparr>es_connects := a\<rparr>) = hist_ok st" "hist_ok (st\<lparr>es_lastErr := s\<rparr>) = hist_ok st"
  "hist_ok (st\<lparr>es_native := s\<rparr>) = hist_ok st" "hist_ok (st\<lparr>es_resolved := s\<rparr>) = hist_ok st"
  by (simp_all add: hist_ok_def)

lemma mgr_hist_rest:
  "mgr_hist m \<Longrightarrow> mgr_hist (recordErr t h e m)" "mgr_hist m \<Longrightarrow> mgr_hist (observe t env m)"
  "mgr_hist m \<Longrightarrow> mgr_hist (resolve t h env m)"
  by (auto simp: recordErr_def observe_def resolve_def intro!: mgr_hist_bump)

end
