(* ===== verification/Ensure.thy ===== *)
theory Ensure
  imports Lifecycle
begin

text \<open>
  The lifecycle state machine (\<open>core/lifecycle/ensure.go\<close>): the retried lookup \<open>get\<close>,
  \<open>adopt\<close>, \<open>create\<close>, the polling loop \<open>waitFor\<close> and \<open>ensure\<close> itself, which brings
  one environment to a connectable state. \<open>waitFor\<close> has no bound of its own in the code,
  so it is a \<open>forever\<close> loop: \<open>None\<close> would be a run that never returns, and
  \<open>ensure_returns\<close> below shows that the deadline of its context excludes it.
\<close>

section \<open>The lookup\<close>

definition retry_notice :: "nat \<Rightarrow> string" where
  "retry_notice n = (''GitHub API '' @ utf8 [0x6682, 0x65F6, 0x4E0D, 0x901A, 0xFF0C, 0x91CD, 0x8BD5, 0x4E2D, 0xFF08]) @ show_nat n @ (''/3'' @ utf8 [0xFF09])"

text \<open>
  \<open>n\<close> attempts are left, \<open>att\<close> have been made. The last argument before the manager is
  \<open>lastErr\<close>; it is set before it is read.
\<close>

fun get_from :: "'w prov \<Rightarrow> ctx \<Rightarrow> string \<Rightarrow> nat \<Rightarrow> nat \<Rightarrow> goerr \<Rightarrow> manager \<Rightarrow> 'w \<Rightarrow> 'w outcome" where
  "get_from P c eid 0 att lastErr m w = (Inl lastErr, m, w)"
| "get_from P c eid (Suc n) att lastErr m w =
     (case (if att > 0 then w_sel P c (w_now P w + PollInterval (m_opts m)) w else (None, w)) of
        (Some e, w1) \<Rightarrow> (Inl e, m, w1)
      | (None, w1) \<Rightarrow>
          (case w_Get P c eid w1 of
             (Inr env, w2) \<Rightarrow> (Inr env, m, w2)
           | (Inl e, w2) \<Rightarrow>
               if \<not> IsTemporary e then (Inl e, m, w2)
               else get_from P c eid n (att + 1) e (notify eid (retry_notice (att + 1)) m) w2))"

definition manager_get :: "'w prov \<Rightarrow> ctx \<Rightarrow> string \<Rightarrow> manager \<Rightarrow> 'w \<Rightarrow> 'w outcome" where
  "manager_get P c eid m w = get_from P c eid 3 0 (Errorf []) m w"

definition adopt_notice :: "string \<Rightarrow> string \<Rightarrow> string" where
  "adopt_notice handle eid = (utf8 [0x914D, 0x7F6E, 0x91CC, 0x7684] @ '' '') @ handle @ ('' '' @ utf8 [0x5DF2, 0x4E0D, 0x5B58, 0x5728, 0xFF0C, 0x6539, 0x7528, 0x8D26, 0x53F7, 0x91CC, 0x552F, 0x4E00, 0x7684] @ '' '') @ eid"

definition adopt :: "'w prov \<Rightarrow> ctx \<Rightarrow> string \<Rightarrow> manager \<Rightarrow> 'w \<Rightarrow> environment option \<times> manager \<times> 'w" where
  "adopt P c handle m w =
    (case w_List P c w of
       (Inr [e], w1) \<Rightarrow> (Some e, notify handle (adopt_notice handle (env_ID e)) m, w1)
     | (_, w1) \<Rightarrow> (None, m, w1))"

definition create :: "'w prov \<Rightarrow> ctx \<Rightarrow> string \<Rightarrow> manager \<Rightarrow> 'w \<Rightarrow> 'w outcome" where
  "create P c handle m w =
    (let m1 = setPhase (w_now P w) handle PhaseProvisioning
                ''environment does not exist, creating it'' m;
         cctx = WithTimeout c (CreateTimeout (m_opts m1)) (w_now P w)
     in (case w_Create P cctx \<lparr>cs_Name = handle, cs_Options = []\<rparr> w of
           (Inl e, w1) \<Rightarrow>
             (Inl (Wrapf (''create environment '' @ quote handle @ '': '') e []),
              setPhase (w_now P w1) handle PhaseFailed ''create failed''
                (recordErr (w_now P w1) handle e m1), w1)
         | (Inr env, w1) \<Rightarrow>
             (Inr env, bump (w_now P w1) handle (\<lambda>st. st\<lparr>es_creates := es_creates st + 1\<rparr>) m1, w1)))"

section \<open>The polling loop\<close>

text \<open>
  \<open>Duration.Round(time.Second)\<close> and \<open>Duration.String\<close> of a whole number of seconds.
\<close>

definition round_second :: "int \<Rightarrow> int" where
  "round_second d =
    (if d < 0 then - ((- d + second div 2) div second) else (d + second div 2) div second)"

definition seconds_text :: "int \<Rightarrow> string" where
  "seconds_text n =
    (let u = \<bar>n\<bar>; h = u div 3600; mi = u div 60 mod 60; s = u mod 60
     in (if n < 0 then ''-'' else []) @ (if h > 0 then show_int h @ ''h'' else []) @
        (if h > 0 \<or> mi > 0 then show_int mi @ ''m'' else []) @ show_int s @ ''s'')"

definition waiting_notice :: "string \<Rightarrow> int \<Rightarrow> string" where
  "waiting_notice native waited =
    (utf8 [0x4ECD, 0x5728, 0x7B49, 0x5F85, 0xFF08] @ ''provider '' @ utf8 [0x72B6, 0x6001] @ '' '') @ native @
    (utf8 [0xFF0C, 0x5DF2, 0x7B49, 0x5F85] @ '' '') @ seconds_text (round_second waited) @ utf8 [0xFF09]"

text \<open>
  A ticker of period \<open>p\<close> started at \<open>t0\<close> has a buffer of one tick: after a tick was
  received at time \<open>t\<close>, the next one is the first multiple of the period after \<open>t\<close>.
\<close>

definition next_tick :: "int \<Rightarrow> int \<Rightarrow> int \<Rightarrow> int" where
  "next_tick t0 p t = t0 + ((t - t0) div p + 1) * p"

record wait_state =
  ws_due :: int
  ws_last :: pstate
  ws_fails :: nat
  ws_notified :: int

text \<open>One round of the loop: the next round's variables on the left, a return on the right.\<close>

definition wait_iter ::
  "'w prov \<Rightarrow> ctx \<Rightarrow> string \<Rightarrow> string \<Rightarrow> string \<Rightarrow> (pstate \<Rightarrow> bool) \<Rightarrow> int \<Rightarrow>
   wait_state \<times> manager \<times> 'w \<Rightarrow> (wait_state \<times> manager \<times> 'w) + 'w outcome" where
  "wait_iter P c handle eid what done t0 = (\<lambda>(s, m, w).
    (case w_sel P c (ws_due s) w of
       (Some e, w1) \<Rightarrow>
         Inr (Inl (Wrapf (''timed out waiting for '' @ what @ '' on '' @ eid @ '' (last state '' @
           state_name (ws_last s) @ ''): '') e []), m, w1)
     | (None, w1) \<Rightarrow>
         (let s1 = s\<lparr>ws_due := next_tick t0 (PollInterval (m_opts m)) (w_now P w1)\<rparr>
          in (case w_Get P c eid w1 of
                (Inl e, w2) \<Rightarrow>
                  if errors_Is e ErrAuth then Inr (Inl e, m, w2)
                  else if IsTemporary e \<and> ws_fails s1 < 5 then
                    Inl (s1\<lparr>ws_fails := ws_fails s1 + 1\<rparr>, m, w2)
                  else Inr (Inl e, m, w2)
              | (Inr env, w2) \<Rightarrow>
                  (let now = w_now P w2;
                       m1 = observe now env m;
                       s2 = s1\<lparr>ws_fails := 0, ws_last := env_State env\<rparr>
                   in if done (env_State env) then Inr (Inr env, m1, w2)
                      else
                        (let say = now - ws_notified s2 \<ge> 5 * second;
                             s3 = (if say then s2\<lparr>ws_notified := now\<rparr> else s2);
                             m2 = (if say then notify handle
                                     (waiting_notice (env_NativeState env) (now - t0)) m1 else m1)
                         in if env_State env = StateFailed then
                              Inr (Inl (Errorf (''environment '' @ eid @
                                '' failed to start (provider state '' @ quote (env_NativeState env)
                                @ '')'')), m2, w2)
                            else if env_State env = StateNotFound then
                              Inr (Inl (NotFoundError (w_Name P) eid), m2, w2)
                            else Inl (s3, m2, w2)))))))"

definition waitFor ::
  "'w prov \<Rightarrow> ctx \<Rightarrow> string \<Rightarrow> string \<Rightarrow> string \<Rightarrow> (pstate \<Rightarrow> bool) \<Rightarrow>
   manager \<Rightarrow> 'w \<Rightarrow> 'w outcome option" where
  "waitFor P c handle eid what done m w =
    (let t0 = w_now P w
     in forever (wait_iter P c handle eid what done t0)
          (\<lparr>ws_due = t0 + PollInterval (m_opts m), ws_last = StateUnknown, ws_fails = 0,
             ws_notified = t0\<rparr>, m, w))"

section \<open>The state machine\<close>

definition fail :: "int \<Rightarrow> string \<Rightarrow> goerr \<Rightarrow> string \<Rightarrow> manager \<Rightarrow> manager" where
  "fail now handle e reason m = setPhase now handle PhaseFailed reason (recordErr now handle e m)"

text \<open>Lines 107 to 126: look the environment up, or find a replacement.\<close>

definition ensure_lookup :: "'w prov \<Rightarrow> ctx \<Rightarrow> string \<Rightarrow> manager \<Rightarrow> 'w \<Rightarrow> 'w outcome" where
  "ensure_lookup P c handle m w =
    (case manager_get P c handle m w of
       (Inr env, m1, w1) \<Rightarrow> (Inr env, m1, w1)
     | (Inl e, m1, w1) \<Rightarrow>
         if \<not> errors_Is e ErrNotFound then (Inl e, fail (w_now P w1) handle e ''lookup failed'' m1, w1)
         else
           (case adopt P c handle m1 w1 of
              (Some env, m2, w2) \<Rightarrow> (Inr env, m2, w2)
            | (None, m2, w2) \<Rightarrow>
                if \<not> AutoCreate (m_opts m2) then
                  (Inl (Wrapf ''auto-create is disabled (lifecycle.auto_create: false): '' e []),
                   recordErr (w_now P w2) handle e m2, w2)
                else create P c handle m2 w2))"

text \<open>Lines 154 to 165: start it, or note that it is already on its way.\<close>

definition ensure_start ::
  "'w prov \<Rightarrow> ctx \<Rightarrow> string \<Rightarrow> environment \<Rightarrow> manager \<Rightarrow> 'w \<Rightarrow> goerr option \<times> manager \<times> 'w" where
  "ensure_start P c handle env m w =
    (if Startable (env_State env) then
       (let m1 = setPhase (w_now P w) handle PhaseStarting
                   ''start requested for incoming ssh session'' m
        in (case w_Start P c (env_ID env) w of
              (Some e, w1) \<Rightarrow>
                (Some (Wrapf (''start environment '' @ env_ID env @ '': '') e []),
                 fail (w_now P w1) handle e ''start failed'' m1, w1)
            | (None, w1) \<Rightarrow>
                (None, bump (w_now P w1) handle (\<lambda>st. st\<lparr>es_starts := es_starts st + 1\<rparr>) m1, w1)))
     else (None, setPhase (w_now P w) handle (PhaseForState (env_State env))
             (''environment already transitioning ('' @ state_name (env_State env) @ '')'') m, w))"

text \<open>Lines 154 to 175: start, then wait until it runs.\<close>

definition ensure_ready ::
  "'w prov \<Rightarrow> ctx \<Rightarrow> string \<Rightarrow> environment \<Rightarrow> manager \<Rightarrow> 'w \<Rightarrow> 'w outcome option" where
  "ensure_ready P c handle env m w =
    (case ensure_start P c handle env m w of
       (Some e, m1, w1) \<Rightarrow> Some (Inl e, m1, w1)
     | (None, m1, w1) \<Rightarrow>
         (case waitFor P c handle (env_ID env) ''environment to become RUNNING'' Connectable m1 w1 of
            None \<Rightarrow> None
          | Some (Inl e, m2, w2) \<Rightarrow>
              Some (Inl e, fail (w_now P w2) handle e ''did not become ready'' m2, w2)
          | Some (Inr env', m2, w2) \<Rightarrow>
              Some (Inr env', setPhase (w_now P w2) handle PhaseRunning ''environment ready'' m2, w2)))"

text \<open>Lines 130 to 175: what happens once the environment is known.\<close>

definition ensure_found ::
  "'w prov \<Rightarrow> ctx \<Rightarrow> string \<Rightarrow> environment \<Rightarrow> manager \<Rightarrow> 'w \<Rightarrow> 'w outcome option" where
  "ensure_found P c handle env m w =
    (if Connectable (env_State env) then
       Some (Inr env, setPhase (w_now P w) handle PhaseRunning ''environment already running'' m, w)
     else
       (let sctx = WithTimeout c (StartTimeout (m_opts m)) (w_now P w)
        in if env_State env = StateStopping then
             (let m1 = setPhase (w_now P w) handle PhaseStopping
                         ''environment is shutting down; waiting before starting it'' m
              in (case waitFor P sctx handle (env_ID env) ''stop to finish''
                         (\<lambda>s. s \<noteq> StateStopping) m1 w of
                    None \<Rightarrow> None
                  | Some (Inl e, m2, w2) \<Rightarrow>
                      Some (Inl e, fail (w_now P w2) handle e ''waiting for shutdown failed'' m2, w2)
                  | Some (Inr env', m2, w2) \<Rightarrow>
                      if Connectable (env_State env') then
                        Some (Inr env', setPhase (w_now P w2) handle PhaseRunning
                          ''environment came back up on its own'' m2, w2)
                      else ensure_ready P sctx handle env' m2 w2))
           else ensure_ready P sctx handle env m w))"

definition ensure :: "'w prov \<Rightarrow> ctx \<Rightarrow> string \<Rightarrow> manager \<Rightarrow> 'w \<Rightarrow> 'w outcome option" where
  "ensure P c handle m w =
    (case ensure_lookup P c handle m w of
       (Inl e, m1, w1) \<Rightarrow> Some (Inl e, m1, w1)
     | (Inr env, m1, w1) \<Rightarrow>
         ensure_found P c handle env
           (observe (w_now P w1) env (resolve (w_now P w1) handle env m1)) w1)"

section \<open>What every step of the machine keeps\<close>

text \<open>
  A property of the manager that the bookkeeping keeps is kept by every part of the machine
  that only reads the provider. The locale is interpreted on the history invariant, on the
  fields the machine never writes, and on the phases of the other environments.
\<close>

locale kept =
  fixes I :: "manager \<Rightarrow> bool" and h :: string
  assumes keep_setPhase: "I m \<Longrightarrow> I (setPhase t h p r m)"
    and keep_notify: "I m \<Longrightarrow> I (notify h s m)"
    and keep_observe: "I m \<Longrightarrow> I (observe t env m)"
    and keep_resolve: "I m \<Longrightarrow> I (resolve t h env m)"
    and keep_recordErr: "I m \<Longrightarrow> I (recordErr t h e m)"
begin

lemma keep_fail: "I m \<Longrightarrow> I (fail t h e r m)"
  by (simp add: fail_def keep_setPhase keep_recordErr)

lemma keep_get_from:
  "get_from P c h n att e m w = (r, m', w') \<Longrightarrow> I m \<Longrightarrow> I m'"
proof (induction n arbitrary: att e m w)
  case 0
  then show ?case by simp
next
  case (Suc n)
  from Suc(2,3) show ?case
    by (auto split: prod.splits option.splits sum.splits if_splits
        dest!: Suc(1) intro!: keep_notify)
qed

lemma keep_get: "manager_get P c h m w = (r, m', w') \<Longrightarrow> I m \<Longrightarrow> I m'"
  unfolding manager_get_def by (rule keep_get_from)

lemma keep_adopt: "adopt P c h m w = (r, m', w') \<Longrightarrow> I m \<Longrightarrow> I m'"
  by (auto simp: adopt_def split: prod.splits sum.splits list.splits intro: keep_notify)

lemma keep_wait_iter:
  "wait_iter P c h eid what dn t0 (s, m, w) = Inl (s', m', w') \<Longrightarrow> I m \<Longrightarrow> I m'"
  "wait_iter P c h eid what dn t0 (s, m, w) = Inr (r, m', w') \<Longrightarrow> I m \<Longrightarrow> I m'"
  unfolding wait_iter_def Let_def
  by (auto split: prod.splits option.splits sum.splits if_splits intro: keep_notify keep_observe)

lemma keep_waitFor:
  assumes "waitFor P c h eid what dn m w = Some (r, m', w')" and "I m"
  shows "I m'"
proof -
  have "I (fst (snd st)) \<longrightarrow> I (fst (snd out))"
    if "forever (wait_iter P c h eid what dn t0) st = Some out" for t0 st out
    using that
    by (induction rule: forever_induct) (auto dest: keep_wait_iter simp: prod_eq_iff split_paired_all)
  with assms show ?thesis unfolding waitFor_def Let_def by fastforce
qed

end

text \<open>The machine also counts what it started and created.\<close>

locale kept_counts = kept +
  assumes keep_starts: "I m \<Longrightarrow> I (bump t h (\<lambda>st. st\<lparr>es_starts := es_starts st + 1\<rparr>) m)"
    and keep_creates: "I m \<Longrightarrow> I (bump t h (\<lambda>st. st\<lparr>es_creates := es_creates st + 1\<rparr>) m)"
begin

lemma keep_create: "create P c h m w = (r, m', w') \<Longrightarrow> I m \<Longrightarrow> I m'"
  by (auto simp: create_def Let_def split: prod.splits sum.splits
      intro: keep_setPhase keep_recordErr keep_creates)

lemma keep_lookup:
  "ensure_lookup P c h m w = (r, m', w') \<Longrightarrow> I m \<Longrightarrow> I m'"
  unfolding ensure_lookup_def
  by (auto split: prod.splits sum.splits if_splits option.splits
      dest!: keep_get keep_adopt keep_create intro: keep_fail keep_recordErr)

lemma keep_start: "ensure_start P c h env m w = (r, m', w') \<Longrightarrow> I m \<Longrightarrow> I m'"
  by (auto simp: ensure_start_def Let_def split: prod.splits option.splits if_splits
      intro: keep_setPhase keep_fail keep_starts)

lemma keep_ready: "ensure_ready P c h env m w = Some (r, m', w') \<Longrightarrow> I m \<Longrightarrow> I m'"
  unfolding ensure_ready_def
  by (auto split: prod.splits option.splits sum.splits
      dest!: keep_start keep_waitFor intro: keep_setPhase keep_fail)

lemma keep_found: "ensure_found P c h env m w = Some (r, m', w') \<Longrightarrow> I m \<Longrightarrow> I m'"
  unfolding ensure_found_def Let_def
  by (auto split: option.splits sum.splits if_splits
      dest!: keep_ready keep_waitFor intro: keep_setPhase keep_fail)

lemma keep_ensure: "ensure P c h m w = Some (r, m', w') \<Longrightarrow> I m \<Longrightarrow> I m'"
  unfolding ensure_def
  by (auto split: prod.splits sum.splits
      dest!: keep_lookup keep_found intro: keep_observe keep_resolve)

end


section \<open>The invariants of the machine\<close>

interpretation hist: kept_counts mgr_hist h for h
  by unfold_locales (auto simp: mgr_hist_setPhase mgr_hist_rest intro: mgr_hist_bump)

interpretation fixed: kept_counts "\<lambda>m. m_opts m = o1 \<and> m_ops m = ops \<and> m_opobjs m = objs" h
  for o1 ops objs h
  by unfold_locales auto

interpretation others: kept_counts
  "\<lambda>m. h' \<noteq> h \<longrightarrow> es_phase (state_of h' m) = p \<and> es_starts (state_of h' m) = n" h
  for h' h p n
  by unfold_locales (auto simp: state_of_bump state_of_recordErr)

interpretation counts: kept
  "\<lambda>m. es_starts (state_of h m) = n \<and> es_creates (state_of h m) = k" h
  for h n k
  by unfold_locales (auto simp: state_of_recordErr state_field_time)

lemma ensure_opts:
  assumes "ensure P c h m w = Some (r, m', w')"
  shows "m_opts m' = m_opts m" and "m_ops m' = m_ops m" and "m_opobjs m' = m_opobjs m"
  using fixed.keep_ensure [OF assms, of "m_opts m" "m_ops m" "m_opobjs m"] by auto

section \<open>What a result means\<close>

lemma waitFor_done:
  assumes "waitFor P c h eid what dn m w = Some (Inr env, m', w')"
  shows "dn (env_State env)"
proof -
  have "\<forall>env m' w'. out = (Inr env, m', w') \<longrightarrow> dn (env_State env)"
    if "forever (wait_iter P c h eid what dn t0) st = Some out" for t0 st out
    using that
  proof (induction rule: forever_induct)
    case (returns st r)
    obtain s m w where "st = (s, m, w)" by (cases st)
    with returns show ?case
      by (auto simp: wait_iter_def Let_def split: prod.splits option.splits sum.splits if_splits)
  qed
  with assms show ?thesis unfolding waitFor_def Let_def by blast
qed

lemma ensure_ready_ok:
  "ensure_ready P c h env m w = Some (Inr e, m', w') \<Longrightarrow>
   Connectable (env_State e) \<and> es_phase (state_of h m') = PhaseRunning"
  unfolding ensure_ready_def
  by (auto split: prod.splits option.splits sum.splits dest: waitFor_done)

lemma ensure_found_ok:
  "ensure_found P c h env m w = Some (Inr e, m', w') \<Longrightarrow>
   Connectable (env_State e) \<and> es_phase (state_of h m') = PhaseRunning"
  unfolding ensure_found_def Let_def
  by (auto split: option.splits sum.splits if_splits dest: ensure_ready_ok)

lemma ensure_ok:
  "ensure P c h m w = Some (Inr e, m', w') \<Longrightarrow>
   Connectable (env_State e) \<and> es_phase (state_of h m') = PhaseRunning"
  unfolding ensure_def by (auto split: prod.splits sum.splits dest: ensure_found_ok)

lemma fail_state [simp]:
  "es_phase (state_of h (fail t h e r m)) = PhaseFailed"
  "es_lastErr (state_of h (fail t h e r m)) = err_text e"
  "es_starts (state_of h (fail t h e r m)) = es_starts (state_of h m)"
  "es_creates (state_of h (fail t h e r m)) = es_creates (state_of h m)"
  by (simp_all add: fail_def state_of_recordErr state_field_time)

lemma fail_counts [simp]:
  "es_starts (state_of h' (fail t h e r m)) = es_starts (state_of h' m)"
  "es_creates (state_of h' (fail t h e r m)) = es_creates (state_of h' m)"
  by (simp_all add: fail_def state_of_recordErr state_field_time)

lemma waitFor_counts:
  assumes "waitFor P c h eid what dn m w = Some (r, m', w')"
  shows "es_starts (state_of h m') = es_starts (state_of h m) \<and>
      es_creates (state_of h m') = es_creates (state_of h m)"
  using counts.keep_waitFor [OF assms, of "es_starts (state_of h m)" "es_creates (state_of h m)"]
  by auto

lemma manager_get_counts:
  assumes "manager_get P c h m w = (r, m', w')"
  shows "es_starts (state_of h m') = es_starts (state_of h m) \<and>
      es_creates (state_of h m') = es_creates (state_of h m) \<and>
      m_opts m' = m_opts m"
  using counts.keep_get [OF assms, of "es_starts (state_of h m)" "es_creates (state_of h m)"]
    fixed.keep_get [OF assms, of "m_opts m" "m_ops m" "m_opobjs m"]
  by auto

lemma adopt_counts:
  assumes "adopt P c h m w = (r, m', w')"
  shows "es_starts (state_of h m') = es_starts (state_of h m) \<and>
      es_creates (state_of h m') = es_creates (state_of h m) \<and>
      m_opts m' = m_opts m"
  using counts.keep_adopt [OF assms, of "es_starts (state_of h m)" "es_creates (state_of h m)"]
    fixed.keep_adopt [OF assms, of "m_opts m" "m_ops m" "m_opobjs m"]
  by auto

lemma create_counts:
  assumes "create P c h m w = (r, m', w')"
  shows "es_starts (state_of h m') = es_starts (state_of h m) \<and>
      es_creates (state_of h m') = es_creates (state_of h m) + (if is_ok r then 1 else 0)"
  using assms
  by (auto simp: create_def Let_def state_of_bump state_of_recordErr state_field_time
      split: prod.splits sum.splits)

text \<open>
  \<open>m'\<close> counts the starts and creates of \<open>m\<close> and at most \<open>a\<close> and \<open>b\<close> more.
\<close>

definition within :: "string \<Rightarrow> int \<Rightarrow> int \<Rightarrow> manager \<Rightarrow> manager \<Rightarrow> bool" where
  "within h a b m m' \<longleftrightarrow>
     es_starts (state_of h m) \<le> es_starts (state_of h m') \<and>
     es_starts (state_of h m') \<le> es_starts (state_of h m) + a \<and>
     es_creates (state_of h m) \<le> es_creates (state_of h m') \<and>
     es_creates (state_of h m') \<le> es_creates (state_of h m) + b"

lemma lookup_within:
  assumes "ensure_lookup P c h m w = (r, m', w')"
  shows "within h 0 (if AutoCreate (m_opts m) then 1 else 0) m m'"
  using assms unfolding ensure_lookup_def within_def
  by (auto split: prod.splits sum.splits if_splits option.splits
      simp: state_of_recordErr state_field_time
      dest!: manager_get_counts adopt_counts create_counts)

lemma start_within:
  "ensure_start P c h env m w = (r, m', w') \<Longrightarrow>
   within h (if Startable (env_State env) then 1 else 0) 0 m m'"
  by (auto simp: ensure_start_def Let_def within_def state_of_bump state_field_time
      split: prod.splits option.splits if_splits)

lemma ready_within: "ensure_ready P c h env m w = Some (r, m', w') \<Longrightarrow> within h 1 0 m m'"
  unfolding ensure_ready_def
  by (auto split: prod.splits option.splits sum.splits if_splits
      dest!: start_within waitFor_counts simp: within_def)

lemma found_within: "ensure_found P c h env m w = Some (r, m', w') \<Longrightarrow> within h 1 0 m m'"
  unfolding ensure_found_def Let_def
  by (auto split: option.splits sum.splits if_splits
      dest!: ready_within waitFor_counts simp: within_def)

lemma ensure_within:
  assumes "ensure P c h m w = Some (r, m', w')"
  shows "within h 1 (if AutoCreate (m_opts m) then 1 else 0) m m'"
  using assms unfolding ensure_def
  by (auto split: prod.splits sum.splits dest!: lookup_within found_within simp: within_def)

text \<open>Every failure is recorded: the phase is FAILED and the last error is the cause.\<close>

definition failed_with :: "string \<Rightarrow> goerr \<Rightarrow> manager \<Rightarrow> bool" where
  "failed_with h e m \<longleftrightarrow>
     es_phase (state_of h m) = PhaseFailed \<and>
     (es_lastErr (state_of h m) = err_text e \<or>
      (\<exists>e'. unwrap e = Some e' \<and> es_lastErr (state_of h m) = err_text e'))"

lemma failed_with_fail [simp]: "failed_with h e (fail t h e r m)"
  by (simp add: failed_with_def)

lemma create_fails: "create P c h m w = (Inl e, m', w') \<Longrightarrow> failed_with h e m'"
  by (auto simp: create_def Let_def failed_with_def state_of_recordErr split: prod.splits sum.splits)

lemma ready_fails: "ensure_ready P c h env m w = Some (Inl e, m', w') \<Longrightarrow> failed_with h e m'"
  unfolding ensure_ready_def
  by (auto simp: failed_with_def ensure_start_def Let_def
      split: prod.splits option.splits sum.splits if_splits)

lemma found_fails: "ensure_found P c h env m w = Some (Inl e, m', w') \<Longrightarrow> failed_with h e m'"
  unfolding ensure_found_def Let_def
  by (auto split: option.splits sum.splits if_splits dest: ready_fails)

definition create_disabled :: "goerr \<Rightarrow> goerr" where
  "create_disabled e = Wrapf ''auto-create is disabled (lifecycle.auto_create: false): '' e []"

lemma lookup_fails:
  assumes "ensure_lookup P c h m w = (Inl e, m', w')"
  shows "failed_with h e m' \<or>
    \<not> AutoCreate (m_opts m) \<and> (\<exists>e0. e = create_disabled e0 \<and> errors_Is e0 ErrNotFound \<and>
      es_lastErr (state_of h m') = err_text e0)"
  using assms unfolding ensure_lookup_def
  by (auto split: prod.splits sum.splits if_splits option.splits
      simp: failed_with_def create_disabled_def state_of_recordErr
      dest!: create_fails manager_get_counts adopt_counts)

lemma ensure_fails:
  assumes "ensure P c h m w = Some (Inl e, m', w')"
  shows "failed_with h e m' \<or>
    \<not> AutoCreate (m_opts m) \<and> (\<exists>e0. e = create_disabled e0 \<and> errors_Is e0 ErrNotFound \<and>
      es_lastErr (state_of h m') = err_text e0)"
  using assms unfolding ensure_def
  by (auto split: prod.splits sum.splits dest!: lookup_fails found_fails)

section \<open>The machine returns\<close>

text \<open>
  What the loop relies on of the clock and the provider: a timer never fires early, time
  does not run backwards, and a request whose context is past its deadline fails.
\<close>

definition clock_ok :: "'w prov \<Rightarrow> bool" where
  "clock_ok P \<longleftrightarrow>
     (\<forall>c t w w'. w_sel P c t w = (None, w') \<longrightarrow> t \<le> w_now P w') \<and>
     (\<forall>c eid w d. ctx_deadline c = Some d \<longrightarrow> d \<le> w_now P w \<longrightarrow>
        \<not> is_ok (fst (w_Get P c eid w)))"

lemma next_tick_later: "0 < p \<Longrightarrow> t < next_tick t0 p t"
proof -
  assume "0 < p"
  then have "(t - t0) mod p < p" by simp
  then have "t - t0 - (t - t0) div p * p < p" by (simp add: minus_div_mult_eq_mod)
  then show ?thesis by (simp add: next_tick_def algebra_simps)
qed

lemma wait_iter_measure:
  assumes P: "clock_ok P" and d: "ctx_deadline c = Some d" and p: "0 < PollInterval (m_opts m)"
    and it: "wait_iter P c h eid what dn t0 (s, m, w) = Inl (s', m', w')"
  shows "m_opts m' = m_opts m" and "ws_due s < ws_due s'"
    and "d \<le> ws_due s \<Longrightarrow> ws_fails s' = ws_fails s + 1 \<and> ws_fails s < 5"
proof -
  obtain w1 where sel: "w_sel P c (ws_due s) w = (None, w1)"
    using it by (auto simp: wait_iter_def split: prod.splits option.splits)
  with P have late: "ws_due s \<le> w_now P w1" by (auto simp: clock_ok_def)
  with next_tick_later [OF p] have nt: "ws_due s < next_tick t0 (PollInterval (m_opts m)) (w_now P w1)"
    by (meson order.strict_trans1)
  show "ws_due s < ws_due s'" "m_opts m' = m_opts m"
    using it sel nt
    by (auto simp: wait_iter_def Let_def split: prod.splits sum.splits if_splits)
  show "ws_fails s' = ws_fails s + 1 \<and> ws_fails s < 5" if "d \<le> ws_due s"
  proof -
    from that late have "d \<le> w_now P w1" by simp
    with P d have "\<not> is_ok (fst (w_Get P c eid w1))" unfolding clock_ok_def by blast
    then show ?thesis using it sel
      by (auto simp: wait_iter_def Let_def split: prod.splits sum.splits if_splits)
  qed
qed

lemma waitFor_returns:
  assumes P: "clock_ok P" and d: "ctx_deadline c = Some d" and p: "0 < PollInterval (m_opts m)"
  shows "\<exists>r. waitFor P c h eid what dn m w = Some r"
proof -
  let ?R = "inv_image (less_than <*lex*> less_than)
    (\<lambda>(s, m, w). (nat (d - ws_due s), 6 - ws_fails s))"
  have "\<exists>r. forever (wait_iter P c h eid what dn t0) (s, m, w) = Some r" for t0 s
  proof (rule forever_terminates)
    show "wf ?R" by auto
    show "case (s, m, w) of (s, m, w) \<Rightarrow> 0 < PollInterval (m_opts m)" using p by simp
    fix st st'
    assume q: "case st of (s, m, w) \<Rightarrow> 0 < PollInterval (m_opts m)"
      and it: "wait_iter P c h eid what dn t0 st = Inl st'"
    obtain s m w s' m' w' where st: "st = (s, m, w)" "st' = (s', m', w')" by (cases st, cases st')
    note M = wait_iter_measure [OF P d _ it [unfolded st]]
    from q st have pos: "0 < PollInterval (m_opts m)" by simp
    show "(case st' of (s, m, w) \<Rightarrow> 0 < PollInterval (m_opts m)) \<and> (st', st) \<in> ?R"
      using M [OF pos] pos st by (cases "d \<le> ws_due s") auto
  qed
  then show ?thesis by (simp add: waitFor_def Let_def)
qed

lemma WithTimeout_deadline: "\<exists>d. ctx_deadline (WithTimeout c t now) = Some d"
  by (simp add: WithTimeout_def)

lemma ready_returns:
  assumes "clock_ok P" and "ctx_deadline c = Some d" and "0 < PollInterval (m_opts m)"
  shows "\<exists>r. ensure_ready P c h env m w = Some r"
proof -
  obtain e m1 w1 where s: "ensure_start P c h env m w = (e, m1, w1)" by (metis prod_cases3)
  then have "m_opts m1 = m_opts m"
    using fixed.keep_start [OF s, of "m_opts m" "m_ops m" "m_opobjs m"] by auto
  then obtain r m2 w2 where
      "waitFor P c h (env_ID env) ''environment to become RUNNING'' Connectable m1 w1 = Some (r, m2, w2)"
    using waitFor_returns [OF assms(1,2), of m1] assms(3) by (metis prod_cases3)
  with s show ?thesis
    unfolding ensure_ready_def by (cases e; cases r) auto
qed

lemma found_returns:
  assumes P: "clock_ok P" and p: "0 < PollInterval (m_opts m)"
  shows "\<exists>r. ensure_found P c h env m w = Some r"
proof -
  let ?c = "WithTimeout c (StartTimeout (m_opts m)) (w_now P w)"
  obtain d where d: "ctx_deadline ?c = Some d" using WithTimeout_deadline by blast
  let ?m = "setPhase (w_now P w) h PhaseStopping
              ''environment is shutting down; waiting before starting it'' m"
  obtain r m2 w2 where wt: "waitFor P ?c h (env_ID env) ''stop to finish'' (\<lambda>s. s \<noteq> StateStopping) ?m w
      = Some (r, m2, w2)"
    using waitFor_returns [OF P d, of ?m] p by (metis prod_cases3 setPhase_simps(1))
  have "m_opts m2 = m_opts m"
    using fixed.keep_waitFor [OF wt, of "m_opts m" "m_ops m" "m_opobjs m"] by simp
  then show ?thesis
    using wt ready_returns [OF P d] p unfolding ensure_found_def Let_def
    by (auto split: sum.splits)
qed

lemma ensure_returns:
  assumes P: "clock_ok P" and p: "0 < PollInterval (m_opts m)"
  shows "\<exists>r. ensure P c h m w = Some r"
proof -
  obtain r m1 w1 where l: "ensure_lookup P c h m w = (r, m1, w1)" by (metis prod_cases3)
  have "m_opts m1 = m_opts m"
    using fixed.keep_lookup [OF l, of "m_opts m" "m_ops m" "m_opobjs m"] by simp
  with l found_returns [OF P] p show ?thesis
    unfolding ensure_def by (cases r) auto
qed

end
