(* ===== verification/Connect.thy ===== *)
theory Connect
  imports Ensure
begin

text \<open>
  Callers of the lifecycle manager: the critical sections of \<open>Ensure\<close>, \<open>release\<close> and
  \<open>runEnsure\<close> (\<open>ensure.go\<close>), \<open>Ensure\<close> when nobody else is waiting, and \<open>Connect\<close>,
  \<open>OnSessionOpened\<close>, \<open>OnSessionClosed\<close> and \<open>Stop\<close> (\<open>connect.go\<close>).
\<close>

section \<open>The critical sections of Ensure\<close>

definition set_op :: "nat \<Rightarrow> (operation \<Rightarrow> operation) \<Rightarrow> manager \<Rightarrow> manager" where
  "set_op k f m = m\<lparr>m_opobjs := (m_opobjs m)[k := f (m_opobjs m ! k)]\<rparr>"

definition ensure_budget :: "options \<Rightarrow> int" where
  "ensure_budget opts =
    StartTimeout opts + 30 * second + (if AutoCreate opts then CreateTimeout opts else 0)"

definition no_selection :: goerr where
  "no_selection = Errorf ''no environment selected (run `gateway codespace select <name>`)''"

definition new_operation :: "int \<Rightarrow> operation" where
  "new_operation now = \<lparr>op_done = False, op_result = None, op_waiters = 1, op_cancelled = False,
     op_startedAt = now, op_notifiers = [], op_nextToken = 0\<rparr>"

text \<open>
  Lines 28 to 48, under the lock: join the operation of the environment or become the first
  caller of a new one. The result is the operation, whether it was joined, the caller's
  token, and the context the work runs under when this caller has to start it.
\<close>

definition ensure_enter ::
  "int \<Rightarrow> ctx \<Rightarrow> string \<Rightarrow> nat option \<Rightarrow> manager \<Rightarrow> nat \<times> bool \<times> int \<times> ctx \<times> manager" where
  "ensure_enter now c env fn m =
    (case map_of (m_ops m) env of
       Some k \<Rightarrow>
         (let op = m_opobjs m ! k;
              (token, op') = addNotifier (op\<lparr>op_waiters := op_waiters op + 1\<rparr>) fn
          in (k, True, token, c, set_op k (\<lambda>_. op') m))
     | None \<Rightarrow>
         (let k = length (m_opobjs m);
              (token, op') = addNotifier (new_operation now) fn
          in (k, False, token, WithTimeout (WithoutCancel c) (ensure_budget (m_opts m)) now,
              m\<lparr>m_opobjs := m_opobjs m @ [op'], m_ops := AList.update env k (m_ops m)\<rparr>)))"

definition ensure_leave :: "nat \<Rightarrow> int \<Rightarrow> manager \<Rightarrow> manager" where
  "ensure_leave k token m = set_op k (\<lambda>op. removeNotifier op token) m"

definition deliver :: "nat option \<Rightarrow> string \<Rightarrow> manager \<Rightarrow> manager" where
  "deliver fn msg m =
    (case fn of None \<Rightarrow> m | Some f \<Rightarrow> m\<lparr>m_delivered := m_delivered m @ [(f, msg)]\<rparr>)"

definition joined_notice :: "string \<Rightarrow> string" where
  "joined_notice env = (utf8 [0x5DF2, 0x6709, 0x4F1A, 0x8BDD, 0x6B63, 0x5728, 0x51C6, 0x5907] @ '' '') @ env @ utf8 [0xFF0C, 0x7B49, 0x5B83, 0x5B8C, 0x6210, 0x2026]"

definition op_cancel :: "nat \<Rightarrow> manager \<Rightarrow> manager" where
  "op_cancel k m = set_op k (\<lambda>op. op\<lparr>op_cancelled := True\<rparr>) m"

definition close_done :: "nat \<Rightarrow> manager \<Rightarrow> manager" where
  "close_done k m = set_op k (\<lambda>op. op\<lparr>op_done := True\<rparr>) m"

text \<open>The locked part of \<open>release\<close> (lines 77 to 83) and whether it must cancel.\<close>

definition release_locked :: "string \<Rightarrow> nat \<Rightarrow> bool \<Rightarrow> manager \<Rightarrow> bool \<times> manager" where
  "release_locked env k abandoned m =
    (let m1 = set_op k (\<lambda>op. op\<lparr>op_waiters := op_waiters op - 1\<rparr>) m;
         orphaned = (abandoned \<and> op_waiters (m_opobjs m1 ! k) = 0)
     in (orphaned,
         if orphaned \<and> map_of (m_ops m1) env = Some k
         then m1\<lparr>m_ops := AList.delete env (m_ops m1)\<rparr> else m1))"

definition release :: "string \<Rightarrow> nat \<Rightarrow> bool \<Rightarrow> manager \<Rightarrow> manager" where
  "release env k abandoned m =
    (let (orphaned, m1) = release_locked env k abandoned m
     in if orphaned then op_cancel k m1 else m1)"

text \<open>The locked part of \<open>runEnsure\<close> (lines 94 to 99).\<close>

definition run_finish :: "string \<Rightarrow> nat \<Rightarrow> (goerr + environment) \<Rightarrow> manager \<Rightarrow> manager" where
  "run_finish env k r m =
    (let m1 = set_op k (\<lambda>op. op\<lparr>op_result := Some r\<rparr>) m
     in if map_of (m_ops m1) env = Some k then m1\<lparr>m_ops := AList.delete env (m_ops m1)\<rparr> else m1)"

definition runEnsure ::
  "'w prov \<Rightarrow> ctx \<Rightarrow> string \<Rightarrow> nat \<Rightarrow> manager \<Rightarrow> 'w \<Rightarrow> 'w outcome option" where
  "runEnsure P c env k m w =
    (case ensure P c env m w of
       None \<Rightarrow> None
     | Some (r, m1, w1) \<Rightarrow> Some (r, close_done k (op_cancel k (run_finish env k r m1)), w1))"

section \<open>Ensure by the only caller\<close>

text \<open>
  The schedule in which nobody else waits for the environment. The work goes on until it is done or until the caller's
  context ends: then the caller leaves, the operation is orphaned, and its cancel function ends the work's context
  (\<open>until_left\<close>: it is cancelled at the end of the caller's context, by its deadline, its own cancellation or its
  signal). The \<open>select\<close> takes the branch of a context that has ended by the time the work returns, and the
  goroutine that was told to stop ends before anybody else acts. A caller that joins depends on another goroutine and
  has no sequential value (\<open>None\<close>); theory \<open>SingleFlight\<close> has these runs.
\<close>

definition until_left :: "ctx \<Rightarrow> ctx \<Rightarrow> ctx" where
  "until_left c oc = oc\<lparr>ctx_cancel := map_option fst (ctx_end c), ctx_signal := ctx_signal c\<rparr>"

definition waiting_ended :: "string \<Rightarrow> goerr \<Rightarrow> goerr" where
  "waiting_ended env e = Wrapf (''waiting for environment '' @ env @ '': '') e []"

definition Ensure_alone ::
  "'w prov \<Rightarrow> ctx \<Rightarrow> string \<Rightarrow> nat option \<Rightarrow> manager \<Rightarrow> 'w \<Rightarrow> 'w outcome option" where
  "Ensure_alone P c env fn m w =
    (if env = [] then Some (Inl no_selection, m, w)
     else
       (case ensure_enter (w_now P w) c env fn m of
          (k, joined, token, oc, m1) \<Rightarrow>
            if joined then None
            else
              (case runEnsure P (until_left c oc) env k m1 w of
                 None \<Rightarrow> None
               | Some (r, m2, w2) \<Rightarrow>
                   (case w_err P c w2 of
                      None \<Rightarrow> Some (r, ensure_leave k token (release env k False m2), w2)
                    | Some e \<Rightarrow> Some (Inl (waiting_ended env e), ensure_leave k token (release env k True m2), w2)))))"

section \<open>Connect\<close>

type_synonym 'w conn_outcome = "(goerr + nat) \<times> environment \<times> manager \<times> 'w"

definition connect_notice :: "nat \<Rightarrow> int \<Rightarrow> string" where
  "connect_notice attempt retries =
    utf8 [0x8FDE, 0x63A5, 0x8FD8, 0x6CA1, 0x5C31, 0x7EEA, 0xFF0C, 0x91CD, 0x8BD5, 0x4E2D, 0xFF08] @ show_nat attempt @ ''/'' @ show_int retries @ utf8 [0xFF09]"

definition connect_failed :: "'w prov \<Rightarrow> string \<Rightarrow> environment \<Rightarrow> goerr \<Rightarrow> manager \<Rightarrow> 'w \<Rightarrow> 'w conn_outcome" where
  "connect_failed P handle env lastErr m w =
    (Inl (Wrapf (''connect to '' @ env_ID env @ '': '') lastErr []), env,
     fail (w_now P w) handle lastErr ''connect failed'' m, w)"

text \<open>Lines 30 to 44: what happens before every attempt but the first.\<close>

definition connect_again ::
  "'w prov \<Rightarrow> ctx \<Rightarrow> string \<Rightarrow> connect_request \<Rightarrow> nat \<Rightarrow> int \<Rightarrow> environment \<Rightarrow> manager \<Rightarrow> 'w \<Rightarrow>
   (goerr option \<times> environment \<times> manager \<times> 'w) option" where
  "connect_again P c handle req attempt backoff env m w =
    (let m1 = deliver (req_Progress req) (connect_notice attempt (ConnectRetries (m_opts m))) m
     in (case w_sel P c (w_now P w + backoff) w of
           (Some e, w1) \<Rightarrow>
             Some (Some (Wrapf (''connecting to '' @ env_ID env @ '': '') e []), env, m1, w1)
         | (None, w1) \<Rightarrow>
             (case Ensure_alone P c handle (req_Progress req) m1 w1 of
                None \<Rightarrow> None
              | Some (Inl e, m2, w2) \<Rightarrow> Some (None, env, m2, w2)
              | Some (Inr env', m2, w2) \<Rightarrow> Some (None, env', m2, w2))))"

definition next_backoff :: "int \<Rightarrow> int" where
  "next_backoff b = (if b < 15 * second then b * 2 else b)"

text \<open>\<open>n\<close> iterations are left. The break is the branch that does not recurse.\<close>

fun connect_from ::
  "'w prov \<Rightarrow> ctx \<Rightarrow> string \<Rightarrow> connect_request \<Rightarrow> nat \<Rightarrow> nat \<Rightarrow> int \<Rightarrow> environment \<Rightarrow> goerr \<Rightarrow>
   manager \<Rightarrow> 'w \<Rightarrow> 'w conn_outcome option" where
  "connect_from P c handle req 0 attempt backoff env lastErr m w =
     Some (connect_failed P handle env lastErr m w)"
| "connect_from P c handle req (Suc n) attempt backoff env lastErr m w =
     (case (if attempt > 0 then connect_again P c handle req attempt backoff env m w
            else Some (None, env, m, w)) of
        None \<Rightarrow> None
      | Some (Some e, env1, m1, w1) \<Rightarrow> Some (Inl e, env1, m1, w1)
      | Some (None, env1, m1, w1) \<Rightarrow>
          (case w_Connect P (WithTimeout c (ConnectTimeout (m_opts m1)) (w_now P w1)) (env_ID env1)
                  req w1 of
             (Inr conn, w2) \<Rightarrow>
               Some (Inr conn, env1,
                 bump (w_now P w2) handle (\<lambda>st. st\<lparr>es_connects := es_connects st + 1\<rparr>) m1, w2)
           | (Inl e, w2) \<Rightarrow>
               if \<not> IsTemporary e \<or> errors_Is e ErrAuth then
                 Some (connect_failed P handle env1 e m1 w2)
               else
                 connect_from P c handle req n (attempt + 1)
                   (if attempt > 0 then next_backoff backoff else backoff) env1 e m1 w2))"

definition Connect_env ::
  "'w prov \<Rightarrow> ctx \<Rightarrow> string \<Rightarrow> connect_request \<Rightarrow> manager \<Rightarrow> 'w \<Rightarrow> 'w conn_outcome option" where
  "Connect_env P c handle req m w =
    (case Ensure_alone P c handle (req_Progress req) m w of
       None \<Rightarrow> None
     | Some (Inl e, m1, w1) \<Rightarrow> Some (Inl e, no_env, m1, w1)
     | Some (Inr env, m1, w1) \<Rightarrow>
         connect_from P c handle req (nat (ConnectRetries (m_opts m1)) + 1) 0 second env (Errorf [])
           (setPhase (w_now P w1) handle PhaseConnecting ''opening session'' m1) w1)"

section \<open>Sessions coming and going, and Stop\<close>

definition OnSessionOpened :: "int \<Rightarrow> string \<Rightarrow> manager \<Rightarrow> manager" where
  "OnSessionOpened now handle m = setPhase now handle PhaseConnected ''client session attached'' m"

text \<open>The result says whether the goroutine that calls \<open>Stop\<close> was started.\<close>

definition OnSessionClosed :: "'w prov \<Rightarrow> int \<Rightarrow> string \<Rightarrow> int \<Rightarrow> manager \<Rightarrow> bool \<times> manager" where
  "OnSessionClosed P now handle remaining m =
    (if remaining > 0 then (False, m)
     else
       (let caps = w_Capabilities P
        in if StopOnLastDisconnect (m_opts m) \<and> cap_Stop caps then
             (True, setPhase now handle PhaseStopping
                ''stop_on_last_disconnect: last session closed'' m)
           else
             (False, setPhase now handle PhaseProviderManaged
                (if cap_ProviderManagedIdle caps
                 then ''last session closed; idle handling owned by '' @ cap_IdleMechanism caps
                 else ''last session closed; no gateway-side idle handling'') m)))"

definition Stop :: "'w prov \<Rightarrow> ctx \<Rightarrow> string \<Rightarrow> manager \<Rightarrow> 'w \<Rightarrow> goerr option \<times> manager \<times> 'w" where
  "Stop P c handle m w =
    (let eid = ResolvedID handle m;
         sc = WithTimeout (WithoutCancel c) (2 * 60 * second) (w_now P w);
         m1 = setPhase (w_now P w) handle PhaseStopping ''stop requested'' m
     in (case w_Stop P sc eid w of
           (Some e, w1) \<Rightarrow>
             (Some (Wrapf (''stop environment '' @ eid @ '': '') e []),
              fail (w_now P w1) handle e ''stop failed'' m1, w1)
         | (None, w1) \<Rightarrow>
             (None, setPhase (w_now P w1) handle PhaseStopped ''stopped on request'' m1, w1)))"

section \<open>Facts about the critical sections\<close>

lemma set_op_simps [simp]:
  "m_opts (set_op k f m) = m_opts m" "m_states (set_op k f m) = m_states m"
  "m_ops (set_op k f m) = m_ops m" "m_delivered (set_op k f m) = m_delivered m"
  "length (m_opobjs (set_op k f m)) = length (m_opobjs m)"
  "stateLocked t h (set_op k f m) = stateLocked t h m"
  by (simp_all add: set_op_def stateLocked_def)

lemma set_op_nth:
  "k < length (m_opobjs m) \<Longrightarrow>
   m_opobjs (set_op k f m) ! j = (if j = k then f (m_opobjs m ! k) else m_opobjs m ! j)"
  by (simp add: set_op_def)

lemma deliver_simps [simp]:
  "m_opts (deliver fn s m) = m_opts m" "m_states (deliver fn s m) = m_states m"
  "m_ops (deliver fn s m) = m_ops m" "m_opobjs (deliver fn s m) = m_opobjs m"
  by (auto simp: deliver_def split: option.splits)

text \<open>The sections that only touch operations leave the states and the options alone.\<close>

definition same_states :: "manager \<Rightarrow> manager \<Rightarrow> bool" where
  "same_states m m' \<longleftrightarrow> m_states m' = m_states m \<and> m_opts m' = m_opts m"

lemma same_states_simps [simp]:
  "same_states m (set_op k f m)" "same_states m m"
  "same_states m (release env k ab m)" "same_states m (run_finish env k r m)"
  "same_states m (op_cancel k m)" "same_states m (close_done k m)"
  "same_states m (ensure_leave k token m)" "same_states m (deliver fn s m)"
  by (auto simp: same_states_def release_def release_locked_def run_finish_def op_cancel_def
      close_done_def ensure_leave_def Let_def split: prod.splits)

lemma same_states_trans [trans]:
  "same_states a b \<Longrightarrow> same_states b c \<Longrightarrow> same_states a c"
  by (simp add: same_states_def)

lemma same_statesD:
  assumes "same_states m m'"
  shows "state_of h m' = state_of h m" and "m_opts m' = m_opts m"
    and "mgr_hist m' = mgr_hist m"
  using assms by (simp_all add: same_states_def state_of_def stateLocked_def mgr_hist_def)

lemma ensure_enter_states:
  "ensure_enter t c env fn m = (k, j, token, oc, m') \<Longrightarrow> same_states m m'"
  by (auto simp: ensure_enter_def Let_def same_states_def split: option.splits prod.splits)

lemma ensure_enter_first:
  assumes "ensure_enter t c env fn m = (k, False, token, oc, m')"
  shows "map_of (m_ops m) env = None" and "m_ops m' = AList.update env k (m_ops m)"
    and "k = length (m_opobjs m)" and "length (m_opobjs m') = Suc k"
    and "oc = WithTimeout (WithoutCancel c) (ensure_budget (m_opts m)) t"
  using assms by (auto simp: ensure_enter_def Let_def split: option.splits prod.splits)

text \<open>
  What an undisturbed call of \<open>Ensure\<close> does: it runs \<open>ensure\<close> on the entered manager under
  the budget and until the caller's context ends, leaves no operation behind, and returns the result or that the wait ended.
\<close>

lemma Ensure_aloneE:
  assumes "Ensure_alone P c env fn m w = Some (r, m', w')" and "env \<noteq> []"
  obtains oc m1 m2 r0 where
    "map_of (m_ops m) env = None" and
    "oc = until_left c (WithTimeout (WithoutCancel c) (ensure_budget (m_opts m)) (w_now P w))" and
    "same_states m m1" and "ensure P oc env m1 w = Some (r0, m2, w')" and "same_states m2 m'" and
    "r = (case w_err P c w' of None \<Rightarrow> r0 | Some e \<Rightarrow> Inl (waiting_ended env e))" and
    "m_ops m' = AList.delete env (AList.update env (length (m_opobjs m)) (m_ops m))"
proof -
  obtain k j token oc m1 where en: "ensure_enter (w_now P w) c env fn m = (k, j, token, oc, m1)"
    by (metis prod_cases5)
  with assms have j: "j = False" by (auto simp: Ensure_alone_def)
  note F = ensure_enter_first [OF en [unfolded j]]
  from assms en j obtain x where x: "runEnsure P (until_left c oc) env k m1 w = Some x"
    by (auto simp: Ensure_alone_def split: option.split_asm)
  then obtain r0 m2 w2 where e: "ensure P (until_left c oc) env m1 w = Some (r0, m2, w2)"
    and x': "x = (r0, close_done k (op_cancel k (run_finish env k r0 m2)), w2)"
    by (auto simp: runEnsure_def split: option.split_asm)
  define ab where "ab = (w_err P c w2 \<noteq> None)"
  have "w' = w2" and r: "r = (case w_err P c w2 of None \<Rightarrow> r0 | Some e \<Rightarrow> Inl (waiting_ended env e))"
    and m': "m' = ensure_leave k token (release env k ab (close_done k (op_cancel k (run_finish env k r0 m2))))"
    using assms en j x unfolding x' ab_def by (cases "w_err P c w2"; simp add: Ensure_alone_def)+
  note e = e [folded \<open>w' = w2\<close>] and r = r [folded \<open>w' = w2\<close>]
  have o2: "m_ops m2 = AList.update env k (m_ops m)" using ensure_opts(2) [OF e] F(2) by simp
  then have o3: "m_ops (run_finish env k r0 m2) = AList.delete env (m_ops m2)"
    by (simp add: run_finish_def Let_def)
  then have ops: "m_ops m' = AList.delete env (AList.update env (length (m_opobjs m)) (m_ops m))"
    using o2 F(3)
    by (simp add: m' ensure_leave_def release_def release_locked_def close_done_def op_cancel_def Let_def)
  have "same_states m2 (run_finish env k r0 m2)" by simp
  also have "same_states \<dots> (op_cancel k (run_finish env k r0 m2))" by simp
  also have "same_states \<dots> (close_done k (op_cancel k (run_finish env k r0 m2)))" by simp
  also have "same_states \<dots> (release env k ab (close_done k (op_cancel k (run_finish env k r0 m2))))"
    by simp
  also have "same_states \<dots> m'" unfolding m' by simp
  finally show thesis
    using that [OF F(1) _ ensure_enter_states [OF en] e _ r ops] F(5) by simp
qed

lemma Ensure_alone_left:
  assumes "Ensure_alone P c env fn m w = Some (r, m', w')" and "env \<noteq> []" and "w_err P c w' = Some e"
  shows "r = Inl (waiting_ended env e)"
  using Ensure_aloneE [OF assms(1,2)] assms(3) by (metis option.simps(5))

lemma Ensure_alone_returns:
  assumes "clock_ok P" and "0 < PollInterval (m_opts m)" and "map_of (m_ops m) env = None"
  shows "\<exists>r. Ensure_alone P c env fn m w = Some r"
proof (cases "env = []")
  case True
  then show ?thesis by (simp add: Ensure_alone_def)
next
  case False
  obtain k j token oc m1 where en: "ensure_enter (w_now P w) c env fn m = (k, j, token, oc, m1)"
    by (metis prod_cases5)
  with assms(3) have j: "j = False"
    by (auto simp: ensure_enter_def Let_def split: prod.splits)
  have "m_opts m1 = m_opts m" using ensure_enter_states [OF en] by (simp add: same_states_def)
  then obtain r where "ensure P (until_left c oc) env m1 w = Some r"
    using ensure_returns [OF assms(1), of m1] assms(2) by metis
  with en j False show ?thesis
    by (cases r) (simp add: Ensure_alone_def runEnsure_def split: option.split)
qed

lemma Ensure_alone_ok:
  assumes "Ensure_alone P c env fn m w = Some (Inr e, m', w')"
  shows "Connectable (env_State e)" and "es_phase (state_of env m') = PhaseRunning"
proof -
  have "env \<noteq> []" using assms by (auto simp: Ensure_alone_def)
  then obtain oc m1 m2 r0 where "ensure P oc env m1 w = Some (r0, m2, w')" "same_states m2 m'"
    and "Inr e = (case w_err P c w' of None \<Rightarrow> r0 | Some e \<Rightarrow> Inl (waiting_ended env e))"
    using Ensure_aloneE [OF assms] by metis
  then have "ensure P oc env m1 w = Some (Inr e, m2, w')" "same_states m2 m'" by (auto split: option.splits)
  then show "Connectable (env_State e)" and "es_phase (state_of env m') = PhaseRunning"
    using ensure_ok same_statesD(1) by fastforce+
qed

text \<open>What an undisturbed \<open>Ensure\<close> keeps.\<close>

lemma Ensure_alone_keeps:
  assumes "Ensure_alone P c env fn m w = Some (r, m', w')"
  shows "m_opts m' = m_opts m" and "mgr_hist m \<Longrightarrow> mgr_hist m'"
    and "map_of (m_ops m) env = None \<Longrightarrow> map_of (m_ops m') = map_of (m_ops m)"
    and "within env 1 (if AutoCreate (m_opts m) then 1 else 0) m m'"
proof -
  have "m_opts m' = m_opts m \<and> (mgr_hist m \<longrightarrow> mgr_hist m') \<and>
      (map_of (m_ops m) env = None \<longrightarrow> map_of (m_ops m') = map_of (m_ops m)) \<and>
      within env 1 (if AutoCreate (m_opts m) then 1 else 0) m m'"
  proof (cases "env = []")
    case True
    with assms show ?thesis by (auto simp: Ensure_alone_def within_def)
  next
    case False
    then obtain oc m1 m2 r0 where s: "same_states m m1" "same_states m2 m'"
      and e: "ensure P oc env m1 w = Some (r0, m2, w')"
      and o': "m_ops m' = AList.delete env (AList.update env (length (m_opobjs m)) (m_ops m))"
      using Ensure_aloneE [OF assms] by metis
    have "m_opts m' = m_opts m"
      using same_statesD(2) s ensure_opts(1) [OF e] by metis
    moreover have "mgr_hist m \<longrightarrow> mgr_hist m'"
      using hist.keep_ensure [OF e] same_statesD(3) s by metis
    moreover have "map_of (m_ops m) env = None \<longrightarrow> map_of (m_ops m') = map_of (m_ops m)"
      using o' by (auto simp: fun_eq_iff)
    moreover have "within env 1 (if AutoCreate (m_opts m) then 1 else 0) m m'"
      using ensure_within [OF e] same_statesD(1,2) [OF s(1)] same_statesD(1) [OF s(2)]
      by (simp add: within_def)
    ultimately show ?thesis by blast
  qed
  then show "m_opts m' = m_opts m" and "mgr_hist m \<Longrightarrow> mgr_hist m'"
    and "map_of (m_ops m) env = None \<Longrightarrow> map_of (m_ops m') = map_of (m_ops m)"
    and "within env 1 (if AutoCreate (m_opts m) then 1 else 0) m m'" by blast+
qed

section \<open>Facts about Connect\<close>

interpretation conns: kept_counts "\<lambda>m. es_connects (state_of h m) = n" h for h n
  by unfold_locales
    (auto simp: state_of_bump state_of_recordErr observe_def resolve_def state_field_time)

lemma Ensure_alone_connects:
  assumes "Ensure_alone P c env fn m w = Some (r, m', w')"
  shows "es_connects (state_of env m') = es_connects (state_of env m)"
proof (cases "env = []")
  case True
  with assms show ?thesis by (simp add: Ensure_alone_def)
next
  case False
  then obtain oc m1 m2 r0 where s: "same_states m m1" "same_states m2 m'"
    and e: "ensure P oc env m1 w = Some (r0, m2, w')"
    using Ensure_aloneE [OF assms] by metis
  show ?thesis using conns.keep_ensure [OF e] same_statesD(1) s by metis
qed

lemma deliver_keeps [simp]:
  "state_of h (deliver fn s m) = state_of h m" "mgr_hist (deliver fn s m) = mgr_hist m"
  by (auto simp: deliver_def state_of_def stateLocked_def mgr_hist_def split: option.splits)

text \<open>What one more round of \<open>Connect\<close> keeps.\<close>

lemma connect_again_keeps:
  assumes "connect_again P c h req att b env m w = Some (x, env', m', w')"
  shows "m_opts m' = m_opts m" and "mgr_hist m \<Longrightarrow> mgr_hist m'"
    and "es_connects (state_of h m') = es_connects (state_of h m)"
    and "map_of (m_ops m) h = None \<Longrightarrow> map_of (m_ops m') = map_of (m_ops m)"
    and "Connectable (env_State env) \<Longrightarrow> Connectable (env_State env')"
    and "x = Some e \<Longrightarrow> \<exists>e0. e = Wrapf (''connecting to '' @ env_ID env @ '': '') e0 []"
  using assms unfolding connect_again_def Let_def
  by (auto split: prod.splits option.splits sum.splits
      dest: Ensure_alone_keeps Ensure_alone_connects Ensure_alone_ok)

lemma connect_again_returns:
  assumes "clock_ok P" and "0 < PollInterval (m_opts m)" and "map_of (m_ops m) h = None"
  shows "\<exists>x. connect_again P c h req att b env m w = Some x"
proof -
  let ?m = "deliver (req_Progress req) (connect_notice att (ConnectRetries (m_opts m))) m"
  obtain s w1 where s: "w_sel P c (w_now P w + b) w = (s, w1)"
    by (cases "w_sel P c (w_now P w + b) w")
  obtain r m2 w2 where "Ensure_alone P c h (req_Progress req) ?m w1 = Some (r, m2, w2)"
    using Ensure_alone_returns [OF assms(1), of ?m] assms(2,3) by (metis deliver_simps(1,3) prod_cases3)
  with s show ?thesis unfolding connect_again_def Let_def
    by (cases s; cases r) auto
qed

lemma fail_keeps [simp]:
  "m_opts (fail t h e r m) = m_opts m" "m_ops (fail t h e r m) = m_ops m"
  "mgr_hist m \<Longrightarrow> mgr_hist (fail t h e r m)"
  by (simp_all add: fail_def hist.keep_setPhase hist.keep_recordErr)

lemma connect_from_ok:
  assumes "connect_from P c h req n att b env le m w = Some (Inr conn, env', m', w')"
    and "Connectable (env_State env)"
  shows "Connectable (env_State env') \<and>
    es_connects (state_of h m') = es_connects (state_of h m) + 1"
  using assms
proof (induction n arbitrary: att b env le m w)
  case 0
  then show ?case by (simp add: connect_failed_def)
next
  case (Suc n)
  obtain env1 m1 w1 where a: "(if att > 0 then connect_again P c h req att b env m w
        else Some (None, env, m, w)) = Some (None, env1, m1, w1)"
    using Suc.prems(1) by (auto split: option.splits)
  then have "Connectable (env_State env1)"
    and n: "es_connects (state_of h m1) = es_connects (state_of h m)"
    using Suc.prems(2) connect_again_keeps(3,5) by (auto split: if_splits)
  with a Suc show ?case
    by (auto simp: connect_failed_def state_of_bump state_field_time
        split: prod.splits sum.splits if_splits)
qed

lemma connect_from_keeps:
  assumes "connect_from P c h req n att b env le m w = Some (r, env', m', w')"
  shows "m_opts m' = m_opts m \<and> (mgr_hist m \<longrightarrow> mgr_hist m') \<and>
    (map_of (m_ops m) h = None \<longrightarrow> map_of (m_ops m') = map_of (m_ops m))"
  using assms
proof (induction n arbitrary: att b env le m w)
  case 0
  then show ?case by (auto simp: connect_failed_def)
next
  case (Suc n)
  obtain x env1 m1 w1 where a: "(if att > 0 then connect_again P c h req att b env m w
        else Some (None, env, m, w)) = Some (x, env1, m1, w1)"
    using Suc.prems(1) by (cases "if att > 0 then connect_again P c h req att b env m w
        else Some (None, env, m, w)") auto
  then have k: "m_opts m1 = m_opts m \<and> (mgr_hist m \<longrightarrow> mgr_hist m1) \<and>
      (map_of (m_ops m) h = None \<longrightarrow> map_of (m_ops m1) = map_of (m_ops m))"
    using connect_again_keeps(1,2,4) by (auto split: if_splits)
  show ?case
  proof (cases x)
    case (Some e)
    with a Suc.prems k show ?thesis by auto
  next
    case None
    obtain y w2 where c: "w_Connect P (WithTimeout c (ConnectTimeout (m_opts m1)) (w_now P w1))
        (env_ID env1) req w1 = (y, w2)" by (cases "w_Connect P (WithTimeout c (ConnectTimeout
          (m_opts m1)) (w_now P w1)) (env_ID env1) req w1")
    show ?thesis
    proof (cases y)
      case (Inr conn)
      with None a c Suc.prems k show ?thesis
        by (auto intro!: mgr_hist_bump)
    next
      case (Inl e)
      show ?thesis
      proof (cases "\<not> IsTemporary e \<or> errors_Is e ErrAuth")
        case True
        with Inl None a c Suc.prems have "m' = fail (w_now P w2) h e ''connect failed'' m1"
          by (auto simp: connect_failed_def)
        with k show ?thesis by simp
      next
        case False
        with Inl None a c Suc.prems have "connect_from P c h req n (att + 1)
            (if att > 0 then next_backoff b else b) env1 e m1 w2 = Some (r, env', m', w')"
          by auto
        from Suc.IH [OF this] k show ?thesis by simp
      qed
    qed
  qed
qed

lemma connect_from_returns:
  assumes "clock_ok P" and "0 < PollInterval (m_opts m)" and "map_of (m_ops m) h = None"
  shows "\<exists>x. connect_from P c h req n att b env le m w = Some x"
  using assms(2,3)
proof (induction n arbitrary: att b env le m w)
  case 0
  then show ?case by (simp add: connect_failed_def)
next
  case (Suc n)
  obtain x env1 m1 w1 where a: "(if att > 0 then connect_again P c h req att b env m w
        else Some (None, env, m, w)) = Some (x, env1, m1, w1)"
    using connect_again_returns [OF assms(1) Suc.prems] by (cases "att > 0") fastforce+
  then have "m_opts m1 = m_opts m" "map_of (m_ops m1) h = None"
    using connect_again_keeps(1,4) [of P c h req att b env m w x env1 m1 w1] Suc.prems
    by (auto split: if_splits)
  then have IH: "\<exists>x. connect_from P c h req n att' b' env1 le' m1 w' = Some x" for att' b' le' w'
    using Suc by simp
  show ?case using a IH
    by (auto simp: connect_failed_def split: option.splits prod.splits sum.splits)
qed

lemma connect_from_fails:
  assumes "connect_from P c h req n att b env le m w = Some (Inl e, env', m', w')"
  shows "failed_with h e m' \<or> (\<exists>e0 i. e = Wrapf (''connecting to '' @ i @ '': '') e0 [])"
  using assms
proof (induction n arbitrary: att b env le m w)
  case 0
  then show ?case by (auto simp: connect_failed_def failed_with_def)
next
  case (Suc n)
  then show ?case
    by (auto simp: connect_failed_def failed_with_def
        split: option.splits prod.splits sum.splits if_splits dest!: connect_again_keeps(6))
qed

declare connect_from.simps [simp del]

lemma Connect_envE:
  assumes "Connect_env P c h req m w = Some (r, env, m', w')"
  obtains e where "Ensure_alone P c h (req_Progress req) m w = Some (Inl e, m', w')" "r = Inl e"
    | env1 m1 w1 where "Ensure_alone P c h (req_Progress req) m w = Some (Inr env1, m1, w1)"
      "connect_from P c h req (nat (ConnectRetries (m_opts m1)) + 1) 0 second env1 (Errorf [])
         (setPhase (w_now P w1) h PhaseConnecting ''opening session'' m1) w1 = Some (r, env, m', w')"
  using assms unfolding Connect_env_def by (auto split: option.splits sum.splits)

lemma Connect_env_ok:
  assumes "Connect_env P c h req m w = Some (Inr conn, env, m', w')"
  shows "Connectable (env_State env)"
    and "es_connects (state_of h m') = es_connects (state_of h m) + 1"
proof -
  obtain env1 m1 w1 where e: "Ensure_alone P c h (req_Progress req) m w = Some (Inr env1, m1, w1)"
    and c: "connect_from P c h req (nat (ConnectRetries (m_opts m1)) + 1) 0 second env1 (Errorf [])
         (setPhase (w_now P w1) h PhaseConnecting ''opening session'' m1) w1 =
         Some (Inr conn, env, m', w')"
    using assms by (auto elim: Connect_envE)
  from connect_from_ok [OF c Ensure_alone_ok(1) [OF e]] Ensure_alone_connects [OF e]
  show "Connectable (env_State env)"
    and "es_connects (state_of h m') = es_connects (state_of h m) + 1" by simp_all
qed

lemma Connect_env_keeps:
  assumes "Connect_env P c h req m w = Some (r, env, m', w')"
  shows "m_opts m' = m_opts m" and "mgr_hist m \<Longrightarrow> mgr_hist m'"
    and "map_of (m_ops m) h = None \<Longrightarrow> map_of (m_ops m') = map_of (m_ops m)"
proof -
  have "m_opts m' = m_opts m \<and> (mgr_hist m \<longrightarrow> mgr_hist m') \<and>
      (map_of (m_ops m) h = None \<longrightarrow> map_of (m_ops m') = map_of (m_ops m))"
    using assms
  proof (cases rule: Connect_envE)
    case (1 e)
    with Ensure_alone_keeps [OF 1(1)] show ?thesis by blast
  next
    case (2 env1 m1 w1)
    note K = Ensure_alone_keeps [OF 2(1)]
    from connect_from_keeps [OF 2(2)] K(1-3) hist.keep_setPhase show ?thesis by simp
  qed
  then show "m_opts m' = m_opts m" and "mgr_hist m \<Longrightarrow> mgr_hist m'"
    and "map_of (m_ops m) h = None \<Longrightarrow> map_of (m_ops m') = map_of (m_ops m)" by blast+
qed

lemma Connect_env_returns:
  assumes "clock_ok P" and "0 < PollInterval (m_opts m)" and "map_of (m_ops m) h = None"
  shows "\<exists>x. Connect_env P c h req m w = Some x"
proof -
  obtain r m1 w1 where e: "Ensure_alone P c h (req_Progress req) m w = Some (r, m1, w1)"
    using Ensure_alone_returns [OF assms] by (metis prod_cases3)
  let ?m = "setPhase (w_now P w1) h PhaseConnecting ''opening session'' m1"
  have "0 < PollInterval (m_opts ?m)" "map_of (m_ops ?m) h = None"
    using Ensure_alone_keeps(1,3) [OF e] assms(2,3) by simp_all
  from connect_from_returns [OF assms(1) this] e show ?thesis
    by (cases r) (simp_all add: Connect_env_def del: split_paired_Ex)
qed

end
