(* ===== verification/Calls.thy ===== *)
theory Calls
  imports Connect
begin

text \<open>
  How often the lifecycle manager asks the provider to do something. \<open>counting P\<close> is the
  provider \<open>P\<close> with a tally of the calls that change the world; it behaves as \<open>P\<close> otherwise.
  The lemmas bound the tally over one \<open>ensure\<close> and one \<open>Connect\<close>, whatever the provider
  answers.
\<close>

record calls =
  n_create :: nat
  n_start :: nat
  n_stop :: nat
  n_connect :: nat

definition no_calls :: calls where
  "no_calls = \<lparr>n_create = 0, n_start = 0, n_stop = 0, n_connect = 0\<rparr>"

definition with_tally :: "(calls \<Rightarrow> calls) \<Rightarrow> calls \<Rightarrow> 'r \<times> 'w \<Rightarrow> 'r \<times> 'w \<times> calls" where
  "with_tally f n rw = (fst rw, snd rw, f n)"

definition counting :: "'w prov \<Rightarrow> ('w \<times> calls) prov" where
  "counting P = \<lparr>
     w_now = (\<lambda>(w, n). w_now P w),
     w_err = (\<lambda>c (w, n). w_err P c w),
     w_sel = (\<lambda>c t (w, n). with_tally (\<lambda>n. n) n (w_sel P c t w)),
     w_Name = w_Name P,
     w_Capabilities = w_Capabilities P,
     w_DefaultEnvironment = w_DefaultEnvironment P,
     w_List = (\<lambda>c (w, n). with_tally (\<lambda>n. n) n (w_List P c w)),
     w_Get = (\<lambda>c e (w, n). with_tally (\<lambda>n. n) n (w_Get P c e w)),
     w_Create = (\<lambda>c s (w, n). with_tally (\<lambda>n. n\<lparr>n_create := n_create n + 1\<rparr>) n (w_Create P c s w)),
     w_Start = (\<lambda>c e (w, n). with_tally (\<lambda>n. n\<lparr>n_start := n_start n + 1\<rparr>) n (w_Start P c e w)),
     w_Stop = (\<lambda>c e (w, n). with_tally (\<lambda>n. n\<lparr>n_stop := n_stop n + 1\<rparr>) n (w_Stop P c e w)),
     w_Connect = (\<lambda>c e r (w, n).
       with_tally (\<lambda>n. n\<lparr>n_connect := n_connect n + 1\<rparr>) n (w_Connect P c e r w))\<rparr>"

section \<open>Reading only\<close>

text \<open>A property of the world that looking and waiting keeps.\<close>

locale reading =
  fixes P :: "'w prov" and J :: "'w \<Rightarrow> bool"
  assumes sel_keeps: "J w \<Longrightarrow> w_sel P c t w = (s, w') \<Longrightarrow> J w'"
    and get_keeps: "J w \<Longrightarrow> w_Get P c e w = (r, w') \<Longrightarrow> J w'"
    and list_keeps: "J w \<Longrightarrow> w_List P c w = (rs, w') \<Longrightarrow> J w'"
begin

lemma get_from_keeps: "get_from P c h n att e m w = (r, m', w') \<Longrightarrow> J w \<Longrightarrow> J w'"
proof (induction n arbitrary: att e m w)
  case 0
  then show ?case by simp
next
  case (Suc n)
  from Suc(2,3) show ?case
    by (auto split: prod.splits option.splits sum.splits if_splits
        dest!: Suc(1) dest: sel_keeps get_keeps)
qed

lemma manager_get_keeps: "manager_get P c h m w = (r, m', w') \<Longrightarrow> J w \<Longrightarrow> J w'"
  unfolding manager_get_def by (rule get_from_keeps)

lemma adopt_keeps: "adopt P c h m w = (r, m', w') \<Longrightarrow> J w \<Longrightarrow> J w'"
  by (auto simp: adopt_def split: prod.splits sum.splits list.splits dest: list_keeps)

lemma waitFor_keeps:
  assumes "waitFor P c h eid what dn m w = Some (r, m', w')" and "J w"
  shows "J w'"
proof -
  have nxt: "J w'" if "wait_iter P c h eid what dn t0 (s, m, w) = Inl (s', m', w')" "J w"
    for t0 s m w s' m' w'
    using that unfolding wait_iter_def Let_def
    by (auto split: prod.splits option.splits sum.splits if_splits dest: sel_keeps get_keeps)
  have ret: "J w'" if "wait_iter P c h eid what dn t0 (s, m, w) = Inr (r, m', w')" "J w"
    for t0 s m w r m' w'
    using that unfolding wait_iter_def Let_def
    by (auto split: prod.splits option.splits sum.splits if_splits dest: sel_keeps get_keeps)
  have "J (snd (snd st)) \<longrightarrow> J (snd (snd out))"
    if "forever (wait_iter P c h eid what dn t0) st = Some out" for t0 st out
    using that
  proof (induction rule: forever_induct)
    case (returns st r)
    then show ?case by (cases st; cases r) (auto dest: ret)
  next
    case (again st st' r)
    then show ?case by (cases st; cases st') (auto dest: nxt)
  qed
  with assms show ?thesis unfolding waitFor_def Let_def by fastforce
qed

end

lemma counting_simps [simp]:
  "w_sel (counting P) c t (w, n) = (s, w', n') \<longleftrightarrow> w_sel P c t w = (s, w') \<and> n' = n"
  "w_Get (counting P) c e (w, n) = (r, w', n') \<longleftrightarrow> w_Get P c e w = (r, w') \<and> n' = n"
  "w_List (counting P) c (w, n) = (rs, w', n') \<longleftrightarrow> w_List P c w = (rs, w') \<and> n' = n"
  "w_Create (counting P) c cs (w, n) = (r, w', n') \<longleftrightarrow>
     w_Create P c cs w = (r, w') \<and> n' = n\<lparr>n_create := n_create n + 1\<rparr>"
  "w_Start (counting P) c e (w, n) = (s, w', n') \<longleftrightarrow>
     w_Start P c e w = (s, w') \<and> n' = n\<lparr>n_start := n_start n + 1\<rparr>"
  "w_Stop (counting P) c e (w, n) = (s, w', n') \<longleftrightarrow>
     w_Stop P c e w = (s, w') \<and> n' = n\<lparr>n_stop := n_stop n + 1\<rparr>"
  "w_Connect (counting P) c e q (w, n) = (k, w', n') \<longleftrightarrow>
     w_Connect P c e q w = (k, w') \<and> n' = n\<lparr>n_connect := n_connect n + 1\<rparr>"
  "w_now (counting P) (w, n) = w_now P w"
  by (auto simp: counting_def with_tally_def prod_eq_iff)

interpretation tally: reading "counting P" "\<lambda>x. snd x = n" for P n
  by unfold_locales auto

section \<open>Bounds\<close>

text \<open>At most \<open>a\<close> creates, \<open>b\<close> starts and \<open>k\<close> connects more, and no stop.\<close>

definition asked :: "nat \<Rightarrow> nat \<Rightarrow> nat \<Rightarrow> calls \<Rightarrow> calls \<Rightarrow> bool" where
  "asked a b k n n' \<longleftrightarrow> n_create n' \<le> n_create n + a \<and> n_start n' \<le> n_start n + b \<and>
     n_connect n' \<le> n_connect n + k \<and> n_stop n' = n_stop n"

lemma create_asked:
  "create (counting P) c h m (w, n) = (r, m', w', n') \<Longrightarrow> asked 1 0 0 n n'"
  by (auto simp: create_def Let_def asked_def split: prod.splits sum.splits)

lemma lookup_asked:
  assumes "ensure_lookup (counting P) c h m (w, n) = (r, m', w', n')"
  shows "asked (if AutoCreate (m_opts m) then 1 else 0) 0 0 n n'"
proof -
  obtain r1 m1 w1 n1 where g: "manager_get (counting P) c h m (w, n) = (r1, m1, w1, n1)"
    by (metis prod_cases4)
  obtain r2 m2 w2 n2 where a: "adopt (counting P) c h m1 (w1, n1) = (r2, m2, w2, n2)"
    by (metis prod_cases4)
  have n: "n1 = n" "n2 = n"
    using tally.manager_get_keeps [OF g] tally.adopt_keeps [OF a] by auto
  have "m_opts m2 = m_opts m"
    using manager_get_counts [OF g] adopt_counts [OF a] by simp
  with assms g a n show ?thesis unfolding ensure_lookup_def
    by (auto split: sum.splits option.splits if_splits dest!: create_asked simp: asked_def)
qed

lemma start_asked:
  "ensure_start (counting P) c h env m (w, n) = (r, m', w', n') \<Longrightarrow> asked 0 1 0 n n'"
  by (auto simp: ensure_start_def Let_def asked_def split: prod.splits option.splits if_splits)

lemma ready_asked:
  assumes "ensure_ready (counting P) c h env m (w, n) = Some (r, m', w', n')"
  shows "asked 0 1 0 n n'"
proof -
  obtain e m1 w1 n1 where s: "ensure_start (counting P) c h env m (w, n) = (e, m1, w1, n1)"
    by (metis prod_cases4)
  with assms show ?thesis unfolding ensure_ready_def
    by (auto split: option.splits sum.splits
        dest!: start_asked tally.waitFor_keeps [where n = n1])
qed

lemma found_asked:
  assumes "ensure_found (counting P) c h env m (w, n) = Some (r, m', w', n')"
  shows "asked 0 1 0 n n'"
  using assms unfolding ensure_found_def Let_def
  by (auto split: option.splits sum.splits if_splits
      dest!: ready_asked tally.waitFor_keeps [where n = n] simp: asked_def)

lemma ensure_asked:
  assumes "ensure (counting P) c h m (w, n) = Some (r, m', w', n')"
  shows "asked (if AutoCreate (m_opts m) then 1 else 0) 1 0 n n'"
proof -
  obtain r1 m1 w1 n1 where l: "ensure_lookup (counting P) c h m (w, n) = (r1, m1, w1, n1)"
    by (metis prod_cases4)
  with assms show ?thesis using lookup_asked [OF l] unfolding ensure_def
    by (auto split: sum.splits dest!: found_asked simp: asked_def)
qed

lemma Ensure_alone_asked:
  assumes "Ensure_alone (counting P) c h fn m (w, n) = Some (r, m', w', n')"
  shows "asked (if AutoCreate (m_opts m) then 1 else 0) 1 0 n n'"
proof (cases "h = []")
  case True
  with assms show ?thesis by (simp add: Ensure_alone_def asked_def)
next
  case False
  then obtain oc m1 m2 r0 where "same_states m m1" and
    e: "ensure (counting P) oc h m1 (w, n) = Some (r0, m2, w', n')"
    using Ensure_aloneE [OF assms] by metis
  then show ?thesis using ensure_asked [OF e] by (simp add: same_states_def)
qed

lemma asked_trans: "asked a b k n n1 \<Longrightarrow> asked a' b' k' n1 n2 \<Longrightarrow> asked (a + a') (b + b') (k + k') n n2"
  by (auto simp: asked_def)

lemma asked_mono: "asked a b k n n1 \<Longrightarrow> a \<le> a' \<Longrightarrow> b \<le> b' \<Longrightarrow> k \<le> k' \<Longrightarrow> asked a' b' k' n n1"
  by (auto simp: asked_def)

lemma asked_refl [simp]: "asked a b k n n"
  by (simp add: asked_def)

lemma connect_again_asked:
  assumes "connect_again (counting P) c h req att b env m (w, n) = Some (x, env', m', w', n')"
  shows "asked (if AutoCreate (m_opts m) then 1 else 0) 1 0 n n'"
  using assms unfolding connect_again_def Let_def
  by (auto split: prod.splits option.splits sum.splits dest!: Ensure_alone_asked)

lemma connect_from_asked:
  assumes "connect_from (counting P) c h req k att b env le m (w, n) = Some (r, env', m', w', n')"
  defines "a \<equiv> (if AutoCreate (m_opts m) then 1 else 0)"
  shows "asked (a * (if att > 0 then k else k - 1)) (if att > 0 then k else k - 1) k n n'"
  using assms(1) unfolding a_def
proof (induction k arbitrary: att b env le m w n)
  case 0
  then show ?case by (simp add: connect_from.simps connect_failed_def)
next
  case (Suc k)
  let ?first = "if att > 0 then connect_again (counting P) c h req att b env m (w, n)
        else Some (None, env, m, w, n)"
  let ?a = "if AutoCreate (m_opts m) then 1 else (0::nat)"
  obtain x env1 m1 w1 n1 where f: "?first = Some (x, env1, m1, w1, n1)"
    using Suc.prems by (cases ?first) (auto simp: connect_from.simps)
  then have o1: "m_opts m1 = m_opts m"
    and n1: "asked (if att > 0 then ?a else 0) (if att > 0 then 1 else 0) 0 n n1"
    using connect_again_keeps(1) connect_again_asked by (fastforce split: if_splits)+
  show ?case
  proof (cases x)
    case (Some e)
    with f Suc.prems have "n' = n1" by (auto simp: connect_from.simps)
    with n1 show ?thesis by (auto intro: asked_mono split: if_splits)
  next
    case None
    obtain y w2 n2 where y: "w_Connect (counting P) (WithTimeout c (ConnectTimeout (m_opts m1))
        (w_now (counting P) (w1, n1))) (env_ID env1) req (w1, n1) = (y, w2, n2)" by (metis prod_cases3)
    then have n2: "asked 0 0 1 n1 n2" by (auto simp: asked_def)
    from asked_trans [OF n1 n2]
    have n12: "asked (if att > 0 then ?a else 0) (if att > 0 then 1 else 0) 1 n n2" by simp
    show ?thesis
    proof (cases "\<exists>e. y = Inl e \<and> IsTemporary e \<and> \<not> errors_Is e ErrAuth")
      case False
      with f None y Suc.prems have "n' = n2"
        by (auto simp: connect_from.simps connect_failed_def split: prod.splits sum.splits if_splits)
      with n12 show ?thesis by (auto intro: asked_mono split: if_splits)
    next
      case True
      with f None y Suc.prems obtain e b' where
        "connect_from (counting P) c h req k (att + 1) b' env1 e m1 (w2, n2) = Some (r, env', m', w', n')"
        by (auto simp: connect_from.simps split: prod.splits if_splits)
      from Suc.IH [OF this] o1 have "asked (?a * k) k k n2 n'" by simp
      from asked_trans [OF n12 this] show ?thesis by (auto split: if_splits)
    qed
  qed
qed

lemma Connect_env_asked:
  assumes "Connect_env (counting P) c h req m (w, n) = Some (r, env, m', w', n')"
  defines "k \<equiv> nat (ConnectRetries (m_opts m)) + 1"
  shows "asked (if AutoCreate (m_opts m) then k else 0) k k n n'"
  using assms(1)
proof (cases rule: Connect_envE)
  case (1 e)
  from Ensure_alone_asked [OF 1(1)] show ?thesis by (rule asked_mono) (auto simp: k_def)
next
  case (2 env1 m1 wn)
  obtain w1 n1 where wn: "wn = (w1, n1)" by (cases wn)
  note K = Ensure_alone_keeps(1) [OF 2(1)]
  note A = Ensure_alone_asked [OF 2(1) [unfolded wn]]
  have "asked ((if AutoCreate (m_opts m) then 1 else 0) * (k - 1)) (k - 1) k n1 n'"
    using connect_from_asked [OF 2(2) [unfolded wn]] K by (simp add: k_def)
  from asked_trans [OF A this] show ?thesis
    by (rule asked_mono) (auto simp: k_def)
qed

end
