(* ===== verification/Sessions.thy ===== *)
theory Sessions
  imports Providers
begin

text \<open>
  The registry of live client sessions (\<open>core/session/session.go\<close>): limits, per-environment
  counts, hooks, snapshots. Session handles are pointers in Go; here they index the list
  \<open>objs\<close> of every session ever opened, so that a handle whose session was closed can be
  closed again. The locale \<open>session_registry\<close> is what the gateway relies on;
  \<open>sess\<close> interprets it by the model.
\<close>

section \<open>Data\<close>

record info =
  i_ID :: string
  i_User :: string
  i_Environment :: string
  i_RemoteAddr :: string
  i_ClientVersion :: string
  i_StartedAt :: "int option"
  i_PTY :: bool
  i_Kind :: string
  i_Phase :: string

record session_obj =
  so_info :: info
  so_closed :: bool

datatype hook_event = FirstHook string | LastHook string

record session_mgr =
  objs :: "session_obj list"
  byID :: "(string, nat) gomap"
  perEnv :: "(string, int) gomap"
  seq :: "64 word"
  maxTotal :: int
  maxPerEnv :: int
  onLast :: bool
  onFirst :: bool
  fired :: "hook_event list"

definition NewManager :: "int \<Rightarrow> int \<Rightarrow> session_mgr" where
  "NewManager mt me = \<lparr>objs = [], byID = [], perEnv = [], seq = 0, maxTotal = mt, maxPerEnv = me,
     onLast = False, onFirst = False, fired = []\<rparr>"

definition SetHooks :: "bool \<Rightarrow> bool \<Rightarrow> session_mgr \<Rightarrow> session_mgr" where
  "SetHooks f l m = m\<lparr>onFirst := f, onLast := l\<rparr>"

section \<open>Operations\<close>

definition session_id :: "64 word \<Rightarrow> string" where
  "session_id n = ''s'' @ show_nat (unat n)"

definition limit_text :: "int \<Rightarrow> string" where
  "limit_text n = '' (limit '' @ show_int n @ '')''"

definition fill_info :: "info \<Rightarrow> int \<Rightarrow> 64 word \<Rightarrow> info" where
  "fill_info i now sq =
    (let i1 = (if i_StartedAt i = None then i\<lparr>i_StartedAt := Some now\<rparr> else i);
         i2 = i1\<lparr>i_ID := session_id sq\<rparr>
     in if i_Phase i2 = [] then i2\<lparr>i_Phase := ''opening''\<rparr> else i2)"

definition Open :: "info \<Rightarrow> int \<Rightarrow> session_mgr \<Rightarrow> (goerr + nat) \<times> session_mgr" where
  "Open i now m =
    (let env = i_Environment i in
     if maxTotal m > 0 \<and> int (length (byID m)) \<ge> maxTotal m then
       (Inl (Wrapf [] (Sentinel ErrTooManySessions) (limit_text (maxTotal m))), m)
     else if maxPerEnv m > 0 \<and> getz (perEnv m) env 0 \<ge> maxPerEnv m then
       (Inl (Wrapf [] (Sentinel ErrTooManySessionsForEnv) ('' '' @ env @ limit_text (maxPerEnv m))), m)
     else
       (let sq = seq m + 1;
            i' = fill_info i now sq;
            r = length (objs m);
            n = getz (perEnv m) env 0 + 1
        in (Inr r,
            m\<lparr>objs := objs m @ [\<lparr>so_info = i', so_closed = False\<rparr>],
              byID := AList.update (i_ID i') r (byID m),
              perEnv := AList.update env n (perEnv m),
              seq := sq,
              fired := fired m @ (if n = 1 \<and> onFirst m then [FirstHook env] else [])\<rparr>)))"

text \<open>
  \<open>Close\<close> of a nil session or of a closed one does nothing. Here as in \<open>Open\<close> the code calls the hook after it has
  released the lock; \<open>fired\<close> is the order in which the calls became due under the lock, which is the order of the
  calls when the operations follow one another.
\<close>

definition Close :: "nat option \<Rightarrow> session_mgr \<Rightarrow> session_mgr" where
  "Close s m =
    (case s of
       None \<Rightarrow> m
     | Some r \<Rightarrow>
        if length (objs m) \<le> r \<or> so_closed (objs m ! r) then m
        else
          (let ob = objs m ! r; env = i_Environment (so_info ob);
               n = getz (perEnv m) env 0;
               pe = (if n \<le> 1 then AList.delete env (perEnv m)
                     else AList.update env (n - 1) (perEnv m))
           in m\<lparr>objs := (objs m)[r := ob\<lparr>so_closed := True\<rparr>],
                byID := AList.delete (i_ID (so_info ob)) (byID m),
                perEnv := pe,
                fired := fired m @ (if getz pe env 0 = 0 \<and> onLast m then [LastHook env] else [])\<rparr>))"

definition CountFor :: "session_mgr \<Rightarrow> string \<Rightarrow> int" where
  "CountFor m env = getz (perEnv m) env 0"

definition Total :: "session_mgr \<Rightarrow> int" where
  "Total m = int (length (byID m))"

definition session_SetPhase :: "nat \<Rightarrow> string \<Rightarrow> session_mgr \<Rightarrow> session_mgr" where
  "session_SetPhase r p m =
    m\<lparr>objs := (objs m)[r := (objs m ! r)\<lparr>so_info := (so_info (objs m ! r))\<lparr>i_Phase := p\<rparr>\<rparr>]\<rparr>"

definition session_SetKind :: "nat \<Rightarrow> string \<Rightarrow> bool \<Rightarrow> session_mgr \<Rightarrow> session_mgr" where
  "session_SetKind r k pty m =
    m\<lparr>objs := (objs m)[r := (objs m ! r)\<lparr>so_info := (so_info (objs m ! r))\<lparr>i_Kind := k, i_PTY := pty\<rparr>\<rparr>]\<rparr>"

definition started_key :: "info \<Rightarrow> int" where
  "started_key i = (case i_StartedAt i of None \<Rightarrow> 0 | Some t \<Rightarrow> t)"

definition List_sessions :: "session_mgr \<Rightarrow> info list" where
  "List_sessions m =
    sort_key (\<lambda>i. (started_key i, i_ID i)) (map (\<lambda>(_, r). so_info (objs m ! r)) (byID m))"

section \<open>Invariant\<close>

text \<open>
  \<open>byID\<close> holds exactly the open sessions under their ids, the ids are the numbers of the
  sequence, the per-environment counts are those of the open sessions and no entry is zero,
  and neither limit is exceeded.
\<close>

definition live :: "session_mgr \<Rightarrow> nat \<Rightarrow> bool" where
  "live m r \<longleftrightarrow> r < length (objs m) \<and> \<not> so_closed (objs m ! r)"

definition sid :: "nat \<Rightarrow> string" where
  "sid r = ''s'' @ show_nat (Suc r)"

definition obj_env :: "session_obj \<Rightarrow> string" where
  "obj_env ob = i_Environment (so_info ob)"

definition env_live :: "session_obj list \<Rightarrow> string \<Rightarrow> nat" where
  "env_live obs e = length (filter (\<lambda>ob. \<not> so_closed ob \<and> obj_env ob = e) obs)"

definition sess_inv :: "session_mgr \<Rightarrow> bool" where
  "sess_inv m \<longleftrightarrow>
     distinct (map fst (byID m)) \<and> distinct (map fst (perEnv m)) \<and>
     unat (seq m) = length (objs m) \<and>
     (\<forall>r < length (objs m). i_ID (so_info (objs m ! r)) = sid r) \<and>
     (\<forall>id r. map_of (byID m) id = Some r \<longleftrightarrow> live m r \<and> id = sid r) \<and>
     length (byID m) = length (filter (\<lambda>ob. \<not> so_closed ob) (objs m)) \<and>
     (\<forall>e. getz (perEnv m) e 0 = int (env_live (objs m) e)) \<and>
     (\<forall>e n. map_of (perEnv m) e = Some n \<longrightarrow> 0 < n) \<and>
     (0 < maxTotal m \<longrightarrow> int (length (byID m)) \<le> maxTotal m) \<and>
     (0 < maxPerEnv m \<longrightarrow> (\<forall>e. getz (perEnv m) e 0 \<le> maxPerEnv m))"

lemma sess_invI:
  assumes "distinct (map fst (byID m))" and "distinct (map fst (perEnv m))"
    and "unat (seq m) = length (objs m)"
    and "\<And>r. r < length (objs m) \<Longrightarrow> i_ID (so_info (objs m ! r)) = sid r"
    and "\<And>id r. map_of (byID m) id = Some r \<longleftrightarrow> live m r \<and> id = sid r"
    and "length (byID m) = length (filter (\<lambda>ob. \<not> so_closed ob) (objs m))"
    and "\<And>e. getz (perEnv m) e 0 = int (env_live (objs m) e)"
    and "\<And>e n. map_of (perEnv m) e = Some n \<Longrightarrow> 0 < n"
    and "0 < maxTotal m \<Longrightarrow> int (length (byID m)) \<le> maxTotal m"
    and "\<And>e. 0 < maxPerEnv m \<Longrightarrow> getz (perEnv m) e 0 \<le> maxPerEnv m"
  shows "sess_inv m"
  using assms unfolding sess_inv_def by blast

lemma sess_invD:
  assumes "sess_inv m"
  shows "distinct (map fst (byID m))" and "distinct (map fst (perEnv m))"
    and "unat (seq m) = length (objs m)"
    and "r < length (objs m) \<Longrightarrow> i_ID (so_info (objs m ! r)) = sid r"
    and "map_of (byID m) k = Some r \<longleftrightarrow> live m r \<and> k = sid r"
    and "length (byID m) = length (filter (\<lambda>ob. \<not> so_closed ob) (objs m))"
    and "getz (perEnv m) e 0 = int (env_live (objs m) e)"
    and "map_of (perEnv m) e = Some n \<Longrightarrow> 0 < n"
    and "0 < maxTotal m \<Longrightarrow> int (length (byID m)) \<le> maxTotal m"
    and "0 < maxPerEnv m \<Longrightarrow> getz (perEnv m) e 0 \<le> maxPerEnv m"
  using assms unfolding sess_inv_def by blast+

text \<open>The 64-bit sequence number has not wrapped.\<close>

definition room :: "session_mgr \<Rightarrow> bool" where
  "room m \<longleftrightarrow> length (objs m) < 2 ^ 64 - 1"

lemma sid_inj [simp]: "sid r = sid r' \<longleftrightarrow> r = r'"
  by (simp add: sid_def)

lemma sess_inv_New [simp]: "sess_inv (NewManager mt me)"
  by (auto simp: sess_inv_def NewManager_def live_def env_live_def)

lemma fill_info_simps [simp]:
  "i_ID (fill_info i now sq) = session_id sq"
  "i_Environment (fill_info i now sq) = i_Environment i"
  by (simp_all add: fill_info_def Let_def)

lemma seq_next:
  assumes "unat (sq :: 64 word) = n" and "n < 2 ^ 64 - 1"
  shows "unat (sq + 1) = Suc n" and "session_id (sq + 1) = sid n"
proof -
  from assms show "unat (sq + 1) = Suc n"
    by (simp add: unat_word_ariths)
  then show "session_id (sq + 1) = sid n" by (simp add: session_id_def sid_def)
qed

lemma env_live_append:
  "env_live (obs @ [ob]) e =
     env_live obs e + (if \<not> so_closed ob \<and> obj_env ob = e then 1 else 0)"
  by (simp add: env_live_def)

lemma live_perEnv_pos:
  assumes "sess_inv m" and "live m r"
  shows "1 \<le> getz (perEnv m) (obj_env (objs m ! r)) 0"
proof -
  have "0 < env_live (objs m) (obj_env (objs m ! r))"
    unfolding env_live_def using assms(2)
    by (intro filter_nth_pos [of r]) (auto simp: live_def)
  with assms(1) show ?thesis by (simp add: sess_inv_def)
qed

lemma fresh_id:
  assumes "sess_inv m"
  shows "sid (length (objs m)) \<notin> fst ` set (byID m)"
proof
  assume "sid (length (objs m)) \<in> fst ` set (byID m)"
  then obtain r where "map_of (byID m) (sid (length (objs m))) = Some r"
    by (metis map_of_eq_None_iff not_None_eq)
  with assms show False by (auto simp: sess_inv_def live_def)
qed

section \<open>What Open does\<close>

lemma Open_full:
  "0 < maxTotal m \<Longrightarrow> maxTotal m \<le> Total m \<Longrightarrow>
   Open i now m = (Inl (Wrapf [] (Sentinel ErrTooManySessions) (limit_text (maxTotal m))), m)"
  by (simp add: Open_def Total_def Let_def)

lemma Open_env_full:
  "\<not> (0 < maxTotal m \<and> maxTotal m \<le> Total m) \<Longrightarrow>
   0 < maxPerEnv m \<Longrightarrow> maxPerEnv m \<le> CountFor m (i_Environment i) \<Longrightarrow>
   Open i now m = (Inl (Wrapf [] (Sentinel ErrTooManySessionsForEnv)
     ('' '' @ i_Environment i @ limit_text (maxPerEnv m))), m)"
  by (auto simp: Open_def Total_def CountFor_def Let_def)

lemma Open_InlD: "Open i now m = (Inl e, m') \<Longrightarrow> m' = m"
  by (auto simp: Open_def Let_def split: if_splits)

lemma Open_InrD:
  assumes "Open i now m = (Inr r, m')"
  shows "r = length (objs m)"
    and "objs m' = objs m @ [\<lparr>so_info = fill_info i now (seq m + 1), so_closed = False\<rparr>]"
    and "byID m' = AList.update (session_id (seq m + 1)) r (byID m)"
    and "perEnv m' = AList.update (i_Environment i) (getz (perEnv m) (i_Environment i) 0 + 1) (perEnv m)"
    and "seq m' = seq m + 1"
    and "maxTotal m' = maxTotal m" and "maxPerEnv m' = maxPerEnv m"
    and "0 < maxTotal m \<Longrightarrow> int (length (byID m)) < maxTotal m"
    and "0 < maxPerEnv m \<Longrightarrow> getz (perEnv m) (i_Environment i) 0 < maxPerEnv m"
    and "fired m' = fired m @
      (if getz (perEnv m) (i_Environment i) 0 = 0 \<and> onFirst m then [FirstHook (i_Environment i)] else [])"
    and "onFirst m' = onFirst m" and "onLast m' = onLast m"
  using assms by (auto simp: Open_def Let_def split: if_splits)

lemma Open_live:
  assumes "Open i now m = (Inr r, m')"
  shows "live m' x \<longleftrightarrow> x = r \<or> live m x"
  using Open_InrD(1,2) [OF assms] by (auto simp: live_def nth_append less_Suc_eq)

lemma Open_inv:
  assumes inv: "sess_inv m" and room: "room m" and op: "Open i now m = (Inr r, m')"
  shows "sess_inv m'"
proof -
  note D = Open_InrD [OF op]
  have sq: "unat (seq m) = length (objs m)" using inv by (simp add: sess_inv_def)
  have sid: "session_id (seq m + 1) = sid r" and nxt: "unat (seq m + 1) = Suc (length (objs m))"
    using seq_next [OF sq] room D(1) by (simp_all add: room_def)
  have fresh: "sid r \<notin> fst ` set (byID m)" using fresh_id [OF inv] D(1) by simp
  have by': "byID m' = byID m @ [(sid r, r)]" using D(3) sid fresh by (simp add: update_fresh)
  show ?thesis
  proof (rule sess_invI)
    show "distinct (map fst (byID m'))" using sess_invD(1) [OF inv] fresh by' by simp
    show "distinct (map fst (perEnv m'))" using sess_invD(2) [OF inv] D(4) by simp
    show "unat (seq m') = length (objs m')" using D(2,5) nxt by simp
    show "i_ID (so_info (objs m' ! x)) = Sessions.sid x" if "x < length (objs m')" for x
      using that sess_invD(4) [OF inv] D(1,2) sid by (auto simp: nth_append less_Suc_eq)
    show "map_of (byID m') id = Some x \<longleftrightarrow> live m' x \<and> id = Sessions.sid x" for id x
      using sess_invD(5) [OF inv] D(1,3) sid Open_live [OF op] by (auto simp: live_def)
    show "length (byID m') = length (filter (\<lambda>ob. \<not> so_closed ob) (objs m'))"
      using sess_invD(6) [OF inv] D(2) by' by simp
    show "getz (perEnv m') e 0 = int (env_live (objs m') e)" for e
      using sess_invD(7) [OF inv] D(2,4) by (simp add: env_live_append obj_env_def)
    show "0 < n" if "map_of (perEnv m') e = Some n" for e n
      using that sess_invD(7,8) [OF inv] D(4) by (auto split: if_splits)
    show "int (length (byID m')) \<le> maxTotal m'" if "0 < maxTotal m'"
      using that D(6,8) by' by simp
    show "getz (perEnv m') e 0 \<le> maxPerEnv m'" if "0 < maxPerEnv m'" for e
      using that sess_invD(10) [OF inv] D(4,7,9) by auto
  qed
qed

section \<open>What Close does\<close>

lemma Close_dead: "\<not> live m r \<Longrightarrow> Close (Some r) m = m"
  by (auto simp: Close_def live_def Let_def)

lemma Close_nil [simp]: "Close None m = m"
  by (simp add: Close_def)

lemma Close_live:
  assumes "live m r"
  defines "env \<equiv> obj_env (objs m ! r)"
  shows "objs (Close (Some r) m) = (objs m)[r := (objs m ! r)\<lparr>so_closed := True\<rparr>]"
    and "byID (Close (Some r) m) = AList.delete (i_ID (so_info (objs m ! r))) (byID m)"
    and "perEnv (Close (Some r) m) =
      (if getz (perEnv m) env 0 \<le> 1 then AList.delete env (perEnv m)
       else AList.update env (getz (perEnv m) env 0 - 1) (perEnv m))"
    and "seq (Close (Some r) m) = seq m"
    and "maxTotal (Close (Some r) m) = maxTotal m" and "maxPerEnv (Close (Some r) m) = maxPerEnv m"
    and "onLast (Close (Some r) m) = onLast m" and "onFirst (Close (Some r) m) = onFirst m"
  using assms by (auto simp: Close_def live_def Let_def obj_env_def)

lemma Close_live_set:
  "live m r \<Longrightarrow> live (Close (Some r) m) x \<longleftrightarrow> x \<noteq> r \<and> live m x"
  using Close_live(1) [of m r] by (auto simp: live_def nth_list_update)

lemma Close_count:
  assumes inv: "sess_inv m" and live: "live m r"
  shows "CountFor (Close (Some r) m) e =
    CountFor m e - (if e = obj_env (objs m ! r) then 1 else 0)"
  using Close_live(3) [OF live] live_perEnv_pos [OF inv live]
  by (auto simp: CountFor_def)

lemma env_live_close:
  assumes "r < length obs" and "\<not> so_closed (obs ! r)"
  shows "int (env_live (obs[r := (obs ! r)\<lparr>so_closed := True\<rparr>]) e) =
    int (env_live obs e) - (if e = obj_env (obs ! r) then 1 else 0)"
  using assms unfolding env_live_def
  by (subst length_filter_update) auto

lemma Close_inv:
  assumes inv: "sess_inv m"
  shows "sess_inv (Close s m)"
proof (cases "\<exists>r. s = Some r \<and> live m r")
  case False
  then have "Close s m = m" by (cases s) (auto simp: Close_dead)
  with inv show ?thesis by simp
next
  case True
  then obtain r where s: "s = Some r" and live: "live m r" by blast
  let ?m = "Close (Some r) m"
  note C = Close_live [OF live]
  have r: "r < length (objs m)" "\<not> so_closed (objs m ! r)" using live by (simp_all add: live_def)
  have id: "i_ID (so_info (objs m ! r)) = sid r" using inv r by (simp add: sess_inv_def)
  have mem: "map_of (byID m) (sid r) = Some r" using inv live by (simp add: sess_inv_def)
  then have "sid r \<in> fst ` set (byID m)" by (metis map_of_eq_None_iff option.distinct(1))
  then have len: "length (byID ?m) = length (byID m) - 1" and pos: "0 < length (byID m)"
    using C(2) id inv by (auto simp: sess_inv_def length_delete_key)
  have open_len: "int (length (filter (\<lambda>ob. \<not> so_closed ob) (objs ?m))) =
      int (length (filter (\<lambda>ob. \<not> so_closed ob) (objs m))) - 1"
    using r unfolding C(1) by (subst length_filter_update) auto
  have lens: "length (byID ?m) = length (filter (\<lambda>ob. \<not> so_closed ob) (objs ?m))"
    using open_len len pos inv by (simp add: sess_inv_def)
  show ?thesis unfolding s
  proof (rule sess_invI)
    show "distinct (map fst (byID ?m))" using sess_invD(1) [OF inv] C(2) by simp
    show "distinct (map fst (perEnv ?m))" using sess_invD(2) [OF inv] C(3) by simp
    show "unat (seq ?m) = length (objs ?m)" using sess_invD(3) [OF inv] C(1,4) by simp
    show "i_ID (so_info (objs ?m ! x)) = sid x" if "x < length (objs ?m)" for x
      using that sess_invD(4) [OF inv] C(1) id by (cases "x = r") auto
    show "map_of (byID ?m) i = Some x \<longleftrightarrow> live ?m x \<and> i = sid x" for i x
      using sess_invD(5) [OF inv] C(2) id Close_live_set [OF live] by auto
    show "length (byID ?m) = length (filter (\<lambda>ob. \<not> so_closed ob) (objs ?m))"
      by (rule lens)
    show "getz (perEnv ?m) e 0 = int (env_live (objs ?m) e)" for e
      using Close_count [OF inv live, of e] env_live_close [OF r, of e] sess_invD(7) [OF inv] C(1)
      by (simp add: CountFor_def)
    show "0 < n" if "map_of (perEnv ?m) e = Some n" for e n
      using that sess_invD(8) [OF inv] C(3) by (auto split: if_splits)
    show "int (length (byID ?m)) \<le> maxTotal ?m" if "0 < maxTotal ?m"
      using that sess_invD(9) [OF inv] C(5) len by simp
    show "getz (perEnv ?m) e 0 \<le> maxPerEnv ?m" if "0 < maxPerEnv ?m" for e
      using that sess_invD(10) [OF inv, of e] Close_count [OF inv live, of e] C(6)
      by (simp add: CountFor_def split: if_splits)
  qed
qed

lemma Close_twice: "Close (Some r) (Close (Some r) m) = Close (Some r) m"
proof (cases "live m r")
  case True
  then have "\<not> live (Close (Some r) m) r" by (simp add: Close_live_set)
  then show ?thesis by (rule Close_dead)
next
  case False
  then show ?thesis by (simp add: Close_dead)
qed

section \<open>The contract the gateway relies on\<close>

locale session_registry =
  fixes opn :: "'i \<Rightarrow> int \<Rightarrow> 'm \<Rightarrow> (goerr + nat) \<times> 'm"
    and cls :: "nat option \<Rightarrow> 'm \<Rightarrow> 'm"
    and cnt :: "'m \<Rightarrow> string \<Rightarrow> int"
    and is_live :: "'m \<Rightarrow> nat \<Rightarrow> bool"
    and ienv :: "'i \<Rightarrow> string"
    and env_of :: "'m \<Rightarrow> nat \<Rightarrow> string"
    and inv :: "'m \<Rightarrow> bool"
    and has_room :: "'m \<Rightarrow> bool"
  assumes open_inv: "inv m \<Longrightarrow> has_room m \<Longrightarrow> opn i now m = (Inr r, m') \<Longrightarrow> inv m'"
    and open_count: "inv m \<Longrightarrow> opn i now m = (Inr r, m') \<Longrightarrow>
      cnt m' e = cnt m e + (if e = ienv i then 1 else 0)"
    and open_live: "opn i now m = (Inr r, m') \<Longrightarrow> is_live m' x \<longleftrightarrow> x = r \<or> is_live m x"
    and open_new: "opn i now m = (Inr r, m') \<Longrightarrow> \<not> is_live m r"
    and open_env: "opn i now m = (Inr r, m') \<Longrightarrow> env_of m' r = ienv i"
    and open_err: "opn i now m = (Inl err, m') \<Longrightarrow> m' = m"
    and close_inv: "inv m \<Longrightarrow> inv (cls s m)"
    and close_count: "inv m \<Longrightarrow> is_live m r \<Longrightarrow>
      cnt (cls (Some r) m) e = cnt m e - (if e = env_of m r then 1 else 0)"
    and close_live: "is_live m r \<Longrightarrow> is_live (cls (Some r) m) x \<longleftrightarrow> x \<noteq> r \<and> is_live m x"
    and close_dead: "\<not> is_live m r \<Longrightarrow> cls (Some r) m = m"
    and close_env: "env_of (cls s m) x = env_of m x"
begin

lemma open_close_count:
  assumes "inv m" and "has_room m" and "opn i now m = (Inr r, m')"
  shows "cnt (cls (Some r) m') e = cnt m e"
proof -
  have "is_live m' r" using open_live [OF assms(3)] by simp
  then show ?thesis
    using open_inv [OF assms] open_count [OF assms(1,3)] open_env [OF assms(3)]
    by (simp add: close_count)
qed

lemma close_again: "cls (Some r) (cls (Some r) m) = cls (Some r) m"
  by (cases "is_live m r") (simp_all add: close_dead close_live)

lemma close_all_count:
  assumes "inv m" and "distinct rs" and "\<forall>r\<in>set rs. is_live m r"
  shows "cnt (fold (\<lambda>r. cls (Some r)) rs m) e =
    cnt m e - int (length (filter (\<lambda>r. env_of m r = e) rs))"
  using assms
proof (induction rs arbitrary: m)
  case Nil
  then show ?case by simp
next
  case (Cons r rs)
  let ?m = "cls (Some r) m"
  have live: "is_live m r" using Cons.prems by simp
  have "\<forall>x\<in>set rs. is_live ?m x" using Cons.prems close_live [OF live] by auto
  then have "cnt (fold (\<lambda>r. cls (Some r)) rs ?m) e =
      cnt ?m e - int (length (filter (\<lambda>r. env_of ?m r = e) rs))"
    using Cons.IH Cons.prems close_inv by simp
  then show ?case
    using close_count [OF Cons.prems(1) live, of e] by (simp add: close_env)
qed

end

lemma Close_env: "i_Environment (so_info (objs (Close s m) ! x)) = i_Environment (so_info (objs m ! x))"
proof (cases "\<exists>r. s = Some r \<and> live m r")
  case True
  then obtain r where "s = Some r" "live m r" by blast
  then show ?thesis using Close_live(1) [of m r]
    by (cases "x = r") (auto simp: live_def nth_list_update)
next
  case False
  then have "Close s m = m" by (cases s) (auto simp: Close_dead)
  then show ?thesis by simp
qed

interpretation sess: session_registry Open Close CountFor live i_Environment
  "\<lambda>m r. obj_env (objs m ! r)" sess_inv room
proof (unfold_locales, goal_cases)
  case (1 m i now r m')
  then show ?case by (rule Open_inv)
next
  case (2 m i now r m' e)
  then show ?case using Open_InrD(4) [OF 2(2)] by (simp add: CountFor_def)
next
  case (3 i now m r m' x)
  then show ?case by (rule Open_live)
next
  case (4 i now m r m')
  then show ?case using Open_InrD(1) by (simp add: live_def)
next
  case (5 i now m r m')
  then show ?case using Open_InrD(1,2) [OF 5] by (simp add: obj_env_def)
next
  case (6 i now m err m')
  then show ?case by (rule Open_InlD)
next
  case (7 m s)
  then show ?case by (rule Close_inv)
next
  case (8 m r e)
  then show ?case by (rule Close_count)
next
  case (9 m r x)
  then show ?case by (rule Close_live_set)
next
  case (10 m r)
  then show ?case by (rule Close_dead)
next
  case (11 s m x)
  then show ?case by (simp add: obj_env_def Close_env)
qed

section \<open>Runs of the registry\<close>

datatype sess_op =
    OpOpen info int | OpClose "nat option" | OpSetPhase nat string | OpSetKind nat string bool

fun sess_step :: "sess_op \<Rightarrow> session_mgr \<Rightarrow> session_mgr" where
  "sess_step (OpOpen i now) m = snd (Open i now m)"
| "sess_step (OpClose s) m = Close s m"
| "sess_step (OpSetPhase r p) m = session_SetPhase r p m"
| "sess_step (OpSetKind r k pty) m = session_SetKind r k pty m"

definition sess_run :: "sess_op list \<Rightarrow> session_mgr \<Rightarrow> session_mgr" where
  "sess_run ops m = fold sess_step ops m"

text \<open>Changing a session's description keeps the invariant.\<close>

lemma update_info_inv:
  assumes inv: "sess_inv m"
    and keep: "i_ID i' = i_ID (so_info (objs m ! r))"
      "i_Environment i' = i_Environment (so_info (objs m ! r))"
  shows "sess_inv (m\<lparr>objs := (objs m)[r := (objs m ! r)\<lparr>so_info := i'\<rparr>]\<rparr>)"
proof (cases "r < length (objs m)")
  case False
  then have "(objs m)[r := ob] = objs m" for ob by (simp add: list_update_beyond)
  then show ?thesis using inv by simp
next
  case True
  let ?m = "m\<lparr>objs := (objs m)[r := (objs m ! r)\<lparr>so_info := i'\<rparr>]\<rparr>"
  have lv: "live ?m x \<longleftrightarrow> live m x" for x
    by (cases "x = r") (auto simp: live_def)
  have el: "int (env_live (objs ?m) e) = int (env_live (objs m) e)" for e
    unfolding env_live_def using True keep by (simp add: length_filter_update obj_env_def)
  have ol: "int (length (filter (\<lambda>ob. \<not> so_closed ob) (objs ?m))) =
      int (length (filter (\<lambda>ob. \<not> so_closed ob) (objs m)))"
    using True by (simp add: length_filter_update)
  show ?thesis
  proof (rule sess_invI)
    show "i_ID (so_info (objs ?m ! x)) = sid x" if "x < length (objs ?m)" for x
      using that sess_invD(4) [OF inv, of x] keep by (cases "x = r") auto
    show "map_of (byID ?m) i = Some x \<longleftrightarrow> live ?m x \<and> i = sid x" for i x
      using sess_invD(5) [OF inv] lv by simp
  qed (use sess_invD [OF inv] el ol in auto)
qed

lemma sess_step_inv:
  assumes "sess_inv m" and "room m"
  shows "sess_inv (sess_step op m)"
proof (cases op)
  case (OpOpen i now)
  then show ?thesis
    using assms Open_inv [of m i now] Open_InlD [of i now m]
    by (cases "Open i now m"; cases "fst (Open i now m)") force+
qed (use assms in \<open>auto simp: Close_inv session_SetPhase_def session_SetKind_def
       intro!: update_info_inv\<close>)

lemma sess_step_objs: "length (objs (sess_step op m)) \<le> Suc (length (objs m))"
proof (cases op)
  case (OpOpen i now)
  then show ?thesis by (auto simp: Open_def Let_def)
qed (auto simp: Close_def session_SetPhase_def session_SetKind_def Let_def split: option.splits)

lemma sess_run_inv:
  assumes "sess_inv m" and "length (objs m) + length ops < 2 ^ 64"
  shows "sess_inv (sess_run ops m)"
  using assms
proof (induction ops arbitrary: m)
  case Nil
  then show ?case by (simp add: sess_run_def)
next
  case (Cons op ops)
  have "sess_inv (sess_step op m)"
    using Cons.prems by (intro sess_step_inv) (simp_all add: room_def)
  moreover have "length (objs (sess_step op m)) + length ops < 2 ^ 64"
    using Cons.prems(2) sess_step_objs [of op m] by simp
  ultimately have "sess_inv (sess_run ops (sess_step op m))" by (rule Cons.IH)
  then show ?case by (simp add: sess_run_def)
qed

end
