(* ===== verification/Redaction.thy ===== *)
theory Redaction
  imports Providers
begin

text \<open>
  Secrets: the type \<open>secret.Value\<close> that refuses to render itself (\<open>core/secret\<close>), the
  redactor (\<open>core/logging/redact.go\<close>) and the log handler that passes every record through
  it (\<open>core/logging/logging.go\<close>). The locale \<open>redaction\<close> is what the gateway relies on
  when it prints an error; \<open>red\<close> interprets it by the model of \<open>Redactor\<close>.
\<close>

section \<open>Secret values (core/secret/secret.go)\<close>

definition Redacted :: string where
  "Redacted = ''***redacted***''"

datatype secret_value = Value string

definition secret_New :: "string \<Rightarrow> secret_value" where
  "secret_New s = Value (TrimSpace s)"

fun Reveal :: "secret_value \<Rightarrow> string" where
  "Reveal (Value v) = v"

definition Empty :: "secret_value \<Rightarrow> bool" where
  "Empty s \<longleftrightarrow> Reveal s = []"

definition secret_Len :: "secret_value \<Rightarrow> nat" where
  "secret_Len s = length (Reveal s)"

definition secret_String :: "secret_value \<Rightarrow> string" where
  "secret_String s = (if Reveal s = [] then [] else Redacted)"

definition GoString :: "secret_value \<Rightarrow> string" where
  "GoString s = secret_String s"

definition secret_Equal :: "secret_value \<Rightarrow> string \<Rightarrow> bool" where
  "secret_Equal s other \<longleftrightarrow> Reveal s = other"

text \<open>What is handed to the JSON and YAML encoders, and what is kept of a decoded string.\<close>

definition MarshalJSON :: "secret_value \<Rightarrow> string" where
  "MarshalJSON s = secret_String s"

definition MarshalYAML :: "secret_value \<Rightarrow> string" where
  "MarshalYAML s = secret_String s"

definition UnmarshalJSON :: "string \<Rightarrow> secret_value" where
  "UnmarshalJSON raw = secret_New raw"

definition UnmarshalYAML :: "string \<Rightarrow> secret_value" where
  "UnmarshalYAML raw = secret_New (if raw = Redacted then [] else raw)"

lemma secret_String_cases: "secret_String s \<in> {[], Redacted}"
  by (simp add: secret_String_def)

lemma secret_New_Reveal [simp]: "Reveal (secret_New s) = TrimSpace s"
  by (simp add: secret_New_def)

section \<open>The redactor (core/logging/redact.go)\<close>

definition minRedactLen :: nat where
  "minRedactLen = 8"

record redactor =
  secrets :: "string list"

definition NewRedactor :: redactor where
  "NewRedactor = \<lparr>secrets = []\<rparr>"

definition redactor_has :: "redactor \<Rightarrow> string \<Rightarrow> bool" where
  "redactor_has r s \<longleftrightarrow> s \<in> set (secrets r)"

definition add_secret :: "redactor \<Rightarrow> string \<Rightarrow> redactor" where
  "add_secret r s =
    (if length s < minRedactLen then r
     else if redactor_has r s then r
     else r\<lparr>secrets := secrets r @ [s]\<rparr>)"

text \<open>A nil redactor is \<open>None\<close>: adding does nothing, redacting is the identity.\<close>

definition Add :: "redactor option \<Rightarrow> string list \<Rightarrow> redactor option" where
  "Add r ss = (case r of None \<Rightarrow> None | Some r' \<Rightarrow> Some (foldl add_secret r' ss))"

definition redact_one :: "string \<Rightarrow> string \<Rightarrow> string" where
  "redact_one s secret = (if Contains s secret then ReplaceAll s secret ''***'' else s)"

definition Redact :: "redactor option \<Rightarrow> string \<Rightarrow> string" where
  "Redact r s =
    (case r of None \<Rightarrow> s | Some r' \<Rightarrow> if s = [] then s else foldl redact_one s (secrets r'))"

definition RedactBytes :: "redactor option \<Rightarrow> string \<Rightarrow> string" where
  "RedactBytes r b = (if r = None \<or> b = [] then b else Redact r b)"

text \<open>Invariant: no duplicates, nothing short.\<close>

definition redactor_ok :: "redactor \<Rightarrow> bool" where
  "redactor_ok r \<longleftrightarrow> distinct (secrets r) \<and> (\<forall>s\<in>set (secrets r). minRedactLen \<le> length s)"

lemma redactor_ok_New [simp]: "redactor_ok NewRedactor"
  by (simp add: redactor_ok_def NewRedactor_def)

lemma redactor_ok_add_secret: "redactor_ok r \<Longrightarrow> redactor_ok (add_secret r s)"
  by (auto simp: redactor_ok_def add_secret_def redactor_has_def)

lemma redactor_ok_foldl: "redactor_ok r \<Longrightarrow> redactor_ok (foldl add_secret r ss)"
  by (induction ss arbitrary: r) (auto simp: redactor_ok_add_secret)

lemma set_secrets_add: "set (secrets (add_secret r s)) =
    (if length s < minRedactLen then set (secrets r) else insert s (set (secrets r)))"
  by (auto simp: add_secret_def redactor_has_def)

lemma set_secrets_foldl:
  "set (secrets (foldl add_secret r ss)) =
    set (secrets r) \<union> {s \<in> set ss. minRedactLen \<le> length s}"
  by (induction ss arbitrary: r) (auto simp: set_secrets_add)

text \<open>The secrets that can be hidden behind stars: those without a star of their own.\<close>

definition hideable :: "redactor \<Rightarrow> bool" where
  "hideable r \<longleftrightarrow> redactor_ok r \<and> (\<forall>s\<in>set (secrets r). CHR ''*'' \<notin> set s)"

lemma redact_one_no_new:
  assumes "secret \<noteq> []" and "CHR ''*'' \<notin> set t" and "t \<noteq> []"
    and "\<not> Contains s t"
  shows "\<not> Contains (redact_one s secret) t"
  using assms ReplaceAll_no_new [of secret t s] by (auto simp: redact_one_def)

lemma redact_one_gone:
  assumes "secret \<noteq> []" and "CHR ''*'' \<notin> set secret"
  shows "\<not> Contains (redact_one s secret) secret"
  using assms ReplaceAll_gone [of secret s] by (simp add: redact_one_def)

lemma foldl_redact_keeps:
  assumes "\<forall>k\<in>set ks. k \<noteq> []" and "CHR ''*'' \<notin> set t" and "t \<noteq> []" and "\<not> Contains s t"
  shows "\<not> Contains (foldl redact_one s ks) t"
  using assms by (induction ks arbitrary: s) (auto simp: redact_one_no_new)

lemma foldl_redact_hides:
  assumes "\<forall>k\<in>set ks. k \<noteq> [] \<and> CHR ''*'' \<notin> set k" and "t \<in> set ks"
  shows "\<not> Contains (foldl redact_one s ks) t"
  using assms
proof (induction ks arbitrary: s)
  case Nil
  then show ?case by simp
next
  case (Cons k ks)
  show ?case
  proof (cases "t \<in> set ks")
    case True
    with Cons show ?thesis by simp
  next
    case False
    with Cons.prems have t: "t = k" "k \<noteq> []" "CHR ''*'' \<notin> set k" by simp_all
    then have "\<not> Contains (redact_one s t) t" by (simp add: redact_one_gone)
    moreover have "\<forall>x\<in>set ks. x \<noteq> []" using Cons.prems by simp
    ultimately have "\<not> Contains (foldl redact_one (redact_one s t) ks) t"
      using t by (intro foldl_redact_keeps) simp_all
    with t show ?thesis by simp
  qed
qed

lemma hideable_nonempty: "hideable r \<Longrightarrow> k \<in> set (secrets r) \<Longrightarrow> k \<noteq> [] \<and> CHR ''*'' \<notin> set k"
  by (auto simp: hideable_def redactor_ok_def minRedactLen_def)

lemma Redact_hides:
  assumes "hideable r" and "t \<in> set (secrets r)"
  shows "\<not> Contains (Redact (Some r) s) t"
proof (cases "s = []")
  case True
  with hideable_nonempty [OF assms] show ?thesis by (simp add: Redact_def)
next
  case False
  then show ?thesis
    using assms hideable_nonempty by (auto simp: Redact_def foldl_redact_hides)
qed

lemma foldl_redact_clean:
  "\<forall>k\<in>set ks. \<not> Contains s k \<Longrightarrow> foldl redact_one s ks = s"
  by (induction ks) (auto simp: redact_one_def)

text \<open>A text with no secret in it is printed as it is.\<close>

lemma Redact_clean: "\<forall>k\<in>set (secrets r). \<not> Contains s k \<Longrightarrow> Redact (Some r) s = s"
  by (simp add: Redact_def foldl_redact_clean)

lemma Redact_idem:
  assumes "hideable r"
  shows "Redact (Some r) (Redact (Some r) s) = Redact (Some r) s"
  using Redact_hides [OF assms] by (intro Redact_clean) blast

section \<open>The interface the gateway relies on\<close>

locale redaction =
  fixes redact :: "'r \<Rightarrow> string \<Rightarrow> string"
    and known :: "'r \<Rightarrow> string set"
    and good :: "'r \<Rightarrow> bool"
  assumes hides: "good r \<Longrightarrow> s \<in> known r \<Longrightarrow> \<not> Contains (redact r t) s"
    and clean: "\<forall>s\<in>known r. \<not> Contains t s \<Longrightarrow> redact r t = t"
begin

text \<open>
  A redacted text after a fixed one: no secret straddles the two when the fixed text ends in
  a byte that no secret has.
\<close>

lemma hides_after:
  assumes "good r" and "s \<in> known r" and "c \<notin> set s" and "\<not> Contains (pre @ [c]) s"
  shows "\<not> Contains (pre @ [c] @ redact r t) s"
proof
  assume "Contains (pre @ [c] @ redact r t) s"
  then obtain a b where ab: "pre @ c # redact r t = a @ s @ b" by (auto simp: Contains_iff)
  show False
  proof (cases "length a \<le> length pre")
    case True
    with ab obtain u where u: "pre = a @ u" by (auto simp: append_eq_append_conv2)
    with ab have "u @ c # redact r t = s @ b" by simp
    then obtain v where "s = u @ v \<and> c # redact r t = v @ b \<or> u = s @ v"
      by (auto simp: append_eq_append_conv2)
    then show False
    proof
      assume "s = u @ v \<and> c # redact r t = v @ b"
      with assms(3) have "v = []" by (cases v) auto
      with u \<open>s = u @ v \<and> _\<close> have "pre @ [c] = a @ s @ [c]" by simp
      with assms(4) Contains_iff show False by blast
    next
      assume "u = s @ v"
      with u have "pre @ [c] = a @ s @ (v @ [c])" by simp
      with assms(4) Contains_iff show False by blast
    qed
  next
    case False
    with ab obtain u where "a = pre @ c # u"
      by (auto simp: append_eq_append_conv2 Cons_eq_append_conv)
    with ab have "redact r t = u @ s @ b" by simp
    with hides [OF assms(1,2)] Contains_iff show False by blast
  qed
qed

lemma idem: "good r \<Longrightarrow> redact r (redact r t) = redact r t"
  using hides by (intro clean) blast

lemma all_hidden: "good r \<Longrightarrow> s \<in> known r \<Longrightarrow> m \<in> redact r ` ms \<Longrightarrow> \<not> Contains m s"
  using hides by blast

end

interpretation red: redaction "\<lambda>r. Redact (Some r)" "\<lambda>r. set (secrets r)" hideable
  by unfold_locales (auto simp: Redact_hides Redact_clean)

section \<open>The log handler (core/logging/logging.go)\<close>

text \<open>
  The kinds of \<open>slog.Value\<close> the handler tells apart. \<open>KLogValuer v\<close> holds the resolved
  value; \<open>KAny\<close> values hold the text of \<open>Error()\<close>, \<open>String()\<close> or \<open>fmt.Sprint\<close>;
  \<open>KPlain\<close> is any other kind (numbers, booleans, times) with its rendering.
\<close>

datatype slog_value =
    KString string
  | KGroup "(string \<times> slog_value) list"
  | KLogValuer slog_value
  | KAnyError string | KAnyStringer string | KAnyOther string
  | KPlain string

fun handler_value :: "redactor option \<Rightarrow> slog_value \<Rightarrow> slog_value" where
  "handler_value red (KString s) = KString (Redact red s)"
| "handler_value red (KGroup as) = KGroup (map (\<lambda>(k, v). (k, handler_value red v)) as)"
| "handler_value red (KLogValuer v) = handler_value red v"
| "handler_value red (KAnyError s) = KString (Redact red s)"
| "handler_value red (KAnyStringer s) = KString (Redact red s)"
| "handler_value red (KAnyOther s) = KString (Redact red s)"
| "handler_value red (KPlain s) = KPlain s"

definition handler_attr :: "redactor option \<Rightarrow> string \<times> slog_value \<Rightarrow> string \<times> slog_value" where
  "handler_attr red a = (fst a, handler_value red (snd a))"

text \<open>
  A handler carries the attributes bound by \<open>WithAttrs\<close> and the open groups of
  \<open>WithGroup\<close>, in order; an emitted record is what the inner handler receives.
\<close>

datatype bound = BoundAttrs "(string \<times> slog_value) list" | BoundGroup string

record redact_handler =
  h_bound :: "bound list"
  h_red :: "redactor option"

record slog_record =
  r_Message :: string
  r_Attrs :: "(string \<times> slog_value) list"

definition Handle :: "redact_handler \<Rightarrow> slog_record \<Rightarrow> bound list \<times> slog_record" where
  "Handle h r = (h_bound h,
     \<lparr>r_Message = Redact (h_red h) (r_Message r),
      r_Attrs = map (handler_attr (h_red h)) (r_Attrs r)\<rparr>)"

definition WithAttrs :: "redact_handler \<Rightarrow> (string \<times> slog_value) list \<Rightarrow> redact_handler" where
  "WithAttrs h as = h\<lparr>h_bound := h_bound h @ [BoundAttrs (map (handler_attr (h_red h)) as)]\<rparr>"

definition WithGroup :: "redact_handler \<Rightarrow> string \<Rightarrow> redact_handler" where
  "WithGroup h name = h\<lparr>h_bound := h_bound h @ [BoundGroup name]\<rparr>"

text \<open>The strings of a value that the inner handler prints.\<close>

fun value_texts :: "slog_value \<Rightarrow> string set" where
  "value_texts (KString s) = {s}"
| "value_texts (KGroup as) = (\<Union>a\<in>set as. value_texts (snd a))"
| "value_texts (KLogValuer v) = value_texts v"
| "value_texts (KAnyError s) = {s}"
| "value_texts (KAnyStringer s) = {s}"
| "value_texts (KAnyOther s) = {s}"
| "value_texts (KPlain s) = {}"

fun bound_texts :: "bound \<Rightarrow> string set" where
  "bound_texts (BoundAttrs as) = (\<Union>a\<in>set as. value_texts (snd a))"
| "bound_texts (BoundGroup _) = {}"

definition emitted_texts :: "bound list \<times> slog_record \<Rightarrow> string set" where
  "emitted_texts e = (\<Union>b\<in>set (fst e). bound_texts b) \<union> {r_Message (snd e)} \<union>
     (\<Union>a\<in>set (r_Attrs (snd e)). value_texts (snd a))"

text \<open>Every text of a handled value is an output of \<open>Redact\<close>.\<close>

lemma handler_value_texts: "value_texts (handler_value red v) \<subseteq> range (Redact red)"
  by (induction red v rule: handler_value.induct) fastforce+

lemma handler_attr_texts: "value_texts (snd (handler_attr red a)) \<subseteq> range (Redact red)"
  by (simp add: handler_attr_def handler_value_texts)

lemma handler_attrs_texts:
  "(\<Union>a\<in>set (map (handler_attr red) as). value_texts (snd a)) \<subseteq> range (Redact red)"
  unfolding set_map UN_simps by (rule UN_least) (rule handler_attr_texts)

text \<open>The handlers a program can build: the initial one, closed under \<open>With...\<close>.\<close>

inductive built :: "redactor option \<Rightarrow> redact_handler \<Rightarrow> bool" for red where
  built_new: "built red \<lparr>h_bound = [], h_red = red\<rparr>"
| built_attrs: "built red h \<Longrightarrow> built red (WithAttrs h as)"
| built_group: "built red h \<Longrightarrow> built red (WithGroup h name)"

lemma built_bound_texts:
  "built red h \<Longrightarrow> h_red h = red \<and> (\<Union>b\<in>set (h_bound h). bound_texts b) \<subseteq> range (Redact red)"
proof (induction rule: built.induct)
  case (built_attrs h as)
  then show ?case using handler_attrs_texts [of red as] by (simp add: WithAttrs_def)
qed (auto simp: WithGroup_def)

lemma Handle_texts: "built red h \<Longrightarrow> emitted_texts (Handle h r) \<subseteq> range (Redact red)"
  using built_bound_texts [of red h] handler_attrs_texts [of red "r_Attrs r"]
  by (simp add: emitted_texts_def Handle_def)

datatype slog_level = LevelDebug | LevelInfo | LevelWarn | LevelError

definition ParseLevel :: "string \<Rightarrow> goerr + slog_level" where
  "ParseLevel s = (let l = ToLower (TrimSpace s) in
     if l = '''' \<or> l = ''info'' then Inr LevelInfo
     else if l = ''debug'' then Inr LevelDebug
     else if l = ''warn'' \<or> l = ''warning'' then Inr LevelWarn
     else if l = ''error'' then Inr LevelError
     else Inl (Errorf (''unknown log level '' @ quote s)))"

end
