(* ===== verification/SshAuth.thy ===== *)
theory SshAuth
  imports Redaction
begin

text \<open>
  Who may connect: the listen address that makes credentials optional (\<open>LoopbackListen\<close> in
  \<open>core/gateway/gateway.go\<close>, over \<open>net.SplitHostPort\<close> and \<open>net.ParseIP\<close>), the login name
  (\<open>ssh/backend.go\<close>), the authorizer (\<open>ssh/auth.go\<close>), the callbacks of the server
  (\<open>ssh/server.go\<close>) and the host key (\<open>ssh/hostkey.go\<close>). Key parsing, marshalling and
  fingerprints belong to \<open>golang.org/x/crypto/ssh\<close> and are the parameter \<open>keylib\<close>.
\<close>

section \<open>Host and port, IP addresses (Go standard library)\<close>

definition last_index :: "char \<Rightarrow> string \<Rightarrow> nat option" where
  "last_index c s = (case str_index (rev s) [c] of None \<Rightarrow> None | Some i \<Rightarrow> Some (length s - 1 - i))"

text \<open>\<open>net.SplitHostPort\<close>: \<open>None\<close> is an error.\<close>

definition SplitHostPort :: "string \<Rightarrow> (string \<times> string) option" where
  "SplitHostPort hp =
    (case last_index (CHR '':'') hp of
       None \<Rightarrow> None
     | Some i \<Rightarrow>
         if hd hp = CHR ''['' then
           (case str_index hp '']'' of
              None \<Rightarrow> None
            | Some e \<Rightarrow>
                if e + 1 \<noteq> i then None
                else if Contains (drop 1 hp) ''['' \<or> Contains (drop (e + 1) hp) '']'' then None
                else Some (take (e - 1) (drop 1 hp), drop (i + 1) hp))
         else
           (let host = take i hp
            in if Contains host '':'' then None
               else if Contains hp ''['' \<or> Contains hp '']'' then None
               else Some (host, drop (i + 1) hp)))"

text \<open>IPv4 in dotted decimal: four fields of one to three digits, no leading zero, at most 255.\<close>

definition parse_octet :: "string \<Rightarrow> nat option" where
  "parse_octet s =
    (if s = [] \<or> length s > 3 \<or> (length s > 1 \<and> hd s = CHR ''0'') then None
     else (case read_digits 0 s of None \<Rightarrow> None | Some n \<Rightarrow> if n > 255 then None else Some n))"

fun all_some :: "'a option list \<Rightarrow> 'a list option" where
  "all_some [] = Some []"
| "all_some (None # xs) = None"
| "all_some (Some x # xs) = map_option (\<lambda>ys. x # ys) (all_some xs)"

definition ParseIPv4 :: "string \<Rightarrow> nat list option" where
  "ParseIPv4 s =
    (let fs = split_on (CHR ''.'') s
     in if length fs \<noteq> 4 then None else all_some (map parse_octet fs))"

definition hex_value :: "char \<Rightarrow> nat option" where
  "hex_value c = (let n = (of_char c :: nat) in
     if 48 \<le> n \<and> n \<le> 57 then Some (n - 48)
     else if 97 \<le> n \<and> n \<le> 102 then Some (n - 87)
     else if 65 \<le> n \<and> n \<le> 70 then Some (n - 55) else None)"

text \<open>The digits at the front: how many there are, their value, and the rest.\<close>

fun hex_group :: "nat \<Rightarrow> nat \<Rightarrow> string \<Rightarrow> nat \<times> nat \<times> string" where
  "hex_group n acc [] = (n, acc, [])"
| "hex_group n acc (c # cs) =
     (case hex_value c of None \<Rightarrow> (n, acc, c # cs) | Some d \<Rightarrow> hex_group (n + 1) (acc * 16 + d) cs)"

text \<open>
  The loop of \<open>netip.parseIPv6\<close>, at most eight rounds: the bytes so far and where the
  \<open>::\<close> stood. The result is the bytes, that position and the unread rest.
\<close>

fun parse6_from :: "nat \<Rightarrow> nat list \<Rightarrow> nat option \<Rightarrow> string \<Rightarrow> (nat list \<times> nat option \<times> string) option" where
  "parse6_from 0 ip ell s = Some (ip, ell, s)"
| "parse6_from (Suc k) ip ell s =
     (if length ip \<ge> 16 then Some (ip, ell, s)
      else
        (let (n, v, rest) = hex_group 0 0 s
         in if n = 0 \<or> n > 4 then None
            else if rest \<noteq> [] \<and> hd rest = CHR ''.'' then
              (if (ell = None \<and> length ip \<noteq> 12) \<or> length ip + 4 > 16 then None
               else (case ParseIPv4 s of None \<Rightarrow> None | Some v4 \<Rightarrow> Some (ip @ v4, ell, [])))
            else
              (let ip' = ip @ [v div 256, v mod 256]
               in if rest = [] then Some (ip', ell, [])
                  else if hd rest \<noteq> CHR '':'' \<or> length rest = 1 then None
                  else
                    (let s' = tl rest
                     in if hd s' = CHR '':'' then
                          (if ell \<noteq> None then None
                           else if tl s' = [] then Some (ip', Some (length ip'), [])
                           else parse6_from k ip' (Some (length ip')) (tl s'))
                        else parse6_from k ip' ell s'))))"

definition ParseIPv6 :: "string \<Rightarrow> nat list option" where
  "ParseIPv6 s =
    (let start = (if HasPrefix s ''::'' then
                    (if drop 2 s = [] then Some ([], Some 0, [])
                     else parse6_from 9 [] (Some 0) (drop 2 s))
                  else parse6_from 9 [] None s)
     in (case start of
           None \<Rightarrow> None
         | Some (ip, ell, rest) \<Rightarrow>
             if rest \<noteq> [] then None
             else (case ell of
                     None \<Rightarrow> if length ip < 16 then None else Some ip
                   | Some e \<Rightarrow> if length ip < 16
                       then Some (take e ip @ replicate (16 - length ip) 0 @ drop e ip)
                       else None)))"

text \<open>
  \<open>net.ParseIP\<close>: sixteen bytes, IPv4 in its mapped form. The first of the two separators
  decides, and a zone is refused.
\<close>

definition ParseIP :: "string \<Rightarrow> nat list option" where
  "ParseIP s =
    (if CHR ''%'' \<in> set s then None
     else (case dropWhile (\<lambda>c. c \<noteq> CHR ''.'' \<and> c \<noteq> CHR '':'') s of
             [] \<Rightarrow> None
           | c # _ \<Rightarrow>
               if c = CHR ''.'' then
                 map_option (\<lambda>v4. replicate 10 0 @ [255, 255] @ v4) (ParseIPv4 s)
               else ParseIPv6 s))"

definition IsLoopback :: "nat list \<Rightarrow> bool" where
  "IsLoopback ip \<longleftrightarrow>
     (if length ip = 16 \<and> take 12 ip = replicate 10 0 @ [255, 255] then ip ! 12 = 127
      else ip = replicate 15 0 @ [1])"

section \<open>LoopbackListen (core/gateway/gateway.go)\<close>

definition trim_brackets :: "string \<Rightarrow> string" where
  "trim_brackets s =
    (let b = (\<lambda>c. c = CHR ''['' \<or> c = CHR '']'')
     in rev (dropWhile b (rev (dropWhile b s))))"

definition LoopbackListen :: "string \<Rightarrow> bool" where
  "LoopbackListen addr =
    (case SplitHostPort addr of
       None \<Rightarrow> False
     | Some (host, _) \<Rightarrow>
         if ToLower host = ''localhost'' then True
         else if ToLower host = [] then False
         else (case ParseIP (trim_brackets host) of None \<Rightarrow> False | Some ip \<Rightarrow> IsLoopback ip))"

section \<open>The login name (ssh/backend.go)\<close>

record login =
  login_User :: string
  login_Hint :: string

definition EnvVarEnvironment :: string where
  "EnvVarEnvironment = ''GATEWAY_ENV''"

definition ParseLogin :: "string \<Rightarrow> login" where
  "ParseLogin raw =
    (case str_index raw ''+'' of
       Some i \<Rightarrow> \<lparr>login_User = take i raw, login_Hint = drop (i + 1) raw\<rparr>
     | None \<Rightarrow> \<lparr>login_User = raw, login_Hint = []\<rparr>)"

section \<open>The authorizer (ssh/auth.go)\<close>

text \<open>\<open>gossh.ParseAuthorizedKey\<close> gives a key, its comment and its options.\<close>

record 'k keylib =
  kl_parse :: "string \<Rightarrow> goerr + ('k \<times> string \<times> string list)"
  kl_marshal :: "'k \<Rightarrow> string"
  kl_fingerprint :: "'k \<Rightarrow> string"

record auth_config =
  ac_AuthorizedKeysFile :: string
  ac_AuthorizedKeysInline :: "string list"
  ac_PasswordAuth :: bool
  ac_Password :: secret_value
  ac_AllowedUsers :: "string list"
  ac_AllowAnonymous :: bool

record 'k authorized_key =
  ak_key :: 'k
  ak_comment :: string
  ak_source :: string

record 'k authorizer =
  au_keys :: "'k authorized_key list"
  au_passwordAuth :: bool
  au_password :: secret_value
  au_generated :: bool
  au_anonymous :: bool
  au_allowed :: "string list option"

text \<open>What reading a file gives: its content, that it is absent, or another error.\<close>

datatype file_read = FileContent string | FileMissing | FileError goerr

definition parseAuthorizedKey :: "'k keylib \<Rightarrow> string \<Rightarrow> goerr + 'k authorized_key" where
  "parseAuthorizedKey K line =
    (case kl_parse K line of
       Inl e \<Rightarrow> Inl (Wrapf ''not a valid public key: '' e [])
     | Inr (key, comment, options) \<Rightarrow>
         if options \<noteq> [] then
           Inl (Errorf (''authorized_keys options are not supported: ['' @ Join options '' '' @ '']''))
         else Inr \<lparr>ak_key = key, ak_comment = comment, ak_source = []\<rparr>)"

fun inline_keys :: "'k keylib \<Rightarrow> nat \<Rightarrow> string list \<Rightarrow> goerr + 'k authorized_key list" where
  "inline_keys K i [] = Inr []"
| "inline_keys K i (line # ls) =
     (case parseAuthorizedKey K line of
        Inl e \<Rightarrow> Inl (Wrapf (''ssh.authorized_keys_inline['' @ show_nat i @ '']: '') e [])
      | Inr k \<Rightarrow> (case inline_keys K (i + 1) ls of
                    Inl e \<Rightarrow> Inl e
                  | Inr ks \<Rightarrow> Inr (k\<lparr>ak_source := ''config''\<rparr> # ks)))"

fun file_keys :: "'k keylib \<Rightarrow> string \<Rightarrow> nat \<Rightarrow> string list \<Rightarrow> goerr + 'k authorized_key list" where
  "file_keys K path n [] = Inr []"
| "file_keys K path n (line # ls) =
     (let t = TrimSpace line
      in if t = [] \<or> HasPrefix t ''#'' then file_keys K path (n + 1) ls
         else (case parseAuthorizedKey K t of
                 Inl e \<Rightarrow> Inl (Wrapf (path @ '':'' @ show_nat (n + 1) @ '': '') e [])
               | Inr k \<Rightarrow> (case file_keys K path (n + 1) ls of
                             Inl e \<Rightarrow> Inl e
                           | Inr ks \<Rightarrow> Inr (k\<lparr>ak_source := path\<rparr> # ks))))"

text \<open>
  \<open>base32.StdEncoding\<close> without padding, of bytes given as characters: groups of five bits,
  the last one filled up with zeros.
\<close>

definition byte_bits :: "char \<Rightarrow> bool list" where
  "byte_bits c = (let n = (of_char c :: nat) in map (\<lambda>i. odd (n div 2 ^ (7 - i))) [0..<8])"

definition b32_char :: "bool list \<Rightarrow> char" where
  "b32_char bs = (let n = foldl (\<lambda>a b. 2 * a + (if b then 1 else 0)) 0 (take 5 (bs @ replicate 5 False))
     in if n < 26 then char_of (65 + n) else char_of (24 + n :: nat))"

function b32_groups :: "bool list \<Rightarrow> string" where
  "b32_groups [] = []"
| "bs \<noteq> [] \<Longrightarrow> b32_groups bs = b32_char bs # b32_groups (drop 5 bs)"
  by auto
termination by (relation "measure length") auto

definition randomPassword :: "(goerr + string) \<Rightarrow> goerr + string" where
  "randomPassword rnd =
    (case rnd of Inl e \<Rightarrow> Inl e | Inr buf \<Rightarrow> Inr (ToLower (b32_groups (concat (map byte_bits buf)))))"

definition read_file_keys :: "'k keylib \<Rightarrow> auth_config \<Rightarrow> file_read \<Rightarrow> goerr + 'k authorized_key list" where
  "read_file_keys K cfg file =
    (if ac_AuthorizedKeysFile cfg = [] then Inr []
     else (case file of
             FileContent raw \<Rightarrow>
               file_keys K (ac_AuthorizedKeysFile cfg) 0 (split_on (CHR 0x0A) raw)
           | FileMissing \<Rightarrow> Inr []
           | FileError e \<Rightarrow> Inl (Wrapf (''read '' @ ac_AuthorizedKeysFile cfg @ '': '') e [])))"

text \<open>\<open>rnd\<close> is the outcome of reading twenty random bytes.\<close>

definition NewAuthorizer ::
  "'k keylib \<Rightarrow> auth_config \<Rightarrow> file_read \<Rightarrow> (goerr + string) \<Rightarrow> goerr + 'k authorizer" where
  "NewAuthorizer K cfg file rnd =
    (case inline_keys K 0 (ac_AuthorizedKeysInline cfg) of
       Inl e \<Rightarrow> Inl e
     | Inr ks1 \<Rightarrow>
         (case read_file_keys K cfg file of
            Inl e \<Rightarrow> Inl e
          | Inr ks2 \<Rightarrow>
              (let ks = ks1 @ ks2; gen = ac_PasswordAuth cfg \<and> Empty (ac_Password cfg)
               in (case (if gen then map_sum (\<lambda>e. e) secret_New (randomPassword rnd)
                         else Inr (ac_Password cfg)) of
                     Inl e \<Rightarrow> Inl e
                   | Inr pw \<Rightarrow>
                       if ks = [] \<and> \<not> ac_PasswordAuth cfg \<and> \<not> ac_AllowAnonymous cfg
                       then Inl (Sentinel ErrNoAuthMethods)
                       else Inr
                         \<lparr>au_keys = ks, au_passwordAuth = ac_PasswordAuth cfg, au_password = pw,
                          au_generated = gen,
                          au_anonymous = (ks = [] \<and> \<not> ac_PasswordAuth cfg),
                          au_allowed = (if ac_AllowedUsers cfg = [] then None
                            else Some (filter (\<lambda>u. u \<noteq> []) (map TrimSpace (ac_AllowedUsers cfg))))\<rparr>))))"

definition GeneratedPassword :: "'k authorizer \<Rightarrow> string option" where
  "GeneratedPassword a = (if au_generated a then Some (Reveal (au_password a)) else None)"

definition KeyCount :: "'k authorizer \<Rightarrow> nat" where
  "KeyCount a = length (au_keys a)"

definition auth_Mode :: "'k authorizer \<Rightarrow> string" where
  "auth_Mode a =
    (if au_anonymous a then utf8 [0x514D, 0x8BA4, 0x8BC1, 0xFF08, 0x4EC5, 0x672C, 0x673A, 0x76D1, 0x542C, 0xFF09]
     else if au_keys a \<noteq> [] \<and> au_passwordAuth a then
       show_nat (length (au_keys a)) @ ('' '' @ utf8 [0x4E2A, 0x516C, 0x94A5] @ '' + '' @ utf8 [0x5BC6, 0x7801])
     else if au_keys a \<noteq> [] then show_nat (length (au_keys a)) @ ('' '' @ utf8 [0x4E2A, 0x516C, 0x94A5])
     else utf8 [0x5BC6, 0x7801])"

definition CheckUser :: "'k authorizer \<Rightarrow> string \<Rightarrow> goerr option" where
  "CheckUser a user =
    (if user = [] then Some (Errorf ''empty username'')
     else (case au_allowed a of
             None \<Rightarrow> None
           | Some us \<Rightarrow> if user \<notin> set us
               then Some (Errorf (''user '' @ quote user @ '' is not in ssh.allowed_users''))
               else None))"

text \<open>The permissions are the extensions; \<open>ConstantTimeCompare\<close> is equality of the bytes.\<close>

type_synonym permissions = "(string, string) gomap"

definition AuthenticateKey :: "'k keylib \<Rightarrow> 'k authorizer \<Rightarrow> string \<Rightarrow> 'k \<Rightarrow> goerr + permissions" where
  "AuthenticateKey K a user key =
    (case CheckUser a user of
       Some e \<Rightarrow> Inl e
     | None \<Rightarrow>
         (case find (\<lambda>ak. kl_marshal K (ak_key ak) = kl_marshal K key) (au_keys a) of
            Some ak \<Rightarrow> Inr [(''gateway-auth'', ''publickey''), (''gateway-key'', kl_fingerprint K key),
              (''gateway-key-comment'', ak_comment ak)]
          | None \<Rightarrow> Inl (Errorf (''public key '' @ kl_fingerprint K key @ '' is not authorized''))))"

definition AuthenticatePassword :: "'k authorizer \<Rightarrow> string \<Rightarrow> string \<Rightarrow> goerr + permissions" where
  "AuthenticatePassword a user given =
    (if \<not> au_passwordAuth a then Inl (Errorf ''password authentication is disabled'')
     else (case CheckUser a user of
             Some e \<Rightarrow> Inl e
           | None \<Rightarrow>
               if Reveal (au_password a) \<noteq> given then Inl (Errorf ''password rejected'')
               else Inr [(''gateway-auth'', ''password'')]))"

section \<open>The callbacks of the server (ssh/server.go)\<close>

text \<open>
  What a client offers in the handshake. The library calls the callback of the method;
  without client authentication it takes \<open>NoClientAuth\<close>, and a method without a callback is
  refused.
\<close>

datatype 'k offer = OfferNone | OfferKey 'k | OfferPassword string

definition handshake :: "'k keylib \<Rightarrow> 'k authorizer \<Rightarrow> string \<Rightarrow> 'k offer \<Rightarrow> goerr + permissions" where
  "handshake K a raw off =
    (let user = login_User (ParseLogin raw)
     in (case off of
           OfferNone \<Rightarrow>
             if au_anonymous a then
               (case CheckUser a user of Some e \<Rightarrow> Inl e | None \<Rightarrow> Inr [(''gateway-auth'', ''none'')])
             else Inl (Errorf ''ssh: no auth passed yet'')
         | OfferKey k \<Rightarrow> AuthenticateKey K a user k
         | OfferPassword pw \<Rightarrow>
             if au_passwordAuth a then AuthenticatePassword a user pw
             else Inl (Errorf ''ssh: password auth not configured'')))"

definition hasTrailingNewline :: "string \<Rightarrow> bool" where
  "hasTrailingNewline s \<longleftrightarrow> s \<noteq> [] \<and> (last s = CHR 0x0A \<or> last s = CHR 0x0D)"

definition banner_text :: "string \<Rightarrow> string option" where
  "banner_text b =
    (if b = [] then None
     else Some (if hasTrailingNewline b then b else b @ [CHR 0x0D, CHR 0x0A]))"

section \<open>Facts about the authorizer\<close>

lemma inline_keys_from:
  "inline_keys K i ls = Inr ks \<Longrightarrow> ak \<in> set ks \<Longrightarrow>
   \<exists>line \<in> set ls. kl_parse K line = Inr (ak_key ak, ak_comment ak, [])"
proof (induction K i ls arbitrary: ks rule: inline_keys.induct)
  case (2 K i line ls)
  then show ?case
    by (fastforce simp: parseAuthorizedKey_def split: sum.splits if_splits)
qed simp

lemma file_keys_from:
  "file_keys K path n ls = Inr ks \<Longrightarrow> ak \<in> set ks \<Longrightarrow>
   \<exists>line \<in> set ls. kl_parse K (TrimSpace line) = Inr (ak_key ak, ak_comment ak, []) \<and>
     TrimSpace line \<noteq> [] \<and> \<not> HasPrefix (TrimSpace line) ''#''"
proof (induction K path n ls arbitrary: ks rule: file_keys.induct)
  case (2 K path n line ls)
  then show ?case
    by (fastforce simp: parseAuthorizedKey_def Let_def split: sum.splits if_splits)
qed simp

text \<open>
  A key is configured when a line of the inline list, or a line of the file that is neither
  blank nor a comment, is that key without options.
\<close>

definition configured_key :: "'k keylib \<Rightarrow> auth_config \<Rightarrow> file_read \<Rightarrow> 'k \<Rightarrow> bool" where
  "configured_key K cfg file k \<longleftrightarrow>
     list_ex (\<lambda>line. \<exists>c. kl_parse K line = Inr (k, c, [])) (ac_AuthorizedKeysInline cfg) \<or>
     (case file of
        FileContent raw \<Rightarrow> ac_AuthorizedKeysFile cfg \<noteq> [] \<and>
          list_ex (\<lambda>line. \<exists>c. kl_parse K (TrimSpace line) = Inr (k, c, []) \<and>
            TrimSpace line \<noteq> [] \<and> \<not> HasPrefix (TrimSpace line) ''#'') (split_on (CHR 0x0A) raw)
      | _ \<Rightarrow> False)"

lemma NewAuthorizerE:
  assumes "NewAuthorizer K cfg file rnd = Inr a"
  obtains ks1 ks2 where
    "inline_keys K 0 (ac_AuthorizedKeysInline cfg) = Inr ks1" "read_file_keys K cfg file = Inr ks2"
    "au_keys a = ks1 @ ks2" "au_passwordAuth a = ac_PasswordAuth cfg"
    "au_anonymous a \<longleftrightarrow> ks1 @ ks2 = [] \<and> \<not> ac_PasswordAuth cfg"
    "au_anonymous a \<longrightarrow> ac_AllowAnonymous cfg"
    "au_allowed a = (if ac_AllowedUsers cfg = [] then None
       else Some (filter (\<lambda>u. u \<noteq> []) (map TrimSpace (ac_AllowedUsers cfg))))"
    "au_generated a \<longleftrightarrow> ac_PasswordAuth cfg \<and> Empty (ac_Password cfg)"
    "\<not> au_generated a \<longrightarrow> au_password a = ac_Password cfg"
    "au_generated a \<longrightarrow> (\<exists>p. randomPassword rnd = Inr p \<and> au_password a = secret_New p)"
proof -
  obtain ks1 where i: "inline_keys K 0 (ac_AuthorizedKeysInline cfg) = Inr ks1"
    using assms by (cases "inline_keys K 0 (ac_AuthorizedKeysInline cfg)") (simp_all add: NewAuthorizer_def)
  obtain ks2 where f: "read_file_keys K cfg file = Inr ks2"
    using assms i by (cases "read_file_keys K cfg file") (simp_all add: NewAuthorizer_def)
  let ?gen = "ac_PasswordAuth cfg \<and> Empty (ac_Password cfg)"
  obtain pw where p: "(if ?gen then map_sum (\<lambda>e. e) secret_New (randomPassword rnd)
      else Inr (ac_Password cfg)) = Inr pw"
    using assms i f
    by (cases "if ?gen then map_sum (\<lambda>e. e) secret_New (randomPassword rnd) else Inr (ac_Password cfg)")
      (simp_all add: NewAuthorizer_def Let_def)
  have a: "\<not> (ks1 @ ks2 = [] \<and> \<not> ac_PasswordAuth cfg \<and> \<not> ac_AllowAnonymous cfg)"
    "a = \<lparr>au_keys = ks1 @ ks2, au_passwordAuth = ac_PasswordAuth cfg, au_password = pw,
       au_generated = ?gen, au_anonymous = (ks1 @ ks2 = [] \<and> \<not> ac_PasswordAuth cfg),
       au_allowed = (if ac_AllowedUsers cfg = [] then None
         else Some (filter (\<lambda>u. u \<noteq> []) (map TrimSpace (ac_AllowedUsers cfg))))\<rparr>"
    using assms i f p by (auto simp: NewAuthorizer_def Let_def split: if_split_asm)
  have q: "?gen \<longrightarrow> (\<exists>p. randomPassword rnd = Inr p \<and> pw = secret_New p)"
    "\<not> ?gen \<longrightarrow> pw = ac_Password cfg"
    using p by (cases "randomPassword rnd"; auto split: if_splits)+
  have fl: "au_keys a = ks1 @ ks2" "au_passwordAuth a = ac_PasswordAuth cfg"
    "au_anonymous a \<longleftrightarrow> ks1 @ ks2 = [] \<and> \<not> ac_PasswordAuth cfg"
    "au_allowed a = (if ac_AllowedUsers cfg = [] then None
       else Some (filter (\<lambda>u. u \<noteq> []) (map TrimSpace (ac_AllowedUsers cfg))))"
    "au_generated a \<longleftrightarrow> ?gen" "au_password a = pw"
    by (subst a(2), simp)+
  have "au_anonymous a \<longrightarrow> ac_AllowAnonymous cfg" using a(1) fl(3) by blast
  then show thesis
    using that [OF i f fl(1-3) _ fl(4,5)] q unfolding fl(5,6) by blast
qed

lemma au_keys_configured:
  assumes "NewAuthorizer K cfg file rnd = Inr a" and "ak \<in> set (au_keys a)"
  shows "configured_key K cfg file (ak_key ak)"
proof -
  obtain ks1 ks2 where i: "inline_keys K 0 (ac_AuthorizedKeysInline cfg) = Inr ks1"
    and f: "read_file_keys K cfg file = Inr ks2" and k: "au_keys a = ks1 @ ks2"
    using NewAuthorizerE [OF assms(1)] by metis
  from k assms(2) consider "ak \<in> set ks1" | "ak \<in> set ks2" by auto
  then show ?thesis
  proof cases
    case 1
    with inline_keys_from [OF i] show ?thesis
      by (force simp: configured_key_def list_ex_iff)
  next
    case 2
    with f obtain raw where raw: "file = FileContent raw" "ac_AuthorizedKeysFile cfg \<noteq> []"
      "file_keys K (ac_AuthorizedKeysFile cfg) 0 (split_on (CHR 0x0A) raw) = Inr ks2"
      by (auto simp: read_file_keys_def split: if_splits file_read.splits)
    from file_keys_from [OF raw(3) 2] raw(1,2) show ?thesis
      by (auto simp: configured_key_def list_ex_iff)
  qed
qed

lemma CheckUser_ok:
  assumes "NewAuthorizer K cfg file rnd = Inr a"
  shows "CheckUser a u = None \<longleftrightarrow>
    u \<noteq> [] \<and> (ac_AllowedUsers cfg = [] \<or> u \<in> TrimSpace ` set (ac_AllowedUsers cfg))"
proof -
  have "au_allowed a = (if ac_AllowedUsers cfg = [] then None
       else Some (filter (\<lambda>u. u \<noteq> []) (map TrimSpace (ac_AllowedUsers cfg))))"
    using NewAuthorizerE [OF assms] by metis
  then show ?thesis by (auto simp: CheckUser_def)
qed

text \<open>The generated password.\<close>

lemma b32_char_plain: "plain (b32_char bs)"
proof -
  have "foldl (\<lambda>a b. 2 * a + (if b then 1 else 0)) 0 (take 5 (bs @ replicate 5 False)) < (32::nat)"
  proof -
    have len: "length (take 5 (bs @ replicate 5 False)) = 5" by simp
    have "foldl (\<lambda>a b. 2 * a + (if b then 1 else 0)) n xs < (n + 1) * 2 ^ length xs" for n :: nat and xs
      by (induction xs arbitrary: n) (force simp: algebra_simps intro: less_le_trans)+
    from this [of 0 "take 5 (bs @ replicate 5 False)"] len show ?thesis by simp
  qed
  then show ?thesis by (auto simp: b32_char_def plain_def Let_def)
qed

lemma b32_groups_plain: "c \<in> set (b32_groups bs) \<Longrightarrow> plain c"
  by (induction bs rule: b32_groups.induct) (auto simp: b32_char_plain)

lemma b32_groups_length: "length (b32_groups bs) = (length bs + 4) div 5"
proof (induction bs rule: b32_groups.induct)
  case (2 bs)
  have "(length bs - 5 + 4) div 5 + 1 = (length bs + 4) div 5"
  proof (cases "length bs < 5")
    case True
    moreover have "1 \<le> length bs" using 2 by (cases bs) simp_all
    ultimately have "(length bs + 4) div 5 = 1" by (intro div_nat_eqI) simp_all
    with True show ?thesis by simp
  next
    case False
    then obtain m where "length bs = m + 5" by (metis le_add_diff_inverse2 not_less)
    then show ?thesis by simp
  qed
  with 2 show ?case by simp
qed simp

lemma lower_plain: "plain c \<Longrightarrow> plain (lower_char c)"
  by (auto simp: plain_def lower_char_def Let_def)

lemma randomPassword_strong:
  assumes "randomPassword (Inr buf) = Inr p" and "length buf = 20"
  shows "length p = 32" and "TrimSpace p = p"
proof -
  let ?bits = "concat (map byte_bits buf)"
  have p: "p = map lower_char (b32_groups ?bits)"
    using assms(1) by (simp add: randomPassword_def ToLower_def)
  have "length ?bits = 8 * length buf"
    by (induction buf) (simp_all add: byte_bits_def)
  with p assms(2) show len: "length p = 32" by (simp add: b32_groups_length)
  have "plain c" if "c \<in> set p" for c
    using that p b32_groups_plain lower_plain by auto
  moreover have "p \<noteq> []" using len by auto
  ultimately show "TrimSpace p = p"
    by (intro TrimSpace_trimmed trimmed_plain) auto
qed

lemma au_password_set:
  assumes "NewAuthorizer K cfg file rnd = Inr a" and "ac_PasswordAuth cfg"
    and "\<And>buf. rnd = Inr buf \<Longrightarrow> length buf = 20"
  shows "Reveal (au_password a) \<noteq> []"
    and "Empty (ac_Password cfg) \<Longrightarrow> length (Reveal (au_password a)) = 32"
proof -
  have g: "au_generated a \<longleftrightarrow> Empty (ac_Password cfg)"
    and ng: "\<not> au_generated a \<longrightarrow> au_password a = ac_Password cfg"
    and yg: "au_generated a \<longrightarrow> (\<exists>p. randomPassword rnd = Inr p \<and> au_password a = secret_New p)"
    using NewAuthorizerE [OF assms(1)] assms(2) by metis+
  have strong: "length (Reveal (au_password a)) = 32" if "au_generated a"
  proof -
    from yg that obtain p where p: "randomPassword rnd = Inr p" "au_password a = secret_New p" by blast
    then obtain buf where "rnd = Inr buf" by (cases rnd) (auto simp: randomPassword_def)
    with p randomPassword_strong [of buf p] assms(3) show ?thesis by simp
  qed
  show "Reveal (au_password a) \<noteq> []"
    using strong ng g by (cases "au_generated a") (force simp: Empty_def)+
  show "length (Reveal (au_password a)) = 32" if "Empty (ac_Password cfg)"
    using strong g that by blast
qed

lemma AuthenticateKey_ok:
  "is_ok (AuthenticateKey K a u k) \<longleftrightarrow>
     CheckUser a u = None \<and> (\<exists>ak\<in>set (au_keys a). kl_marshal K (ak_key ak) = kl_marshal K k)"
  by (auto simp: AuthenticateKey_def find_None_iff find_Some_iff split: option.splits)

lemma AuthenticatePassword_ok:
  "is_ok (AuthenticatePassword a u pw) \<longleftrightarrow>
     au_passwordAuth a \<and> CheckUser a u = None \<and> Reveal (au_password a) = pw"
  by (auto simp: AuthenticatePassword_def split: option.splits)

lemma handshake_ok:
  assumes "NewAuthorizer K cfg file rnd = Inr a"
  defines "user raw \<equiv> login_User (ParseLogin raw)"
  shows "is_ok (handshake K a raw off) \<longleftrightarrow>
    (user raw \<noteq> [] \<and> (ac_AllowedUsers cfg = [] \<or> user raw \<in> TrimSpace ` set (ac_AllowedUsers cfg))) \<and>
    (case off of
       OfferNone \<Rightarrow> au_keys a = [] \<and> \<not> ac_PasswordAuth cfg
     | OfferKey k \<Rightarrow> \<exists>ak\<in>set (au_keys a). kl_marshal K (ak_key ak) = kl_marshal K k
     | OfferPassword pw \<Rightarrow> ac_PasswordAuth cfg \<and> pw = Reveal (au_password a))"
proof -
  have an: "au_anonymous a \<longleftrightarrow> au_keys a = [] \<and> \<not> ac_PasswordAuth cfg"
    and pa: "au_passwordAuth a = ac_PasswordAuth cfg"
    using NewAuthorizerE [OF assms(1)] by metis+
  note cu = CheckUser_ok [OF assms(1), of "user raw"]
  show ?thesis
    using an pa cu unfolding handshake_def Let_def user_def [symmetric]
    by (cases off) (auto simp: AuthenticateKey_ok AuthenticatePassword_ok split: option.splits)
qed

section \<open>Loopback addresses\<close>

lemma last_index_char: "c \<notin> set b \<Longrightarrow> last_index c (a @ c # b) = Some (length a)"
  by (simp add: last_index_def str_index_char)

lemma SplitHostPort_plain:
  assumes "CHR '':'' \<notin> set host" "CHR '':'' \<notin> set port"
    and "CHR ''['' \<notin> set host" "CHR ''['' \<notin> set port" "CHR '']'' \<notin> set host" "CHR '']'' \<notin> set port"
  shows "SplitHostPort (host @ CHR '':'' # port) = Some (host, port)"
proof -
  have nc: "\<not> Contains s [c] \<longleftrightarrow> c \<notin> set s" for s c
    by (simp add: Contains_def str_index_char_None)
  have "hd (host @ CHR '':'' # port) \<noteq> CHR ''[''"
    using assms(3) by (cases host) auto
  then show ?thesis
    using assms by (auto simp: SplitHostPort_def last_index_char Let_def nc)
qed

lemma SplitHostPort_bracket:
  assumes "CHR '']'' \<notin> set host" "CHR ''['' \<notin> set host"
    and "CHR '':'' \<notin> set port" "CHR ''['' \<notin> set port" "CHR '']'' \<notin> set port"
  shows "SplitHostPort (CHR ''['' # host @ CHR '']'' # CHR '':'' # port) = Some (host, port)"
proof -
  have nc: "\<not> Contains s [c] \<longleftrightarrow> c \<notin> set s" for s c
    by (simp add: Contains_def str_index_char_None)
  have i: "last_index (CHR '':'') (CHR ''['' # host @ CHR '']'' # CHR '':'' # port) = Some (length host + 2)"
    using last_index_char [OF assms(3), of "CHR ''['' # host @ [CHR '']'']"] by simp
  have e: "str_index (host @ CHR '']'' # CHR '':'' # port) '']'' = Some (length host)"
    using str_index_char [OF assms(1)] .
  show ?thesis
    using assms by (auto simp: SplitHostPort_def i e nc)
qed

text \<open>
  A wildcard or public listener is never taken for a local one, and the usual local ones
  are: for every port text without colons and brackets, \<open>127.0.0.1:p\<close>, \<open>localhost:p\<close> and
  \<open>[::1]:p\<close> are loopback, while \<open>:p\<close>, \<open>0.0.0.0:p\<close>, \<open>[::]:p\<close> and an address
  without port are not.
\<close>

theorem loopback_addresses:
  assumes "CHR '':'' \<notin> set p" "CHR ''['' \<notin> set p" "CHR '']'' \<notin> set p"
  shows "LoopbackListen (''127.0.0.1:'' @ p) \<and> LoopbackListen (''localhost:'' @ p) \<and>
    LoopbackListen (''[::1]:'' @ p) \<and> \<not> LoopbackListen ('':'' @ p) \<and>
    \<not> LoopbackListen (''0.0.0.0:'' @ p) \<and> \<not> LoopbackListen (''[::]:'' @ p) \<and> \<not> LoopbackListen p"
proof -
  note P = SplitHostPort_plain [OF _ assms(1) _ assms(2) _ assms(3)]
  note B = SplitHostPort_bracket [OF _ _ assms]
  have s: "SplitHostPort (''127.0.0.1:'' @ p) = Some (''127.0.0.1'', p)"
    "SplitHostPort (''localhost:'' @ p) = Some (''localhost'', p)"
    "SplitHostPort ('':'' @ p) = Some ([], p)"
    "SplitHostPort (''0.0.0.0:'' @ p) = Some (''0.0.0.0'', p)"
    using P [of "''127.0.0.1''"] P [of "''localhost''"] P [of "[]"] P [of "''0.0.0.0''"] by simp_all
  have b: "SplitHostPort (''[::1]:'' @ p) = Some (''::1'', p)" "SplitHostPort (''[::]:'' @ p) = Some (''::'', p)"
    using B [of "''::1''"] B [of "''::''"] by simp_all
  have "SplitHostPort p = None"
  proof -
    have "str_index (rev p) '':'' = None" using assms(1) by (subst str_index_char_None) simp
    then show ?thesis by (simp add: SplitHostPort_def last_index_def)
  qed
  moreover have "LoopbackListen (''127.0.0.1:'' @ p)" "LoopbackListen (''[::1]:'' @ p)"
    "\<not> LoopbackListen (''0.0.0.0:'' @ p)" "\<not> LoopbackListen (''[::]:'' @ p)"
    unfolding LoopbackListen_def s b
    by (simp_all, code_simp+)
  ultimately show ?thesis
    unfolding LoopbackListen_def s by (simp add: ToLower_def lower_char_def Let_def)
qed

section \<open>Who gets in\<close>

text \<open>A key library for the witnesses: the line \<open>k\<close> is key 1.\<close>

definition keylib0 :: "nat keylib" where
  "keylib0 = \<lparr>kl_parse = (\<lambda>l. if l = ''k'' then Inr (1, ''c'', []) else Inl (Errorf ''bad'')),
     kl_marshal = show_nat, kl_fingerprint = show_nat\<rparr>"

definition auth0 :: auth_config where
  "auth0 = \<lparr>ac_AuthorizedKeysFile = ''f'', ac_AuthorizedKeysInline = [], ac_PasswordAuth = False,
     ac_Password = secret_New [], ac_AllowedUsers = [], ac_AllowAnonymous = LoopbackListen '':22''\<rparr>"

definition authorizer0 :: "nat authorizer" where
  "authorizer0 = \<lparr>au_keys = [\<lparr>ak_key = 1, ak_comment = ''c'', ak_source = ''f''\<rparr>],
     au_passwordAuth = False, au_password = secret_New [], au_generated = False,
     au_anonymous = False, au_allowed = None\<rparr>"

lemma TrimSpace_one: "plain c \<Longrightarrow> TrimSpace [c] = [c]"
  by (intro TrimSpace_trimmed trimmed_plain) simp_all

lemma authorizer0_eq:
  "NewAuthorizer keylib0 auth0 (FileContent ''k'') (Inl (Errorf [])) = Inr authorizer0"
  by (simp add: NewAuthorizer_def auth0_def read_file_keys_def parseAuthorizedKey_def keylib0_def
      authorizer0_def TrimSpace_one plain_def Let_def)

text \<open>
  C11: Exactly who may log in. With the authorizer that \<open>NewAuthorizer\<close> built, a handshake
  succeeds iff the login name before the \<open>+\<close> is not empty and on the allow list, if there is
  one, and the client offers a key with the encoding of an authorized one, or the password
  when passwords are on, or nothing when there is neither a key nor a password; the latter
  only if anonymous access was allowed.
\<close>

theorem handshake_exact:
  assumes "NewAuthorizer K cfg file rnd = Inr a"
  shows "is_ok (handshake K a raw off) \<longleftrightarrow>
    (let user = login_User (ParseLogin raw)
     in user \<noteq> [] \<and> (ac_AllowedUsers cfg = [] \<or> user \<in> TrimSpace ` set (ac_AllowedUsers cfg))) \<and>
    (case off of
       OfferNone \<Rightarrow> au_keys a = [] \<and> \<not> ac_PasswordAuth cfg \<and> ac_AllowAnonymous cfg
     | OfferKey k \<Rightarrow> \<exists>ak\<in>set (au_keys a). kl_marshal K (ak_key ak) = kl_marshal K k
     | OfferPassword pw \<Rightarrow> ac_PasswordAuth cfg \<and> pw = Reveal (au_password a))"
proof -
  have "au_keys a = [] \<and> \<not> ac_PasswordAuth cfg \<longrightarrow> ac_AllowAnonymous cfg"
    using NewAuthorizerE [OF assms] by metis
  then show ?thesis
    using handshake_ok [OF assms, of raw off] by (cases off) (auto simp: Let_def)
qed

lemma handshake_exact_witness:
  "is_ok (handshake keylib0 authorizer0 ''root'' (OfferKey 1)) \<and>
   \<not> is_ok (handshake keylib0 authorizer0 ''root'' (OfferKey 2)) \<and>
   \<not> is_ok (handshake keylib0 authorizer0 ''+x'' (OfferKey 1))"
  unfolding handshake_exact [OF authorizer0_eq]
  by (simp add: authorizer0_def auth0_def keylib0_def ParseLogin_def Let_def)

text \<open>
  C36: The gateway is closed to the network. Configured as the gateway does it, with anonymous
  access allowed only for a loopback listener, and listening anywhere else, every client that
  gets in proved it: with a key that is on an option-free line of the configuration or of the
  key file, or with a password that is not empty and has 32 characters if it was generated.
\<close>

theorem network_needs_credentials:
  assumes "NewAuthorizer K (cfg\<lparr>ac_AllowAnonymous := LoopbackListen listen\<rparr>) file rnd = Inr a"
    and "\<not> LoopbackListen listen" and "is_ok (handshake K a raw off)"
    and "\<And>buf. rnd = Inr buf \<Longrightarrow> length buf = 20"
  shows "(\<exists>k ak. off = OfferKey k \<and> configured_key K cfg file ak \<and> kl_marshal K ak = kl_marshal K k) \<or>
    (\<exists>pw. off = OfferPassword pw \<and> ac_PasswordAuth cfg \<and> pw \<noteq> [] \<and>
      (if Empty (ac_Password cfg) then length pw = 32 else pw = Reveal (ac_Password cfg)))"
proof -
  let ?cfg = "cfg\<lparr>ac_AllowAnonymous := LoopbackListen listen\<rparr>"
  have conf: "configured_key K ?cfg file = configured_key K cfg file"
    by (simp add: configured_key_def fun_eq_iff split: file_read.split)
  have anon: "au_keys a = [] \<and> \<not> ac_PasswordAuth cfg \<longrightarrow> LoopbackListen listen"
    and given: "\<not> Empty (ac_Password cfg) \<longrightarrow> au_password a = ac_Password cfg"
    using NewAuthorizerE [OF assms(1)] by (metis auth_config.ext_inject auth_config.surjective
        auth_config.update_convs(6))+
  note H = assms(3) [unfolded handshake_ok [OF assms(1)]]
  show ?thesis
  proof (cases off)
    case OfferNone
    with H anon assms(2) show ?thesis by simp
  next
    case (OfferKey k)
    with H obtain ak where ak: "ak \<in> set (au_keys a)" "kl_marshal K (ak_key ak) = kl_marshal K k" by auto
    with au_keys_configured [OF assms(1) ak(1)] conf OfferKey show ?thesis by auto
  next
    case (OfferPassword pw)
    with H have "ac_PasswordAuth ?cfg" and pw: "pw = Reveal (au_password a)" by auto
    with au_password_set [OF assms(1) _ assms(4)] given OfferPassword show ?thesis by auto
  qed
qed

lemma network_needs_credentials_witness:
  "\<exists>k ak. OfferKey 1 = OfferKey k \<and> configured_key keylib0 auth0 (FileContent ''k'') ak \<and>
     kl_marshal keylib0 ak = kl_marshal keylib0 k"
proof -
  have c: "auth0\<lparr>ac_AllowAnonymous := LoopbackListen '':22''\<rparr> = auth0" by (simp add: auth0_def)
  have n: "\<not> LoopbackListen '':22''" by code_simp
  have h: "is_ok (handshake keylib0 authorizer0 ''root'' (OfferKey 1))"
    by (simp add: handshake_def AuthenticateKey_ok authorizer0_def CheckUser_def ParseLogin_def
        keylib0_def Let_def)
  have "NewAuthorizer keylib0 (auth0\<lparr>ac_AllowAnonymous := LoopbackListen '':22''\<rparr>)
      (FileContent ''k'') (Inl (Errorf [])) = Inr authorizer0"
    unfolding c by (rule authorizer0_eq)
  from network_needs_credentials [OF this n h] show ?thesis by simp
qed

lemma loopback_addresses_witness: "LoopbackListen ''127.0.0.1:2222'' \<and> \<not> LoopbackListen '':2222''"
  using loopback_addresses [of "''2222''"] by simp

end
