(* ===== verification/SshSession.thy ===== *)
theory SshSession
  imports SshAuth
begin

text \<open>
  One SSH session channel (\<open>ssh/session.go\<close>, \<open>ssh/forward.go\<close>, \<open>ssh/proxy.go\<close>): the
  requests of the client, the forwarder goroutine \<open>run\<close> and the teardown, as two program
  counters over the shared \<open>sessionState\<close>. A step is one request, one locked section or one
  call into the backend; what the channel, the environment session and the backend see is
  the list of effects. Copying bytes between the streams is not modelled.
\<close>

section \<open>Wire values (ssh/proxy.go)\<close>

record pty_msg =
  pm_Term :: string
  pm_Columns :: "32 word"
  pm_Rows :: "32 word"
  pm_Modes :: string

definition clampDimension :: "32 word \<Rightarrow> 16 word" where
  "clampDimension v = (if v > 0xffff then 0xffff else ucast v)"

text \<open>A request whose payload could not be unmarshalled carries \<open>None\<close>.\<close>

datatype ss_request =
    PtyReq "pty_msg option"
  | EnvReq "(string \<times> string) option"
  | WindowChange "(32 word \<times> 32 word) option"
  | SignalReq "string option"
  | ShellReq
  | ExecReq "string option"
  | SubsystemReq "string option"
  | OtherReq

datatype exit_msg = ExitSignal string | ExitStatusMsg "32 word"

record open_request =
  or_User :: string
  or_EnvironmentHint :: string
  or_RemoteAddr :: string
  or_ClientVersion :: string
  or_KeyFingerprint :: string
  or_Connect :: connect_request

text \<open>
  Effects: an answer to a request, text on the channel or its stderr, an exit message, calls
  on the environment session, the call of the release function, closing the channel, and
  the call and the return of \<open>OpenSession\<close>.
\<close>

datatype effect =
    Replied bool
  | ToStdout string
  | ToStderr string
  | SentExit exit_msg
  | ConnResize nat "16 word" "16 word"
  | ConnSignal nat string
  | ConnClose nat
  | Released nat
  | ChannelClosed
  | Requested open_request
  | Opened nat nat

section \<open>State (ssh/session.go)\<close>

record ss =
  ss_login :: login
  ss_pty :: bool
  ss_term :: string
  ss_rows :: "16 word"
  ss_cols :: "16 word"
  ss_modes :: string
  ss_env :: "(string, string) gomap"
  ss_quiet :: bool
  ss_started :: bool
  ss_conn :: "nat option"
  ss_release :: "nat option"

definition new_ss :: "login \<Rightarrow> ss" where
  "new_ss l = \<lparr>ss_login = l, ss_pty = False, ss_term = [], ss_rows = 0, ss_cols = 0, ss_modes = [],
     ss_env = [], ss_quiet = False, ss_started = False, ss_conn = None, ss_release = None\<rparr>"

definition ss_reply :: "bool \<Rightarrow> bool \<Rightarrow> effect list" where
  "ss_reply want ok = (if want then [Replied ok] else [])"

text \<open>\<open>begin\<close>: the new state, the effects and whether \<open>run\<close> was started with what.\<close>

definition ss_begin ::
  "bool \<Rightarrow> string \<Rightarrow> string \<Rightarrow> string \<Rightarrow> ss \<Rightarrow> ss \<times> effect list \<times> (string \<times> string \<times> string) option" where
  "ss_begin want kind command subsystem st =
    (if ss_started st then (st, ss_reply want False, None)
     else (st\<lparr>ss_started := True, ss_quiet := (subsystem \<noteq> [])\<rparr>, ss_reply want True,
           Some (kind, command, subsystem)))"

definition ss_snapshot_env :: "ss \<Rightarrow> (string, string) gomap" where
  "ss_snapshot_env st = filter (\<lambda>(k, v). k \<noteq> EnvVarEnvironment) (ss_env st)"

definition environmentHint :: "ss \<Rightarrow> string" where
  "environmentHint st =
    (if login_Hint (ss_login st) \<noteq> [] then login_Hint (ss_login st)
     else getz (ss_env st) EnvVarEnvironment [])"

definition ss_setConn :: "nat \<Rightarrow> nat \<Rightarrow> ss \<Rightarrow> ss \<times> effect list" where
  "ss_setConn conn rel st =
    (st\<lparr>ss_conn := Some conn, ss_release := Some rel\<rparr>,
     if ss_rows st > 0 \<and> ss_cols st > 0 then [ConnResize conn (ss_rows st) (ss_cols st)] else [])"

definition ss_resize :: "16 word \<Rightarrow> 16 word \<Rightarrow> ss \<Rightarrow> ss \<times> effect list" where
  "ss_resize rows cols st =
    (st\<lparr>ss_rows := rows, ss_cols := cols\<rparr>,
     case ss_conn st of
       None \<Rightarrow> []
     | Some c \<Rightarrow> if rows > 0 \<and> cols > 0 then [ConnResize c rows cols] else [])"

definition forwardSignal :: "string \<Rightarrow> ss \<Rightarrow> effect list" where
  "forwardSignal name st = (case ss_conn st of None \<Rightarrow> [] | Some c \<Rightarrow> [ConnSignal c name])"

text \<open>One round of the loop of \<open>handleSession\<close>.\<close>

fun ss_handle ::
  "bool \<Rightarrow> ss_request \<Rightarrow> ss \<Rightarrow> ss \<times> effect list \<times> (string \<times> string \<times> string) option" where
  "ss_handle want (PtyReq None) st = (st, ss_reply want False, None)"
| "ss_handle want (PtyReq (Some m)) st =
     (if \<not> ss_started st then
        (st\<lparr>ss_pty := True, ss_term := pm_Term m, ss_rows := clampDimension (pm_Rows m),
            ss_cols := clampDimension (pm_Columns m), ss_modes := pm_Modes m\<rparr>,
         ss_reply want True, None)
      else (st, ss_reply want False, None))"
| "ss_handle want (EnvReq None) st = (st, ss_reply want False, None)"
| "ss_handle want (EnvReq (Some (n, v))) st =
     (if \<not> ss_started st then st\<lparr>ss_env := AList.update n v (ss_env st)\<rparr> else st,
      ss_reply want True, None)"
| "ss_handle want (WindowChange None) st = (st, ss_reply want False, None)"
| "ss_handle want (WindowChange (Some (rows, cols))) st =
     (let (st', es) = ss_resize (clampDimension rows) (clampDimension cols) st
      in (st', es @ ss_reply want True, None))"
| "ss_handle want (SignalReq None) st = (st, ss_reply want True, None)"
| "ss_handle want (SignalReq (Some s)) st = (st, forwardSignal s st @ ss_reply want True, None)"
| "ss_handle want ShellReq st = ss_begin want ''shell'' [] [] st"
| "ss_handle want (ExecReq None) st = (st, ss_reply want False, None)"
| "ss_handle want (ExecReq (Some c)) st = ss_begin want ''exec'' c [] st"
| "ss_handle want (SubsystemReq None) st = (st, ss_reply want False, None)"
| "ss_handle want (SubsystemReq (Some s)) st = ss_begin want ''subsystem'' [] s st"
| "ss_handle want OtherReq st = (st, ss_reply want False, None)"

section \<open>The forwarder (ssh/forward.go)\<close>

definition openRequest ::
  "string \<Rightarrow> string \<Rightarrow> string \<Rightarrow> (string \<times> string \<times> string) \<Rightarrow> ss \<Rightarrow> open_request" where
  "openRequest remote version fingerprint run st =
    (case run of (kind, command, subsystem) \<Rightarrow>
       \<lparr>or_User = login_User (ss_login st), or_EnvironmentHint = environmentHint st,
        or_RemoteAddr = remote, or_ClientVersion = version, or_KeyFingerprint = fingerprint,
        or_Connect = \<lparr>req_PTY = ss_pty st, req_Term = ss_term st, req_Rows = ss_rows st,
          req_Cols = ss_cols st, req_Modes = ss_modes st, req_Command = command,
          req_Subsystem = subsystem, req_Env = ss_snapshot_env st, req_Progress = Some 0\<rparr>\<rparr>)"

text \<open>What \<open>pump\<close> makes of the end of the remote session.\<close>

definition pump_status :: "exit_status \<Rightarrow> goerr option \<Rightarrow> exit_status" where
  "pump_status s e =
    (if e \<noteq> None \<and> ex_Code s = 0 \<and> ex_Signal s = [] then s\<lparr>ex_Code := 255\<rparr> else s)"

definition exit_message :: "exit_status \<Rightarrow> exit_msg" where
  "exit_message s =
    (if ex_Signal s \<noteq> [] then ExitSignal (TrimPrefix (ex_Signal s) ''SIG'')
     else ExitStatusMsg (word_of_int (if ex_Code s < 0 then 255 else ex_Code s)))"

definition sendExit :: "exit_status \<Rightarrow> effect list" where
  "sendExit s = [SentExit (exit_message s), ChannelClosed]"

definition crlf :: string where
  "crlf = [CHR 0x0D, CHR 0x0A]"

definition ss_notify :: "string \<Rightarrow> ss \<Rightarrow> effect list" where
  "ss_notify msg st =
    (if ss_quiet st \<or> msg = [] then []
     else if ss_pty st then [ToStdout (''[gateway] '' @ msg @ crlf)]
     else [ToStderr (''[gateway] '' @ msg @ [CHR 0x0A])])"

definition ss_fail :: "goerr \<Rightarrow> ss \<Rightarrow> effect list" where
  "ss_fail e st =
    (let text = ''gateway: '' @ TrimSpace (err_text e)
     in (if ss_pty st then [ToStdout (text @ crlf)] else [ToStderr (text @ [CHR 0x0A])]) @
        sendExit \<lparr>ex_Code = 254, ex_Signal = []\<rparr>)"

section \<open>The two goroutines\<close>

text \<open>
  \<open>run\<close> has not started, is about to take its snapshot, is inside \<open>OpenSession\<close>, has its
  result, is pumping, or has closed \<open>done\<close>. The handler is in its loop, has taken the
  snapshot of \<open>teardown\<close> and waits for \<open>done\<close>, or has finished.
\<close>

datatype run_state =
    RunNone | RunStart "string \<times> string \<times> string" | RunOpening | RunOpened nat nat
  | RunPumping nat | RunDone

datatype td_state = TdLoop | TdWait bool "nat option" | TdDone

record channel =
  ch_st :: ss
  ch_run :: run_state
  ch_td :: td_state
  ch_effects :: "effect list"

definition channel_start :: "channel \<Rightarrow> bool" where
  "channel_start c \<longleftrightarrow> (\<exists>l. c = \<lparr>ch_st = new_ss l, ch_run = RunNone, ch_td = TdLoop, ch_effects = []\<rparr>)"

definition emit :: "effect list \<Rightarrow> channel \<Rightarrow> channel" where
  "emit es c = c\<lparr>ch_effects := ch_effects c @ es\<rparr>"

definition ch_request :: "bool \<Rightarrow> ss_request \<Rightarrow> channel \<Rightarrow> channel" where
  "ch_request want r c =
    (case ss_handle want r (ch_st c) of
       (st, es, None) \<Rightarrow> emit es (c\<lparr>ch_st := st\<rparr>)
     | (st, es, Some x) \<Rightarrow> emit es (c\<lparr>ch_st := st, ch_run := RunStart x\<rparr>))"

definition ch_snapshot :: "string \<Rightarrow> string \<Rightarrow> string \<Rightarrow> (string \<times> string \<times> string) \<Rightarrow> channel \<Rightarrow> channel" where
  "ch_snapshot remote version fp x c =
    emit [Requested (openRequest remote version fp x (ch_st c))] (c\<lparr>ch_run := RunOpening\<rparr>)"

definition ch_setConn :: "nat \<Rightarrow> nat \<Rightarrow> channel \<Rightarrow> channel" where
  "ch_setConn conn rel c =
    (let (st, es) = ss_setConn conn rel (ch_st c)
     in emit es (c\<lparr>ch_st := st, ch_run := RunPumping conn\<rparr>))"

text \<open>\<open>teardown\<close> up to the wait: snapshot, cancel, close the environment session.\<close>

definition ch_hangup :: "channel \<Rightarrow> channel" where
  "ch_hangup c =
    emit (case ss_conn (ch_st c) of None \<Rightarrow> [] | Some k \<Rightarrow> [ConnClose k])
      (c\<lparr>ch_td := TdWait (ss_started (ch_st c)) (ss_release (ch_st c))\<rparr>)"

definition ch_finish :: "nat option \<Rightarrow> channel \<Rightarrow> channel" where
  "ch_finish rel c =
    emit ((case rel of None \<Rightarrow> [] | Some r \<Rightarrow> [Released r]) @ [ChannelClosed]) (c\<lparr>ch_td := TdDone\<rparr>)"

text \<open>
  The wait of \<open>teardown\<close> ends when \<open>done\<close> is closed, after five seconds, or at once when
  nothing was started; the timeout makes the last step possible in any state.
\<close>

inductive ch_step :: "channel \<Rightarrow> channel \<Rightarrow> bool" where
  request: "ch_td c = TdLoop \<Longrightarrow> ch_step c (ch_request want r c)"
| snapshot: "ch_run c = RunStart x \<Longrightarrow> ch_step c (ch_snapshot remote version fp x c)"
| progress: "ch_run c = RunOpening \<Longrightarrow> ch_step c (emit (ss_notify msg (ch_st c)) c)"
| open_failed: "ch_run c = RunOpening \<Longrightarrow> ch_step c (emit (ss_fail e (ch_st c)) (c\<lparr>ch_run := RunDone\<rparr>))"
| opened: "ch_run c = RunOpening \<Longrightarrow>
    ch_step c (emit [Opened conn rel] (c\<lparr>ch_run := RunOpened conn rel\<rparr>))"
| set_conn: "ch_run c = RunOpened conn rel \<Longrightarrow> ch_step c (ch_setConn conn rel c)"
| pump_end: "ch_run c = RunPumping conn \<Longrightarrow>
    ch_step c (emit (sendExit (pump_status s e)) (c\<lparr>ch_run := RunDone\<rparr>))"
| hangup: "ch_td c = TdLoop \<Longrightarrow> ch_step c (ch_hangup c)"
| finish: "ch_td c = TdWait started rel \<Longrightarrow> ch_step c (ch_finish rel c)"

inductive_cases ch_stepE: "ch_step c d"

section \<open>Invariant\<close>

definition opened_of :: "effect list \<Rightarrow> (nat \<times> nat) list" where
  "opened_of es = concat (map (\<lambda>e. case e of Opened k r \<Rightarrow> [(k, r)] | _ \<Rightarrow> []) es)"

definition closed_of :: "effect list \<Rightarrow> nat list" where
  "closed_of es = concat (map (\<lambda>e. case e of ConnClose k \<Rightarrow> [k] | _ \<Rightarrow> []) es)"

definition released_of :: "effect list \<Rightarrow> nat list" where
  "released_of es = concat (map (\<lambda>e. case e of Released r \<Rightarrow> [r] | _ \<Rightarrow> []) es)"

definition requested_of :: "effect list \<Rightarrow> open_request list" where
  "requested_of es = concat (map (\<lambda>e. case e of Requested q \<Rightarrow> [q] | _ \<Rightarrow> []) es)"

definition exits_of :: "effect list \<Rightarrow> exit_msg list" where
  "exits_of es = concat (map (\<lambda>e. case e of SentExit m \<Rightarrow> [m] | _ \<Rightarrow> []) es)"

lemmas of_defs = opened_of_def closed_of_def released_of_def requested_of_def exits_of_def

lemma of_append [simp]:
  "opened_of (a @ b) = opened_of a @ opened_of b" "closed_of (a @ b) = closed_of a @ closed_of b"
  "released_of (a @ b) = released_of a @ released_of b"
  "requested_of (a @ b) = requested_of a @ requested_of b"
  "exits_of (a @ b) = exits_of a @ exits_of b"
  by (simp_all add: of_defs)

text \<open>Effects that concern neither the environment session nor the exit.\<close>

definition small :: "effect list \<Rightarrow> bool" where
  "small es \<longleftrightarrow> opened_of es = [] \<and> closed_of es = [] \<and> released_of es = [] \<and>
     requested_of es = [] \<and> exits_of es = []"

lemma small_simps [simp]:
  "small []" "small (a @ b) \<longleftrightarrow> small a \<and> small b" "small (ss_reply want ok)"
  "small (ss_notify msg st)" "small (forwardSignal s st)" "small (snd (ss_resize r c st))"
  "small (snd (ss_setConn k rel st))"
  by (auto simp: small_def ss_reply_def ss_notify_def forwardSignal_def ss_resize_def
      ss_setConn_def of_defs split: option.splits)

lemma small_resize [simp]: "small (ConnResize k r c # es) \<longleftrightarrow> small es"
  by (simp add: small_def of_defs)

lemma emit_simps [simp]:
  "ch_st (emit es c) = ch_st c" "ch_run (emit es c) = ch_run c" "ch_td (emit es c) = ch_td c"
  "ch_effects (emit es c) = ch_effects c @ es"
  by (simp_all add: emit_def)

text \<open>The parameters of the session that a started session never changes.\<close>

definition frozen :: "ss \<Rightarrow> ss \<Rightarrow> bool" where
  "frozen a b \<longleftrightarrow> ss_login b = ss_login a \<and> ss_pty b = ss_pty a \<and> ss_term b = ss_term a \<and>
     ss_modes b = ss_modes a \<and> ss_env b = ss_env a \<and> ss_quiet b = ss_quiet a \<and> ss_started b"

lemma ss_begin_facts:
  assumes "ss_begin want k c s st = (st', es, x)"
  shows "small es \<and> ss_conn st' = ss_conn st \<and> ss_release st' = ss_release st \<and>
    ss_started st' = (ss_started st \<or> x \<noteq> None) \<and> (x \<noteq> None \<longrightarrow> \<not> ss_started st) \<and>
    (ss_started st \<longrightarrow> frozen st st')"
  using assms by (auto simp: ss_begin_def frozen_def split: if_splits)

lemma ss_handle_facts:
  assumes "ss_handle want r st = (st', es, x)"
  shows "small es \<and> ss_conn st' = ss_conn st \<and> ss_release st' = ss_release st \<and>
    ss_started st' = (ss_started st \<or> x \<noteq> None) \<and> (x \<noteq> None \<longrightarrow> \<not> ss_started st) \<and>
    (ss_started st \<longrightarrow> frozen st st')"
  using assms ss_begin_facts
  by (cases "(want, r, st)" rule: ss_handle.cases)
    (auto simp: frozen_def ss_resize_def Let_def split: if_splits option.splits)

definition asked_as :: "open_request \<Rightarrow> ss \<Rightarrow> bool" where
  "asked_as q st \<longleftrightarrow> req_PTY (or_Connect q) = ss_pty st \<and> req_Term (or_Connect q) = ss_term st \<and>
     req_Modes (or_Connect q) = ss_modes st \<and> req_Env (or_Connect q) = ss_snapshot_env st \<and>
     or_EnvironmentHint q = environmentHint st \<and> or_User q = login_User (ss_login st)"

definition ch_inv :: "channel \<Rightarrow> bool" where
  "ch_inv c \<longleftrightarrow>
    (let st = ch_st c; es = ch_effects c; run = ch_run c
     in (run = RunNone \<longleftrightarrow> \<not> ss_started st) \<and>
        length (requested_of es) = (case run of RunNone \<Rightarrow> 0 | RunStart _ \<Rightarrow> 0 | _ \<Rightarrow> 1) \<and>
        length (exits_of es) = (if run = RunDone then 1 else 0) \<and>
        (case run of
           RunOpened k r \<Rightarrow> opened_of es = [(k, r)] \<and> ss_conn st = None \<and> ss_release st = None
         | RunPumping k \<Rightarrow>
             (\<exists>r. opened_of es = [(k, r)] \<and> ss_conn st = Some k \<and> ss_release st = Some r)
         | RunDone \<Rightarrow> (opened_of es = [] \<and> ss_conn st = None \<and> ss_release st = None) \<or>
             (\<exists>k r. opened_of es = [(k, r)] \<and> ss_conn st = Some k \<and> ss_release st = Some r)
         | _ \<Rightarrow> opened_of es = [] \<and> ss_conn st = None \<and> ss_release st = None) \<and>
        (case ch_td c of
           TdLoop \<Rightarrow> closed_of es = [] \<and> released_of es = []
         | TdWait s rel \<Rightarrow> released_of es = [] \<and>
             (rel = None \<and> closed_of es = [] \<or>
              (\<exists>k r. rel = Some r \<and> closed_of es = [k] \<and> opened_of es = [(k, r)]))
         | TdDone \<Rightarrow> released_of es = [] \<and> closed_of es = [] \<or>
             (\<exists>k r. released_of es = [r] \<and> closed_of es = [k] \<and> opened_of es = [(k, r)])) \<and>
        (\<forall>q\<in>set (requested_of es). asked_as q st))"

lemma of_Nil [simp]:
  "opened_of [] = []" "closed_of [] = []" "released_of [] = []" "requested_of [] = []" "exits_of [] = []"
  by (simp_all add: of_defs)

lemma of_Cons [simp]:
  "opened_of (e # es) = (case e of Opened k r \<Rightarrow> [(k, r)] | _ \<Rightarrow> []) @ opened_of es"
  "closed_of (e # es) = (case e of ConnClose k \<Rightarrow> [k] | _ \<Rightarrow> []) @ closed_of es"
  "released_of (e # es) = (case e of Released r \<Rightarrow> [r] | _ \<Rightarrow> []) @ released_of es"
  "requested_of (e # es) = (case e of Requested q \<Rightarrow> [q] | _ \<Rightarrow> []) @ requested_of es"
  "exits_of (e # es) = (case e of SentExit m \<Rightarrow> [m] | _ \<Rightarrow> []) @ exits_of es"
  by (simp_all add: of_defs)

lemma ch_inv_start: "channel_start c \<Longrightarrow> ch_inv c"
  by (auto simp: channel_start_def ch_inv_def new_ss_def of_defs)

lemma smallD:
  assumes "small es"
  shows "opened_of es = []" "closed_of es = []" "released_of es = []" "requested_of es = []"
    "exits_of es = []"
  using assms by (simp_all add: small_def)

lemma asked_as_frozen: "asked_as q st \<Longrightarrow> frozen st st' \<Longrightarrow> asked_as q st'"
  by (simp add: asked_as_def frozen_def ss_snapshot_env_def environmentHint_def)

lemma ch_inv_small:
  assumes "ch_inv c" and "small es" and "frozen (ch_st c) st' \<or> st' = ch_st c"
    and "ss_conn st' = ss_conn (ch_st c)" "ss_release st' = ss_release (ch_st c)"
    and "ss_started st' = ss_started (ch_st c)"
  shows "ch_inv (emit es (c\<lparr>ch_st := st'\<rparr>))"
  using assms(1) smallD [OF assms(2)] assms(3-6) asked_as_frozen
  unfolding ch_inv_def Let_def
  by (auto cong: run_state.case_cong td_state.case_cong)

lemma ch_inv_request:
  assumes "ch_inv c"
  shows "ch_inv (ch_request want r c)"
proof -
  obtain st es x where h: "ss_handle want r (ch_st c) = (st, es, x)"
    by (metis prod_cases3)
  note F = ss_handle_facts [OF h]
  note S = smallD [OF conjunct1 [OF F]]
  show ?thesis
  proof (cases x)
    case None
    have "requested_of (ch_effects c) = []" if "\<not> ss_started (ch_st c)"
      using that assms by (auto simp: ch_inv_def Let_def)
    with assms F S None h asked_as_frozen show ?thesis
      unfolding ch_request_def ch_inv_def Let_def
      by (auto cong: run_state.case_cong td_state.case_cong)
  next
    case (Some k)
    with F have "\<not> ss_started (ch_st c)" by simp
    with assms have "ch_run c = RunNone" by (simp add: ch_inv_def Let_def)
    with assms F S Some h show ?thesis
      unfolding ch_request_def ch_inv_def Let_def
      by (auto cong: td_state.case_cong)
  qed
qed

lemma ch_inv_snapshot:
  assumes "ch_inv c" and "ch_run c = RunStart x"
  shows "ch_inv (ch_snapshot remote version fp x c)"
proof -
  have "asked_as (openRequest remote version fp x (ch_st c)) (ch_st c)"
    by (cases x) (simp add: asked_as_def openRequest_def)
  with assms show ?thesis
    unfolding ch_inv_def ch_snapshot_def Let_def
    by (auto cong: td_state.case_cong)
qed

lemma exit_effects [simp]:
  "exits_of (sendExit x) = [exit_message x]" "opened_of (sendExit x) = []" "closed_of (sendExit x) = []"
  "released_of (sendExit x) = []" "requested_of (sendExit x) = []"
  by (simp_all add: sendExit_def of_defs)

lemma fail_effects [simp]:
  "length (exits_of (ss_fail e st)) = 1" "opened_of (ss_fail e st) = []" "closed_of (ss_fail e st) = []"
  "released_of (ss_fail e st) = []" "requested_of (ss_fail e st) = []"
  by (auto simp: ss_fail_def Let_def of_defs sendExit_def)

lemma ch_inv_progress:
  assumes "ch_inv c" and "small es"
  shows "ch_inv (emit es c)"
  using ch_inv_small [OF assms, of "ch_st c"] by simp

lemma ch_inv_open_failed:
  assumes "ch_inv c" and "ch_run c = RunOpening"
  shows "ch_inv (emit (ss_fail e (ch_st c)) (c\<lparr>ch_run := RunDone\<rparr>))"
  using assms unfolding ch_inv_def Let_def by (auto cong: td_state.case_cong)

lemma ch_inv_opened:
  assumes "ch_inv c" and "ch_run c = RunOpening"
  shows "ch_inv (emit [Opened k r] (c\<lparr>ch_run := RunOpened k r\<rparr>))"
proof -
  have "opened_of (ch_effects c) = []" using assms by (simp add: ch_inv_def Let_def)
  then show ?thesis using assms unfolding ch_inv_def Let_def
    by (auto split: td_state.splits)
qed

lemma ch_inv_set_conn:
  assumes "ch_inv c" and "ch_run c = RunOpened k r"
  shows "ch_inv (ch_setConn k r c)"
proof -
  have "small (snd (ss_setConn k r (ch_st c)))" by simp
  then show ?thesis using assms
    unfolding ch_inv_def ch_setConn_def Let_def ss_setConn_def
    by (auto simp: smallD asked_as_def ss_snapshot_env_def environmentHint_def
        cong: td_state.case_cong)
qed

lemma ch_inv_pump_end:
  assumes "ch_inv c" and "ch_run c = RunPumping k"
  shows "ch_inv (emit (sendExit x) (c\<lparr>ch_run := RunDone\<rparr>))"
  using assms unfolding ch_inv_def Let_def by (auto cong: td_state.case_cong)

lemma ch_inv_hangup:
  assumes "ch_inv c" and "ch_td c = TdLoop"
  shows "ch_inv (ch_hangup c)"
  using assms unfolding ch_inv_def ch_hangup_def Let_def
  by (auto split: option.splits run_state.splits)

lemma ch_inv_finish:
  assumes "ch_inv c" and "ch_td c = TdWait s rel"
  shows "ch_inv (ch_finish rel c)"
  using assms unfolding ch_inv_def ch_finish_def Let_def
  by (auto split: option.splits cong: run_state.case_cong)

interpretation chan: step_system channel_start ch_step ch_inv
proof
  show "ch_inv c" if "channel_start c" for c
    using that by (rule ch_inv_start)
  show "ch_inv d" if "ch_step c d" "ch_inv c" for c d
    using that
    by (cases rule: ch_step.cases)
      (simp_all add: ch_inv_request ch_inv_snapshot ch_inv_progress ch_inv_open_failed
        ch_inv_opened ch_inv_set_conn ch_inv_pump_end ch_inv_hangup ch_inv_finish)
qed

section \<open>Properties\<close>

text \<open>
  C9: Each channel opens its environment once and ends once. In every reachable state at most
  one \<open>OpenSession\<close> was called, at most one exit message sent, the environment session closed
  at most once and its release called at most once, and only for the session that
  \<open>OpenSession\<close> returned; what was asked of the backend is what the state still says, so
  the terminal and the variables cannot change after the start, and the variable that selects
  the environment is never passed on.
\<close>

theorem channel_once:
  assumes "channel_start c" and "ch_step\<^sup>*\<^sup>* c d"
  shows "length (requested_of (ch_effects d)) \<le> 1 \<and> length (exits_of (ch_effects d)) \<le> 1 \<and>
    length (opened_of (ch_effects d)) \<le> 1 \<and> length (closed_of (ch_effects d)) \<le> 1 \<and>
    length (released_of (ch_effects d)) \<le> 1 \<and>
    set (closed_of (ch_effects d)) \<subseteq> fst ` set (opened_of (ch_effects d)) \<and>
    set (released_of (ch_effects d)) \<subseteq> snd ` set (opened_of (ch_effects d)) \<and>
    list_all (\<lambda>q. asked_as q (ch_st d) \<and> map_of (req_Env (or_Connect q)) EnvVarEnvironment = None)
      (requested_of (ch_effects d))"
proof -
  have inv: "ch_inv d" using assms by (rule chan.inv_reachable)
  have "map_of (ss_snapshot_env st) EnvVarEnvironment = None" for st
    by (auto simp: ss_snapshot_env_def map_of_eq_None_iff)
  then have "list_all (\<lambda>q. asked_as q (ch_st d) \<and> map_of (req_Env (or_Connect q)) EnvVarEnvironment = None)
      (requested_of (ch_effects d))"
    using inv by (auto simp: ch_inv_def Let_def list_all_iff asked_as_def)
  moreover have "length (requested_of (ch_effects d)) \<le> 1 \<and> length (exits_of (ch_effects d)) \<le> 1"
    using inv by (auto simp: ch_inv_def Let_def split: run_state.splits)
  moreover have "length (opened_of (ch_effects d)) \<le> 1"
    using inv by (auto simp: ch_inv_def Let_def split: run_state.splits)
  moreover have "length (closed_of (ch_effects d)) \<le> 1 \<and> length (released_of (ch_effects d)) \<le> 1 \<and>
    set (closed_of (ch_effects d)) \<subseteq> fst ` set (opened_of (ch_effects d)) \<and>
    set (released_of (ch_effects d)) \<subseteq> snd ` set (opened_of (ch_effects d))"
    using inv by (cases "ch_td d") (auto simp: ch_inv_def Let_def)
  ultimately show ?thesis by blast
qed

text \<open>A run of one shell session, used by the witnesses.\<close>

definition ch0 :: channel where
  "ch0 = \<lparr>ch_st = new_ss (ParseLogin ''root+box''), ch_run = RunNone, ch_td = TdLoop, ch_effects = []\<rparr>"

definition ch1 :: channel where
  "ch1 = ch_snapshot ''r'' ''v'' [] (''shell'', [], []) (ch_request True ShellReq ch0)"

definition ch2 :: channel where
  "ch2 = emit [Opened 1 2] (ch1\<lparr>ch_run := RunOpened 1 2\<rparr>)"

definition ch3 :: channel where
  "ch3 = ch_setConn 1 2 ch2"

lemma ch0_start: "channel_start ch0"
  by (auto simp: channel_start_def ch0_def)

lemmas ch_eval = ch0_def ch1_def ch2_def ch3_def ch_request_def ch_snapshot_def ch_setConn_def
  ss_setConn_def emit_def ss_begin_def new_ss_def ss_reply_def Let_def

lemma ch0_ch1: "ch_step\<^sup>*\<^sup>* ch0 ch1"
proof -
  have "ch_step ch0 (ch_request True ShellReq ch0)"
    by (rule ch_step.request) (simp add: ch0_def)
  moreover have "ch_step (ch_request True ShellReq ch0) ch1"
    unfolding ch1_def by (rule ch_step.snapshot) (simp add: ch_eval)
  ultimately show ?thesis by simp
qed

lemma ch0_ch2: "ch_step\<^sup>*\<^sup>* ch0 ch2"
proof -
  have "ch_run ch1 = RunOpening" by (simp add: ch1_def ch_snapshot_def)
  then have "ch_step ch1 ch2" unfolding ch2_def by (rule ch_step.opened)
  with ch0_ch1 show ?thesis by simp
qed

lemma ch0_ch3: "ch_step\<^sup>*\<^sup>* ch0 ch3"
proof -
  have "ch_run ch2 = RunOpened 1 2" by (simp add: ch2_def)
  then have "ch_step ch2 ch3" unfolding ch3_def by (rule ch_step.set_conn)
  with ch0_ch2 show ?thesis by simp
qed

lemma channel_once_witness:
  "requested_of (ch_effects ch3) \<noteq> [] \<and> opened_of (ch_effects ch3) = [(1, 2)] \<and>
   length (requested_of (ch_effects ch3)) \<le> 1"
  using channel_once [OF ch0_start ch0_ch3] by (simp add: ch_eval)

lemma hangup_pending:
  assumes "ch_step\<^sup>*\<^sup>* c d"
    and "(\<exists>s. ch_td c = TdWait s (Some r)) \<or> ch_td c = TdDone \<and> r \<in> set (released_of (ch_effects c))"
    and "k \<in> set (closed_of (ch_effects c))"
  shows "((\<exists>s. ch_td d = TdWait s (Some r)) \<or> ch_td d = TdDone \<and> r \<in> set (released_of (ch_effects d))) \<and>
    k \<in> set (closed_of (ch_effects d))"
  using assms
proof (induction rule: rtranclp_induct)
  case base
  then show ?case by blast
next
  case (step d e)
  then have IH: "(\<exists>s. ch_td d = TdWait s (Some r)) \<or> ch_td d = TdDone \<and> r \<in> set (released_of (ch_effects d))"
    "k \<in> set (closed_of (ch_effects d))" by blast+
  from step(2) IH show ?case
    by (cases rule: ch_step.cases)
      (auto simp: ch_request_def ch_snapshot_def ch_setConn_def ch_finish_def ss_setConn_def Let_def
        split: prod.splits option.splits)
qed

text \<open>
  C38: A session that is open when the client hangs up is cleaned up: from any reachable state
  in which the environment session was recorded and the requests have not ended, the teardown
  closes that session, and whenever it finishes it has called its release.
\<close>

theorem hangup_releases:
  assumes "channel_start c" and "ch_step\<^sup>*\<^sup>* c d" and "ch_td d = TdLoop"
    and "ss_conn (ch_st d) = Some k" and "ch_step\<^sup>*\<^sup>* (ch_hangup d) e" and "ch_td e = TdDone"
  shows "\<exists>r. opened_of (ch_effects e) = [(k, r)] \<and> closed_of (ch_effects e) = [k] \<and>
    released_of (ch_effects e) = [r]"
proof -
  have inv: "ch_inv d" using assms(1,2) by (rule chan.inv_reachable)
  have "ch_step d (ch_hangup d)" using assms(3) by (rule ch_step.hangup)
  with inv assms(5) have inve: "ch_inv e"
    by (meson chan.inv_step chan.inv_steps)
  obtain r where r: "ss_release (ch_st d) = Some r"
    using inv assms(4) by (auto simp: ch_inv_def Let_def split: run_state.splits)
  then have "\<exists>s. ch_td (ch_hangup d) = TdWait s (Some r)"
    by (simp add: ch_hangup_def)
  moreover have "k \<in> set (closed_of (ch_effects (ch_hangup d)))"
    using assms(4) by (simp add: ch_hangup_def)
  ultimately have "r \<in> set (released_of (ch_effects e)) \<and> k \<in> set (closed_of (ch_effects e))"
    using hangup_pending [OF assms(5)] assms(6) by fastforce
  with inve assms(6) show ?thesis by (auto simp: ch_inv_def Let_def)
qed

lemma hangup_releases_witness:
  "released_of (ch_effects (ch_finish (Some 2) (ch_hangup ch3))) = [2]"
proof -
  have h: "ch_td ch3 = TdLoop" "ss_conn (ch_st ch3) = Some 1" by (simp_all add: ch_eval)
  have w: "ch_td (ch_hangup ch3) = TdWait True (Some 2)" by (simp add: ch_hangup_def ch_eval)
  have "ch_step\<^sup>*\<^sup>* (ch_hangup ch3) (ch_finish (Some 2) (ch_hangup ch3))"
    using ch_step.finish [OF w] by blast
  moreover have "ch_td (ch_finish (Some 2) (ch_hangup ch3)) = TdDone"
    by (simp add: ch_finish_def)
  ultimately have "\<exists>r. opened_of (ch_effects (ch_finish (Some 2) (ch_hangup ch3))) = [(1, r)] \<and>
      released_of (ch_effects (ch_finish (Some 2) (ch_hangup ch3))) = [r]"
    using hangup_releases [OF ch0_start ch0_ch3 h] by blast
  then show ?thesis by (simp add: ch_finish_def ch_hangup_def ch_eval)
qed

text \<open>
  Teardown can miss a session. If the client hangs up while \<open>OpenSession\<close> is about to
  return, the snapshot of \<open>teardown\<close> sees no session; a session that is recorded afterwards
  is then neither closed nor released, and the channel is gone: nothing in the rest of the
  run can release it.
\<close>

theorem teardown_race:
  "\<exists>d. ch_step\<^sup>*\<^sup>* ch0 d \<and> ch_td d = TdDone \<and> ch_run d = RunDone \<and>
     opened_of (ch_effects d) = [(1, 2)] \<and> ss_release (ch_st d) = Some 2 \<and>
     (\<forall>e. ch_step\<^sup>*\<^sup>* d e \<longrightarrow> closed_of (ch_effects e) = [] \<and> released_of (ch_effects e) = [])"
proof -
  let ?a = "ch_hangup ch2"
  let ?b = "ch_setConn 1 2 ?a"
  let ?c = "ch_finish None ?b"
  let ?d = "emit (sendExit (pump_status \<lparr>ex_Code = 0, ex_Signal = []\<rparr> None)) (?c\<lparr>ch_run := RunDone\<rparr>)"
  have "ch_step ch2 ?a" by (rule ch_step.hangup) (simp add: ch_eval)
  moreover have "ch_step ?a ?b"
    by (rule ch_step.set_conn) (simp add: ch_hangup_def ch_eval)
  moreover have "ch_step ?b ?c"
    by (rule ch_step.finish [where started = True]) (simp add: ch_hangup_def ch_eval)
  moreover have "ch_step ?c ?d"
    by (rule ch_step.pump_end [where conn = 1])
      (simp add: ch_finish_def ch_setConn_def ss_setConn_def)
  ultimately have reach: "ch_step\<^sup>*\<^sup>* ch0 ?d"
    using ch0_ch2 by (meson rtranclp.rtrancl_into_rtrancl)
  have stuck: "ch_td e = TdDone \<and> ch_run e = RunDone \<and> closed_of (ch_effects e) = [] \<and>
      released_of (ch_effects e) = []" if "ch_step\<^sup>*\<^sup>* ?d e" for e
    using that
  proof (induction rule: rtranclp_induct)
    case base
    show ?case by (simp add: ch_finish_def ch_hangup_def ch_eval sendExit_def)
  next
    case (step e f)
    from step(2,3) show ?case by (cases rule: ch_step.cases) auto
  qed
  have "ch_td ?d = TdDone" "ch_run ?d = RunDone" "opened_of (ch_effects ?d) = [(1, 2)]"
    "ss_release (ch_st ?d) = Some 2"
    by (simp_all add: ch_finish_def ch_hangup_def ch_eval sendExit_def)
  with reach stuck show ?thesis by blast
qed

lemma teardown_race_witness:
  "\<exists>d. ch_step\<^sup>*\<^sup>* ch0 d \<and> ch_td d = TdDone \<and> opened_of (ch_effects d) = [(1, 2)] \<and>
     closed_of (ch_effects d) = [] \<and> released_of (ch_effects d) = []"
  using teardown_race by blast

text \<open>
  What the client sees at the end. A status below 0 becomes 255 and other statuses are sent
  modulo 2^32; a signal goes out without its SIG prefix and hides the status; a session whose
  wait failed never looks successful; and a window dimension is clamped, not wrapped.
\<close>

theorem exit_and_window:
  "exit_message s =
     (if ex_Signal s = [] then ExitStatusMsg (if ex_Code s < 0 then 255 else word_of_int (ex_Code s))
      else ExitSignal (if HasPrefix (ex_Signal s) ''SIG'' then drop 3 (ex_Signal s) else ex_Signal s)) \<and>
   (pump_status s (Some e) \<noteq> \<lparr>ex_Code = 0, ex_Signal = []\<rparr>) \<and>
   pump_status s None = s \<and>
   unat (clampDimension v) = min (unat v) 65535"
proof -
  have "unat (clampDimension v) = min (unat v) 65535"
  proof (cases "v > 0xffff")
    case True
    then have "65535 < unat v" by (simp add: word_less_nat_alt)
    with True show ?thesis by (simp add: clampDimension_def)
  next
    case False
    then have "unat v \<le> 65535" by (simp add: word_less_nat_alt not_less)
    with False show ?thesis
      by (simp add: clampDimension_def unsigned_ucast_eq take_bit_nat_eq_self_iff)
  qed
  moreover have "pump_status s (Some e) \<noteq> \<lparr>ex_Code = 0, ex_Signal = []\<rparr>"
    by (cases s) (simp add: pump_status_def)
  ultimately show ?thesis
    by (simp add: exit_message_def TrimPrefix_def pump_status_def numeral_3_eq_3)
qed

end
