(* ===== verification/GatewayBackend.thy ===== *)
theory GatewayBackend
  imports Calls Sessions Redaction SshSession
begin

text \<open>
  The gateway core (\<open>core/gateway/backend.go\<close>): choosing the environment a client meant,
  \<open>OpenSession\<close>, which joins the session registry and the lifecycle manager, the release
  function it hands to the SSH layer, and \<open>userFacing\<close>, which turns an internal error into
  text for a client's terminal. The facts about sessions rest on the interpretation \<open>sess\<close>,
  those about error texts on \<open>red\<close>.
\<close>

section \<open>Choosing the environment\<close>

definition DefaultEnvironmentName :: string where
  "DefaultEnvironmentName = ''codespace''"

definition name_char :: "char \<Rightarrow> bool" where
  "name_char c \<longleftrightarrow> (let n = (of_char c :: nat) in
     (97 \<le> n \<and> n \<le> 122) \<or> (65 \<le> n \<and> n \<le> 90) \<or> (48 \<le> n \<and> n \<le> 57) \<or>
     c \<in> {CHR ''-'', CHR ''_'', CHR ''.'', CHR '' ''})"

definition validEnvironmentName :: "string \<Rightarrow> goerr option" where
  "validEnvironmentName name =
    (if length name > 200 then Some (Errorf ''environment name is too long'')
     else if list_all name_char name then None
     else Some (Errorf (''environment name '' @ quote name @ '' contains unsupported characters'')))"

definition querying_notice :: string where
  "querying_notice = (utf8 [0x6B63, 0x5728, 0x67E5, 0x8BE2, 0x4F60, 0x8D26, 0x53F7, 0x4E0B, 0x7684] @ '' codespace'' @ utf8 [0x2026])"

definition no_codespace_text :: string where
  "no_codespace_text = (utf8 [0x8FD9, 0x4E2A, 0x8D26, 0x53F7, 0x8FD8, 0x6CA1, 0x6709] @ '' codespace'' @ utf8 [0xFF1A, 0x5148, 0x53BB] @ '' github.com/codespaces '' @ utf8 [0x5EFA, 0x4E00, 0x4E2A, 0xFF0C, 0x6216, 0x8005, 0x8BBE, 0x7F6E] @ '' github.create.repository '' @ utf8 [0x8BA9] @ '' gateway '' @ utf8 [0x81EA, 0x52A8, 0x521B, 0x5EFA])"

definition many_text :: "string list \<Rightarrow> string" where
  "many_text names = (utf8 [0x6709, 0x591A, 0x4E2A] @ '' codespace'' @ utf8 [0xFF08]) @ Join names '', '' @ (utf8 [0xFF09, 0xFF1A, 0x8BF7, 0x8BBE, 0x7F6E] @ '' github.codespace'' @ utf8 [0xFF0C, 0x6216, 0x8005, 0x7528] @ '' root+<'' @ utf8 [0x540D, 0x5B57] @ ''>@gateway '' @ utf8 [0x8FDE, 0x63A5])"

definition list_failed :: "goerr \<Rightarrow> goerr" where
  "list_failed e = Wrapf ((utf8 [0x6CA1, 0x6709, 0x914D, 0x7F6E, 0x76EE, 0x6807] @ '' codespace'' @ utf8 [0xFF0C, 0x5217, 0x4E3E, 0x4E5F, 0x5931, 0x8D25, 0x4E86, 0xFF1A])) e []"

definition ResolveEnvironment ::
  "'w prov \<Rightarrow> ctx \<Rightarrow> string \<Rightarrow> nat option \<Rightarrow> manager \<Rightarrow> 'w \<Rightarrow> (goerr + string) \<times> manager \<times> 'w" where
  "ResolveEnvironment P c hint0 fn m w =
    (let hint = TrimSpace hint0
     in if hint \<noteq> [] then
          (case validEnvironmentName hint of
             Some e \<Rightarrow> (Inl e, m, w)
           | None \<Rightarrow> (Inr hint, m, w))
        else if w_DefaultEnvironment P \<noteq> [] then (Inr (w_DefaultEnvironment P), m, w)
        else
          (let m1 = deliver fn querying_notice m
           in (case w_List P c w of
                 (Inl e, w1) \<Rightarrow> (Inl (list_failed e), m1, w1)
               | (Inr envs, w1) \<Rightarrow>
                   (case envs of
                      [e] \<Rightarrow> (Inr (env_ID e), m1, w1)
                    | [] \<Rightarrow>
                        if cap_Create (w_Capabilities P) then (Inr DefaultEnvironmentName, m1, w1)
                        else (Inl (Errorf no_codespace_text), m1, w1)
                    | _ \<Rightarrow> (Inl (Errorf (many_text (map env_ID envs))), m1, w1)))))"

section \<open>Errors for the client\<close>

definition userFacing :: "string \<Rightarrow> redactor option \<Rightarrow> string \<Rightarrow> goerr \<Rightarrow> goerr" where
  "userFacing provider rd handle err =
    (let msg = Redact rd (err_text err)
     in if errors_Is err ErrAuth then
          Errorf ((''gateway '' @ utf8 [0x65E0, 0x6CD5, 0x901A, 0x8FC7] @ '' '') @ provider @ ('' '' @ utf8 [0x8BA4, 0x8BC1, 0xFF1A]) @ msg)
        else if errors_Is err ErrNotFound then
          Errorf (''codespace '' @ quote handle @ ('' '' @ utf8 [0x4E0D, 0x5B58, 0x5728, 0xFF0C, 0x4E5F, 0x65E0, 0x6CD5, 0x521B, 0x5EFA, 0xFF1A]) @ msg)
        else if errors_Is err DeadlineExceeded then
          Errorf ((utf8 [0x51C6, 0x5907] @ '' codespace '') @ quote handle @ ('' '' @ utf8 [0x8D85, 0x65F6, 0xFF1A]) @ msg)
        else if errors_Is err Canceled then
          Errorf ((utf8 [0x51C6, 0x5907] @ '' codespace '') @ quote handle @ ('' '' @ utf8 [0x88AB, 0x53D6, 0x6D88, 0xFF1A]) @ msg)
        else if errors_Is err ErrTooManySessions \<or> errors_Is err ErrTooManySessionsForEnv then err
        else Errorf msg)"

section \<open>OpenSession and release\<close>

text \<open>
  The gateway's mutable parts. The flag \<open>released\<close> of each release function is membership of
  its session in \<open>gw_released\<close>.
\<close>

record gateway =
  gw_life :: manager
  gw_sess :: session_mgr
  gw_redact :: "redactor option"
  gw_released :: "nat list"

record open_result =
  ores_Conn :: nat
  ores_Environment :: string
  ores_Session :: nat
  ores_Handle :: string

definition preparing_notice :: string where
  "preparing_notice = (utf8 [0x6B63, 0x5728, 0x51C6, 0x5907] @ '' codespace'' @ utf8 [0x2026])"

definition session_kind :: "connect_request \<Rightarrow> string" where
  "session_kind r =
    (if req_Subsystem r \<noteq> [] then ''subsystem:'' @ req_Subsystem r
     else if req_Command r \<noteq> [] then ''exec'' else ''shell'')"

definition session_info :: "open_request \<Rightarrow> string \<Rightarrow> info" where
  "session_info req handle =
    \<lparr>i_ID = [], i_User = or_User req, i_Environment = handle, i_RemoteAddr = or_RemoteAddr req,
     i_ClientVersion = or_ClientVersion req, i_StartedAt = None, i_PTY = req_PTY (or_Connect req),
     i_Kind = session_kind (or_Connect req), i_Phase = ''preparing''\<rparr>"

definition OpenSession ::
  "'w prov \<Rightarrow> ctx \<Rightarrow> open_request \<Rightarrow> gateway \<Rightarrow> 'w \<Rightarrow> ((goerr + open_result) \<times> gateway \<times> 'w) option" where
  "OpenSession P c req g w =
    (let fn = req_Progress (or_Connect req);
         m0 = deliver fn preparing_notice (gw_life g)
     in (case ResolveEnvironment P c (or_EnvironmentHint req) fn m0 w of
           (Inl e, m1, w1) \<Rightarrow> Some (Inl e, g\<lparr>gw_life := m1\<rparr>, w1)
         | (Inr handle, m1, w1) \<Rightarrow>
             (case Open (session_info req handle) (w_now P w1) (gw_sess g) of
                (Inl e, s1) \<Rightarrow> Some (Inl e, g\<lparr>gw_life := m1, gw_sess := s1\<rparr>, w1)
              | (Inr r, s1) \<Rightarrow>
                  (case Connect_env P c handle (or_Connect req) m1 w1 of
                     None \<Rightarrow> None
                   | Some (Inl e, env, m2, w2) \<Rightarrow>
                       Some (Inl (userFacing (w_Name P) (gw_redact g) handle e),
                         g\<lparr>gw_life := m2, gw_sess := Close (Some r) s1\<rparr>, w2)
                   | Some (Inr conn, env, m2, w2) \<Rightarrow>
                       Some (Inr \<lparr>ores_Conn = conn, ores_Environment = env_ID env, ores_Session = r,
                           ores_Handle = handle\<rparr>,
                         g\<lparr>gw_life := OnSessionOpened (w_now P w2) handle m2,
                           gw_sess := session_SetPhase r ''connected'' s1\<rparr>, w2)))))"

text \<open>
  The release function. The result says whether \<open>OnSessionClosed\<close> started the goroutine that
  stops the environment.
\<close>

definition Release :: "'w prov \<Rightarrow> open_result \<Rightarrow> gateway \<Rightarrow> 'w \<Rightarrow> bool \<times> gateway" where
  "Release P res g w =
    (if ores_Session res \<in> set (gw_released g) then (False, g)
     else
       (let s1 = Close (Some (ores_Session res)) (gw_sess g);
            remaining = CountFor s1 (ores_Handle res);
            (stop, m1) = OnSessionClosed P (w_now P w) (ores_Handle res) remaining (gw_life g)
        in (stop, g\<lparr>gw_released := ores_Session res # gw_released g, gw_sess := s1, gw_life := m1\<rparr>)))"

section \<open>Facts\<close>

lemma SetPhase_facts:
  "CountFor (session_SetPhase r p m) e = CountFor m e"
  "Total (session_SetPhase r p m) = Total m"
  "live (session_SetPhase r p m) x = live m x"
  "r < length (objs m) \<Longrightarrow> obj_env (objs (session_SetPhase r p m) ! x) = obj_env (objs m ! x)"
  "sess_inv m \<Longrightarrow> sess_inv (session_SetPhase r p m)"
proof -
  show "CountFor (session_SetPhase r p m) e = CountFor m e" "Total (session_SetPhase r p m) = Total m"
    by (simp_all add: session_SetPhase_def CountFor_def Total_def)
  show "live (session_SetPhase r p m) x = live m x"
    by (cases "x = r") (auto simp: session_SetPhase_def live_def)
  show "r < length (objs m) \<Longrightarrow> obj_env (objs (session_SetPhase r p m) ! x) = obj_env (objs m ! x)"
    by (simp add: session_SetPhase_def obj_env_def nth_list_update)
  show "sess_inv m \<Longrightarrow> sess_inv (session_SetPhase r p m)"
    unfolding session_SetPhase_def by (intro update_info_inv) auto
qed

lemma Close_total:
  assumes "sess_inv m" and "live m r"
  shows "Total (Close (Some r) m) = Total m - 1"
proof -
  have "int (length (filter (\<lambda>ob. \<not> so_closed ob) (objs (Close (Some r) m)))) =
      int (length (filter (\<lambda>ob. \<not> so_closed ob) (objs m))) - 1"
    using assms(2) unfolding Close_live(1) [OF assms(2)] live_def
    by (subst length_filter_update) auto
  then show ?thesis
    using sess_invD(6) [OF assms(1)] sess_invD(6) [OF Close_inv [OF assms(1), of "Some r"]]
    by (simp add: Total_def)
qed

lemma Open_total:
  assumes "sess_inv m" and "room m" and "Open i now m = (Inr r, m')"
  shows "Total m' = Total m + 1"
  using sess_invD(6) [OF assms(1)] sess_invD(6) [OF Open_inv [OF assms]] Open_InrD(2) [OF assms(3)]
    Open_InrD(1) [OF assms(3)] Open_live [OF assms(3)]
  by (auto simp: Total_def live_def)

lemma OpenSessionE:
  assumes "OpenSession P c req g w = Some (r, g', w')"
  obtains (resolve) e m1 where "r = Inl e" "g' = g\<lparr>gw_life := m1\<rparr>"
    | (full) e m1 where "r = Inl e" "g' = g\<lparr>gw_life := m1\<rparr>"
    | (failed) e env m1 w1 m2 k s1 handle where
        "Open (session_info req handle) (w_now P w1) (gw_sess g) = (Inr k, s1)"
        "Connect_env P c handle (or_Connect req) m1 w1 = Some (Inl e, env, m2, w')"
        "r = Inl (userFacing (w_Name P) (gw_redact g) handle e)"
        "g' = g\<lparr>gw_life := m2, gw_sess := Close (Some k) s1\<rparr>"
    | (opened) conn env m1 w1 m2 k s1 handle where
        "Open (session_info req handle) (w_now P w1) (gw_sess g) = (Inr k, s1)"
        "Connect_env P c handle (or_Connect req) m1 w1 = Some (Inr conn, env, m2, w')"
        "r = Inr \<lparr>ores_Conn = conn, ores_Environment = env_ID env, ores_Session = k, ores_Handle = handle\<rparr>"
        "g' = g\<lparr>gw_life := OnSessionOpened (w_now P w') handle m2,
           gw_sess := session_SetPhase k ''connected'' s1\<rparr>"
proof -
  let ?m0 = "deliver (req_Progress (or_Connect req)) preparing_notice (gw_life g)"
  obtain rr m1 w1 where R: "ResolveEnvironment P c (or_EnvironmentHint req)
      (req_Progress (or_Connect req)) ?m0 w = (rr, m1, w1)" by (metis prod_cases3)
  show thesis
  proof (cases rr)
    case (Inl e)
    with R assms show thesis by (intro resolve) (auto simp: OpenSession_def Let_def)
  next
    case (Inr handle)
    obtain k s1 where O: "Open (session_info req handle) (w_now P w1) (gw_sess g) = (k, s1)"
      by (cases "Open (session_info req handle) (w_now P w1) (gw_sess g)")
    show thesis
    proof (cases k)
      case k: (Inl e)
      with O have "s1 = gw_sess g" by (auto dest: Open_InlD)
      with R Inr O k assms show thesis by (intro full) (auto simp: OpenSession_def Let_def)
    next
      case k: (Inr i)
      obtain x env m2 w2 where C: "Connect_env P c handle (or_Connect req) m1 w1 = Some (x, env, m2, w2)"
        using assms R Inr O k by (auto simp: OpenSession_def Let_def split: option.splits)
      show thesis
      proof (cases x)
        case x: (Inl e)
        with assms R Inr O k C show thesis
          by (intro failed [of handle w1 i s1 m1 e env m2]) (auto simp: OpenSession_def Let_def)
      next
        case x: (Inr conn)
        with assms R Inr O k C show thesis
          by (intro opened [of handle w1 i s1 m1 conn env m2]) (auto simp: OpenSession_def Let_def)
      qed
    qed
  qed
qed

text \<open>An attempt that fails leaves no session behind.\<close>

lemma OpenSession_failed:
  assumes "OpenSession P c req g w = Some (Inl e, g', w')" and "sess_inv (gw_sess g)" and "room (gw_sess g)"
  shows "sess_inv (gw_sess g') \<and> CountFor (gw_sess g') h = CountFor (gw_sess g) h \<and>
    Total (gw_sess g') = Total (gw_sess g)"
  using assms(1)
proof (cases rule: OpenSessionE)
  case (failed e env m1 w1 m2 k s1 handle)
  have inv: "sess_inv s1" using Open_inv [OF assms(2,3) failed(1)] .
  have "live s1 k" using Open_live [OF failed(1)] by simp
  with inv failed sess.open_close_count [OF assms(2,3) failed(1)] Open_total [OF assms(2,3) failed(1)]
  show ?thesis by (simp add: Close_total Close_inv)
qed (use assms(2) in simp_all)

text \<open>A session that was opened counts once for its environment, and is live.\<close>

lemma OpenSession_opened:
  assumes "OpenSession P c req g w = Some (Inr res, g', w')"
    and "sess_inv (gw_sess g)" and "room (gw_sess g)"
  shows "sess_inv (gw_sess g') \<and>
    CountFor (gw_sess g') h = CountFor (gw_sess g) h + (if h = ores_Handle res then 1 else 0) \<and>
    Total (gw_sess g') = Total (gw_sess g) + 1 \<and>
    live (gw_sess g') (ores_Session res) \<and>
    obj_env (objs (gw_sess g') ! ores_Session res) = ores_Handle res \<and>
    \<not> live (gw_sess g) (ores_Session res) \<and> gw_released g' = gw_released g \<and>
    es_phase (state_of (ores_Handle res) (gw_life g')) = PhaseConnected"
  using assms(1)
proof (cases rule: OpenSessionE)
  case (opened conn env m1 w1 m2 k s1 handle)
  have k: "k < length (objs s1)" using Open_InrD(1,2) [OF opened(1)] by simp
  have "i_Environment (session_info req handle) = handle" by (simp add: session_info_def)
  then show ?thesis
    using opened sess.open_count [OF assms(2) opened(1), of h] sess.open_live [OF opened(1)]
      sess.open_new [OF opened(1)] sess.open_env [OF opened(1)]
      sess.open_inv [OF assms(2,3) opened(1)] Open_total [OF assms(2,3) opened(1)] k
    by (simp add: SetPhase_facts OnSessionOpened_def)
qed simp_all

lemma Release_again:
  "Release P res (snd (Release P res g w)) w' = (False, snd (Release P res g w))"
  by (auto simp: Release_def Let_def split: prod.splits)

section \<open>Properties\<close>

text \<open>A gateway and a request for the witnesses.\<close>

definition opts2 :: options where
  "opts2 = \<lparr>AutoCreate = False, StartTimeout = 0, CreateTimeout = 0, ConnectTimeout = 0,
     PollInterval = 0, ConnectRetries = 0, StopOnLastDisconnect = True\<rparr>"

definition gateway0 :: gateway where
  "gateway0 = \<lparr>gw_life = New_manager opts2, gw_sess = NewManager 5 5,
     gw_redact = Add (Some NewRedactor) [''ghp_secret''], gw_released = []\<rparr>"

definition open0 :: open_request where
  "open0 = \<lparr>or_User = ''root'', or_EnvironmentHint = ''box'', or_RemoteAddr = ''a'',
     or_ClientVersion = ''v'', or_KeyFingerprint = [],
     or_Connect = \<lparr>req_PTY = True, req_Term = ''xterm'', req_Rows = 24, req_Cols = 80, req_Modes = [],
       req_Command = [], req_Subsystem = [], req_Env = [], req_Progress = Some 0\<rparr>\<rparr>"

definition ctx_bg :: ctx where
  "ctx_bg = \<lparr>ctx_deadline = None, ctx_cancel = None, ctx_signal = 0\<rparr>"

text \<open>A provider whose environment runs and whose connections succeed or fail with \<open>e\<close>.\<close>

definition running_prov :: "goerr option \<Rightarrow> int prov" where
  "running_prov e = \<lparr>w_now = (\<lambda>w. w), w_err = (\<lambda>c w. None), w_sel = (\<lambda>c t w. (None, max t w)),
     w_Name = ''github'',
     w_Capabilities = \<lparr>cap_Create = False, cap_Stop = True, cap_Subsystems = True, cap_Signals = False,
       cap_Resize = True, cap_ProviderManagedIdle = True, cap_IdleMechanism = [],
       cap_SSHActivityAttribution = IdleAttributionUnverified, cap_Notes = []\<rparr>,
     w_DefaultEnvironment = [], w_List = (\<lambda>c w. (Inr [], w)),
     w_Get = (\<lambda>c h w. (Inr (no_env\<lparr>env_ID := h, env_State := StateRunning\<rparr>), w)),
     w_Create = (\<lambda>c s w. (Inl (Sentinel ErrNotSupported), w)),
     w_Start = (\<lambda>c h w. (None, w)), w_Stop = (\<lambda>c h w. (None, w)),
     w_Connect = (\<lambda>c h r w. (case e of None \<Rightarrow> (Inr 7, w) | Some x \<Rightarrow> (Inl x, w)))\<rparr>"

lemma running_prov_fields [simp]:
  "w_now (running_prov e) w = w" "w_err (running_prov e) c w = None"
  "w_Name (running_prov e) = ''github''"
  "w_Connect (running_prov e) c h r w = (case e of None \<Rightarrow> (Inr 7, w) | Some x \<Rightarrow> (Inl x, w))"
  "cap_Stop (w_Capabilities (running_prov e))"
  by (simp_all add: running_prov_def)

lemma running_Ensure:
  assumes "h \<noteq> []" and "map_of (m_ops m) h = None"
  shows "\<exists>m'. Ensure_alone (running_prov e) c h fn m w =
    Some (Inr (no_env\<lparr>env_ID := h, env_State := StateRunning\<rparr>), m', w)"
proof -
  have "ensure (running_prov e) oc h m1 w = Some (Inr (no_env\<lparr>env_ID := h, env_State := StateRunning\<rparr>),
      setPhase w h PhaseRunning ''environment already running''
        (observe w (no_env\<lparr>env_ID := h, env_State := StateRunning\<rparr>)
          (resolve w h (no_env\<lparr>env_ID := h, env_State := StateRunning\<rparr>) m1)), w)" for oc m1
    by (simp add: ensure_def ensure_lookup_def manager_get_def running_prov_def numeral_3_eq_3
        ensure_found_def Connectable_def)
  then show ?thesis
    using assms by (simp add: Ensure_alone_def runEnsure_def ensure_enter_def Let_def split: prod.split)
qed

lemma running_Connect:
  assumes "h \<noteq> []" and "map_of (m_ops m) h = None"
    and perm: "case e of None \<Rightarrow> True | Some x \<Rightarrow> \<not> IsTemporary x"
  shows "\<exists>m'. Connect_env (running_prov e) c h req m w =
    Some (case e of None \<Rightarrow> Inr 7
        | Some x \<Rightarrow> Inl (Wrapf (''connect to '' @ h @ '': '') x []),
      no_env\<lparr>env_ID := h, env_State := StateRunning\<rparr>, m', w)"
proof -
  obtain m1 where E: "Ensure_alone (running_prov e) c h (req_Progress req) m w =
    Some (Inr (no_env\<lparr>env_ID := h, env_State := StateRunning\<rparr>), m1, w)"
    using running_Ensure [OF assms(1,2)] by blast
  show ?thesis using perm E
    by (cases e) (simp_all add: Connect_env_def connect_from.simps connect_failed_def no_env_def)
qed

lemma box_name: "TrimSpace ''box'' = ''box''" "validEnvironmentName ''box'' = None"
proof -
  show "TrimSpace ''box'' = ''box''"
    by (intro TrimSpace_trimmed trimmed_plain) (simp_all add: plain_def)
  show "validEnvironmentName ''box'' = None"
    by (simp add: validEnvironmentName_def name_char_def Let_def)
qed

lemma gateway0_facts:
  "sess_inv (gw_sess gateway0)" "room (gw_sess gateway0)" "gw_released gateway0 = []"
  "m_ops (gw_life gateway0) = []"
  by (simp_all add: gateway0_def room_def) (simp_all add: NewManager_def New_manager_def)

lemma open0_succeeds:
  "\<exists>res g'. OpenSession (running_prov None) ctx_bg open0 gateway0 0 = Some (Inr res, g', 0) \<and>
     ores_Handle res = ''box''"
proof -
  let ?fn = "req_Progress (or_Connect open0)"
  let ?m = "deliver ?fn preparing_notice (gw_life gateway0)"
  have "map_of (m_ops ?m) ''box'' = None" by (simp add: gateway0_facts)
  then obtain m' where C: "Connect_env (running_prov None) ctx_bg ''box'' (or_Connect open0) ?m 0 =
      Some (Inr 7, no_env\<lparr>env_ID := ''box'', env_State := StateRunning\<rparr>, m', 0)"
    using running_Connect [of "''box''" ?m None ctx_bg "or_Connect open0" 0] by auto
  have h: "or_EnvironmentHint open0 = ''box''" by (simp add: open0_def)
  have O: "\<exists>k s1. Open (session_info open0 ''box'') 0 (gw_sess gateway0) = (Inr k, s1)"
    by (simp add: Open_def gateway0_def NewManager_def Let_def)
  with C O show ?thesis
    by (auto simp: OpenSession_def ResolveEnvironment_def h box_name Let_def)
qed

text \<open>
  C10: Sessions are accounted for. If the registry is in order, an \<open>OpenSession\<close> that fails,
  at whatever point, leaves every count as it was, and one that succeeds adds exactly one
  live session, to the environment it reports, whose phase is then CONNECTED.
\<close>

theorem open_session_accounting:
  assumes "OpenSession P c req g w = Some (r, g', w')"
    and "sess_inv (gw_sess g)" and "room (gw_sess g)"
  shows "sess_inv (gw_sess g') \<and>
    (case r of
       Inl e \<Rightarrow> CountFor (gw_sess g') h = CountFor (gw_sess g) h \<and>
         Total (gw_sess g') = Total (gw_sess g)
     | Inr res \<Rightarrow> CountFor (gw_sess g') h = CountFor (gw_sess g) h + (if h = ores_Handle res then 1 else 0) \<and>
         Total (gw_sess g') = Total (gw_sess g) + 1 \<and>
         live (gw_sess g') (ores_Session res) \<and> \<not> live (gw_sess g) (ores_Session res) \<and>
         es_phase (state_of (ores_Handle res) (gw_life g')) = PhaseConnected)"
proof (cases r)
  case (Inl e)
  with assms(1) OpenSession_failed [OF _ assms(2,3)] show ?thesis by simp
next
  case (Inr res)
  with assms(1) OpenSession_opened [OF _ assms(2,3), of P c req w res g' w' h] show ?thesis by simp
qed

lemma open_session_accounting_witness:
  "\<exists>res g'. OpenSession (running_prov None) ctx_bg open0 gateway0 0 = Some (Inr res, g', 0) \<and>
     CountFor (gw_sess g') ''box'' = CountFor (gw_sess gateway0) ''box'' + 1"
proof -
  obtain res g' where o: "OpenSession (running_prov None) ctx_bg open0 gateway0 0 = Some (Inr res, g', 0)"
    "ores_Handle res = ''box''" using open0_succeeds by blast
  from open_session_accounting [OF o(1) gateway0_facts(1,2), of "''box''"] o show ?thesis by simp
qed

text \<open>
  C35: Releasing undoes opening. Calling the release of a successful \<open>OpenSession\<close> brings every
  count back, starts the stopping goroutine only when no other session of the environment was
  there and the option and the provider say so, and calling it again changes nothing.
\<close>

theorem release_undoes_open:
  assumes "OpenSession P c req g w = Some (Inr res, g1, w1)"
    and "sess_inv (gw_sess g)" and "room (gw_sess g)"
    and "\<forall>x\<in>set (gw_released g). x < length (objs (gw_sess g))"
  defines "g2 \<equiv> snd (Release P res g1 w1)"
  shows "sess_inv (gw_sess g2) \<and> CountFor (gw_sess g2) h = CountFor (gw_sess g) h \<and>
    Total (gw_sess g2) = Total (gw_sess g) \<and>
    (fst (Release P res g1 w1) \<longleftrightarrow> CountFor (gw_sess g) (ores_Handle res) = 0 \<and>
      StopOnLastDisconnect (m_opts (gw_life g1)) \<and> cap_Stop (w_Capabilities P)) \<and>
    Release P res g2 w2 = (False, g2)"
proof -
  note O = OpenSession_opened [OF assms(1-3)]
  obtain i now s1 where op: "Open i now (gw_sess g) = (Inr (ores_Session res), s1)"
    using assms(1) by (cases rule: OpenSessionE) auto
  have fresh: "ores_Session res \<notin> set (gw_released g1)"
    using assms(4) O Open_InrD(1) [OF op] by auto
  let ?s2 = "Close (Some (ores_Session res)) (gw_sess g1)"
  have inv2: "sess_inv ?s2" using O Close_inv by blast
  have cnt: "CountFor ?s2 h = CountFor (gw_sess g) h" for h
    using Close_count [of "gw_sess g1" "ores_Session res" h]
      OpenSession_opened [OF assms(1-3), of h] by simp
  have live1: "live (gw_sess g1) (ores_Session res)" using O by blast
  have "Total ?s2 = Total (gw_sess g)"
    using O live1 by (simp add: Close_total)
  moreover have pos: "0 \<le> CountFor (gw_sess g) (ores_Handle res)"
    using sess_invD(7) [OF assms(2)] by (simp add: CountFor_def)
  moreover have "fst (Release P res g1 w1) \<longleftrightarrow>
      CountFor (gw_sess g) (ores_Handle res) \<le> 0 \<and>
      StopOnLastDisconnect (m_opts (gw_life g1)) \<and> cap_Stop (w_Capabilities P)"
    using fresh cnt by (auto simp: Release_def OnSessionClosed_def Let_def split: prod.splits)
  moreover have "gw_sess g2 = ?s2"
    using fresh by (simp add: g2_def Release_def Let_def split: prod.splits)
  ultimately show ?thesis
    using inv2 cnt Release_again [of P res g1 w1 w2] g2_def by auto
qed

lemma release_undoes_open_witness:
  "\<exists>res g1. OpenSession (running_prov None) ctx_bg open0 gateway0 0 = Some (Inr res, g1, 0) \<and>
     CountFor (gw_sess (snd (Release (running_prov None) res g1 0))) ''box'' =
       CountFor (gw_sess gateway0) ''box''"
proof -
  obtain res g' where o: "OpenSession (running_prov None) ctx_bg open0 gateway0 0 = Some (Inr res, g', 0)"
    using open0_succeeds by blast
  from release_undoes_open [OF o gateway0_facts(1,2), of "''box''" 0] o show ?thesis
    by (auto simp: gateway0_facts)
qed

lemma userFacing_parts:
  assumes "\<not> errors_Is err ErrTooManySessions" and "\<not> errors_Is err ErrTooManySessionsForEnv"
  obtains pre where "pre = [] \<or> (\<exists>q. pre = q @ [char_of (0x9A::nat)])"
    and "\<And>err'. (\<forall>t. errors_Is err' t = errors_Is err t) \<Longrightarrow>
      err_text (userFacing p rd h err') = pre @ Redact rd (err_text err')"
proof -
  consider "errors_Is err ErrAuth" | "\<not> errors_Is err ErrAuth" "errors_Is err ErrNotFound"
    | "\<not> errors_Is err ErrAuth" "\<not> errors_Is err ErrNotFound" "errors_Is err DeadlineExceeded"
    | "\<not> errors_Is err ErrAuth" "\<not> errors_Is err ErrNotFound" "\<not> errors_Is err DeadlineExceeded"
      "errors_Is err Canceled"
    | "\<not> errors_Is err ErrAuth" "\<not> errors_Is err ErrNotFound" "\<not> errors_Is err DeadlineExceeded"
      "\<not> errors_Is err Canceled" by blast
  then show thesis
  proof cases
    case 1
    then show thesis
      by (intro that [of "(''gateway '' @ utf8 [0x65E0, 0x6CD5, 0x901A, 0x8FC7] @ '' '') @ p @ ('' '' @ utf8 [0x8BA4, 0x8BC1, 0xFF1A])"])
        (simp_all add: userFacing_def utf8_def utf8_rune_def)
  next
    case 2
    then show thesis
      by (intro that [of "''codespace '' @ quote h @ ('' '' @ utf8 [0x4E0D, 0x5B58, 0x5728, 0xFF0C, 0x4E5F, 0x65E0, 0x6CD5, 0x521B, 0x5EFA, 0xFF1A])"])
        (simp_all add: userFacing_def utf8_def utf8_rune_def)
  next
    case 3
    then show thesis
      by (intro that [of "(utf8 [0x51C6, 0x5907] @ '' codespace '') @ quote h @ ('' '' @ utf8 [0x8D85, 0x65F6, 0xFF1A])"])
        (simp_all add: userFacing_def utf8_def utf8_rune_def)
  next
    case 4
    then show thesis
      by (intro that [of "(utf8 [0x51C6, 0x5907] @ '' codespace '') @ quote h @ ('' '' @ utf8 [0x88AB, 0x53D6, 0x6D88, 0xFF1A])"])
        (simp_all add: userFacing_def utf8_def utf8_rune_def)
  next
    case 5
    then show thesis using assms by (intro that [of "[]"]) (simp_all add: userFacing_def)
  qed
qed

text \<open>
  C39: What a client is told hides the registered secrets. The text \<open>userFacing\<close> makes out of an
  error, unless it is one of the two session limits, is a text in front, the same for all
  errors of its class, and the error's text in which no registered secret is left; and a secret of ASCII bytes can occur in the whole only if it occurs
  in the part in front, which is built from the provider's name and the handle the client sent.
\<close>

theorem user_facing_hides:
  assumes "hideable rd" and "s \<in> set (secrets rd)" and "\<forall>c\<in>set s. of_char c < (128::nat)"
    and "\<not> errors_Is err ErrTooManySessions" and "\<not> errors_Is err ErrTooManySessionsForEnv"
  shows "\<exists>pre. err_text (userFacing p (Some rd) h err) = pre @ Redact (Some rd) (err_text err) \<and>
    (\<forall>err'. (\<forall>t. errors_Is err' t = errors_Is err t) \<longrightarrow>
      err_text (userFacing p (Some rd) h err') = pre @ Redact (Some rd) (err_text err')) \<and>
    \<not> Contains (Redact (Some rd) (err_text err)) s \<and>
    (\<not> Contains pre s \<longrightarrow> \<not> Contains (err_text (userFacing p (Some rd) h err)) s)"
proof -
  obtain pre where shown: "err_text (userFacing p (Some rd) h err) = pre @ Redact (Some rd) (err_text err)"
    and same: "\<forall>err'. (\<forall>t. errors_Is err' t = errors_Is err t) \<longrightarrow>
      err_text (userFacing p (Some rd) h err') = pre @ Redact (Some rd) (err_text err')"
    and last: "pre = [] \<or> (\<exists>q. pre = q @ [char_of (0x9A::nat)])"
    by (rule userFacing_parts [OF assms(4,5), of p "Some rd" h]) (simp add: that)
  have "char_of (0x9A::nat) \<notin> set s" using assms(3) by force
  then have "\<not> Contains pre s \<longrightarrow> \<not> Contains (pre @ Redact (Some rd) (err_text err)) s"
    using last red.hides_after [OF assms(1,2)] red.hides [OF assms(1,2)] by auto
  with shown same red.hides [OF assms(1,2)] show ?thesis by (intro exI [of _ pre]) simp
qed

lemma user_facing_hides_witness:
  "\<not> Contains (err_text (userFacing ''github'' (Some \<lparr>secrets = [''ghp_secret'']\<rparr>) ''box''
      (Errorf ''bad ghp_secret''))) ''ghp_secret''"
proof -
  let ?rd = "\<lparr>secrets = [''ghp_secret'']\<rparr>" and ?e = "Errorf ''bad ghp_secret''"
  have good: "hideable ?rd" by (simp add: hideable_def redactor_ok_def minRedactLen_def)
  obtain pre where "err_text (userFacing ''github'' (Some ?rd) ''box'' ?e) = pre @ Redact (Some ?rd) (err_text ?e)"
    and hid: "\<not> Contains pre ''ghp_secret'' \<longrightarrow>
      \<not> Contains (err_text (userFacing ''github'' (Some ?rd) ''box'' ?e)) ''ghp_secret''"
    using user_facing_hides [OF good, of "''ghp_secret''" ?e "''github''" "''box''"] by auto
  then have "pre = []" by (simp add: userFacing_def)
  with hid show ?thesis by (simp add: Contains_iff)
qed

text \<open>
  Which environment a client reaches. A name the client gives, without its blanks, is used
  as it is or refused, the provider is not asked, and what is accepted has at most 200 bytes, all
  of them letters, digits or one of the four marks. Without one it is the configured default, and
  without a default the only environment of the account, or, when the account has none and the
  provider can create one, the default name; two or more are never chosen between.
\<close>

theorem resolve_environment:
  assumes "ResolveEnvironment P c hint fn m w = (r, m', w')"
  shows "if TrimSpace hint \<noteq> [] then w' = w \<and> m' = m \<and>
      (\<forall>h. r = Inr h \<longleftrightarrow> h = TrimSpace hint \<and> length h \<le> 200 \<and> list_all name_char h)
    else if w_DefaultEnvironment P \<noteq> [] then w' = w \<and> m' = m \<and> r = Inr (w_DefaultEnvironment P)
    else (\<forall>h. r = Inr h \<longleftrightarrow> (\<exists>envs. w_List P c w = (Inr envs, w') \<and>
        (map env_ID envs = [h] \<or>
         envs = [] \<and> cap_Create (w_Capabilities P) \<and> h = DefaultEnvironmentName)))"
proof (cases "TrimSpace hint = [] \<and> w_DefaultEnvironment P = []")
  case False
  with assms show ?thesis
    by (auto simp: ResolveEnvironment_def validEnvironmentName_def Let_def
        split: option.splits if_splits)
next
  case True
  obtain x w1 where L: "w_List P c w = (x, w1)" by fastforce
  consider e where "x = Inl e" | "x = Inr []" | e where "x = Inr [e]"
    | e e' es where "x = Inr (e # e' # es)"
    by (metis list.exhaust sum.exhaust)
  then show ?thesis using assms True L
    by cases (auto simp: ResolveEnvironment_def Let_def split: if_splits)
qed

lemma resolve_environment_witness:
  "let (r, m', w') = ResolveEnvironment (running_prov None) ctx_bg ''box'' None (New_manager opts2) 0
   in r = Inr ''box'' \<and> w' = 0 \<and> m' = New_manager opts2"
proof -
  obtain r m' w' where R: "ResolveEnvironment (running_prov None) ctx_bg ''box'' None (New_manager opts2) 0 =
      (r, m', w')" by (metis prod_cases3)
  have "list_all name_char ''box''" by (simp add: name_char_def Let_def)
  with resolve_environment [OF R] have "r = Inr ''box'' \<and> w' = 0 \<and> m' = New_manager opts2"
    by (simp add: box_name)
  with R show ?thesis by simp
qed

end
