(* ===== verification/RegistrySpec.thy ===== *)
theory RegistrySpec
  imports GatewayBackend
begin

text \<open>
  What the session registry, the provider registry and the log handler promise over whole runs:
  counts, limits and hooks after any sequence of calls of the session manager, the order of its
  listing, the outcome of the program's registrations, and what may reach a log record.
\<close>

section \<open>Hooks\<close>

text \<open>The hook calls an environment got, in order.\<close>

fun hook_env :: "hook_event \<Rightarrow> string" where
  "hook_env (FirstHook e) = e"
| "hook_env (LastHook e) = e"

definition hooks_of :: "string \<Rightarrow> session_mgr \<Rightarrow> hook_event list" where
  "hooks_of e m = filter (\<lambda>h. hook_env h = e) (fired m)"

text \<open>\<open>n\<close> complete visits, and a first call without its last one while sessions are open.\<close>

definition visits :: "string \<Rightarrow> nat \<Rightarrow> bool \<Rightarrow> hook_event list" where
  "visits e n still = concat (replicate n [FirstHook e, LastHook e]) @ (if still then [FirstHook e] else [])"

definition hooks_paired :: "session_mgr \<Rightarrow> bool" where
  "hooks_paired m \<longleftrightarrow> (\<forall>e. \<exists>n. hooks_of e m = visits e n (0 < CountFor m e))"

lemma visits_close: "visits e n True @ [LastHook e] = visits e (Suc n) False"
  by (induction n) (auto simp: visits_def)

lemma visits_open: "visits e n False @ [FirstHook e] = visits e n True"
  by (simp add: visits_def)

lemma Open_fired:
  assumes "Open i now m = (Inr r, m')"
  shows "fired m' = fired m @
    (if CountFor m (i_Environment i) = 0 \<and> onFirst m then [FirstHook (i_Environment i)] else [])"
  using assms by (auto simp: Open_def CountFor_def Let_def split: if_splits)

lemma Close_fired:
  assumes "live m r" and "sess_inv m"
  shows "fired (Close (Some r) m) = fired m @
    (if CountFor m (obj_env (objs m ! r)) = 1 \<and> onLast m then [LastHook (obj_env (objs m ! r))] else [])"
proof -
  have pos: "0 < getz (perEnv m) (obj_env (objs m ! r)) 0"
    using live_perEnv_pos [OF assms(2,1)] by simp
  show ?thesis
    using assms(1) pos sess_invD(2) [OF assms(2)]
    by (auto simp: Close_def live_def CountFor_def obj_env_def Let_def)
qed

lemma Open_paired:
  assumes "hooks_paired m" and "onFirst m" and "sess_inv m" and "Open i now m = (Inr r, m')"
  shows "hooks_paired m'"
  unfolding hooks_paired_def
proof
  fix e
  obtain n where n: "hooks_of e m = visits e n (0 < CountFor m e)"
    using assms(1) by (auto simp: hooks_paired_def)
  have c: "CountFor m' e = CountFor m e + (if e = i_Environment i then 1 else 0)"
    by (rule sess.open_count [OF assms(3,4)])
  have pos: "0 \<le> CountFor m e" using sess_invD(7) [OF assms(3)] by (simp add: CountFor_def)
  have "hooks_of e m' = visits e n (0 < CountFor m' e)"
  proof (cases "e = i_Environment i \<and> CountFor m e = 0")
    case True
    then have e: "e = i_Environment i" and zero: "CountFor m (i_Environment i) = 0" by auto
    then have "hooks_of e m' = visits e n False @ [FirstHook e]"
      using n Open_fired [OF assms(4)] assms(2) by (simp add: hooks_of_def)
    with True c pos show ?thesis by (simp add: visits_open)
  next
    case False
    then show ?thesis using n c pos Open_fired [OF assms(4)] by (auto simp: hooks_of_def)
  qed
  then show "\<exists>n. hooks_of e m' = visits e n (0 < CountFor m' e)" by blast
qed

lemma Close_paired:
  assumes "hooks_paired m" and "onLast m" and "sess_inv m"
  shows "hooks_paired (Close s m)"
proof (cases "\<exists>r. s = Some r \<and> live m r")
  case False
  then have "Close s m = m" by (cases s) (auto simp: Close_dead)
  with assms(1) show ?thesis by simp
next
  case True
  then obtain r where s: "s = Some r" and live: "live m r" by blast
  let ?m = "Close (Some r) m" and ?e = "obj_env (objs m ! r)"
  show ?thesis unfolding s hooks_paired_def
  proof
    fix e
    obtain n where n: "hooks_of e m = visits e n (0 < CountFor m e)"
      using assms(1) by (auto simp: hooks_paired_def)
    have c: "CountFor ?m e = CountFor m e - (if e = ?e then 1 else 0)"
      by (rule sess.close_count [OF assms(3) live])
    have pos: "0 < CountFor m ?e" using live_perEnv_pos [OF assms(3) live] by (simp add: CountFor_def)
    show "\<exists>n. hooks_of e ?m = visits e n (0 < CountFor ?m e)"
    proof (cases "e = ?e \<and> CountFor m e = 1")
      case True
      then have e: "e = ?e" and one: "CountFor m ?e = 1" by auto
      then have "hooks_of e ?m = visits e n True @ [LastHook e]"
        using n Close_fired [OF live assms(3)] assms(2) by (simp add: hooks_of_def)
      with True c show ?thesis by (auto simp: visits_close)
    next
      case False
      then have "hooks_of e ?m = visits e n (0 < CountFor ?m e)"
        using n c pos Close_fired [OF live assms(3)] by (auto simp: hooks_of_def)
      then show ?thesis by blast
    qed
  qed
qed


lemma sess_step_paired:
  assumes "hooks_paired m" and "onFirst m" and "onLast m" and "sess_inv m"
  shows "hooks_paired (sess_step op m) \<and> onFirst (sess_step op m) \<and> onLast (sess_step op m)"
proof (cases op)
  case (OpOpen i now)
  show ?thesis
  proof (cases "Open i now m")
    case (Pair r m')
    then show ?thesis
    proof (cases r)
      case (Inl e)
      with Pair OpOpen assms Open_InlD [of i now m] show ?thesis by auto
    next
      case (Inr x)
      with Pair OpOpen assms Open_paired [of m i now x m'] Open_InrD [of i now m x m'] show ?thesis by simp
    qed
  qed
next
  case (OpClose s)
  moreover have "onFirst (Close s m) = onFirst m \<and> onLast (Close s m) = onLast m"
    by (auto simp: Close_def Let_def split: option.splits)
  ultimately show ?thesis using assms Close_paired by simp
qed (use assms in \<open>simp_all add: session_SetPhase_def session_SetKind_def hooks_paired_def
       hooks_of_def CountFor_def\<close>)

lemma sess_run_paired:
  assumes "hooks_paired m" and "onFirst m" and "onLast m" and "sess_inv m"
    and "length (objs m) + length ops < 2 ^ 64"
  shows "hooks_paired (sess_run ops m)"
  using assms
proof (induction ops arbitrary: m)
  case Nil
  then show ?case by (simp add: sess_run_def)
next
  case (Cons op ops)
  have "sess_inv (sess_step op m)"
    using Cons.prems by (intro sess_step_inv) (simp_all add: room_def)
  moreover have "length (objs (sess_step op m)) + length ops < 2 ^ 64"
    using Cons.prems(5) sess_step_objs [of op m] by simp
  ultimately have "hooks_paired (sess_run ops (sess_step op m))"
    using Cons.prems sess_step_paired [of m op] by (intro Cons.IH) simp_all
  then show ?case by (simp add: sess_run_def)
qed

lemma sess_run_fields:
  "maxTotal (sess_run ops m) = maxTotal m \<and> maxPerEnv (sess_run ops m) = maxPerEnv m"
proof (induction ops arbitrary: m)
  case Nil
  then show ?case by (simp add: sess_run_def)
next
  case (Cons op ops)
  have "maxTotal (sess_step op m) = maxTotal m \<and> maxPerEnv (sess_step op m) = maxPerEnv m"
    by (cases op) (auto simp: Open_def Close_def session_SetPhase_def session_SetKind_def Let_def
        split: option.splits)
  with Cons [of "sess_step op m"] show ?case by (simp add: sess_run_def)
qed

section \<open>Properties\<close>

definition ops0 :: "sess_op list" where
  "ops0 = [OpOpen (session_info open0 ''box'') 1, OpOpen (session_info open0 ''box'') 2,
    OpClose (Some 0), OpClose (Some 0), OpClose (Some 1)]"

text \<open>
  C12: The session registry keeps its books. After any calls of \<open>Open\<close>, \<open>Close\<close>,
  \<open>SetPhase\<close> and \<open>SetKind\<close>, in any order and with sessions closed any number of times, fewer
  than 2 to the 64, \<open>Total\<close> is the number of sessions opened and not closed, \<open>CountFor\<close> that
  of an environment's, and neither configured limit is exceeded. With both hooks set, the calls
  an environment got are first, last, first, last, and so on, and the last of them is a first
  call exactly while it has sessions.
\<close>

theorem session_registry_run:
  assumes "length ops < 2 ^ 64" and m_def: "m = sess_run ops (SetHooks True True (NewManager mt me))"
  shows "Total m = int (card {r. live m r}) \<and>
    CountFor m e = int (card {r. live m r \<and> obj_env (objs m ! r) = e}) \<and>
    (0 < mt \<longrightarrow> Total m \<le> mt) \<and> (0 < me \<longrightarrow> CountFor m e \<le> me) \<and>
    (\<exists>n. hooks_of e m = visits e n (0 < CountFor m e))"
proof -
  let ?m0 = "SetHooks True True (NewManager mt me)"
  have m0: "sess_inv ?m0" "onFirst ?m0" "onLast ?m0" "hooks_paired ?m0" "objs ?m0 = []"
  proof -
    show "sess_inv ?m0" by (auto simp: sess_inv_def SetHooks_def NewManager_def live_def env_live_def)
    have "hooks_of e ?m0 = visits e 0 (0 < CountFor ?m0 e)" for e
      by (simp add: SetHooks_def NewManager_def hooks_of_def visits_def CountFor_def)
    then show "hooks_paired ?m0" unfolding hooks_paired_def by blast
  qed (simp_all add: SetHooks_def NewManager_def)
  have inv: "sess_inv m" and paired: "hooks_paired m"
    using m0 assms(1) sess_run_inv [of ?m0 ops] sess_run_paired [of ?m0 ops] by (simp_all add: m_def)
  have lim: "maxTotal m = mt \<and> maxPerEnv m = me"
    using sess_run_fields [of ops ?m0] by (simp add: m_def SetHooks_def NewManager_def)
  have "Total m = int (card {r. live m r})"
    using sess_invD(6) [OF inv] by (simp add: Total_def live_def length_filter_conv_card)
  moreover have "CountFor m e = int (card {r. live m r \<and> obj_env (objs m ! r) = e})"
    using sess_invD(7) [OF inv, of e]
    by (simp add: CountFor_def env_live_def live_def length_filter_conv_card conj_assoc)
  moreover have "\<exists>n. hooks_of e m = visits e n (0 < CountFor m e)"
    using paired by (simp add: hooks_paired_def)
  moreover have "0 < mt \<longrightarrow> Total m \<le> mt" "0 < me \<longrightarrow> CountFor m e \<le> me"
    using lim sess_invD(9) [OF inv] sess_invD(10) [OF inv, of e] by (simp_all add: Total_def CountFor_def)
  ultimately show ?thesis by blast
qed

lemma session_registry_run_witness:
  "Total (sess_run ops0 (SetHooks True True (NewManager 5 5))) \<le> 5 \<and>
    (\<exists>n. hooks_of ''box'' (sess_run ops0 (SetHooks True True (NewManager 5 5))) =
      visits ''box'' n (0 < CountFor (sess_run ops0 (SetHooks True True (NewManager 5 5))) ''box''))"
proof -
  have "length ops0 < 2 ^ 64" by (simp add: ops0_def)
  note R = session_registry_run [OF this refl, of 5 5 "''box''"]
  from R have "0 < (5::int) \<longrightarrow> Total (sess_run ops0 (SetHooks True True (NewManager 5 5))) \<le> 5" by blast
  moreover from R have "\<exists>n. hooks_of ''box'' (sess_run ops0 (SetHooks True True (NewManager 5 5))) =
      visits ''box'' n (0 < CountFor (sess_run ops0 (SetHooks True True (NewManager 5 5))) ''box'')" by blast
  ultimately show ?thesis by simp
qed

text \<open>
  Listing sessions. \<open>List\<close> returns exactly the sessions that are open, each once, ordered
  by start time and, among equal start times, by id.
\<close>

theorem session_list:
  assumes "sess_inv m"
  shows "sorted (map (\<lambda>i. (started_key i, i_ID i)) (List_sessions m)) \<and>
    set (List_sessions m) = (\<lambda>r. so_info (objs m ! r)) ` {r. live m r} \<and>
    distinct (map i_ID (List_sessions m)) \<and> int (length (List_sessions m)) = Total m"
proof -
  let ?raw = "map (\<lambda>(_, r). so_info (objs m ! r)) (byID m)"
  have ids: "map i_ID ?raw = map fst (byID m)"
  proof (rule nth_equalityI)
    fix j assume "j < length (map i_ID ?raw)"
    then have j: "j < length (byID m)" by simp
    obtain k r where kr: "byID m ! j = (k, r)" by fastforce
    with j have "(k, r) \<in> set (byID m)" by (metis nth_mem)
    then have "map_of (byID m) k = Some r" using sess_invD(1) [OF assms] by simp
    then have "live m r \<and> k = sid r" using sess_invD(5) [OF assms] by blast
    then have "i_ID (so_info (objs m ! r)) = k" using sess_invD(4) [OF assms] by (simp add: live_def)
    with j kr show "map i_ID ?raw ! j = map fst (byID m) ! j" by simp
  qed simp
  have "set ?raw = (\<lambda>r. so_info (objs m ! r)) ` {r. live m r}"
  proof -
    have "snd ` set (byID m) = {r. live m r}"
    proof (intro equalityI subsetI)
      fix r assume "r \<in> snd ` set (byID m)"
      then obtain k where "(k, r) \<in> set (byID m)" by auto
      then have "map_of (byID m) k = Some r" using sess_invD(1) [OF assms] by simp
      then show "r \<in> {r. live m r}" using sess_invD(5) [OF assms] by blast
    next
      fix r assume "r \<in> {r. live m r}"
      then have "map_of (byID m) (sid r) = Some r" using sess_invD(5) [OF assms] by blast
      then show "r \<in> snd ` set (byID m)" using map_of_SomeD by force
    qed
    then show ?thesis by force
  qed
  moreover have "distinct (map i_ID (List_sessions m))"
  proof -
    have "mset (map i_ID (List_sessions m)) = mset (map i_ID ?raw)"
      by (simp only: List_sessions_def mset_map mset_sort)
    with ids sess_invD(1) [OF assms] show ?thesis by (metis mset_eq_imp_distinct_iff)
  qed
  moreover have "sorted (map (\<lambda>i. (started_key i, i_ID i)) (List_sessions m))"
    unfolding List_sessions_def by (rule sorted_sort_key)
  moreover have "set (List_sessions m) = set ?raw" "length (List_sessions m) = length (byID m)"
    by (simp_all only: List_sessions_def set_sort length_sort length_map)
  ultimately show ?thesis by (simp only: Total_def)
qed

lemma session_list_witness:
  "int (length (List_sessions (NewManager 5 5))) = Total (NewManager 5 5)"
  using session_list [of "NewManager 5 5"] by simp

definition register_all :: "'f registration list \<Rightarrow> 'f registry \<Rightarrow> 'f registry" where
  "register_all rs reg = fold (\<lambda>r g. case Register r g of Inl _ \<Rightarrow> g | Inr g' \<Rightarrow> g') rs reg"

lemma register_all_ok: "registry_ok reg \<Longrightarrow> registry_ok (register_all rs reg)"
  by (induction rs arbitrary: reg) (auto simp: register_all_def dest: Register_ok split: sum.splits)

lemma register_all_keeps:
  "map_of reg k = Some x \<Longrightarrow> map_of (register_all rs reg) k = Some x"
proof (induction rs arbitrary: reg)
  case Nil
  then show ?case by (simp add: register_all_def)
next
  case (Cons r rs)
  have "map_of (case Register r reg of Inl _ \<Rightarrow> reg | Inr g' \<Rightarrow> g') k = Some x"
    using Cons.prems by (auto simp: Register_def Let_def split: sum.splits if_splits)
  from Cons.IH [OF this] show ?case by (simp add: register_all_def)
qed

lemma register_all_append: "register_all (rs @ rs') reg = register_all rs' (register_all rs reg)"
  by (simp add: register_all_def)

text \<open>
  Provider registration. After any registrations, with those that panic leaving the registry
  as it was, \<open>Registrations\<close> lists each registered name once, in order, every entry has a
  factory, a config key and a default-environment key, a later registration never replaces an
  earlier one, and \<open>New\<close> fails exactly for the names that are not registered.
\<close>

theorem provider_registry:
  defines "names \<equiv> \<lambda>rs. map reg_Name (Registrations (register_all rs []))"
  shows "sorted (names rs) \<and> distinct (names rs) \<and>
    (\<forall>r. Lookup n (register_all rs []) = Some r \<longrightarrow> reg_Name r = n \<and> reg_Factory r \<noteq> None \<and>
      reg_ConfigKey r \<noteq> [] \<and> reg_DefaultEnvironmentKey r \<noteq> [] \<and>
      Lookup n (register_all (rs @ rs') []) = Some r) \<and>
    (is_ok (New_provider n (register_all rs [])) \<longleftrightarrow> n \<in> set (names rs))"
proof -
  have ok: "registry_ok (register_all rs [])" by (simp add: register_all_ok)
  have "reg_Name r = n \<and> reg_Factory r \<noteq> None \<and> reg_ConfigKey r \<noteq> [] \<and>
      reg_DefaultEnvironmentKey r \<noteq> [] \<and> Lookup n (register_all (rs @ rs') []) = Some r"
    if "Lookup n (register_all rs []) = Some r" for r
    using that ok register_all_keeps [of "register_all rs []" n r rs']
    by (auto simp: Lookup_def registry_ok_def register_all_append dest!: map_of_SomeD)
  then show ?thesis
    using Registrations_sorted [OF ok] New_known [OF ok] by (simp add: names_def)
qed

lemma provider_registry_witness:
  "is_ok (New_provider ''github'' (register_all [\<lparr>reg_Name = ''github'', reg_Summary = [],
      reg_ConfigKey = [], reg_DefaultEnvironmentKey = [], reg_Factory = Some (7::nat)\<rparr>] []))"
proof -
  let ?rs = "[\<lparr>reg_Name = ''github'', reg_Summary = [],
      reg_ConfigKey = [], reg_DefaultEnvironmentKey = [], reg_Factory = Some (7::nat)\<rparr>]"
  have "map reg_Name (Registrations (register_all ?rs [])) = [''github'']"
    by (simp add: register_all_def Register_def Registrations_def Let_def)
  then show ?thesis using provider_registry [of ?rs "''github''" "[]"] by simp
qed

text \<open>
  C40: Nothing a log call is given reaches the log with a registered secret in it. For a handler
  built from the program's redactor by any \<open>WithAttrs\<close> and \<open>WithGroup\<close>, neither the message, nor
  a text value of the record's attributes, at any depth of groups, nor one bound to the handler
  contains a registered secret; and a message without one is not changed.
\<close>

theorem log_redacts:
  assumes "built (Some rd) h" and "hideable rd" and "s \<in> set (secrets rd)"
  shows "(\<forall>t\<in>emitted_texts (Handle h r). \<not> Contains t s) \<and>
    ((\<forall>k\<in>set (secrets rd). \<not> Contains (r_Message r) k) \<longrightarrow>
      r_Message (snd (Handle h r)) = r_Message r)"
proof
  show "\<forall>t\<in>emitted_texts (Handle h r). \<not> Contains t s"
    using Handle_texts [OF assms(1), of r] red.hides [OF assms(2,3)] by blast
  have "h_red h = Some rd" using built_bound_texts [OF assms(1)] by blast
  then show "(\<forall>k\<in>set (secrets rd). \<not> Contains (r_Message r) k) \<longrightarrow>
      r_Message (snd (Handle h r)) = r_Message r"
    using red.clean [of rd "r_Message r"] by (simp add: Handle_def)
qed

lemma log_redacts_witness:
  "\<not> Contains (r_Message (snd (Handle
      (WithGroup \<lparr>h_bound = [], h_red = Some \<lparr>secrets = [''ghp_secret'']\<rparr>\<rparr> ''g'')
      \<lparr>r_Message = ''got ghp_secret'', r_Attrs = []\<rparr>))) ''ghp_secret''"
proof -
  let ?rd = "\<lparr>secrets = [''ghp_secret'']\<rparr>"
  have "hideable ?rd" by (simp add: hideable_def redactor_ok_def minRedactLen_def)
  then show ?thesis
    using log_redacts [OF built_group [OF built_new], of ?rd "''ghp_secret''"]
    by (simp add: emitted_texts_def)
qed

end
