(* ===== verification/LifecycleSpec.thy ===== *)
theory LifecycleSpec
  imports Calls
begin

text \<open>
  What the lifecycle manager promises, over whole calls and whole runs: results of \<open>ensure\<close>
  and \<open>Connect\<close>, their termination, how often the provider is asked for anything, the
  recorded history, and that disconnecting stops nothing by default. A scripted provider
  instantiates the hypotheses.
\<close>

section \<open>A scripted provider\<close>

text \<open>
  The world is the time and the states the next lookups answer; the last one stays. Timers
  fire on time and requests after their deadline fail.
\<close>

definition env_in :: "pstate \<Rightarrow> environment" where
  "env_in s = no_env\<lparr>env_ID := ''cs'', env_DisplayName := ''cs'', env_Provider := ''github'',
     env_State := s, env_NativeState := state_name s\<rparr>"

definition expired :: "ctx \<Rightarrow> int \<Rightarrow> bool" where
  "expired c now \<longleftrightarrow> (case ctx_deadline c of None \<Rightarrow> False | Some d \<Rightarrow> d \<le> now)"

definition caps0 :: capabilities where
  "caps0 = \<lparr>cap_Create = False, cap_Stop = True, cap_Subsystems = True, cap_Signals = False,
     cap_Resize = True, cap_ProviderManagedIdle = True, cap_IdleMechanism = ''idle'',
     cap_SSHActivityAttribution = IdleAttributionUnverified, cap_Notes = []\<rparr>"

definition scripted :: "goerr option \<Rightarrow> (int \<times> pstate list) prov" where
  "scripted refuse = \<lparr>
     w_now = fst,
     w_err = (\<lambda>c w. if expired c (fst w) then Some (Sentinel DeadlineExceeded) else None),
     w_sel = (\<lambda>c t w. (None, (max (fst w) t, snd w))),
     w_Name = ''github'', w_Capabilities = caps0, w_DefaultEnvironment = ''cs'',
     w_List = (\<lambda>c w. (Inr [], w)),
     w_Get = (\<lambda>c e w. if expired c (fst w) then (Inl (Sentinel DeadlineExceeded), w)
        else (case snd w of
                [] \<Rightarrow> (Inl (NotFoundError ''github'' e), w)
              | [s] \<Rightarrow> (Inr (env_in s), w)
              | s # ss \<Rightarrow> (Inr (env_in s), (fst w, ss)))),
     w_Create = (\<lambda>c s w. (Inr (env_in StateProvisioning), (fst w, [StateProvisioning, StateRunning]))),
     w_Start = (\<lambda>c e w. (None, w)),
     w_Stop = (\<lambda>c e w. (None, w)),
     w_Connect = (\<lambda>c e r w. (case refuse of None \<Rightarrow> (Inr 7, w) | Some e \<Rightarrow> (Inl e, w)))\<rparr>"

lemma scripted_clock: "clock_ok (scripted refuse)"
  by (auto simp: clock_ok_def scripted_def expired_def)

definition opts1 :: options where
  "opts1 = \<lparr>AutoCreate = True, StartTimeout = 0, CreateTimeout = 0, ConnectTimeout = 0,
     PollInterval = 0, ConnectRetries = 2, StopOnLastDisconnect = False\<rparr>"

definition ctx1 :: ctx where
  "ctx1 = \<lparr>ctx_deadline = None, ctx_cancel = None, ctx_signal = 1\<rparr>"

definition mgr1 :: manager where
  "mgr1 = New_manager opts1"

definition stopped_world :: "int \<times> pstate list" where
  "stopped_world = (0, [StateStopped, StateStarting, StateRunning])"

lemmas lc_eval = scripted_def expired_def env_in_def no_env_def opts1_def ctx1_def mgr1_def
  stopped_world_def New_manager_def withDefaults_def second_def Let_def
  Connectable_def Startable_def Transitional_def

lemmas ensure_eval = ensure_def ensure_lookup_def manager_get_def ensure_found_def ensure_ready_def
  ensure_start_def waitFor_def wait_iter_def next_tick_def WithTimeout_def adopt_def create_def
  forever.simps numeral_3_eq_3

lemmas bookkeeping_eval = setPhase_def bump_def stateLocked_def fresh_state_def phase_change_def
  notify_def observe_def resolve_def recordErr_def fail_def keep_last_def maxHistory_def

lemma ensure_example:
  "\<exists>m w. ensure (scripted None) ctx1 ''h'' mgr1 stopped_world = Some (Inr (env_in StateRunning), m, w)"
  by (simp add: ensure_eval lc_eval bookkeeping_eval)

section \<open>Whole runs\<close>

text \<open>
  The operations of the manager one after another. A closed session whose environment has to
  be stopped runs \<open>Stop\<close> under a background context, as the goroutine of
  \<open>OnSessionClosed\<close> does.
\<close>

datatype lc_op =
    LEnsure ctx string "nat option" | LConnect ctx string connect_request | LOpened string
  | LClosed string int | LStop ctx string | LStatus string | LAll

definition background :: ctx where
  "background = \<lparr>ctx_deadline = None, ctx_cancel = None, ctx_signal = 0\<rparr>"

fun lc_step :: "'w prov \<Rightarrow> lc_op \<Rightarrow> manager \<times> 'w \<Rightarrow> (manager \<times> 'w) option" where
  "lc_step P (LEnsure c h fn) (m, w) =
     (case Ensure_alone P c h fn m w of None \<Rightarrow> None | Some (_, m', w') \<Rightarrow> Some (m', w'))"
| "lc_step P (LConnect c h req) (m, w) =
     (case Connect_env P c h req m w of None \<Rightarrow> None | Some (_, _, m', w') \<Rightarrow> Some (m', w'))"
| "lc_step P (LOpened h) (m, w) = Some (OnSessionOpened (w_now P w) h m, w)"
| "lc_step P (LClosed h remaining) (m, w) =
     (case OnSessionClosed P (w_now P w) h remaining m of
        (False, m') \<Rightarrow> Some (m', w)
      | (True, m') \<Rightarrow> (case Stop P background h m' w of (_, m'', w') \<Rightarrow> Some (m'', w')))"
| "lc_step P (LStop c h) (m, w) = (case Stop P c h m w of (_, m', w') \<Rightarrow> Some (m', w'))"
| "lc_step P (LStatus h) (m, w) = Some (snd (Status (w_now P w) h m), w)"
| "lc_step P LAll (m, w) = Some (snd (All_status (w_now P w) m), w)"

fun lc_run :: "'w prov \<Rightarrow> lc_op list \<Rightarrow> manager \<times> 'w \<Rightarrow> (manager \<times> 'w) option" where
  "lc_run P [] s = Some s"
| "lc_run P (op # ops) s = (case lc_step P op s of None \<Rightarrow> None | Some s' \<Rightarrow> lc_run P ops s')"

text \<open>What a sequential run keeps: an ordered history, no operation left behind.\<close>

definition quiet :: "manager \<Rightarrow> bool" where
  "quiet m \<longleftrightarrow> mgr_hist m \<and> (\<forall>h. map_of (m_ops m) h = None)"

lemma Stop_keeps:
  assumes "Stop P c h m w = (r, m', w')"
  shows "m_opts m' = m_opts m" and "m_ops m' = m_ops m" and "mgr_hist m \<Longrightarrow> mgr_hist m'"
  using assms by (auto simp: Stop_def Let_def hist.keep_setPhase split: prod.splits option.splits)

lemma OnSessionClosed_keeps:
  assumes "OnSessionClosed P t h n m = (b, m')"
  shows "m_opts m' = m_opts m" and "m_ops m' = m_ops m" and "mgr_hist m \<Longrightarrow> mgr_hist m'"
  using assms by (auto simp: OnSessionClosed_def Let_def hist.keep_setPhase split: if_splits)

lemma Status_keeps:
  "m_opts (snd (Status t h m)) = m_opts m" "m_ops (snd (Status t h m)) = m_ops m"
  "mgr_hist m \<Longrightarrow> mgr_hist (snd (Status t h m))"
  by (auto simp: Status_def Let_def intro: mgr_hist_bump)

lemma All_keeps:
  "m_opts (snd (All_from t ns m)) = m_opts m \<and> m_ops (snd (All_from t ns m)) = m_ops m \<and>
   (mgr_hist m \<longrightarrow> mgr_hist (snd (All_from t ns m)))"
proof (induction ns arbitrary: m)
  case (Cons n ns)
  from Cons.IH [of "snd (Status t n m)"] Status_keeps [where t = t and h = n and m = m] show ?case
    by (simp add: split_beta)
qed simp

lemma lc_step_quiet:
  assumes "lc_step P op (m, w) = Some (m', w')" and "quiet m"
  shows "quiet m' \<and> m_opts m' = m_opts m"
proof (cases op)
  case (LEnsure c h fn)
  with assms(1) obtain r where "Ensure_alone P c h fn m w = Some (r, m', w')"
    by (auto split: option.splits)
  from Ensure_alone_keeps(1-3) [OF this] assms(2) show ?thesis by (simp add: quiet_def)
next
  case (LConnect c h req)
  with assms obtain r env where "Connect_env P c h req m w = Some (r, env, m', w')"
    by (auto split: option.splits)
  from Connect_env_keeps [OF this] assms(2) show ?thesis by (simp add: quiet_def)
next
  case (LOpened h)
  with assms show ?thesis by (auto simp: OnSessionOpened_def quiet_def hist.keep_setPhase)
next
  case (LClosed h n)
  obtain b mgr1 where c: "OnSessionClosed P (w_now P w) h n m = (b, mgr1)"
    by (cases "OnSessionClosed P (w_now P w) h n m")
  obtain r m2 w2 where s: "Stop P background h mgr1 w = (r, m2, w2)" by (metis prod_cases3)
  from assms LClosed c s OnSessionClosed_keeps [OF c] Stop_keeps [OF s] show ?thesis
    by (cases b) (auto simp: quiet_def)
next
  case (LStop c h)
  obtain r m2 w2 where s: "Stop P c h m w = (r, m2, w2)" by (metis prod_cases3)
  with assms LStop Stop_keeps [OF s] show ?thesis by (auto simp: quiet_def)
next
  case (LStatus h)
  with assms Status_keeps [where t = "w_now P w" and h = h and m = m] show ?thesis by (auto simp: quiet_def)
next
  case LAll
  with assms All_keeps [of "w_now P w" "sort (gokeys (m_states m))" m] show ?thesis
    by (auto simp: quiet_def All_status_def)
qed

lemma lc_step_returns:
  assumes "clock_ok P" and "0 < PollInterval (m_opts m)" and "quiet m"
  shows "\<exists>m' w'. lc_step P op (m, w) = Some (m', w')"
proof (cases op)
  case (LEnsure c h fn)
  obtain r m2 w2 where "Ensure_alone P c h fn m w = Some (r, m2, w2)"
    using Ensure_alone_returns [OF assms(1,2)] assms(3) by (metis prod_cases3 quiet_def)
  with LEnsure show ?thesis by simp
next
  case (LConnect c h req)
  obtain r env m2 w2 where "Connect_env P c h req m w = Some (r, env, m2, w2)"
    using Connect_env_returns [OF assms(1,2)] assms(3) by (metis prod_cases4 quiet_def)
  with LConnect show ?thesis by simp
qed (auto split: prod.splits bool.splits)

lemma lc_run_quiet:
  assumes "clock_ok P" and "0 < PollInterval (m_opts m)" and "quiet m"
  shows "\<exists>m' w'. lc_run P ops (m, w) = Some (m', w') \<and> quiet m' \<and> m_opts m' = m_opts m"
  using assms(2,3)
proof (induction ops arbitrary: m w)
  case Nil
  then show ?case by simp
next
  case (Cons op ops)
  obtain mgr1 w1 where s: "lc_step P op (m, w) = Some (mgr1, w1)"
    using lc_step_returns [OF assms(1) Cons.prems] by blast
  from lc_step_quiet [OF s Cons.prems(2)] Cons.prems(1) Cons.IH [of mgr1 w1] s show ?case by auto
qed

lemma withDefaults_pos:
  "0 < PollInterval (withDefaults o1)" "0 < StartTimeout (withDefaults o1)"
  "0 < CreateTimeout (withDefaults o1)" "0 < ConnectTimeout (withDefaults o1)"
  "0 \<le> ConnectRetries (withDefaults o1)"
  by (auto simp: withDefaults_def Let_def second_def)

section \<open>Properties\<close>

text \<open>
  C2: A successful \<open>ensure\<close> hands out a connectable environment and leaves its handle in
  phase RUNNING; a failed one leaves it FAILED with the cause as last error, except when the
  environment does not exist and creating is disabled.
\<close>

theorem ensure_result:
  assumes "ensure P c h m w = Some (r, m', w')"
  shows "case r of
      Inr env \<Rightarrow> Connectable (env_State env) \<and> es_phase (state_of h m') = PhaseRunning
    | Inl e \<Rightarrow> failed_with h e m' \<or>
        \<not> AutoCreate (m_opts m) \<and> (\<exists>e0. e = create_disabled e0 \<and> errors_Is e0 ErrNotFound \<and>
          es_lastErr (state_of h m') = err_text e0)"
  using assms ensure_ok ensure_fails by (cases r) fastforce+

lemma ensure_result_witness:
  "\<exists>m'. Connectable (env_State (env_in StateRunning)) \<and>
     es_phase (state_of ''h'' m') = PhaseRunning"
proof -
  obtain m w where
    "ensure (scripted None) ctx1 ''h'' mgr1 stopped_world = Some (Inr (env_in StateRunning), m, w)"
    using ensure_example by blast
  from ensure_result [OF this] show ?thesis by auto
qed

text \<open>
  C13: The machine returns. If a timer never fires early and a request past its deadline
  fails, then every \<open>ensure\<close> of a manager made by \<open>New\<close> ends, however the provider
  answers: the polling loop cannot outlive the start timeout by more than the five tolerated
  errors.
\<close>

theorem ensure_terminates:
  assumes "clock_ok P" and "m_opts m = withDefaults opts"
  shows "\<exists>r m' w'. ensure P c h m w = Some (r, m', w')"
  using ensure_returns [OF assms(1), of m] withDefaults_pos(1) [of opts] assms(2)
  by (metis prod_cases3)

lemma ensure_terminates_witness:
  "\<exists>r m' w'. ensure (scripted None) ctx1 ''h'' mgr1 (0, [StateStarting]) = Some (r, m', w')"
  by (rule ensure_terminates [OF scripted_clock, of _ opts1]) (simp add: mgr1_def New_manager_def)

text \<open>
  C37: A whole sequence of ensures, connects, session events, stops and status reads on a new
  manager runs to its end, leaves no operation in flight, and keeps for every environment a
  history of at most 32 phase changes in which each starts where the one before it ended and
  the last one gives the current phase.
\<close>

theorem lifecycle_run:
  assumes "clock_ok P"
  shows "\<exists>m' w'. lc_run P ops (New_manager opts, w) = Some (m', w') \<and>
    list_all (\<lambda>(_, st). hist_ok st) (m_states m') \<and> (\<forall>h. map_of (m_ops m') h = None) \<and>
    m_opts m' = withDefaults opts"
proof -
  have "quiet (New_manager opts)" "0 < PollInterval (m_opts (New_manager opts))"
    using withDefaults_pos(1) [of opts] by (simp_all add: quiet_def) (simp_all add: New_manager_def)
  from lc_run_quiet [OF assms this(2,1), of ops w] show ?thesis
    by (auto simp: quiet_def mgr_hist_def New_manager_def)
qed

lemma lifecycle_run_witness:
  "\<exists>m' w'. lc_run (scripted None) [LEnsure ctx1 ''h'' None, LOpened ''h'', LClosed ''h'' 0]
      (New_manager opts1, stopped_world) = Some (m', w') \<and>
    list_all (\<lambda>(_, st). hist_ok st) (m_states m')"
  using lifecycle_run [OF scripted_clock] by blast

lemma counting_clock: "clock_ok P \<Longrightarrow> clock_ok (counting P)"
  by (auto simp: clock_ok_def counting_def with_tally_def) (metis prod.collapse)

definition req0 :: connect_request where
  "req0 = \<lparr>req_PTY = False, req_Term = [], req_Rows = 0, req_Cols = 0, req_Modes = [],
     req_Command = [], req_Subsystem = [], req_Env = [], req_Progress = None\<rparr>"

text \<open>
  The provider is not asked for more than needed. One \<open>Connect\<close> makes at most one start
  request and one connection attempt per attempt the retries allow, never a create request
  when creating is disabled (and otherwise at most one per attempt), and never a stop.
\<close>

theorem connect_asks_little:
  assumes "Connect_env (counting P) c h req m (w, no_calls) = Some (r, env, m', w', n)"
  defines "k \<equiv> nat (ConnectRetries (m_opts m)) + 1"
  shows "n_connect n \<le> k \<and> n_start n \<le> k \<and>
    n_create n \<le> (if AutoCreate (m_opts m) then k else 0) \<and> n_stop n = 0"
  using Connect_env_asked [OF assms(1)] by (auto simp: asked_def no_calls_def k_def)

lemma connect_asks_little_witness:
  "\<exists>r env m' w' n. Connect_env (counting (scripted None)) ctx1 ''h'' req0
      mgr1 (stopped_world, no_calls) = Some (r, env, m', w', n) \<and> n_connect n \<le> 3 \<and> n_stop n = 0"
proof -
  have o1: "ConnectRetries (m_opts mgr1) = 2" "0 < PollInterval (m_opts mgr1)" "map_of (m_ops mgr1) ''h'' = None"
    by (simp_all add: mgr1_def New_manager_def withDefaults_def opts1_def Let_def second_def)
  obtain r env m' w' n where e: "Connect_env (counting (scripted None)) ctx1 ''h'' req0
      mgr1 (stopped_world, no_calls) = Some (r, env, m', w', n)"
    using Connect_env_returns [OF counting_clock [OF scripted_clock] o1(2,3)] by (metis prod_cases5)
  from connect_asks_little [OF e] e o1(1) show ?thesis by auto
qed

text \<open>
  A connection that \<open>Connect\<close> returns is to a connectable environment and is counted once;
  an error is recorded as the FAILED phase with its cause, unless no environment could be
  prepared or the client left during a backoff. A refusal that is not temporary, or that is
  an authentication failure, ends the attempts.
\<close>

theorem connect_result:
  assumes "Connect_env P c h req m w = Some (r, env, m', w')"
  shows "case r of
      Inr conn \<Rightarrow> Connectable (env_State env) \<and>
        es_connects (state_of h m') = es_connects (state_of h m) + 1
    | Inl e \<Rightarrow> failed_with h e m' \<or> (\<exists>e0 i. e = Wrapf (''connecting to '' @ i @ '': '') e0 []) \<or>
        Ensure_alone P c h (req_Progress req) m w = Some (Inl e, m', w')"
proof (cases r)
  case (Inr conn)
  with Connect_env_ok assms show ?thesis by fastforce
next
  case (Inl e)
  with assms show ?thesis
    by (auto elim!: Connect_envE dest: connect_from_fails)
qed

lemma connect_result_witness:
  "\<exists>r env m' w'. Connect_env (scripted (Some (Sentinel ErrAuth))) ctx1 ''h'' req0 mgr1 stopped_world =
      Some (r, env, m', w') \<and>
    (case r of
       Inr conn \<Rightarrow> Connectable (env_State env) \<and>
         es_connects (state_of ''h'' m') = es_connects (state_of ''h'' mgr1) + 1
     | Inl e \<Rightarrow> failed_with ''h'' e m' \<or> (\<exists>e0 i. e = Wrapf (''connecting to '' @ i @ '': '') e0 []) \<or>
         Ensure_alone (scripted (Some (Sentinel ErrAuth))) ctx1 ''h'' (req_Progress req0) mgr1
           stopped_world = Some (Inl e, m', w'))"
proof -
  have o1: "0 < PollInterval (m_opts mgr1)" "map_of (m_ops mgr1) ''h'' = None"
    by (simp_all add: mgr1_def New_manager_def withDefaults_def opts1_def Let_def second_def)
  obtain r env m' w' where e: "Connect_env (scripted (Some (Sentinel ErrAuth))) ctx1 ''h'' req0 mgr1
      stopped_world = Some (r, env, m', w')"
    using Connect_env_returns [OF scripted_clock o1] by (metis prod_cases4)
  from connect_result [OF e] e show ?thesis by blast
qed

text \<open>
  Permanent refusals are not retried: when the environment is ready and the first
  connection attempt fails with an error that is not temporary, or with an authentication
  error, \<open>Connect\<close> returns that error at once, in the world the attempt left.
\<close>

theorem connect_permanent_error:
  assumes "Ensure_alone P c h (req_Progress req) m w = Some (Inr env, ma, w1)"
    and "w_Connect P (WithTimeout c (ConnectTimeout (m_opts ma)) (w_now P w1)) (env_ID env) req w1 =
      (Inl e, w2)"
    and "\<not> IsTemporary e \<or> errors_Is e ErrAuth"
  shows "\<exists>m'. Connect_env P c h req m w =
      Some (Inl (Wrapf (''connect to '' @ env_ID env @ '': '') e []), env, m', w2) \<and>
    es_phase (state_of h m') = PhaseFailed \<and> es_lastErr (state_of h m') = err_text e"
  using assms by (simp add: Connect_env_def connect_from.simps connect_failed_def)

lemma Ensure_alone_example:
  "\<exists>m w. Ensure_alone (scripted refuse) ctx1 ''h'' None mgr1 (0, [StateRunning]) =
     Some (Inr (env_in StateRunning), m, w)"
  by (simp add: Ensure_alone_def runEnsure_def ensure_enter_def addNotifier_def new_operation_def
      ensure_def ensure_lookup_def manager_get_def ensure_found_def lc_eval numeral_3_eq_3
      WithTimeout_def WithoutCancel_def until_left_def ensure_budget_def)

lemma connect_permanent_error_witness:
  "\<exists>m' w'. Connect_env (scripted (Some (Sentinel ErrAuth))) ctx1 ''h'' req0 mgr1 (0, [StateRunning]) =
      Some (Inl (Wrapf ''connect to cs: '' (Sentinel ErrAuth) []), env_in StateRunning, m', w')"
proof -
  let ?P = "scripted (Some (Sentinel ErrAuth))"
  obtain m w where e: "Ensure_alone ?P ctx1 ''h'' (req_Progress req0) mgr1 (0, [StateRunning]) =
      Some (Inr (env_in StateRunning), m, w)"
    using Ensure_alone_example [of "Some (Sentinel ErrAuth)"] by (auto simp: req0_def)
  have "w_Connect ?P (WithTimeout ctx1 (ConnectTimeout (m_opts m)) (w_now ?P w))
      (env_ID (env_in StateRunning)) req0 w = (Inl (Sentinel ErrAuth), w)"
    by (simp add: scripted_def)
  from connect_permanent_error [OF e this] obtain m' where
      "Connect_env ?P ctx1 ''h'' req0 mgr1 (0, [StateRunning]) =
        Some (Inl (Wrapf (''connect to '' @ env_ID (env_in StateRunning) @ '': '') (Sentinel ErrAuth) []),
          env_in StateRunning, m', w)"
    by auto
  moreover have "''connect to '' @ env_ID (env_in StateRunning) @ '': '' = ''connect to cs: ''"
    by (simp add: env_in_def)
  ultimately show ?thesis by metis
qed

text \<open>
  Disconnecting stops nothing by default. While sessions remain nothing changes; when the
  last one closes, the goroutine that stops the environment is started exactly when
  \<open>stop_on_last_disconnect\<close> is set and the provider can stop, and otherwise the phase
  becomes IDLE/PROVIDER_MANAGED.
\<close>

theorem last_disconnect:
  "(fst (OnSessionClosed P now h remaining m) \<longleftrightarrow>
     remaining \<le> 0 \<and> StopOnLastDisconnect (m_opts m) \<and> cap_Stop (w_Capabilities P)) \<and>
   snd (OnSessionClosed P now h remaining m) =
     (if remaining > 0 then m else snd (OnSessionClosed P now h 0 m)) \<and>
   es_phase (state_of h (snd (OnSessionClosed P now h 0 m))) =
     (if StopOnLastDisconnect (m_opts m) \<and> cap_Stop (w_Capabilities P) then PhaseStopping
      else PhaseProviderManaged)"
  by (auto simp: OnSessionClosed_def Let_def)

text \<open>
  \<open>Stop\<close> asks the provider to stop the environment the handle resolves to, under a fresh
  two-minute context, and records the outcome: STOPPED, or FAILED with the provider's error.
\<close>

theorem Stop_outcome:
  "\<exists>m'. Stop P c h m w =
     (case w_Stop P (WithTimeout (WithoutCancel c) (120 * second) (w_now P w)) (ResolvedID h m) w of
        (None, w') \<Rightarrow> (None, m', w')
      | (Some e, w') \<Rightarrow>
          (Some (Wrapf (''stop environment '' @ ResolvedID h m @ '': '') e []), m', w')) \<and>
   (case fst (w_Stop P (WithTimeout (WithoutCancel c) (120 * second) (w_now P w)) (ResolvedID h m) w) of
      None \<Rightarrow> es_phase (state_of h m') = PhaseStopped
    | Some e \<Rightarrow> es_phase (state_of h m') = PhaseFailed \<and> es_lastErr (state_of h m') = err_text e)"
  by (auto simp: Stop_def Let_def split: prod.splits option.splits)

end
