(* ===== verification/SingleFlight.thy ===== *)
theory SingleFlight
  imports Connect
begin

text \<open>
  Many goroutines in \<open>Manager.Ensure\<close> at once (\<open>core/lifecycle/ensure.go\<close>): every caller
  and every \<open>runEnsure\<close> goroutine is a program counter, and a step is one critical section
  of theory \<open>Connect\<close>, one channel operation or one change the running \<open>ensure\<close> makes.
  The invariant says that the waiters of an operation are exactly the callers blocked on
  it, that a running operation is in the map as long as somebody waits for it, and that
  nobody's operation is cancelled under him.
\<close>

section \<open>State\<close>

text \<open>
  A caller is blocked in the \<open>select\<close>, about to cancel an operation it left last, about to
  run its deferred function, or has returned. \<open>cl_woken\<close> says that it saw \<open>op.done\<close>.
\<close>

datatype caller_pc =
    CWaiting | CCancelling "goerr + environment" | CLeaving "goerr + environment"
  | CReturned "goerr + environment"

record caller =
  cl_env :: string
  cl_op :: nat
  cl_token :: int
  cl_pc :: caller_pc
  cl_woken :: bool

datatype run_pc = RRunning | RFinished | RCancelled | RDone

record run =
  r_env :: string
  r_pc :: run_pc

record sf_state =
  sf_m :: manager
  sf_callers :: "caller list"
  sf_runs :: "run list"

definition sf_start :: "sf_state \<Rightarrow> bool" where
  "sf_start s \<longleftrightarrow> m_ops (sf_m s) = [] \<and> m_opobjs (sf_m s) = [] \<and> sf_callers s = [] \<and> sf_runs s = []"

definition set_caller :: "nat \<Rightarrow> (caller \<Rightarrow> caller) \<Rightarrow> sf_state \<Rightarrow> sf_state" where
  "set_caller i f s = s\<lparr>sf_callers := (sf_callers s)[i := f (sf_callers s ! i)]\<rparr>"

definition set_run :: "nat \<Rightarrow> run_pc \<Rightarrow> sf_state \<Rightarrow> sf_state" where
  "set_run k pc s = s\<lparr>sf_runs := (sf_runs s)[k := (sf_runs s ! k)\<lparr>r_pc := pc\<rparr>]\<rparr>"

section \<open>Steps\<close>

text \<open>
  Entering: lines 29 to 48 under the lock; the first caller starts the goroutine (line 63),
  a later one is told that it joined (line 60).
\<close>

definition sf_enter :: "int \<Rightarrow> ctx \<Rightarrow> string \<Rightarrow> nat option \<Rightarrow> sf_state \<Rightarrow> sf_state" where
  "sf_enter now c env fn s =
    (let (k, joined, token, oc, m) = ensure_enter now c env fn (sf_m s);
         cl = \<lparr>cl_env = env, cl_op = k, cl_token = token, cl_pc = CWaiting, cl_woken = False\<rparr>
     in s\<lparr>sf_m := (if joined then deliver fn (joined_notice env) m else m),
          sf_callers := sf_callers s @ [cl],
          sf_runs := (if joined then sf_runs s
                      else sf_runs s @ [\<lparr>r_env = env, r_pc = RRunning\<rparr>])\<rparr>)"

text \<open>Line 67: \<open>op.done\<close> was closed; \<open>release\<close> without abandoning, and the result.\<close>

definition sf_wake :: "nat \<Rightarrow> sf_state \<Rightarrow> sf_state" where
  "sf_wake i s =
    (let cl = sf_callers s ! i;
         m = release (cl_env cl) (cl_op cl) False (sf_m s)
     in (case op_result (m_opobjs (sf_m s) ! cl_op cl) of
           None \<Rightarrow> s
         | Some r \<Rightarrow> set_caller i (\<lambda>c. c\<lparr>cl_pc := CLeaving r, cl_woken := True\<rparr>) (s\<lparr>sf_m := m\<rparr>)))"

text \<open>Line 70: the caller's context ended; the locked part of \<open>release\<close>.\<close>

definition sf_abandon :: "nat \<Rightarrow> goerr \<Rightarrow> sf_state \<Rightarrow> sf_state" where
  "sf_abandon i e s =
    (let cl = sf_callers s ! i;
         (orphaned, m) = release_locked (cl_env cl) (cl_op cl) True (sf_m s);
         r = Inl (Wrapf (''waiting for environment '' @ cl_env cl @ '': '') e [])
     in set_caller i (\<lambda>c. c\<lparr>cl_pc := (if orphaned then CCancelling r else CLeaving r)\<rparr>)
          (s\<lparr>sf_m := m\<rparr>))"

definition sf_cancel :: "nat \<Rightarrow> (goerr + environment) \<Rightarrow> sf_state \<Rightarrow> sf_state" where
  "sf_cancel i r s =
    set_caller i (\<lambda>c. c\<lparr>cl_pc := CLeaving r\<rparr>)
      (s\<lparr>sf_m := op_cancel (cl_op (sf_callers s ! i)) (sf_m s)\<rparr>)"

definition sf_leave :: "nat \<Rightarrow> (goerr + environment) \<Rightarrow> sf_state \<Rightarrow> sf_state" where
  "sf_leave i r s =
    set_caller i (\<lambda>c. c\<lparr>cl_pc := CReturned r\<rparr>)
      (s\<lparr>sf_m := ensure_leave (cl_op (sf_callers s ! i)) (cl_token (sf_callers s ! i)) (sf_m s)\<rparr>)"

text \<open>
  What a running \<open>ensure\<close>, or any other user of the manager, does to the states. Lemma
  \<open>ensure_opts\<close> shows that \<open>ensure\<close> makes only such changes.
\<close>

definition same_ops :: "manager \<Rightarrow> manager \<Rightarrow> bool" where
  "same_ops m m' \<longleftrightarrow> m_ops m' = m_ops m \<and> m_opobjs m' = m_opobjs m \<and> m_opts m' = m_opts m"

inductive sf_step :: "sf_state \<Rightarrow> sf_state \<Rightarrow> bool" where
  enter: "env \<noteq> [] \<Longrightarrow> sf_step s (sf_enter now c env fn s)"
| wake: "i < length (sf_callers s) \<Longrightarrow> cl_pc (sf_callers s ! i) = CWaiting \<Longrightarrow>
    op_done (m_opobjs (sf_m s) ! cl_op (sf_callers s ! i)) \<Longrightarrow> sf_step s (sf_wake i s)"
| abandon: "i < length (sf_callers s) \<Longrightarrow> cl_pc (sf_callers s ! i) = CWaiting \<Longrightarrow>
    sf_step s (sf_abandon i e s)"
| cancel: "i < length (sf_callers s) \<Longrightarrow> cl_pc (sf_callers s ! i) = CCancelling r \<Longrightarrow>
    sf_step s (sf_cancel i r s)"
| leave: "i < length (sf_callers s) \<Longrightarrow> cl_pc (sf_callers s ! i) = CLeaving r \<Longrightarrow>
    sf_step s (sf_leave i r s)"
| work: "same_ops (sf_m s) m \<Longrightarrow> sf_step s (s\<lparr>sf_m := m\<rparr>)"
| finish: "k < length (sf_runs s) \<Longrightarrow> r_pc (sf_runs s ! k) = RRunning \<Longrightarrow>
    sf_step s (set_run k RFinished (s\<lparr>sf_m := run_finish (r_env (sf_runs s ! k)) k r (sf_m s)\<rparr>))"
| run_cancel: "k < length (sf_runs s) \<Longrightarrow> r_pc (sf_runs s ! k) = RFinished \<Longrightarrow>
    sf_step s (set_run k RCancelled (s\<lparr>sf_m := op_cancel k (sf_m s)\<rparr>))"
| run_close: "k < length (sf_runs s) \<Longrightarrow> r_pc (sf_runs s ! k) = RCancelled \<Longrightarrow>
    sf_step s (set_run k RDone (s\<lparr>sf_m := close_done k (sf_m s)\<rparr>))"

section \<open>Invariant\<close>

definition waiting_on :: "nat \<Rightarrow> caller list \<Rightarrow> nat" where
  "waiting_on k cs = length (filter (\<lambda>c. cl_op c = k \<and> cl_pc c = CWaiting) cs)"

text \<open>One operation, its goroutine and the map.\<close>

definition op_ok :: "sf_state \<Rightarrow> nat \<Rightarrow> bool" where
  "op_ok s k \<longleftrightarrow>
    (let op = m_opobjs (sf_m s) ! k; pc = r_pc (sf_runs s ! k); env = r_env (sf_runs s ! k)
     in op_waiters op = int (waiting_on k (sf_callers s)) \<and>
        (op_result op = None \<longleftrightarrow> pc = RRunning) \<and> (op_done op \<longleftrightarrow> pc = RDone) \<and>
        (pc = RRunning \<longrightarrow>
           (map_of (m_ops (sf_m s)) env = Some k \<longleftrightarrow> 0 < waiting_on k (sf_callers s)) \<and>
           (op_cancelled op \<longrightarrow> waiting_on k (sf_callers s) = 0)))"

definition caller_ok :: "sf_state \<Rightarrow> caller \<Rightarrow> bool" where
  "caller_ok s c \<longleftrightarrow>
     cl_op c < length (sf_runs s) \<and> cl_env c = r_env (sf_runs s ! cl_op c) \<and>
     (cl_woken c \<longrightarrow> (\<exists>r. (cl_pc c = CLeaving r \<or> cl_pc c = CReturned r) \<and>
        op_result (m_opobjs (sf_m s) ! cl_op c) = Some r)) \<and>
     ((\<exists>r. cl_pc c = CCancelling r) \<longrightarrow> waiting_on (cl_op c) (sf_callers s) = 0 \<and>
        map_of (m_ops (sf_m s)) (cl_env c) \<noteq> Some (cl_op c))"

definition sf_inv :: "sf_state \<Rightarrow> bool" where
  "sf_inv s \<longleftrightarrow>
     length (sf_runs s) = length (m_opobjs (sf_m s)) \<and>
     (\<forall>k < length (sf_runs s). op_ok s k) \<and>
     (\<forall>c \<in> set (sf_callers s). caller_ok s c) \<and>
     (\<forall>env k. map_of (m_ops (sf_m s)) env = Some k \<longrightarrow>
        k < length (sf_runs s) \<and> r_env (sf_runs s ! k) = env \<and> r_pc (sf_runs s ! k) = RRunning)"

lemma sf_invD:
  assumes "sf_inv s"
  shows "length (sf_runs s) = length (m_opobjs (sf_m s))"
    and "k < length (sf_runs s) \<Longrightarrow> op_ok s k"
    and "c \<in> set (sf_callers s) \<Longrightarrow> caller_ok s c"
    and "map_of (m_ops (sf_m s)) env = Some k \<Longrightarrow>
      k < length (sf_runs s) \<and> r_env (sf_runs s ! k) = env \<and> r_pc (sf_runs s ! k) = RRunning"
  using assms unfolding sf_inv_def by blast+

lemma sf_invI:
  assumes "length (sf_runs s) = length (m_opobjs (sf_m s))"
    and "\<And>k. k < length (sf_runs s) \<Longrightarrow> op_ok s k"
    and "\<And>c. c \<in> set (sf_callers s) \<Longrightarrow> caller_ok s c"
    and "\<And>env k. map_of (m_ops (sf_m s)) env = Some k \<Longrightarrow>
      k < length (sf_runs s) \<and> r_env (sf_runs s ! k) = env \<and> r_pc (sf_runs s ! k) = RRunning"
  shows "sf_inv s"
  using assms unfolding sf_inv_def by blast

lemma waiting_on_append:
  "waiting_on k (cs @ [c]) = waiting_on k cs + (if cl_op c = k \<and> cl_pc c = CWaiting then 1 else 0)"
  by (simp add: waiting_on_def)

lemma waiting_on_update:
  "i < length cs \<Longrightarrow> int (waiting_on k (cs[i := c])) = int (waiting_on k cs) -
     (if cl_op (cs ! i) = k \<and> cl_pc (cs ! i) = CWaiting then 1 else 0) +
     (if cl_op c = k \<and> cl_pc c = CWaiting then 1 else 0)"
  unfolding waiting_on_def by (rule length_filter_update)

lemma waiting_on_same:
  "i < length cs \<Longrightarrow> cl_pc (cs ! i) \<noteq> CWaiting \<Longrightarrow> cl_pc c \<noteq> CWaiting \<Longrightarrow>
   waiting_on k (cs[i := c]) = waiting_on k cs"
  using waiting_on_update [of i cs k c] by simp

lemma waiting_on_pos:
  "i < length cs \<Longrightarrow> cl_pc (cs ! i) = CWaiting \<Longrightarrow> 0 < waiting_on (cl_op (cs ! i)) cs"
  unfolding waiting_on_def by (rule filter_nth_pos) auto

lemma set_op_nth_eq:
  "m_opobjs (set_op k f m) ! j = (if j = k \<and> k < length (m_opobjs m) then f (m_opobjs m ! k) else m_opobjs m ! j)"
  by (cases "k < length (m_opobjs m)") (auto simp: set_op_def nth_list_update list_update_beyond)

lemma set_caller_simps [simp]:
  "sf_m (set_caller i f s) = sf_m s" "sf_runs (set_caller i f s) = sf_runs s"
  "sf_callers (set_caller i f s) = (sf_callers s)[i := f (sf_callers s ! i)]"
  by (simp_all add: set_caller_def)

lemma set_run_simps [simp]:
  "sf_m (set_run k pc s) = sf_m s" "sf_callers (set_run k pc s) = sf_callers s"
  "length (sf_runs (set_run k pc s)) = length (sf_runs s)"
  "r_env (sf_runs (set_run k pc s) ! j) = r_env (sf_runs s ! j)"
  by (simp_all add: set_run_def)
    (cases "k < length (sf_runs s)"; cases "j = k"; simp add: list_update_beyond)

lemma set_run_pc:
  "k < length (sf_runs s) \<Longrightarrow>
   r_pc (sf_runs (set_run k pc s) ! j) = (if j = k then pc else r_pc (sf_runs s ! j))"
  by (simp add: set_run_def nth_list_update)

lemma set_update_caller:
  "c \<in> set (cs[i := x]) \<Longrightarrow> c = x \<or> c \<in> set cs"
  using set_update_subset_insert by fastforce

lemma sf_inv_start: "sf_start s \<Longrightarrow> sf_inv s"
  by (simp add: sf_start_def sf_inv_def)

lemma caller_ok_mono:
  assumes "caller_ok s c" and "length (sf_runs s) \<le> length (sf_runs t)"
    and "\<And>k. k < length (sf_runs s) \<Longrightarrow> r_env (sf_runs t ! k) = r_env (sf_runs s ! k)"
    and "\<And>r. op_result (m_opobjs (sf_m s) ! cl_op c) = Some r \<Longrightarrow>
      op_result (m_opobjs (sf_m t) ! cl_op c) = Some r"
    and "cl_op c < length (sf_runs s) \<Longrightarrow> map_of (m_ops (sf_m s)) (cl_env c) \<noteq> Some (cl_op c) \<Longrightarrow>
      waiting_on (cl_op c) (sf_callers s) = 0 \<Longrightarrow>
      map_of (m_ops (sf_m t)) (cl_env c) \<noteq> Some (cl_op c) \<and>
      waiting_on (cl_op c) (sf_callers t) = 0"
  shows "caller_ok t c"
proof -
  have l: "cl_op c < length (sf_runs s)" and e: "cl_env c = r_env (sf_runs s ! cl_op c)"
    using assms(1) by (simp_all add: caller_ok_def)
  have w: "cl_woken c \<Longrightarrow> \<exists>r. (cl_pc c = CLeaving r \<or> cl_pc c = CReturned r) \<and>
      op_result (m_opobjs (sf_m t) ! cl_op c) = Some r"
    using assms(1) assms(4) unfolding caller_ok_def by blast
  have x: "(\<exists>r. cl_pc c = CCancelling r) \<longrightarrow> waiting_on (cl_op c) (sf_callers t) = 0 \<and>
      map_of (m_ops (sf_m t)) (cl_env c) \<noteq> Some (cl_op c)"
    using assms(1) assms(5) [OF l] unfolding caller_ok_def by blast
  from l e w x assms(2) assms(3) [OF l] show ?thesis unfolding caller_ok_def by auto
qed

lemma run_finish_map:
  "j \<noteq> k \<Longrightarrow> map_of (m_ops (run_finish env k r m)) e = Some j \<longleftrightarrow> map_of (m_ops m) e = Some j"
  "map_of (m_ops (run_finish env k r m)) env \<noteq> Some k"
  "m_opobjs (run_finish env k r m) = m_opobjs (set_op k (\<lambda>op. op\<lparr>op_result := Some r\<rparr>) m)"
  "map_of (m_ops (run_finish env k r m)) e = Some j \<Longrightarrow> map_of (m_ops m) e = Some j"
  by (auto simp: run_finish_def Let_def split: if_splits)

text \<open>Steps of the goroutine.\<close>

lemma sf_inv_finish:
  assumes "sf_inv s" and "k < length (sf_runs s)" and "r_pc (sf_runs s ! k) = RRunning"
  shows "sf_inv (set_run k RFinished (s\<lparr>sf_m := run_finish (r_env (sf_runs s ! k)) k r (sf_m s)\<rparr>))"
    (is "sf_inv ?t")
proof (rule sf_invI)
  note I = sf_invD [OF assms(1)]
  show "length (sf_runs ?t) = length (m_opobjs (sf_m ?t))"
    using I(1) by (simp add: run_finish_def Let_def)
  show "op_ok ?t j" if j: "j < length (sf_runs ?t)" for j
  proof (cases "j = k")
    case True
    with I(2) [of k] assms(2,3) I(1) show ?thesis
      by (simp add: op_ok_def Let_def set_run_pc run_finish_map(1-3) set_op_nth_eq)
  next
    case False
    with I(2) [of j] j assms(2) show ?thesis
      by (simp add: op_ok_def Let_def set_run_pc run_finish_map(1-3) set_op_nth_eq)
  qed
  show "caller_ok ?t c" if "c \<in> set (sf_callers ?t)" for c
  proof -
    from that have c: "caller_ok s c" using I(3) by simp
    have none: "op_result (m_opobjs (sf_m s) ! k) = None"
      using I(2) [OF assms(2)] assms(3) by (simp add: op_ok_def Let_def)
    from c show ?thesis
    proof (rule caller_ok_mono, goal_cases)
      case (3 r)
      with none have "cl_op c \<noteq> k" by auto
      with 3 show ?case by (simp add: run_finish_map(3) set_op_nth_eq)
    next
      case 4
      then show ?case by (auto dest: run_finish_map(4))
    qed simp_all
  qed
  show "j < length (sf_runs ?t) \<and> r_env (sf_runs ?t ! j) = env \<and> r_pc (sf_runs ?t ! j) = RRunning"
    if "map_of (m_ops (sf_m ?t)) env = Some j" for env j
  proof -
    from that have m: "map_of (m_ops (sf_m s)) env = Some j" by (auto dest: run_finish_map(4))
    with I(4) have e: "j < length (sf_runs s)" "r_env (sf_runs s ! j) = env"
      "r_pc (sf_runs s ! j) = RRunning" by blast+
    from that e(2) have "j \<noteq> k" using run_finish_map(2) by force
    with e assms(2) show ?thesis by (simp add: set_run_pc)
  qed
qed

lemma sf_inv_run_cancel:
  assumes "sf_inv s" and "k < length (sf_runs s)" and "r_pc (sf_runs s ! k) = RFinished"
  shows "sf_inv (set_run k RCancelled (s\<lparr>sf_m := op_cancel k (sf_m s)\<rparr>))" (is "sf_inv ?t")
proof (rule sf_invI)
  note I = sf_invD [OF assms(1)]
  show "length (sf_runs ?t) = length (m_opobjs (sf_m ?t))"
    using I(1) by (simp add: op_cancel_def)
  show "op_ok ?t j" if "j < length (sf_runs ?t)" for j
    using that assms I(1) I(2) [of j]
    by (auto simp: op_ok_def Let_def set_run_pc op_cancel_def set_op_nth_eq)
  show "caller_ok ?t c" if "c \<in> set (sf_callers ?t)" for c
    using that assms I(1) I(3) [of c]
    by (auto simp: caller_ok_def op_cancel_def set_op_nth_eq)
  show "j < length (sf_runs ?t) \<and> r_env (sf_runs ?t ! j) = env \<and> r_pc (sf_runs ?t ! j) = RRunning"
    if "map_of (m_ops (sf_m ?t)) env = Some j" for env j
    using that assms I(4) [of env j] by (auto simp: set_run_pc op_cancel_def)
qed

lemma sf_inv_run_close:
  assumes "sf_inv s" and "k < length (sf_runs s)" and "r_pc (sf_runs s ! k) = RCancelled"
  shows "sf_inv (set_run k RDone (s\<lparr>sf_m := close_done k (sf_m s)\<rparr>))" (is "sf_inv ?t")
proof (rule sf_invI)
  note I = sf_invD [OF assms(1)]
  show "length (sf_runs ?t) = length (m_opobjs (sf_m ?t))"
    using I(1) by (simp add: close_done_def)
  show "op_ok ?t j" if "j < length (sf_runs ?t)" for j
    using that assms I(1) I(2) [of j]
    by (auto simp: op_ok_def Let_def set_run_pc close_done_def set_op_nth_eq)
  show "caller_ok ?t c" if "c \<in> set (sf_callers ?t)" for c
    using that assms I(1) I(3) [of c]
    by (auto simp: caller_ok_def close_done_def set_op_nth_eq)
  show "j < length (sf_runs ?t) \<and> r_env (sf_runs ?t ! j) = env \<and> r_pc (sf_runs ?t ! j) = RRunning"
    if "map_of (m_ops (sf_m ?t)) env = Some j" for env j
    using that assms I(4) [of env j] by (auto simp: set_run_pc close_done_def)
qed

lemma sf_inv_work:
  assumes "sf_inv s" and "same_ops (sf_m s) m"
  shows "sf_inv (s\<lparr>sf_m := m\<rparr>)"
proof (rule sf_invI)
  note I = sf_invD [OF assms(1)]
  have m: "m_ops m = m_ops (sf_m s)" "m_opobjs m = m_opobjs (sf_m s)"
    using assms(2) by (simp_all add: same_ops_def)
  show "length (sf_runs (s\<lparr>sf_m := m\<rparr>)) = length (m_opobjs (sf_m (s\<lparr>sf_m := m\<rparr>)))"
    using I(1) m by simp
  show "op_ok (s\<lparr>sf_m := m\<rparr>) k" if "k < length (sf_runs (s\<lparr>sf_m := m\<rparr>))" for k
    using that I(2) [of k] m by (simp add: op_ok_def)
  show "caller_ok (s\<lparr>sf_m := m\<rparr>) c" if "c \<in> set (sf_callers (s\<lparr>sf_m := m\<rparr>))" for c
    using that I(3) [of c] m by (auto simp: caller_ok_def)
qed (use sf_invD(4) [OF assms(1)] assms(2) in \<open>simp add: same_ops_def\<close>)

text \<open>Steps of a caller that is not blocked.\<close>

lemma sf_inv_quiet_caller:
  assumes inv: "sf_inv s" and i: "i < length (sf_callers s)"
    and pc: "cl_pc (sf_callers s ! i) \<noteq> CWaiting"
    and f: "cl_op c' = cl_op (sf_callers s ! i)" "cl_env c' = cl_env (sf_callers s ! i)"
      "cl_woken c' = cl_woken (sf_callers s ! i)"
      "\<exists>r. (cl_pc c' = CLeaving r \<or> cl_pc c' = CReturned r) \<and>
         (cl_pc (sf_callers s ! i) = CLeaving r \<or> cl_pc (sf_callers s ! i) = CCancelling r)"
    and m: "m_ops m = m_ops (sf_m s)" "length (m_opobjs m) = length (m_opobjs (sf_m s))"
      "\<And>k. op_waiters (m_opobjs m ! k) = op_waiters (m_opobjs (sf_m s) ! k)"
      "\<And>k. op_result (m_opobjs m ! k) = op_result (m_opobjs (sf_m s) ! k)"
      "\<And>k. op_done (m_opobjs m ! k) = op_done (m_opobjs (sf_m s) ! k)"
      "\<And>k. op_cancelled (m_opobjs m ! k) \<Longrightarrow>
         op_cancelled (m_opobjs (sf_m s) ! k) \<or> waiting_on k (sf_callers s) = 0"
  shows "sf_inv (s\<lparr>sf_m := m, sf_callers := (sf_callers s)[i := c']\<rparr>)" (is "sf_inv ?t")
proof -
  note I = sf_invD [OF inv]
  have "cl_pc c' \<noteq> CWaiting" using f(4) by auto
  then have wt: "waiting_on k (sf_callers ?t) = waiting_on k (sf_callers s)" for k
    using waiting_on_same [OF i pc] by simp
  show ?thesis
  proof (rule sf_invI)
    show "length (sf_runs ?t) = length (m_opobjs (sf_m ?t))" using I(1) m(2) by simp
    show "op_ok ?t k" if "k < length (sf_runs ?t)" for k
      using that I(2) [of k] wt [of k] m by (auto simp: op_ok_def Let_def)
    show "caller_ok ?t c" if "c \<in> set (sf_callers ?t)" for c
    proof -
      have same: "caller_ok s c \<Longrightarrow> caller_ok ?t c"
        using m wt by (auto simp: caller_ok_def)
      from that have "c = c' \<or> c \<in> set (sf_callers s)" by (auto dest: set_update_caller)
      then show ?thesis
      proof
        assume "c \<in> set (sf_callers s)"
        with I(3) same show ?thesis by blast
      next
        assume c: "c = c'"
        have "caller_ok s (sf_callers s ! i)" using I(3) i by simp
        with f m wt show ?thesis unfolding c by (auto simp: caller_ok_def)
      qed
    qed
    show "k < length (sf_runs ?t) \<and> r_env (sf_runs ?t ! k) = env \<and> r_pc (sf_runs ?t ! k) = RRunning"
      if "map_of (m_ops (sf_m ?t)) env = Some k" for env k
      using that I(4) m(1) by simp
  qed
qed

lemma sf_inv_leave:
  assumes "sf_inv s" and "i < length (sf_callers s)" and "cl_pc (sf_callers s ! i) = CLeaving r"
  shows "sf_inv (sf_leave i r s)"
proof -
  let ?m = "ensure_leave (cl_op (sf_callers s ! i)) (cl_token (sf_callers s ! i)) (sf_m s)"
  have "sf_inv (s\<lparr>sf_m := ?m, sf_callers := (sf_callers s)[i := (sf_callers s ! i)\<lparr>cl_pc := CReturned r\<rparr>]\<rparr>)"
    using assms
    by (intro sf_inv_quiet_caller)
      (auto simp: ensure_leave_def set_op_nth_eq removeNotifier_def split: if_splits)
  then show ?thesis by (simp add: sf_leave_def set_caller_def)
qed

lemma sf_inv_cancel:
  assumes "sf_inv s" and "i < length (sf_callers s)" and "cl_pc (sf_callers s ! i) = CCancelling r"
  shows "sf_inv (sf_cancel i r s)"
proof -
  have "waiting_on (cl_op (sf_callers s ! i)) (sf_callers s) = 0"
    using sf_invD(3) [OF assms(1), of "sf_callers s ! i"] assms(2,3) by (simp add: caller_ok_def)
  then have "sf_inv (s\<lparr>sf_m := op_cancel (cl_op (sf_callers s ! i)) (sf_m s),
      sf_callers := (sf_callers s)[i := (sf_callers s ! i)\<lparr>cl_pc := CLeaving r\<rparr>]\<rparr>)"
    using assms
    by (intro sf_inv_quiet_caller) (auto simp: op_cancel_def set_op_nth_eq split: if_splits)
  then show ?thesis by (simp add: sf_cancel_def set_caller_def)
qed

text \<open>Steps that change who waits.\<close>

lemma release_locked_facts:
  assumes "release_locked env k ab m = (orph, m')" and "k < length (m_opobjs m)"
  shows "m_opobjs m' = m_opobjs (set_op k (\<lambda>op. op\<lparr>op_waiters := op_waiters op - 1\<rparr>) m)"
    and "orph \<longleftrightarrow> ab \<and> op_waiters (m_opobjs m ! k) = 1"
    and "j \<noteq> k \<Longrightarrow> map_of (m_ops m') e = Some j \<longleftrightarrow> map_of (m_ops m) e = Some j"
    and "map_of (m_ops m') e = Some k \<longrightarrow> map_of (m_ops m) e = Some k"
    and "map_of (m_ops m') env = Some k \<longleftrightarrow> map_of (m_ops m) env = Some k \<and> \<not> orph"
  using assms by (auto simp: release_locked_def Let_def set_op_nth_eq split: if_splits)

lemma sf_inv_unblock:
  assumes inv: "sf_inv s" and i: "i < length (sf_callers s)"
    and pc: "cl_pc (sf_callers s ! i) = CWaiting"
    and rl: "release_locked (cl_env (sf_callers s ! i)) (cl_op (sf_callers s ! i)) ab (sf_m s) = (orph, m)"
    and dn: "\<not> ab \<longrightarrow> op_done (m_opobjs (sf_m s) ! cl_op (sf_callers s ! i))"
    and c': "cl_op c' = cl_op (sf_callers s ! i)" "cl_env c' = cl_env (sf_callers s ! i)"
      "cl_pc c' = (if orph then CCancelling r else CLeaving r)"
      "cl_woken c' \<longrightarrow> \<not> orph \<and> op_result (m_opobjs (sf_m s) ! cl_op (sf_callers s ! i)) = Some r"
  shows "sf_inv (s\<lparr>sf_m := m, sf_callers := (sf_callers s)[i := c']\<rparr>)" (is "sf_inv ?t")
proof -
  note I = sf_invD [OF inv]
  let ?k = "cl_op (sf_callers s ! i)" and ?env = "cl_env (sf_callers s ! i)"
  have ci: "caller_ok s (sf_callers s ! i)" using I(3) i by simp
  then have k: "?k < length (sf_runs s)" and env: "r_env (sf_runs s ! ?k) = ?env"
    by (simp_all add: caller_ok_def)
  have ok: "op_ok s ?k" using I(2) k by blast
  have pos: "0 < waiting_on ?k (sf_callers s)" by (rule waiting_on_pos [OF i pc])
  have "cl_pc c' \<noteq> CWaiting" using c'(3) by auto
  then have wt: "int (waiting_on j (sf_callers ?t)) =
      int (waiting_on j (sf_callers s)) - (if j = ?k then 1 else 0)" for j
    using waiting_on_update [OF i, of j c'] pc by auto
  note R = release_locked_facts [OF rl, unfolded I(1) [symmetric], OF k]
  have orph: "orph \<longleftrightarrow> ab \<and> waiting_on ?k (sf_callers ?t) = 0"
    using R(2) ok wt [of ?k] by (auto simp: op_ok_def Let_def)
  have mk: "map_of (m_ops m) ?env = Some ?k \<longleftrightarrow> map_of (m_ops (sf_m s)) ?env = Some ?k \<and> \<not> orph"
    by (rule R(5))
  have res: "op_result (m_opobjs m ! j) = op_result (m_opobjs (sf_m s) ! j)" for j
    by (simp add: R(1) set_op_nth_eq)
  show ?thesis
  proof (rule sf_invI)
    show "length (sf_runs ?t) = length (m_opobjs (sf_m ?t))" using I(1) R(1) by simp
    show "op_ok ?t j" if j: "j < length (sf_runs ?t)" for j
    proof (cases "j = ?k")
      case False
      with I(2) [of j] j wt [of j] R(1,3) show ?thesis
        by (simp add: op_ok_def Let_def set_op_nth_eq)
    next
      case True
      have "op_waiters (m_opobjs m ! ?k) = int (waiting_on ?k (sf_callers ?t))"
        using ok wt [of ?k] k I(1) by (simp add: op_ok_def Let_def R(1) set_op_nth_eq)
      moreover have "map_of (m_ops m) ?env = Some ?k \<longleftrightarrow> 0 < waiting_on ?k (sf_callers ?t)"
        if "r_pc (sf_runs s ! ?k) = RRunning"
        using that ok pos mk orph dn env by (auto simp: op_ok_def Let_def)
      ultimately show ?thesis unfolding True
        using ok env pos k I(1) by (auto simp: op_ok_def Let_def R(1) set_op_nth_eq)
    qed
    show "caller_ok ?t c" if c: "c \<in> set (sf_callers ?t)" for c
    proof (cases "c \<in> set (sf_callers s)")
      case True
      with I(3) have "caller_ok s c" by blast
      then show ?thesis
      proof (rule caller_ok_mono, goal_cases)
        case 4
        with pos have "cl_op c \<noteq> ?k" by auto
        with 4 wt [of "cl_op c"] R(3) [of "cl_op c" "cl_env c"] show ?case by auto
      qed (simp_all add: res)
    next
      case False
      with c have "c = c'" by (auto dest: set_update_caller)
      then show ?thesis using c' k env res mk orph by (auto simp: caller_ok_def)
    qed
    show "j < length (sf_runs ?t) \<and> r_env (sf_runs ?t ! j) = e \<and> r_pc (sf_runs ?t ! j) = RRunning"
      if "map_of (m_ops (sf_m ?t)) e = Some j" for e j
      using that I(4) [of e j] R(3) [of j e] R(4) [of e] by (cases "j = ?k") auto
  qed
qed

lemma sf_inv_abandon:
  assumes "sf_inv s" and "i < length (sf_callers s)" and "cl_pc (sf_callers s ! i) = CWaiting"
  shows "sf_inv (sf_abandon i e s)"
proof -
  let ?c = "sf_callers s ! i"
  let ?r = "Inl (Wrapf (''waiting for environment '' @ cl_env ?c @ '': '') e [])"
  obtain orph m where rl: "release_locked (cl_env ?c) (cl_op ?c) True (sf_m s) = (orph, m)"
    by (cases "release_locked (cl_env ?c) (cl_op ?c) True (sf_m s)")
  have nw: "\<not> cl_woken ?c"
    using sf_invD(3) [OF assms(1), of ?c] assms(2,3) by (auto simp: caller_ok_def)
  have "sf_inv (s\<lparr>sf_m := m, sf_callers :=
      (sf_callers s)[i := ?c\<lparr>cl_pc := if orph then CCancelling ?r else CLeaving ?r\<rparr>]\<rparr>)"
    by (rule sf_inv_unblock [OF assms rl]) (use nw in auto)
  then show ?thesis by (cases orph) (simp_all add: sf_abandon_def rl set_caller_def Let_def)
qed

lemma sf_inv_wake:
  assumes "sf_inv s" and "i < length (sf_callers s)" and "cl_pc (sf_callers s ! i) = CWaiting"
    and "op_done (m_opobjs (sf_m s) ! cl_op (sf_callers s ! i))"
  shows "sf_inv (sf_wake i s)"
proof -
  let ?c = "sf_callers s ! i"
  have "cl_op ?c < length (sf_runs s)"
    using sf_invD(3) [OF assms(1), of ?c] assms(2) by (simp add: caller_ok_def)
  then have "op_ok s (cl_op ?c)" using sf_invD(2) [OF assms(1)] by blast
  with assms(4) obtain r where r: "op_result (m_opobjs (sf_m s) ! cl_op ?c) = Some r"
    by (auto simp: op_ok_def Let_def)
  let ?m = "snd (release_locked (cl_env ?c) (cl_op ?c) False (sf_m s))"
  have rl: "release_locked (cl_env ?c) (cl_op ?c) False (sf_m s) = (False, ?m)"
    by (simp add: release_locked_def Let_def)
  have "sf_inv (s\<lparr>sf_m := ?m, sf_callers :=
      (sf_callers s)[i := ?c\<lparr>cl_pc := CLeaving r, cl_woken := True\<rparr>]\<rparr>)"
    by (rule sf_inv_unblock [OF assms(1-3) rl]) (use r assms(4) in auto)
  moreover have "release (cl_env ?c) (cl_op ?c) False (sf_m s) = ?m"
    by (subst release_def, subst rl) simp
  ultimately show ?thesis using r by (simp add: sf_wake_def Let_def set_caller_def)
qed

lemma waiting_on_fresh:
  assumes "sf_inv s" and "length (sf_runs s) \<le> k"
  shows "waiting_on k (sf_callers s) = 0"
proof -
  have "cl_op c \<noteq> k" if "c \<in> set (sf_callers s)" for c
    using sf_invD(3) [OF assms(1) that] assms(2) by (auto simp: caller_ok_def)
  then show ?thesis by (auto simp: waiting_on_def filter_empty_conv)
qed

lemma ensure_enter_facts:
  assumes "ensure_enter now c env fn m = (k, joined, token, oc, m')"
  shows "joined \<Longrightarrow> map_of (m_ops m) env = Some k \<and> m_ops m' = m_ops m \<and>
      (\<exists>op'. m_opobjs m' = (m_opobjs m)[k := op'] \<and>
        op_waiters op' = op_waiters (m_opobjs m ! k) + 1 \<and>
        op_result op' = op_result (m_opobjs m ! k) \<and> op_done op' = op_done (m_opobjs m ! k) \<and>
        op_cancelled op' = op_cancelled (m_opobjs m ! k))"
    and "\<not> joined \<Longrightarrow> map_of (m_ops m) env = None \<and> k = length (m_opobjs m) \<and>
      m_ops m' = AList.update env k (m_ops m) \<and>
      (\<exists>op'. m_opobjs m' = m_opobjs m @ [op'] \<and> op_waiters op' = 1 \<and> op_result op' = None \<and>
        \<not> op_done op' \<and> \<not> op_cancelled op')"
  using assms
  by (auto simp: ensure_enter_def Let_def set_op_def addNotifier_def new_operation_def
      split: option.splits prod.splits if_splits)

text \<open>What the critical section of a caller adds to the state.\<close>

lemma sf_enter_simps:
  assumes "ensure_enter now c env fn (sf_m s) = (k, joined, token, oc, m)"
  shows "sf_callers (sf_enter now c env fn s) =
      sf_callers s @ [\<lparr>cl_env = env, cl_op = k, cl_token = token, cl_pc = CWaiting, cl_woken = False\<rparr>]"
    and "sf_runs (sf_enter now c env fn s) = (if joined then sf_runs s else sf_runs s @ [\<lparr>r_env = env, r_pc = RRunning\<rparr>])"
    and "m_ops (sf_m (sf_enter now c env fn s)) = m_ops m" "m_opobjs (sf_m (sf_enter now c env fn s)) = m_opobjs m"
    and "waiting_on j (sf_callers (sf_enter now c env fn s)) = waiting_on j (sf_callers s) + (if j = k then 1 else 0)"
  by (simp_all add: sf_enter_def assms waiting_on_append)

lemma sf_inv_join:
  assumes inv: "sf_inv s" and en: "ensure_enter now c env fn (sf_m s) = (k, True, token, oc, m)"
  shows "sf_inv (sf_enter now c env fn s)" (is "sf_inv ?t")
proof -
  note I = sf_invD [OF inv] and t = sf_enter_simps(1-4) [OF en, simplified] and wt = sf_enter_simps(5) [OF en]
  let ?cl = "\<lparr>cl_env = env, cl_op = k, cl_token = token, cl_pc = CWaiting, cl_woken = False\<rparr>"
  obtain op' where mk: "map_of (m_ops (sf_m s)) env = Some k" and o': "m_ops m = m_ops (sf_m s)"
    and ob: "m_opobjs m = (m_opobjs (sf_m s))[k := op']"
      "op_waiters op' = op_waiters (m_opobjs (sf_m s) ! k) + 1"
      "op_result op' = op_result (m_opobjs (sf_m s) ! k)"
      "op_done op' = op_done (m_opobjs (sf_m s) ! k)"
      "op_cancelled op' = op_cancelled (m_opobjs (sf_m s) ! k)"
    using ensure_enter_facts(1) [OF en] by blast
  have k: "k < length (sf_runs s)" "r_env (sf_runs s ! k) = env" "r_pc (sf_runs s ! k) = RRunning"
    using I(4) [OF mk] by blast+
  have res: "op_result (m_opobjs m ! j) = op_result (m_opobjs (sf_m s) ! j)" for j
    using ob k(1) I(1) by (cases "j = k") simp_all
  show ?thesis
  proof (rule sf_invI)
    show "length (sf_runs ?t) = length (m_opobjs (sf_m ?t))" using t ob I(1) by simp
    show "op_ok ?t j" if j: "j < length (sf_runs ?t)" for j
    proof (cases "j = k")
      case False
      with I(2) [of j] j t ob o' wt [of j] show ?thesis
        by (simp add: op_ok_def Let_def)
    next
      case j: True
      have "0 < waiting_on k (sf_callers s)"
        using I(2) [OF k(1)] k mk by (simp add: op_ok_def Let_def)
      with I(2) [OF k(1)] k t ob o' wt [of k] mk I(1) show ?thesis unfolding j
        by (simp add: op_ok_def Let_def)
    qed
    show "caller_ok ?t c'" if c': "c' \<in> set (sf_callers ?t)" for c'
    proof (cases "c' = ?cl")
      case j: True
      then show ?thesis using t k by (simp add: caller_ok_def)
    next
      case False
      with c' t(1) I(3) have "caller_ok s c'" by auto
      then show ?thesis
      proof (rule caller_ok_mono, goal_cases)
        case 4
        have "cl_op c' \<noteq> k"
          using 4 I(2) [OF k(1)] k mk by (auto simp: op_ok_def Let_def)
        with 4 t o' wt [of "cl_op c'"] show ?case by simp
      qed (simp_all add: t res)
    qed
    show "j < length (sf_runs ?t) \<and> r_env (sf_runs ?t ! j) = e \<and> r_pc (sf_runs ?t ! j) = RRunning"
      if "map_of (m_ops (sf_m ?t)) e = Some j" for e j
      using that I(4) [of e j] t o' by simp
  qed
qed

lemma sf_inv_begin:
  assumes inv: "sf_inv s" and en: "ensure_enter now c env fn (sf_m s) = (k, False, token, oc, m)"
  shows "sf_inv (sf_enter now c env fn s)" (is "sf_inv ?t")
proof -
  note I = sf_invD [OF inv] and t = sf_enter_simps(1-4) [OF en, simplified] and wt = sf_enter_simps(5) [OF en]
  let ?cl = "\<lparr>cl_env = env, cl_op = k, cl_token = token, cl_pc = CWaiting, cl_woken = False\<rparr>"
  obtain op' where mk: "map_of (m_ops (sf_m s)) env = None" and kl: "k = length (m_opobjs (sf_m s))"
    and o': "m_ops m = AList.update env k (m_ops (sf_m s))"
    and ob: "m_opobjs m = m_opobjs (sf_m s) @ [op']"
      "op_waiters op' = 1" "op_result op' = None" "\<not> op_done op'" "\<not> op_cancelled op'"
    using ensure_enter_facts(2) [OF en] by blast
  have w0: "waiting_on k (sf_callers s) = 0" using waiting_on_fresh [OF inv] kl I(1) by simp
  show ?thesis
  proof (rule sf_invI)
    show "length (sf_runs ?t) = length (m_opobjs (sf_m ?t))" using t ob I(1) by simp
    show "op_ok ?t j" if j: "j < length (sf_runs ?t)" for j
    proof (cases "j = k")
      case j: True
      show ?thesis unfolding j using t ob o' wt [of k] w0 kl I(1)
        by (simp add: op_ok_def Let_def nth_append)
    next
      case jk: False
      with j t kl I(1) have js: "j < length (sf_runs s)" by simp
      have "map_of (m_ops m) e = Some j \<longleftrightarrow> map_of (m_ops (sf_m s)) e = Some j" for e
        using o' jk mk by auto
      with I(2) [OF js] js t ob kl I(1) wt [of j] jk show ?thesis
        by (simp add: op_ok_def Let_def nth_append)
    qed
    show "caller_ok ?t c'" if c': "c' \<in> set (sf_callers ?t)" for c'
    proof (cases "c' = ?cl")
      case j: True
      then show ?thesis using t kl I(1) by (simp add: caller_ok_def nth_append)
    next
      case nj: False
      with c' t(1) I(3) have co: "caller_ok s c'" by auto
      then have lt: "cl_op c' < length (sf_runs s)" by (simp add: caller_ok_def)
      from co show ?thesis
      proof (rule caller_ok_mono, goal_cases)
        case (3 r)
        with t ob lt I(1) show ?case by (simp add: nth_append)
      next
        case 4
        then have "cl_op c' \<noteq> k" using kl I(1) by simp
        with 4 t o' wt [of "cl_op c'"] show ?case by auto
      qed (simp_all add: t nth_append)
    qed
    show "j < length (sf_runs ?t) \<and> r_env (sf_runs ?t ! j) = e \<and> r_pc (sf_runs ?t ! j) = RRunning"
      if "map_of (m_ops (sf_m ?t)) e = Some j" for e j
      using that I(4) [of e j] t o' kl I(1) by (auto simp: nth_append split: if_splits)
  qed
qed

lemma sf_inv_enter:
  assumes "sf_inv s"
  shows "sf_inv (sf_enter now c env fn s)"
proof -
  obtain k joined token oc m where "ensure_enter now c env fn (sf_m s) = (k, joined, token, oc, m)"
    by (metis prod_cases5)
  with sf_inv_join [OF assms, of now c env fn k token oc m] sf_inv_begin [OF assms, of now c env fn k token oc m]
  show ?thesis by (cases joined) simp_all
qed

interpretation sf: step_system sf_start sf_step sf_inv
proof
  show "sf_inv s" if "sf_start s" for s
    using that by (rule sf_inv_start)
  show "sf_inv t" if "sf_step s t" "sf_inv s" for s t
    using that
    by (cases rule: sf_step.cases)
      (simp_all add: sf_inv_enter sf_inv_wake sf_inv_abandon sf_inv_cancel sf_inv_leave
        sf_inv_work sf_inv_finish sf_inv_run_cancel sf_inv_run_close)
qed

section \<open>What callers can rely on\<close>

lemma waiting_runs:
  assumes "sf_inv t" and "i < length (sf_callers t)" and "cl_pc (sf_callers t ! i) = CWaiting"
    and "r_pc (sf_runs t ! cl_op (sf_callers t ! i)) = RRunning"
  shows "map_of (m_ops (sf_m t)) (cl_env (sf_callers t ! i)) = Some (cl_op (sf_callers t ! i))"
    and "\<not> op_cancelled (m_opobjs (sf_m t) ! cl_op (sf_callers t ! i))"
    and "op_waiters (m_opobjs (sf_m t) ! cl_op (sf_callers t ! i)) =
      int (waiting_on (cl_op (sf_callers t ! i)) (sf_callers t))"
proof -
  let ?c = "sf_callers t ! i"
  have c: "caller_ok t ?c" using sf_invD(3) [OF assms(1)] assms(2) by simp
  then have "op_ok t (cl_op ?c)" using sf_invD(2) [OF assms(1)] by (simp add: caller_ok_def)
  moreover have "0 < waiting_on (cl_op ?c) (sf_callers t)"
    using assms(2,3) by (rule waiting_on_pos)
  ultimately show "map_of (m_ops (sf_m t)) (cl_env ?c) = Some (cl_op ?c)"
    and "\<not> op_cancelled (m_opobjs (sf_m t) ! cl_op ?c)"
    and "op_waiters (m_opobjs (sf_m t) ! cl_op ?c) = int (waiting_on (cl_op ?c) (sf_callers t))"
    using c assms(4) by (auto simp: op_ok_def caller_ok_def Let_def)
qed

text \<open>A run of two callers of the same environment, used by the witnesses.\<close>

definition opts0 :: options where
  "opts0 = \<lparr>AutoCreate = True, StartTimeout = 60 * second, CreateTimeout = 60 * second,
     ConnectTimeout = 60 * second, PollInterval = second, ConnectRetries = 2,
     StopOnLastDisconnect = False\<rparr>"

definition ctx0 :: ctx where
  "ctx0 = \<lparr>ctx_deadline = None, ctx_cancel = None, ctx_signal = 1\<rparr>"

definition sf0 :: sf_state where
  "sf0 = \<lparr>sf_m = New_manager opts0, sf_callers = [], sf_runs = []\<rparr>"

definition sf1 :: sf_state where
  "sf1 = sf_enter 0 ctx0 ''e'' (Some 7) sf0"

definition sf2 :: sf_state where
  "sf2 = sf_enter 0 ctx0 ''e'' None sf1"

text \<open>Both callers are woken with the error \<open>Errorf ''x''\<close>.\<close>

definition sf3 :: sf_state where
  "sf3 = set_run 0 RDone (sf2\<lparr>sf_m := close_done 0 (op_cancel 0
     (run_finish ''e'' 0 (Inl (Errorf ''x'')) (sf_m sf2)))\<rparr>)"

definition sf4 :: sf_state where
  "sf4 = sf_wake 1 (sf_wake 0 sf3)"

lemma sf_start_sf0: "sf_start sf0"
  by (simp add: sf_start_def sf0_def New_manager_def)

lemma sf0_sf1: "sf_step\<^sup>*\<^sup>* sf0 sf1"
  unfolding sf1_def by (rule r_into_rtranclp, rule sf_step.enter) simp

lemma sf0_sf2: "sf_step\<^sup>*\<^sup>* sf0 sf2"
  using sf0_sf1 unfolding sf2_def
  by (rule rtranclp.rtrancl_into_rtrancl) (rule sf_step.enter, simp)

lemmas sf_eval = sf0_def sf1_def sf2_def sf_enter_def ensure_enter_def New_manager_def Let_def
  addNotifier_def new_operation_def set_op_def deliver_def

lemma sf1_eval:
  "sf_callers sf1 = [\<lparr>cl_env = ''e'', cl_op = 0, cl_token = 1, cl_pc = CWaiting, cl_woken = False\<rparr>]"
  "sf_runs sf1 = [\<lparr>r_env = ''e'', r_pc = RRunning\<rparr>]"
  "m_ops (sf_m sf1) = [(''e'', 0)]"
  "length (m_opobjs (sf_m sf1)) = 1"
  by (simp_all add: sf_eval)

lemma sf1_eq:
  "sf1 = \<lparr>sf_m = \<lparr>m_opts = withDefaults opts0, m_states = [], m_ops = [(''e'', 0)],
       m_opobjs = [\<lparr>op_done = False, op_result = None, op_waiters = 1, op_cancelled = False,
         op_startedAt = 0, op_notifiers = [(1, 7)], op_nextToken = 1\<rparr>], m_delivered = []\<rparr>,
     sf_callers = [\<lparr>cl_env = ''e'', cl_op = 0, cl_token = 1, cl_pc = CWaiting, cl_woken = False\<rparr>],
     sf_runs = [\<lparr>r_env = ''e'', r_pc = RRunning\<rparr>]\<rparr>"
  by (simp add: sf_eval)

lemma abandoned_eq:
  "sf_abandon 0 (Sentinel Canceled) sf1 =
   \<lparr>sf_m = \<lparr>m_opts = withDefaults opts0, m_states = [], m_ops = [],
       m_opobjs = [\<lparr>op_done = False, op_result = None, op_waiters = 0, op_cancelled = False,
         op_startedAt = 0, op_notifiers = [(1, 7)], op_nextToken = 1\<rparr>], m_delivered = []\<rparr>,
     sf_callers = [\<lparr>cl_env = ''e'', cl_op = 0, cl_token = 1,
       cl_pc = CCancelling (Inl (Wrapf ''waiting for environment e: '' (Sentinel Canceled) [])),
       cl_woken = False\<rparr>],
     sf_runs = [\<lparr>r_env = ''e'', r_pc = RRunning\<rparr>]\<rparr>"
  by (simp add: sf_abandon_def set_caller_def release_locked_def set_op_def sf1_eq)

lemma sf2_eval:
  "sf_callers sf2 = [\<lparr>cl_env = ''e'', cl_op = 0, cl_token = 1, cl_pc = CWaiting, cl_woken = False\<rparr>,
     \<lparr>cl_env = ''e'', cl_op = 0, cl_token = 0, cl_pc = CWaiting, cl_woken = False\<rparr>]"
  "sf_runs sf2 = [\<lparr>r_env = ''e'', r_pc = RRunning\<rparr>]"
  "m_ops (sf_m sf2) = [(''e'', 0)]"
  "length (m_opobjs (sf_m sf2)) = 1"
  by (simp_all add: sf_eval)

lemma sf2_sf3: "sf_step\<^sup>*\<^sup>* sf2 sf3"
proof -
  let ?a = "set_run 0 RFinished (sf2\<lparr>sf_m := run_finish ''e'' 0 (Inl (Errorf ''x'')) (sf_m sf2)\<rparr>)"
  let ?b = "set_run 0 RCancelled (?a\<lparr>sf_m := op_cancel 0 (sf_m ?a)\<rparr>)"
  have 1: "sf_step sf2 ?a"
    using sf_step.finish [of 0 sf2 "Inl (Errorf ''x'')"] by (simp add: sf2_eval)
  have 2: "sf_step ?a ?b"
    by (rule sf_step.run_cancel) (simp_all add: sf2_eval set_run_def)
  have 3: "sf_step ?b (set_run 0 RDone (?b\<lparr>sf_m := close_done 0 (sf_m ?b)\<rparr>))"
    by (rule sf_step.run_close) (simp_all add: sf2_eval set_run_def)
  have "set_run 0 RDone (?b\<lparr>sf_m := close_done 0 (sf_m ?b)\<rparr>) = sf3"
    by (simp add: sf3_def set_run_def sf2_eval)
  with 1 2 3 show ?thesis
    by (metis (no_types) converse_rtranclp_into_rtranclp r_into_rtranclp)
qed

lemma sf3_eval:
  "sf_callers sf3 = sf_callers sf2"
  "map op_done (m_opobjs (sf_m sf3)) = [True]"
  "map op_result (m_opobjs (sf_m sf3)) = [Some (Inl (Errorf ''x''))]"
  by (simp_all add: sf3_def set_run_def run_finish_def op_cancel_def close_done_def sf_eval)

lemma sf4_eval:
  "map cl_op (sf_callers sf4) = [0, 0]" "map cl_woken (sf_callers sf4) = [True, True]"
  "map cl_pc (sf_callers sf4) = [CLeaving (Inl (Errorf ''x'')), CLeaving (Inl (Errorf ''x''))]"
  by (simp_all add: sf4_def sf_wake_def set_caller_def release_def release_locked_def sf3_def
      set_run_def run_finish_def op_cancel_def close_done_def sf_eval)

lemma sf0_sf4: "sf_step\<^sup>*\<^sup>* sf0 sf4"
proof -
  have d: "op_done (m_opobjs (sf_m sf3) ! 0)"
    by (simp add: sf3_def set_run_def run_finish_def op_cancel_def close_done_def sf_eval)
  have "sf_step sf3 (sf_wake 0 sf3)"
    by (rule sf_step.wake) (use d in \<open>simp_all add: sf3_eval sf2_eval\<close>)
  moreover have "sf_step (sf_wake 0 sf3) sf4" unfolding sf4_def
    by (rule sf_step.wake)
      (simp_all add: sf_wake_def set_caller_def release_def release_locked_def sf3_def
        set_run_def run_finish_def op_cancel_def close_done_def sf_eval)
  ultimately show ?thesis using sf0_sf2 sf2_sf3 by (meson rtranclp.rtrancl_into_rtrancl rtranclp_trans)
qed

text \<open>
  C1: Single flight. In every reachable state two callers that wait for the same
  environment, while the work they wait for is still running, wait for the same operation;
  it is the one in the manager's map, nobody cancelled it, and its waiter count is the
  number of callers blocked on it.
\<close>

theorem single_flight:
  assumes "sf_start s" and "sf_step\<^sup>*\<^sup>* s t"
    and "i < length (sf_callers t)" and "j < length (sf_callers t)"
    and "cl_pc (sf_callers t ! i) = CWaiting" and "cl_pc (sf_callers t ! j) = CWaiting"
    and "cl_env (sf_callers t ! i) = cl_env (sf_callers t ! j)"
    and "r_pc (sf_runs t ! cl_op (sf_callers t ! i)) = RRunning"
    and "r_pc (sf_runs t ! cl_op (sf_callers t ! j)) = RRunning"
  shows "cl_op (sf_callers t ! i) = cl_op (sf_callers t ! j) \<and>
    map_of (m_ops (sf_m t)) (cl_env (sf_callers t ! i)) = Some (cl_op (sf_callers t ! i)) \<and>
    \<not> op_cancelled (m_opobjs (sf_m t) ! cl_op (sf_callers t ! i)) \<and>
    op_waiters (m_opobjs (sf_m t) ! cl_op (sf_callers t ! i)) =
      int (waiting_on (cl_op (sf_callers t ! i)) (sf_callers t))"
proof -
  have "sf_inv t" using assms(1,2) by (rule sf.inv_reachable)
  from waiting_runs [OF this assms(3,5,8)] waiting_runs(1) [OF this assms(4,6,9)] assms(7)
  show ?thesis by simp
qed

lemma single_flight_witness:
  "cl_op (sf_callers sf2 ! 0) = cl_op (sf_callers sf2 ! 1) \<and>
   op_waiters (m_opobjs (sf_m sf2) ! 0) = int (waiting_on 0 (sf_callers sf2))"
  using single_flight [OF sf_start_sf0 sf0_sf2, of 0 1] by (simp add: sf2_eval)

text \<open>
  Everybody gets the same answer. In every reachable state two callers that were woken by
  the end of the same operation leave with the same environment or error, the one its
  goroutine stored.
\<close>

theorem waiters_agree:
  assumes "sf_start s" and "sf_step\<^sup>*\<^sup>* s t"
    and "i < length (sf_callers t)" and "j < length (sf_callers t)"
    and "cl_woken (sf_callers t ! i)" and "cl_woken (sf_callers t ! j)"
    and "cl_op (sf_callers t ! i) = cl_op (sf_callers t ! j)"
  shows "\<exists>r. op_result (m_opobjs (sf_m t) ! cl_op (sf_callers t ! i)) = Some r \<and>
    cl_pc (sf_callers t ! i) \<in> {CLeaving r, CReturned r} \<and>
    cl_pc (sf_callers t ! j) \<in> {CLeaving r, CReturned r}"
proof -
  have inv: "sf_inv t" using assms(1,2) by (rule sf.inv_reachable)
  have "caller_ok t (sf_callers t ! i)" and "caller_ok t (sf_callers t ! j)"
    using sf_invD(3) [OF inv] assms(3,4) by simp_all
  with assms(5-7) show ?thesis unfolding caller_ok_def by auto
qed

lemma waiters_agree_witness:
  "\<exists>r. cl_pc (sf_callers sf4 ! 0) \<in> {CLeaving r, CReturned r} \<and>
     cl_pc (sf_callers sf4 ! 1) \<in> {CLeaving r, CReturned r}"
proof -
  have "length (sf_callers sf4) = 2" "cl_woken (sf_callers sf4 ! 0)" "cl_woken (sf_callers sf4 ! 1)"
    "cl_op (sf_callers sf4 ! 0) = cl_op (sf_callers sf4 ! 1)"
    by (simp_all add: sf4_def sf_wake_def set_caller_def release_def release_locked_def sf3_def
        set_run_def run_finish_def op_cancel_def close_done_def sf_eval)
  with waiters_agree [OF sf_start_sf0 sf0_sf4, of 0 1] show ?thesis by auto
qed

lemma sf_enter_new:
  "map_of (m_ops (sf_m s)) env = None \<Longrightarrow>
   length (sf_runs (sf_enter now c env fn s)) = length (sf_runs s) + 1"
  by (simp add: sf_enter_def ensure_enter_def Let_def split: prod.split)

text \<open>
  When the last waiting caller gives up, its operation leaves the map in the same critical
  section, so that the next caller starts a new one, and the caller goes on to cancel it.
\<close>

theorem last_waiter_orphans:
  assumes "sf_start s" and "sf_step\<^sup>*\<^sup>* s t"
    and "i < length (sf_callers t)" and "cl_pc (sf_callers t ! i) = CWaiting"
    and "waiting_on (cl_op (sf_callers t ! i)) (sf_callers t) = 1"
    and "r_pc (sf_runs t ! cl_op (sf_callers t ! i)) = RRunning"
  shows "map_of (m_ops (sf_m (sf_abandon i e t))) (cl_env (sf_callers t ! i)) = None \<and>
    (\<exists>r. cl_pc (sf_callers (sf_abandon i e t) ! i) = CCancelling r) \<and>
    length (sf_runs (sf_enter now c (cl_env (sf_callers t ! i)) fn (sf_abandon i e t))) =
      length (sf_runs t) + 1"
proof -
  let ?c = "sf_callers t ! i"
  have inv: "sf_inv t" using assms(1,2) by (rule sf.inv_reachable)
  note W = waiting_runs [OF inv assms(3,4,6)]
  have "cl_op ?c < length (m_opobjs (sf_m t))"
    using sf_invD(1,3) [OF inv] assms(3) by (auto simp: caller_ok_def)
  then have rl: "release_locked (cl_env ?c) (cl_op ?c) True (sf_m t) =
      (True, (set_op (cl_op ?c) (\<lambda>op. op\<lparr>op_waiters := op_waiters op - 1\<rparr>) (sf_m t))
        \<lparr>m_ops := AList.delete (cl_env ?c) (m_ops (sf_m t))\<rparr>)"
    using W(1,3) assms(5) by (simp add: release_locked_def Let_def set_op_nth_eq)
  then have "map_of (m_ops (sf_m (sf_abandon i e t))) (cl_env ?c) = None"
    by (simp add: sf_abandon_def Let_def)
  moreover have "sf_runs (sf_abandon i e t) = sf_runs t"
    by (simp add: sf_abandon_def rl Let_def)
  moreover have "\<exists>r. cl_pc (sf_callers (sf_abandon i e t) ! i) = CCancelling r"
    using assms(3) by (simp add: sf_abandon_def rl Let_def)
  ultimately show ?thesis by (simp add: sf_enter_new)
qed

lemma last_waiter_orphans_witness:
  "map_of (m_ops (sf_m (sf_abandon 0 (Sentinel Canceled) sf1))) ''e'' = None"
  using last_waiter_orphans [OF sf_start_sf0 sf0_sf1, of 0 "Sentinel Canceled"]
  by (simp add: sf1_eval waiting_on_def)

lemma overlap_eval:
  "map_of (m_ops (sf_m s)) env = None \<Longrightarrow>
   sf_callers (sf_enter now c env None s) = sf_callers s @ [\<lparr>cl_env = env,
     cl_op = length (m_opobjs (sf_m s)), cl_token = 0, cl_pc = CWaiting, cl_woken = False\<rparr>]"
  "map_of (m_ops (sf_m s)) env = None \<Longrightarrow>
   sf_runs (sf_enter now c env fn s) = sf_runs s @ [\<lparr>r_env = env, r_pc = RRunning\<rparr>]"
  by (simp_all add: sf_enter_def ensure_enter_def addNotifier_def Let_def split: prod.split)

text \<open>
  Single flight has a limit: an abandoned operation is still running when the next caller
  comes, so two goroutines can be preparing one environment at the same time. The abandoned
  one has nobody waiting.
\<close>

theorem abandoned_run_overlaps:
  "\<exists>t. sf_step\<^sup>*\<^sup>* sf0 t \<and> map r_pc (sf_runs t) = [RRunning, RRunning] \<and>
     map r_env (sf_runs t) = [''e'', ''e''] \<and> waiting_on 0 (sf_callers t) = 0 \<and>
     waiting_on 1 (sf_callers t) = 1"
proof -
  let ?a = "sf_abandon 0 (Sentinel Canceled) sf1"
  let ?t = "sf_enter 0 ctx0 ''e'' None ?a"
  have "sf_step sf1 ?a" by (rule sf_step.abandon) (simp_all add: sf1_eval)
  moreover have "sf_step ?a ?t" by (rule sf_step.enter) simp
  ultimately have "sf_step\<^sup>*\<^sup>* sf0 ?t"
    using sf0_sf1 by (meson rtranclp.rtrancl_into_rtrancl)
  then show ?thesis
    by (intro exI [of _ ?t]) (simp add: overlap_eval abandoned_eq waiting_on_def)
qed

end
