(* ===== verification/GoJson.thy ===== *)
theory GoJson
  imports GoStrings
begin

text \<open>
  What the gateway uses of \<open>encoding/json\<close>, \<open>net/url\<close> and \<open>time.Parse(RFC3339)\<close>: JSON values
  with their parser and printer, the decoding of scalars into Go variables, escaping of path
  segments, and time stamps as nanoseconds since 1970.
\<close>

section \<open>JSON values\<close>

text \<open>A number keeps its literal, as \<open>json.Number\<close> does.\<close>

datatype json =
    JNull | JBool bool | JNum string | JStr string | JArr "json list" | JObj "(string \<times> json) list"

definition byte :: "char \<Rightarrow> nat" where
  "byte c = of_char c"

definition cont :: "nat \<Rightarrow> nat \<Rightarrow> char \<Rightarrow> bool" where
  "cont lo hi c \<longleftrightarrow> lo \<le> byte c \<and> byte c \<le> hi"

text \<open>\<open>utf8.DecodeRune\<close>: how many bytes the first rune takes, 0 if it is not valid.\<close>

definition rune_len :: "string \<Rightarrow> nat" where
  "rune_len s = (case s of
     [] \<Rightarrow> 0
   | a # r \<Rightarrow>
      (let b0 = byte a;
           ok = (\<lambda>k lo hi. k \<le> length r \<and> cont lo hi (r ! 0) \<and> list_all (cont 0x80 0xBF) (take (k - 1) (tl r)))
       in if b0 < 0x80 then 1
          else if 0xC2 \<le> b0 \<and> b0 \<le> 0xDF then (if ok 1 0x80 0xBF then 2 else 0)
          else if b0 = 0xE0 then (if ok 2 0xA0 0xBF then 3 else 0)
          else if b0 = 0xED then (if ok 2 0x80 0x9F then 3 else 0)
          else if 0xE1 \<le> b0 \<and> b0 \<le> 0xEF then (if ok 2 0x80 0xBF then 3 else 0)
          else if b0 = 0xF0 then (if ok 3 0x90 0xBF then 4 else 0)
          else if 0xF1 \<le> b0 \<and> b0 \<le> 0xF3 then (if ok 3 0x80 0xBF then 4 else 0)
          else if b0 = 0xF4 then (if ok 3 0x80 0x8F then 4 else 0)
          else 0))"

definition rune_error :: string where
  "rune_error = utf8 [0xFFFD]"

section \<open>Parsing\<close>

definition json_space :: "char \<Rightarrow> bool" where
  "json_space c \<longleftrightarrow> byte c \<in> {32, 9, 10, 13}"

definition skip_ws :: "string \<Rightarrow> string" where
  "skip_ws s = dropWhile json_space s"

definition hex_val :: "char \<Rightarrow> nat option" where
  "hex_val c = (let n = byte c in
     if 48 \<le> n \<and> n \<le> 57 then Some (n - 48)
     else if 97 \<le> n \<and> n \<le> 102 then Some (n - 87)
     else if 65 \<le> n \<and> n \<le> 70 then Some (n - 55)
     else None)"

fun hex4 :: "string \<Rightarrow> (nat \<times> string) option" where
  "hex4 (a # b # c # d # r) =
    (case (hex_val a, hex_val b, hex_val c, hex_val d) of
       (Some w, Some x, Some y, Some z) \<Rightarrow> Some (4096 * w + 256 * x + 16 * y + z, r)
     | _ \<Rightarrow> None)"
| "hex4 _ = None"

text \<open>After a backslash and \<open>u\<close>: a rune, a surrogate pair, or a lone surrogate.\<close>

definition unicode_escape :: "string \<Rightarrow> (string \<times> string) option" where
  "unicode_escape s =
    (case hex4 s of
       None \<Rightarrow> None
     | Some (n, r) \<Rightarrow>
         if 0xD800 \<le> n \<and> n < 0xE000 then
           (case (if n < 0xDC00 \<and> take 2 r = [CHR 0x5C, CHR ''u''] then hex4 (drop 2 r) else None) of
              Some (m, r') \<Rightarrow>
                if 0xDC00 \<le> m \<and> m < 0xE000 then
                  Some (utf8 [0x10000 + 1024 * (n - 0xD800) + (m - 0xDC00)], r')
                else Some (rune_error, r)
            | None \<Rightarrow> Some (rune_error, r))
         else Some (utf8 [n], r))"

definition simple_escape :: "char \<Rightarrow> char option" where
  "simple_escape c = map_of
    [(CHR 0x22, CHR 0x22), (CHR 0x5C, CHR 0x5C), (CHR ''/'', CHR ''/''), (CHR ''b'', CHR 0x08),
     (CHR ''f'', CHR 0x0C), (CHR ''n'', CHR 0x0A), (CHR ''r'', CHR 0x0D), (CHR ''t'', CHR 0x09)] c"

text \<open>The rest of a string literal; the first argument bounds the number of steps.\<close>

fun string_body :: "nat \<Rightarrow> string \<Rightarrow> (string \<times> string) option" where
  "string_body 0 s = None"
| "string_body (Suc n) [] = None"
| "string_body (Suc n) (c # r) =
    (if c = CHR 0x22 then Some ([], r)
     else if c = CHR 0x5C then
       (case r of
          [] \<Rightarrow> None
        | e # r' \<Rightarrow>
           (case (if e = CHR ''u'' then unicode_escape r'
                  else map_option (\<lambda>x. ([x], r')) (simple_escape e)) of
              None \<Rightarrow> None
            | Some (x, r'') \<Rightarrow> map_option (apfst ((@) x)) (string_body n r'')))
     else if byte c < 0x20 then None
     else
       (let k = rune_len (c # r)
        in if k = 0 then map_option (apfst ((@) rune_error)) (string_body n r)
           else map_option (apfst ((@) (take k (c # r)))) (string_body n (drop k (c # r)))))"

definition digits :: "string \<Rightarrow> string \<times> string" where
  "digits s = (takeWhile is_digit s, dropWhile is_digit s)"

definition number_literal :: "string \<Rightarrow> (string \<times> string) option" where
  "number_literal s =
    (let (sg, r0) = (case s of c # cs \<Rightarrow> if c = CHR ''-'' then ([c], cs) else ([], s) | [] \<Rightarrow> ([], s));
         (ip, r1) = (case r0 of
             c # cs \<Rightarrow> if c = CHR ''0'' then ([c], cs) else digits r0
           | [] \<Rightarrow> ([], []))
     in if ip = [] then None
        else
          (case (case r1 of
              c # cs \<Rightarrow> if c = CHR ''.'' then
                          (let (f, q) = digits cs in if f = [] then None else Some (c # f, q))
                        else Some ([], r1)
            | [] \<Rightarrow> Some ([], [])) of
             None \<Rightarrow> None
           | Some (fp, r2) \<Rightarrow>
              (case r2 of
                 c # cs \<Rightarrow>
                   if c = CHR ''e'' \<or> c = CHR ''E'' then
                     (let (es, q) = (case cs of
                            d # ds \<Rightarrow> if d = CHR ''+'' \<or> d = CHR ''-'' then ([d], ds) else ([], cs)
                          | [] \<Rightarrow> ([], []));
                          (ed, q') = digits q
                      in if ed = [] then None else Some (sg @ ip @ fp @ [c] @ es @ ed, q'))
                   else Some (sg @ ip @ fp, r2)
               | [] \<Rightarrow> Some (sg @ ip @ fp, []))))"

fun keyword :: "string \<Rightarrow> json \<Rightarrow> string \<Rightarrow> (json \<times> string) option" where
  "keyword k v s = (if HasPrefix s k then Some (v, drop (length k) s) else None)"

fun parse_value :: "nat \<Rightarrow> string \<Rightarrow> (json \<times> string) option"
  and parse_items :: "nat \<Rightarrow> string \<Rightarrow> (json list \<times> string) option"
  and parse_members :: "nat \<Rightarrow> string \<Rightarrow> ((string \<times> json) list \<times> string) option" where
  "parse_value 0 s = None"
| "parse_value (Suc n) s =
    (case skip_ws s of
       [] \<Rightarrow> None
     | c # r \<Rightarrow>
        if c = CHR ''{'' then
          (case skip_ws r of
             d # r' \<Rightarrow> if d = CHR ''}'' then Some (JObj [], r')
                       else map_option (apfst JObj) (parse_members n r)
           | [] \<Rightarrow> None)
        else if c = CHR ''['' then
          (case skip_ws r of
             d # r' \<Rightarrow> if d = CHR '']'' then Some (JArr [], r')
                       else map_option (apfst JArr) (parse_items n r)
           | [] \<Rightarrow> None)
        else if c = CHR 0x22 then map_option (apfst JStr) (string_body (length r) r)
        else if c = CHR ''t'' then keyword ''true'' (JBool True) (c # r)
        else if c = CHR ''f'' then keyword ''false'' (JBool False) (c # r)
        else if c = CHR ''n'' then keyword ''null'' JNull (c # r)
        else map_option (apfst JNum) (number_literal (c # r)))"
| "parse_items 0 s = None"
| "parse_items (Suc n) s =
    (case parse_value n s of
       None \<Rightarrow> None
     | Some (v, r) \<Rightarrow>
        (case skip_ws r of
           [] \<Rightarrow> None
         | c # r' \<Rightarrow> if c = CHR '']'' then Some ([v], r')
                     else if c = CHR '','' then map_option (apfst ((#) v)) (parse_items n r')
                     else None))"
| "parse_members 0 s = None"
| "parse_members (Suc n) s =
    (case skip_ws s of
       [] \<Rightarrow> None
     | q # r0 \<Rightarrow>
        if q \<noteq> CHR 0x22 then None
        else
          (case string_body (length r0) r0 of
             None \<Rightarrow> None
           | Some (k, r1) \<Rightarrow>
              (case skip_ws r1 of
                 [] \<Rightarrow> None
               | col # r2 \<Rightarrow>
                  if col \<noteq> CHR '':'' then None
                  else
                    (case parse_value n r2 of
                       None \<Rightarrow> None
                     | Some (v, r) \<Rightarrow>
                        (case skip_ws r of
                           [] \<Rightarrow> None
                         | c # r' \<Rightarrow> if c = CHR ''}'' then Some ([(k, v)], r')
                                     else if c = CHR '','' then
                                       map_option (apfst ((#) (k, v))) (parse_members n r')
                                     else None)))))"

text \<open>A whole document; every step consumes a byte, so twice its length is enough fuel.\<close>

definition json_parse :: "string \<Rightarrow> json option" where
  "json_parse s =
    (case parse_value (2 * length s + 1) s of
       None \<Rightarrow> None
     | Some (v, r) \<Rightarrow> if skip_ws r = [] then Some v else None)"

section \<open>Printing\<close>

text \<open>
  \<open>json.Marshal\<close>: the HTML characters (60, 62, 38), the two line separators of Unicode and the control
  characters are escaped, and bytes that are no UTF-8 become an escaped U+FFFD.
\<close>

definition u00 :: "nat \<Rightarrow> string" where
  "u00 n = [CHR 0x5C] @ ''u00'' @
     [char_of (if n div 16 < 10 then 48 + n div 16 else 87 + n div 16),
      char_of (if n mod 16 < 10 then 48 + n mod 16 else 87 + n mod 16)]"

definition json_ascii :: "char \<Rightarrow> string" where
  "json_ascii c = (let n = byte c in
     if n = 34 \<or> n = 92 then [CHR 0x5C, c]
     else if n = 8 then [CHR 0x5C, CHR ''b''] else if n = 12 then [CHR 0x5C, CHR ''f'']
     else if n = 10 then [CHR 0x5C, CHR ''n''] else if n = 13 then [CHR 0x5C, CHR ''r'']
     else if n = 9 then [CHR 0x5C, CHR ''t'']
     else if n < 32 \<or> n = 60 \<or> n = 62 \<or> n = 38 then u00 n
     else [c])"

fun json_chars :: "nat \<Rightarrow> string \<Rightarrow> string" where
  "json_chars 0 s = []"
| "json_chars (Suc n) [] = []"
| "json_chars (Suc n) (c # r) =
    (if byte c < 0x80 then json_ascii c @ json_chars n r
     else
       (let k = rune_len (c # r); w = take k (c # r)
        in if k = 0 then [CHR 0x5C] @ ''ufffd'' @ json_chars n r
           else if w = utf8 [0x2028] then [CHR 0x5C] @ ''u2028'' @ json_chars n (drop k (c # r))
           else if w = utf8 [0x2029] then [CHR 0x5C] @ ''u2029'' @ json_chars n (drop k (c # r))
           else w @ json_chars n (drop k (c # r))))"

definition json_string :: "string \<Rightarrow> string" where
  "json_string s = [CHR 0x22] @ json_chars (length s) s @ [CHR 0x22]"

text \<open>
  The layout is given by the white space after brackets and commas, which depends on the depth,
  and the one after a colon. \<open>json.Marshal\<close> puts none; \<open>json.MarshalIndent\<close> as the program calls
  it starts a line with two blanks for each level.
\<close>

fun json_layout :: "(nat \<Rightarrow> string) \<Rightarrow> string \<Rightarrow> nat \<Rightarrow> json \<Rightarrow> string" where
  "json_layout nl gap d JNull = ''null''"
| "json_layout nl gap d (JBool b) = (if b then ''true'' else ''false'')"
| "json_layout nl gap d (JNum l) = l"
| "json_layout nl gap d (JStr s) = json_string s"
| "json_layout nl gap d (JArr vs) =
    (if vs = [] then ''[]''
     else ''['' @ nl (Suc d) @ Join (map (json_layout nl gap (Suc d)) vs) ('','' @ nl (Suc d)) @
       nl d @ '']'')"
| "json_layout nl gap d (JObj ms) =
    (if ms = [] then ''{}''
     else ''{'' @ nl (Suc d) @
       Join (map (\<lambda>(k, v). json_string k @ '':'' @ gap @ json_layout nl gap (Suc d) v) ms)
         ('','' @ nl (Suc d)) @ nl d @ ''}'')"

definition json_print :: "json \<Rightarrow> string" where
  "json_print = json_layout (\<lambda>d. []) [] 0"

definition json_indent :: "json \<Rightarrow> string" where
  "json_indent = json_layout (\<lambda>d. CHR 0x0A # concat (replicate d ''  '')) '' '' 0"

section \<open>Decoding into Go variables\<close>

text \<open>
  Each decoder takes the value the variable has and the JSON value; \<open>None\<close> is the type error
  that makes \<open>Unmarshal\<close> fail. \<open>null\<close> leaves a scalar as it is.
\<close>

definition into_string :: "string \<Rightarrow> json \<Rightarrow> string option" where
  "into_string old v = (case v of JStr s \<Rightarrow> Some s | JNull \<Rightarrow> Some old | _ \<Rightarrow> None)"

definition into_bool :: "bool \<Rightarrow> json \<Rightarrow> bool option" where
  "into_bool old v = (case v of JBool b \<Rightarrow> Some b | JNull \<Rightarrow> Some old | _ \<Rightarrow> None)"

text \<open>\<open>int\<close> and \<open>int64\<close>: the literal has no fraction, no exponent, and is in range.\<close>

definition into_int :: "int \<Rightarrow> json \<Rightarrow> int option" where
  "into_int old v = (case v of JNum l \<Rightarrow> Atoi l | JNull \<Rightarrow> Some old | _ \<Rightarrow> None)"

definition into_uint64 :: "64 word \<Rightarrow> json \<Rightarrow> 64 word option" where
  "into_uint64 old v =
    (case v of
       JNum l \<Rightarrow> (case read_digits 0 l of
                  Some n \<Rightarrow> if n < 2 ^ 64 then Some (of_nat n) else None | None \<Rightarrow> None)
     | JNull \<Rightarrow> Some old
     | _ \<Rightarrow> None)"

text \<open>An array into a slice, and an object into a struct, member by member.\<close>

fun into_list :: "('a \<Rightarrow> json \<Rightarrow> 'a option) \<Rightarrow> 'a \<Rightarrow> json list \<Rightarrow> 'a list option" where
  "into_list f z [] = Some []"
| "into_list f z (v # vs) =
    (case f z v of
       None \<Rightarrow> None
     | Some x \<Rightarrow> map_option ((#) x) (into_list f z vs))"

definition into_slice :: "('a \<Rightarrow> json \<Rightarrow> 'a option) \<Rightarrow> 'a \<Rightarrow> 'a list \<Rightarrow> json \<Rightarrow> 'a list option" where
  "into_slice f z old v =
    (case v of JArr vs \<Rightarrow> into_list f z vs | JNull \<Rightarrow> Some [] | _ \<Rightarrow> None)"

fun into_members :: "(string \<Rightarrow> 'a \<Rightarrow> json \<Rightarrow> 'a option) \<Rightarrow> 'a \<Rightarrow> (string \<times> json) list \<Rightarrow> 'a option" where
  "into_members f r [] = Some r"
| "into_members f r ((k, v) # ms) =
    (case f k r v of None \<Rightarrow> None | Some r' \<Rightarrow> into_members f r' ms)"

definition into_struct :: "(string \<Rightarrow> 'a \<Rightarrow> json \<Rightarrow> 'a option) \<Rightarrow> 'a \<Rightarrow> json \<Rightarrow> 'a option" where
  "into_struct f old v =
    (case v of JObj ms \<Rightarrow> into_members f old ms | JNull \<Rightarrow> Some old | _ \<Rightarrow> None)"

text \<open>\<open>json.Unmarshal\<close> of a document.\<close>

definition unmarshal :: "('a \<Rightarrow> json \<Rightarrow> 'a option) \<Rightarrow> 'a \<Rightarrow> string \<Rightarrow> 'a option" where
  "unmarshal f z raw = (case json_parse raw of None \<Rightarrow> None | Some v \<Rightarrow> f z v)"

section \<open>Path segments\<close>

definition alnum :: "char \<Rightarrow> bool" where
  "alnum c \<longleftrightarrow> (let n = byte c in
     (97 \<le> n \<and> n \<le> 122) \<or> (65 \<le> n \<and> n \<le> 90) \<or> (48 \<le> n \<and> n \<le> 57))"

definition segment_char :: "char \<Rightarrow> bool" where
  "segment_char c \<longleftrightarrow> alnum c \<or>
     c \<in> {CHR ''-'', CHR ''_'', CHR ''.'', CHR ''~'', CHR ''$'', CHR ''&'', CHR ''+'', CHR ''='',
          CHR '':'', CHR ''@''}"

definition upper_hex :: "nat \<Rightarrow> char" where
  "upper_hex n = (if n < 10 then char_of (48 + n) else char_of (55 + n))"

definition escape_char :: "char \<Rightarrow> string" where
  "escape_char c =
    (if segment_char c then [c] else [CHR ''%'', upper_hex (byte c div 16), upper_hex (byte c mod 16)])"

definition PathEscape :: "string \<Rightarrow> string" where
  "PathEscape s = concat (map escape_char s)"

text \<open>The other direction, to state that nothing is lost.\<close>

fun unescape :: "string \<Rightarrow> string option" where
  "unescape [] = Some []"
| "unescape (c # s) =
    (if c = CHR ''%'' then
       (case s of
          a # b # r \<Rightarrow>
            (case (hex_val a, hex_val b) of
               (Some x, Some y) \<Rightarrow> map_option ((#) (char_of (16 * x + y))) (unescape r)
             | _ \<Rightarrow> None)
        | _ \<Rightarrow> None)
     else map_option ((#) c) (unescape s))"

lemma byte_less: "byte c < 256"
  by (metis byte_def of_char_mod_256 mod_less_divisor zero_less_numeral)

lemma upper_hex_val: "n < 16 \<Longrightarrow> hex_val (upper_hex n) = Some n"
  by (auto simp: hex_val_def upper_hex_def byte_def of_char_of Let_def)

lemma unescape_escape: "unescape (PathEscape s) = Some s"
proof (induction s)
  case Nil
  then show ?case by (simp add: PathEscape_def)
next
  case (Cons c s)
  have b: "byte c < 256" by (rule byte_less)
  then have h: "byte c div 16 < 16" "byte c mod 16 < 16" by auto
  have "char_of (16 * (byte c div 16) + byte c mod 16) = c" by (simp add: byte_def)
  moreover have "c \<noteq> CHR ''%''" if "segment_char c"
    using that by (auto simp: segment_char_def alnum_def byte_def)
  ultimately show ?case using Cons h by (auto simp: PathEscape_def escape_char_def upper_hex_val)
qed

lemma upper_hex_alnum: "n < 16 \<Longrightarrow> segment_char (upper_hex n)"
  by (auto simp: segment_char_def alnum_def upper_hex_def byte_def of_char_of Let_def)

lemma PathEscape_chars: "c \<in> set (PathEscape s) \<Longrightarrow> segment_char c \<or> c = CHR ''%''"
proof (induction s)
  case (Cons d s)
  have "byte d < 256" by (rule byte_less)
  then have "segment_char (upper_hex (byte d div 16))" "segment_char (upper_hex (byte d mod 16))"
    by (auto intro: upper_hex_alnum)
  with Cons show ?case by (auto simp: PathEscape_def escape_char_def split: if_splits)
qed (simp add: PathEscape_def)

section \<open>Time stamps\<close>

text \<open>
  \<open>time.Parse(time.RFC3339, s)\<close> as nanoseconds since 1970: the strict form with a fraction of any
  length, of which nine digits count. The laxer readings of the general parser (a one-digit
  hour, a comma before the fraction) are not modelled.
\<close>

definition number_in :: "nat \<Rightarrow> nat \<Rightarrow> string \<Rightarrow> nat option" where
  "number_in lo hi s = (case read_digits 0 s of
     Some n \<Rightarrow> if s \<noteq> [] \<and> lo \<le> n \<and> n \<le> hi then Some n else None | None \<Rightarrow> None)"

definition leap :: "nat \<Rightarrow> bool" where
  "leap y \<longleftrightarrow> y mod 4 = 0 \<and> (y mod 100 \<noteq> 0 \<or> y mod 400 = 0)"

definition days_in :: "nat \<Rightarrow> nat \<Rightarrow> nat" where
  "days_in y m = (if m = 2 then (if leap y then 29 else 28) else if m \<in> {4, 6, 9, 11} then 30 else 31)"

definition days_before :: "nat \<Rightarrow> int" where
  "days_before y = (let p = int y - 1 in 365 * int y + p div 4 - p div 100 + p div 400)"

definition civil_days :: "nat \<Rightarrow> nat \<Rightarrow> nat \<Rightarrow> int" where
  "civil_days y m d =
    days_before y - days_before 1970 + int (sum_list (map (days_in y) [1..<m])) + int d - 1"

definition zone_offset :: "string \<Rightarrow> int option" where
  "zone_offset z =
    (if z = ''Z'' then Some 0
     else if length z = 6 \<and> (z ! 0 = CHR ''+'' \<or> z ! 0 = CHR ''-'') \<and> z ! 3 = CHR '':'' then
       (case (number_in 0 23 (take 2 (drop 1 z)), number_in 0 59 (drop 4 z)) of
          (Some h, Some m) \<Rightarrow> Some ((if z ! 0 = CHR ''-'' then - 1 else 1) * (int h * 3600 + int m * 60))
        | _ \<Rightarrow> None)
     else None)"

definition fraction :: "string \<Rightarrow> int \<times> string" where
  "fraction s =
    (case s of
       c # r \<Rightarrow>
        let ds = takeWhile is_digit r
        in if c = CHR ''.'' \<and> ds \<noteq> [] then
             (int (the (read_digits 0 (take 9 (ds @ replicate 9 (CHR ''0''))))), drop (length ds) r)
           else (0, s)
     | [] \<Rightarrow> (0, []))"

definition parse_rfc3339 :: "string \<Rightarrow> int option" where
  "parse_rfc3339 s =
    (if length s < 20 \<or> s ! 4 \<noteq> CHR ''-'' \<or> s ! 7 \<noteq> CHR ''-'' \<or> s ! 10 \<noteq> CHR ''T'' \<or>
        s ! 13 \<noteq> CHR '':'' \<or> s ! 16 \<noteq> CHR '':'' then None
     else
       (case (number_in 0 9999 (take 4 s), number_in 1 12 (take 2 (drop 5 s)),
              number_in 0 23 (take 2 (drop 11 s)), number_in 0 59 (take 2 (drop 14 s)),
              number_in 0 59 (take 2 (drop 17 s))) of
          (Some y, Some mo, Some h, Some mi, Some sec) \<Rightarrow>
            (case (number_in 1 (days_in y mo) (take 2 (drop 8 s)), fraction (drop 19 s)) of
               (Some d, ns, z) \<Rightarrow>
                 (case zone_offset z of
                    Some off \<Rightarrow>
                      Some ((civil_days y mo d * 86400 + int h * 3600 + int mi * 60 + int sec - off)
                              * 1000000000 + ns)
                  | None \<Rightarrow> None)
             | _ \<Rightarrow> None)
        | _ \<Rightarrow> None))"

text \<open>A product of durations wraps at 64 bits.\<close>

definition wrap64 :: "int \<Rightarrow> int" where
  "wrap64 x = (x + 2 ^ 63) mod 2 ^ 64 - 2 ^ 63"

lemma wrap64_id: "- (2 ^ 63) \<le> x \<Longrightarrow> x < 2 ^ 63 \<Longrightarrow> wrap64 x = x"
  by (simp add: wrap64_def)

end
