(* ===== verification/GithubApi.thy ===== *)
theory GithubApi
  imports GoJson Lifecycle
begin

text \<open>
  The GitHub API client (\<open>providers/github/api.go\<close>, \<open>codespace.go\<close>): requests with retries,
  the error values, the codespace resource and its translation into an environment, and the
  operations on codespaces, machines and repositories. The network is a record of functions on
  a world, like the provider of \<open>Lifecycle\<close>.
\<close>

section \<open>The network\<close>

text \<open>
  A response's body is what can be read of it and the error that ends it, if it does not end
  with EOF. \<open>n_badreq\<close> is the error of \<open>http.NewRequestWithContext\<close> for a URL, and
  \<open>n_badjson\<close> the text of the error of \<open>json.Unmarshal\<close>; \<open>n_sel\<close> is \<open>select\<close> as in \<open>prov\<close>.
\<close>

record http_request =
  hq_Method :: string
  hq_URL :: string
  hq_Header :: "(string, string) gomap"
  hq_Body :: "string option"

record http_response =
  hr_Status :: int
  hr_Header :: "(string, string) gomap"
  hr_Body :: string
  hr_BodyErr :: "goerr option"

record 'w net =
  n_now :: "'w \<Rightarrow> int"
  n_err :: "ctx \<Rightarrow> 'w \<Rightarrow> goerr option"
  n_sel :: "ctx \<Rightarrow> int \<Rightarrow> 'w \<Rightarrow> goerr option \<times> 'w"
  n_http :: "ctx \<Rightarrow> http_request \<Rightarrow> 'w \<Rightarrow> (goerr + http_response) \<times> 'w"
  n_badreq :: "string \<Rightarrow> goerr option"
  n_badjson :: "string \<Rightarrow> string"

section \<open>The client (api.go)\<close>

record api_client =
  ac_base :: string
  ac_token :: string
  ac_timeout :: int
  ac_agent :: string

definition maxBody :: nat where
  "maxBody = 8 * 2 ^ 20"

text \<open>\<open>io.ReadAll\<close> of the body behind a \<open>LimitReader\<close>.\<close>

definition read_limited :: "nat \<Rightarrow> http_response \<Rightarrow> goerr + string" where
  "read_limited k r =
    (if k \<le> length (hr_Body r) then Inr (take k (hr_Body r))
     else case hr_BodyErr r of None \<Rightarrow> Inr (hr_Body r) | Some e \<Rightarrow> Inl e)"

definition newRequest :: "'w net \<Rightarrow> api_client \<Rightarrow> string \<Rightarrow> string \<Rightarrow> json option \<Rightarrow> goerr + http_request" where
  "newRequest N c meth path body =
    (case n_badreq N (ac_base c @ path) of
       Some e \<Rightarrow> Inl e
     | None \<Rightarrow> Inr
        \<lparr>hq_Method = meth, hq_URL = ac_base c @ path,
         hq_Header = [(''Accept'', ''application/vnd.github+json''),
            (''X-GitHub-Api-Version'', ''2022-11-28''), (''User-Agent'', ac_agent c),
            (''Authorization'', ''Bearer '' @ ac_token c)] @
            (case body of None \<Rightarrow> [] | Some _ \<Rightarrow> [(''Content-Type'', ''application/json'')]),
         hq_Body = map_option json_print body\<rparr>)"

text \<open>The payload of an error answer: its message and documentation link.\<close>

definition into_error_payload :: "string \<Rightarrow> string \<times> string \<Rightarrow> json \<Rightarrow> (string \<times> string) option" where
  "into_error_payload k p v =
    (if EqualFold k ''message'' then map_option (\<lambda>s. (s, snd p)) (into_string (fst p) v)
     else if EqualFold k ''documentation_url'' then map_option (\<lambda>s. (fst p, s)) (into_string (snd p) v)
     else Some p)"

definition retry_after :: "string \<Rightarrow> int" where
  "retry_after v =
    (case Atoi v of Some secs \<Rightarrow> if 0 \<le> secs then wrap64 (secs * second) else 0 | None \<Rightarrow> 0)"

definition parseAPIError :: "string \<Rightarrow> string \<Rightarrow> int \<Rightarrow> (string, string) gomap \<Rightarrow> string \<Rightarrow> api_error" where
  "parseAPIError meth path status h raw =
    (let (msg, doc) =
          (case unmarshal (into_struct into_error_payload) ([], []) raw of
             Some (m, d) \<Rightarrow> (TrimSpace m, d)
           | None \<Rightarrow> (if raw \<noteq> [] \<and> length raw < 512 then TrimSpace raw else [], []))
     in \<lparr>ae_Method = meth, ae_Path = path, ae_Status = status, ae_Message = msg, ae_DocURL = doc,
         ae_RetryAfter = retry_after (getz h ''Retry-After'' []),
         ae_rateLimit = (getz h ''X-Ratelimit-Remaining'' [] = ''0'' \<or>
           Contains (ToLower msg) ''rate limit'')\<rparr>)"

definition backoffFor :: "goerr \<Rightarrow> nat \<Rightarrow> int" where
  "backoffFor e attempt =
    (case as_api_error e of
       Some ae \<Rightarrow>
         if ae_RetryAfter ae > 0 then min (ae_RetryAfter ae) (30 * second)
         else min (2 ^ (attempt - 1) * (second div 2)) (5 * second)
     | None \<Rightarrow> min (2 ^ (attempt - 1) * (second div 2)) (5 * second))"

definition maxAttempts :: nat where
  "maxAttempts = 3"

definition call_text :: "string \<Rightarrow> string \<Rightarrow> string" where
  "call_text meth path = ''github api '' @ meth @ '' '' @ path @ '': ''"

text \<open>
  The answer to a 2xx status. The decoder gives \<open>None\<close> where \<open>json.Unmarshal\<close> fails; a call
  with \<open>out = nil\<close> has no decoder.
\<close>

definition decode_answer ::
  "'w net \<Rightarrow> string \<Rightarrow> string \<Rightarrow> (string \<Rightarrow> 'a option) option \<Rightarrow> 'a \<Rightarrow> string \<Rightarrow> goerr + 'a" where
  "decode_answer N meth path dec z raw =
    (case dec of
       None \<Rightarrow> Inr z
     | Some f \<Rightarrow>
         if raw = [] then Inr z
         else (case f raw of
                 Some x \<Rightarrow> Inr x
               | None \<Rightarrow> Inl (Wrapf (call_text meth path @ ''decode response: '')
                   (Ext (n_badjson N raw) None) [])))"

text \<open>One attempt: a final answer, or the error to retry after.\<close>

definition attempt_once ::
  "'w net \<Rightarrow> api_client \<Rightarrow> ctx \<Rightarrow> string \<Rightarrow> string \<Rightarrow> json option \<Rightarrow> (string \<Rightarrow> 'a option) option \<Rightarrow> 'a \<Rightarrow>
   bool \<Rightarrow> 'w \<Rightarrow> ((int \<times> (goerr + 'a)) + goerr) \<times> 'w" where
  "attempt_once N c x meth path body dec z final w =
    (case newRequest N c meth path body of
       Inl e \<Rightarrow> (Inl (0, Inl e), w)
     | Inr rq \<Rightarrow>
        (case n_http N (WithTimeout x (ac_timeout c) (n_now N w)) rq w of
           (Inl e, w1) \<Rightarrow>
             (case n_err N x w1 of
                Some ce \<Rightarrow> (Inl (0, Inl (Wrapf (call_text meth path) ce [])), w1)
              | None \<Rightarrow>
                  let le = TemporaryError (Wrapf (call_text meth path) e [])
                  in (if final then Inl (0, Inl le) else Inr le, w1))
         | (Inr rs, w1) \<Rightarrow>
             (case read_limited maxBody rs of
                Inl e \<Rightarrow>
                  let le = TemporaryError (Wrapf (call_text meth path @ ''read body: '') e [])
                  in (if final then Inl (hr_Status rs, Inl le) else Inr le, w1)
              | Inr raw \<Rightarrow>
                  if 200 \<le> hr_Status rs \<and> hr_Status rs < 300 then
                    (Inl (hr_Status rs, decode_answer N meth path dec z raw), w1)
                  else
                    let ae = parseAPIError meth path (hr_Status rs) (hr_Header rs) raw
                    in (if \<not> api_temporary ae \<or> final then Inl (hr_Status rs, Inl (ApiError ae))
                        else Inr (ApiError ae), w1))))"

fun do_from ::
  "'w net \<Rightarrow> api_client \<Rightarrow> ctx \<Rightarrow> string \<Rightarrow> string \<Rightarrow> json option \<Rightarrow> (string \<Rightarrow> 'a option) option \<Rightarrow> 'a \<Rightarrow>
   nat \<Rightarrow> nat \<Rightarrow> goerr \<Rightarrow> 'w \<Rightarrow> (int \<times> (goerr + 'a)) \<times> 'w" where
  "do_from N c x meth path body dec z 0 attempt lastErr w = ((0, Inl lastErr), w)"
| "do_from N c x meth path body dec z (Suc n) attempt lastErr w =
    (case (if attempt > 1 then n_sel N x (n_now N w + backoffFor lastErr attempt) w else (None, w)) of
       (Some e, w1) \<Rightarrow> ((0, Inl e), w1)
     | (None, w1) \<Rightarrow>
        (case attempt_once N c x meth path body dec z (attempt = maxAttempts) w1 of
           (Inl r, w2) \<Rightarrow> (r, w2)
         | (Inr e, w2) \<Rightarrow> do_from N c x meth path body dec z n (attempt + 1) e w2))"

definition api_do ::
  "'w net \<Rightarrow> api_client \<Rightarrow> ctx \<Rightarrow> string \<Rightarrow> string \<Rightarrow> json option \<Rightarrow> (string \<Rightarrow> 'a option) option \<Rightarrow> 'a \<Rightarrow>
   'w \<Rightarrow> (int \<times> (goerr + 'a)) \<times> 'w" where
  "api_do N c x meth path body dec z w =
    do_from N c x meth path body dec z maxAttempts 1 (Errorf []) w"

section \<open>The codespace resource (codespace.go)\<close>

record codespace =
  gc_Name :: string
  gc_DisplayName :: string
  gc_State :: string
  gc_CreatedAt :: string
  gc_LastUsedAt :: string
  gc_WebURL :: string
  gc_Location :: string
  gc_DevContainerPath :: string
  gc_IdleTimeoutMinutes :: int
  gc_RetentionPeriodMinutes :: int
  gc_PendingOperation :: bool
  gc_PendingReason :: string
  gc_MachineName :: string
  gc_MachineDisplayName :: string
  gc_RepositoryID :: int
  gc_RepositoryFullName :: string
  gc_GitRef :: string
  gc_OwnerLogin :: string

definition no_codespace :: codespace where
  "no_codespace =
    \<lparr>gc_Name = [], gc_DisplayName = [], gc_State = [], gc_CreatedAt = [], gc_LastUsedAt = [],
     gc_WebURL = [], gc_Location = [], gc_DevContainerPath = [], gc_IdleTimeoutMinutes = 0,
     gc_RetentionPeriodMinutes = 0, gc_PendingOperation = False, gc_PendingReason = [],
     gc_MachineName = [], gc_MachineDisplayName = [], gc_RepositoryID = 0,
     gc_RepositoryFullName = [], gc_GitRef = [], gc_OwnerLogin = []\<rparr>"

definition stateFor :: "string \<Rightarrow> pstate" where
  "stateFor native =
    (if native = ''Available'' then StateRunning
     else if native \<in> {''Created'', ''Queued'', ''Provisioning''} then StateProvisioning
     else if native \<in> {''Starting'', ''Awaiting'', ''Updating'', ''Rebuilding'', ''Exporting''} then StateStarting
     else if native = ''ShuttingDown'' then StateStopping
     else if native \<in> {''Shutdown'', ''Archived''} then StateStopped
     else if native = ''Failed'' then StateFailed
     else if native = ''Unavailable'' then StateUnavailable
     else if native \<in> {''Deleted'', ''Moved''} then StateNotFound
     else StateUnknown)"

definition attr :: "string \<Rightarrow> string \<Rightarrow> (string, string) gomap" where
  "attr k v = (if v = [] then [] else [(k, v)])"

definition ProviderName :: string where
  "ProviderName = ''github''"

definition codespace_attrs :: "codespace \<Rightarrow> (string, string) gomap" where
  "codespace_attrs g =
    attr ''repository'' (gc_RepositoryFullName g) @ attr ''branch'' (gc_GitRef g) @
    attr ''machine'' (gc_MachineName g) @ attr ''location'' (gc_Location g) @
    attr ''display_name'' (gc_DisplayName g) @ attr ''owner'' (gc_OwnerLogin g) @
    (if gc_PendingOperation g then (''pending_operation'', ''true'') # attr ''pending_reason'' (gc_PendingReason g)
     else [])"

definition codespace_environment :: "codespace \<Rightarrow> environment" where
  "codespace_environment g =
    \<lparr>env_ID = gc_Name g, env_DisplayName = gc_DisplayName g, env_Provider = ProviderName,
     env_State = stateFor (gc_State g), env_NativeState = gc_State g,
     env_Attributes = codespace_attrs g,
     env_IdleTimeout = (if gc_IdleTimeoutMinutes g > 0
        then wrap64 (gc_IdleTimeoutMinutes g * (60 * second)) else 0),
     env_LastUsedAt = (if gc_LastUsedAt g \<noteq> [] then parse_rfc3339 (gc_LastUsedAt g) else None),
     env_WebURL = gc_WebURL g\<rparr>"

text \<open>
  Decoding: the members of an object set the fields whose JSON names they match, without regard
  to case; unknown members are ignored, nested objects go into the nested structs.
\<close>

definition into_machine_part :: "string \<Rightarrow> codespace \<Rightarrow> json \<Rightarrow> codespace option" where
  "into_machine_part k g v =
    (if EqualFold k ''name'' then map_option (\<lambda>s. g\<lparr>gc_MachineName := s\<rparr>) (into_string (gc_MachineName g) v)
     else if EqualFold k ''display_name'' then
       map_option (\<lambda>s. g\<lparr>gc_MachineDisplayName := s\<rparr>) (into_string (gc_MachineDisplayName g) v)
     else Some g)"

definition into_repository_part :: "string \<Rightarrow> codespace \<Rightarrow> json \<Rightarrow> codespace option" where
  "into_repository_part k g v =
    (if EqualFold k ''id'' then map_option (\<lambda>n. g\<lparr>gc_RepositoryID := n\<rparr>) (into_int (gc_RepositoryID g) v)
     else if EqualFold k ''full_name'' then
       map_option (\<lambda>s. g\<lparr>gc_RepositoryFullName := s\<rparr>) (into_string (gc_RepositoryFullName g) v)
     else Some g)"

definition into_git_part :: "string \<Rightarrow> codespace \<Rightarrow> json \<Rightarrow> codespace option" where
  "into_git_part k g v =
    (if EqualFold k ''ref'' then map_option (\<lambda>s. g\<lparr>gc_GitRef := s\<rparr>) (into_string (gc_GitRef g) v)
     else Some g)"

definition into_owner_part :: "string \<Rightarrow> codespace \<Rightarrow> json \<Rightarrow> codespace option" where
  "into_owner_part k g v =
    (if EqualFold k ''login'' then map_option (\<lambda>s. g\<lparr>gc_OwnerLogin := s\<rparr>) (into_string (gc_OwnerLogin g) v)
     else Some g)"

definition into_codespace_field :: "string \<Rightarrow> codespace \<Rightarrow> json \<Rightarrow> codespace option" where
  "into_codespace_field k g v =
    (if EqualFold k ''name'' then map_option (\<lambda>s. g\<lparr>gc_Name := s\<rparr>) (into_string (gc_Name g) v)
     else if EqualFold k ''display_name'' then
       map_option (\<lambda>s. g\<lparr>gc_DisplayName := s\<rparr>) (into_string (gc_DisplayName g) v)
     else if EqualFold k ''state'' then map_option (\<lambda>s. g\<lparr>gc_State := s\<rparr>) (into_string (gc_State g) v)
     else if EqualFold k ''created_at'' then
       map_option (\<lambda>s. g\<lparr>gc_CreatedAt := s\<rparr>) (into_string (gc_CreatedAt g) v)
     else if EqualFold k ''last_used_at'' then
       map_option (\<lambda>s. g\<lparr>gc_LastUsedAt := s\<rparr>) (into_string (gc_LastUsedAt g) v)
     else if EqualFold k ''web_url'' then map_option (\<lambda>s. g\<lparr>gc_WebURL := s\<rparr>) (into_string (gc_WebURL g) v)
     else if EqualFold k ''location'' then
       map_option (\<lambda>s. g\<lparr>gc_Location := s\<rparr>) (into_string (gc_Location g) v)
     else if EqualFold k ''devcontainer_path'' then
       map_option (\<lambda>s. g\<lparr>gc_DevContainerPath := s\<rparr>) (into_string (gc_DevContainerPath g) v)
     else if EqualFold k ''idle_timeout_minutes'' then
       map_option (\<lambda>n. g\<lparr>gc_IdleTimeoutMinutes := n\<rparr>) (into_int (gc_IdleTimeoutMinutes g) v)
     else if EqualFold k ''retention_period_minutes'' then
       map_option (\<lambda>n. g\<lparr>gc_RetentionPeriodMinutes := n\<rparr>) (into_int (gc_RetentionPeriodMinutes g) v)
     else if EqualFold k ''pending_operation'' then
       map_option (\<lambda>b. g\<lparr>gc_PendingOperation := b\<rparr>) (into_bool (gc_PendingOperation g) v)
     else if EqualFold k ''pending_operation_disabled_reason'' then
       map_option (\<lambda>s. g\<lparr>gc_PendingReason := s\<rparr>) (into_string (gc_PendingReason g) v)
     else if EqualFold k ''machine'' then into_struct into_machine_part g v
     else if EqualFold k ''repository'' then into_struct into_repository_part g v
     else if EqualFold k ''git_status'' then into_struct into_git_part g v
     else if EqualFold k ''owner'' then into_struct into_owner_part g v
     else Some g)"

definition into_codespace :: "codespace \<Rightarrow> json \<Rightarrow> codespace option" where
  "into_codespace = into_struct into_codespace_field"

section \<open>Operations on codespaces\<close>

text \<open>The payload of one page: the total and the codespaces.\<close>

definition into_page :: "string \<Rightarrow> int \<times> codespace list \<Rightarrow> json \<Rightarrow> (int \<times> codespace list) option" where
  "into_page k p v =
    (if EqualFold k ''total_count'' then map_option (\<lambda>n. (n, snd p)) (into_int (fst p) v)
     else if EqualFold k ''codespaces'' then
       map_option (\<lambda>l. (fst p, l)) (into_slice into_codespace no_codespace (snd p) v)
     else Some p)"

definition perPage :: nat where
  "perPage = 100"

definition page_path :: "nat \<Rightarrow> string" where
  "page_path page = ''/user/codespaces?per_page='' @ show_nat perPage @ ''&page='' @ show_nat page"

definition get_page ::
  "'w net \<Rightarrow> api_client \<Rightarrow> ctx \<Rightarrow> nat \<Rightarrow> 'w \<Rightarrow> (int \<times> (goerr + int \<times> codespace list)) \<times> 'w" where
  "get_page N c x page w =
    api_do N c x ''GET'' (page_path page) None (Some (unmarshal (into_struct into_page) (0, []))) (0, []) w"

fun list_pages ::
  "'w net \<Rightarrow> api_client \<Rightarrow> ctx \<Rightarrow> nat \<Rightarrow> nat \<Rightarrow> codespace list \<Rightarrow> 'w \<Rightarrow> (goerr + codespace list) \<times> 'w" where
  "list_pages N c x 0 page acc w = (Inr acc, w)"
| "list_pages N c x (Suc n) page acc w =
    (case get_page N c x page w of
       ((_, Inl e), w1) \<Rightarrow> (Inl e, w1)
     | ((_, Inr (_, cs)), w1) \<Rightarrow>
        if length cs < perPage then (Inr (acc @ cs), w1)
        else list_pages N c x n (page + 1) (acc @ cs) w1)"

definition listCodespaces :: "'w net \<Rightarrow> api_client \<Rightarrow> ctx \<Rightarrow> 'w \<Rightarrow> (goerr + codespace list) \<times> 'w" where
  "listCodespaces N c x w = list_pages N c x 20 1 [] w"

definition codespace_path :: "string \<Rightarrow> string" where
  "codespace_path name = ''/user/codespaces/'' @ PathEscape name"

definition getCodespace :: "'w net \<Rightarrow> api_client \<Rightarrow> ctx \<Rightarrow> string \<Rightarrow> 'w \<Rightarrow> (goerr + codespace) \<times> 'w" where
  "getCodespace N c x name w =
    (case api_do N c x ''GET'' (codespace_path name) None
            (Some (unmarshal into_codespace no_codespace)) no_codespace w of
       ((_, r), w1) \<Rightarrow> (r, w1))"

definition startCodespace :: "'w net \<Rightarrow> api_client \<Rightarrow> ctx \<Rightarrow> string \<Rightarrow> 'w \<Rightarrow> goerr option \<times> 'w" where
  "startCodespace N c x name w =
    (case api_do N c x ''POST'' (codespace_path name @ ''/start'') None None () w of
       ((status, Inl e), w1) \<Rightarrow> (if status = 409 then None else Some e, w1)
     | ((_, Inr _), w1) \<Rightarrow> (None, w1))"

definition stopCodespace :: "'w net \<Rightarrow> api_client \<Rightarrow> ctx \<Rightarrow> string \<Rightarrow> 'w \<Rightarrow> goerr option \<times> 'w" where
  "stopCodespace N c x name w =
    (case api_do N c x ''POST'' (codespace_path name @ ''/stop'') None None () w of
       ((_, Inl e), w1) \<Rightarrow> (Some e, w1)
     | ((_, Inr _), w1) \<Rightarrow> (None, w1))"

record create_request =
  crq_RepositoryID :: int
  crq_Ref :: string
  crq_Location :: string
  crq_Machine :: string
  crq_DevContainerPath :: string
  crq_IdleTimeoutMinutes :: int
  crq_RetentionPeriodMinutes :: int
  crq_DisplayName :: string

definition omit_str :: "string \<Rightarrow> string \<Rightarrow> (string \<times> json) list" where
  "omit_str k v = (if v = [] then [] else [(k, JStr v)])"

definition omit_int :: "string \<Rightarrow> int \<Rightarrow> (string \<times> json) list" where
  "omit_int k n = (if n = 0 then [] else [(k, JNum (show_int n))])"

definition create_body :: "create_request \<Rightarrow> json" where
  "create_body r = JObj
    ((''repository_id'', JNum (show_int (crq_RepositoryID r))) #
     omit_str ''ref'' (crq_Ref r) @ omit_str ''location'' (crq_Location r) @
     omit_str ''machine'' (crq_Machine r) @ omit_str ''devcontainer_path'' (crq_DevContainerPath r) @
     omit_int ''idle_timeout_minutes'' (crq_IdleTimeoutMinutes r) @
     omit_int ''retention_period_minutes'' (crq_RetentionPeriodMinutes r) @
     omit_str ''display_name'' (crq_DisplayName r))"

definition createCodespace ::
  "'w net \<Rightarrow> api_client \<Rightarrow> ctx \<Rightarrow> create_request \<Rightarrow> 'w \<Rightarrow> (goerr + codespace) \<times> 'w" where
  "createCodespace N c x req w =
    (case api_do N c x ''POST'' ''/user/codespaces'' (Some (create_body req))
            (Some (unmarshal into_codespace no_codespace)) no_codespace w of
       ((_, Inl e), w1) \<Rightarrow> (Inl e, w1)
     | ((_, Inr g), w1) \<Rightarrow>
        if gc_Name g = [] then
          (Inl (Errorf ''github did not return a codespace name for the created codespace''), w1)
        else (Inr g, w1))"

section \<open>Machines, repositories, the user\<close>

record machine =
  mc_Name :: string
  mc_DisplayName :: string
  mc_CPUs :: int
  mc_MemoryInBytes :: "64 word"
  mc_StorageInBytes :: "64 word"
  mc_PrebuildAvailability :: string

definition no_machine :: machine where
  "no_machine = \<lparr>mc_Name = [], mc_DisplayName = [], mc_CPUs = 0, mc_MemoryInBytes = 0,
     mc_StorageInBytes = 0, mc_PrebuildAvailability = []\<rparr>"

definition into_machine_field :: "string \<Rightarrow> machine \<Rightarrow> json \<Rightarrow> machine option" where
  "into_machine_field k m v =
    (if EqualFold k ''name'' then map_option (\<lambda>s. m\<lparr>mc_Name := s\<rparr>) (into_string (mc_Name m) v)
     else if EqualFold k ''display_name'' then
       map_option (\<lambda>s. m\<lparr>mc_DisplayName := s\<rparr>) (into_string (mc_DisplayName m) v)
     else if EqualFold k ''cpus'' then map_option (\<lambda>n. m\<lparr>mc_CPUs := n\<rparr>) (into_int (mc_CPUs m) v)
     else if EqualFold k ''memory_in_bytes'' then
       map_option (\<lambda>n. m\<lparr>mc_MemoryInBytes := n\<rparr>) (into_uint64 (mc_MemoryInBytes m) v)
     else if EqualFold k ''storage_in_bytes'' then
       map_option (\<lambda>n. m\<lparr>mc_StorageInBytes := n\<rparr>) (into_uint64 (mc_StorageInBytes m) v)
     else if EqualFold k ''prebuild_availability'' then
       map_option (\<lambda>s. m\<lparr>mc_PrebuildAvailability := s\<rparr>) (into_string (mc_PrebuildAvailability m) v)
     else Some m)"

definition into_machines :: "string \<Rightarrow> int \<times> machine list \<Rightarrow> json \<Rightarrow> (int \<times> machine list) option" where
  "into_machines k p v =
    (if EqualFold k ''total_count'' then map_option (\<lambda>n. (n, snd p)) (into_int (fst p) v)
     else if EqualFold k ''machines'' then
       map_option (\<lambda>l. (fst p, l)) (into_slice (into_struct into_machine_field) no_machine (snd p) v)
     else Some p)"

definition split_repository :: "string \<Rightarrow> goerr + string \<times> string" where
  "split_repository nwo =
    (let (owner, name, ok) = Cut nwo ''/''
     in if \<not> ok \<or> owner = [] \<or> name = [] then
          Inl (Errorf (''repository '' @ quote nwo @ '' must be owner/name''))
        else Inr (owner, name))"

definition repo_path :: "string \<Rightarrow> string \<Rightarrow> string" where
  "repo_path owner name = ''/repos/'' @ PathEscape owner @ ''/'' @ PathEscape name"

definition listMachines :: "'w net \<Rightarrow> api_client \<Rightarrow> ctx \<Rightarrow> string \<Rightarrow> 'w \<Rightarrow> (goerr + machine list) \<times> 'w" where
  "listMachines N c x nwo w =
    (case split_repository nwo of
       Inl e \<Rightarrow> (Inl e, w)
     | Inr (owner, name) \<Rightarrow>
        (case api_do N c x ''GET'' (repo_path owner name @ ''/codespaces/machines'') None
                (Some (unmarshal (into_struct into_machines) (0, []))) (0, []) w of
           ((_, Inl e), w1) \<Rightarrow> (Inl e, w1)
         | ((_, Inr (_, ms)), w1) \<Rightarrow> (Inr ms, w1)))"

record repository =
  rp_ID :: int
  rp_FullName :: string
  rp_DefaultBranch :: string
  rp_Private :: bool
  rp_PushedAt :: string

definition no_repository :: repository where
  "no_repository = \<lparr>rp_ID = 0, rp_FullName = [], rp_DefaultBranch = [], rp_Private = False, rp_PushedAt = []\<rparr>"

definition into_repository_field :: "string \<Rightarrow> repository \<Rightarrow> json \<Rightarrow> repository option" where
  "into_repository_field k r v =
    (if EqualFold k ''id'' then map_option (\<lambda>n. r\<lparr>rp_ID := n\<rparr>) (into_int (rp_ID r) v)
     else if EqualFold k ''full_name'' then map_option (\<lambda>s. r\<lparr>rp_FullName := s\<rparr>) (into_string (rp_FullName r) v)
     else if EqualFold k ''default_branch'' then
       map_option (\<lambda>s. r\<lparr>rp_DefaultBranch := s\<rparr>) (into_string (rp_DefaultBranch r) v)
     else if EqualFold k ''private'' then map_option (\<lambda>b. r\<lparr>rp_Private := b\<rparr>) (into_bool (rp_Private r) v)
     else if EqualFold k ''pushed_at'' then map_option (\<lambda>s. r\<lparr>rp_PushedAt := s\<rparr>) (into_string (rp_PushedAt r) v)
     else Some r)"

definition getRepository :: "'w net \<Rightarrow> api_client \<Rightarrow> ctx \<Rightarrow> string \<Rightarrow> 'w \<Rightarrow> (goerr + repository) \<times> 'w" where
  "getRepository N c x nwo w =
    (case split_repository nwo of
       Inl e \<Rightarrow> (Inl e, w)
     | Inr (owner, name) \<Rightarrow>
        (case api_do N c x ''GET'' (repo_path owner name) None
                (Some (unmarshal (into_struct into_repository_field) no_repository)) no_repository w of
           ((_, r), w1) \<Rightarrow> (r, w1)))"

definition userRepositories :: "'w net \<Rightarrow> api_client \<Rightarrow> ctx \<Rightarrow> int \<Rightarrow> 'w \<Rightarrow> (goerr + repository list) \<times> 'w" where
  "userRepositories N c x limit w =
    (let lim = (if limit \<le> 0 \<or> limit > 100 then 30 else limit)
     in (case api_do N c x ''GET''
               (''/user/repos?sort=pushed&per_page='' @ show_int lim @ ''&affiliation=owner,collaborator'') None
               (Some (unmarshal (into_slice (into_struct into_repository_field) no_repository) [])) [] w of
           ((_, r), w1) \<Rightarrow> (r, w1)))"

definition currentUser :: "'w net \<Rightarrow> api_client \<Rightarrow> ctx \<Rightarrow> 'w \<Rightarrow> (goerr + string) \<times> 'w" where
  "currentUser N c x w =
    (case api_do N c x ''GET'' ''/user'' None
            (Some (unmarshal (into_struct (\<lambda>k s v. if EqualFold k ''login'' then into_string s v else Some s)) [])) []
            w of
       ((_, r), w1) \<Rightarrow> (r, w1))"

end
