(* ===== verification/GoJsonRound.thy ===== *)
theory GoJsonRound
  imports GoJson
begin

text \<open>
  Reading back what was written: for values whose strings are ASCII, the parser is a left inverse
  of the printer, whatever white space the layout uses.
\<close>

section \<open>Strings\<close>

definition ascii :: "string \<Rightarrow> bool" where
  "ascii s \<longleftrightarrow> (\<forall>c\<in>set s. byte c < 128)"

lemma ascii_simps [simp]:
  "ascii []" "ascii (c # s) \<longleftrightarrow> byte c < 128 \<and> ascii s" "ascii (s @ t) \<longleftrightarrow> ascii s \<and> ascii t"
  by (auto simp: ascii_def)

lemma char_of_byte [simp]: "char_of (byte c) = c"
  by (simp add: byte_def)

lemma byte_char_of [simp]: "n < 256 \<Longrightarrow> byte (char_of n) = n"
  by (simp add: byte_def of_char_of)

lemma json_chars_ascii: "ascii s \<Longrightarrow> length s \<le> n \<Longrightarrow> json_chars n s = concat (map json_ascii s)"
proof (induction s arbitrary: n)
  case Nil
  then show ?case by (cases n) simp_all
next
  case (Cons c s)
  then obtain m where "n = Suc m" by (cases n) auto
  with Cons show ?case by simp
qed

lemma hex_low: "n < 16 \<Longrightarrow> hex_val (char_of (if n < 10 then 48 + n else 87 + n)) = Some n"
  by (auto simp: hex_val_def Let_def)

lemma unescape_u00:
  assumes "byte c < 128"
  shows "unicode_escape (drop 2 (u00 (byte c)) @ r) = Some ([c], r)"
proof -
  have h: "byte c div 16 < 16" "byte c mod 16 < 16" using assms by auto
  have z: "hex_val (CHR ''0'') = Some 0" by (simp add: hex_val_def byte_def Let_def)
  obtain x y where xy: "drop 2 (u00 (byte c)) = [CHR ''0'', CHR ''0'', x, y]"
    and x: "hex_val x = Some (byte c div 16)" and y: "hex_val y = Some (byte c mod 16)"
    using hex_low [OF h(1)] hex_low [OF h(2)] by (simp add: u00_def)
  have "hex4 (drop 2 (u00 (byte c)) @ r) = Some (byte c, r)"
    unfolding xy by (simp add: x y z)
  then show ?thesis using assms by (simp add: unicode_escape_def utf8_def utf8_rune_def)
qed

lemma escaped_chars:
  "char_of (34::nat) = CHR 0x22" "char_of (92::nat) = CHR 0x5C" "char_of (8::nat) = CHR 0x08"
  "char_of (12::nat) = CHR 0x0C" "char_of (10::nat) = CHR 0x0A" "char_of (13::nat) = CHR 0x0D"
  "char_of (9::nat) = CHR 0x09"
  by (simp_all add: char_of_def bit_0)

lemma string_body_ascii:
  assumes "byte c < 128"
  shows "string_body (Suc n) (json_ascii c @ r) = map_option (apfst ((@) [c])) (string_body n r)"
proof -
  show ?thesis
  proof (cases "byte c \<in> {34, 92, 8, 12, 10, 13, 9}")
    case True
    then obtain k where "byte c = k" "k \<in> {34, 92, 8, 12, 10, 13, 9}" by blast
    then have "c = char_of k" "k \<in> {34, 92, 8, 12, 10, 13, 9}" using char_of_byte [of c] by simp_all
    then have "\<exists>e. json_ascii c = [CHR 0x5C, e] \<and> e \<noteq> CHR ''u'' \<and> simple_escape e = Some c"
      by (elim insertE emptyE)
        (simp_all add: escaped_chars json_ascii_def byte_def simple_escape_def Let_def)
    then obtain e where "json_ascii c = [CHR 0x5C, e]" "e \<noteq> CHR ''u''" "simple_escape e = Some c" by blast
    then show ?thesis by simp
  next
    case special: False
    show ?thesis
    proof (cases "byte c < 32 \<or> byte c = 60 \<or> byte c = 62 \<or> byte c = 38")
      case True
      with special have j: "json_ascii c = u00 (byte c)" by (simp add: json_ascii_def Let_def)
      obtain q where q: "u00 (byte c) = CHR 0x5C # CHR ''u'' # q" by (simp add: u00_def)
      with unescape_u00 [OF assms, of r] show ?thesis unfolding j q by simp
    next
      case False
      with special have "json_ascii c = [c]" by (simp add: json_ascii_def Let_def)
      moreover have "rune_len (c # r) = 1" using assms by (simp add: rune_len_def Let_def)
      moreover have "c \<noteq> CHR 0x22" "c \<noteq> CHR 0x5C" using special by (auto simp: byte_def)
      ultimately show ?thesis using False by simp
    qed
  qed
qed

lemma string_body_chars:
  "ascii s \<Longrightarrow> length s < n \<Longrightarrow> string_body n (concat (map json_ascii s) @ CHR 0x22 # r) = Some (s, r)"
proof (induction s arbitrary: n)
  case Nil
  then obtain m where "n = Suc m" by (cases n) auto
  then show ?case by simp
next
  case (Cons c s)
  then obtain m where n: "n = Suc m" by (cases n) auto
  with Cons have "string_body m (concat (map json_ascii s) @ CHR 0x22 # r) = Some (s, r)" by simp
  then show ?case unfolding n using Cons.prems string_body_ascii [of c m] by simp
qed

lemma json_ascii_length: "1 \<le> length (json_ascii c)"
  by (simp add: json_ascii_def u00_def Let_def)

lemma json_chars_length: "length s \<le> length (concat (map json_ascii s))"
proof (induction s)
  case (Cons c s)
  then show ?case using json_ascii_length [of c] by simp
qed simp

text \<open>A string literal and what follows it, as the parser meets it after the opening quote.\<close>

lemma json_string_read:
  assumes "ascii s"
  obtains t where "json_string s = CHR 0x22 # t" and "\<And>r. string_body (length (t @ r)) (t @ r) = Some (s, r)"
    and "t \<noteq> []"
proof
  let ?t = "concat (map json_ascii s) @ [CHR 0x22]"
  show "json_string s = CHR 0x22 # ?t" using assms by (simp add: json_string_def json_chars_ascii)
  show "string_body (length (?t @ r)) (?t @ r) = Some (s, r)" for r
    using string_body_chars [OF assms, of "length (?t @ r)" r] json_chars_length [of s] by simp
qed simp

section \<open>Values\<close>

definition delim :: "string \<Rightarrow> bool" where
  "delim r \<longleftrightarrow> r = [] \<or> hd r \<in> {CHR '','', CHR '']'', CHR ''}''} \<or> json_space (hd r)"

text \<open>A literal that the parser reads back, up to any delimiter.\<close>

definition num_ok :: "string \<Rightarrow> bool" where
  "num_ok l \<longleftrightarrow> l \<noteq> [] \<and> (hd l = CHR ''-'' \<or> is_digit (hd l)) \<and>
     (\<forall>r. delim r \<longrightarrow> number_literal (l @ r) = Some (l, r))"

fun json_ok :: "json \<Rightarrow> bool" where
  "json_ok (JNum l) = num_ok l"
| "json_ok (JStr s) = ascii s"
| "json_ok (JArr vs) = (\<forall>v\<in>set vs. json_ok v)"
| "json_ok (JObj ms) = (\<forall>m\<in>set ms. ascii (fst m) \<and> json_ok (snd m))"
| "json_ok _ = True"

text \<open>The fuel a value needs.\<close>

fun need :: "json \<Rightarrow> nat" where
  "need (JArr vs) = Suc (foldr (\<lambda>n a. Suc (max n a)) (map need vs) 0)"
| "need (JObj ms) = Suc (foldr (\<lambda>n a. Suc (max n a)) (map (\<lambda>m. need (snd m)) ms) 0)"
| "need _ = 1"


locale json_whitespace =
  fixes nl :: "nat \<Rightarrow> string" and gap :: string
  assumes nl_space: "\<forall>c\<in>set (nl d). json_space c" and gap_space: "\<forall>c\<in>set gap. json_space c"
begin

abbreviation lay :: "nat \<Rightarrow> json \<Rightarrow> string" where
  "lay \<equiv> json_layout nl gap"

lemma skip_front: "\<forall>c\<in>set ws. json_space c \<Longrightarrow> skip_ws (ws @ r) = skip_ws r"
  by (induction ws) (simp_all add: skip_ws_def)

lemma skip_solid: "\<not> json_space c \<Longrightarrow> skip_ws (c # r) = c # r"
  by (simp add: skip_ws_def)

lemma space_chars:
  "\<not> json_space CHR 0x22" "\<not> json_space CHR ''{''" "\<not> json_space CHR ''}''" "\<not> json_space CHR ''[''"
  "\<not> json_space CHR '']''" "\<not> json_space CHR '',''" "\<not> json_space CHR '':''" "\<not> json_space CHR ''t''"
  "\<not> json_space CHR ''f''" "\<not> json_space CHR ''n''" "\<not> json_space CHR ''-''"
  by (simp_all add: json_space_def byte_def)

lemma digit_solid: "is_digit c \<Longrightarrow> \<not> json_space c"
  by (auto simp: is_digit_def json_space_def byte_def)

text \<open>How a value begins: never with white space or a closing bracket.\<close>

lemma lay_begin:
  assumes "json_ok v"
  obtains c t where "lay d v = c # t" and "\<not> json_space c" and "c \<noteq> CHR '']''" and "c \<noteq> CHR ''}''"
proof (cases v)
  case (JNum l)
  with assms obtain c t where "l = c # t" "c = CHR ''-'' \<or> is_digit c"
    by (cases l) (auto simp: num_ok_def)
  moreover have "\<not> is_digit CHR '']''" "\<not> is_digit CHR ''}''" by (simp_all add: is_digit_def)
  ultimately show thesis using that [of c t] JNum digit_solid space_chars by auto
next
  case (JBool b)
  then show thesis using that by (cases b) (auto simp: space_chars)
next
  case (JArr vs)
  then show thesis using that by (cases "vs = []") (auto simp: space_chars)
next
  case (JObj ms)
  then show thesis using that by (cases "ms = []") (auto simp: space_chars)
qed (use that in \<open>auto simp: space_chars json_string_def\<close>)

lemma value_fuel: "need v \<le> n \<Longrightarrow> \<exists>m. n = Suc m"
  by (cases v; cases n) auto

lemma parse_items_lay:
  assumes each: "\<And>v n r. v \<in> set vs \<Longrightarrow> need v \<le> n \<Longrightarrow> delim r \<Longrightarrow> parse_value n (ws @ lay d v @ r) = Some (v, r)"
    and "vs \<noteq> []" and "foldr (\<lambda>n a. Suc (max n a)) (map need vs) 0 \<le> n"
    and ws: "\<And>c. c \<in> set ws \<Longrightarrow> json_space c" and fin: "\<And>c. c \<in> set fin \<Longrightarrow> json_space c"
  shows "parse_items n (ws @ Join (map (lay d) vs) ('','' @ ws) @ fin @ CHR '']'' # r) = Some (vs, r)"
  using assms(1-3)
proof (induction vs arbitrary: n)
  case Nil
  then show ?case by simp
next
  case (Cons v vs)
  then obtain m where n: "n = Suc m" and m: "need v \<le> m"
    "foldr (\<lambda>n a. Suc (max n a)) (map need vs) 0 \<le> m" by (cases n) auto
  show ?case
  proof (cases vs)
    case Nil
    have "delim (fin @ CHR '']'' # r)" using fin by (cases fin) (auto simp: delim_def)
    then have "parse_value m (ws @ lay d v @ fin @ CHR '']'' # r) = Some (v, fin @ CHR '']'' # r)"
      using Cons.prems(1) m(1) by simp
    moreover have "skip_ws (fin @ CHR '']'' # r) = CHR '']'' # r"
      using fin by (simp add: skip_front skip_solid space_chars)
    ultimately show ?thesis using n Nil by simp
  next
    case (Cons v' vs')
    let ?rest = "ws @ Join (map (lay d) vs) ('','' @ ws) @ fin @ CHR '']'' # r"
    have "parse_value m (ws @ lay d v @ CHR '','' # ?rest) = Some (v, CHR '','' # ?rest)"
      using Cons.prems(1) m(1) by (simp add: delim_def)
    moreover have "parse_items m ?rest = Some (vs, r)"
      using Cons.IH Cons.prems(1) m(2) Cons by simp
    ultimately show ?thesis using n Cons by (simp add: skip_solid space_chars)
  qed
qed

lemma parse_members_lay:
  assumes each: "\<And>k v n r. (k, v) \<in> set ms \<Longrightarrow> need v \<le> n \<Longrightarrow> delim r \<Longrightarrow>
      parse_value n (gap @ lay d v @ r) = Some (v, r)"
    and "\<forall>m\<in>set ms. ascii (fst m)"
    and "ms \<noteq> []" and "foldr (\<lambda>n a. Suc (max n a)) (map (\<lambda>m. need (snd m)) ms) 0 \<le> n"
    and ws: "\<And>c. c \<in> set ws \<Longrightarrow> json_space c" and fin: "\<And>c. c \<in> set fin \<Longrightarrow> json_space c"
  shows "parse_members n (ws @ Join (map (\<lambda>(k, v). json_string k @ '':'' @ gap @ lay d v) ms) ('','' @ ws) @
    fin @ CHR ''}'' # r) = Some (ms, r)"
  using assms(1-4)
proof (induction ms arbitrary: n)
  case Nil
  then show ?case by simp
next
  case (Cons kv ms)
  obtain k v where kv: "kv = (k, v)" by fastforce
  obtain m where n: "n = Suc m" and m: "need v \<le> m"
    "foldr (\<lambda>n a. Suc (max n a)) (map (\<lambda>m. need (snd m)) ms) 0 \<le> m" using Cons.prems(4) kv by (cases n) auto
  have "ascii k" using Cons.prems(2) kv by simp
  then obtain t where t: "json_string k = CHR 0x22 # t"
    "\<And>r. string_body (length (t @ r)) (t @ r) = Some (k, r)" using json_string_read by metis
  have first: "parse_members n (ws @ json_string k @ '':'' @ gap @ lay d v @ q) =
      (case skip_ws q of [] \<Rightarrow> None
       | c # r' \<Rightarrow> if c = CHR ''}'' then Some ([(k, v)], r')
           else if c = CHR '','' then map_option (apfst ((#) (k, v))) (parse_members m r') else None)"
    if "delim q" for q
  proof -
    have "parse_value m (gap @ lay d v @ q) = Some (v, q)"
      using Cons.prems(1) [of k v m q] kv m(1) that by simp
    moreover have "skip_ws (ws @ json_string k @ '':'' @ gap @ lay d v @ q) =
        CHR 0x22 # t @ '':'' @ gap @ lay d v @ q"
      using ws by (simp add: skip_front skip_solid space_chars t(1))
    moreover have "string_body (length (t @ '':'' @ gap @ lay d v @ q)) (t @ '':'' @ gap @ lay d v @ q) =
        Some (k, '':'' @ gap @ lay d v @ q)" by (rule t(2))
    ultimately show ?thesis unfolding n by (simp add: skip_solid space_chars)
  qed
  show ?case
  proof (cases ms)
    case Nil
    have "delim (fin @ CHR ''}'' # r)" using fin by (cases fin) (auto simp: delim_def)
    moreover have "skip_ws (fin @ CHR ''}'' # r) = CHR ''}'' # r"
      using fin by (simp add: skip_front skip_solid space_chars)
    ultimately show ?thesis using first kv Nil by simp
  next
    case (Cons kv' ms')
    let ?rest = "ws @ Join (map (\<lambda>(k, v). json_string k @ '':'' @ gap @ lay d v) ms) ('','' @ ws) @
      fin @ CHR ''}'' # r"
    have "delim (CHR '','' # ?rest)" by (simp add: delim_def)
    moreover have "parse_members m ?rest = Some (ms, r)"
      using Cons.prems(2) m(2) Cons by (intro Cons.IH Cons.prems(1)) auto
    ultimately show ?thesis using first [of "CHR '','' # ?rest"] kv Cons by (simp add: skip_solid space_chars)
  qed
qed

lemma parse_value_lay:
  "json_ok v \<Longrightarrow> need v \<le> n \<Longrightarrow> delim r \<Longrightarrow> \<forall>c\<in>set ws. json_space c \<Longrightarrow>
    parse_value n (ws @ lay d v @ r) = Some (v, r)"
proof (induction v arbitrary: n r ws d)
  case JNull
  then obtain m where "n = Suc m" using value_fuel by blast
  with JNull show ?case by (simp add: skip_front skip_solid space_chars)
next
  case (JBool b)
  then obtain m where "n = Suc m" using value_fuel by blast
  with JBool show ?case by (cases b) (simp_all add: skip_front skip_solid space_chars)
next
  case (JNum l)
  then obtain m where n: "n = Suc m" using value_fuel by blast
  from JNum have l: "number_literal (l @ r) = Some (l, r)" "l \<noteq> []" "hd l = CHR ''-'' \<or> is_digit (hd l)"
    by (auto simp: num_ok_def)
  then obtain c t where c: "l = c # t" "c = CHR ''-'' \<or> is_digit c" by (cases l) auto
  have "\<not> json_space c" using c(2) digit_solid space_chars by auto
  moreover have "c \<notin> {CHR ''{'', CHR ''['', CHR 0x22, CHR ''t'', CHR ''f'', CHR ''n''}"
    using c(2) by (auto simp: is_digit_def)
  ultimately show ?case using n l(1) c(1) JNum.prems(4) by (simp add: skip_front skip_solid)
next
  case (JStr s)
  then obtain m where n: "n = Suc m" using value_fuel by blast
  obtain t where t: "json_string s = CHR 0x22 # t"
    "\<And>r. string_body (length (t @ r)) (t @ r) = Some (s, r)"
    using JStr.prems(1) json_string_read [of s] by (metis json_ok.simps(2))
  then show ?case using n t(2) [of r] JStr.prems(4) by (simp add: skip_front skip_solid space_chars)
next
  case (JArr vs)
  then obtain m where n: "n = Suc m" using value_fuel by blast
  show ?case
  proof (cases "vs = []")
    case True
    with n JArr.prems(4) show ?thesis by (simp add: skip_front skip_solid space_chars)
  next
    case False
    then obtain v vs' where vs: "vs = v # vs'" by (cases vs) auto
    let ?in = "nl (Suc d) @ Join (map (lay (Suc d)) vs) ('','' @ nl (Suc d)) @ nl d @ CHR '']'' # r"
    have "parse_items m ?in = Some (vs, r)"
      using JArr n False nl_space by (intro parse_items_lay) auto
    moreover obtain c u where "skip_ws ?in = c # u" "c \<noteq> CHR '']''"
    proof -
      obtain c t where c: "lay (Suc d) v = c # t" "\<not> json_space c" "c \<noteq> CHR '']''"
        using lay_begin [of v "Suc d"] JArr.prems(1) vs by (metis json_ok.simps(3) list.set_intros(1))
      then have "\<exists>u. Join (map (lay (Suc d)) vs) ('','' @ nl (Suc d)) @ nl d @ CHR '']'' # r = c # u"
        using vs by (cases vs') auto
      then obtain u where "skip_ws ?in = c # u"
        using nl_space c(2) by (auto simp: skip_front skip_solid)
      with c(3) that show thesis by blast
    qed
    ultimately show ?thesis using n False JArr.prems(4) by (simp add: skip_front skip_solid space_chars)
  qed
next
  case (JObj ms)
  then obtain m where n: "n = Suc m" using value_fuel by blast
  show ?case
  proof (cases "ms = []")
    case True
    with n JObj.prems(4) show ?thesis by (simp add: skip_front skip_solid space_chars)
  next
    case False
    then obtain k v ms' where ms: "ms = (k, v) # ms'" by (cases ms) auto
    let ?in = "nl (Suc d) @ Join (map (\<lambda>(k, v). json_string k @ '':'' @ gap @ lay (Suc d) v) ms)
      ('','' @ nl (Suc d)) @ nl d @ CHR ''}'' # r"
    have "parse_value p (gap @ lay (Suc d) v @ q) = Some (v, q)"
      if "(k, v) \<in> set ms" "need v \<le> p" "delim q" for k v p q
      using JObj.IH [of "(k, v)" v p q gap "Suc d"] JObj.prems(1) that gap_space by force
    moreover have "foldr (\<lambda>n a. Suc (max n a)) (map (\<lambda>m. need (snd m)) ms) 0 \<le> m" using JObj.prems(2) n by simp
    ultimately have "parse_members m ?in = Some (ms, r)"
      using JObj.prems(1) False nl_space by (intro parse_members_lay) auto
    moreover obtain u where "skip_ws ?in = CHR 0x22 # u"
    proof -
      have "\<exists>u. Join (map (\<lambda>(k, v). json_string k @ '':'' @ gap @ lay (Suc d) v) ms) ('','' @ nl (Suc d)) @
          nl d @ CHR ''}'' # r = CHR 0x22 # u"
        using ms by (cases ms') (auto simp: json_string_def)
      then show thesis using that nl_space by (auto simp: skip_front skip_solid space_chars)
    qed
    ultimately show ?thesis using n False JObj.prems(4) by (simp add: skip_front skip_solid space_chars)
  qed
qed

lemma need_length: "json_ok v \<Longrightarrow> need v \<le> 2 * length (lay d v)"
proof (induction v arbitrary: d)
  case (JArr vs)
  have "foldr (\<lambda>n a. Suc (max n a)) (map need us) 0 \<le>
      2 * length (Join (map (lay (Suc d)) us) ('','' @ nl (Suc d))) + 1" if "set us \<subseteq> set vs" for us
    using that
  proof (induction us)
    case (Cons u us)
    have "need u \<le> 2 * length (lay (Suc d) u)" using JArr Cons.prems by auto
    with Cons show ?case by (cases us) auto
  qed simp
  from this [of vs] show ?case by auto
next
  case (JObj ms)
  have "foldr (\<lambda>n a. Suc (max n a)) (map (\<lambda>m. need (snd m)) us) 0 \<le>
      2 * length (Join (map (\<lambda>(k, v). json_string k @ '':'' @ gap @ lay (Suc d) v) us) ('','' @ nl (Suc d))) + 1"
    if "set us \<subseteq> set ms" for us
    using that
  proof (induction us)
    case (Cons u us)
    obtain k v where u: "u = (k, v)" by fastforce
    have "need v \<le> 2 * length (lay (Suc d) v)" using JObj Cons.prems u by force
    with Cons u show ?case by (cases us) auto
  qed simp
  from this [of ms] show ?case by auto
next
  case (JNum l)
  then show ?case by (cases l) (auto simp: num_ok_def)
qed (auto simp: json_string_def)

theorem json_read_back: "json_ok v \<Longrightarrow> json_parse (lay d v) = Some v"
  using parse_value_lay [of v "2 * length (lay d v) + 1" "[]" "[]" d] need_length [of v d]
  by (simp add: json_parse_def delim_def skip_ws_def)

text \<open>A line of its own, as \<open>json.Encoder\<close> writes it.\<close>

theorem json_read_back_line:
  assumes "json_ok v"
  shows "json_parse (lay d v @ [CHR 0x0A]) = Some v"
proof -
  have nl: "json_space (CHR 0x0A)" by (simp add: json_space_def byte_def)
  have "parse_value n (lay d v @ [CHR 0x0A]) = Some (v, [CHR 0x0A])"
    if "n = 2 * length (lay d v @ [CHR 0x0A]) + 1" for n
    using parse_value_lay [OF assms, of n "[CHR 0x0A]" "[]" d] nl that need_length [OF assms, of d]
    by (simp add: delim_def)
  then show ?thesis using nl by (simp add: json_parse_def skip_ws_def)
qed

end

interpretation plain_json: json_whitespace "\<lambda>d. []" "[]"
  by unfold_locales simp_all

interpretation indent_json: json_whitespace "\<lambda>d. CHR 0x0A # concat (replicate d ''  '')" "'' ''"
  by unfold_locales (auto simp: json_space_def byte_def)

lemma json_parse_print: "json_ok v \<Longrightarrow> json_parse (json_print v) = Some v"
  unfolding json_print_def by (rule plain_json.json_read_back)

lemma json_parse_indent: "json_ok v \<Longrightarrow> json_parse (json_indent v) = Some v"
  unfolding json_indent_def by (rule indent_json.json_read_back)

lemma json_parse_print_line: "json_ok v \<Longrightarrow> json_parse (json_print v @ [CHR 0x0A]) = Some v"
  unfolding json_print_def by (rule plain_json.json_read_back_line)

lemma json_parse_indent_line: "json_ok v \<Longrightarrow> json_parse (json_indent v @ [CHR 0x0A]) = Some v"
  unfolding json_indent_def by (rule indent_json.json_read_back_line)

text \<open>How long a printed string can be.\<close>

lemma json_ascii_size: "length (json_ascii c) \<le> 6"
  by (simp add: json_ascii_def u00_def Let_def)

lemma json_chars_size: "length (concat (map json_ascii s)) \<le> 6 * length s"
proof (induction s)
  case (Cons c s)
  then show ?case using json_ascii_size [of c] by simp
qed simp

lemma json_string_size: "ascii s \<Longrightarrow> length (json_string s) \<le> 6 * length s + 2"
  using json_chars_size [of s] by (simp add: json_string_def json_chars_ascii)

section \<open>Decimal literals\<close>

lemma show_nat_first: "show_nat n \<noteq> [] \<and> (0 < n \<longrightarrow> hd (show_nat n) \<noteq> CHR ''0'') \<and> (n = 0 \<longrightarrow> show_nat n = ''0'')"
proof (induction n rule: show_nat.induct)
  case (1 n)
  show ?case
  proof (cases "n < 10")
    case True
    then have "n \<in> {0, 1, 2, 3, 4, 5, 6, 7, 8, 9}" by auto
    then show ?thesis
      by (elim insertE emptyE) (simp_all add: show_nat.simps char_of_def bit_0)
  next
    case False
    with 1 show ?thesis by (subst (1 2 3) show_nat.simps) (simp add: hd_append)
  qed
qed

lemma digits_delim:
  assumes "\<forall>c\<in>set ds. is_digit c" and "delim r"
  shows "digits (ds @ r) = (ds, r)"
proof -
  have "\<not> is_digit (hd r)" if "r \<noteq> []"
    using assms(2) that by (auto simp: delim_def is_digit_def json_space_def byte_def)
  then show ?thesis using assms(1)
    by (cases r) (auto simp: digits_def takeWhile_append dropWhile_append)
qed

lemma num_ok_nat: "num_ok (show_nat n)"
proof -
  obtain c t where ct: "show_nat n = c # t" using show_nat_first [of n] by (cases "show_nat n") auto
  have dig: "is_digit c" "\<forall>x\<in>set t. is_digit x" using show_nat_digits [of _ n] ct by auto
  have "number_literal (show_nat n @ r) = Some (show_nat n, r)" if r: "delim r" for r
  proof -
    have stop: "case r of [] \<Rightarrow> True | a # _ \<Rightarrow> a \<noteq> CHR ''.'' \<and> a \<noteq> CHR ''e'' \<and> a \<noteq> CHR ''E''"
      using r by (auto simp: delim_def json_space_def byte_def split: list.splits)
    have "c \<noteq> CHR ''-''" using dig(1) by (auto simp: is_digit_def)
    moreover have "c = CHR ''0'' \<Longrightarrow> t = []" using show_nat_first [of n] ct by (cases "n = 0") auto
    moreover have "digits (show_nat n @ r) = (show_nat n, r)" by (rule digits_delim [OF _ r]) (simp add: show_nat_digits)
    ultimately show ?thesis using stop ct
      by (cases r; cases "c = CHR ''0''") (auto simp: number_literal_def Let_def)
  qed
  then show ?thesis using ct dig by (simp add: num_ok_def)
qed

end
