(* ===== verification/GithubApiSpec.thy ===== *)
theory GithubApiSpec
  imports GithubApi GoJsonRound
begin

text \<open>
  Properties of the API client: how often it asks and how long it waits, which answers end a call
  and as what error, that a client-chosen name stays one path segment, and that the paginated
  list is the account's list.
\<close>

section \<open>Retries\<close>

lemma second_val: "second = 1000000000"
  by (simp add: second_def)

lemma backoff_bounds:
  assumes "0 < attempt"
  shows "0 < backoffFor e attempt \<and> backoffFor e attempt \<le> 30 * second"
proof -
  have p: "(1::int) \<le> 2 ^ (attempt - 1)" by simp
  then have "0 < min (2 ^ (attempt - 1) * (second div 2)) (5 * second)" by (simp add: second_val)
  then show ?thesis
    by (auto simp: backoffFor_def second_val split: option.splits)
qed

text \<open>A network that counts the requests and adds up the time its timers are set to.\<close>

definition counting_net :: "'w net \<Rightarrow> ('w \<times> nat \<times> int) net" where
  "counting_net N =
    \<lparr>n_now = (\<lambda>(w, k, d). n_now N w), n_err = (\<lambda>x (w, k, d). n_err N x w),
     n_sel = (\<lambda>x t (w, k, d). let (r, w') = n_sel N x t w in (r, w', k, d + (t - n_now N w))),
     n_http = (\<lambda>x q (w, k, d). let (r, w') = n_http N x q w in (r, w', k + 1, d)),
     n_badreq = n_badreq N, n_badjson = n_badjson N\<rparr>"

lemma attempt_count:
  assumes "attempt_once (counting_net N) c x meth path body dec z final (w, k, d) = (r, w', k', d')"
  shows "k' \<le> k + 1 \<and> d' = d"
  using assms
  by (auto simp: attempt_once_def counting_net_def newRequest_def Let_def
      split: sum.splits prod.splits option.splits if_splits)

lemma do_from_count:
  assumes "do_from (counting_net N) c x meth path body dec z n a e (w, k, d) = (r, w', k', d')"
    and "0 < a"
  shows "k' \<le> k + n \<and> d' \<le> d + int (if 1 < a then n else n - 1) * (30 * second)"
  using assms
proof (induction n arbitrary: a e w k d)
  case 0
  then show ?case by simp
next
  case (Suc n)
  let ?N = "counting_net N"
  obtain s w1 k1 d1 where sel: "(if a > 1 then n_sel ?N x (n_now ?N (w, k, d) + backoffFor e a) (w, k, d)
      else (None, (w, k, d))) = (s, w1, k1, d1)" by (metis prod_cases4)
  have d1: "k1 = k \<and> d1 \<le> d + (if 1 < a then 30 * second else 0)"
    using sel backoff_bounds [OF Suc.prems(2), of e]
    by (auto simp: counting_net_def Let_def split: if_splits prod.splits)
  have pos: "0 \<le> int n * (30 * second)" by (simp add: second_val)
  show ?case
  proof (cases s)
    case (Some y)
    then show ?thesis using Suc.prems sel d1 pos by (auto simp: algebra_simps split: if_splits)
  next
    case None
    obtain res w2 k2 d2 where at: "attempt_once ?N c x meth path body dec z (a = maxAttempts) (w1, k1, d1) =
        (res, w2, k2, d2)" by (metis prod_cases4)
    note c2 = attempt_count [OF at]
    show ?thesis
    proof (cases res)
      case (Inl y)
      then show ?thesis using Suc.prems sel None at d1 c2 pos
        by (auto simp: algebra_simps split: if_splits)
    next
      case (Inr y)
      then have "do_from ?N c x meth path body dec z n (a + 1) y (w2, k2, d2) = (r, w', k', d')"
        using Suc.prems sel None at by simp
      from Suc.IH [OF this] Suc.prems(2) have "k' \<le> k2 + n \<and> d' \<le> d2 + int n * (30 * second)" by simp
      with d1 c2 show ?thesis by (auto simp: algebra_simps)
    qed
  qed
qed

text \<open>
  C23: A call asks little and waits little. Whatever the server answers and however it fails, one
  call of the client sends at most three requests, and its timers are set to one minute in all
  at most.
\<close>

theorem api_do_bounded:
  assumes "api_do (counting_net N) c x meth path body dec z (w, 0, 0) = (r, w', k', d')"
  shows "k' \<le> 3 \<and> d' \<le> 60 * second"
  using do_from_count [OF assms [unfolded api_do_def]] by (simp add: maxAttempts_def)

section \<open>Answers\<close>

text \<open>A network whose first answer is fixed.\<close>

definition answer_net :: "http_response \<Rightarrow> nat net" where
  "answer_net rs = \<lparr>n_now = int, n_err = (\<lambda>x w. None), n_sel = (\<lambda>x t w. (None, nat t)),
     n_http = (\<lambda>x q w. (Inr rs, w + 1)), n_badreq = (\<lambda>u. None), n_badjson = (\<lambda>s. ''bad'')\<rparr>"

definition client0 :: api_client where
  "client0 = \<lparr>ac_base = ''https://api.github.com'', ac_token = ''t'', ac_timeout = 30 * second,
     ac_agent = ''gw''\<rparr>"

definition ctx_free :: ctx where
  "ctx_free = \<lparr>ctx_deadline = None, ctx_cancel = None, ctx_signal = 0\<rparr>"

lemma api_do_bounded_witness:
  "\<exists>r w' k' d'. api_do (counting_net (answer_net \<lparr>hr_Status = 500, hr_Header = [], hr_Body = [],
      hr_BodyErr = None\<rparr>)) client0 ctx_free ''GET'' ''/user'' None None () (0, 0, 0) = (r, w', k', d') \<and>
    k' \<le> 3 \<and> d' \<le> 60 * second"
proof -
  obtain r w' k' d' where R: "api_do (counting_net (answer_net \<lparr>hr_Status = 500, hr_Header = [], hr_Body = [],
      hr_BodyErr = None\<rparr>)) client0 ctx_free ''GET'' ''/user'' None None () (0, 0, 0) = (r, w', k', d')"
    by (metis prod_cases4)
  from api_do_bounded [OF R] R show ?thesis by blast
qed

text \<open>
  C24: Permanent answers end a call at once. When the first answer can be read and is neither a
  success nor worth a retry, the call returns its status and the API's error after that one
  request; the error is an authentication error exactly for 401 and for a 403 that is no rate
  limit, a missing environment exactly for 404, and is never marked temporary.
\<close>

theorem api_do_permanent:
  assumes "newRequest N c meth path body = Inr q"
    and "n_http N (WithTimeout x (ac_timeout c) (n_now N w)) q w = (Inr rs, w1)"
    and "read_limited maxBody rs = Inr raw"
    and "\<not> (200 \<le> hr_Status rs \<and> hr_Status rs < 300)"
    and "\<not> api_temporary (parseAPIError meth path (hr_Status rs) (hr_Header rs) raw)"
  shows "\<exists>e. api_do N c x meth path body dec z w = ((hr_Status rs, Inl e), w1) \<and>
    (errors_Is e ErrAuth \<longleftrightarrow> hr_Status rs = 401 \<or> hr_Status rs = 403) \<and>
    (errors_Is e ErrNotFound \<longleftrightarrow> hr_Status rs = 404) \<and> \<not> IsTemporary e"
proof -
  let ?ae = "parseAPIError meth path (hr_Status rs) (hr_Header rs) raw"
  have st: "ae_Status ?ae = hr_Status rs" by (simp add: parseAPIError_def Let_def split: option.splits prod.splits)
  have "\<not> ae_rateLimit ?ae" using assms(5) by (simp add: api_temporary_def)
  then have "api_unwrap ?ae = Some ErrAuth \<longleftrightarrow> hr_Status rs = 401 \<or> hr_Status rs = 403"
    and "api_unwrap ?ae = Some ErrNotFound \<longleftrightarrow> hr_Status rs = 404"
    by (auto simp: api_unwrap_def st)
  moreover have "api_do N c x meth path body dec z w = ((hr_Status rs, Inl (ApiError ?ae)), w1)"
    using assms by (auto simp: api_do_def maxAttempts_def numeral_3_eq_3 attempt_once_def Let_def)
  moreover have "\<not> IsTemporary (ApiError ?ae)" using assms(5) by simp
  ultimately show ?thesis by (intro exI [of _ "ApiError ?ae"]) simp
qed

lemma api_do_permanent_witness:
  "\<exists>e w1. api_do (answer_net \<lparr>hr_Status = 404, hr_Header = [], hr_Body = [], hr_BodyErr = None\<rparr>) client0 ctx_free
      ''GET'' ''/user'' None None () 0 = ((404, Inl e), w1) \<and> errors_Is e ErrNotFound"
proof -
  let ?rs = "\<lparr>hr_Status = 404, hr_Header = [], hr_Body = [], hr_BodyErr = None\<rparr>"
  obtain q where q: "newRequest (answer_net ?rs) client0 ''GET'' ''/user'' None = Inr q"
    by (simp add: newRequest_def answer_net_def)
  have "api_temporary (parseAPIError ''GET'' ''/user'' 404 [] []) = False"
    by (simp add: parseAPIError_def unmarshal_def json_parse_def skip_ws_def api_temporary_def
        Contains_iff ToLower_def)
  with api_do_permanent [of "answer_net ?rs" client0 "''GET''" "''/user''" None q ctx_free 0 ?rs 1 "[]" None "()"] q
  show ?thesis by (auto simp: answer_net_def read_limited_def maxBody_def)
qed

section \<open>Names in paths\<close>

text \<open>The name a codespace operation is asked for, as every operation puts it into its path.\<close>

definition named_paths :: "string \<Rightarrow> string list" where
  "named_paths name = [codespace_path name, codespace_path name @ ''/start'', codespace_path name @ ''/stop'']"

lemma codespace_path_inj: "codespace_path a = codespace_path b \<longleftrightarrow> a = b"
proof
  assume "codespace_path a = codespace_path b"
  then have "unescape (PathEscape a) = unescape (PathEscape b)" by (simp add: codespace_path_def)
  then show "a = b" by (simp add: unescape_escape)
qed simp

text \<open>
  C34: A client-chosen name stays one path segment. In the path of a request for a codespace the
  name appears as a segment without slash, question mark, fragment sign or control character,
  which decodes to exactly that name; so two names never lead to the same codespace path and no
  name reaches another resource of the API or adds a query.
\<close>

theorem codespace_path_safe:
  "\<exists>seg. codespace_path name = ''/user/codespaces/'' @ seg \<and> unescape seg = Some name \<and>
     set seg \<inter> {CHR ''/'', CHR ''?'', CHR ''#'', CHR '' '', CHR 0x0D, CHR 0x0A} = {} \<and>
     (codespace_path name = codespace_path name') = (name = name')"
proof -
  let ?bad = "{CHR ''/'', CHR ''?'', CHR ''#'', CHR '' '', CHR 0x0D, CHR 0x0A}"
  have "\<not> segment_char c \<and> c \<noteq> CHR ''%''" if "c \<in> ?bad" for c
    using that by (elim insertE emptyE) (simp_all add: segment_char_def alnum_def byte_def)
  then have "set (PathEscape name) \<inter> ?bad = {}" using PathEscape_chars by fast
  then show ?thesis
    by (intro exI [of _ "PathEscape name"]) (simp add: codespace_path_inj unescape_escape, simp add: codespace_path_def)
qed

section \<open>Pages\<close>

lemma list_pages_all:
  assumes server: "\<And>page v. 0 < page \<Longrightarrow>
      get_page N c x page v = ((200, Inr (int (length xs), take 100 (drop (100 * (page - 1)) xs))), v + 1)"
    and "0 < page" and "acc = take (100 * (page - 1)) xs" and "100 * (page - 1) \<le> length xs"
  shows "list_pages N c x n page acc v =
    (Inr (take (100 * (page - 1 + n)) xs), v + min n (length xs div 100 - (page - 1) + 1))"
  using assms(2-4)
proof (induction n arbitrary: page acc v)
  case 0
  then show ?case by simp
next
  case (Suc n)
  let ?k = "100 * (page - 1)"
  have acc: "acc @ take 100 (drop ?k xs) = take (?k + 100) xs"
    using Suc.prems(2) by (simp add: take_add)
  have k: "?k + 100 = 100 * (page + 1 - 1)" using Suc.prems(1) by simp
  show ?case
  proof (cases "length (take 100 (drop ?k xs)) < perPage")
    case True
    then have short: "length xs - ?k < 100" by (simp add: perPage_def)
    have "take (100 * (page - 1 + Suc n)) xs = xs" using short Suc.prems(3) by simp
    moreover have "take (?k + 100) xs = xs" using short by simp
    moreover have "length xs div 100 = page - 1"
      using short Suc.prems(3) by (intro div_nat_eqI) auto
    moreover have "list_pages N c x (Suc n) page acc v = (Inr (acc @ take 100 (drop ?k xs)), v + 1)"
      using server [OF Suc.prems(1)] True by simp
    ultimately show ?thesis using acc by simp
  next
    case False
    then have long: "?k + 100 \<le> length xs" by (simp add: perPage_def min_def split: if_splits)
    have step: "list_pages N c x (Suc n) page acc v = list_pages N c x n (page + 1) (take (?k + 100) xs) (v + 1)"
      using server [OF Suc.prems(1)] False acc by simp
    have "(?k + 100) div 100 \<le> length xs div 100" using long by (rule div_le_mono)
    then have d: "page \<le> length xs div 100" using Suc.prems(1) by simp
    show ?thesis
      unfolding step using Suc.IH [of "page + 1" "take (?k + 100) xs" "v + 1"] k long d Suc.prems(1)
      by (auto simp: algebra_simps min_def)
  qed
qed

text \<open>
  C22: The paginated list is the list. If the server answers page \<open>p\<close> with the 100 codespaces from
  number 100 (p - 1) on, \<open>listCodespaces\<close> returns the account's codespaces, the first 2000 of
  them, in the server's order and each once, and asks for no page after the one that is short,
  and for 20 at most.
\<close>

theorem list_codespaces_complete:
  assumes "\<And>page v. 0 < page \<Longrightarrow>
      get_page N c x page v = ((200, Inr (int (length xs), take 100 (drop (100 * (page - 1)) xs))), v + 1)"
  shows "listCodespaces N c x v = (Inr (take 2000 xs), v + min 20 (length xs div 100 + 1))"
  using list_pages_all [of N c x xs 1 "[]" 20 v] assms by (simp add: listCodespaces_def)

text \<open>A server with one codespace: its first page has it, the others are empty.\<close>

definition page_json :: "nat \<Rightarrow> json" where
  "page_json page = JObj [(''total_count'', JNum (show_nat 1)),
     (''codespaces'', JArr (if page = 1 then [JObj [(''name'', JStr ''box'')]] else []))]"

definition page_net :: "nat net" where
  "page_net = \<lparr>n_now = int, n_err = (\<lambda>x w. None), n_sel = (\<lambda>x t w. (None, nat t)),
     n_http = (\<lambda>x q w. (Inr \<lparr>hr_Status = 200, hr_Header = [],
        hr_Body = json_print (page_json (if hq_URL q = ac_base client0 @ page_path 1 then 1 else 2)),
        hr_BodyErr = None\<rparr>, w + 1)),
     n_badreq = (\<lambda>u. None), n_badjson = (\<lambda>s. ''bad'')\<rparr>"

lemma page_json_ok: "json_ok (page_json page)"
  by (simp add: page_json_def num_ok_nat ascii_def byte_def)

lemma show_one: "show_nat (Suc 0) = ''1''"
  by (simp add: show_nat.simps char_of_def bit_0)

lemma into_page_json:
  "into_struct into_page (0, []) (page_json page) =
    Some (1, if page = 1 then [no_codespace\<lparr>gc_Name := ''box''\<rparr>] else [])"
  by (simp add: page_json_def into_struct_def into_page_def into_int_def into_slice_def into_codespace_def
      into_codespace_field_def into_string_def EqualFold_def ToLower_def lower_char_def show_one Atoi_def
      is_digit_def no_codespace_def Let_def)

lemma page_path_inj: "page_path p = page_path q \<longleftrightarrow> p = q"
  by (auto simp: page_path_def)

lemma page_read:
  "read_limited maxBody \<lparr>hr_Status = 200, hr_Header = [], hr_Body = json_print (page_json page), hr_BodyErr = None\<rparr> =
    Inr (json_print (page_json page))" "json_print (page_json page) \<noteq> []"
proof -
  have "length (json_print (page_json page)) < 100"
    by (simp add: page_json_def json_print_def json_string_def show_one json_ascii_def byte_def Let_def)
  then show "read_limited maxBody \<lparr>hr_Status = 200, hr_Header = [], hr_Body = json_print (page_json page),
      hr_BodyErr = None\<rparr> = Inr (json_print (page_json page))"
    by (simp add: read_limited_def maxBody_def)
  show "json_print (page_json page) \<noteq> []" by (simp add: page_json_def json_print_def)
qed

lemma page_net_page:
  "0 < page \<Longrightarrow> get_page page_net client0 ctx_free page v =
    ((200, Inr (int (length [no_codespace\<lparr>gc_Name := ''box''\<rparr>]),
      take 100 (drop (100 * (page - 1)) [no_codespace\<lparr>gc_Name := ''box''\<rparr>]))), v + 1)"
  by (simp add: page_read get_page_def api_do_def maxAttempts_def numeral_3_eq_3 attempt_once_def newRequest_def
      page_net_def decode_answer_def unmarshal_def json_parse_print page_json_ok
      into_page_json page_path_inj) arith

lemma list_codespaces_complete_witness:
  "listCodespaces page_net client0 ctx_free 0 = (Inr [no_codespace\<lparr>gc_Name := ''box''\<rparr>], 1)"
  using list_codespaces_complete [OF page_net_page, of 0] by simp

end
