(* ===== verification/GithubStores.thy ===== *)
theory GithubStores
  imports GithubApi GoJsonRound SshAuth
begin

text \<open>
  What the GitHub provider keeps on disk and how it is configured: the cache of remote login
  names (\<open>cache.go\<close>), the remembered sources of codespaces (\<open>source.go\<close>), the pinned host keys
  (\<open>keys.go\<close>), the provider's configuration and token (\<open>config.go\<close>), and small helpers
  (\<open>util.go\<close>). The locale \<open>name_store\<close> is what the provider relies on in its caches.
\<close>

section \<open>Files\<close>

text \<open>A file of the state directory, and whether it can be written.\<close>

record disk_file =
  df_content :: file_read
  df_writable :: bool

definition write_file :: "string \<Rightarrow> disk_file \<Rightarrow> disk_file" where
  "write_file raw f = (if df_writable f then f\<lparr>df_content := FileContent raw\<rparr> else f)"

section \<open>The cache of login names (cache.go)\<close>

text \<open>
  \<open>json.Unmarshal\<close> into a map: the elements are decoded one by one into a fresh zero value,
  a later member of the same name replaces an earlier one.
\<close>

fun into_map_members :: "('a \<Rightarrow> json \<Rightarrow> 'a option) \<Rightarrow> 'a \<Rightarrow> (string, 'a) gomap \<Rightarrow> (string \<times> json) list \<Rightarrow>
   (string, 'a) gomap option" where
  "into_map_members f z m [] = Some m"
| "into_map_members f z m ((k, v) # ms) =
    (case f z v of None \<Rightarrow> None | Some x \<Rightarrow> into_map_members f z (AList.update k x m) ms)"

definition into_map :: "('a \<Rightarrow> json \<Rightarrow> 'a option) \<Rightarrow> 'a \<Rightarrow> (string, 'a) gomap \<Rightarrow> json \<Rightarrow> (string, 'a) gomap option" where
  "into_map f z old v =
    (case v of JObj ms \<Rightarrow> into_map_members f z old ms | JNull \<Rightarrow> Some [] | _ \<Rightarrow> None)"

text \<open>A map is written with its keys in order.\<close>

definition sorted_map :: "(string, 'a) gomap \<Rightarrow> (string, 'a) gomap" where
  "sorted_map m = sort_key fst m"

text \<open>Adding all entries of one map to another, in any order of the first.\<close>

definition add_all :: "(string, 'a) gomap \<Rightarrow> (string, 'a) gomap \<Rightarrow> (string, 'a) gomap" where
  "add_all new m = fold (\<lambda>(k, v). AList.update k v) new m"

record user_cache =
  uc_file :: disk_file
  uc_loaded :: bool
  uc_entries :: "(string, string) gomap"

definition newUserCache :: "disk_file \<Rightarrow> user_cache" where
  "newUserCache f = \<lparr>uc_file = f, uc_loaded = False, uc_entries = []\<rparr>"

definition read_map :: "('a \<Rightarrow> json \<Rightarrow> 'a option) \<Rightarrow> 'a \<Rightarrow> disk_file \<Rightarrow> (string, 'a) gomap" where
  "read_map f z df =
    (case df_content df of
       FileContent raw \<Rightarrow> (case unmarshal (into_map f z) [] raw of Some m \<Rightarrow> m | None \<Rightarrow> [])
     | _ \<Rightarrow> [])"

definition uc_load :: "user_cache \<Rightarrow> user_cache" where
  "uc_load c =
    (if uc_loaded c then c
     else c\<lparr>uc_loaded := True, uc_entries := add_all (read_map into_string [] (uc_file c)) (uc_entries c)\<rparr>)"

definition users_json :: "(string, string) gomap \<Rightarrow> json" where
  "users_json m = JObj (map (\<lambda>(k, v). (k, JStr v)) (sorted_map m))"

definition uc_flush :: "user_cache \<Rightarrow> user_cache" where
  "uc_flush c = c\<lparr>uc_file := write_file (json_indent (users_json (uc_entries c))) (uc_file c)\<rparr>"

definition uc_get :: "string \<Rightarrow> user_cache \<Rightarrow> (string \<times> bool) \<times> user_cache" where
  "uc_get name c =
    (let c1 = uc_load c; user = getz (uc_entries c1) name []
     in ((user, map_of (uc_entries c1) name \<noteq> None \<and> user \<noteq> []), c1))"

definition uc_set :: "string \<Rightarrow> string \<Rightarrow> user_cache \<Rightarrow> user_cache" where
  "uc_set name user c =
    (if name = [] \<or> user = [] then c
     else
       (let c1 = uc_load c
        in if getz (uc_entries c1) name [] = user then c1
           else uc_flush (c1\<lparr>uc_entries := AList.update name user (uc_entries c1)\<rparr>)))"

definition uc_forget :: "string \<Rightarrow> user_cache \<Rightarrow> user_cache" where
  "uc_forget name c =
    (let c1 = uc_load c
     in if map_of (uc_entries c1) name = None then c1
        else uc_flush (c1\<lparr>uc_entries := AList.delete name (uc_entries c1)\<rparr>))"

section \<open>Remembered sources (source.go)\<close>

record env_source =
  es_Repository :: string
  es_Branch :: string
  es_Machine :: string
  es_Location :: string
  es_DevcontainerPath :: string

definition no_source :: env_source where
  "no_source = \<lparr>es_Repository = [], es_Branch = [], es_Machine = [], es_Location = [], es_DevcontainerPath = []\<rparr>"

definition into_source_field :: "string \<Rightarrow> env_source \<Rightarrow> json \<Rightarrow> env_source option" where
  "into_source_field k s v =
    (if EqualFold k ''repository'' then map_option (\<lambda>x. s\<lparr>es_Repository := x\<rparr>) (into_string (es_Repository s) v)
     else if EqualFold k ''branch'' then map_option (\<lambda>x. s\<lparr>es_Branch := x\<rparr>) (into_string (es_Branch s) v)
     else if EqualFold k ''machine'' then map_option (\<lambda>x. s\<lparr>es_Machine := x\<rparr>) (into_string (es_Machine s) v)
     else if EqualFold k ''location'' then map_option (\<lambda>x. s\<lparr>es_Location := x\<rparr>) (into_string (es_Location s) v)
     else if EqualFold k ''devcontainer_path'' then
       map_option (\<lambda>x. s\<lparr>es_DevcontainerPath := x\<rparr>) (into_string (es_DevcontainerPath s) v)
     else Some s)"

definition source_json :: "env_source \<Rightarrow> json" where
  "source_json s = JObj
    ((''repository'', JStr (es_Repository s)) # omit_str ''branch'' (es_Branch s) @
     omit_str ''machine'' (es_Machine s) @ omit_str ''location'' (es_Location s) @
     omit_str ''devcontainer_path'' (es_DevcontainerPath s))"

record source_cache =
  sc_file :: disk_file
  sc_loaded :: bool
  sc_entries :: "(string, env_source) gomap"

definition newSourceCache :: "disk_file \<Rightarrow> source_cache" where
  "newSourceCache f = \<lparr>sc_file = f, sc_loaded = False, sc_entries = []\<rparr>"

definition sc_load :: "source_cache \<Rightarrow> source_cache" where
  "sc_load c =
    (if sc_loaded c then c
     else c\<lparr>sc_loaded := True,
       sc_entries := add_all (read_map (into_struct into_source_field) no_source (sc_file c)) (sc_entries c)\<rparr>)"

definition sources_json :: "(string, env_source) gomap \<Rightarrow> json" where
  "sources_json m = JObj (map (\<lambda>(k, v). (k, source_json v)) (sorted_map m))"

definition sc_flush :: "source_cache \<Rightarrow> source_cache" where
  "sc_flush c = c\<lparr>sc_file := write_file (json_indent (sources_json (sc_entries c))) (sc_file c)\<rparr>"

text \<open>The loop of \<open>remember\<close>: the entries and whether one changed.\<close>

fun remember_names :: "env_source \<Rightarrow> string list \<Rightarrow> bool \<Rightarrow> (string, env_source) gomap \<Rightarrow>
   bool \<times> (string, env_source) gomap" where
  "remember_names src [] changed m = (changed, m)"
| "remember_names src (name # names) changed m =
    (if name = [] then remember_names src names changed m
     else if getz m name no_source \<noteq> src then remember_names src names True (AList.update name src m)
     else remember_names src names changed m)"

definition sc_remember :: "env_source \<Rightarrow> string list \<Rightarrow> source_cache \<Rightarrow> source_cache" where
  "sc_remember src names c =
    (if es_Repository src = [] then c
     else
       (let c1 = sc_load c;
            (changed, m) = remember_names src names False (sc_entries c1);
            c2 = c1\<lparr>sc_entries := m\<rparr>
        in if changed then sc_flush c2 else c2))"

definition sc_lookup :: "string \<Rightarrow> source_cache \<Rightarrow> (env_source \<times> bool) \<times> source_cache" where
  "sc_lookup name c =
    (let c1 = sc_load c; src = getz (sc_entries c1) name no_source
     in ((src, map_of (sc_entries c1) name \<noteq> None \<and> es_Repository src \<noteq> []), c1))"

text \<open>\<open>any\<close> ranges over the map; the order of the list is the order Go happened to take.\<close>

fun any_source :: "env_source \<Rightarrow> env_source list \<Rightarrow> env_source option" where
  "any_source found [] = Some found"
| "any_source found (src # srcs) =
    (if es_Repository src = [] then any_source found srcs
     else if es_Repository found \<noteq> [] \<and> es_Repository found \<noteq> es_Repository src then None
     else any_source src srcs)"

definition sc_any :: "source_cache \<Rightarrow> (env_source \<times> bool) \<times> source_cache" where
  "sc_any c =
    (let c1 = sc_load c
     in ((case any_source no_source (map snd (sc_entries c1)) of
            None \<Rightarrow> (no_source, False)
          | Some found \<Rightarrow> (found, es_Repository found \<noteq> [])), c1))"

section \<open>Configuration and token (config.go)\<close>

record create_config =
  cc_Repository :: string
  cc_Branch :: string
  cc_Machine :: string
  cc_Location :: string
  cc_DevcontainerPath :: string
  cc_IdleTimeoutMinutes :: int
  cc_RetentionPeriodMinutes :: int
  cc_DisplayName :: string

definition source_merge :: "env_source \<Rightarrow> create_config \<Rightarrow> create_config" where
  "source_merge s cfg =
    cfg\<lparr>cc_Repository := (if cc_Repository cfg = [] then es_Repository s else cc_Repository cfg),
        cc_Branch := (if cc_Branch cfg = [] then es_Branch s else cc_Branch cfg),
        cc_Machine := (if cc_Machine cfg = [] then es_Machine s else cc_Machine cfg),
        cc_Location := (if cc_Location cfg = [] then es_Location s else cc_Location cfg),
        cc_DevcontainerPath := (if cc_DevcontainerPath cfg = [] then es_DevcontainerPath s
          else cc_DevcontainerPath cfg)\<rparr>"

record github_config =
  gf_Token :: secret_value
  gf_TokenFile :: string
  gf_Codespace :: string
  gf_APIURL :: string
  gf_GHPath :: string
  gf_Connector :: string
  gf_HostKeyPolicy :: string
  gf_SSHUser :: string
  gf_RequestTimeout :: int
  gf_Create :: create_config

definition defaultAPIURL :: string where
  "defaultAPIURL = ''https://api.github.com''"

definition TrimSuffix :: "string \<Rightarrow> string \<Rightarrow> string" where
  "TrimSuffix s suf = (if HasSuffix s suf then take (length s - length suf) s else s)"

definition count_char :: "char \<Rightarrow> string \<Rightarrow> nat" where
  "count_char c s = length (filter (\<lambda>x. x = c) s)"

definition applyDefaults :: "github_config \<Rightarrow> goerr option \<times> github_config" where
  "applyDefaults c0 =
    (let c1 = (if gf_APIURL c0 = [] then c0\<lparr>gf_APIURL := defaultAPIURL\<rparr> else c0);
         c2 = c1\<lparr>gf_APIURL := TrimSuffix (TrimSpace (gf_APIURL c1)) ''/''\<rparr>
     in if \<not> HasPrefix (gf_APIURL c2) ''https://'' \<and> \<not> HasPrefix (gf_APIURL c2) ''http://'' then
          (Some (Errorf (''github.api_url '' @ quote (gf_APIURL c2) @ '' must be an http(s) URL'')), c2)
        else if gf_Connector c2 \<notin> {[], ''auto'', ''stdio'', ''exec''} then
          (Some (Errorf (''github.connector '' @ quote (gf_Connector c2) @ '' must be auto, stdio or exec'')), c2)
        else
          (let c3 = (if gf_Connector c2 = [] then c2\<lparr>gf_Connector := ''auto''\<rparr> else c2)
           in if gf_HostKeyPolicy c3 \<notin> {[], ''tofu'', ''strict'', ''insecure''} then
                (Some (Errorf (''github.host_key_policy '' @ quote (gf_HostKeyPolicy c3) @
                   '' must be tofu, strict or insecure'')), c3)
              else
                (let c4 = (if gf_HostKeyPolicy c3 = [] then c3\<lparr>gf_HostKeyPolicy := ''tofu''\<rparr> else c3);
                     c5 = (if gf_RequestTimeout c4 \<le> 0 then c4\<lparr>gf_RequestTimeout := 30 * second\<rparr> else c4);
                     idle = cc_IdleTimeoutMinutes (gf_Create c5); repo = cc_Repository (gf_Create c5)
                 in if idle \<noteq> 0 \<and> (idle < 5 \<or> idle > 240) then
                      (Some (Errorf (''github.create.idle_timeout_minutes must be between 5 and 240 (GitHub'' @
                         [CHR 0x27] @ ''s own limits)'')), c5)
                    else if repo \<noteq> [] \<and> count_char (CHR ''/'') repo \<noteq> 1 then
                      (Some (Errorf (''github.create.repository '' @ quote repo @ '' must be owner/name'')), c5)
                    else (None, c5))))"

text \<open>
  The places a token may come from: the configured file, the two environment variables and the
  GitHub CLI, if there is one, with what each holds.
\<close>

record token_places =
  tp_file :: file_read
  tp_env :: "string \<Rightarrow> string"
  tp_gh :: "(goerr + secret_value) option"

datatype token_source = TokenFromConfig | TokenFromFile | TokenFromEnv | TokenFromGH

definition resolveToken :: "github_config \<Rightarrow> token_places \<Rightarrow> goerr + secret_value \<times> token_source" where
  "resolveToken c tp =
    (if \<not> Empty (gf_Token c) then Inr (gf_Token c, TokenFromConfig)
     else if gf_TokenFile c \<noteq> [] then
       (case (case tp_file tp of
                FileContent raw \<Rightarrow> Inr raw
              | FileMissing \<Rightarrow> Inl (Ext (''open '' @ gf_TokenFile c @ '': no such file or directory'') None)
              | FileError e \<Rightarrow> Inl e) of
          Inl e \<Rightarrow> Inl (Wrapf ''read github.token_file: '' e [])
        | Inr raw \<Rightarrow>
            if Empty (secret_New raw) then
              Inl (Errorf (''github.token_file '' @ gf_TokenFile c @ '' is empty''))
            else Inr (secret_New raw, TokenFromFile))
     else
       (case filter (\<lambda>v. v \<noteq> []) (map (\<lambda>n. TrimSpace (tp_env tp n)) [''GITHUB_TOKEN'', ''GH_TOKEN'']) of
          v # _ \<Rightarrow> Inr (secret_New v, TokenFromEnv)
        | [] \<Rightarrow>
            (case tp_gh tp of
               Some (Inr tok) \<Rightarrow>
                 if \<not> Empty tok then Inr (tok, TokenFromGH) else Inl (Sentinel ErrNoToken)
             | _ \<Rightarrow> Inl (Sentinel ErrNoToken))))"

section \<open>Pinned host keys (keys.go)\<close>

text \<open>
  A host key is its authorized-keys line, which ends with a newline, and its fingerprint; both
  come from the SSH library.
\<close>

record host_key =
  hk_line :: string
  hk_fingerprint :: string

definition nl :: char where
  "nl = CHR 0x0A"

definition known_line :: "string \<Rightarrow> (string, string) gomap \<Rightarrow> (string, string) gomap" where
  "known_line line m =
    (let l = TrimSpace line
     in if l = [] \<or> HasPrefix l ''#'' then m
        else (case Cut l '' '' of
                (name, keyPart, ok) \<Rightarrow> if \<not> ok then m else AList.update name (TrimSpace keyPart @ [nl]) m))"

definition hk_load :: "disk_file \<Rightarrow> goerr + (string, string) gomap" where
  "hk_load f =
    (case df_content f of
       FileMissing \<Rightarrow> Inr []
     | FileError e \<Rightarrow> Inl e
     | FileContent raw \<Rightarrow> Inr (fold known_line (split_on nl raw) []))"

definition hk_append :: "string \<Rightarrow> string \<Rightarrow> disk_file \<Rightarrow> goerr option \<times> disk_file" where
  "hk_append name key f =
    (if \<not> df_writable f then (Some (Ext ''open: permission denied'' None), f)
     else (None, f\<lparr>df_content := FileContent
            ((case df_content f of FileContent raw \<Rightarrow> raw | _ \<Rightarrow> []) @ name @ '' '' @ TrimSpace key @ [nl])\<rparr>))"

definition hk_changed :: "string \<Rightarrow> string \<Rightarrow> goerr" where
  "hk_changed name fp = Errorf (''host key for codespace '' @ name @ '' changed (now '' @ fp @
     ''). If the codespace was rebuilt this is expected: run `gateway codespace forget-host-key '' @ name @
     ''` and reconnect'')"

definition hk_check :: "string \<Rightarrow> string \<Rightarrow> host_key \<Rightarrow> disk_file \<Rightarrow> goerr option \<times> disk_file" where
  "hk_check policy name key f =
    (if policy = ''insecure'' then (None, f)
     else
       (case hk_load f of
          Inl e \<Rightarrow> (Some e, f)
        | Inr known \<Rightarrow>
           (case map_of known name of
              Some existing \<Rightarrow>
                if existing = hk_line key then (None, f) else (Some (hk_changed name (hk_fingerprint key)), f)
            | None \<Rightarrow>
                if policy = ''strict'' then
                  (Some (Errorf (''codespace '' @ name @ '' has no pinned host key and host_key_policy is strict (fingerprint '' @
                     hk_fingerprint key @ '')'')), f)
                else hk_append name (hk_line key) f)))"

text \<open>
  \<open>Forget\<close>: the kept entries are written back in the order in which Go ranges over the map.
  Removing the file or writing it can fail.
\<close>

definition hk_forget :: "string \<Rightarrow> disk_file \<Rightarrow> (goerr + nat) \<times> disk_file" where
  "hk_forget name f =
    (case hk_load f of
       Inl e \<Rightarrow> (Inl e, f)
     | Inr known \<Rightarrow>
        (let gone = filter (\<lambda>(k, v). name = [] \<or> k = name) known;
             text = concat (map (\<lambda>(k, v). k @ '' '' @ v) (filter (\<lambda>(k, v). \<not> (name = [] \<or> k = name)) known))
         in if gone = [] then (Inr 0, f)
            else if \<not> df_writable f then (Inl (Ext ''permission denied'' None), f)
            else if text = [] then (Inr (length gone), f\<lparr>df_content := FileMissing\<rparr>)
            else (Inr (length gone), f\<lparr>df_content := FileContent text\<rparr>)))"

section \<open>Captured output (util.go)\<close>

record safe_buffer =
  sb_buf :: string
  sb_limit :: int

definition newSafeBuffer :: "int \<Rightarrow> safe_buffer" where
  "newSafeBuffer limit = \<lparr>sb_buf = [], sb_limit = limit\<rparr>"

definition sb_write :: "string \<Rightarrow> safe_buffer \<Rightarrow> nat \<times> safe_buffer" where
  "sb_write p b =
    (let room = sb_limit b - int (length (sb_buf b))
     in (length p,
         if room > 0 then
           (if int (length p) \<le> room then b\<lparr>sb_buf := sb_buf b @ p\<rparr>
            else b\<lparr>sb_buf := sb_buf b @ take (nat room) p\<rparr>)
         else b))"

text \<open>The loop of \<open>Tail\<close> from the last line back.\<close>

fun tail_from :: "nat \<Rightarrow> string list \<Rightarrow> string list \<Rightarrow> string list" where
  "tail_from n [] out = out"
| "tail_from n (l # ls) out =
    (if n \<le> length out then out
     else if TrimSpace l \<noteq> [] then tail_from n ls (TrimSpace l # out) else tail_from n ls out)"

definition sb_tail :: "nat \<Rightarrow> safe_buffer \<Rightarrow> string" where
  "sb_tail n b = Join (tail_from n (rev (split_on nl (TrimSpace (sb_buf b)))) []) ''; ''"

definition termOr :: "string \<Rightarrow> string" where
  "termOr term = (if term = [] then ''xterm-256color'' else term)"

definition dimOr :: "16 word \<Rightarrow> 16 word \<Rightarrow> int" where
  "dimOr v fallback = (if v = 0 then uint fallback else uint v)"

end
