(* ===== verification/GithubStoresSpec.thy ===== *)
theory GithubStoresSpec
  imports GithubStores
begin

text \<open>
  Properties of the provider's stores. The locale \<open>name_store\<close> states what the provider relies
  on in a cache: what was put under a name is found again, also after a restart of the
  gateway. It is interpreted by the cache of login names and by the remembered sources. The
  pinned host keys refine a finite map with a trust-on-first-use policy.
\<close>

section \<open>Written maps read back\<close>

lemma map_of_iff: "distinct (map fst xs) \<Longrightarrow> map_of xs k = Some v \<longleftrightarrow> (k, v) \<in> set xs"
  by (auto dest: map_of_SomeD)

lemma map_of_same_set:
  assumes "distinct (map fst xs)" and "distinct (map fst ys)" and "set xs = set ys"
  shows "map_of xs = map_of ys"
proof
  fix k
  show "map_of xs k = map_of ys k"
    using map_of_iff [OF assms(1), of k] map_of_iff [OF assms(2), of k] assms(3)
    by (cases "map_of xs k"; cases "map_of ys k") auto
qed

lemma sorted_map_facts:
  assumes "distinct (map fst m)"
  shows "distinct (map fst (sorted_map m))" and "map_of (sorted_map m) = map_of m"
    and "set (sorted_map m) = set m"
proof -
  have "mset (map fst (sorted_map m)) = mset (map fst m)" by (simp add: sorted_map_def)
  then show d: "distinct (map fst (sorted_map m))" using assms by (metis mset_eq_imp_distinct_iff)
  show s: "set (sorted_map m) = set m" by (simp add: sorted_map_def)
  show "map_of (sorted_map m) = map_of m" by (rule map_of_same_set [OF d assms s])
qed

lemma add_all_distinct: "distinct (map fst acc) \<Longrightarrow> distinct (map fst (add_all ms acc))"
  by (induction ms arbitrary: acc) (auto simp: add_all_def)

lemma add_all_map: "map_of (add_all ms acc) = map_of acc ++ map_of (rev ms)"
  by (induction ms arbitrary: acc) (auto simp: add_all_def map_add_def fun_eq_iff split: option.splits)

lemma add_all_Nil: "distinct (map fst ms) \<Longrightarrow> map_of (add_all ms []) = map_of ms"
  using map_of_same_set [of "rev ms" ms] by (simp add: add_all_map distinct_map rev_map [symmetric])

lemma into_map_written:
  "\<forall>(k, v)\<in>set ms. f z (J v) = Some v \<Longrightarrow>
    into_map_members f z acc (map (\<lambda>(k, v). (k, J v)) ms) = Some (add_all ms acc)"
  by (induction ms arbitrary: acc) (auto simp: add_all_def)

lemma into_map_members_distinct:
  "into_map_members f z acc ms = Some m \<Longrightarrow> distinct (map fst acc) \<Longrightarrow> distinct (map fst m)"
  by (induction ms arbitrary: acc) (auto split: option.splits)

lemma read_map_distinct: "distinct (map fst (read_map f z df))"
  by (auto simp: read_map_def unmarshal_def into_map_def dest: into_map_members_distinct
      split: file_read.splits option.splits json.splits)

lemma read_written:
  assumes d: "distinct (map fst m)"
    and ok: "\<forall>(k, v)\<in>set m. ascii k \<and> json_ok (J v) \<and> f z (J v) = Some v"
    and c: "df_content df = FileContent (json_indent (JObj (map (\<lambda>(k, v). (k, J v)) (sorted_map m))))"
  shows "map_of (read_map f z df) = map_of m"
proof -
  note s = sorted_map_facts [OF d]
  have "json_ok (JObj (map (\<lambda>(k, v). (k, J v)) (sorted_map m)))" using ok s(3) by auto
  moreover have "\<forall>(k, v)\<in>set (sorted_map m). f z (J v) = Some v" using ok s(3) by auto
  ultimately have "read_map f z df = add_all (sorted_map m) []"
    using c by (simp add: read_map_def unmarshal_def json_parse_indent into_map_def into_map_written)
  with s show ?thesis by (simp add: add_all_Nil)
qed

lemma update_entries:
  assumes "distinct (map fst m)" and "\<forall>(a, b)\<in>set m. P a b" and "P k v"
  shows "\<forall>(a, b)\<in>set (AList.update k v m). P a b"
proof -
  have "distinct (map fst (AList.update k v m))" using assms(1) by simp
  then have "(a, b) \<in> set (AList.update k v m) \<Longrightarrow> (a, b) = (k, v) \<or> (a, b) \<in> set m" for a b
    by (metis (no_types, lifting) map_of_iff map_of_update map_upd_Some_unfold map_of_SomeD)
  then show ?thesis using assms(2,3) by fastforce
qed

section \<open>What the provider relies on in a cache\<close>

locale name_store =
  fixes get :: "string \<Rightarrow> 's \<Rightarrow> 'v option"
    and put :: "string \<Rightarrow> 'v \<Rightarrow> 's \<Rightarrow> 's"
    and reopen :: "'s \<Rightarrow> 's"
    and good :: "'s \<Rightarrow> bool"
    and can :: "string \<Rightarrow> 'v \<Rightarrow> bool"
  assumes get_put: "good s \<Longrightarrow> can k v \<Longrightarrow> get k' (put k v s) = (if k' = k then Some v else get k' s)"
    and put_good: "good s \<Longrightarrow> can k v \<Longrightarrow> good (put k v s)"
    and get_reopen: "good s \<Longrightarrow> get k (reopen s) = get k s"
    and reopen_good: "good s \<Longrightarrow> good (reopen s)"
begin

text \<open>A history: entries put and restarts. The last entry of a name is what is found.\<close>

fun run :: "(string \<times> 'v) option list \<Rightarrow> 's \<Rightarrow> 's" where
  "run [] s = s"
| "run (None # ops) s = run ops (reopen s)"
| "run (Some (k, v) # ops) s = run ops (put k v s)"

fun puts :: "(string \<times> 'v) option list \<Rightarrow> (string \<times> 'v) list" where
  "puts [] = []"
| "puts (None # ops) = puts ops"
| "puts (Some e # ops) = puts ops @ [e]"

lemma run_get:
  "good s \<Longrightarrow> \<forall>(k, v)\<in>set (puts ops). can k v \<Longrightarrow>
    good (run ops s) \<and> get k (run ops s) = (case map_of (puts ops) k of Some v \<Rightarrow> Some v | None \<Rightarrow> get k s)"
proof (induction ops s rule: run.induct)
  case (1 s)
  then show ?case by simp
next
  case (2 ops s)
  then show ?case by (auto simp: get_reopen reopen_good split: option.splits)
next
  case (3 k' v ops s)
  then have "can k' v" by auto
  with 3 show ?case by (auto simp: get_put put_good map_add_def split: option.splits)
qed

end

section \<open>The cache of login names\<close>

definition uc_find :: "string \<Rightarrow> user_cache \<Rightarrow> string option" where
  "uc_find k c = (case uc_get k c of ((u, ok), _) \<Rightarrow> if ok then Some u else None)"

definition uc_reopen :: "user_cache \<Rightarrow> user_cache" where
  "uc_reopen c = newUserCache (uc_file c)"

text \<open>Entries in memory and on disk agree once loaded; names and users are ASCII.\<close>

definition uc_good :: "user_cache \<Rightarrow> bool" where
  "uc_good c \<longleftrightarrow> df_writable (uc_file c) \<and> (\<not> uc_loaded c \<longrightarrow> uc_entries c = []) \<and>
     distinct (map fst (uc_entries c)) \<and>
     (\<forall>(k, v)\<in>set (uc_entries (uc_load c)). ascii k \<and> ascii v) \<and>
     map_of (read_map into_string [] (uc_file c)) = map_of (uc_entries (uc_load c))"

lemma uc_load_idem [simp]: "uc_load (uc_load c) = uc_load c" "uc_file (uc_load c) = uc_file c"
  "uc_loaded (uc_load c)"
  by (simp_all add: uc_load_def)

lemma uc_load_good: "uc_good c \<Longrightarrow> uc_good (uc_load c)"
  by (auto simp: uc_good_def uc_load_def add_all_distinct)

lemma uc_find_eq:
  "uc_find k c = (case map_of (uc_entries (uc_load c)) k of Some v \<Rightarrow> if v = [] then None else Some v | None \<Rightarrow> None)"
  by (simp add: uc_find_def uc_get_def Let_def getz_def split: option.splits)

lemma uc_flush_good:
  assumes "df_writable (uc_file c)" and "uc_loaded c" and "distinct (map fst (uc_entries c))"
    and "\<forall>(k, v)\<in>set (uc_entries c). ascii k \<and> ascii v"
  shows "uc_good (uc_flush c)"
proof -
  have l: "uc_load (uc_flush c) = uc_flush c" "uc_entries (uc_flush c) = uc_entries c"
    using assms(2) by (simp_all add: uc_load_def uc_flush_def)
  have "map_of (read_map into_string [] (uc_file (uc_flush c))) = map_of (uc_entries c)"
    using assms by (intro read_written [where J = JStr])
      (auto simp: into_string_def uc_flush_def write_file_def users_json_def)
  then show ?thesis using assms l by (simp add: uc_good_def) (simp add: uc_flush_def write_file_def)
qed

lemma uc_set_cases:
  assumes "uc_good c" and "k \<noteq> []" and "u \<noteq> []" and "ascii k" and "ascii u"
  shows "uc_good (uc_set k u c) \<and> uc_loaded (uc_set k u c) \<and>
    map_of (uc_entries (uc_set k u c)) = (map_of (uc_entries (uc_load c)))(k \<mapsto> u)"
proof -
  let ?l = "uc_load c"
  have g: "uc_good ?l" using uc_load_good [OF assms(1)] .
  show ?thesis
  proof (cases "getz (uc_entries ?l) k [] = u")
    case True
    then have "map_of (uc_entries ?l) k = Some u" using assms(3) by (auto simp: getz_def split: option.splits)
    with True g assms show ?thesis by (auto simp: uc_set_def Let_def)
  next
    case False
    let ?n = "?l\<lparr>uc_entries := AList.update k u (uc_entries ?l)\<rparr>"
    have "\<forall>(a, b)\<in>set (uc_entries ?n). ascii a \<and> ascii b"
      using g assms(4,5) update_entries [of "uc_entries ?l" "\<lambda>a b. ascii a \<and> ascii b" k u]
      by (simp add: uc_good_def)
    then have "uc_good (uc_flush ?n)" using g by (intro uc_flush_good) (auto simp: uc_good_def)
    with False assms show ?thesis by (simp add: uc_set_def Let_def) (simp add: uc_flush_def)
  qed
qed

interpretation users: name_store uc_find uc_set uc_reopen uc_good
  "\<lambda>k u. k \<noteq> [] \<and> u \<noteq> [] \<and> ascii k \<and> ascii u"
proof
  fix s :: user_cache and k u k'
  assume g: "uc_good s" and c: "k \<noteq> [] \<and> u \<noteq> [] \<and> ascii k \<and> ascii u"
  note S = uc_set_cases [OF g]
  have "uc_load (uc_set k u s) = uc_set k u s" using S c by (simp add: uc_load_def)
  then show "uc_find k' (uc_set k u s) = (if k' = k then Some u else uc_find k' s)"
    using S c by (simp add: uc_find_eq)
  show "uc_good (uc_set k u s)" using S c by simp
next
  fix s :: user_cache and k
  assume g: "uc_good s"
  let ?r = "uc_reopen s"
  have e: "map_of (uc_entries (uc_load ?r)) = map_of (uc_entries (uc_load s))"
    using g add_all_Nil [OF read_map_distinct, of into_string "[]" "uc_file s"]
    by (simp add: uc_reopen_def newUserCache_def uc_load_def uc_good_def)
  then show "uc_find k ?r = uc_find k s" by (simp add: uc_find_eq)
  have d: "distinct (map fst (uc_entries (uc_load ?r)))" "distinct (map fst (uc_entries (uc_load s)))"
    using g by (auto simp: uc_reopen_def newUserCache_def uc_load_def uc_good_def add_all_distinct)
  have "set (uc_entries (uc_load ?r)) = set (uc_entries (uc_load s))"
    using map_of_iff [OF d(1)] map_of_iff [OF d(2)] e by auto
  with e show "uc_good ?r"
    using g by (simp add: uc_good_def) (simp add: uc_reopen_def newUserCache_def)
qed

section \<open>Remembered sources\<close>

definition sc_find :: "string \<Rightarrow> source_cache \<Rightarrow> env_source option" where
  "sc_find k c = (case sc_lookup k c of ((src, ok), _) \<Rightarrow> if ok then Some src else None)"

definition sc_reopen :: "source_cache \<Rightarrow> source_cache" where
  "sc_reopen c = newSourceCache (sc_file c)"

definition ascii_source :: "env_source \<Rightarrow> bool" where
  "ascii_source s \<longleftrightarrow> ascii (es_Repository s) \<and> ascii (es_Branch s) \<and> ascii (es_Machine s) \<and>
     ascii (es_Location s) \<and> ascii (es_DevcontainerPath s)"

definition sc_good :: "source_cache \<Rightarrow> bool" where
  "sc_good c \<longleftrightarrow> df_writable (sc_file c) \<and> (\<not> sc_loaded c \<longrightarrow> sc_entries c = []) \<and>
     distinct (map fst (sc_entries c)) \<and>
     (\<forall>(k, v)\<in>set (sc_entries (sc_load c)). ascii k \<and> ascii_source v) \<and>
     map_of (read_map (into_struct into_source_field) no_source (sc_file c)) = map_of (sc_entries (sc_load c))"

lemma source_json_read: "into_struct into_source_field no_source (source_json s) = Some s"
  by (cases s)
    (auto simp: into_struct_def source_json_def omit_str_def into_source_field_def into_string_def no_source_def
      EqualFold_def ToLower_def lower_char_def)

lemma source_json_ok: "ascii_source s \<Longrightarrow> json_ok (source_json s)"
  by (auto simp: source_json_def omit_str_def ascii_source_def byte_def)

lemma sc_load_idem [simp]: "sc_load (sc_load c) = sc_load c" "sc_file (sc_load c) = sc_file c"
  "sc_loaded (sc_load c)"
  by (simp_all add: sc_load_def)

lemma sc_load_good: "sc_good c \<Longrightarrow> sc_good (sc_load c)"
  by (auto simp: sc_good_def sc_load_def add_all_distinct)

lemma sc_find_eq:
  "sc_find k c = (case map_of (sc_entries (sc_load c)) k of
     Some v \<Rightarrow> if es_Repository v = [] then None else Some v | None \<Rightarrow> None)"
  by (simp add: sc_find_def sc_lookup_def Let_def getz_def split: option.splits)

lemma sc_flush_good:
  assumes "df_writable (sc_file c)" and "sc_loaded c" and "distinct (map fst (sc_entries c))"
    and "\<forall>(k, v)\<in>set (sc_entries c). ascii k \<and> ascii_source v"
  shows "sc_good (sc_flush c)"
proof -
  have l: "sc_load (sc_flush c) = sc_flush c" "sc_entries (sc_flush c) = sc_entries c"
    using assms(2) by (simp_all add: sc_load_def sc_flush_def)
  have "map_of (read_map (into_struct into_source_field) no_source (sc_file (sc_flush c))) = map_of (sc_entries c)"
    using assms by (intro read_written [where J = source_json])
      (auto simp: source_json_read source_json_ok sc_flush_def write_file_def sources_json_def)
  then show ?thesis using assms l by (simp add: sc_good_def) (simp add: sc_flush_def write_file_def)
qed

lemma sc_put_cases:
  assumes "sc_good c" and "k \<noteq> []" and "es_Repository v \<noteq> []" and "ascii k" and "ascii_source v"
  shows "sc_good (sc_remember v [k] c) \<and> sc_loaded (sc_remember v [k] c) \<and>
    map_of (sc_entries (sc_remember v [k] c)) = (map_of (sc_entries (sc_load c)))(k \<mapsto> v)"
proof -
  let ?l = "sc_load c"
  have g: "sc_good ?l" using sc_load_good [OF assms(1)] .
  show ?thesis
  proof (cases "getz (sc_entries ?l) k no_source = v")
    case True
    then have "map_of (sc_entries ?l) k = Some v"
      using assms(3) by (auto simp: getz_def no_source_def split: option.splits)
    with True g assms show ?thesis by (auto simp: sc_remember_def Let_def)
  next
    case False
    let ?n = "?l\<lparr>sc_entries := AList.update k v (sc_entries ?l)\<rparr>"
    have "\<forall>(a, b)\<in>set (sc_entries ?n). ascii a \<and> ascii_source b"
      using g assms(4,5) update_entries [of "sc_entries ?l" "\<lambda>a b. ascii a \<and> ascii_source b" k v]
      by (simp add: sc_good_def)
    then have "sc_good (sc_flush ?n)" using g by (intro sc_flush_good) (simp_all add: sc_good_def)
    with False assms show ?thesis by (simp add: sc_remember_def Let_def) (simp add: sc_flush_def)
  qed
qed

interpretation sources: name_store sc_find "\<lambda>k v. sc_remember v [k]" sc_reopen sc_good
  "\<lambda>k v. k \<noteq> [] \<and> es_Repository v \<noteq> [] \<and> ascii k \<and> ascii_source v"
proof
  fix s :: source_cache and k v k'
  assume g: "sc_good s" and c: "k \<noteq> [] \<and> es_Repository v \<noteq> [] \<and> ascii k \<and> ascii_source v"
  note S = sc_put_cases [OF g]
  have "sc_load (sc_remember v [k] s) = sc_remember v [k] s" using S c by (simp add: sc_load_def)
  then show "sc_find k' (sc_remember v [k] s) = (if k' = k then Some v else sc_find k' s)"
    using S c by (simp add: sc_find_eq)
  show "sc_good (sc_remember v [k] s)" using S c by simp
next
  fix s :: source_cache and k
  assume g: "sc_good s"
  let ?r = "sc_reopen s"
  have e: "map_of (sc_entries (sc_load ?r)) = map_of (sc_entries (sc_load s))"
    using g add_all_Nil [OF read_map_distinct, of "into_struct into_source_field" no_source "sc_file s"]
    by (simp add: sc_reopen_def newSourceCache_def sc_load_def sc_good_def)
  then show "sc_find k ?r = sc_find k s" by (simp add: sc_find_eq)
  have d: "distinct (map fst (sc_entries (sc_load ?r)))" "distinct (map fst (sc_entries (sc_load s)))"
    using g by (auto simp: sc_reopen_def newSourceCache_def sc_load_def sc_good_def add_all_distinct)
  have "set (sc_entries (sc_load ?r)) = set (sc_entries (sc_load s))"
    using map_of_iff [OF d(1)] map_of_iff [OF d(2)] e by auto
  with e show "sc_good ?r"
    using g by (simp add: sc_good_def) (simp add: sc_reopen_def newSourceCache_def)
qed

text \<open>
  Which source \<open>any\<close> gives may depend on the order of the map, its repository does not.
\<close>

lemma any_source_repository:
  "any_source f ss = None \<longleftrightarrow>
     1 < card ({es_Repository s |s. s = f \<or> s \<in> set ss} - {[]})" and
  any_source_found:
  "any_source f ss = Some g \<Longrightarrow> {es_Repository s |s. s = f \<or> s \<in> set ss} - {[]} \<subseteq> {es_Repository g}"
proof (induction f ss rule: any_source.induct)
  case (1 found)
  case 1
  have "{es_Repository s |s. s = found \<or> s \<in> set []} - {[]} \<subseteq> {es_Repository found}" by auto
  then have "card ({es_Repository s |s. s = found \<or> s \<in> set []} - {[]}) \<le> card {es_Repository found}"
    by (intro card_mono) auto
  then show ?case by simp
next
  case (1 found)
  case 2
  then show ?case by auto
next
  case (2 found src srcs)
  let ?A = "{es_Repository s |s. s = found \<or> s \<in> set (src # srcs)} - {[]}"
  {
    case 1
    show ?case
    proof (cases "es_Repository src = []")
      case True
      then have "?A = {es_Repository s |s. s = found \<or> s \<in> set srcs} - {[]}" by auto
      with 2(1) True show ?thesis by simp
    next
      case src: False
      show ?thesis
      proof (cases "es_Repository found \<noteq> [] \<and> es_Repository found \<noteq> es_Repository src")
        case True
        have "finite ?A"
          by (rule finite_subset [of _ "es_Repository ` (insert found (set (src # srcs)))"]) auto
        moreover have "{es_Repository found, es_Repository src} \<subseteq> ?A" using True src by auto
        ultimately have "card {es_Repository found, es_Repository src} \<le> card ?A" by (rule card_mono)
        with True src show ?thesis by simp
      next
        case False
        then have "?A = {es_Repository s |s. s = src \<or> s \<in> set srcs} - {[]}" using src by auto
        with 2(3) [OF src False] False src show ?thesis by auto
      qed
    qed
  next
    case 2
    then show ?case using "2.IH" by (auto split: if_splits)
  }
qed

end
