(* ===== verification/HostKeySpec.thy ===== *)
theory HostKeySpec
  imports GithubStoresSpec
begin

text \<open>
  The pinned host keys against their specification: a finite map from codespace names to keys
  with the policy of the configuration. The file is a rendering of that map, and every operation
  on the file is the operation on the map.
\<close>

section \<open>Lines\<close>

text \<open>Names and key lines as GitHub and the SSH library make them.\<close>

definition name_ok :: "string \<Rightarrow> bool" where
  "name_ok n \<longleftrightarrow> n \<noteq> [] \<and> list_all plain n \<and> hd n \<noteq> CHR ''#''"

definition line_ok :: "string \<Rightarrow> bool" where
  "line_ok l \<longleftrightarrow> (\<exists>t. l = t @ [nl] \<and> t \<noteq> [] \<and> plain (hd t) \<and> plain (last t) \<and> nl \<notin> set t)"

definition entries_ok :: "(string, string) gomap \<Rightarrow> bool" where
  "entries_ok es \<longleftrightarrow> distinct (map fst es) \<and> (\<forall>(k, l)\<in>set es. name_ok k \<and> line_ok l)"

definition render :: "(string, string) gomap \<Rightarrow> string" where
  "render es = concat (map (\<lambda>(k, l). k @ '' '' @ l) es)"

lemma render_empty: "entries_ok es \<Longrightarrow> render es = [] \<longleftrightarrow> es = []"
  by (cases es) (auto simp: render_def)

lemma plain_not: "\<not> plain nl" "\<not> plain (CHR '' '')"
  by (simp_all add: plain_def nl_def)

lemma trim_newline:
  assumes "t \<noteq> []" and "plain (hd t)" and "plain (last t)"
  shows "TrimSpace (t @ [nl]) = t"
proof -
  note tr = trimmed_plain [OF assms]
  have "\<not> HasPrefix (t @ [nl]) p" if "p \<in> set space_runes" for p
  proof
    assume "HasPrefix (t @ [nl]) p"
    then obtain r where "t @ [nl] = p @ r" by (auto simp: HasPrefix_iff)
    then have "hd t = hd p" using assms(1) space_ends [OF that] by (metis append_Cons hd_append2 list.collapse list.sel(1))
    with assms(2) space_ends [OF that] show False by simp
  qed
  then have l: "trim_front space_runes (t @ [nl]) = t @ [nl]"
    by (intro trim_front_stop) (simp add: leading_None_iff)
  have "leading (map rev space_runes) (nl # rev t) = Some [nl]"
    by (simp add: leading_def space_runes_def nl_def)
  then have "trim_front (map rev space_runes) (rev (t @ [nl])) = trim_front (map rev space_runes) (rev t)"
    by (subst trim_front.simps) simp
  also have "\<dots> = rev t" using tr by (intro trim_front_stop) (simp add: trimmed_def)
  finally show ?thesis using l by (simp add: TrimSpace_def TrimLeft_def TrimRight_def)
qed

lemma known_line_entry:
  assumes "name_ok k" and "t \<noteq> []" and "plain (hd t)" and "plain (last t)"
  shows "known_line (k @ '' '' @ t) m = AList.update k (t @ [nl]) m"
proof -
  have k: "k \<noteq> []" "plain (hd k)" "CHR '' '' \<notin> set k" "hd k \<noteq> CHR ''#''"
    using assms(1) plain_not by (auto simp: name_ok_def list_all_iff)
  have "TrimSpace (k @ '' '' @ t) = k @ '' '' @ t"
    using k assms by (intro TrimSpace_trimmed trimmed_plain) auto
  moreover have "\<not> HasPrefix (k @ '' '' @ t) ''#''" using k by (cases k) auto
  moreover have "Cut (k @ '' '' @ t) '' '' = (k, t, True)" using Cut_char [OF k(3), of t] by simp
  moreover have "TrimSpace t = t" using assms by (intro TrimSpace_trimmed trimmed_plain)
  ultimately show ?thesis using k(1) by (simp add: known_line_def Let_def)
qed

lemma known_line_empty: "known_line [] m = m"
  by (simp add: known_line_def)

lemma load_render:
  assumes "entries_ok es"
  shows "fold known_line (split_on nl (render es)) [] = es"
  using assms
proof (induction es rule: rev_induct)
  case Nil
  then show ?case by (simp add: render_def known_line_empty)
next
  case (snoc e es)
  obtain k l where e: "e = (k, l)" by fastforce
  from snoc.prems e have ok: "name_ok k" "line_ok l" "k \<notin> fst ` set es" "entries_ok es"
    by (auto simp: entries_ok_def)
  then obtain t where t: "l = t @ [nl]" "t \<noteq> []" "plain (hd t)" "plain (last t)" "nl \<notin> set t"
    by (auto simp: line_ok_def)
  have line: "nl \<notin> set (k @ '' '' @ t)" using ok(1) t(5) plain_not by (auto simp: name_ok_def list_all_iff nl_def)
  have "split_on nl (render (es @ [e])) = split_on nl (render es @ (k @ '' '' @ t) @ nl # [])"
    by (simp add: render_def e t(1))
  moreover have "fold known_line (split_on nl (render es @ (k @ '' '' @ t) @ nl # [])) [] =
      known_line (k @ '' '' @ t) es"
  proof (cases "es = []")
    case True
    then show ?thesis using split_on_append [OF line, of "[]"] by (simp add: render_def known_line_empty)
  next
    case False
    obtain k0 l0 es0 where "es = es0 @ [(k0, l0)]" using False by (metis prod.exhaust rev_exhaust)
    moreover from this ok(4) obtain t0 where "l0 = t0 @ [nl]" by (auto simp: entries_ok_def line_ok_def)
    ultimately obtain r where r: "render es = r @ [nl]" by (simp add: render_def)
    have "split_on nl (render es) = split_on nl r @ [[]]" unfolding r using split_on_at [of nl r "[]"] by simp
    then have "fold known_line (split_on nl r) [] = es"
      using snoc.IH [OF ok(4)] by (simp add: known_line_empty)
    moreover have "split_on nl (render es @ (k @ '' '' @ t) @ nl # []) = split_on nl r @ [k @ '' '' @ t, []]"
      unfolding r using split_on_at [of nl r "(k @ '' '' @ t) @ nl # []"] split_on_append [OF line, of "[]"] by simp
    ultimately show ?thesis by (simp add: known_line_empty)
  qed
  ultimately show ?case
    using known_line_entry [OF ok(1) t(2-4), of es] ok(3) t(1) e by (simp add: update_fresh)
qed

section \<open>The file and the map\<close>

definition hk_good :: "disk_file \<Rightarrow> bool" where
  "hk_good f \<longleftrightarrow> df_writable f \<and>
     (\<exists>es. entries_ok es \<and> (df_content f = FileContent (render es) \<or> es = [] \<and> df_content f = FileMissing))"

definition pinned :: "disk_file \<Rightarrow> string \<Rightarrow> string option" where
  "pinned f = (case hk_load f of Inr m \<Rightarrow> map_of m | Inl _ \<Rightarrow> Map.empty)"

lemma hk_goodE:
  assumes "hk_good f"
  obtains es where "entries_ok es" and "hk_load f = Inr es" and "pinned f = map_of es" and "df_writable f"
    and "(case df_content f of FileContent raw \<Rightarrow> raw | _ \<Rightarrow> []) = render es"
proof -
  from assms obtain es where es: "entries_ok es" "df_writable f"
    "df_content f = FileContent (render es) \<or> es = [] \<and> df_content f = FileMissing"
    by (auto simp: hk_good_def)
  then have "hk_load f = Inr es" using load_render [OF es(1)] by (auto simp: hk_load_def)
  with es that show thesis by (auto simp: pinned_def render_def)
qed

lemma render_good: "entries_ok es \<Longrightarrow> hk_good (f\<lparr>df_writable := True, df_content := FileContent (render es)\<rparr>)"
  by (auto simp: hk_good_def)

text \<open>The policy on the map: whether the key is accepted, and the pins afterwards.\<close>

definition tofu :: "string \<Rightarrow> string \<Rightarrow> string \<Rightarrow> (string \<Rightarrow> string option) \<Rightarrow> bool \<times> (string \<Rightarrow> string option)" where
  "tofu policy name line pins =
    (if policy = ''insecure'' then (True, pins)
     else case pins name of
        Some l \<Rightarrow> (l = line, pins)
      | None \<Rightarrow> if policy = ''strict'' then (False, pins) else (True, pins(name \<mapsto> line)))"

section \<open>Properties\<close>

text \<open>
  C14: Host keys are checked as a trust-on-first-use map would check them. On a file the gateway
  wrote, for names and keys as GitHub and the SSH library make them, \<open>check\<close> accepts exactly
  the keys the policy accepts on the map the file stands for, changes the file exactly into one
  that stands for the changed map, and leaves a file of the same kind. So an accepted first key
  is the only one accepted afterwards, a strict gateway never pins, and only the insecure policy
  accepts a changed key.
\<close>

theorem host_key_refines:
  assumes "hk_good f" and "name_ok name" and "line_ok (hk_line key)"
    and r_def: "r = hk_check policy name key f"
  shows "(fst r = None, pinned (snd r)) = tofu policy name (hk_line key) (pinned f) \<and> hk_good (snd r)"
proof -
  obtain es where es: "entries_ok es" "hk_load f = Inr es" "pinned f = map_of es" "df_writable f"
    "(case df_content f of FileContent raw \<Rightarrow> raw | _ \<Rightarrow> []) = render es" using hk_goodE [OF assms(1)] by blast
  show ?thesis
  proof (cases "policy \<in> {''insecure'', ''strict''} \<or> map_of es name \<noteq> None")
    case True
    then show ?thesis using es assms(1) by (auto simp: r_def hk_check_def tofu_def split: option.splits)
  next
    case False
    obtain t where t: "hk_line key = t @ [nl]" "t \<noteq> []" "plain (hd t)" "plain (last t)"
      using assms(3) by (auto simp: line_ok_def)
    let ?es = "es @ [(name, hk_line key)]"
    have new: "name \<notin> fst ` set es" using False by (simp add: map_of_eq_None_iff)
    then have ok: "entries_ok ?es" using es(1) assms(2,3) by (auto simp: entries_ok_def)
    have "render es @ name @ '' '' @ TrimSpace (hk_line key) @ [nl] = render ?es"
      using trim_newline [OF t(2-4)] by (simp add: render_def t(1))
    then have r: "r = (None, f\<lparr>df_content := FileContent (render ?es)\<rparr>)"
      using False es by (auto simp: r_def hk_check_def hk_append_def)
    then have good: "hk_good (snd r)" using ok es(4) by (auto simp: hk_good_def)
    have "hk_load (snd r) = Inr ?es" using r load_render [OF ok] by (simp add: hk_load_def)
    moreover have "map_of ?es = (map_of es)(name \<mapsto> hk_line key)"
      using False by (auto simp: map_add_def fun_eq_iff split: option.splits)
    ultimately have "pinned (snd r) = (map_of es)(name \<mapsto> hk_line key)" by (simp add: pinned_def)
    with r good False es(3) show ?thesis by (auto simp: tofu_def)
  qed
qed

definition key0 :: host_key where
  "key0 = \<lparr>hk_line = ''ssh-ed25519 AAAA'' @ [nl], hk_fingerprint = ''SHA256:x''\<rparr>"

definition fresh_file :: disk_file where
  "fresh_file = \<lparr>df_content = FileMissing, df_writable = True\<rparr>"

lemma sample_ok: "hk_good fresh_file" "name_ok ''box''" "line_ok (hk_line key0)"
proof -
  show "hk_good fresh_file" by (simp add: hk_good_def fresh_file_def entries_ok_def)
  show "name_ok ''box''" by (simp add: name_ok_def plain_def)
  show "line_ok (hk_line key0)"
    unfolding line_ok_def
    by (intro exI [of _ "''ssh-ed25519 AAAA''"]) (simp add: key0_def plain_def nl_def)
qed

lemma host_key_refines_witness:
  "fst (hk_check ''tofu'' ''box'' key0 fresh_file) = None \<and>
   pinned (snd (hk_check ''tofu'' ''box'' key0 fresh_file)) ''box'' = Some (hk_line key0)"
proof -
  have "pinned fresh_file = Map.empty" by (simp add: pinned_def hk_load_def fresh_file_def)
  then show ?thesis using host_key_refines [OF sample_ok refl, of "''tofu''"] by (simp add: tofu_def)
qed

lemma hk_forget_kept:
  assumes "hk_load f = Inr es"
  shows "hk_forget name f =
    (let gone = filter (\<lambda>(k, v). name = [] \<or> k = name) es;
         raw = render (filter (\<lambda>(k, v). \<not> (name = [] \<or> k = name)) es)
     in if gone = [] then (Inr 0, f)
        else if \<not> df_writable f then (Inl (Ext ''permission denied'' None), f)
        else if raw = [] then (Inr (length gone), f\<lparr>df_content := FileMissing\<rparr>)
        else (Inr (length gone), f\<lparr>df_content := FileContent raw\<rparr>))"
  unfolding hk_forget_def assms render_def by simp

text \<open>
  Forgetting host keys. On a file the gateway wrote, \<open>Forget\<close> of a name removes that name's
  pin and no other, \<open>Forget\<close> without a name removes all, the number returned is that of the pins
  removed, and the file stays one the gateway can read.
\<close>

theorem host_key_forget:
  assumes "hk_good f"
  shows "\<exists>n. fst (hk_forget name f) = Inr n \<and>
    pinned (snd (hk_forget name f)) = (\<lambda>k. if name = [] \<or> k = name then None else pinned f k) \<and>
    n = card {k. pinned f k \<noteq> None \<and> (name = [] \<or> k = name)} \<and> hk_good (snd (hk_forget name f))"
proof -
  obtain es where es: "entries_ok es" "hk_load f = Inr es" "pinned f = map_of es" "df_writable f"
    using hk_goodE [OF assms] by blast
  let ?gone = "filter (\<lambda>(k, v). name = [] \<or> k = name) es"
  let ?kept = "filter (\<lambda>(k, v). \<not> (name = [] \<or> k = name)) es"
  have d: "distinct (map fst es)" using es(1) by (simp add: entries_ok_def)
  have kept_ok: "entries_ok ?kept"
    using es(1) by (auto simp: entries_ok_def distinct_map_filter)
  have kept: "map_of ?kept = (\<lambda>k. if name = [] \<or> k = name then None else map_of es k)"
  proof
    fix k
    have "distinct (map fst ?kept)" using kept_ok by (simp add: entries_ok_def)
    then show "map_of ?kept k = (if name = [] \<or> k = name then None else map_of es k)"
      using map_of_iff [of ?kept k] map_of_iff [OF d, of k]
      by (cases "map_of ?kept k"; cases "map_of es k") auto
  qed
  have "{k. map_of es k \<noteq> None \<and> (name = [] \<or> k = name)} = set (map fst ?gone)"
    using map_of_iff [OF d] by force
  then have count: "length ?gone = card {k. map_of es k \<noteq> None \<and> (name = [] \<or> k = name)}"
    using distinct_card [of "map fst ?gone"] d by (simp add: distinct_map_filter)
  note empty = render_empty [OF kept_ok]
  have after: "(\<lambda>k. if name = [] \<or> k = name then None else pinned f k) = map_of ?kept"
    unfolding es(3) kept ..
  have n: "card {k. pinned f k \<noteq> None \<and> (name = [] \<or> k = name)} = length ?gone"
    unfolding es(3) count ..
  consider "?gone = []" | "?gone \<noteq> []" "?kept = []" | "?gone \<noteq> []" "?kept \<noteq> []" by blast
  then have "fst (hk_forget name f) = Inr (length ?gone) \<and> pinned (snd (hk_forget name f)) = map_of ?kept \<and>
      hk_good (snd (hk_forget name f))"
  proof cases
    case 1
    then have "?kept = es" by (intro filter_True) (auto simp: filter_empty_conv)
    moreover have "hk_forget name f = (Inr 0, f)" using 1 es(2) by (simp add: hk_forget_def)
    ultimately show ?thesis using 1 es(3) assms by simp
  next
    case 2
    then have h: "hk_forget name f = (Inr (length ?gone), f\<lparr>df_content := FileMissing\<rparr>)"
      using es(2,4) by (simp add: hk_forget_def render_def Let_def)
    have "hk_good (f\<lparr>df_content := FileMissing\<rparr>)" using es(4) by (simp add: hk_good_def entries_ok_def)
    then show ?thesis unfolding h 2(2) by (simp add: pinned_def hk_load_def)
  next
    case 3
    then have h: "hk_forget name f = (Inr (length ?gone), f\<lparr>df_content := FileContent (render ?kept)\<rparr>)"
      using hk_forget_kept [OF es(2), of name] es(4) empty by (simp add: Let_def)
    have "hk_good (f\<lparr>df_content := FileContent (render ?kept)\<rparr>)" using kept_ok es(4) by (auto simp: hk_good_def)
    moreover have "pinned (f\<lparr>df_content := FileContent (render ?kept)\<rparr>) = map_of ?kept"
      using load_render [OF kept_ok] by (simp add: pinned_def hk_load_def)
    ultimately show ?thesis unfolding h by simp
  qed
  then show ?thesis unfolding after n by blast
qed

lemma host_key_forget_witness:
  "\<exists>n. fst (hk_forget ''box'' fresh_file) = Inr n \<and> pinned (snd (hk_forget ''box'' fresh_file)) ''box'' = None"
  using host_key_forget [OF sample_ok(1), of "''box''"] by auto

section \<open>Caches over restarts\<close>

lemma any_source_member: "any_source f ss = Some g \<Longrightarrow> g = f \<or> g \<in> set ss"
  by (induction f ss rule: any_source.induct) (auto split: if_splits)

lemma any_source_same:
  assumes "any_source f ss = Some g" "s = f \<or> s \<in> set ss" "es_Repository s \<noteq> []"
  shows "es_Repository s = es_Repository g"
  using any_source_found [OF assms(1)] assms(2,3) by blast

definition uc_history :: "(string \<times> string) option list \<Rightarrow> user_cache \<Rightarrow> user_cache" where
  "uc_history ops c = fold (\<lambda>op c. case op of None \<Rightarrow> uc_reopen c | Some (k, u) \<Rightarrow> uc_set k u c) ops c"

lemma uc_history_run: "uc_history ops c = users.run ops c"
  by (induction ops c rule: users.run.induct) (simp_all add: uc_history_def)

lemma puts_filter: "users.puts ops = rev (List.map_filter id ops)"
  by (induction ops rule: users.puts.induct) (simp_all add: List.map_filter_simps)

text \<open>
  Login names survive a restart. Starting from a cache whose file is absent and can be
  written, after any sequence of \<open>set\<close> calls with ASCII names and restarts of the gateway, the
  cache answers for every name with the user set last, and knows no other names.
\<close>

theorem login_names_persist:
  assumes "\<forall>(k, u)\<in>set (List.map_filter id ops). k \<noteq> [] \<and> u \<noteq> [] \<and> ascii k \<and> ascii u"
  shows "uc_find k (uc_history ops (newUserCache fresh_file)) = map_of (rev (List.map_filter id ops)) k"
proof -
  have "uc_good (newUserCache fresh_file)"
    by (simp add: uc_good_def newUserCache_def uc_load_def fresh_file_def read_map_def add_all_def)
  moreover have "uc_find k (newUserCache fresh_file) = None"
    by (simp add: uc_find_eq newUserCache_def uc_load_def fresh_file_def read_map_def add_all_def)
  ultimately show ?thesis
    using users.run_get [of "newUserCache fresh_file" ops k] assms
    by (simp add: uc_history_run puts_filter split: option.splits)
qed

lemma login_names_persist_witness:
  "uc_find ''box'' (uc_history [Some (''box'', ''vscode''), None] (newUserCache fresh_file)) = Some ''vscode''"
  using login_names_persist [of "[Some (''box'', ''vscode''), None]" "''box''"]
  by (simp add: List.map_filter_simps ascii_def byte_def)

text \<open>
  Recreating from memory is unambiguous about the repository. Whatever order Go takes the
  remembered sources in, \<open>any\<close> finds one exactly when they name one repository, and it is that
  repository; the other fields are those of some remembered source of it.
\<close>

theorem any_source_order:
  assumes "set srcs = set srcs'"
  shows "(any_source no_source srcs = None) = (any_source no_source srcs' = None) \<and>
    (\<forall>g g'. any_source no_source srcs = Some g \<longrightarrow> any_source no_source srcs' = Some g' \<longrightarrow>
      es_Repository g = es_Repository g' \<and> (es_Repository g \<noteq> [] \<longrightarrow> g \<in> set srcs))"
proof -
  have "es_Repository g = es_Repository g'"
    if g: "any_source no_source srcs = Some g" and g': "any_source no_source srcs' = Some g'" for g g'
  proof -
    have agree: "es_Repository a = es_Repository b"
      if "any_source no_source xs = Some b" "any_source no_source ys = Some a" "set xs = set ys"
        "es_Repository a \<noteq> []" for a b xs ys
      using any_source_member [OF that(2)] that(3,4) any_source_same [OF that(1), of a] by blast
    show ?thesis
      using agree [OF g g' assms] agree [OF g' g assms [symmetric]] by metis
  qed
  moreover have "es_Repository g \<noteq> [] \<longrightarrow> g \<in> set srcs" if "any_source no_source srcs = Some g" for g
    using any_source_member [OF that] by (elim disjE) (simp_all add: no_source_def)
  ultimately show ?thesis
    using any_source_repository [of no_source srcs] any_source_repository [of no_source srcs']
    unfolding assms by blast
qed

definition src_at :: "string \<Rightarrow> env_source" where
  "src_at b = \<lparr>es_Repository = ''o/r'', es_Branch = b, es_Machine = [], es_Location = [], es_DevcontainerPath = []\<rparr>"

lemma any_source_order_witness:
  "any_source no_source [src_at ''x'', src_at ''y''] \<noteq> any_source no_source [src_at ''y'', src_at ''x''] \<and>
   any_source no_source [src_at ''y'', src_at ''x''] \<noteq> None"
  using any_source_order [of "[src_at ''x'', src_at ''y'']" "[src_at ''y'', src_at ''x'']"]
  by (auto simp: no_source_def src_at_def)

end
