(* ===== verification/GithubCli.thy ===== *)
theory GithubCli
  imports GithubStores
begin

text \<open>
  The GitHub CLI (\<open>providers/github/ghcli.go\<close>): finding it, the environment it is given, its
  captured output, and what \<open>gh codespace ssh --config\<close> says about a codespace. The program
  \<open>gh\<close> itself is a parameter: what one run of it prints and how it ends.
\<close>

section \<open>Programs of the host\<close>

text \<open>
  What a run leaves: its output, its error output, and the error of \<open>cmd.Run\<close>. \<open>t_look\<close> is
  \<open>exec.LookPath\<close>; \<open>t_stat\<close> is \<open>os.Stat\<close>, whose value says whether the path is a directory.
\<close>

record proc_result =
  pr_stdout :: string
  pr_stderr :: string
  pr_error :: "goerr option"

record 'w tools =
  t_environ :: "string list"
  t_look :: "string \<Rightarrow> goerr + string"
  t_stat :: "string \<Rightarrow> goerr + bool"
  t_run :: "ctx \<Rightarrow> string \<Rightarrow> string list \<Rightarrow> string list \<Rightarrow> 'w \<Rightarrow> proc_result \<times> 'w"

record gh_cli =
  gh_path :: string
  gh_token :: "string option"
  gh_apiURL :: string

section \<open>Finding gh\<close>

definition ghCandidates :: "string list" where
  "ghCandidates = [''/usr/bin/gh'', ''/usr/local/bin/gh'', ''/opt/homebrew/bin/gh'',
     ''/home/linuxbrew/.linuxbrew/bin/gh'', ''/snap/bin/gh'']"

definition findGH :: "'w tools \<Rightarrow> string \<Rightarrow> goerr + string" where
  "findGH T configured =
    (if configured \<noteq> [] then
       (case (if HasPrefix configured ''/'' then Inr configured
              else (case t_look T configured of
                      Inl e \<Rightarrow> Inl (Wrapf (''github.gh_path '' @ quote configured @ '' not found: '') e [])
                    | Inr resolved \<Rightarrow> Inr resolved)) of
          Inl e \<Rightarrow> Inl e
        | Inr p \<Rightarrow>
            if t_stat T p = Inr False then Inr p
            else Inl (Errorf (''github.gh_path '' @ quote configured @ '' is not an executable file'')))
     else
       (case t_look T ''gh'' of
          Inr p \<Rightarrow> Inr p
        | Inl _ \<Rightarrow>
           (case find (\<lambda>cand. t_stat T cand = Inr False) ghCandidates of
              Some cand \<Rightarrow> Inr cand
            | None \<Rightarrow> Inl (Errorf (''the GitHub CLI (gh) was not found on PATH; install it from https://cli.github.com '' @
                ''or set github.gh_path'')))))"

definition gh_Available :: "gh_cli \<Rightarrow> bool" where
  "gh_Available g \<longleftrightarrow> gh_path g \<noteq> []"

section \<open>The environment of gh\<close>

definition inherited_credential :: "string \<Rightarrow> bool" where
  "inherited_credential kv \<longleftrightarrow> HasPrefix kv ''GH_TOKEN='' \<or> HasPrefix kv ''GITHUB_TOKEN='' \<or>
     HasPrefix kv ''GH_ENTERPRISE_TOKEN='' \<or> HasPrefix kv ''GITHUB_API_URL=''"

definition command_env :: "'w tools \<Rightarrow> gh_cli \<Rightarrow> string list" where
  "command_env T g =
    filter (\<lambda>kv. \<not> inherited_credential kv) (t_environ T) @
    (case gh_token g of
       Some tok \<Rightarrow> if tok \<noteq> [] then [''GH_TOKEN='' @ tok, ''GITHUB_TOKEN='' @ tok] else []
     | None \<Rightarrow> []) @
    (if gh_apiURL g \<noteq> [] \<and> gh_apiURL g \<noteq> defaultAPIURL then [''GITHUB_API_URL='' @ gh_apiURL g] else []) @
    [''NO_COLOR=1'', ''GH_NO_UPDATE_NOTIFIER=1'', ''GH_PROMPT_DISABLED=1'', ''CLICOLOR=0'']"

definition scrub :: "gh_cli \<Rightarrow> string \<Rightarrow> string" where
  "scrub g s =
    (case gh_token g of
       None \<Rightarrow> s
     | Some tok \<Rightarrow> if length tok \<ge> 8 then ReplaceAll s tok ''***'' else s)"

section \<open>Running gh\<close>

definition maxCapturedOutput :: nat where
  "maxCapturedOutput = 64 * 2 ^ 10"

text \<open>The text that explains a failed run.\<close>

definition run_message :: "gh_cli \<Rightarrow> proc_result \<Rightarrow> goerr \<Rightarrow> string" where
  "run_message g r e =
    (let m1 = TrimSpace (scrub g (pr_stderr r));
         m2 = (if length m1 > 2000 then take 2000 m1 @ ''...'' else m1)
     in if m2 = [] then err_text e else m2)"

definition gh_run ::
  "'w tools \<Rightarrow> gh_cli \<Rightarrow> ctx \<Rightarrow> string list \<Rightarrow> 'w \<Rightarrow> (string \<times> goerr option) \<times> 'w" where
  "gh_run T g x args w =
    (if \<not> gh_Available g then (([], Some (Errorf ''the GitHub CLI (gh) is not available'')), w)
     else
       (case t_run T x (gh_path g) args (command_env T g) w of
          (r, w1) \<Rightarrow>
            ((take maxCapturedOutput (pr_stdout r),
              map_option (\<lambda>e. Wrapf (''gh '' @ Join args '' '' @ '': '') e ('': '' @ run_message g r e)) (pr_error r)),
             w1)))"

definition AuthToken :: "'w tools \<Rightarrow> gh_cli \<Rightarrow> ctx \<Rightarrow> 'w \<Rightarrow> (goerr + secret_value) \<times> 'w" where
  "AuthToken T g x w =
    (case gh_run T g x [''auth'', ''token''] w of
       ((_, Some e), w1) \<Rightarrow> (Inl e, w1)
     | ((out, None), w1) \<Rightarrow> (Inr (secret_New out), w1))"

definition gh_Version :: "'w tools \<Rightarrow> gh_cli \<Rightarrow> ctx \<Rightarrow> 'w \<Rightarrow> (goerr + string) \<times> 'w" where
  "gh_Version T g x w =
    (case gh_run T g x [''--version''] w of
       ((_, Some e), w1) \<Rightarrow> (Inl e, w1)
     | ((out, None), w1) \<Rightarrow> (Inr (fst (Cut (TrimSpace out) [nl])), w1))"

section \<open>The SSH configuration gh reports\<close>

record ssh_target =
  tg_User :: string
  tg_IdentityFile :: string
  tg_StdioSupported :: bool

text \<open>
  The lines a \<open>bufio.Scanner\<close> gives: without the newline and one carriage return before it. A
  line that does not fit into the scanner's buffer of 64 KiB ends the scan.
\<close>

definition drop_cr :: "string \<Rightarrow> string" where
  "drop_cr l = (if l \<noteq> [] \<and> last l = CHR 0x0D then butlast l else l)"

definition scan_lines :: "string \<Rightarrow> string list" where
  "scan_lines s =
    (let ls = split_on nl s; full = (if last ls = [] then butlast ls else ls)
     in map drop_cr (takeWhile (\<lambda>l. length l < 64 * 2 ^ 10) full))"

definition trim_char :: "char \<Rightarrow> string \<Rightarrow> string" where
  "trim_char c s = rev (dropWhile (\<lambda>x. x = c) (rev (dropWhile (\<lambda>x. x = c) s)))"

definition config_line :: "string \<Rightarrow> ssh_target \<Rightarrow> ssh_target" where
  "config_line raw t =
    (case Cut (TrimSpace raw) '' '' of
       (key, rest0, found) \<Rightarrow>
         let rest = TrimSpace rest0; k = ToLower key
         in if \<not> found then t
            else if k = ''user'' then t\<lparr>tg_User := rest\<rparr>
            else if k = ''identityfile'' then t\<lparr>tg_IdentityFile := trim_char (CHR 0x22) rest\<rparr>
            else if k = ''proxycommand'' then
              (if Contains rest ''--stdio'' then t\<lparr>tg_StdioSupported := True\<rparr> else t)
            else t)"

definition parseSSHConfig :: "string \<Rightarrow> ssh_target" where
  "parseSSHConfig out =
    fold config_line (scan_lines out) \<lparr>tg_User = [], tg_IdentityFile = [], tg_StdioSupported = False\<rparr>"

definition probeSSHTarget ::
  "'w tools \<Rightarrow> gh_cli \<Rightarrow> ctx \<Rightarrow> string \<Rightarrow> 'w \<Rightarrow> (goerr + ssh_target) \<times> 'w" where
  "probeSSHTarget T g x name w =
    (case gh_run T g x [''codespace'', ''ssh'', ''-c'', name, ''--config''] w of
       ((_, Some e), w1) \<Rightarrow> (Inl e, w1)
     | ((out, None), w1) \<Rightarrow>
        let target = parseSSHConfig out
        in ((if tg_User target = [] then
               Inl (Errorf (''gh codespace ssh --config did not report an ssh user for '' @ name))
             else Inr target), w1))"

section \<open>Facts\<close>

text \<open>What the gateway hands to \<open>gh\<close> names no other credential than its own.\<close>

lemma command_env_credentials:
  assumes "kv \<in> set (command_env T g)" and "inherited_credential kv"
  shows "(\<exists>tok. gh_token g = Some tok \<and> tok \<noteq> [] \<and> kv \<in> {''GH_TOKEN='' @ tok, ''GITHUB_TOKEN='' @ tok}) \<or>
    kv = ''GITHUB_API_URL='' @ gh_apiURL g"
proof -
  have "\<not> inherited_credential x"
    if "x \<in> {''NO_COLOR=1'', ''GH_NO_UPDATE_NOTIFIER=1'', ''GH_PROMPT_DISABLED=1'', ''CLICOLOR=0''}" for x
    using that by (elim insertE emptyE) (simp_all add: inherited_credential_def)
  then have "kv \<notin> set [''NO_COLOR=1'', ''GH_NO_UPDATE_NOTIFIER=1'', ''GH_PROMPT_DISABLED=1'', ''CLICOLOR=0'']"
    using assms(2) by (metis list.set(1) list.set(2))
  moreover have "kv \<notin> set (filter (\<lambda>kv. \<not> inherited_credential kv) (t_environ T))"
    using assms(2) by simp
  ultimately have "kv \<in> set (case gh_token g of
         Some tok \<Rightarrow> if tok \<noteq> [] then [''GH_TOKEN='' @ tok, ''GITHUB_TOKEN='' @ tok] else [] | None \<Rightarrow> []) \<or>
      kv \<in> set (if gh_apiURL g \<noteq> [] \<and> gh_apiURL g \<noteq> defaultAPIURL then [''GITHUB_API_URL='' @ gh_apiURL g] else [])"
    using assms(1) unfolding command_env_def set_append by blast
  then show ?thesis
    by (elim disjE) (cases "gh_token g"; simp split: if_splits)+
qed

lemma scrub_hides:
  assumes "gh_token g = Some tok" and "8 \<le> length tok" and "CHR ''*'' \<notin> set tok"
  shows "\<not> Contains (scrub g s) tok"
  using ReplaceAll_gone [of tok s] assms by (cases "tok = []") (simp_all add: scrub_def)

end
