(* ===== verification/GithubProvider.thy ===== *)
theory GithubProvider
  imports GithubCli HostKeySpec
begin

text \<open>
  The GitHub provider (\<open>providers/github/provider.go\<close>, \<open>lifecycle.go\<close>): its construction, what it
  says about itself, and the operations on codespaces, over the API client of \<open>GithubApi\<close> and
  the stores of \<open>GithubStores\<close>. An operation takes the provider's state and the world and
  returns both; \<open>select\<close>, the clock and the network are those of \<open>net\<close>.
\<close>

section \<open>The provider\<close>

record key_pair =
  kp_PrivatePath :: string
  kp_PublicPath :: string
  kp_fingerprint :: string

text \<open>\<open>gp_told\<close> are the progress lines delivered to callbacks so far.\<close>

record gh_provider =
  gp_cfg :: github_config
  gp_api :: api_client
  gp_gh :: gh_cli
  gp_keys :: key_pair
  gp_hostKeys :: disk_file
  gp_users :: user_cache
  gp_sources :: source_cache
  gp_tokenSrc :: token_source
  gp_ghErr :: "goerr option"
  gp_connector :: string
  gp_told :: "(nat \<times> string) list"

text \<open>
  What \<open>New\<close> finds outside: the decoded section (none if the file has no such section), the
  places of tokens but for \<open>gh\<close>, the outcome of creating the state directory and of preparing
  the key pair, and the files of the state directory.
\<close>

record provider_deps =
  pd_config :: "(goerr + github_config) option"
  pd_file :: file_read
  pd_env :: "string \<Rightarrow> string"
  pd_mkdir :: "goerr option"
  pd_keys :: "goerr + key_pair"
  pd_hostKeys :: disk_file
  pd_users :: disk_file
  pd_sources :: disk_file

definition no_create :: create_config where
  "no_create = \<lparr>cc_Repository = [], cc_Branch = [], cc_Machine = [], cc_Location = [], cc_DevcontainerPath = [],
     cc_IdleTimeoutMinutes = 0, cc_RetentionPeriodMinutes = 0, cc_DisplayName = []\<rparr>"

definition no_config :: github_config where
  "no_config = \<lparr>gf_Token = Value [], gf_TokenFile = [], gf_Codespace = [], gf_APIURL = [], gf_GHPath = [],
     gf_Connector = [], gf_HostKeyPolicy = [], gf_SSHUser = [], gf_RequestTimeout = 0, gf_Create = no_create\<rparr>"

text \<open>
  The token of \<open>gh\<close> is only asked for when nothing else gives one; \<open>gh\<close> runs without the
  gateway's own token then.
\<close>

definition needs_gh_token :: "github_config \<Rightarrow> provider_deps \<Rightarrow> bool" where
  "needs_gh_token cfg d \<longleftrightarrow> Empty (gf_Token cfg) \<and> gf_TokenFile cfg = [] \<and>
     TrimSpace (pd_env d ''GITHUB_TOKEN'') = [] \<and> TrimSpace (pd_env d ''GH_TOKEN'') = []"

definition token_from ::
  "'w tools \<Rightarrow> gh_cli \<Rightarrow> ctx \<Rightarrow> github_config \<Rightarrow> provider_deps \<Rightarrow> 'w \<Rightarrow> (goerr + secret_value \<times> token_source) \<times> 'w" where
  "token_from T g x cfg d w =
    (let (fromgh, w1) =
       (if needs_gh_token cfg d \<and> gh_Available g then (case AuthToken T g x w of (r, w1) \<Rightarrow> (Some r, w1))
        else (None, w))
     in (resolveToken cfg \<lparr>tp_file = pd_file d, tp_env = pd_env d, tp_gh = fromgh\<rparr>, w1))"

definition decoded_config :: "provider_deps \<Rightarrow> goerr + github_config" where
  "decoded_config d =
    (case pd_config d of
       None \<Rightarrow> Inr no_config
     | Some (Inl e) \<Rightarrow> Inl (Wrapf ''github config section: '' e [])
     | Some (Inr cfg) \<Rightarrow> Inr cfg)"

text \<open>The provider with its token and keys, once all of it is there.\<close>

definition provider_of ::
  "github_config \<Rightarrow> provider_deps \<Rightarrow> goerr + string \<Rightarrow> secret_value \<times> token_source \<Rightarrow> key_pair \<Rightarrow> gh_provider" where
  "provider_of cfg d found tok keys =
    \<lparr>gp_cfg = cfg,
     gp_api = \<lparr>ac_base = gf_APIURL cfg, ac_token = Reveal (fst tok), ac_timeout = gf_RequestTimeout cfg,
       ac_agent = ''ssh-gateway''\<rparr>,
     gp_gh = \<lparr>gh_path = (case found of Inr p \<Rightarrow> p | Inl _ \<Rightarrow> []), gh_token = Some (Reveal (fst tok)),
       gh_apiURL = gf_APIURL cfg\<rparr>,
     gp_keys = keys, gp_hostKeys = pd_hostKeys d, gp_users = newUserCache (pd_users d),
     gp_sources = newSourceCache (pd_sources d), gp_tokenSrc = snd tok,
     gp_ghErr = (case found of Inl e \<Rightarrow> Some e | Inr _ \<Rightarrow> None),
     gp_connector = gf_Connector cfg, gp_told = []\<rparr>"

definition New_github ::
  "'w tools \<Rightarrow> ctx \<Rightarrow> provider_deps \<Rightarrow> redactor option \<Rightarrow> 'w \<Rightarrow> (goerr + gh_provider) \<times> redactor option \<times> 'w" where
  "New_github T x d red w =
    (case decoded_config d of
       Inl e \<Rightarrow> (Inl e, red, w)
     | Inr cfg0 \<Rightarrow>
        (case applyDefaults cfg0 of
           (Some e, _) \<Rightarrow> (Inl e, red, w)
         | (None, cfg) \<Rightarrow>
            (let found = findGH T (gf_GHPath cfg);
                 gh = \<lparr>gh_path = (case found of Inr p \<Rightarrow> p | Inl _ \<Rightarrow> []), gh_token = None, gh_apiURL = gf_APIURL cfg\<rparr>
             in (case token_from T gh x cfg d w of
                   (Inl e, w1) \<Rightarrow> (Inl e, red, w1)
                 | (Inr tok, w1) \<Rightarrow>
                    (let red1 = Add red [Reveal (fst tok)]
                     in (case pd_mkdir d of
                           Some e \<Rightarrow> (Inl (Wrapf ''create provider state dir: '' e []), red1, w1)
                         | None \<Rightarrow>
                            (case pd_keys d of
                               Inl e \<Rightarrow> (Inl (Wrapf ''prepare codespace key pair: '' e []), red1, w1)
                             | Inr keys \<Rightarrow> (Inr (provider_of cfg d found tok keys), red1, w1))))))))"

section \<open>What it says about itself\<close>

fun token_source_name :: "token_source \<Rightarrow> string" where
  "token_source_name TokenFromConfig = ''config file''"
| "token_source_name TokenFromFile = ''token_file''"
| "token_source_name TokenFromEnv = ''environment''"
| "token_source_name TokenFromGH = ''gh auth token''"

definition Info :: "gh_provider \<Rightarrow> (string, string) gomap" where
  "Info p =
    [(''token_source'', token_source_name (gp_tokenSrc p)), (''api_url'', gf_APIURL (gp_cfg p)),
     (''connector'', gp_connector p), (''host_key_policy'', gf_HostKeyPolicy (gp_cfg p)),
     (''gateway_key'', kp_fingerprint (gp_keys p)),
     (''gh'', if gh_path (gp_gh p) = [] then ''not found'' else gh_path (gp_gh p))] @
    (if cc_Repository (gf_Create (gp_cfg p)) \<noteq> [] then
       [(''create_repository'', cc_Repository (gf_Create (gp_cfg p)))] else []) @
    (if gf_SSHUser (gp_cfg p) \<noteq> [] then [(''ssh_user'', gf_SSHUser (gp_cfg p))] else [])"

definition Capabilities :: "gh_provider \<Rightarrow> capabilities" where
  "Capabilities p =
    \<lparr>cap_Create = (cc_Repository (gf_Create (gp_cfg p)) \<noteq> []), cap_Stop = True, cap_Subsystems = True,
     cap_Signals = (gp_connector p \<noteq> ''exec''), cap_Resize = True, cap_ProviderManagedIdle = True,
     cap_IdleMechanism = ''GitHub Codespaces idle timeout (idle_timeout_minutes per codespace)'',
     cap_SSHActivityAttribution = IdleAttributionUnverified,
     cap_Notes =
       [''The gateway runs no idle timer and never reports synthetic activity: a codespace stops '' @
        ''when GitHub'' @ [CHR 0x27] @ ''s own idle mechanism decides it should.'',
        ''GitHub documents the idle timeout but publishes no activity/session API, so whether an SSH '' @
        ''session through the tunnel postpones that timeout is unverified. A codespace may stop '' @
        ''under an open but idle session; the next connection starts it again.''] @
       (if cc_Repository (gf_Create (gp_cfg p)) = [] then
          [''Auto-create is unavailable until github.create.repository is set.''] else []) @
       (if gp_connector p = ''exec'' then
          [''The exec connector reports gh'' @ [CHR 0x27] @ ''s exit status rather than the remote command'' @
           [CHR 0x27] @ ''s, and cannot '' @ ''forward SSH signals.''] else [])\<rparr>"

section \<open>Remembered sources\<close>

definition source_of :: "codespace \<Rightarrow> env_source" where
  "source_of g = \<lparr>es_Repository = gc_RepositoryFullName g, es_Branch = gc_GitRef g, es_Machine = gc_MachineName g,
     es_Location = gc_Location g, es_DevcontainerPath = gc_DevContainerPath g\<rparr>"

definition rememberSource :: "codespace \<Rightarrow> string list \<Rightarrow> gh_provider \<Rightarrow> gh_provider" where
  "rememberSource g handles p =
    p\<lparr>gp_sources := sc_remember (source_of g) ([gc_Name g, gc_DisplayName g] @ handles) (gp_sources p)\<rparr>"

definition recallSource :: "string \<Rightarrow> gh_provider \<Rightarrow> (env_source \<times> bool) \<times> gh_provider" where
  "recallSource handle p =
    (case sc_lookup handle (gp_sources p) of
       ((src, True), c) \<Rightarrow> ((src, True), p\<lparr>gp_sources := c\<rparr>)
     | (_, c) \<Rightarrow> (case sc_any c of (r, c1) \<Rightarrow> (r, p\<lparr>gp_sources := c1\<rparr>)))"

section \<open>Looking at codespaces\<close>

definition gh_List :: "'w net \<Rightarrow> ctx \<Rightarrow> gh_provider \<Rightarrow> 'w \<Rightarrow> (goerr + environment list) \<times> gh_provider \<times> 'w" where
  "gh_List N x p w =
    (case listCodespaces N (gp_api p) x w of
       (Inl e, w1) \<Rightarrow> (Inl e, p, w1)
     | (Inr l, w1) \<Rightarrow>
        (Inr (sort_key env_ID (map codespace_environment l)), fold (\<lambda>g. rememberSource g []) l p, w1))"

definition no_handle :: goerr where
  "no_handle = Errorf (''no codespace selected: set github.codespace '' @ ''or run `gateway codespace select <name>`'')"

definition gh_Get :: "'w net \<Rightarrow> ctx \<Rightarrow> string \<Rightarrow> gh_provider \<Rightarrow> 'w \<Rightarrow> (goerr + environment) \<times> gh_provider \<times> 'w" where
  "gh_Get N x h p w =
    (if h = [] then (Inl no_handle, p, w)
     else
       (case getCodespace N (gp_api p) x h w of
          (Inr g, w1) \<Rightarrow> (Inr (codespace_environment g), rememberSource g [h] p, w1)
        | (Inl e, w1) \<Rightarrow>
           if \<not> errors_Is e ErrNotFound then (Inl e, p, w1)
           else
             (case listCodespaces N (gp_api p) x w1 of
                (Inl e2, w2) \<Rightarrow> (Inl e2, p, w2)
              | (Inr l, w2) \<Rightarrow>
                 (case find (\<lambda>g. EqualFold (gc_DisplayName g) h) l of
                    Some g \<Rightarrow> (Inr (codespace_environment g), rememberSource g [h] p, w2)
                  | None \<Rightarrow> (Inl (NotFoundError ProviderName h), p, w2)))))"

definition gh_Status ::
  "'w net \<Rightarrow> ctx \<Rightarrow> string \<Rightarrow> gh_provider \<Rightarrow> 'w \<Rightarrow> (pstate \<times> goerr option) \<times> gh_provider \<times> 'w" where
  "gh_Status N x h p w =
    (case gh_Get N x h p w of
       (Inl e, p1, w1) \<Rightarrow> ((if errors_Is e ErrNotFound then StateNotFound else StateUnknown, Some e), p1, w1)
     | (Inr env, p1, w1) \<Rightarrow> ((env_State env, None), p1, w1))"

section \<open>Starting and stopping\<close>

definition pending_error :: "string \<Rightarrow> codespace \<Rightarrow> goerr" where
  "pending_error h g = TemporaryError (Errorf (''codespace '' @ h @ '' still has a pending operation ('' @
     gc_PendingReason g @ '')''))"

text \<open>One round of \<open>awaitNoPendingOperation\<close>; the loop's state is the world.\<close>

definition await_round ::
  "'w net \<Rightarrow> api_client \<Rightarrow> ctx \<Rightarrow> string \<Rightarrow> int \<Rightarrow> 'w \<Rightarrow> 'w + goerr option \<times> 'w" where
  "await_round N c x h deadline w =
    (case getCodespace N c x h w of
       (Inl e, w1) \<Rightarrow> Inr (Some e, w1)
     | (Inr g, w1) \<Rightarrow>
        if \<not> gc_PendingOperation g then Inr (None, w1)
        else if n_now N w1 > deadline then Inr (Some (pending_error h g), w1)
        else (case n_sel N x (n_now N w1 + 5 * second) w1 of
                (Some e, w2) \<Rightarrow> Inr (Some e, w2)
              | (None, w2) \<Rightarrow> Inl w2))"

definition awaitNoPendingOperation ::
  "'w net \<Rightarrow> api_client \<Rightarrow> ctx \<Rightarrow> string \<Rightarrow> 'w \<Rightarrow> (goerr option \<times> 'w) option" where
  "awaitNoPendingOperation N c x h w = forever (await_round N c x h (n_now N w + 120 * second)) w"

definition gh_Start :: "'w net \<Rightarrow> ctx \<Rightarrow> string \<Rightarrow> gh_provider \<Rightarrow> 'w \<Rightarrow> (goerr option \<times> 'w) option" where
  "gh_Start N x h p w =
    (case awaitNoPendingOperation N (gp_api p) x h w of
       None \<Rightarrow> None
     | Some (Some e, w1) \<Rightarrow> Some (Some e, w1)
     | Some (None, w1) \<Rightarrow> Some (startCodespace N (gp_api p) x h w1))"

definition already_stopped :: "goerr \<Rightarrow> bool" where
  "already_stopped e \<longleftrightarrow> errors_Is e ErrConflict \<or>
     (case as_api_error e of
        Some ae \<Rightarrow> ae_Status ae = 422 \<and> Contains (ToLower (ae_Message ae)) ''shutdown''
      | None \<Rightarrow> False)"

definition gh_Stop :: "'w net \<Rightarrow> ctx \<Rightarrow> string \<Rightarrow> gh_provider \<Rightarrow> 'w \<Rightarrow> goerr option \<times> 'w" where
  "gh_Stop N x h p w =
    (case stopCodespace N (gp_api p) x h w of
       (Some e, w1) \<Rightarrow> (if already_stopped e then None else Some e, w1)
     | (None, w1) \<Rightarrow> (None, w1))"

section \<open>Creating\<close>

fun any_text :: "anyval \<Rightarrow> string" where
  "any_text (AnyInt n) = show_int n"
| "any_text (AnyInt64 n) = show_int n"
| "any_text (AnyFloat64 _ s) = s"
| "any_text (AnyString s) = s"
| "any_text (AnyOther s) = s"

fun asInt :: "anyval \<Rightarrow> goerr + int" where
  "asInt (AnyInt n) = Inr n"
| "asInt (AnyInt64 n) = Inr n"
| "asInt (AnyFloat64 n _) = Inr n"
| "asInt (AnyString s) =
    (case Atoi (TrimSpace s) of Some n \<Rightarrow> Inr n | None \<Rightarrow> Inl (Errorf (quote s @ '' is not a number'')))"
| "asInt (AnyOther s) = Inl (Errorf (s @ '' is not a number''))"

text \<open>One option, and the loop over the options in the order in which Go takes them.\<close>

definition create_option :: "string \<Rightarrow> anyval \<Rightarrow> create_config \<Rightarrow> goerr + create_config" where
  "create_option k raw cfg =
    (if k = ''repository'' then Inr (cfg\<lparr>cc_Repository := any_text raw\<rparr>)
     else if k = ''branch'' \<or> k = ''ref'' then Inr (cfg\<lparr>cc_Branch := any_text raw\<rparr>)
     else if k = ''machine'' then Inr (cfg\<lparr>cc_Machine := any_text raw\<rparr>)
     else if k = ''location'' then Inr (cfg\<lparr>cc_Location := any_text raw\<rparr>)
     else if k = ''devcontainer_path'' then Inr (cfg\<lparr>cc_DevcontainerPath := any_text raw\<rparr>)
     else if k = ''display_name'' then Inr (cfg\<lparr>cc_DisplayName := any_text raw\<rparr>)
     else if k = ''idle_timeout_minutes'' then
       (case asInt raw of
          Inl e \<Rightarrow> Inl (Wrapf ''option idle_timeout_minutes: '' e [])
        | Inr n \<Rightarrow> Inr (cfg\<lparr>cc_IdleTimeoutMinutes := n\<rparr>))
     else if k = ''retention_period_minutes'' then
       (case asInt raw of
          Inl e \<Rightarrow> Inl (Wrapf ''option retention_period_minutes: '' e [])
        | Inr n \<Rightarrow> Inr (cfg\<lparr>cc_RetentionPeriodMinutes := n\<rparr>))
     else Inl (Errorf (''unknown create option '' @ quote k @ '' for the github provider'')))"

fun create_options :: "(string \<times> anyval) list \<Rightarrow> create_config \<Rightarrow> goerr + create_config" where
  "create_options [] cfg = Inr cfg"
| "create_options ((k, raw) # opts) cfg =
    (case create_option k raw cfg of Inl e \<Rightarrow> Inl e | Inr cfg1 \<Rightarrow> create_options opts cfg1)"

definition mergeCreateOptions :: "create_config \<Rightarrow> (string, anyval) gomap \<Rightarrow> goerr + create_config" where
  "mergeCreateOptions base opts =
    (case create_options opts base of
       Inl e \<Rightarrow> Inl e
     | Inr out \<Rightarrow>
        if cc_Repository out \<noteq> [] \<and> count_char (CHR ''/'') (cc_Repository out) \<noteq> 1 then
          Inl (Errorf (''repository '' @ quote (cc_Repository out) @ '' must be owner/name''))
        else Inr out)"

definition no_repository_known :: goerr where
  "no_repository_known = Errorf (utf8 [0x8FD9, 0x4E2A] @ '' codespace '' @ utf8 [0x4E0D, 0x5B58, 0x5728, 0xFF0C, 0x4E5F, 0x6CA1, 0x6709, 0x53EF, 0x7528, 0x6765, 0x521B, 0x5EFA, 0x7684, 0x4ED3, 0x5E93, 0xFF1A, 0x8BF7, 0x5728, 0x914D, 0x7F6E, 0x6587, 0x4EF6, 0x91CC, 0x8BBE, 0x7F6E] @ '' github.create.repository'' @ utf8 [0xFF08] @ ''owner/name'' @ utf8 [0xFF09, 0xFF0C, 0x6216, 0x5148, 0x5728] @ '' github.com/codespaces '' @ utf8 [0x5EFA, 0x4E00, 0x4E2A] @ '' codespace'' @ utf8 [0xFF08, 0x4E4B, 0x540E] @ '' gateway '' @ utf8 [0x4F1A, 0x8BB0, 0x4F4F, 0x5B83, 0x7684, 0x4ED3, 0x5E93, 0xFF0C, 0x5220, 0x6389, 0x518D, 0x8FDE, 0x65F6, 0x81EA, 0x52A8, 0x91CD, 0x5EFA, 0xFF09])"

text \<open>The parameters a codespace is created with: options, then configuration, then memory.\<close>

definition create_from :: "create_spec \<Rightarrow> gh_provider \<Rightarrow> (goerr + create_config) \<times> gh_provider" where
  "create_from spec p =
    (case mergeCreateOptions (gf_Create (gp_cfg p)) (cs_Options spec) of
       Inl e \<Rightarrow> (Inl e, p)
     | Inr cfg \<Rightarrow>
        (let (cfg1, p1) =
           (if cc_Repository cfg = [] then
              (case recallSource (cs_Name spec) p of
                 ((src, ok), p1) \<Rightarrow> (if ok then source_merge src cfg else cfg, p1))
            else (cfg, p))
         in (if cc_Repository cfg1 = [] then Inl no_repository_known else Inr cfg1, p1)))"

definition request_of :: "create_config \<Rightarrow> string \<Rightarrow> repository \<Rightarrow> create_request" where
  "request_of cfg name repo =
    \<lparr>crq_RepositoryID = rp_ID repo, crq_Ref = cc_Branch cfg, crq_Location = cc_Location cfg,
     crq_Machine = cc_Machine cfg, crq_DevContainerPath = cc_DevcontainerPath cfg,
     crq_IdleTimeoutMinutes = cc_IdleTimeoutMinutes cfg,
     crq_RetentionPeriodMinutes = cc_RetentionPeriodMinutes cfg,
     crq_DisplayName = (if cc_DisplayName cfg = [] then name else cc_DisplayName cfg)\<rparr>"

definition gh_Create ::
  "'w net \<Rightarrow> ctx \<Rightarrow> create_spec \<Rightarrow> gh_provider \<Rightarrow> 'w \<Rightarrow> (goerr + environment) \<times> gh_provider \<times> 'w" where
  "gh_Create N x spec p w =
    (case create_from spec p of
       (Inl e, p1) \<Rightarrow> (Inl e, p1, w)
     | (Inr cfg, p1) \<Rightarrow>
        (case getRepository N (gp_api p) x (cc_Repository cfg) w of
           (Inl e, w1) \<Rightarrow> (Inl (Wrapf (''look up repository '' @ cc_Repository cfg @ '': '') e []), p1, w1)
         | (Inr repo, w1) \<Rightarrow>
            (case createCodespace N (gp_api p) x (request_of cfg (cs_Name spec) repo) w1 of
               (Inl e, w2) \<Rightarrow> (Inl e, p1, w2)
             | (Inr g, w2) \<Rightarrow> (Inr (codespace_environment g), rememberSource g [cs_Name spec] p1, w2))))"

section \<open>Machines and sources\<close>

text \<open>The sizes stay in bytes here; the code divides them by \<open>2 ^ 30\<close> in floating point.\<close>

record machine_type =
  mt_Name :: string
  mt_DisplayName :: string
  mt_CPUs :: int
  mt_MemoryBytes :: "64 word"
  mt_StorageBytes :: "64 word"
  mt_Note :: string

definition machine_type_of :: "machine \<Rightarrow> machine_type" where
  "machine_type_of m =
    \<lparr>mt_Name = mc_Name m, mt_DisplayName = mc_DisplayName m, mt_CPUs = mc_CPUs m,
     mt_MemoryBytes = mc_MemoryInBytes m, mt_StorageBytes = mc_StorageInBytes m,
     mt_Note = (if mc_PrebuildAvailability m \<noteq> [] \<and> mc_PrebuildAvailability m \<noteq> ''none''
       then ''prebuild: '' @ mc_PrebuildAvailability m else [])\<rparr>"

definition no_machine_target :: goerr where
  "no_machine_target = Errorf (utf8 [0x4E0D, 0x77E5, 0x9053, 0x8981, 0x67E5, 0x54EA, 0x4E2A, 0x4ED3, 0x5E93, 0x7684, 0x673A, 0x5668, 0x89C4, 0x683C, 0xFF1A, 0x52A0, 0x4E2A, 0x53C2, 0x6570, 0xFF08] @ ''owner/name'' @ utf8 [0xFF09, 0x6216, 0x8005, 0x8BBE, 0x7F6E] @ '' github.create.repository'')"

definition machine_target :: "string \<Rightarrow> gh_provider \<Rightarrow> string \<times> gh_provider" where
  "machine_target target p =
    (let t1 = (if target = [] then cc_Repository (gf_Create (gp_cfg p)) else target)
     in if t1 = [] then
          (case recallSource (gf_Codespace (gp_cfg p)) p of
             ((src, ok), p1) \<Rightarrow> (if ok then es_Repository src else [], p1))
        else (t1, p))"

definition Machines ::
  "'w net \<Rightarrow> ctx \<Rightarrow> string \<Rightarrow> gh_provider \<Rightarrow> 'w \<Rightarrow> (goerr + machine_type list) \<times> gh_provider \<times> 'w" where
  "Machines N x target p w =
    (case machine_target target p of
       (t, p1) \<Rightarrow>
         if t = [] then (Inl no_machine_target, p1, w)
         else (case listMachines N (gp_api p) x t w of
                 (Inl e, w1) \<Rightarrow> (Inl e, p1, w1)
               | (Inr ms, w1) \<Rightarrow> (Inr (map machine_type_of ms), p1, w1)))"

definition source_detail :: "repository \<Rightarrow> string" where
  "source_detail r =
    utf8 [0x5206, 0x652F] @ '' '' @ rp_DefaultBranch r @
    (if rp_Private r then utf8 [0xFF0C, 0x79C1, 0x6709] else []) @
    (if length (rp_PushedAt r) \<ge> 10 then
       utf8 [0xFF0C, 0x6700, 0x8FD1, 0x63A8, 0x9001] @ '' '' @ take 10 (rp_PushedAt r) else [])"

definition CreateSources ::
  "'w net \<Rightarrow> ctx \<Rightarrow> int \<Rightarrow> gh_provider \<Rightarrow> 'w \<Rightarrow> (goerr + (string \<times> string) list) \<times> 'w" where
  "CreateSources N x limit p w =
    (case userRepositories N (gp_api p) x limit w of
       (Inl e, w1) \<Rightarrow> (Inl e, w1)
     | (Inr rs, w1) \<Rightarrow> (Inr (map (\<lambda>r. (rp_FullName r, source_detail r)) rs), w1))"

definition ForgetHostKey :: "string \<Rightarrow> gh_provider \<Rightarrow> (goerr + nat) \<times> gh_provider" where
  "ForgetHostKey name p = (case hk_forget name (gp_hostKeys p) of (r, f) \<Rightarrow> (r, p\<lparr>gp_hostKeys := f\<rparr>))"

end
