(* ===== verification/GithubProviderSpec.thy ===== *)
theory GithubProviderSpec
  imports GithubProvider GithubApiSpec
begin

text \<open>
  Properties of the GitHub provider: what construction guarantees, that a deleted codespace can be
  rebuilt from memory, that the order of create options does not matter, and that \<open>Start\<close>
  returns.
\<close>

section \<open>Remembering under several names\<close>

lemma remember_names_result:
  assumes "remember_names src names ch m = (ch', m')" and "es_Repository src \<noteq> []"
    and "distinct (map fst m)"
  shows "distinct (map fst m') \<and> (ch \<longrightarrow> ch') \<and> (\<not> ch' \<longrightarrow> m' = m) \<and>
    map_of m' = (\<lambda>k. if k \<in> set names \<and> k \<noteq> [] then Some src else map_of m k)"
  using assms
proof (induction names arbitrary: ch m)
  case Nil
  then show ?case by auto
next
  case (Cons n ns)
  show ?case
  proof (cases "n = []")
    case True
    with Cons.prems have "remember_names src ns ch m = (ch', m')" by simp
    note IH = Cons.IH [OF this Cons.prems(2,3)]
    have "k \<in> set (n # ns) \<and> k \<noteq> [] \<longleftrightarrow> k \<in> set ns \<and> k \<noteq> []" for k using True by auto
    with IH show ?thesis by simp
  next
    case False
    note n = this
    show ?thesis
    proof (cases "getz m n no_source = src")
      case True
      with n Cons.prems have "remember_names src ns ch m = (ch', m')" by simp
      note IH = Cons.IH [OF this Cons.prems(2,3)]
      have "map_of m n = Some src"
        using True Cons.prems(2) by (auto simp: getz_def no_source_def split: option.splits)
      then have "(if k \<in> set ns \<and> k \<noteq> [] then Some src else map_of m k) =
          (if k \<in> set (n # ns) \<and> k \<noteq> [] then Some src else map_of m k)" for k by auto
      with IH show ?thesis by simp
    next
      case False
      with n Cons.prems have "remember_names src ns True (AList.update n src m) = (ch', m')" by simp
      note IH = Cons.IH [OF this Cons.prems(2)]
      have "(if k \<in> set ns \<and> k \<noteq> [] then Some src else map_of (AList.update n src m) k) =
          (if k \<in> set (n # ns) \<and> k \<noteq> [] then Some src else map_of m k)" for k using n by simp
      with IH Cons.prems(3) show ?thesis by simp
    qed
  qed
qed

lemma sc_remember_many:
  assumes "sc_good c" and "es_Repository src \<noteq> []" and "ascii_source src" and "\<forall>k\<in>set names. ascii k"
  shows "sc_good (sc_remember src names c) \<and>
    sc_find k (sc_remember src names c) = (if k \<in> set names \<and> k \<noteq> [] then Some src else sc_find k c)"
proof -
  let ?l = "sc_load c"
  have g: "sc_good ?l" using sc_load_good [OF assms(1)] .
  obtain ch m where r: "remember_names src names False (sc_entries ?l) = (ch, m)" by fastforce
  have d: "distinct (map fst (sc_entries ?l))" using g by (simp add: sc_good_def)
  note R = remember_names_result [OF r assms(2) d]
  let ?n = "?l\<lparr>sc_entries := m\<rparr>"
  have eq: "sc_remember src names c = (if ch then sc_flush ?n else ?l)"
    using assms(2) r R by (simp add: sc_remember_def Let_def)
  have ok: "\<forall>(a, b)\<in>set m. ascii a \<and> ascii_source b"
  proof (intro ballI, clarify)
    fix a b
    assume "(a, b) \<in> set m"
    then have "map_of m a = Some b" using map_of_iff [of m a b] R by blast
    then have "a \<in> set names \<and> b = src \<or> (a, b) \<in> set (sc_entries ?l)"
      using R map_of_iff [OF d, of a b] by (cases "a \<in> set names \<and> a \<noteq> []") simp_all
    then show "ascii a \<and> ascii_source b" using assms(3,4) g by (auto simp: sc_good_def)
  qed
  have good: "sc_good (sc_remember src names c)"
  proof (cases ch)
    case True
    have "sc_good (sc_flush ?n)" using g R ok by (intro sc_flush_good) (simp_all add: sc_good_def)
    with True eq show ?thesis by simp
  next
    case False
    with eq g show ?thesis by simp
  qed
  have loaded: "sc_load (sc_remember src names c) = sc_remember src names c"
    unfolding eq by (simp add: sc_load_def sc_flush_def)
  have "sc_entries (sc_remember src names c) = m" using R unfolding eq by (simp add: sc_flush_def)
  then have "sc_find k (sc_remember src names c) = (if k \<in> set names \<and> k \<noteq> [] then Some src else sc_find k c)"
    using R assms(2) loaded by (simp add: sc_find_eq)
  with good show ?thesis by simp
qed

section \<open>Rebuilding from memory\<close>

text \<open>The codespace a handle stands for, as \<open>Get\<close> looks it up.\<close>

definition handle_codespace :: "'w net \<Rightarrow> api_client \<Rightarrow> ctx \<Rightarrow> string \<Rightarrow> 'w \<Rightarrow> codespace option" where
  "handle_codespace N c x h w =
    (case getCodespace N c x h w of
       (Inr g, _) \<Rightarrow> Some g
     | (Inl e, w1) \<Rightarrow>
        if errors_Is e ErrNotFound then
          (case listCodespaces N c x w1 of
             (Inr l, _) \<Rightarrow> find (\<lambda>g. EqualFold (gc_DisplayName g) h) l | (Inl _, _) \<Rightarrow> None)
        else None)"

lemma gh_Get_found:
  assumes "handle_codespace N (gp_api p) x h w = Some g" and "h \<noteq> []"
  shows "\<exists>w1. gh_Get N x h p w = (Inr (codespace_environment g), rememberSource g [h] p, w1)"
  using assms by (auto simp: handle_codespace_def gh_Get_def split: prod.splits sum.splits if_splits)

lemma gh_Get_not_found:
  assumes "handle_codespace N (gp_api p) x h w = None" and "h \<noteq> []"
  shows "\<exists>e w1. gh_Get N x h p w = (Inl e, p, w1)"
  using assms by (auto simp: handle_codespace_def gh_Get_def split: prod.splits sum.splits if_splits option.splits)

lemma recall_found:
  assumes "sc_find h (gp_sources p) = Some src"
  shows "fst (recallSource h p) = (src, True)"
  using assms by (auto simp: recallSource_def sc_find_def split: prod.splits if_splits)

fun restarts :: "nat \<Rightarrow> gh_provider \<Rightarrow> gh_provider" where
  "restarts 0 p = p"
| "restarts (Suc n) p = restarts n (p\<lparr>gp_sources := sc_reopen (gp_sources p)\<rparr>)"

lemma restarts_sources:
  "sc_good (gp_sources p) \<Longrightarrow> sc_find h (gp_sources (restarts n p)) = sc_find h (gp_sources p) \<and>
    gp_cfg (restarts n p) = gp_cfg p"
  by (induction n arbitrary: p) (simp_all add: sources.get_reopen sources.reopen_good)

text \<open>
  C15: Deleting a codespace and connecting again rebuilds it. If \<open>Get\<close> has once resolved a handle to
  a codespace with a repository, then after any number of restarts of the gateway \<open>Create\<close> for
  that handle, with no repository configured and no options, builds from that repository, and
  its branch, machine, location and container path are the configured ones where set and
  those of the old codespace otherwise.
\<close>

theorem rebuild_from_memory:
  assumes "sc_good (gp_sources p)" and "h \<noteq> []"
    and "handle_codespace N (gp_api p) x h w = Some g"
    and "gc_RepositoryFullName g \<noteq> []" and "cc_Repository (gf_Create (gp_cfg p)) = []"
    and "ascii_source (source_of g)" and "ascii h" and "ascii (gc_Name g)" and "ascii (gc_DisplayName g)"
  shows "\<exists>cfg. fst (create_from \<lparr>cs_Name = h, cs_Options = []\<rparr> (restarts n (fst (snd (gh_Get N x h p w))))) = Inr cfg \<and>
    cc_Repository cfg = gc_RepositoryFullName g \<and>
    cc_Branch cfg = (if cc_Branch (gf_Create (gp_cfg p)) = [] then gc_GitRef g else cc_Branch (gf_Create (gp_cfg p))) \<and>
    cc_Machine cfg = (if cc_Machine (gf_Create (gp_cfg p)) = [] then gc_MachineName g
      else cc_Machine (gf_Create (gp_cfg p))) \<and>
    cc_Location cfg = (if cc_Location (gf_Create (gp_cfg p)) = [] then gc_Location g
      else cc_Location (gf_Create (gp_cfg p))) \<and>
    cc_DevcontainerPath cfg = (if cc_DevcontainerPath (gf_Create (gp_cfg p)) = [] then gc_DevContainerPath g
      else cc_DevcontainerPath (gf_Create (gp_cfg p)))"
proof -
  let ?p1 = "rememberSource g [h] p" and ?src = "source_of g"
  have get: "fst (snd (gh_Get N x h p w)) = ?p1" using gh_Get_found [OF assms(3,2)] by auto
  have repo: "es_Repository ?src \<noteq> []" using assms(4) by (simp add: source_of_def)
  have "sc_good (gp_sources ?p1) \<and> sc_find h (gp_sources ?p1) = Some ?src"
    using sc_remember_many [OF assms(1) repo assms(6), of "[gc_Name g, gc_DisplayName g, h]" h] assms(2,7,8,9)
    by (simp add: rememberSource_def)
  then have f: "sc_find h (gp_sources (restarts n ?p1)) = Some ?src" and c: "gp_cfg (restarts n ?p1) = gp_cfg p"
    using restarts_sources [of ?p1 h n] by (simp_all add: rememberSource_def)
  have "fst (create_from \<lparr>cs_Name = h, cs_Options = []\<rparr> (restarts n ?p1)) = Inr (source_merge ?src (gf_Create (gp_cfg p)))"
    using recall_found [OF f] assms(5) repo c
    by (auto simp: create_from_def mergeCreateOptions_def source_merge_def split: prod.splits)
  then show ?thesis unfolding get using assms(5) by (simp add: source_merge_def source_of_def)
qed


text \<open>A network that answers every request with one JSON value.\<close>

definition json_net :: "json \<Rightarrow> nat net" where
  "json_net j = (answer_net \<lparr>hr_Status = 200, hr_Header = [], hr_Body = json_print j, hr_BodyErr = None\<rparr>)
     \<lparr>n_sel := (\<lambda>x t w. (None, max w (nat t)))\<rparr>"

lemma json_net_get:
  assumes "json_ok j" and "length (json_print j) \<le> maxBody" and "json_print j \<noteq> []"
    and "into_codespace no_codespace j = Some g"
  shows "getCodespace (json_net j) c x h w = (Inr g, w + 1)"
proof -
  let ?r = "\<lparr>hr_Status = 200, hr_Header = [], hr_Body = json_print j, hr_BodyErr = None\<rparr>"
  have "read_limited maxBody ?r = Inr (json_print j)"
    using assms(2) by (cases "length (json_print j) = maxBody") (simp_all add: read_limited_def)
  then show ?thesis
    using assms by (simp add: getCodespace_def json_net_def answer_net_def api_do_def maxAttempts_def numeral_3_eq_3
        attempt_once_def newRequest_def decode_answer_def unmarshal_def json_parse_print)
qed

definition box_json :: json where
  "box_json = JObj [(''name'', JStr ''box''), (''repository'', JObj [(''full_name'', JStr ''o/r'')]),
     (''git_status'', JObj [(''ref'', JStr ''main'')])]"

definition box_codespace :: codespace where
  "box_codespace = no_codespace\<lparr>gc_Name := ''box'', gc_RepositoryFullName := ''o/r'', gc_GitRef := ''main''\<rparr>"

lemma box_get: "getCodespace (json_net box_json) c x h w = (Inr box_codespace, w + 1)"
proof (rule json_net_get)
  show "json_ok box_json" by (simp add: box_json_def ascii_def byte_def)
  have "length (json_print box_json) < 200"
    by (simp add: box_json_def json_print_def json_string_def json_ascii_def byte_def Let_def)
  then show "length (json_print box_json) \<le> maxBody" by (simp add: maxBody_def)
  show "json_print box_json \<noteq> []" by (simp add: box_json_def json_print_def)
  show "into_codespace no_codespace box_json = Some box_codespace"
    by (simp add: box_json_def box_codespace_def into_codespace_def into_struct_def into_codespace_field_def
        into_repository_part_def into_git_part_def into_string_def EqualFold_def ToLower_def lower_char_def
        no_codespace_def)
qed

definition provider0 :: gh_provider where
  "provider0 = \<lparr>gp_cfg = no_config, gp_api = client0, gp_gh = \<lparr>gh_path = ''/usr/bin/gh'', gh_token = Some ''t'', gh_apiURL = []\<rparr>,
     gp_keys = \<lparr>kp_PrivatePath = ''k'', kp_PublicPath = ''k.pub'', kp_fingerprint = ''f''\<rparr>,
     gp_hostKeys = fresh_file, gp_users = newUserCache fresh_file, gp_sources = newSourceCache fresh_file,
     gp_tokenSrc = TokenFromConfig, gp_ghErr = None, gp_connector = ''auto'', gp_told = []\<rparr>"

lemma fresh_sources: "sc_good (newSourceCache fresh_file)"
  by (simp add: sc_good_def newSourceCache_def sc_load_def fresh_file_def read_map_def add_all_def)

lemma rebuild_from_memory_witness:
  "\<exists>cfg. fst (create_from \<lparr>cs_Name = ''mine'', cs_Options = []\<rparr>
      (restarts 2 (fst (snd (gh_Get (json_net box_json) ctx_free ''mine'' provider0 0))))) = Inr cfg \<and>
    cc_Repository cfg = ''o/r'' \<and> cc_Branch cfg = ''main''"
proof -
  have "handle_codespace (json_net box_json) (gp_api provider0) ctx_free ''mine'' 0 = Some box_codespace"
    by (simp add: handle_codespace_def box_get)
  from rebuild_from_memory [OF _ _ this, of 2] show ?thesis
    by (fastforce simp: provider0_def fresh_sources box_codespace_def no_codespace_def no_config_def no_create_def
        ascii_source_def source_of_def ascii_def byte_def)
qed

section \<open>Starting returns\<close>

text \<open>
  What the waiting loop needs of time: the clock does not go back, and a timer that fires has
  not fired early.
\<close>

definition net_clock :: "'w net \<Rightarrow> bool" where
  "net_clock N \<longleftrightarrow> (\<forall>x q w. n_now N w \<le> n_now N (snd (n_http N x q w))) \<and>
     (\<forall>x t w. n_now N w \<le> n_now N (snd (n_sel N x t w))) \<and>
     (\<forall>x t w w'. n_sel N x t w = (None, w') \<longrightarrow> t \<le> n_now N w')"

lemma attempt_clock:
  "net_clock N \<Longrightarrow> n_now N w \<le> n_now N (snd (attempt_once N c x meth path body dec z final w))"
  unfolding attempt_once_def net_clock_def Let_def
  by (auto split: sum.splits prod.splits option.splits if_splits) (metis snd_conv)+

lemma do_from_clock:
  "net_clock N \<Longrightarrow> n_now N w \<le> n_now N (snd (do_from N c x meth path body dec z n a e w))"
proof (induction n arbitrary: a e w)
  case 0
  then show ?case by simp
next
  case (Suc n)
  obtain s w1 where sel: "(if a > 1 then n_sel N x (n_now N w + backoffFor e a) w else (None, w)) = (s, w1)"
    by fastforce
  have t1: "n_now N w \<le> n_now N w1"
    using sel Suc.prems unfolding net_clock_def by (metis order_refl snd_conv)
  obtain r w2 where att: "attempt_once N c x meth path body dec z (a = maxAttempts) w1 = (r, w2)" by fastforce
  have t2: "n_now N w1 \<le> n_now N w2" using attempt_clock [OF Suc.prems] att by (metis snd_conv)
  show ?case
  proof (cases s)
    case (Some e')
    with sel t1 show ?thesis by simp
  next
    case None
    show ?thesis
    proof (cases r)
      case (Inl r')
      with sel att None t1 t2 show ?thesis by simp
    next
      case (Inr e')
      have "n_now N w2 \<le> n_now N (snd (do_from N c x meth path body dec z n (a + 1) e' w2))"
        using Suc.IH [OF Suc.prems] .
      with sel att None Inr t1 t2 show ?thesis by simp
    qed
  qed
qed

lemma getCodespace_clock: "net_clock N \<Longrightarrow> getCodespace N c x h w = (r, w') \<Longrightarrow> n_now N w \<le> n_now N w'"
  using do_from_clock [of N w c x "''GET''" "codespace_path h" None
      "Some (unmarshal into_codespace no_codespace)" no_codespace maxAttempts 1 "Errorf []"]
  by (auto simp: getCodespace_def api_do_def split: prod.splits)

lemma await_round_next:
  assumes "net_clock N" and "await_round N c x h deadline w = Inl w'"
  shows "n_now N w + 5 * second \<le> n_now N w' \<and> n_now N w \<le> deadline"
proof -
  obtain r w1 where g: "getCodespace N c x h w = (r, w1)" by fastforce
  have t: "n_now N w \<le> n_now N w1" using getCodespace_clock [OF assms(1) g] .
  obtain s w2 where s: "n_sel N x (n_now N w1 + 5 * second) w1 = (s, w2)" by fastforce
  have "s = None" "w2 = w'" "n_now N w1 \<le> deadline"
    using assms(2) g s by (auto simp: await_round_def split: sum.splits if_splits option.splits)
  moreover from this s assms(1) have "n_now N w1 + 5 * second \<le> n_now N w'" by (auto simp: net_clock_def)
  ultimately show ?thesis using t by simp
qed

lemma await_returns:
  assumes "net_clock N"
  shows "\<exists>r. forever (await_round N c x h deadline) w = Some r"
proof (rule forever_terminates [where Q = "\<lambda>_. True" and R = "measure (\<lambda>w. nat (deadline + 5 * second - n_now N w))"])
  fix w w'
  assume "await_round N c x h deadline w = Inl w'"
  from await_round_next [OF assms this]
  show "True \<and> (w', w) \<in> measure (\<lambda>w. nat (deadline + 5 * second - n_now N w))"
    by (simp add: second_def)
qed simp_all

lemma await_clear:
  assumes "forever (await_round N c x h deadline) w = Some (None, w')"
  shows "\<exists>w0 g. getCodespace N c x h w0 = (Inr g, w') \<and> \<not> gc_PendingOperation g"
proof -
  have "r = (None, w') \<longrightarrow> (\<exists>w0 g. getCodespace N c x h w0 = (Inr g, w') \<and> \<not> gc_PendingOperation g)"
    if "forever (await_round N c x h deadline) s = Some r" for s r
    using that
  proof (induction rule: forever_induct)
    case (returns s r)
    show ?case
    proof
      assume r: "r = (None, w')"
      show "\<exists>w0 g. getCodespace N c x h w0 = (Inr g, w') \<and> \<not> gc_PendingOperation g"
        using returns r
        by (auto simp: await_round_def split: prod.splits sum.splits if_splits option.splits)
    qed
  qed simp
  with assms show ?thesis by blast
qed

text \<open>
  C21: \<open>Start\<close> returns, and waits out other operations first. Whatever GitHub answers and however
  long an operation stays pending, the loop of \<open>awaitNoPendingOperation\<close> ends when the clock does
  not go back and timers do not fire early; and when \<open>Start\<close> succeeds, the last answer before
  the start request showed the codespace without a pending operation.
\<close>

theorem start_returns:
  assumes "net_clock N"
  shows "\<exists>r w'. gh_Start N x h p w = Some (r, w') \<and>
    (r = None \<longrightarrow> (\<exists>w0 g w1. getCodespace N (gp_api p) x h w0 = (Inr g, w1) \<and> \<not> gc_PendingOperation g \<and>
       startCodespace N (gp_api p) x h w1 = (None, w')))"
proof -
  obtain r w1 where a: "awaitNoPendingOperation N (gp_api p) x h w = Some (r, w1)"
    using await_returns [OF assms, of "gp_api p" x h "n_now N w + 120 * second" w]
    by (auto simp: awaitNoPendingOperation_def)
  show ?thesis
  proof (cases r)
    case (Some e)
    with a show ?thesis by (simp add: gh_Start_def)
  next
    case None
    obtain r2 w2 where s: "startCodespace N (gp_api p) x h w1 = (r2, w2)" by fastforce
    obtain w0 g where "getCodespace N (gp_api p) x h w0 = (Inr g, w1)" "\<not> gc_PendingOperation g"
      using await_clear [of N "gp_api p" x h _ w w1] a None unfolding awaitNoPendingOperation_def by blast
    with a None s show ?thesis by (auto simp: gh_Start_def)
  qed
qed

lemma start_returns_witness: "\<exists>r. gh_Start (json_net box_json) ctx_free ''box'' provider0 0 = Some r"
proof -
  have "net_clock (json_net box_json)" by (auto simp: net_clock_def json_net_def answer_net_def)
  from start_returns [OF this] show ?thesis by blast
qed


section \<open>The order of create options\<close>

text \<open>
  A create option either fails or sets one field; options for different fields can be taken in
  either order.
\<close>

datatype create_field =
  FRepository | FBranch | FMachine | FLocation | FDevcontainer | FDisplay | FIdle | FRetention

definition key_field :: "string \<Rightarrow> create_field option" where
  "key_field k =
    (if k = ''repository'' then Some FRepository
     else if k = ''branch'' \<or> k = ''ref'' then Some FBranch
     else if k = ''machine'' then Some FMachine
     else if k = ''location'' then Some FLocation
     else if k = ''devcontainer_path'' then Some FDevcontainer
     else if k = ''display_name'' then Some FDisplay
     else if k = ''idle_timeout_minutes'' then Some FIdle
     else if k = ''retention_period_minutes'' then Some FRetention
     else None)"

fun set_field :: "create_field \<Rightarrow> string \<Rightarrow> int \<Rightarrow> create_config \<Rightarrow> create_config" where
  "set_field FRepository s n cfg = cfg\<lparr>cc_Repository := s\<rparr>"
| "set_field FBranch s n cfg = cfg\<lparr>cc_Branch := s\<rparr>"
| "set_field FMachine s n cfg = cfg\<lparr>cc_Machine := s\<rparr>"
| "set_field FLocation s n cfg = cfg\<lparr>cc_Location := s\<rparr>"
| "set_field FDevcontainer s n cfg = cfg\<lparr>cc_DevcontainerPath := s\<rparr>"
| "set_field FDisplay s n cfg = cfg\<lparr>cc_DisplayName := s\<rparr>"
| "set_field FIdle s n cfg = cfg\<lparr>cc_IdleTimeoutMinutes := n\<rparr>"
| "set_field FRetention s n cfg = cfg\<lparr>cc_RetentionPeriodMinutes := n\<rparr>"

definition option_ok :: "string \<times> anyval \<Rightarrow> bool" where
  "option_ok o1 \<longleftrightarrow> (case key_field (fst o1) of
     None \<Rightarrow> False | Some f \<Rightarrow> f \<in> {FIdle, FRetention} \<longrightarrow> is_ok (asInt (snd o1)))"

definition option_set :: "string \<times> anyval \<Rightarrow> create_config \<Rightarrow> create_config" where
  "option_set o1 =
    (case key_field (fst o1) of
       None \<Rightarrow> id
     | Some f \<Rightarrow> set_field f (any_text (snd o1)) (case asInt (snd o1) of Inr n \<Rightarrow> n | Inl _ \<Rightarrow> 0))"

lemma create_option_eq:
  "option_ok (k, raw) \<Longrightarrow> create_option k raw cfg = Inr (option_set (k, raw) cfg)"
  "\<not> option_ok (k, raw) \<Longrightarrow> \<exists>e. create_option k raw cfg = Inl e"
proof -
  have cases: "option_ok (k, raw) \<and> create_option k raw cfg = Inr (option_set (k, raw) cfg) \<or>
    \<not> option_ok (k, raw) \<and> (\<exists>e. create_option k raw cfg = Inl e)"
    unfolding option_ok_def option_set_def create_option_def key_field_def fst_conv snd_conv
    apply (cases "k = ''repository''", simp)
    apply (cases "k = ''branch''", simp, cases "k = ''ref''", simp)
    apply (cases "k = ''machine''", simp, cases "k = ''location''", simp)
    apply (cases "k = ''devcontainer_path''", simp, cases "k = ''display_name''", simp)
    apply (cases "k = ''idle_timeout_minutes''", simp split: sum.split)
    apply (cases "k = ''retention_period_minutes''", simp split: sum.split)
    apply simp
    done
  then show "option_ok (k, raw) \<Longrightarrow> create_option k raw cfg = Inr (option_set (k, raw) cfg)"
    "\<not> option_ok (k, raw) \<Longrightarrow> \<exists>e. create_option k raw cfg = Inl e" by blast+
qed

lemma create_options_eq:
  "create_options opts cfg = Inr out \<longleftrightarrow> (\<forall>o1\<in>set opts. option_ok o1) \<and> out = fold option_set opts cfg"
proof (induction opts cfg rule: create_options.induct)
  case (1 cfg)
  then show ?case by auto
next
  case (2 k raw opts cfg)
  show ?case
  proof (cases "option_ok (k, raw)")
    case True
    with 2 create_option_eq(1) [OF True, of cfg] show ?thesis by simp
  next
    case False
    with create_option_eq(2) [OF False, of cfg] show ?thesis by auto
  qed
qed

lemma set_field_commute:
  "f \<noteq> f' \<Longrightarrow> set_field f s n (set_field f' s' n' cfg) = set_field f' s' n' (set_field f s n cfg)"
  by (cases f; cases f') simp_all

lemma option_set_commute:
  assumes "key_field (fst a) \<noteq> key_field (fst b) \<or> key_field (fst a) = None"
  shows "option_set a \<circ> option_set b = option_set b \<circ> option_set a"
  using assms set_field_commute
  by (cases "key_field (fst a)"; cases "key_field (fst b)") (auto simp: option_set_def fun_eq_iff)

lemma key_field_eq:
  "key_field k = key_field k' \<Longrightarrow> key_field k \<noteq> None \<Longrightarrow> k = k' \<or> {k, k'} = {''branch'', ''ref''}"
proof -
  have inv: "key_field k = Some f \<Longrightarrow> k = (case f of FRepository \<Rightarrow> ''repository'' | FBranch \<Rightarrow> (if k = ''branch'' then k else ''ref'')
      | FMachine \<Rightarrow> ''machine'' | FLocation \<Rightarrow> ''location'' | FDevcontainer \<Rightarrow> ''devcontainer_path''
      | FDisplay \<Rightarrow> ''display_name'' | FIdle \<Rightarrow> ''idle_timeout_minutes'' | FRetention \<Rightarrow> ''retention_period_minutes'')"
    for k f
    unfolding key_field_def
    apply (cases "k = ''repository''", clarsimp)
    apply (cases "k = ''branch''", clarsimp, cases "k = ''ref''", clarsimp)
    apply (cases "k = ''machine''", clarsimp, cases "k = ''location''", clarsimp)
    apply (cases "k = ''devcontainer_path''", clarsimp, cases "k = ''display_name''", clarsimp)
    apply (cases "k = ''idle_timeout_minutes''", clarsimp)
    apply (cases "k = ''retention_period_minutes''", clarsimp)
    apply simp
    done
  assume e: "key_field k = key_field k'" and "key_field k \<noteq> None"
  then obtain f where f: "key_field k = Some f" "key_field k' = Some f" by auto
  note k = inv [OF f(1)] and k' = inv [OF f(2)]
  show ?thesis
  proof (cases "f = FBranch")
    case True
    note k = k [unfolded True create_field.case] and k' = k' [unfolded True create_field.case]
    show ?thesis
      by (cases "k = ''branch''"; cases "k' = ''branch''") (use k k' in \<open>simp_all only: if_False simp_thms insert_commute\<close>)
  next
    case False
    have "k = k'" using False k k' by (cases f) (simp_all only: create_field.case simp_thms)
    then show ?thesis ..
  qed
qed

text \<open>
  The order in which Go ranges over the create options does not matter, as long as they do not
  set the branch twice (\<open>branch\<close> and \<open>ref\<close> are two names of it): two orders of the same options
  are both refused, or both accepted with the same parameters.
\<close>

theorem merge_options_order:
  assumes "mset opts = mset opts'" and "distinct (map fst opts)"
    and "\<not> ({''branch'', ''ref''} \<subseteq> fst ` set opts)"
  shows "mergeCreateOptions base opts = Inr out \<longleftrightarrow> mergeCreateOptions base opts' = Inr out"
proof -
  have d: "option_set a \<circ> option_set b = option_set b \<circ> option_set a" if "a \<in> set opts" "b \<in> set opts" for a b
  proof (cases "a = b")
    case False
    then have "fst a \<noteq> fst b" using that assms(2) by (auto simp: distinct_map inj_on_def)
    moreover have "{fst a, fst b} \<noteq> {''branch'', ''ref''}" using that assms(3) by (metis empty_subsetI imageI insert_subset)
    ultimately show ?thesis using key_field_eq [of "fst a" "fst b"] by (intro option_set_commute) blast
  qed simp
  have "fold option_set opts base = fold option_set opts' base"
    by (rule fun_cong [OF fold_multiset_equiv]) (use d assms(1) in auto)
  moreover have "set opts = set opts'" using assms(1) by (rule mset_eq_setD)
  ultimately have same: "create_options opts base = Inr c \<longleftrightarrow> create_options opts' base = Inr c" for c
    by (simp add: create_options_eq)
  show ?thesis
  proof (cases "create_options opts base")
    case (Inr c)
    with same [of c] show ?thesis by (simp add: mergeCreateOptions_def)
  next
    case (Inl e)
    then obtain e' where "create_options opts' base = Inl e'" using same by (metis Inr_Inl_False sumE)
    with Inl show ?thesis by (simp add: mergeCreateOptions_def)
  qed
qed

lemma merge_options_order_witness:
  "\<exists>out. mergeCreateOptions no_create [(''machine'', AnyString ''m''), (''branch'', AnyString ''b'')] = Inr out \<and>
    mergeCreateOptions no_create [(''branch'', AnyString ''b''), (''machine'', AnyString ''m'')] = Inr out"
proof -
  let ?o = "[(''machine'', AnyString ''m''), (''branch'', AnyString ''b'')]"
  let ?o' = "[(''branch'', AnyString ''b''), (''machine'', AnyString ''m'')]"
  obtain out where "mergeCreateOptions no_create ?o = Inr out"
    by (simp add: mergeCreateOptions_def create_option_def no_create_def)
  moreover from this merge_options_order [of ?o ?o' no_create out] have "mergeCreateOptions no_create ?o' = Inr out"
    by simp
  ultimately show ?thesis by blast
qed


section \<open>What construction guarantees\<close>

definition github_config_ok :: "github_config \<Rightarrow> bool" where
  "github_config_ok c \<longleftrightarrow>
     (HasPrefix (gf_APIURL c) ''https://'' \<or> HasPrefix (gf_APIURL c) ''http://'') \<and>
     gf_Connector c \<in> {''auto'', ''stdio'', ''exec''} \<and> gf_HostKeyPolicy c \<in> {''tofu'', ''strict'', ''insecure''} \<and>
     0 < gf_RequestTimeout c \<and>
     (cc_IdleTimeoutMinutes (gf_Create c) = 0 \<or> cc_IdleTimeoutMinutes (gf_Create c) \<in> {5..240}) \<and>
     (cc_Repository (gf_Create c) = [] \<or> count_char (CHR ''/'') (cc_Repository (gf_Create c)) = 1)"

lemma guard_passed: "(if b then (Some e, x) else r) = (None, y) \<Longrightarrow> \<not> b \<and> r = (None, y)"
  by (simp split: if_splits)

lemma applyDefaults_ok:
  assumes "applyDefaults c0 = (None, c)"
  shows "github_config_ok c"
proof -
  define c1 where "c1 = (if gf_APIURL c0 = [] then c0\<lparr>gf_APIURL := defaultAPIURL\<rparr> else c0)"
  define c2 where "c2 = c1\<lparr>gf_APIURL := TrimSuffix (TrimSpace (gf_APIURL c1)) ''/''\<rparr>"
  define c3 where "c3 = (if gf_Connector c2 = [] then c2\<lparr>gf_Connector := ''auto''\<rparr> else c2)"
  define c4 where "c4 = (if gf_HostKeyPolicy c3 = [] then c3\<lparr>gf_HostKeyPolicy := ''tofu''\<rparr> else c3)"
  define c5 where "c5 = (if gf_RequestTimeout c4 \<le> 0 then c4\<lparr>gf_RequestTimeout := 30 * second\<rparr> else c4)"
  note steps = assms [unfolded applyDefaults_def Let_def, folded c1_def, folded c2_def, folded c3_def, folded c4_def,
      folded c5_def]
  note s1 = guard_passed [OF steps]
  note s2 = guard_passed [OF s1 [THEN conjunct2]]
  note s3 = guard_passed [OF s2 [THEN conjunct2]]
  note s4 = guard_passed [OF s3 [THEN conjunct2]]
  note s5 = guard_passed [OF s4 [THEN conjunct2]]
  have url: "HasPrefix (gf_APIURL c2) ''https://'' \<or> HasPrefix (gf_APIURL c2) ''http://''"
    using s1 [THEN conjunct1] by simp
  have con: "gf_Connector c2 \<in> {[], ''auto'', ''stdio'', ''exec''}" using s2 [THEN conjunct1] by simp
  have pol: "gf_HostKeyPolicy c3 \<in> {[], ''tofu'', ''strict'', ''insecure''}" using s3 [THEN conjunct1] by simp
  have c: "c5 = c" "cc_IdleTimeoutMinutes (gf_Create c5) = 0 \<or> cc_IdleTimeoutMinutes (gf_Create c5) \<in> {5..240}"
    "cc_Repository (gf_Create c5) = [] \<or> count_char (CHR ''/'') (cc_Repository (gf_Create c5)) = 1"
    using s4 [THEN conjunct1] s5 by auto
  have "gf_APIURL c5 = gf_APIURL c2" by (simp add: c5_def c4_def c3_def)
  moreover have "gf_Connector c5 = gf_Connector c3" by (simp add: c5_def c4_def)
  moreover have "gf_Connector c3 \<in> {''auto'', ''stdio'', ''exec''}"
    using con by (cases "gf_Connector c2 = []") (simp_all add: c3_def)
  moreover have "gf_HostKeyPolicy c5 \<in> {''tofu'', ''strict'', ''insecure''}"
    using pol by (cases "gf_HostKeyPolicy c3 = []") (simp_all add: c5_def c4_def)
  moreover have "0 < gf_RequestTimeout c5" by (simp add: c5_def second_def)
  ultimately show ?thesis unfolding github_config_ok_def using c url by metis
qed

lemma resolveToken_nonempty:
  assumes "resolveToken c tp = Inr (tok, src)"
  shows "Reveal tok \<noteq> []"
proof -
  let ?envs = "filter (\<lambda>v. v \<noteq> []) (map (\<lambda>n. TrimSpace (tp_env tp n)) [''GITHUB_TOKEN'', ''GH_TOKEN''])"
  have env: "TrimSpace v \<noteq> []" if "?envs = v # vs" for v vs
  proof -
    have "v \<in> set ?envs" unfolding that by simp
    then have "v \<noteq> [] \<and> (\<exists>u. v = TrimSpace u)" unfolding set_filter set_map by blast
    then show ?thesis by auto
  qed
  obtain envs where envs: "?envs = envs" by simp
  note r = assms [unfolded resolveToken_def envs]
  show ?thesis
  proof (cases "Empty (gf_Token c)")
    case False
    with r show ?thesis by (simp add: Empty_def)
  next
    case True
    show ?thesis
    proof (cases "gf_TokenFile c = []")
      case False
      with True r show ?thesis by (cases "tp_file tp") (auto simp: Empty_def secret_New_def split: if_splits)
    next
      case None: True
      show ?thesis
      proof (cases envs)
        case Nil
        with True None r show ?thesis
          by (simp add: Empty_def split: option.splits sum.splits if_splits)
      next
        case (Cons v vs)
        have "TrimSpace v \<noteq> []" using env envs Cons by blast
        with True None r Cons show ?thesis by (auto simp: secret_New_def)
      qed
    qed
  qed
qed

lemma token_from_nonempty:
  assumes "token_from T g x cfg d w = (Inr (tok, src), w1)"
  shows "Reveal tok \<noteq> []"
  using assms resolveToken_nonempty by (auto simp: token_from_def split: prod.splits)

lemma New_github_cases:
  assumes "New_github T x d red w = (Inr p, red', w')"
  obtains cfg0 cfg found tok src keys where "applyDefaults cfg0 = (None, cfg)" "Reveal tok \<noteq> []"
    "p = provider_of cfg d found (tok, src) keys" "red' = Add red [Reveal tok]"
proof -
  obtain cfg0 where c0: "decoded_config d = Inr cfg0"
    using assms by (cases "decoded_config d") (simp_all add: New_github_def)
  obtain e cfg where a: "applyDefaults cfg0 = (e, cfg)" by fastforce
  have e: "e = None" using assms c0 a by (cases e) (simp_all add: New_github_def)
  let ?found = "findGH T (gf_GHPath cfg)"
  let ?gh = "\<lparr>gh_path = (case ?found of Inr p \<Rightarrow> p | Inl _ \<Rightarrow> []), gh_token = None, gh_apiURL = gf_APIURL cfg\<rparr>"
  obtain r w1 where t: "token_from T ?gh x cfg d w = (r, w1)" by fastforce
  note N = assms [unfolded New_github_def Let_def, simplified c0 sum.case a e prod.case option.case t]
  obtain tok src where r: "r = Inr (tok, src)" using N by (cases r) auto
  have "Reveal tok \<noteq> []" using token_from_nonempty [of T ?gh x cfg d w tok src w1] t r by simp
  then show thesis
    using N r a e that [of cfg0 cfg tok ?found src] by (auto split: option.splits sum.splits)
qed

text \<open>
  C19: A provider that \<open>New\<close> returns is well configured and its token is protected. The API address
  is an HTTP address, the connector and the host key policy are known ones, the timeouts are
  positive and GitHub's limits hold; there is a token, the API client and \<open>gh\<close> use the same, and
  the log's redactor hides it from then on.
\<close>

theorem new_github_sound:
  assumes "New_github T x d (Some red) w = (Inr p, red', w')"
  shows "github_config_ok (gp_cfg p) \<and> gp_connector p = gf_Connector (gp_cfg p) \<and>
    ac_token (gp_api p) \<noteq> [] \<and> gh_token (gp_gh p) = Some (ac_token (gp_api p)) \<and>
    (\<exists>r. red' = Some r \<and> set (secrets red) \<subseteq> set (secrets r) \<and>
      (minRedactLen \<le> length (ac_token (gp_api p)) \<longrightarrow> hideable r \<longrightarrow>
        (\<forall>s. \<not> Contains (Redact red' s) (ac_token (gp_api p)))))"
  using assms
proof (rule New_github_cases)
  fix cfg0 cfg found tok src keys
  assume a: "applyDefaults cfg0 = (None, cfg)" "Reveal tok \<noteq> []" "p = provider_of cfg d found (tok, src) keys"
    "red' = Add (Some red) [Reveal tok]"
  let ?r = "add_secret red (Reveal tok)"
  have r: "red' = Some ?r" using a(4) by (simp add: Add_def)
  have "\<not> Contains (Redact (Some ?r) s) (Reveal tok)" if "minRedactLen \<le> length (Reveal tok)" "hideable ?r" for s
    using that by (intro red.hides) (simp_all add: set_secrets_add)
  then show ?thesis
    unfolding r using a(2) applyDefaults_ok [OF a(1)]
    by (simp add: a(3) provider_of_def set_secrets_add) blast
qed

definition deps0 :: provider_deps where
  "deps0 = \<lparr>pd_config = None, pd_file = FileMissing, pd_env = (\<lambda>n. if n = ''GH_TOKEN'' then ''gho_abcdefgh'' else []),
     pd_mkdir = None, pd_keys = Inr \<lparr>kp_PrivatePath = ''k'', kp_PublicPath = ''k.pub'', kp_fingerprint = ''f''\<rparr>,
     pd_hostKeys = fresh_file, pd_users = fresh_file, pd_sources = fresh_file\<rparr>"

definition tools0 :: "nat tools" where
  "tools0 = \<lparr>t_environ = [''HOME=/root''], t_look = (\<lambda>n. Inr (''/usr/bin/'' @ n)), t_stat = (\<lambda>p. Inr False),
     t_run = (\<lambda>x p a e w. (\<lparr>pr_stdout = ''User vscode'', pr_stderr = [], pr_error = None\<rparr>, w + 1))\<rparr>"

lemma deps0_config:
  "applyDefaults no_config = (None, no_config\<lparr>gf_APIURL := defaultAPIURL, gf_Connector := ''auto'',
     gf_HostKeyPolicy := ''tofu'', gf_RequestTimeout := 30 * second\<rparr>)"
proof -
  have "trimmed defaultAPIURL" by (rule trimmed_plain) (simp_all add: defaultAPIURL_def plain_def)
  then have "TrimSuffix (TrimSpace defaultAPIURL) ''/'' = defaultAPIURL"
    by (simp add: TrimSpace_trimmed) (simp add: TrimSuffix_def defaultAPIURL_def HasSuffix_def)
  then show ?thesis
    by (simp add: applyDefaults_def no_config_def no_create_def Let_def second_def) (simp add: defaultAPIURL_def)
qed

lemma deps0_token: "TrimSpace ''gho_abcdefgh'' = ''gho_abcdefgh''"
  by (rule TrimSpace_trimmed, rule trimmed_plain) (simp_all add: plain_def)

lemma new_github_sound_witness:
  "\<exists>p red' w'. New_github tools0 ctx_free deps0 (Some NewRedactor) 0 = (Inr p, red', w') \<and>
    github_config_ok (gp_cfg p) \<and> (\<forall>s. \<not> Contains (Redact red' s) ''gho_abcdefgh'')"
proof -
  let ?cfg = "no_config\<lparr>gf_APIURL := defaultAPIURL, gf_Connector := ''auto'', gf_HostKeyPolicy := ''tofu'',
    gf_RequestTimeout := 30 * second\<rparr>"
  have tok: "token_from tools0 g ctx_free ?cfg deps0 0 = (Inr (secret_New ''gho_abcdefgh'', TokenFromEnv), 0)" for g
    by (simp add: token_from_def needs_gh_token_def resolveToken_def deps0_def deps0_token no_config_def Empty_def)
  have d: "decoded_config deps0 = Inr no_config" "pd_mkdir deps0 = None"
      "pd_keys deps0 = Inr \<lparr>kp_PrivatePath = ''k'', kp_PublicPath = ''k.pub'', kp_fingerprint = ''f''\<rparr>"
    by (simp_all add: decoded_config_def deps0_def)
  obtain p red' w' where N: "New_github tools0 ctx_free deps0 (Some NewRedactor) 0 = (Inr p, red', w')"
      "red' = Some (add_secret NewRedactor ''gho_abcdefgh'')" "ac_token (gp_api p) = ''gho_abcdefgh''"
    by (simp add: New_github_def d deps0_config tok Let_def secret_New_def deps0_token Add_def provider_of_def)
  have "hideable (add_secret NewRedactor ''gho_abcdefgh'')"
    by (auto simp: hideable_def redactor_ok_add_secret set_secrets_add) (simp_all add: NewRedactor_def)
  then show ?thesis
    using new_github_sound [OF N(1)] N by (auto simp: minRedactLen_def)
qed

end
