(* ===== verification/GithubConnect.thy ===== *)
theory GithubConnect
  imports GithubProvider
begin

text \<open>
  Connections into a codespace (\<open>providers/github/connection.go\<close>, \<open>connection_stdio.go\<close>,
  \<open>connection_exec.go\<close>, and \<open>sshUserFor\<close> of \<open>provider.go\<close>): the choice of the connector, the login
  name, the tunnel with its host key check, the requests of the inner session, and the
  classification of failures. The child process and the SSH client library are the record
  \<open>transport\<close>, a parameter; the goroutine that repeats a progress line every ten seconds and the
  copying of bytes are left out.
\<close>

section \<open>Terminal modes\<close>

definition mode_value :: "char \<Rightarrow> char \<Rightarrow> char \<Rightarrow> char \<Rightarrow> 32 word" where
  "mode_value a b c d =
    or (push_bit 24 (of_nat (of_char a))) (or (push_bit 16 (of_nat (of_char b)))
      (or (push_bit 8 (of_nat (of_char c))) (of_nat (of_char d))))"

fun decode_modes :: "string \<Rightarrow> (char, 32 word) gomap \<Rightarrow> (char, 32 word) gomap" where
  "decode_modes (oc # a # b # c # d # rest) m =
    (if oc = CHR 0x00 then m else decode_modes rest (AList.update oc (mode_value a b c d) m))"
| "decode_modes _ m = m"

text \<open>The codes of \<open>ECHO\<close>, \<open>TTY_OP_ISPEED\<close> and \<open>TTY_OP_OSPEED\<close> are those of RFC 4254.\<close>

definition parseTerminalModes :: "string \<Rightarrow> (char, 32 word) gomap" where
  "parseTerminalModes raw =
    (let modes = decode_modes raw []
     in if modes = [] then [(char_of (53 :: nat), 1), (char_of (128 :: nat), 14400), (char_of (129 :: nat), 14400)]
        else modes)"

section \<open>Classifying failures\<close>

definition temporary_markers :: "string list" where
  "temporary_markers =
    [''connection refused'', ''connection reset'', ''broken pipe'', ''unexpected eof'', ''eof'', ''tunnel'',
     ''error connecting to codespace'', ''failed to connect to forwarded port'',
     ''error getting ssh server details'', ''could not start ssh server'', ''deadline exceeded'', ''timeout'',
     ''handshake failed'', ''no route to host'', ''i/o timeout'', ''502 bad gateway'', ''503 service unavailable'']"

definition temporaryConnectError :: "goerr \<Rightarrow> bool" where
  "temporaryConnectError e \<longleftrightarrow> \<not> errors_Is e ErrStdioUnsupported \<and>
     (\<exists>marker\<in>set temporary_markers. Contains (ToLower (err_text e)) marker)"

definition classifyConnectError :: "goerr \<Rightarrow> goerr" where
  "classifyConnectError e = (if temporaryConnectError e then TemporaryError e else e)"

definition tunnel_hint_text :: string where
  "tunnel_hint_text = utf8 [0x65E0, 0x6CD5, 0x8BBF, 0x95EE] @ '' GitHub '' @ utf8 [0x7684] @ '' Dev Tunnels '' @ utf8 [0x670D, 0x52A1, 0xFF08] @ ''*.rel.tunnels.api.visualstudio.com'' @ utf8 [0xFF09, 0x3002, 0x8FD9, 0x8DDF] @ '' gateway '' @ utf8 [0x914D, 0x7F6E, 0x65E0, 0x5173, 0xFF1A, 0x68C0, 0x67E5, 0x4EE3, 0x7406] @ ''/'' @ utf8 [0x9632, 0x706B, 0x5899, 0x662F, 0x5426, 0x653E, 0x884C, 0x8BE5, 0x57DF, 0x540D, 0xFF0C, 0x6216, 0x7528] @ '' github.create.location '' @ utf8 [0x6362, 0x4E00, 0x4E2A, 0x5730, 0x533A]"

definition tunnelNetworkHint :: "goerr \<Rightarrow> string" where
  "tunnelNetworkHint e =
    (let msg = ToLower (err_text e)
     in if \<not> Contains msg ''tunnels.api.visualstudio.com'' \<and> \<not> Contains msg ''error getting tunnel'' then []
        else if Contains msg ''tls handshake timeout'' \<or> Contains msg ''timeout'' \<or>
          Contains msg ''connection reset'' \<or> Contains msg ''no such host'' \<or> Contains msg ''proxyconnect''
        then tunnel_hint_text else [])"

definition isAuthFailure :: "goerr \<Rightarrow> bool" where
  "isAuthFailure e \<longleftrightarrow>
    (let msg = ToLower (err_text e)
     in Contains msg ''unable to authenticate'' \<or> Contains msg ''no supported methods remain'' \<or>
        Contains msg ''handshake failed: ssh: unable to authenticate'')"

section \<open>The environment a client asks for\<close>

definition env_name_start :: "char \<Rightarrow> bool" where
  "env_name_start c \<longleftrightarrow> c \<in> {CHR ''A''..CHR ''Z''} \<or> c \<in> {CHR ''a''..CHR ''z''} \<or> c = CHR ''_''"

definition env_name_char :: "char \<Rightarrow> bool" where
  "env_name_char c \<longleftrightarrow> env_name_start c \<or> c \<in> {CHR ''0''..CHR ''9''}"

definition safeEnvName :: "string \<Rightarrow> bool" where
  "safeEnvName k = (case k of [] \<Rightarrow> False | c # cs \<Rightarrow> env_name_start c \<and> list_all env_name_char cs)"

definition unsafe_chars :: "char list" where
  "unsafe_chars = [CHR 0x0A, CHR 0x0D, CHR 0x22, CHR 0x27, CHR 0x5C, CHR 0x20, CHR 0x09]"

definition safeSetEnv :: "(string, string) gomap \<Rightarrow> string list" where
  "safeSetEnv env =
    map (\<lambda>(k, v). k @ ''='' @ v)
      (filter (\<lambda>(k, v). safeEnvName k \<and> \<not> list_ex (\<lambda>c. c \<in> set unsafe_chars) v) env)"

section \<open>The transport\<close>

text \<open>
  Pipes are made one by one; a child process is started on them or on a terminal, and its handle is what the later
  calls are about. A tunnel that comes up shows the codespace's host key first, then the login is tried; both happen
  in the goroutine of the handshake, whose result, the child's end and the end of the caller's context the code waits for:
  \<open>TunnelExited\<close> and \<open>LoginExited\<close> (with the rendering of the child's exit) and \<open>TunnelDone\<close> and
  \<open>LoginDone\<close> are the two other branches, before the host key was shown and after. The goroutine is not stopped then:
  \<open>x_late_key\<close> is the host key it is shown afterwards, if it is, and \<open>x_late\<close> the client it logs in
  afterwards, if it does.
\<close>

datatype pipe_kind = PipeIn | PipeOut | PipeErr

text \<open>What the child is started on: its end of a terminal, or the pipes that were made for it.\<close>

datatype child_io = OnTerminal nat | OnPipes "nat list"

datatype tunnel_result = TunnelExited string | TunnelFailed goerr | TunnelDone goerr | TunnelKey host_key

datatype login_result = LoginFailed goerr | LoginExited string | LoginDone goerr | LoggedIn nat

datatype session_op =
    OpNewSession | OpSetenv string string | OpPty string int int "(char, 32 word) gomap"
  | OpStdinPipe | OpStdoutPipe | OpStderrPipe | OpSubsystem string | OpStart string | OpShell
  | OpWindow int int | OpSignal string | OpClose | OpCloseClient

datatype file_op = FOpen string | FUnlock nat | FPtyNumber nat | FWinsize nat "16 word" "16 word" | FClose nat

text \<open>What \<open>Wait\<close> of the inner session gives, by the type of its error.\<close>

datatype session_wait = WaitNil | WaitExit int string | WaitMissing | WaitError goerr

record 'w transport =
  x_ptySupported :: bool
  x_file :: "file_op \<Rightarrow> 'w \<Rightarrow> (goerr + nat) \<times> 'w"
  x_pipe :: "pipe_kind \<Rightarrow> 'w \<Rightarrow> (string + nat) \<times> 'w"
  x_start :: "ctx \<Rightarrow> string list \<Rightarrow> string list \<Rightarrow> child_io \<Rightarrow> 'w \<Rightarrow> (goerr + nat) \<times> 'w"
  x_early :: "nat \<Rightarrow> 'w \<Rightarrow> string option \<times> 'w"
  x_tunnel :: "ctx \<Rightarrow> nat \<Rightarrow> 'w \<Rightarrow> tunnel_result \<times> 'w"
  x_refuse :: "goerr \<Rightarrow> goerr"
  x_login :: "nat \<Rightarrow> string \<Rightarrow> 'w \<Rightarrow> login_result \<times> 'w"
  x_late_key :: "nat \<Rightarrow> 'w \<Rightarrow> host_key option \<times> 'w"
  x_late :: "nat \<Rightarrow> string \<Rightarrow> 'w \<Rightarrow> nat option \<times> 'w"
  x_op :: "nat \<Rightarrow> session_op \<Rightarrow> 'w \<Rightarrow> goerr option \<times> 'w"
  x_cancel :: "nat option \<Rightarrow> 'w \<Rightarrow> 'w"
  x_stderr :: "'w \<Rightarrow> string list"
  x_wait :: "nat \<Rightarrow> 'w \<Rightarrow> session_wait \<times> 'w"
  x_exit :: "nat \<Rightarrow> 'w \<Rightarrow> int option \<times> 'w"
  x_done :: "nat \<Rightarrow> 'w \<Rightarrow> bool \<times> 'w"
  x_kill :: "nat \<Rightarrow> 'w \<Rightarrow> 'w"

text \<open>
  A live connection: the child process, how it is spoken to (\<open>stdioConn\<close> with the SSH client in the
  tunnel, \<open>execConn\<close> with the master end of its terminal), and its two \<open>sync.Once\<close>.
\<close>

datatype conn_via = ViaStdio string nat | ViaExec bool "nat option"

record live_conn =
  lc_name :: string
  lc_proc :: nat
  lc_via :: conn_via
  lc_waited :: "(exit_status \<times> goerr option) option"
  lc_closed :: bool

definition new_conn :: "string \<Rightarrow> nat \<Rightarrow> conn_via \<Rightarrow> live_conn" where
  "new_conn name k via = \<lparr>lc_name = name, lc_proc = k, lc_via = via, lc_waited = None, lc_closed = False\<rparr>"

definition tell :: "connect_request \<Rightarrow> string \<Rightarrow> gh_provider \<Rightarrow> gh_provider" where
  "tell req msg p =
    (case req_Progress req of None \<Rightarrow> p | Some f \<Rightarrow> p\<lparr>gp_told := gp_told p @ [(f, msg)]\<rparr>)"

section \<open>The login name\<close>

definition user_notice :: string where
  "user_notice = utf8 [0x6B63, 0x5728, 0x5411] @ '' gh '' @ utf8 [0x67E5, 0x8BE2] @ '' codespace '' @ utf8 [0x7684] @ '' ssh '' @ utf8 [0x4FE1, 0x606F, 0x2026]"

definition probe_error :: "string \<Rightarrow> goerr \<Rightarrow> goerr" where
  "probe_error name e =
    (let hint = tunnelNetworkHint e
     in if hint \<noteq> [] then
          classifyConnectError (Wrapf (hint @ utf8 [0xFF1B, 0x539F, 0x59CB, 0x9519, 0x8BEF, 0xFF1A]) e [])
        else classifyConnectError (Wrapf (''determine ssh user for codespace '' @ name @ '': '') e []))"

definition sshUserFor ::
  "'w tools \<Rightarrow> ctx \<Rightarrow> string \<Rightarrow> connect_request \<Rightarrow> gh_provider \<Rightarrow> 'w \<Rightarrow>
   (goerr + string \<times> bool) \<times> gh_provider \<times> 'w" where
  "sshUserFor T x name req p w =
    (if gf_SSHUser (gp_cfg p) \<noteq> [] then (Inr (gf_SSHUser (gp_cfg p), False), p, w)
     else
       (case uc_get name (gp_users p) of
          ((user, True), c) \<Rightarrow> (Inr (user, True), p\<lparr>gp_users := c\<rparr>, w)
        | ((_, False), c) \<Rightarrow>
           let p1 = p\<lparr>gp_users := c\<rparr>
           in if \<not> gh_Available (gp_gh p) then (Inl (Sentinel ErrGHMissing), p1, w)
              else
                let p2 = tell req user_notice p1
                in (case probeSSHTarget T (gp_gh p) x name w of
                      (Inl e, w1) \<Rightarrow> (Inl (probe_error name e), p2, w1)
                    | (Inr target, w1) \<Rightarrow>
                       (Inr (tg_User target, False), p2\<lparr>gp_users := uc_set name (tg_User target) (gp_users p2)\<rparr>, w1))))"

section \<open>The stdio connector\<close>

text \<open>
  The pipes of a command, in the order of the calls; the first that is refused (with an error of the operating system)
  ends it, and the earlier ones stay open. \<open>Start\<close> closes its ends on failure; on success they
  are closed by the \<open>Wait\<close> of the process.
\<close>

fun open_pipes :: "'w transport \<Rightarrow> pipe_kind list \<Rightarrow> 'w \<Rightarrow> (goerr + nat list) \<times> 'w" where
  "open_pipes X [] w = (Inr [], w)"
| "open_pipes X (k # ks) w =
    (case x_pipe X k w of
       (Inl e, w1) \<Rightarrow> (Inl (Errorf e), w1)
     | (Inr h, w1) \<Rightarrow>
        (case open_pipes X ks w1 of (Inl e, w2) \<Rightarrow> (Inl e, w2) | (Inr hs, w2) \<Rightarrow> (Inr (h # hs), w2)))"

definition captured :: "string list \<Rightarrow> safe_buffer" where
  "captured chunks = fold (\<lambda>c b. snd (sb_write c b)) chunks (newSafeBuffer (32 * 2 ^ 10))"

definition stdioFailure ::
  "string \<Rightarrow> string \<Rightarrow> goerr \<Rightarrow> safe_buffer \<Rightarrow> bool \<Rightarrow> gh_provider \<Rightarrow> goerr \<times> gh_provider" where
  "stdioFailure name user e ghErr usedCachedUser p =
    (let detail = scrub (gp_gh p) (sb_tail 3 ghErr)
     in if Contains detail ''unknown flag: --stdio'' \<or> Contains detail ''unknown flag: `--stdio`'' then
          (Wrapf [] (Sentinel ErrStdioUnsupported) ('': '' @ detail), p)
        else
          let wrapped = (if detail \<noteq> [] then Wrapf [] e ('' (gh: '' @ detail @ '')'') else e)
          in if usedCachedUser \<and> isAuthFailure e then
               (TemporaryError (Wrapf (''authenticating to codespace '' @ name @ '': '') wrapped []),
                p\<lparr>gp_users := uc_forget name (gp_users p)\<rparr>)
             else if isAuthFailure e then
               (Wrapf (''codespace '' @ name @ '' rejected the gateway key for remote user '' @ quote user @
                  '' (set github.ssh_user if gh reports the wrong user): '') wrapped [], p)
             else (classifyConnectError (Wrapf (''connect to codespace '' @ name @ '': '') wrapped []), p))"

text \<open>
  \<open>startSession\<close>: environment variables may be refused, everything else must succeed; a session
  that was opened and cannot be used is closed.
\<close>

fun set_env :: "'w transport \<Rightarrow> nat \<Rightarrow> (string \<times> string) list \<Rightarrow> 'w \<Rightarrow> 'w" where
  "set_env X c [] w = w"
| "set_env X c ((k, v) # env) w = set_env X c env (snd (x_op X c (OpSetenv k v) w))"

fun must :: "'w transport \<Rightarrow> nat \<Rightarrow> (session_op \<times> string) list \<Rightarrow> 'w \<Rightarrow> goerr option \<times> 'w" where
  "must X c [] w = (None, w)"
| "must X c ((op1, pre) # ops) w =
    (case x_op X c op1 w of
       (Some e, w1) \<Rightarrow> (Some (if pre = [] then e else Wrapf pre e []), snd (x_op X c OpClose w1))
     | (None, w1) \<Rightarrow> must X c ops w1)"

definition session_ops :: "connect_request \<Rightarrow> (session_op \<times> string) list" where
  "session_ops req =
    (if req_PTY req then
       [(OpPty (termOr (req_Term req)) (dimOr (req_Rows req) 24) (dimOr (req_Cols req) 80)
           (parseTerminalModes (req_Modes req)), ''request pty: '')] else []) @
    [(OpStdinPipe, []), (OpStdoutPipe, [])] @ (if req_PTY req then [] else [(OpStderrPipe, [])]) @
    [(if req_Subsystem req \<noteq> [] then OpSubsystem (req_Subsystem req)
      else if req_Command req \<noteq> [] then OpStart (req_Command req) else OpShell, ''start remote session: '')]"

definition startSession :: "'w transport \<Rightarrow> nat \<Rightarrow> connect_request \<Rightarrow> 'w \<Rightarrow> goerr option \<times> 'w" where
  "startSession X client req w =
    (case x_op X client OpNewSession w of
       (Some e, w1) \<Rightarrow> (Some (Wrapf ''open ssh session: '' e []), w1)
     | (None, w1) \<Rightarrow> must X client (session_ops req) (set_env X client (req_Env req) w1))"

definition stdio_args :: "string \<Rightarrow> gh_provider \<Rightarrow> string list" where
  "stdio_args name p = [''codespace'', ''ssh'', ''-c'', name, ''--stdio'', ''--'', ''-i'', kp_PrivatePath (gp_keys p)]"

definition tunnel_notice :: string where
  "tunnel_notice = utf8 [0x6B63, 0x5728, 0x6253, 0x5F00] @ '' codespace '' @ utf8 [0x96A7, 0x9053, 0xFF08] @ ''gh codespace ssh --stdio'' @ utf8 [0xFF09]"

text \<open>The child process is cancelled and the failure classified.\<close>

definition give_up ::
  "'w transport \<Rightarrow> string \<Rightarrow> string \<Rightarrow> goerr \<Rightarrow> bool \<Rightarrow> nat \<Rightarrow> gh_provider \<Rightarrow> 'w \<Rightarrow>
   (goerr + live_conn) \<times> gh_provider \<times> 'w" where
  "give_up X name user e cached k p w =
    (case stdioFailure name user e (captured (x_stderr X w)) cached p of
       (e1, p1) \<Rightarrow> (Inl e1, p1, x_cancel X (Some k) w))"

definition exited_early :: "string \<Rightarrow> goerr" where
  "exited_early v = Errorf (''gh exited before the tunnel was ready: '' @ v)"

definition tunnel_done :: "string \<Rightarrow> goerr \<Rightarrow> goerr" where
  "tunnel_done name e = TemporaryError (Wrapf (''opening tunnel to codespace '' @ name @ '': '') e [])"

text \<open>
  What the goroutine of the handshake does when nobody waits for it any more: a host key that is shown
  is still checked, and recorded, and a client that logs in is put into a channel that nobody reads.
\<close>

definition late_login :: "'w transport \<Rightarrow> nat \<Rightarrow> string \<Rightarrow> 'w \<Rightarrow> 'w" where
  "late_login X k user w = snd (x_late X k user w)"

definition late_handshake ::
  "'w transport \<Rightarrow> string \<Rightarrow> string \<Rightarrow> nat \<Rightarrow> (goerr + live_conn) \<times> gh_provider \<times> 'w \<Rightarrow>
   (goerr + live_conn) \<times> gh_provider \<times> 'w" where
  "late_handshake X name user k res =
    (case res of
       (r, p, w) \<Rightarrow>
         (case x_late_key X k w of
            (None, w1) \<Rightarrow> (r, p, w1)
          | (Some key, w1) \<Rightarrow>
             (case hk_check (gf_HostKeyPolicy (gp_cfg p)) name key (gp_hostKeys p) of
                (Some e, f) \<Rightarrow> (r, p\<lparr>gp_hostKeys := f\<rparr>, w1)
              | (None, f) \<Rightarrow> (r, p\<lparr>gp_hostKeys := f\<rparr>, late_login X k user w1))))"

text \<open>Login and session over a tunnel whose host key was accepted.\<close>

definition connect_login ::
  "'w transport \<Rightarrow> string \<Rightarrow> connect_request \<Rightarrow> string \<Rightarrow> bool \<Rightarrow> nat \<Rightarrow> gh_provider \<Rightarrow> 'w \<Rightarrow>
   (goerr + live_conn) \<times> gh_provider \<times> 'w" where
  "connect_login X name req user cached k p w =
    (case x_login X k user w of
       (LoginFailed e, w1) \<Rightarrow> give_up X name user e cached k p w1
     | (LoginExited v, w1) \<Rightarrow>
        (case give_up X name user (exited_early v) cached k p w1 of (r, p1, w2) \<Rightarrow> (r, p1, late_login X k user w2))
     | (LoginDone e, w1) \<Rightarrow> (Inl (tunnel_done name e), p, late_login X k user (x_cancel X (Some k) w1))
     | (LoggedIn client, w1) \<Rightarrow>
        (case startSession X client req w1 of
           (Some e, w2) \<Rightarrow> give_up X name user e cached k p (snd (x_op X client OpCloseClient w2))
         | (None, w2) \<Rightarrow> (Inr (new_conn name k (ViaStdio user client)), p, w2)))"

definition connect_tunnel ::
  "'w transport \<Rightarrow> ctx \<Rightarrow> string \<Rightarrow> connect_request \<Rightarrow> string \<Rightarrow> bool \<Rightarrow> nat \<Rightarrow> gh_provider \<Rightarrow> 'w \<Rightarrow>
   (goerr + live_conn) \<times> gh_provider \<times> 'w" where
  "connect_tunnel X x name req user cached k p w =
    (case x_tunnel X x k w of
       (TunnelExited v, w1) \<Rightarrow> late_handshake X name user k (give_up X name user (exited_early v) cached k p w1)
     | (TunnelFailed e, w1) \<Rightarrow> give_up X name user e cached k p w1
     | (TunnelDone e, w1) \<Rightarrow> late_handshake X name user k (Inl (tunnel_done name e), p, x_cancel X (Some k) w1)
     | (TunnelKey key, w1) \<Rightarrow>
        (case hk_check (gf_HostKeyPolicy (gp_cfg p)) name key (gp_hostKeys p) of
           (Some e, f) \<Rightarrow> give_up X name user (x_refuse X e) cached k (p\<lparr>gp_hostKeys := f\<rparr>) w1
         | (None, f) \<Rightarrow> connect_login X name req user cached k (p\<lparr>gp_hostKeys := f\<rparr>) w1))"

definition connectStdio ::
  "'w tools \<Rightarrow> 'w transport \<Rightarrow> ctx \<Rightarrow> string \<Rightarrow> connect_request \<Rightarrow> gh_provider \<Rightarrow> 'w \<Rightarrow>
   (goerr + live_conn) \<times> gh_provider \<times> 'w" where
  "connectStdio T X x name req p w =
    (case sshUserFor T x name req p w of
       (Inl e, p1, w1) \<Rightarrow> (Inl e, p1, w1)
     | (Inr (user, cached), p1, w1) \<Rightarrow>
        (let p2 = tell req tunnel_notice p1
         in (case open_pipes X [PipeIn, PipeOut] w1 of
               (Inl e, w2) \<Rightarrow> (Inl e, p2, x_cancel X None w2)
             | (Inr pipes, w2) \<Rightarrow>
                (case x_start X x (stdio_args name p2) (command_env T (gp_gh p2)) (OnPipes pipes) w2 of
                   (Inl e, w3) \<Rightarrow> (Inl (Wrapf ''start gh codespace ssh: '' e []), p2, x_cancel X None w3)
                 | (Inr k, w3) \<Rightarrow> connect_tunnel X x name req user cached k p2 w3))))"

section \<open>The exec connector\<close>

definition exec_notice :: string where
  "exec_notice = utf8 [0x6B63, 0x5728, 0x6253, 0x5F00] @ '' codespace '' @ utf8 [0x4F1A, 0x8BDD, 0xFF08] @ ''gh codespace ssh'' @ utf8 [0xFF09]"

definition exec_args :: "string \<Rightarrow> connect_request \<Rightarrow> gh_provider \<Rightarrow> string list" where
  "exec_args name req p =
    [''codespace'', ''ssh'', ''-c'', name, ''--'', ''-i'', kp_PrivatePath (gp_keys p)] @
    [if req_PTY req then ''-tt'' else ''-T''] @
    concat (map (\<lambda>kv. [''-o'', ''SetEnv='' @ kv]) (safeSetEnv (req_Env req))) @
    (if req_Subsystem req \<noteq> [] then [''-s'', req_Subsystem req]
     else if req_Command req \<noteq> [] then [req_Command req] else [])"

text \<open>The terminal (\<open>pty_linux.go\<close>): both ends, or nothing is left open.\<close>

definition file_close :: "'w transport \<Rightarrow> nat \<Rightarrow> 'w \<Rightarrow> 'w" where
  "file_close X f w = snd (x_file X (FClose f) w)"

definition openPTY :: "'w transport \<Rightarrow> 'w \<Rightarrow> (goerr + nat \<times> nat) \<times> 'w" where
  "openPTY X w =
    (case x_file X (FOpen ''/dev/ptmx'') w of
       (Inl e, w1) \<Rightarrow> (Inl (Wrapf ''open /dev/ptmx: '' e []), w1)
     | (Inr m, w1) \<Rightarrow>
        (case x_file X (FUnlock m) w1 of
           (Inl e, w2) \<Rightarrow> (Inl (Wrapf ''unlock pty: '' e []), file_close X m w2)
         | (Inr _, w2) \<Rightarrow>
            (case x_file X (FPtyNumber m) w2 of
               (Inl e, w3) \<Rightarrow> (Inl (Wrapf ''get pty number: '' e []), file_close X m w3)
             | (Inr n, w3) \<Rightarrow>
                (case x_file X (FOpen (''/dev/pts/'' @ show_nat n)) w3 of
                   (Inl e, w4) \<Rightarrow> (Inl (Wrapf ''open pty slave: '' e []), file_close X m w4)
                 | (Inr s, w4) \<Rightarrow> (Inr (m, s), w4)))))"

text \<open>
  What the child gets: both ends of a terminal of the client's size, or pipes. The result is the
  terminal, if there is one, and what the child is started on.
\<close>

definition exec_ends :: "'w transport \<Rightarrow> connect_request \<Rightarrow> 'w \<Rightarrow> (goerr + (nat \<times> nat) option \<times> child_io) \<times> 'w" where
  "exec_ends X req w =
    (if req_PTY req then
       (case openPTY X w of
          (Inl e, w1) \<Rightarrow> (Inl e, w1)
        | (Inr (m, s), w1) \<Rightarrow>
           (Inr (Some (m, s), OnTerminal s),
            if 0 < req_Rows req \<and> 0 < req_Cols req
            then snd (x_file X (FWinsize m (req_Rows req) (req_Cols req)) w1) else w1))
     else
       (case open_pipes X [PipeIn, PipeOut, PipeErr] w of
          (Inl e, w1) \<Rightarrow> (Inl e, w1)
        | (Inr pipes, w1) \<Rightarrow> (Inr (None, OnPipes pipes), w1)))"

definition connectExec ::
  "'w tools \<Rightarrow> 'w transport \<Rightarrow> ctx \<Rightarrow> string \<Rightarrow> connect_request \<Rightarrow> gh_provider \<Rightarrow> 'w \<Rightarrow>
   (goerr + live_conn) \<times> gh_provider \<times> 'w" where
  "connectExec T X x name req p w =
    (if req_PTY req \<and> \<not> x_ptySupported X then (Inl (Sentinel ErrNoPTY), p, w)
     else
       let p1 = tell req exec_notice p
       in (case exec_ends X req w of
             (Inl e, w1) \<Rightarrow> (Inl e, p1, x_cancel X None w1)
           | (Inr (pty, io), w1) \<Rightarrow>
              (case x_start X x (exec_args name req p) (command_env T (gp_gh p)) io w1 of
                 (Inl e, w2) \<Rightarrow>
                   (Inl (Wrapf ''start gh codespace ssh: '' e []), p1,
                    x_cancel X None (case pty of None \<Rightarrow> w2 | Some (m, s) \<Rightarrow> file_close X s (file_close X m w2)))
               | (Inr k, w2) \<Rightarrow>
                   let w3 = (case pty of None \<Rightarrow> w2 | Some (_, s) \<Rightarrow> file_close X s w2)
                   in (case x_early X k w3 of
                         (Some v, w4) \<Rightarrow>
                           (Inl (classifyConnectError (Errorf (''gh codespace ssh exited immediately: '' @ v))), p1,
                            x_cancel X (Some k) w4)
                       | (None, w4) \<Rightarrow> (Inr (new_conn name k (ViaExec (req_PTY req) (map_option fst pty))), p1, w4)))))"

section \<open>Connect\<close>

definition gh_Connect ::
  "'w tools \<Rightarrow> 'w transport \<Rightarrow> ctx \<Rightarrow> string \<Rightarrow> connect_request \<Rightarrow> gh_provider \<Rightarrow> 'w \<Rightarrow>
   (goerr + live_conn) \<times> gh_provider \<times> 'w" where
  "gh_Connect T X x name req p w =
    (if \<not> gh_Available (gp_gh p) then
       (Inl (Wrapf (''cannot connect to codespace '' @ name @ '': '') (Sentinel ErrGHMissing) []), p, w)
     else if gp_connector p = ''stdio'' then connectStdio T X x name req p w
     else if gp_connector p = ''exec'' then connectExec T X x name req p w
     else
       (case connectStdio T X x name req p w of
          (Inr c, p1, w1) \<Rightarrow> (Inr c, p1, w1)
        | (Inl e, p1, w1) \<Rightarrow>
           if \<not> errors_Is e ErrStdioUnsupported then (Inl e, p1, w1)
           else connectExec T X x name req (p1\<lparr>gp_connector := ''exec''\<rparr>) w1))"

section \<open>Live connections\<close>

definition upper_char :: "char \<Rightarrow> char" where
  "upper_char c = (if c \<in> {CHR ''a''..CHR ''z''} then char_of ((of_char c :: nat) - 32) else c)"

definition signal_name :: "string \<Rightarrow> string" where
  "signal_name name =
    TrimPrefix (map upper_char name) ''SIG''"

definition conn_resize :: "'w transport \<Rightarrow> live_conn \<Rightarrow> 16 word \<Rightarrow> 16 word \<Rightarrow> 'w \<Rightarrow> goerr option \<times> 'w" where
  "conn_resize X c rows cols w =
    (case lc_via c of
       ViaStdio _ client \<Rightarrow>
         if rows = 0 \<or> cols = 0 then (None, w) else x_op X client (OpWindow (uint rows) (uint cols)) w
     | ViaExec _ None \<Rightarrow> (Some (Sentinel ErrNotSupported), w)
     | ViaExec _ (Some m) \<Rightarrow>
         if rows = 0 \<or> cols = 0 then (None, w)
         else (case x_file X (FWinsize m rows cols) w of (Inl e, w1) \<Rightarrow> (Some e, w1) | (Inr _, w1) \<Rightarrow> (None, w1)))"

definition conn_signal :: "'w transport \<Rightarrow> live_conn \<Rightarrow> string \<Rightarrow> 'w \<Rightarrow> goerr option \<times> 'w" where
  "conn_signal X c name w =
    (case lc_via c of
       ViaStdio _ client \<Rightarrow> x_op X client (OpSignal (signal_name name)) w
     | ViaExec _ _ \<Rightarrow> (Some (Sentinel ErrNotSupported), w))"

fun stdio_wait :: "session_wait \<Rightarrow> exit_status \<times> goerr option" where
  "stdio_wait WaitNil = (\<lparr>ex_Code = 0, ex_Signal = []\<rparr>, None)"
| "stdio_wait (WaitExit code sig) = (\<lparr>ex_Code = code, ex_Signal = sig\<rparr>, None)"
| "stdio_wait WaitMissing = (\<lparr>ex_Code = 255, ex_Signal = []\<rparr>,
     Some (Errorf ''remote session ended without an exit status''))"
| "stdio_wait (WaitError e) = (\<lparr>ex_Code = 255, ex_Signal = []\<rparr>, Some e)"

definition exec_wait :: "int option \<Rightarrow> exit_status" where
  "exec_wait state =
    (let code = (case state of None \<Rightarrow> 0 | Some c \<Rightarrow> c) in \<lparr>ex_Code = (if code < 0 then 255 else code), ex_Signal = []\<rparr>)"

definition conn_wait ::
  "'w transport \<Rightarrow> live_conn \<Rightarrow> 'w \<Rightarrow> (exit_status \<times> goerr option) \<times> live_conn \<times> 'w" where
  "conn_wait X c w =
    (case lc_via c of
       ViaStdio _ client \<Rightarrow>
         (case lc_waited c of
            Some r \<Rightarrow> (r, c, w)
          | None \<Rightarrow>
             (case x_wait X client w of (s, w1) \<Rightarrow> (stdio_wait s, c\<lparr>lc_waited := Some (stdio_wait s)\<rparr>, w1)))
     | ViaExec _ _ \<Rightarrow> (case x_exit X (lc_proc c) w of (state, w1) \<Rightarrow> ((exec_wait state, None), c, w1)))"

text \<open>The child is given three seconds to end, then it is killed.\<close>

definition reap :: "'w transport \<Rightarrow> nat \<Rightarrow> 'w \<Rightarrow> 'w" where
  "reap X k w = (case x_done X k w of (True, w1) \<Rightarrow> w1 | (False, w1) \<Rightarrow> x_kill X k w1)"

definition live_close :: "'w transport \<Rightarrow> live_conn \<Rightarrow> 'w \<Rightarrow> live_conn \<times> 'w" where
  "live_close X c w =
    (if lc_closed c then (c, w)
     else
       (case lc_via c of
          ViaStdio _ client \<Rightarrow>
            (c\<lparr>lc_closed := True\<rparr>,
             reap X (lc_proc c) (x_cancel X (Some (lc_proc c))
               (snd (x_op X client OpCloseClient (snd (x_op X client OpClose w))))))
        | ViaExec pty master \<Rightarrow>
            (let w1 = reap X (lc_proc c) (x_cancel X (Some (lc_proc c)) w)
             in (c\<lparr>lc_closed := True, lc_via := ViaExec pty None\<rparr>,
                 case master of None \<Rightarrow> w1 | Some m \<Rightarrow> file_close X m w1))))"

definition Describe :: "live_conn \<Rightarrow> string" where
  "Describe c =
    (case lc_via c of
       ViaStdio user _ \<Rightarrow> ''gh codespace ssh --stdio (ssh '' @ user @ ''@'' @ lc_name c @ '')''
     | ViaExec pty _ \<Rightarrow>
         ''gh codespace ssh -c '' @ lc_name c @ (if pty then '' (local pty)'' else '' (pipes)''))"

end
