(* ===== verification/GithubConnectSpec.thy ===== *)
theory GithubConnectSpec
  imports GithubConnect GithubProviderSpec
begin

text \<open>
  Properties of connections: a stale login name heals itself, a failed connection leaves nothing
  open, terminal modes are replayed as the client sent them, and what a client asks to be set in
  the environment cannot leave its place in the command line.
\<close>

section \<open>A stale login name\<close>

lemma uc_forget_cases:
  assumes "uc_good c"
  shows "uc_good (uc_forget k c) \<and> uc_find k' (uc_forget k c) = (if k' = k then None else uc_find k' c)"
proof -
  let ?l = "uc_load c"
  have g: "uc_good ?l" using uc_load_good [OF assms] .
  show ?thesis
  proof (cases "map_of (uc_entries ?l) k")
    case None
    then have "uc_forget k c = ?l" by (simp add: uc_forget_def Let_def)
    with None g show ?thesis by (simp add: uc_find_eq)
  next
    case (Some u)
    let ?n = "?l\<lparr>uc_entries := AList.delete k (uc_entries ?l)\<rparr>"
    have eq: "uc_forget k c = uc_flush ?n" using Some by (simp add: uc_forget_def Let_def)
    have "\<forall>(a, b)\<in>set (uc_entries ?n). ascii a \<and> ascii b"
      using g by (auto simp: uc_good_def set_delete_eq)
    then have "uc_good (uc_flush ?n)" using g by (intro uc_flush_good) (simp_all add: uc_good_def)
    moreover have "uc_load (uc_flush ?n) = uc_flush ?n" by (simp add: uc_load_def uc_flush_def)
    moreover have "uc_entries (uc_flush ?n) = AList.delete k (uc_entries ?l)" by (simp add: uc_flush_def)
    ultimately show ?thesis unfolding eq by (simp add: uc_find_eq)
  qed
qed

definition stdio_unsupported :: "gh_provider \<Rightarrow> safe_buffer \<Rightarrow> bool" where
  "stdio_unsupported p buf \<longleftrightarrow> Contains (scrub (gp_gh p) (sb_tail 3 buf)) ''unknown flag: --stdio'' \<or>
     Contains (scrub (gp_gh p) (sb_tail 3 buf)) ''unknown flag: `--stdio`''"

lemma stdioFailure_stale:
  assumes "isAuthFailure e" and "\<not> stdio_unsupported p buf"
  shows "\<exists>e1. stdioFailure name user e buf True p =
    (TemporaryError e1, p\<lparr>gp_users := uc_forget name (gp_users p)\<rparr>)"
  using assms by (simp add: stdioFailure_def stdio_unsupported_def Let_def)

lemma sshUserFor_unknown:
  assumes "gf_SSHUser (gp_cfg p) = []" and "uc_find name (gp_users p) = None" and "gh_Available (gp_gh p)"
    and "probeSSHTarget T (gp_gh p) x name w = (Inr target, w1)"
  shows "\<exists>p1. sshUserFor T x name req p w = (Inr (tg_User target, False), p1, w1)"
proof -
  obtain user ok c where g: "uc_get name (gp_users p) = ((user, ok), c)" by (metis prod.exhaust)
  with assms(2) have "\<not> ok" by (simp add: uc_find_def split: if_splits)
  with assms g show ?thesis by (simp add: sshUserFor_def Let_def tell_def split: option.splits)
qed

text \<open>
  C20: A remembered login name that no longer works heals itself. When a codespace refuses the
  gateway's key for a cached login name, \<open>Connect\<close> fails with a temporary error, so that the
  lifecycle manager tries again; the name is forgotten, also on disk, and no other is; and the
  next attempt logs in as the user that \<open>gh\<close> reports.
\<close>

theorem stale_login_heals:
  assumes "uc_good (gp_users p)" and "isAuthFailure e" and "\<not> stdio_unsupported p buf"
    and "gf_SSHUser (gp_cfg p) = []" and "gh_Available (gp_gh p)"
    and "probeSSHTarget T (gp_gh p) x name w = (Inr target, w1)"
  shows "\<exists>e1 p1. stdioFailure name user e buf True p = (e1, p1) \<and> IsTemporary e1 \<and>
    uc_find name (uc_reopen (gp_users p1)) = None \<and>
    (\<forall>k. k \<noteq> name \<longrightarrow> uc_find k (gp_users p1) = uc_find k (gp_users p)) \<and>
    (\<exists>p2. sshUserFor T x name req p1 w = (Inr (tg_User target, False), p2, w1))"
proof -
  let ?p1 = "p\<lparr>gp_users := uc_forget name (gp_users p)\<rparr>"
  obtain e1 where f: "stdioFailure name user e buf True p = (TemporaryError e1, ?p1)"
    using stdioFailure_stale [OF assms(2,3)] by blast
  have u: "uc_good (gp_users ?p1)" "uc_find k (gp_users ?p1) = (if k = name then None else uc_find k (gp_users p))" for k
    using uc_forget_cases [OF assms(1)] by simp_all
  have "\<exists>p2. sshUserFor T x name req ?p1 w = (Inr (tg_User target, False), p2, w1)"
    using u(2) [of name] assms(4,5,6) by (intro sshUserFor_unknown) simp_all
  moreover have "uc_find name (uc_reopen (gp_users ?p1)) = None"
    using users.get_reopen [OF u(1)] u(2) [of name] by simp
  ultimately show ?thesis using f u(2) by auto
qed

lemma stale_login_heals_witness:
  "\<exists>e1 p1. stdioFailure ''box'' ''old'' (Errorf ''ssh: unable to authenticate'') (newSafeBuffer 10) True provider0 =
      (e1, p1) \<and> IsTemporary e1 \<and>
    (\<exists>p2 w. sshUserFor tools0 ctx_free ''box'' \<lparr>req_PTY = False, req_Term = [], req_Rows = 0, req_Cols = 0,
       req_Modes = [], req_Command = [], req_Subsystem = [], req_Env = [], req_Progress = None\<rparr> p1 0 =
       (Inr (''vscode'', False), p2, w))"
proof -
  have good: "uc_good (gp_users provider0)"
    by (simp add: provider0_def uc_good_def newUserCache_def uc_load_def fresh_file_def read_map_def add_all_def)
  have "ToLower ''ssh: unable to authenticate'' = ''ssh: '' @ ''unable to authenticate'' @ []"
    by (simp add: ToLower_def lower_char_def)
  then have auth: "isAuthFailure (Errorf ''ssh: unable to authenticate'')"
    unfolding isAuthFailure_def Let_def err_text.simps by (simp only: Contains_append simp_thms)
  have "sb_tail 3 (newSafeBuffer 10) = []" by (simp add: sb_tail_def newSafeBuffer_def)
  then have sup: "\<not> stdio_unsupported provider0 (newSafeBuffer 10)"
    by (simp add: stdio_unsupported_def provider0_def scrub_def)
  have "parseSSHConfig ''User vscode'' = \<lparr>tg_User = ''vscode'', tg_IdentityFile = [], tg_StdioSupported = False\<rparr>"
  proof -
    have t: "TrimSpace ''User vscode'' = ''User vscode''" "TrimSpace ''vscode'' = ''vscode''"
      by (rule TrimSpace_trimmed, rule trimmed_plain, simp_all add: plain_def)+
    have l: "scan_lines ''User vscode'' = [''User vscode'']"
      by (simp add: scan_lines_def nl_def drop_cr_def Let_def)
    have c: "Cut ''User vscode'' '' '' = (''User'', ''vscode'', True)"
      using Cut_char [of "CHR '' ''" "''User''" "''vscode''"] by simp
    show ?thesis
      by (simp add: parseSSHConfig_def l config_line_def t c Let_def) (simp add: ToLower_def lower_char_def char_of_def bit_0)
  qed
  then have probe: "probeSSHTarget tools0 (gp_gh provider0) ctx_free ''box'' 0 =
      (Inr \<lparr>tg_User = ''vscode'', tg_IdentityFile = [], tg_StdioSupported = False\<rparr>, 1)"
    by (simp add: probeSSHTarget_def gh_run_def gh_Available_def provider0_def tools0_def maxCapturedOutput_def Let_def)
  from stale_login_heals [OF good auth sup _ _ probe] show ?thesis
    by (fastforce simp: provider0_def no_config_def gh_Available_def)
qed


section \<open>Nothing is left open\<close>

text \<open>
  A transport that counts what is open: child processes started and not cancelled, clients
  logged in and not closed, sessions opened and not closed, files opened and not closed, pipes that no process and no
  failed start has taken over. It also records three mishaps: a pipe that is refused, a client that
  logs in when nobody waits for it any more, a child that ends within 300 milliseconds of its start.
\<close>

datatype mishap = PipeRefused pipe_kind | LateClient | EndedEarly

record open_count =
  oc_procs :: int
  oc_clients :: int
  oc_sessions :: int
  oc_files :: int
  oc_pipes :: int
  oc_mishaps :: "mishap list"

definition struck :: "mishap \<Rightarrow> open_count \<Rightarrow> open_count" where
  "struck m n = n\<lparr>oc_mishaps := oc_mishaps n @ [m]\<rparr>"

definition piped :: "int \<Rightarrow> open_count \<Rightarrow> open_count" where
  "piped k n = n\<lparr>oc_pipes := oc_pipes n + k\<rparr>"

definition pipes_of :: "child_io \<Rightarrow> int" where
  "pipes_of io = (case io of OnTerminal _ \<Rightarrow> 0 | OnPipes ps \<Rightarrow> int (length ps))"

definition count_op :: "session_op \<Rightarrow> bool \<Rightarrow> open_count \<Rightarrow> open_count" where
  "count_op op1 ok n =
    (case op1 of
       OpNewSession \<Rightarrow> if ok then n\<lparr>oc_sessions := oc_sessions n + 1\<rparr> else n
     | OpClose \<Rightarrow> n\<lparr>oc_sessions := oc_sessions n - 1\<rparr>
     | OpCloseClient \<Rightarrow> n\<lparr>oc_clients := oc_clients n - 1\<rparr>
     | _ \<Rightarrow> n)"

definition count_file :: "file_op \<Rightarrow> bool \<Rightarrow> open_count \<Rightarrow> open_count" where
  "count_file op1 ok n =
    (case op1 of
       FOpen _ \<Rightarrow> if ok then n\<lparr>oc_files := oc_files n + 1\<rparr> else n
     | FClose _ \<Rightarrow> n\<lparr>oc_files := oc_files n - 1\<rparr>
     | _ \<Rightarrow> n)"

definition counted :: "('w \<Rightarrow> 'r \<times> 'w) \<Rightarrow> ('r \<Rightarrow> open_count \<Rightarrow> open_count) \<Rightarrow> 'w \<times> open_count \<Rightarrow> 'r \<times> 'w \<times> open_count" where
  "counted f g v = (case f (fst v) of (r, w1) \<Rightarrow> (r, w1, g r (snd v)))"

definition counting :: "'w transport \<Rightarrow> ('w \<times> open_count) transport" where
  "counting X =
    \<lparr>x_ptySupported = x_ptySupported X,
     x_file = (\<lambda>f. counted (x_file X f) (\<lambda>r. count_file f (is_ok r))),
     x_pipe = (\<lambda>k. counted (x_pipe X k) (\<lambda>r. if is_ok r then piped 1 else struck (PipeRefused k))),
     x_start = (\<lambda>x a e s. counted (x_start X x a e s)
        (\<lambda>r n. piped (- pipes_of s) (if is_ok r then n\<lparr>oc_procs := oc_procs n + 1\<rparr> else n))),
     x_early = (\<lambda>k. counted (x_early X k) (\<lambda>r n. if r = None then n else struck EndedEarly n)),
     x_tunnel = (\<lambda>x k. counted (x_tunnel X x k) (\<lambda>_ n. n)),
     x_refuse = x_refuse X,
     x_login = (\<lambda>k u. counted (x_login X k u)
        (\<lambda>r n. case r of LoggedIn _ \<Rightarrow> n\<lparr>oc_clients := oc_clients n + 1\<rparr> | _ \<Rightarrow> n)),
     x_late_key = (\<lambda>k. counted (x_late_key X k) (\<lambda>_ n. n)),
     x_late = (\<lambda>k u. counted (x_late X k u)
        (\<lambda>r n. if r = None then n else struck LateClient (n\<lparr>oc_clients := oc_clients n + 1\<rparr>))),
     x_op = (\<lambda>c op1. counted (x_op X c op1) (\<lambda>r. count_op op1 (r = None))),
     x_cancel = (\<lambda>k (w, n). (x_cancel X k w, if k = None then n else n\<lparr>oc_procs := oc_procs n - 1\<rparr>)),
     x_stderr = (\<lambda>(w, n). x_stderr X w),
     x_wait = (\<lambda>c. counted (x_wait X c) (\<lambda>_ n. n)),
     x_exit = (\<lambda>k. counted (x_exit X k) (\<lambda>_ n. n)),
     x_done = (\<lambda>k. counted (x_done X k) (\<lambda>_ n. n)),
     x_kill = (\<lambda>k (w, n). (x_kill X k w, n))\<rparr>"

definition lift_tools :: "'w tools \<Rightarrow> ('w \<times> open_count) tools" where
  "lift_tools T = \<lparr>t_environ = t_environ T, t_look = t_look T, t_stat = t_stat T,
     t_run = (\<lambda>x p a e (w, n). case t_run T x p a e w of (r, w1) \<Rightarrow> (r, w1, n))\<rparr>"

definition opened :: "open_count \<Rightarrow> int \<Rightarrow> int \<Rightarrow> int \<Rightarrow> int \<Rightarrow> open_count" where
  "opened n a b c d = \<lparr>oc_procs = oc_procs n + a, oc_clients = oc_clients n + b, oc_sessions = oc_sessions n + c,
     oc_files = oc_files n + d, oc_pipes = oc_pipes n, oc_mishaps = oc_mishaps n\<rparr>"

lemma opened_simps [simp]:
  "opened n 0 0 0 0 = n" "opened (opened n a b c d) a' b' c' d' = opened n (a + a') (b + b') (c + c') (d + d')"
  "n\<lparr>oc_procs := oc_procs n + k\<rparr> = opened n k 0 0 0" "n\<lparr>oc_clients := oc_clients n + k\<rparr> = opened n 0 k 0 0"
  "n\<lparr>oc_sessions := oc_sessions n + k\<rparr> = opened n 0 0 k 0" "n\<lparr>oc_files := oc_files n + k\<rparr> = opened n 0 0 0 k"
  "n\<lparr>oc_procs := oc_procs n - k\<rparr> = opened n (- k) 0 0 0" "n\<lparr>oc_clients := oc_clients n - k\<rparr> = opened n 0 (- k) 0 0"
  "n\<lparr>oc_sessions := oc_sessions n - k\<rparr> = opened n 0 0 (- k) 0" "n\<lparr>oc_files := oc_files n - k\<rparr> = opened n 0 0 0 (- k)"
  by (simp_all add: opened_def)

text \<open>What each operation of the counting transport does to the count, whatever the world answers.\<close>

lemma leak_counting_simps:
  "x_ptySupported (counting X) = x_ptySupported X" "x_refuse (counting X) = x_refuse X"
  "x_cancel (counting X) None (w, n) = (x_cancel X None w, n)"
  "x_cancel (counting X) (Some k) (w, n) = (x_cancel X (Some k) w, opened n (-1) 0 0 0)"
  "x_stderr (counting X) (w, n) = x_stderr X w" "x_kill (counting X) k (w, n) = (x_kill X k w, n)"
  by (simp_all add: counting_def)

lemma counting_op: "snd (snd (x_op (counting X) c op1 (w, n))) = count_op op1 (fst (x_op (counting X) c op1 (w, n)) = None) n"
  by (simp add: counting_def counted_def split: prod.splits)

lemma counting_file:
  "snd (snd (x_file (counting X) f (w, n))) = count_file f (is_ok (fst (x_file (counting X) f (w, n)))) n"
  by (simp add: counting_def counted_def split: prod.splits)

lemma counting_quiet:
  "snd (snd (x_late_key (counting X) k (w, n))) = n"
  "snd (snd (x_tunnel (counting X) x k (w, n))) = n" "snd (snd (x_done (counting X) k (w, n))) = n"
  by (simp_all add: counting_def counted_def split: prod.splits)

lemma counting_start:
  "snd (snd (x_start (counting X) x a e s (w, n))) =
    piped (- pipes_of s) (if is_ok (fst (x_start (counting X) x a e s (w, n))) then opened n 1 0 0 0 else n)"
  by (simp add: counting_def counted_def split: prod.splits)

lemma counting_login:
  "snd (snd (x_login (counting X) k u (w, n))) =
    (case fst (x_login (counting X) k u (w, n)) of LoggedIn _ \<Rightarrow> opened n 0 1 0 0 | _ \<Rightarrow> n)"
  by (simp add: counting_def counted_def split: prod.splits login_result.splits)

lemma set_env_count:
  "snd (set_env (counting X) c env (w, n)) = n"
proof (induction env arbitrary: w)
  case (Cons kv env)
  obtain k v where kv: "kv = (k, v)" by fastforce
  obtain w1 where "snd (x_op (counting X) c (OpSetenv k v) (w, n)) = (w1, n)"
    using counting_op [of X c "OpSetenv k v" w n] by (simp add: count_op_def) (metis prod.collapse)
  with Cons kv show ?case by simp
qed simp

lemma must_count:
  assumes "must (counting X) c ops (w, n) = (r, w', n')"
    and "\<forall>(op1, _)\<in>set ops. op1 \<notin> {OpNewSession, OpClose, OpCloseClient}"
  shows "n' = (if r = None then n else opened n 0 0 (-1) 0)"
  using assms
proof (induction ops arbitrary: w)
  case Nil
  then show ?case by simp
next
  case (Cons o1 ops)
  obtain op1 pre where o1: "o1 = (op1, pre)" by fastforce
  obtain r1 w1 n1 where x: "x_op (counting X) c op1 (w, n) = (r1, w1, n1)" by (metis prod_cases3)
  have n1: "n1 = n" using Cons.prems(2) o1 counting_op [of X c op1 w n] x by (cases op1) (simp_all add: count_op_def)
  show ?case
  proof (cases r1)
    case None
    with Cons.prems o1 x n1 have "must (counting X) c ops (w1, n) = (r, w', n')" by simp
    with Cons.IH [of w1] Cons.prems(2) show ?thesis by simp
  next
    case (Some e)
    have "snd (snd (x_op (counting X) c OpClose (w1, n))) = opened n 0 0 (-1) 0"
      by (simp add: counting_op count_op_def)
    with Cons.prems(1) o1 x n1 Some show ?thesis by auto
  qed
qed

lemma session_ops_plain: "\<forall>(op1, _)\<in>set (session_ops req). op1 \<notin> {OpNewSession, OpClose, OpCloseClient}"
  by (simp add: session_ops_def)

lemma startSession_count:
  assumes "startSession (counting X) c req (w, n) = (r, w', n')"
  shows "n' = (if r = None then opened n 0 0 1 0 else n)"
proof -
  obtain r1 w1 n1 where x: "x_op (counting X) c OpNewSession (w, n) = (r1, w1, n1)" by (metis prod_cases3)
  have n1: "n1 = (if r1 = None then opened n 0 0 1 0 else n)"
    using counting_op [of X c OpNewSession w n] x by (simp add: count_op_def)
  show ?thesis
  proof (cases r1)
    case (Some e)
    with assms x n1 show ?thesis by (auto simp: startSession_def)
  next
    case None
    obtain w2 where w2: "set_env (counting X) c (req_Env req) (w1, opened n 0 0 1 0) = (w2, opened n 0 0 1 0)"
      using set_env_count [of X c "req_Env req" w1 "opened n 0 0 1 0"] by (metis prod.collapse)
    have "must (counting X) c (session_ops req) (w2, opened n 0 0 1 0) = (r, w', n')"
      using assms x n1 None w2 by (simp add: startSession_def)
    from must_count [OF this session_ops_plain] show ?thesis by simp
  qed
qed

lemma give_up_count:
  "\<exists>e p1 w1. give_up (counting X) name user e0 cached k p (w, n) = (Inl e, p1, w1, opened n (-1) 0 0 0)"
proof -
  obtain e1 p1 where "stdioFailure name user e0 (captured (x_stderr (counting X) (w, n))) cached p = (e1, p1)" by fastforce
  then show ?thesis by (simp add: give_up_def leak_counting_simps)
qed

text \<open>
  What a connection holds, by its kind, and what mishaps leave behind: a pipe that is refused leaves those that were made before it
  for the same command, a client that logs in too late stays, and a child that ends at once leaves the master end of its terminal.
\<close>

definition held :: "live_conn \<Rightarrow> open_count \<Rightarrow> open_count" where
  "held c n =
    (case lc_via c of
       ViaStdio _ _ \<Rightarrow> opened n 1 1 1 0
     | ViaExec _ None \<Rightarrow> opened n 1 0 0 0
     | ViaExec _ (Some _) \<Rightarrow> opened n 1 0 0 1)"

fun earlier_pipes :: "pipe_kind \<Rightarrow> int" where
  "earlier_pipes PipeIn = 0"
| "earlier_pipes PipeOut = 1"
| "earlier_pipes PipeErr = 2"

definition left_by :: "bool \<Rightarrow> mishap \<Rightarrow> open_count \<Rightarrow> open_count" where
  "left_by pty m n = struck m
    (case m of
       PipeRefused k \<Rightarrow> piped (earlier_pipes k) n
     | LateClient \<Rightarrow> opened n 0 1 0 0
     | EndedEarly \<Rightarrow> opened n 0 0 0 (if pty then 1 else 0))"

definition left_open :: "bool \<Rightarrow> mishap list \<Rightarrow> open_count \<Rightarrow> open_count" where
  "left_open pty ms n = fold (left_by pty) ms n"

lemma left_open_simps [simp]:
  "left_open pty [] n = n" "left_open pty (m # ms) n = left_open pty ms (left_by pty m n)"
  by (simp_all add: left_open_def)

lemma left_by_simps [simp]:
  "opened (left_by pty m n) a b c d = left_by pty m (opened n a b c d)"
  "opened (struck m n) a b c d = struck m (opened n a b c d)" "opened (piped j n) a b c d = piped j (opened n a b c d)"
  "piped j (piped i n) = piped (i + j) n" "piped 0 n = n"
  by (simp_all add: left_by_def struck_def piped_def opened_def add.commute split: mishap.split)

definition settled :: "mishap list set \<Rightarrow> bool \<Rightarrow> open_count \<Rightarrow> (goerr + live_conn) \<Rightarrow> open_count \<Rightarrow> bool" where
  "settled M pty n r n' \<longleftrightarrow>
    (case r of
       Inr c \<Rightarrow> \<not> lc_closed c \<and> n' = held c n
     | Inl e \<Rightarrow> (\<exists>ms\<in>M. n' = left_open pty ms n))"

abbreviation late_or_none :: "mishap list set" where
  "late_or_none \<equiv> {[], [LateClient]}"

lemma settled_simps [simp]:
  "settled M pty n (Inl e) n' \<longleftrightarrow> (\<exists>ms\<in>M. n' = left_open pty ms n)"
  "settled M pty n (Inr c) n' \<longleftrightarrow> \<not> lc_closed c \<and> n' = held c n"
  by (simp_all add: settled_def)

text \<open>The goroutine of the handshake, when nobody waits for it.\<close>

lemma late_login_count:
  "\<exists>w1. late_login (counting X) k user (w, n) = (w1, n) \<or> late_login (counting X) k user (w, n) = (w1, left_by pty LateClient n)"
proof -
  obtain v w1 where "x_late X k user w = (v, w1)" by fastforce
  then show ?thesis by (cases v) (auto simp: late_login_def counting_def counted_def left_by_def)
qed

lemma late_handshake_count:
  assumes "late_handshake (counting X) name user k (r0, p0, w, n) = (r, p', w', n')"
  shows "r = r0 \<and> (n' = n \<or> n' = left_by pty LateClient n)"
proof -
  obtain key w1 where key: "x_late_key (counting X) k (w, n) = (key, w1, n)"
    using counting_quiet(1) [of X k w n] by (metis prod.collapse)
  show ?thesis
  proof (cases key)
    case (Some hk)
    obtain h f where h: "hk_check (gf_HostKeyPolicy (gp_cfg p0)) name hk (gp_hostKeys p0) = (h, f)" by fastforce
    show ?thesis
      using assms late_login_count [of X k user w1 n pty] key Some h by (cases h) (auto simp: late_handshake_def)
  qed (use assms key in \<open>simp add: late_handshake_def\<close>)
qed

lemma connect_login_count:
  assumes "connect_login (counting X) name req user cached k p (w, n) = (r, p', w', n')"
  shows "settled late_or_none pty (opened n (-1) 0 0 0) r n'"
proof -
  obtain l w1 n1 where l: "x_login (counting X) k user (w, n) = (l, w1, n1)" by (metis prod_cases3)
  have n1: "n1 = (case l of LoggedIn _ \<Rightarrow> opened n 0 1 0 0 | _ \<Rightarrow> n)"
    using counting_login [of X k user w n] l by simp
  let ?m = "opened n (-1) 0 0 0"
  show ?thesis
  proof (cases l)
    case (LoggedIn c)
    obtain s w2 n2 where s: "startSession (counting X) c req (w1, opened n 0 1 0 0) = (s, w2, n2)" by (metis prod_cases3)
    note n2 = startSession_count [OF s]
    show ?thesis
    proof (cases s)
      case None
      with l n1 LoggedIn s n2 assms show ?thesis by (auto simp: connect_login_def new_conn_def held_def)
    next
      case (Some e)
      obtain w3 where "snd (x_op (counting X) c OpCloseClient (w2, n2)) = (w3, n)"
        using n2 Some counting_op [of X c OpCloseClient w2 n2] by (simp add: count_op_def) (metis prod.collapse)
      with l n1 LoggedIn s Some assms give_up_count [of X name user e cached k p w3 n] show ?thesis
        by (auto simp: connect_login_def)
    qed
  next
    case (LoginFailed e)
    with l n1 assms give_up_count [of X name user e cached k p w1 n] show ?thesis
      by (auto simp: connect_login_def)
  next
    case (LoginExited v)
    obtain e p1 w2 where g: "give_up (counting X) name user (exited_early v) cached k p (w1, n) = (Inl e, p1, w2, ?m)"
      using give_up_count [of X name user "exited_early v" cached k p w1 n] by blast
    from l n1 assms g LoginExited late_login_count [of X k user w2 ?m pty] show ?thesis
      by (auto simp: connect_login_def)
  next
    case (LoginDone e)
    with l n1 assms late_login_count [of X k user "x_cancel X (Some k) w1" ?m pty] show ?thesis
      by (auto simp: connect_login_def leak_counting_simps)
  qed
qed

lemma connect_tunnel_count:
  assumes "connect_tunnel (counting X) x name req user cached k p (w, opened n 1 0 0 0) = (r, p', w', n')"
  shows "settled late_or_none pty n r n'"
proof -
  obtain t w1 where t: "x_tunnel (counting X) x k (w, opened n 1 0 0 0) = (t, w1, opened n 1 0 0 0)"
    using counting_quiet(2) [of X x k w "opened n 1 0 0 0"] by (metis prod.collapse)
  note start = assms [unfolded connect_tunnel_def t, simplified]
  obtain e1 p1 w2 where g: "give_up (counting X) name user e cached k q (w1, opened n 1 0 0 0) = (Inl (e1 e q), p1 e q, w2 e q, n)" for e q
    using give_up_count [of X name user _ cached k _ w1 "opened n 1 0 0 0"] by (simp; metis)
  have late: "settled late_or_none pty n r n'" if "late_handshake (counting X) name user k (Inl e, q, v, n) = (r, p', w', n')" for e q v
    using late_handshake_count [OF that, of pty] by auto
  show ?thesis
  proof (cases t)
    case (TunnelKey key)
    obtain h f where h: "hk_check (gf_HostKeyPolicy (gp_cfg p)) name key (gp_hostKeys p) = (h, f)" by fastforce
    show ?thesis
    proof (cases h)
      case (Some e)
      with start TunnelKey h g show ?thesis by auto
    next
      case None
      with start TunnelKey h have
        "connect_login (counting X) name req user cached k (p\<lparr>gp_hostKeys := f\<rparr>) (w1, opened n 1 0 0 0) = (r, p', w', n')"
        by simp
      from connect_login_count [OF this] show ?thesis by simp
    qed
  qed (use start g late in \<open>auto simp: leak_counting_simps\<close>)
qed

lemma sshUserFor_count:
  assumes "sshUserFor (lift_tools T) x name req p (w, n) = (r, p', w', n')"
  shows "n' = n"
proof -
  have run: "snd (snd (gh_run (lift_tools T) g x args (w, n))) = n" for g args
    by (simp add: gh_run_def lift_tools_def split: prod.split)
  have "snd (snd (probeSSHTarget (lift_tools T) g x name (w, n))) = n" for g
    using run [of g "[''codespace'', ''ssh'', ''-c'', name, ''--config'']"]
    by (auto simp: probeSSHTarget_def Let_def split: prod.splits option.splits)
  then show ?thesis
    using assms by (auto simp: sshUserFor_def Let_def split: if_splits prod.splits bool.splits sum.splits) (metis snd_conv)+
qed


lemma open_pipes_count:
  assumes "open_pipes (counting X) ks (w, n) = (r, w', n')"
  shows "case r of
      Inr hs \<Rightarrow> length hs = length ks \<and> n' = piped (int (length ks)) n
    | Inl e \<Rightarrow> (\<exists>m. e = Errorf m) \<and> (\<exists>i<length ks. n' = struck (PipeRefused (ks ! i)) (piped (int i) n))"
  using assms
proof (induction ks arbitrary: w n r w' n')
  case Nil
  then show ?case by auto
next
  case (Cons k ks)
  obtain a w1 n1 where a: "x_pipe (counting X) k (w, n) = (a, w1, n1)" by (metis prod_cases3)
  then have n1: "n1 = (if is_ok a then piped 1 n else struck (PipeRefused k) n)"
    by (auto simp: counting_def counted_def split: prod.splits)
  show ?case
  proof (cases a)
    case (Inl e)
    with Cons.prems a n1 show ?thesis by (auto intro!: exI [of _ 0])
  next
    case (Inr h)
    obtain b w2 n2 where b: "open_pipes (counting X) ks (w1, piped 1 n) = (b, w2, n2)" by (metis prod_cases3)
    show ?thesis
    proof (cases b)
      case (Inl e)
      with Cons.IH [OF b] obtain i m where "e = Errorf m" "i < length ks"
          "n2 = struck (PipeRefused (ks ! i)) (piped (int i) (piped 1 n))" by auto
      with Cons.prems a n1 \<open>a = Inr h\<close> b Inl show ?thesis by (auto intro!: exI [of _ "Suc i"] simp: add.commute)
    next
      case i2: (Inr hs)
      with Cons.IH [OF b] Cons.prems a n1 Inr b show ?thesis by (auto simp: add.commute)
    qed
  qed
qed

declare open_pipes.simps [simp del]

text \<open>The stdio connector: what it leaves when it fails for another reason than a refused pipe, and then.\<close>

lemma connectStdio_settled:
  assumes "connectStdio (lift_tools T) (counting X) x name req p (w, n) = (r, p', w', n')"
  shows "settled late_or_none pty n r n' \<or>
    (\<exists>m k. r = Inl (Errorf m) \<and> n' = left_open pty [PipeRefused k] n)"
proof -
  obtain u p1 w1 n1 where u: "sshUserFor (lift_tools T) x name req p (w, n) = (u, p1, w1, n1)" by (metis prod_cases4)
  have n1: "n1 = n" using sshUserFor_count [OF u] .
  show ?thesis
  proof (cases u)
    case (Inl e)
    with u n1 assms show ?thesis by (auto simp: connectStdio_def)
  next
    case (Inr uc)
    obtain user cached where uc: "uc = (user, cached)" by fastforce
    let ?p2 = "tell req tunnel_notice p1"
    obtain o1 w2 n2 where o1: "open_pipes (counting X) [PipeIn, PipeOut] (w1, n) = (o1, w2, n2)" by (metis prod_cases3)
    note n2 = open_pipes_count [OF o1]
    note run = assms [unfolded connectStdio_def u n1 Inr uc, simplified, unfolded Let_def o1]
    show ?thesis
    proof (cases o1)
      case (Inl e)
      with n2 obtain m i where m: "e = Errorf m" "i < Suc (Suc 0)" "n2 = struck (PipeRefused ([PipeIn, PipeOut] ! i)) (piped (int i) n)"
        by auto
      then have "n2 = left_open pty [PipeRefused ([PipeIn, PipeOut] ! i)] n"
        by (cases i) (auto simp: left_by_def)
      with run Inl m(1) show ?thesis by (auto simp: leak_counting_simps)
    next
      case (Inr hs)
      with n2 have n2: "n2 = piped 2 n" "pipes_of (OnPipes hs) = 2" by (simp_all add: pipes_of_def)
      obtain s w3 n3 where s: "x_start (counting X) x (stdio_args name ?p2) (command_env (lift_tools T) (gp_gh ?p2)) (OnPipes hs) (w2, n2)
          = (s, w3, n3)" by (metis prod_cases3)
      have n3: "n3 = (if is_ok s then opened n 1 0 0 0 else n)"
        using counting_start [of X x "stdio_args name ?p2" "command_env (lift_tools T) (gp_gh ?p2)" "OnPipes hs" w2 n2] s n2 by simp
      show ?thesis
        using run Inr s n3 connect_tunnel_count [of X x name req user cached _ ?p2 w3 n r p' w' n']
        by (cases s) (auto simp: leak_counting_simps)
    qed
  qed
qed

text \<open>Opening a terminal leaves both ends, or nothing.\<close>

lemma file_close_count: "\<exists>w1. file_close (counting X) f (w, n) = (w1, opened n 0 0 0 (-1))"
  using counting_file [of X "FClose f" w n] by (simp add: file_close_def count_file_def) (metis prod.collapse)

lemma openPTY_count:
  assumes "openPTY (counting X) (w, n) = (r, w', n')"
  shows "n' = (if is_ok r then opened n 0 0 0 2 else n)"
proof -
  obtain a w1 n1 where a: "x_file (counting X) (FOpen ''/dev/ptmx'') (w, n) = (a, w1, n1)" by (metis prod_cases3)
  have n1: "n1 = (if is_ok a then opened n 0 0 0 1 else n)"
    using counting_file [of X "FOpen ''/dev/ptmx''" w n] a by (simp add: count_file_def)
  show ?thesis
  proof (cases a)
    case (Inl e)
    with assms a n1 show ?thesis by (auto simp: openPTY_def)
  next
    case (Inr m)
    let ?n = "opened n 0 0 0 1"
    have shut: "\<exists>w'. file_close (counting X) m (w, ?n) = (w', n)" for w
      using file_close_count [of X m w ?n] by simp
    obtain b w2 where b: "x_file (counting X) (FUnlock m) (w1, ?n) = (b, w2, ?n)"
      using counting_file [of X "FUnlock m" w1 ?n] by (simp add: count_file_def) (metis prod.collapse)
    show ?thesis
    proof (cases b)
      case (Inl e)
      with assms a Inr n1 b shut [of w2] show ?thesis by (auto simp: openPTY_def)
    next
      case b1: (Inr u)
      obtain c w3 where c: "x_file (counting X) (FPtyNumber m) (w2, ?n) = (c, w3, ?n)"
        using counting_file [of X "FPtyNumber m" w2 ?n] by (simp add: count_file_def) (metis prod.collapse)
      show ?thesis
      proof (cases c)
        case (Inl e)
        with assms a Inr n1 b b1 c shut [of w3] show ?thesis by (auto simp: openPTY_def)
      next
        case c1: (Inr k)
        let ?path = "''/dev/pts/'' @ show_nat k"
        obtain d w4 n4 where d: "x_file (counting X) (FOpen ?path) (w3, ?n) = (d, w4, n4)" by (metis prod_cases3)
        have "n4 = (if is_ok d then opened n 0 0 0 2 else ?n)"
          using counting_file [of X "FOpen ?path" w3 ?n] d by (simp add: count_file_def)
        with assms a Inr n1 b b1 c c1 d shut [of w4] show ?thesis
          by (cases d) (auto simp: openPTY_def)
      qed
    qed
  qed
qed

definition ends_held :: "(nat \<times> nat) option \<Rightarrow> open_count \<Rightarrow> open_count" where
  "ends_held ends n = (case ends of None \<Rightarrow> piped 3 n | Some _ \<Rightarrow> opened n 0 0 0 2)"

lemma exec_ends_count:
  assumes "exec_ends (counting X) req (w, n) = (r, w', n')"
  shows "case r of
      Inl e \<Rightarrow> n' = n \<or> (\<exists>k. n' = left_open pty [PipeRefused k] n)
    | Inr (ends, io) \<Rightarrow> n' = ends_held ends n \<and> (ends \<noteq> None \<longleftrightarrow> req_PTY req) \<and>
        pipes_of io = (if ends = None then 3 else 0)"
proof (cases "req_PTY req")
  case False
  obtain o1 w1 n1 where o1: "open_pipes (counting X) [PipeIn, PipeOut, PipeErr] (w, n) = (o1, w1, n1)" by (metis prod_cases3)
  note n1 = open_pipes_count [OF o1]
  show ?thesis
  proof (cases o1)
    case (Inl e)
    with n1 obtain i where i: "i < Suc (Suc (Suc 0))" "n1 = struck (PipeRefused ([PipeIn, PipeOut, PipeErr] ! i)) (piped (int i) n)"
      by auto
    then have "i = 0 \<or> i = 1 \<or> i = 2" by auto
    with i have "n1 = left_open pty [PipeRefused ([PipeIn, PipeOut, PipeErr] ! i)] n"
      by (auto simp: left_by_def)
    with assms False o1 Inl show ?thesis by (auto simp: exec_ends_def)
  next
    case (Inr hs)
    with assms False o1 n1 show ?thesis by (auto simp: exec_ends_def ends_held_def pipes_of_def)
  qed
next
  case True
  obtain a w1 n1 where a: "openPTY (counting X) (w, n) = (a, w1, n1)" by (metis prod_cases3)
  note n1 = openPTY_count [OF a]
  show ?thesis
  proof (cases a)
    case (Inl e)
    with assms True a n1 show ?thesis by (auto simp: exec_ends_def)
  next
    case (Inr ms)
    obtain m s where ms: "ms = (m, s)" by fastforce
    have "snd (snd (x_file (counting X) (FWinsize m (req_Rows req) (req_Cols req)) (w1, n1))) = n1"
      by (simp add: counting_file count_file_def)
    with assms True a n1 Inr ms show ?thesis by (auto simp: exec_ends_def ends_held_def pipes_of_def split: if_splits)
  qed
qed

abbreviation exec_mishaps :: "mishap list set" where
  "exec_mishaps \<equiv> insert [] (insert [EndedEarly] (range (\<lambda>k. [PipeRefused k])))"

lemma counting_early:
  assumes "x_early (counting X) k (w, n) = (v, w', n')"
  shows "n' = (if v = None then n else struck EndedEarly n)"
  using assms by (auto simp: counting_def counted_def split: prod.splits)

lemma connectExec_settled:
  assumes "connectExec T' (counting X) x name req p (w, n) = (r, p', w', n')"
  shows "settled exec_mishaps (req_PTY req) n r n'"
proof (cases "req_PTY req \<and> \<not> x_ptySupported (counting X)")
  case True
  with assms show ?thesis by (auto simp: connectExec_def)
next
  case False
  obtain e w1 n1 where e: "exec_ends (counting X) req (w, n) = (e, w1, n1)" by (metis prod_cases3)
  note n1 = exec_ends_count [OF e, of "req_PTY req"]
  show ?thesis
  proof (cases e)
    case (Inl er)
    with assms False e have "r = Inl er \<and> n' = n1" by (auto simp: connectExec_def leak_counting_simps)
    with Inl n1 show ?thesis by auto
  next
    case (Inr ei)
    obtain ends io where ei: "ei = (ends, io)" by fastforce
    with n1 Inr have h: "n1 = ends_held ends n" "ends \<noteq> None \<longleftrightarrow> req_PTY req" "pipes_of io = (if ends = None then 3 else 0)"
      by simp_all
    obtain s w2 n2 where s: "x_start (counting X) x (exec_args name req p) (command_env T' (gp_gh p)) io (w1, n1) = (s, w2, n2)"
      by (metis prod_cases3)
    let ?kept = "if ends = None then n else opened n 0 0 0 2"
    have n2: "n2 = (if is_ok s then opened ?kept 1 0 0 0 else ?kept)"
      using counting_start [of X x "exec_args name req p" "command_env T' (gp_gh p)" io w1 n1] s h
      by (auto simp: ends_held_def split: option.splits)
    note run = assms [unfolded connectExec_def Let_def if_not_P [OF False] e Inr ei, simplified]
    show ?thesis
    proof (cases s)
      case (Inl er)
      have "\<exists>w3. (case ends of None \<Rightarrow> (w2, n2) | Some (m, s) \<Rightarrow> file_close (counting X) s (file_close (counting X) m (w2, n2))) = (w3, n)"
      proof (cases ends)
        case (Some ms)
        obtain m s where ms: "ms = (m, s)" by fastforce
        obtain v1 where v1: "file_close (counting X) m (w2, n2) = (v1, opened n 0 0 0 1)"
          using file_close_count [of X m w2 n2] n2 Inl Some by auto
        show ?thesis using file_close_count [of X s v1 "opened n 0 0 0 1"] v1 Some ms by auto
      qed (use n2 Inl in simp)
      with run s Inl show ?thesis by (auto simp: leak_counting_simps)
    next
      case i2: (Inr k)
      let ?n3 = "case ends of None \<Rightarrow> opened n 1 0 0 0 | Some _ \<Rightarrow> opened n 1 0 0 1"
      obtain w3 where w3: "(case ends of None \<Rightarrow> (w2, n2) | Some (_, s) \<Rightarrow> file_close (counting X) s (w2, n2)) = (w3, ?n3)"
        using n2 i2 file_close_count [of X _ w2 n2] by (cases ends) auto
      obtain v w4 n4 where v: "x_early (counting X) k (w3, ?n3) = (v, w4, n4)" by (metis prod_cases3)
      show ?thesis
        using run s i2 w3 v counting_early [OF v] h(2)
        by (cases v; cases ends) (auto simp: new_conn_def held_def leak_counting_simps left_by_def)
    qed
  qed
qed

text \<open>Closing a live connection gives back what it holds; closing it again does nothing.\<close>

lemma reap_count: "\<exists>w1. reap (counting X) k (w, n) = (w1, n)"
proof -
  obtain d w1 where "x_done (counting X) k (w, n) = (d, w1, n)"
    using counting_quiet(3) [of X k w n] by (metis prod.collapse)
  then show ?thesis by (cases d) (simp_all add: reap_def leak_counting_simps)
qed

lemma reap_world: "fst (reap (counting X) k (w, n)) = reap X k w"
  by (auto simp: reap_def counting_def counted_def split: prod.split bool.split)

lemma op_count: "\<exists>w1. snd (x_op (counting X) c op1 (w, n)) = (w1, snd (snd (x_op (counting X) c op1 (w, n))))"
  by (metis prod.collapse)

lemma close_gives_back:
  assumes "\<not> lc_closed c"
  shows "\<exists>c' w'. live_close (counting X) c (w, held c n) = (c', w', n) \<and> (\<forall>v. live_close Y c' v = (c', v))"
proof (cases "lc_via c")
  case (ViaStdio user client)
  obtain w1 where w1: "snd (x_op (counting X) client OpClose (w, opened n 1 1 1 0)) = (w1, opened n 1 1 0 0)"
    using op_count [of X client OpClose w "opened n 1 1 1 0"] by (auto simp: counting_op count_op_def)
  obtain w2 where w2: "snd (x_op (counting X) client OpCloseClient (w1, opened n 1 1 0 0)) = (w2, opened n 1 0 0 0)"
    using op_count [of X client OpCloseClient w1 "opened n 1 1 0 0"] by (auto simp: counting_op count_op_def)
  obtain w3 where "reap (counting X) (lc_proc c) (x_cancel X (Some (lc_proc c)) w2, n) = (w3, n)"
    using reap_count by metis
  with assms ViaStdio w1 w2 show ?thesis by (simp add: live_close_def held_def leak_counting_simps)
next
  case (ViaExec pty master)
  obtain w1 where w1: "reap (counting X) (lc_proc c) (x_cancel X (Some (lc_proc c)) w, opened n 0 0 0 j) =
      (w1, opened n 0 0 0 j)" for j
    using reap_count reap_world by (metis fst_conv)
  show ?thesis
    using assms ViaExec file_close_count [of X _ w1 "opened n 0 0 0 1"] w1 [of 0] w1 [of 1]
    by (cases master) (auto simp: live_close_def held_def leak_counting_simps Let_def)
qed

lemma left_open_append: "left_open pty (ms @ ms') n = left_open pty ms' (left_open pty ms n)"
  by (simp add: left_open_def)

lemma mishaps_left: "oc_mishaps (left_open pty ms n) = oc_mishaps n @ ms"
proof (induction ms arbitrary: n)
  case (Cons m ms)
  have "oc_mishaps (left_by pty m n) = oc_mishaps n @ [m]"
    by (auto simp: left_by_def struck_def opened_def piped_def split: mishap.split)
  with Cons show ?case by simp
qed simp

definition connect_settled :: "bool \<Rightarrow> open_count \<Rightarrow> (goerr + live_conn) \<Rightarrow> open_count \<Rightarrow> bool" where
  "connect_settled pty n r n' \<longleftrightarrow>
    (\<exists>late rest. late \<in> late_or_none \<and> rest \<in> exec_mishaps \<and>
      (case r of
         Inl e \<Rightarrow> n' = left_open pty (late @ rest) n
       | Inr c \<Rightarrow> \<not> lc_closed c \<and> n' = held c (left_open pty late n)))"

lemma settled_both:
  assumes "settled exec_mishaps pty (left_open pty late n) r n'" and "late \<in> late_or_none"
  shows "connect_settled pty n r n'"
proof (cases r)
  case (Inl e)
  with assms(1) obtain rest where "rest \<in> exec_mishaps" "n' = left_open pty (late @ rest) n"
    by (auto simp only: settled_simps left_open_append)
  with Inl assms(2) show ?thesis unfolding connect_settled_def by auto
next
  case (Inr c)
  with assms show ?thesis unfolding connect_settled_def by (intro exI [of _ late] exI [of _ "[]"]) auto
qed

lemmas settled_exec_only = settled_both [of _ "[]", simplified]

lemma settled_stdio_only:
  assumes "settled late_or_none pty n r n' \<or> (\<exists>m k. r = Inl (Errorf m) \<and> n' = left_open pty [PipeRefused k] n)"
  shows "connect_settled pty n r n'"
  using assms
proof
  assume s: "settled late_or_none pty n r n'"
  show ?thesis
  proof (cases r)
    case (Inl e)
    with s have "\<exists>ms\<in>late_or_none. n' = left_open pty ms n" by (simp only: settled_simps)
    then obtain late where "late \<in> late_or_none" "n' = left_open pty late n" by blast
    with Inl show ?thesis unfolding connect_settled_def by (intro exI [of _ late] exI [of _ "[]"]) simp
  next
    case (Inr c)
    with s show ?thesis unfolding connect_settled_def by (intro exI [of _ "[]"]) simp
  qed
next
  assume "\<exists>m k. r = Inl (Errorf m) \<and> n' = left_open pty [PipeRefused k] n"
  then obtain m k where "r = Inl (Errorf m)" "n' = left_open pty [PipeRefused k] n" by blast
  then show ?thesis unfolding connect_settled_def by (intro exI [of _ "[]"] exI [of _ "[PipeRefused k]"]) simp
qed

text \<open>
  C16: A connection owns what it opened, and what a failed one leaves is known exactly. Whatever the child process, the pipes,
  the terminal, the tunnel, the login and the requests of the inner session answer, when \<open>Connect\<close> fails every child process it
  started is cancelled and every client, session, file and pipe is closed, but for what three mishaps leave: a client that logs in
  after the wait for it was given up is not closed, the pipes that were made before one that is refused are not closed, and
  a child that ends within 300 milliseconds of its start on a local terminal leaves the terminal's master end open
  (\<open>left_open\<close>; without a mishap nothing is left). The late client can come with one of the other
  two, when the exec connector takes over from the stdio connector, or alone. When \<open>Connect\<close> succeeds, everything else that is open is the
  connection's own, and \<open>Close\<close> closes all of it and acts once.
\<close>

theorem connect_leaves_nothing:
  assumes "gh_Connect (lift_tools T) (counting X) x name req p (w, n) = (r, p', w', n')"
  shows "\<exists>late rest.
    (late = [] \<or> late = [LateClient]) \<and> (rest = [] \<or> rest = [EndedEarly] \<or> (\<exists>k. rest = [PipeRefused k])) \<and>
    (case r of
       Inl e \<Rightarrow> n' = left_open (req_PTY req) (late @ rest) n
     | Inr c \<Rightarrow> n' = held c (left_open (req_PTY req) late n) \<and>
         (\<exists>c' w''. live_close (counting X) c (w', n') = (c', w'', left_open (req_PTY req) late n) \<and>
           (\<forall>v. live_close (counting X) c' v = (c', v))))"
proof -
  let ?pty = "req_PTY req"
  obtain r1 p1 w1 n1 where s: "connectStdio (lift_tools T) (counting X) x name req p (w, n) = (r1, p1, w1, n1)"
    by (metis prod_cases4)
  note S = connectStdio_settled [OF s, of ?pty]
  have "connect_settled ?pty n r n'"
  proof (cases "gh_Available (gp_gh p) \<and> gp_connector p \<noteq> ''exec''")
    case False
    then have "settled exec_mishaps ?pty n r n'"
      using assms connectExec_settled [of "lift_tools T" X x name req p w n r p' w' n'] by (auto simp: gh_Connect_def split: if_splits)
    then show ?thesis by (rule settled_exec_only)
  next
    case True
    show ?thesis
    proof (cases "\<exists>e. r1 = Inl e \<and> errors_Is e ErrStdioUnsupported \<and> gp_connector p \<noteq> ''stdio''")
      case False
      then have "(r, n') = (r1, n1)" using True assms s by (auto simp: gh_Connect_def split: sum.splits if_splits)
      with S show ?thesis by (intro settled_stdio_only) simp
    next
      case e: True
      then have "connectExec (lift_tools T) (counting X) x name req (p1\<lparr>gp_connector := ''exec''\<rparr>) (w1, n1) = (r, p', w', n')"
        using True assms s by (auto simp: gh_Connect_def)
      note E = connectExec_settled [OF this]
      from e obtain er where er: "r1 = Inl er" "errors_Is er ErrStdioUnsupported" by blast
      have "settled late_or_none ?pty n r1 n1" using S er by auto
      then have "\<exists>ms\<in>late_or_none. n1 = left_open ?pty ms n" by (simp only: er(1) settled_simps)
      then obtain late where "late \<in> late_or_none" "n1 = left_open ?pty late n" by blast
      with E show ?thesis by (intro settled_both) simp_all
    qed
  qed
  then obtain late rest where l: "late = [] \<or> late = [LateClient]" "rest = [] \<or> rest = [EndedEarly] \<or> (\<exists>k. rest = [PipeRefused k])"
    and c: "case r of Inl e \<Rightarrow> n' = left_open ?pty (late @ rest) n | Inr c \<Rightarrow> \<not> lc_closed c \<and> n' = held c (left_open ?pty late n)"
    unfolding connect_settled_def by blast
  from c show ?thesis
    using close_gives_back [of _ X w' "left_open ?pty late n" "counting X"]
    by (intro exI [of _ late] exI [of _ rest] conjI l) (auto split: sum.splits)
qed

definition req0 :: connect_request where
  "req0 = \<lparr>req_PTY = False, req_Term = [], req_Rows = 0, req_Cols = 0, req_Modes = [], req_Command = [],
     req_Subsystem = ''sftp'', req_Env = [], req_Progress = None\<rparr>"

text \<open>
  A transport whose codespace has no such subsystem, and whose child on a terminal ends at once. Then one that refuses the third
  pipe, and whose child ends, without \<open>--stdio\<close>, while the handshake succeeds.
\<close>

definition transport0 :: "nat transport" where
  "transport0 = \<lparr>x_ptySupported = True, x_file = (\<lambda>f w. (Inr 7, w)), x_pipe = (\<lambda>k w. (Inr 3, w)),
     x_start = (\<lambda>x a e s w. (Inr 0, w)), x_early = (\<lambda>k w. (Some ''exit status 1'', w)),
     x_tunnel = (\<lambda>x k w. (TunnelKey \<lparr>hk_line = ''ssh-ed25519 AAAA'' @ [nl], hk_fingerprint = ''f''\<rparr>, w)),
     x_refuse = id, x_login = (\<lambda>k u w. (LoggedIn 0, w)), x_late_key = (\<lambda>k w. (None, w)), x_late = (\<lambda>k u w. (None, w)),
     x_op = (\<lambda>c op1 w. (if op1 = OpSubsystem ''sftp'' then Some (Errorf ''subsystem request failed'') else None, w)),
     x_cancel = (\<lambda>k w. w), x_stderr = (\<lambda>w. []), x_wait = (\<lambda>c w. (WaitNil, w)), x_exit = (\<lambda>k w. (Some 0, w)),
     x_done = (\<lambda>k w. (True, w)), x_kill = (\<lambda>k w. w)\<rparr>"

definition transport1 :: "nat transport" where
  "transport1 = transport0\<lparr>x_pipe := (\<lambda>k w. (if k = PipeErr then Inl ''pipe: too many open files'' else Inr 3, w)),
     x_login := (\<lambda>k u w. (LoginExited ''exit status 1'', w)), x_late := (\<lambda>k u w. (Some 0, w)),
     x_stderr := (\<lambda>w. [''unknown flag: --stdio''])\<rparr>"

abbreviation nothing_open :: open_count where
  "nothing_open \<equiv> \<lparr>oc_procs = 0, oc_clients = 0, oc_sessions = 0, oc_files = 0, oc_pipes = 0, oc_mishaps = []\<rparr>"

lemma connect_leaves_nothing_witness:
  "\<exists>r p' w'. gh_Connect (lift_tools tools0) (counting transport0) ctx_free ''box'' req0
      (provider0\<lparr>gp_cfg := no_config\<lparr>gf_SSHUser := ''vscode'', gf_HostKeyPolicy := ''insecure''\<rparr>, gp_connector := ''stdio''\<rparr>)
      (0, nothing_open) = (Inl r, p', w', nothing_open)"
proof -
  let ?p = "provider0\<lparr>gp_cfg := no_config\<lparr>gf_SSHUser := ''vscode'', gf_HostKeyPolicy := ''insecure''\<rparr>,
    gp_connector := ''stdio''\<rparr>"
  obtain r p' w' n' where R: "gh_Connect (lift_tools tools0) (counting transport0) ctx_free ''box'' req0 ?p
      (0, nothing_open) = (r, p', w', n')" by (metis prod_cases4)
  have "\<not> is_ok r \<and> oc_mishaps n' = []"
    using R
    by (auto simp: gh_Connect_def gh_Available_def provider0_def connectStdio_def connect_tunnel_def sshUserFor_def tell_def
        req0_def counting_def counted_def transport0_def hk_check_def connect_login_def startSession_def session_ops_def open_pipes.simps
        count_op_def give_up_def piped_def pipes_of_def opened_def Let_def split: prod.splits)
  then obtain e where e: "r = Inl e" and m: "oc_mishaps n' = []" by (cases r) auto
  from connect_leaves_nothing [OF R] e obtain late rest where "n' = left_open (req_PTY req0) (late @ rest) nothing_open" by auto
  with m have "n' = nothing_open" using mishaps_left [of "req_PTY req0" "late @ rest" nothing_open] by simp
  with R e show ?thesis by auto
qed

text \<open>The cases that leave something open: the terminal, and both others in one call.\<close>

lemma terminal_left_open:
  "\<exists>e p' w'. gh_Connect (lift_tools tools0) (counting transport0) ctx_free ''box'' (req0\<lparr>req_PTY := True\<rparr>)
      (provider0\<lparr>gp_connector := ''exec''\<rparr>) (0, nothing_open) = (Inl e, p', w', nothing_open\<lparr>oc_files := 1, oc_mishaps := [EndedEarly]\<rparr>)"
  by (simp add: gh_Connect_def gh_Available_def provider0_def connectExec_def exec_ends_def openPTY_def file_close_def
      tell_def req0_def counting_def counted_def transport0_def count_file_def opened_def pipes_of_def piped_def struck_def Let_def)

lemma pipes_left_open:
  "\<exists>e p' w'. gh_Connect (lift_tools tools0) (counting transport1) ctx_free ''box'' req0
      (provider0\<lparr>gp_connector := ''exec''\<rparr>) (0, nothing_open) =
      (Inl e, p', w', nothing_open\<lparr>oc_pipes := 2, oc_mishaps := [PipeRefused PipeErr]\<rparr>)"
  by (simp add: gh_Connect_def gh_Available_def provider0_def connectExec_def exec_ends_def open_pipes.simps
      tell_def req0_def counting_def counted_def transport1_def transport0_def piped_def struck_def Let_def)

lemma client_left_open:
  "\<exists>e p' w'. connect_tunnel (counting transport1) ctx_free ''box'' req0 ''vscode'' False 0
      (provider0\<lparr>gp_cfg := no_config\<lparr>gf_SSHUser := ''vscode'', gf_HostKeyPolicy := ''insecure''\<rparr>\<rparr>) (0, nothing_open\<lparr>oc_procs := 1\<rparr>) =
      (Inl e, p', w', nothing_open\<lparr>oc_clients := 1, oc_mishaps := [LateClient]\<rparr>)"
  by (simp add: connect_tunnel_def connect_login_def late_login_def provider0_def
      req0_def counting_def counted_def transport1_def transport0_def hk_check_def give_up_def opened_def struck_def Let_def
      split: prod.split)


section \<open>Terminal modes\<close>

text \<open>The wire form of terminal modes: an opcode and four bytes each, then opcode 0.\<close>

definition mode_bytes :: "32 word \<Rightarrow> string" where
  "mode_bytes v = [char_of (unat (drop_bit 24 v)), char_of (unat (drop_bit 16 v)), char_of (unat (drop_bit 8 v)),
     char_of (unat v)]"

lemma byte_of: "(of_nat (of_char (char_of (unat x) :: char)) :: 32 word) = take_bit 8 (x :: 32 word)"
proof -
  have "(of_char (char_of (unat x) :: char) :: nat) = take_bit 8 (unat x)"
    by (simp add: take_bit_eq_mod)
  also have "\<dots> = unat (take_bit 8 x)" by (rule unsigned_take_bit_eq [symmetric])
  finally show ?thesis by simp
qed

lemma mode_value_bytes:
  "mode_value (char_of (unat (drop_bit 24 v))) (char_of (unat (drop_bit 16 v))) (char_of (unat (drop_bit 8 v)))
     (char_of (unat v)) = v"
  unfolding mode_value_def byte_of
proof (rule bit_word_eqI)
  fix n
  assume n: "n < LENGTH(32)"
  have s: "8 + (n - 8) = n" if "8 \<le> n" using that by simp
  consider "n < 8" | "8 \<le> n" "n < 16" | "16 \<le> n" "n < 24" | "24 \<le> n" "n < 32" using n by fastforce
  then show "bit (or (push_bit 24 (take_bit 8 (drop_bit 24 v))) (or (push_bit 16 (take_bit 8 (drop_bit 16 v)))
      (or (push_bit 8 (take_bit 8 (drop_bit 8 v))) (take_bit 8 v)))) n = bit v n"
    by cases (auto simp: bit_simps)
qed

fun encode_modes :: "(char \<times> 32 word) list \<Rightarrow> string" where
  "encode_modes [] = [CHR 0x00]"
| "encode_modes ((oc, v) # ms) = oc # mode_bytes v @ encode_modes ms"

lemma decode_encode:
  "CHR 0x00 \<notin> fst ` set ms \<Longrightarrow> decode_modes (encode_modes ms @ junk) m = fold (\<lambda>(oc, v). AList.update oc v) ms m"
proof (induction ms arbitrary: m)
  case Nil
  show ?case by (rule decode_modes.cases [of "(CHR 0x00 # junk, m)"]) auto
next
  case (Cons e ms)
  obtain oc v where e: "e = (oc, v)" by fastforce
  with Cons.prems have "oc \<noteq> CHR 0x00" by auto
  with e Cons show ?case by (simp add: mode_bytes_def mode_value_bytes)
qed

lemma fold_update_map_of:
  "map_of (fold (\<lambda>(k, v). AList.update k v) ms m) = (\<lambda>k. case map_of (rev ms) k of None \<Rightarrow> map_of m k | Some v \<Rightarrow> Some v)"
proof (induction ms arbitrary: m)
  case (Cons e ms)
  obtain k v where e: "e = (k, v)" by fastforce
  show ?case by (rule ext) (simp add: Cons.IH e map_add_def split: option.splits)
qed simp

lemma fold_update_nonempty: "m \<noteq> [] \<or> ms \<noteq> [] \<Longrightarrow> fold (\<lambda>(k, v). AList.update k v) ms m \<noteq> []"
proof (induction ms arbitrary: m)
  case (Cons e ms)
  have "AList.update a b m \<noteq> []" for a b by (cases m) auto
  with Cons.IH show ?case by (cases e) simp
qed simp

text \<open>
  Terminal modes survive the gateway. The modes a client encodes are replayed on the inner session
  with their values, the last one where an opcode is repeated, and whatever follows the end
  marker is ignored.
\<close>

theorem terminal_modes_replayed:
  assumes "CHR 0x00 \<notin> fst ` set ms" and "ms \<noteq> []"
  shows "map_of (parseTerminalModes (encode_modes ms @ junk)) = map_of (rev ms)"
  using fold_update_nonempty [of "[]" ms] assms
  by (simp add: parseTerminalModes_def decode_encode fold_update_map_of Let_def fun_eq_iff split: option.splits)

lemma terminal_modes_replayed_witness:
  "map_of (parseTerminalModes (encode_modes [(CHR 0x35, 0), (CHR 0x03, 127)] @ ''xx'')) (CHR 0x03) = Some 127"
  using terminal_modes_replayed [of "[(CHR 0x35, 0), (CHR 0x03, 127)]" "''xx''"] by simp

end
