(* ===== verification/GithubDiagnose.thy ===== *)
theory GithubDiagnose
  imports GithubProvider Ensure
begin

text \<open>
  The provider's self-checks (\<open>providers/github/diagnose.go\<close>), which \<open>gateway doctor\<close> prints: the
  GitHub CLI, the token, its scope, the configured codespace and the connection settings.
\<close>

record diagnostic =
  dg_Name :: string
  dg_OK :: bool
  dg_Detail :: string
  dg_Hint :: string

definition diag :: "string \<Rightarrow> bool \<Rightarrow> string \<Rightarrow> string \<Rightarrow> diagnostic" where
  "diag name ok detail hint = \<lparr>dg_Name = name, dg_OK = ok, dg_Detail = detail, dg_Hint = hint\<rparr>"

definition diag_gh :: "'w tools \<Rightarrow> 'w net \<Rightarrow> ctx \<Rightarrow> gh_provider \<Rightarrow> 'w \<Rightarrow> diagnostic \<times> 'w" where
  "diag_gh T N x p w =
    (if \<not> gh_Available (gp_gh p) then
       (diag ''gh cli'' False
          (''not found: '' @ (case gp_ghErr p of None \<Rightarrow> ''<nil>'' | Some e \<Rightarrow> err_text e))
          (''install https://cli.github.com or set github.gh_path; lifecycle commands work without it, '' @
           ''connections do not''), w)
     else
       (case gh_Version T (gp_gh p) (WithTimeout x (20 * second) (n_now N w)) w of
          (Inl e, w1) \<Rightarrow> (diag ''gh cli'' False (gh_path (gp_gh p) @ '': '' @ err_text e) [], w1)
        | (Inr version, w1) \<Rightarrow>
           (diag ''gh cli'' True
              (if version \<noteq> [] then gh_path (gp_gh p) @ '' ('' @ version @ '')'' else gh_path (gp_gh p)) [], w1)))"

definition diag_token :: "gh_provider \<Rightarrow> (goerr + string) \<Rightarrow> diagnostic" where
  "diag_token p r =
    (let src = ''source: '' @ token_source_name (gp_tokenSrc p)
     in case r of
          Inr login \<Rightarrow> diag ''github token'' True (src @ '', authenticated as '' @ login) []
        | Inl e \<Rightarrow>
           if errors_Is e ErrAuth then
             diag ''github token'' False (src @ '', rejected by GitHub: '' @ err_text e)
               (''create a token with the '' @ [CHR 0x22] @ ''codespace'' @ [CHR 0x22] @ '' scope, or run `gh auth login`'')
           else diag ''github token'' False (src @ '', could not be verified: '' @ err_text e) [])"

definition diag_scope :: "(goerr + codespace list) \<Rightarrow> diagnostic" where
  "diag_scope r =
    (case r of
       Inr l \<Rightarrow> diag ''codespace scope'' True (show_nat (length l) @ '' codespace(s) visible'') []
     | Inl e \<Rightarrow> diag ''codespace scope'' False (err_text e)
         (if errors_Is e ErrAuth
          then ''the token is missing the '' @ [CHR 0x22] @ ''codespace'' @ [CHR 0x22] @ '' scope'' else []))"

text \<open>Idle timeouts are whole minutes, printed as Go prints such a duration.\<close>

definition found_detail :: "string \<Rightarrow> environment \<Rightarrow> string" where
  "found_detail handle env =
    handle @ '' resolves to '' @ env_ID env @ '' (state '' @ state_name (env_State env) @ '', github state '' @
    env_NativeState env @ '')'' @
    (if env_IdleTimeout env > 0 then '', idle timeout '' @ seconds_text (env_IdleTimeout env div second) else [])"

definition missing_diag :: "string \<Rightarrow> string \<Rightarrow> codespace list \<Rightarrow> diagnostic" where
  "missing_diag handle repo l =
    (let base = handle @ '' '' @ utf8 [0x4E0D, 0x5B58, 0x5728]
     in if length l = 1 then
          diag ''default codespace'' True
            (base @ utf8 [0xFF1B, 0x4F1A, 0x81EA, 0x52A8, 0x6539, 0x7528, 0x8D26, 0x53F7, 0x91CC, 0x552F, 0x4E00, 0x7684] @ '' '' @ gc_Name (hd l))
            (utf8 [0x60F3, 0x56FA, 0x5B9A, 0x4E0B, 0x6765, 0xFF1A] @ '' gateway codespace select '' @ gc_Name (hd l))
        else if repo \<noteq> [] then
          diag ''default codespace'' True
            (base @ utf8 [0xFF1B, 0x9996, 0x6B21, 0x8FDE, 0x63A5, 0x65F6, 0x4F1A, 0x4ECE] @ '' '' @ repo @ '' '' @ utf8 [0x521B, 0x5EFA]) []
        else if length l > 1 then
          diag ''default codespace'' False base
            (utf8 [0x8D26, 0x53F7, 0x91CC, 0x6709, 0x591A, 0x4E2A] @ '' codespace'' @ utf8 [0xFF1A] @ ''gateway codespace select <name>'')
        else
          diag ''default codespace'' False base
            (utf8 [0x8BBE, 0x7F6E] @ '' github.create.repository '' @ utf8 [0x5141, 0x8BB8, 0x81EA, 0x52A8, 0x521B, 0x5EFA, 0xFF0C, 0x6216, 0x5148, 0x5EFA, 0x4E00, 0x4E2A] @ '' codespace''))"

definition diag_default ::
  "'w net \<Rightarrow> ctx \<Rightarrow> (goerr + codespace list) \<Rightarrow> gh_provider \<Rightarrow> 'w \<Rightarrow> diagnostic \<times> gh_provider \<times> 'w" where
  "diag_default N x listed p w =
    (let handle = gf_Codespace (gp_cfg p); repo = cc_Repository (gf_Create (gp_cfg p));
         l = (case listed of Inr l \<Rightarrow> l | Inl _ \<Rightarrow> [])
     in if handle = [] then
          (diag ''default codespace'' False ''not configured''
             (if repo \<noteq> [] then ''not set; the gateway would create one from '' @ repo
              else ''run `gateway codespace select <name>`''), p, w)
        else
          (case gh_Get N (WithTimeout x (30 * second) (n_now N w)) handle p w of
             (Inr env, p1, w1) \<Rightarrow> (diag ''default codespace'' True (found_detail handle env) [], p1, w1)
           | (Inl e, p1, w1) \<Rightarrow>
              (if errors_Is e ErrNotFound then missing_diag handle repo l
               else diag ''default codespace'' False (err_text e) [], p1, w1)))"

definition Diagnose ::
  "'w tools \<Rightarrow> 'w net \<Rightarrow> ctx \<Rightarrow> gh_provider \<Rightarrow> 'w \<Rightarrow> diagnostic list \<times> gh_provider \<times> 'w" where
  "Diagnose T N x p w =
    (case diag_gh T N x p w of
       (d1, w1) \<Rightarrow>
         (case currentUser N (gp_api p) (WithTimeout x (30 * second) (n_now N w1)) w1 of
            (login, w2) \<Rightarrow>
              (case listCodespaces N (gp_api p) (WithTimeout x (30 * second) (n_now N w2)) w2 of
                 (listed, w3) \<Rightarrow>
                   (case diag_default N x listed p w3 of
                      (d4, p1, w4) \<Rightarrow>
                        ([d1, diag_token p login, diag_scope listed, d4,
                          diag ''connector'' True (gp_connector p1 @ '' (host key policy: '' @
                            gf_HostKeyPolicy (gp_cfg p1) @ '')'') [],
                          diag ''gateway key'' True (kp_PublicPath (gp_keys p1) @ '' ('' @ kp_fingerprint (gp_keys p1) @ '')'')
                            (''registered with the codespace by `gh codespace ssh -- -i`, separate from the '' @
                             ''gateway host key'')],
                         p1, w4)))))"

text \<open>When every check passes, \<open>gh\<close> runs, GitHub takes the token and lists the codespaces.\<close>

lemma all_checks_pass:
  assumes "Diagnose T N x p w = (ds, p', w')" and "list_all dg_OK ds"
  shows "gh_Available (gp_gh p) \<and> gf_Codespace (gp_cfg p) \<noteq> [] \<and>
    (\<exists>login w1 w2. currentUser N (gp_api p) (WithTimeout x (30 * second) (n_now N w1)) w1 = (Inr login, w2) \<and>
      (\<exists>l. fst (listCodespaces N (gp_api p) (WithTimeout x (30 * second) (n_now N w2)) w2) = Inr l))"
proof -
  obtain d1 w1 where d1: "diag_gh T N x p w = (d1, w1)" by fastforce
  obtain login w2 where u: "currentUser N (gp_api p) (WithTimeout x (30 * second) (n_now N w1)) w1 = (login, w2)"
    by fastforce
  obtain listed w3 where l: "listCodespaces N (gp_api p) (WithTimeout x (30 * second) (n_now N w2)) w2 = (listed, w3)"
    by fastforce
  obtain d4 p1 w4 where d4: "diag_default N x listed p w3 = (d4, p1, w4)" by (metis prod_cases3)
  have ok: "dg_OK d1" "dg_OK (diag_token p login)" "dg_OK (diag_scope listed)" "dg_OK d4"
    using assms d1 u l d4 by (auto simp: Diagnose_def)
  have "gh_Available (gp_gh p)" using ok(1) d1 by (auto simp: diag_gh_def diag_def split: if_splits)
  moreover have "\<exists>s. login = Inr s" using ok(2)
    by (cases login) (auto simp: diag_token_def diag_def Let_def split: if_splits)
  moreover have "\<exists>s. listed = Inr s" using ok(3) by (cases listed) (auto simp: diag_scope_def diag_def)
  moreover have "gf_Codespace (gp_cfg p) \<noteq> []"
    using ok(4) d4 by (auto simp: diag_default_def diag_def Let_def split: if_splits)
  ultimately show ?thesis using u l by fastforce
qed

end
