(* ===== verification/ConfigFile.thy ===== *)
theory ConfigFile
  imports SshAuth Lifecycle Redaction
begin

text \<open>
  The configuration file (\<open>core/config\<close>): where it and the state live (\<open>paths.go\<close>), the defaults
  (\<open>config.go\<close>), loading and validation (\<open>load.go\<close>). The YAML library is a parameter: how a
  file is split into top-level nodes and how a node is decoded into a section.
\<close>

section \<open>Paths (Go standard library)\<close>

text \<open>\<open>filepath.Clean\<close>, \<open>Join\<close> and \<open>Dir\<close> on Unix; the first argument says that a path is rooted.\<close>

fun clean_parts :: "bool \<Rightarrow> string list \<Rightarrow> string list \<Rightarrow> string list" where
  "clean_parts r out [] = rev out"
| "clean_parts r out (c # cs) =
    (if c = [] \<or> c = ''.'' then clean_parts r out cs
     else if c = ''..'' then
       (case out of
          [] \<Rightarrow> if r then clean_parts r [] cs else clean_parts r [c] cs
        | o1 # os \<Rightarrow> if o1 = ''..'' then clean_parts r (c # out) cs else clean_parts r os cs)
     else clean_parts r (c # out) cs)"

definition path_Clean :: "string \<Rightarrow> string" where
  "path_Clean p =
    (if p = [] then ''.''
     else
       (let r = HasPrefix p ''/''; body = Join (clean_parts r [] (split_on (CHR ''/'') p)) ''/''
        in if r then ''/'' @ body else if body = [] then ''.'' else body))"

definition path_Join :: "string list \<Rightarrow> string" where
  "path_Join elems =
    (case dropWhile (\<lambda>e. e = []) elems of [] \<Rightarrow> [] | es \<Rightarrow> path_Clean (Join es ''/''))"

definition path_Dir :: "string \<Rightarrow> string" where
  "path_Dir p = path_Clean (case last_index (CHR ''/'') p of None \<Rightarrow> [] | Some i \<Rightarrow> take (i + 1) p)"

section \<open>Locations (core/config/paths.go)\<close>

record host_env =
  he_getenv :: "string \<Rightarrow> string"
  he_home :: "goerr + string"

definition AppName :: string where
  "AppName = ''ssh-gateway''"

definition homeDir :: "host_env \<Rightarrow> string" where
  "homeDir H = (case he_home H of Inr h \<Rightarrow> if h \<noteq> [] then h else ''.'' | Inl _ \<Rightarrow> ''.'')"

definition ExpandPath :: "host_env \<Rightarrow> string \<Rightarrow> string" where
  "ExpandPath H p0 =
    (let p = TrimSpace p0
     in if p = [] then []
        else if p = ''~'' then homeDir H
        else if HasPrefix p ''~/'' then path_Join [homeDir H, drop 2 p]
        else p)"

definition DefaultConfigDir :: "host_env \<Rightarrow> string" where
  "DefaultConfigDir H =
    (if he_getenv H ''GATEWAY_CONFIG'' \<noteq> [] then path_Dir (ExpandPath H (he_getenv H ''GATEWAY_CONFIG''))
     else if he_getenv H ''XDG_CONFIG_HOME'' \<noteq> [] then
       path_Join [ExpandPath H (he_getenv H ''XDG_CONFIG_HOME''), AppName]
     else path_Join [homeDir H, ''.config'', AppName])"

definition DefaultConfigPath :: "host_env \<Rightarrow> string" where
  "DefaultConfigPath H =
    (if he_getenv H ''GATEWAY_CONFIG'' \<noteq> [] then ExpandPath H (he_getenv H ''GATEWAY_CONFIG'')
     else path_Join [DefaultConfigDir H, ''config.yaml''])"

definition DefaultStateDir :: "host_env \<Rightarrow> string" where
  "DefaultStateDir H =
    (if he_getenv H ''GATEWAY_STATE_DIR'' \<noteq> [] then ExpandPath H (he_getenv H ''GATEWAY_STATE_DIR'')
     else if he_getenv H ''XDG_STATE_HOME'' \<noteq> [] then
       path_Join [ExpandPath H (he_getenv H ''XDG_STATE_HOME''), AppName]
     else path_Join [homeDir H, ''.local'', ''state'', AppName])"

text \<open>
  \<open>PermWarning\<close>: the permission bits of the file, if it can be examined; \<open>%#o\<close> prints them in
  octal with a leading zero.
\<close>

fun show_octal :: "nat \<Rightarrow> string" where
  "show_octal n = (if n < 8 then [char_of (48 + n)] else show_octal (n div 8) @ [char_of (48 + n mod 8)])"

declare show_octal.simps [simp del]

definition PermWarning :: "string \<Rightarrow> nat option \<Rightarrow> string" where
  "PermWarning path mode =
    (case mode of
       None \<Rightarrow> []
     | Some m \<Rightarrow>
        if m mod 64 \<noteq> 0 then
          path @ '' is mode 0'' @ show_octal m @ ''; it may contain a token. Run: chmod 600 '' @ path
        else [])"

section \<open>The configuration (core/config/config.go)\<close>

record ssh_config =
  sf_Listen :: string
  sf_HostKey :: string
  sf_AuthorizedKeys :: string
  sf_AuthorizedKeysInline :: "string list"
  sf_PasswordAuth :: bool
  sf_Password :: secret_value
  sf_AllowedUsers :: "string list"
  sf_MaxSessions :: int
  sf_MaxSessionsPerEnv :: int
  sf_HandshakeTimeout :: int
  sf_Banner :: string
  sf_ShutdownGrace :: int
  sf_InstallAlias :: "bool option"

record lifecycle_config =
  lf_AutoCreate :: bool
  lf_StartTimeout :: int
  lf_CreateTimeout :: int
  lf_ConnectTimeout :: int
  lf_StatusPollInterval :: int
  lf_ConnectRetries :: int
  lf_StopOnLastDisconnect :: bool

record log_config =
  lg_Level :: string
  lg_Format :: string
  lg_File :: string

record control_config =
  ct_Enabled :: bool
  ct_Socket :: string

text \<open>\<open>'n\<close> is the type of YAML nodes.\<close>

record 'n config =
  cf_Provider :: string
  cf_StateDir :: string
  cf_SSH :: ssh_config
  cf_Lifecycle :: lifecycle_config
  cf_Log :: log_config
  cf_Control :: control_config
  cf_path :: string
  cf_sections :: "(string, 'n) gomap"
  cf_warnings :: "string list"

definition default_ssh :: ssh_config where
  "default_ssh = \<lparr>sf_Listen = ''127.0.0.1:2222'', sf_HostKey = [], sf_AuthorizedKeys = [],
     sf_AuthorizedKeysInline = [], sf_PasswordAuth = False, sf_Password = Value [], sf_AllowedUsers = [],
     sf_MaxSessions = 0, sf_MaxSessionsPerEnv = 0, sf_HandshakeTimeout = 30 * second, sf_Banner = [],
     sf_ShutdownGrace = 5 * second, sf_InstallAlias = None\<rparr>"

definition default_lifecycle :: lifecycle_config where
  "default_lifecycle = \<lparr>lf_AutoCreate = True, lf_StartTimeout = 5 * 60 * second, lf_CreateTimeout = 20 * 60 * second,
     lf_ConnectTimeout = 2 * 60 * second, lf_StatusPollInterval = 2 * second, lf_ConnectRetries = 10,
     lf_StopOnLastDisconnect = False\<rparr>"

definition Defaults :: "host_env \<Rightarrow> 'n config" where
  "Defaults H = \<lparr>cf_Provider = ''github'', cf_StateDir = DefaultStateDir H, cf_SSH = default_ssh,
     cf_Lifecycle = default_lifecycle, cf_Log = \<lparr>lg_Level = ''info'', lg_Format = ''text'', lg_File = []\<rparr>,
     cf_Control = \<lparr>ct_Enabled = True, ct_Socket = []\<rparr>, cf_path = [], cf_sections = [], cf_warnings = []\<rparr>"

definition AliasEnabled :: "'n config \<Rightarrow> bool" where
  "AliasEnabled c \<longleftrightarrow> (case sf_InstallAlias (cf_SSH c) of None \<Rightarrow> True | Some b \<Rightarrow> b)"

definition HostKeyPath :: "host_env \<Rightarrow> 'n config \<Rightarrow> string" where
  "HostKeyPath H c =
    (if sf_HostKey (cf_SSH c) \<noteq> [] then ExpandPath H (sf_HostKey (cf_SSH c))
     else path_Join [cf_StateDir c, ''host_ed25519''])"

definition AuthorizedKeysPath :: "host_env \<Rightarrow> 'n config \<Rightarrow> string" where
  "AuthorizedKeysPath H c =
    (if sf_AuthorizedKeys (cf_SSH c) \<noteq> [] then ExpandPath H (sf_AuthorizedKeys (cf_SSH c))
     else path_Join [if cf_path c \<noteq> [] then path_Dir (cf_path c) else DefaultConfigDir H, ''authorized_keys''])"

definition ControlSocketPath :: "host_env \<Rightarrow> 'n config \<Rightarrow> string" where
  "ControlSocketPath H c =
    (if ct_Socket (cf_Control c) \<noteq> [] then ExpandPath H (ct_Socket (cf_Control c))
     else path_Join [cf_StateDir c, ''control.sock''])"

definition ProviderStateDir :: "'n config \<Rightarrow> string \<Rightarrow> string" where
  "ProviderStateDir c name = path_Join [cf_StateDir c, ''providers'', name]"

section \<open>Loading and validation (core/config/load.go)\<close>

definition coreKeys :: "string list" where
  "coreKeys = [''provider'', ''state_dir'', ''ssh'', ''lifecycle'', ''log'', ''control'']"

text \<open>
  The library: splitting a file into nodes, the zero test of a node, decoding a node over a
  section's current value, and the error of \<open>net.SplitHostPort\<close>.
\<close>

record 'n yaml =
  y_parse :: "string \<Rightarrow> goerr + (string, 'n) gomap"
  y_zero :: "'n \<Rightarrow> bool"
  y_string :: "'n \<Rightarrow> string \<Rightarrow> goerr + string"
  y_ssh :: "'n \<Rightarrow> ssh_config \<Rightarrow> goerr + ssh_config"
  y_lifecycle :: "'n \<Rightarrow> lifecycle_config \<Rightarrow> goerr + lifecycle_config"
  y_log :: "'n \<Rightarrow> log_config \<Rightarrow> goerr + log_config"
  y_control :: "'n \<Rightarrow> control_config \<Rightarrow> goerr + control_config"
  y_badaddr :: "string \<Rightarrow> goerr"

definition ProviderSection :: "'n yaml \<Rightarrow> 'n config \<Rightarrow> string \<Rightarrow> 'n option" where
  "ProviderSection Y c key =
    (case map_of (cf_sections c) key of
       None \<Rightarrow> None | Some n \<Rightarrow> if y_zero Y n then None else Some n)"

definition minPollInterval :: int where
  "minPollInterval = second div 10"

definition parseLogLevel :: "string \<Rightarrow> goerr + string" where
  "parseLogLevel s =
    (if s \<in> {[], ''debug'', ''info'', ''warn'', ''warning'', ''error''} then Inr s
     else Inl (Errorf (''log.level '' @ quote s @ '' is not one of debug|info|warn|error'')))"

definition fill_lifecycle :: "lifecycle_config \<Rightarrow> lifecycle_config" where
  "fill_lifecycle l =
    l\<lparr>lf_StartTimeout := (if lf_StartTimeout l \<le> 0 then lf_StartTimeout default_lifecycle else lf_StartTimeout l),
      lf_CreateTimeout := (if lf_CreateTimeout l \<le> 0 then lf_CreateTimeout default_lifecycle else lf_CreateTimeout l),
      lf_ConnectTimeout := (if lf_ConnectTimeout l \<le> 0 then lf_ConnectTimeout default_lifecycle else lf_ConnectTimeout l),
      lf_StatusPollInterval :=
        (if lf_StatusPollInterval l \<le> 0 then lf_StatusPollInterval default_lifecycle
         else if lf_StatusPollInterval l < minPollInterval then minPollInterval
         else lf_StatusPollInterval l)\<rparr>"

definition validate :: "'n yaml \<Rightarrow> 'n config \<Rightarrow> goerr + 'n config" where
  "validate Y c =
    (if cf_Provider c = [] then Inl (Errorf ''provider must be set'')
     else
       (let s1 = (if sf_Listen (cf_SSH c) = [] then (cf_SSH c)\<lparr>sf_Listen := sf_Listen default_ssh\<rparr> else cf_SSH c)
        in if SplitHostPort (sf_Listen s1) = None then
             Inl (Wrapf (''ssh.listen '' @ quote (sf_Listen s1) @ '' is not host:port: '') (y_badaddr Y (sf_Listen s1)) [])
           else
             (let s2 = (if sf_HandshakeTimeout s1 \<le> 0 then s1\<lparr>sf_HandshakeTimeout := 30 * second\<rparr> else s1)
              in if sf_ShutdownGrace s2 < 0 then Inl (Errorf ''ssh.shutdown_grace must not be negative'')
                 else if sf_MaxSessions s2 < 0 \<or> sf_MaxSessionsPerEnv s2 < 0 then
                   Inl (Errorf ''ssh session limits must not be negative'')
                 else if lf_ConnectRetries (cf_Lifecycle c) < 0 then
                   Inl (Errorf ''lifecycle.connect_retries must not be negative'')
                 else
                   (case parseLogLevel (lg_Level (cf_Log c)) of
                      Inl e \<Rightarrow> Inl e
                    | Inr _ \<Rightarrow> Inr (c\<lparr>cf_SSH := s2, cf_Lifecycle := fill_lifecycle (cf_Lifecycle c)\<rparr>)))))"

text \<open>One top-level key, and the loop over them in the order in which Go takes the map.\<close>

definition load_key :: "'n yaml \<Rightarrow> string \<Rightarrow> 'n \<Rightarrow> 'n config \<Rightarrow> goerr + 'n config" where
  "load_key Y key n c =
    (if key \<notin> set coreKeys then Inr (c\<lparr>cf_sections := AList.update key n (cf_sections c)\<rparr>)
     else if key = ''provider'' then map_sum id (\<lambda>v. c\<lparr>cf_Provider := v\<rparr>) (y_string Y n (cf_Provider c))
     else if key = ''state_dir'' then map_sum id (\<lambda>v. c\<lparr>cf_StateDir := v\<rparr>) (y_string Y n (cf_StateDir c))
     else if key = ''ssh'' then map_sum id (\<lambda>v. c\<lparr>cf_SSH := v\<rparr>) (y_ssh Y n (cf_SSH c))
     else if key = ''lifecycle'' then map_sum id (\<lambda>v. c\<lparr>cf_Lifecycle := v\<rparr>) (y_lifecycle Y n (cf_Lifecycle c))
     else if key = ''log'' then map_sum id (\<lambda>v. c\<lparr>cf_Log := v\<rparr>) (y_log Y n (cf_Log c))
     else map_sum id (\<lambda>v. c\<lparr>cf_Control := v\<rparr>) (y_control Y n (cf_Control c)))"

fun load_keys :: "'n yaml \<Rightarrow> (string \<times> 'n) list \<Rightarrow> 'n config \<Rightarrow> (string \<times> goerr) + 'n config" where
  "load_keys Y [] c = Inr c"
| "load_keys Y ((key, n) # ns) c =
    (case load_key Y key n c of Inl e \<Rightarrow> Inl (key, e) | Inr c1 \<Rightarrow> load_keys Y ns c1)"

text \<open>\<open>Load\<close>: the file at the path, and its permission bits.\<close>

definition load_path :: "host_env \<Rightarrow> string \<Rightarrow> string" where
  "load_path H path = ExpandPath H (if path = [] then DefaultConfigPath H else path)"

definition finish_config :: "host_env \<Rightarrow> string \<Rightarrow> nat option \<Rightarrow> 'n config \<Rightarrow> 'n config" where
  "finish_config H path mode c =
    (let d = ExpandPath H (cf_StateDir c); w = PermWarning path mode
     in c\<lparr>cf_StateDir := (if d = [] then DefaultStateDir H else d),
         cf_warnings := cf_warnings c @ (if w \<noteq> [] then [w] else [])\<rparr>)"

definition Load_config ::
  "'n yaml \<Rightarrow> host_env \<Rightarrow> string \<Rightarrow> (string \<Rightarrow> file_read) \<Rightarrow> (string \<Rightarrow> nat option) \<Rightarrow> goerr + 'n config" where
  "Load_config Y H path0 read mode =
    (let path = load_path H path0
     in case read path of
          FileMissing \<Rightarrow> Inl (Wrapf [] (Sentinel ErrNoConfig) ('' at '' @ path @ '' (run `gateway config init`)''))
        | FileError e \<Rightarrow> Inl e
        | FileContent raw \<Rightarrow>
           (case y_parse Y raw of
              Inl e \<Rightarrow> Inl (Wrapf (''parse '' @ path @ '': '') e [])
            | Inr nodes \<Rightarrow>
               (case load_keys Y nodes ((Defaults H)\<lparr>cf_path := path\<rparr>) of
                  Inl (key, e) \<Rightarrow> Inl (Wrapf (path @ '': '' @ key @ '': '') e [])
                | Inr c \<Rightarrow>
                   (case validate Y (finish_config H path (mode path) c) of
                      Inl e \<Rightarrow> Inl (Wrapf (path @ '': '') e [])
                    | Inr c1 \<Rightarrow> Inr c1))))"

section \<open>What a loaded configuration guarantees\<close>

definition config_ok :: "'n config \<Rightarrow> bool" where
  "config_ok c \<longleftrightarrow> cf_Provider c \<noteq> [] \<and> SplitHostPort (sf_Listen (cf_SSH c)) \<noteq> None \<and>
     0 < sf_HandshakeTimeout (cf_SSH c) \<and> 0 \<le> sf_ShutdownGrace (cf_SSH c) \<and>
     0 \<le> sf_MaxSessions (cf_SSH c) \<and> 0 \<le> sf_MaxSessionsPerEnv (cf_SSH c) \<and>
     0 < lf_StartTimeout (cf_Lifecycle c) \<and> 0 < lf_CreateTimeout (cf_Lifecycle c) \<and>
     0 < lf_ConnectTimeout (cf_Lifecycle c) \<and> minPollInterval \<le> lf_StatusPollInterval (cf_Lifecycle c) \<and>
     0 \<le> lf_ConnectRetries (cf_Lifecycle c) \<and>
     lg_Level (cf_Log c) \<in> {[], ''debug'', ''info'', ''warn'', ''warning'', ''error''}"

lemma fill_lifecycle_ok:
  "0 < lf_StartTimeout (fill_lifecycle l)" "0 < lf_CreateTimeout (fill_lifecycle l)"
  "0 < lf_ConnectTimeout (fill_lifecycle l)" "minPollInterval \<le> lf_StatusPollInterval (fill_lifecycle l)"
  "lf_ConnectRetries (fill_lifecycle l) = lf_ConnectRetries l"
  by (simp_all add: fill_lifecycle_def default_lifecycle_def second_def minPollInterval_def)

lemma fill_lifecycle_id:
  assumes "0 < lf_StartTimeout l" "0 < lf_CreateTimeout l" "0 < lf_ConnectTimeout l"
    "minPollInterval \<le> lf_StatusPollInterval l"
  shows "fill_lifecycle l = l"
proof -
  have "0 < minPollInterval" by (simp add: minPollInterval_def second_def)
  then show ?thesis using assms by (simp add: fill_lifecycle_def)
qed

lemma guard_left: "(if b then Inl e else r) = Inr y \<Longrightarrow> \<not> b \<and> r = Inr y"
  by (simp split: if_splits)

lemma validate_ok:
  assumes "validate Y c = Inr c'"
  shows "config_ok c' \<and> cf_Provider c' = cf_Provider c \<and> cf_Log c' = cf_Log c \<and> cf_sections c' = cf_sections c"
proof -
  define s1 where "s1 = (if sf_Listen (cf_SSH c) = [] then (cf_SSH c)\<lparr>sf_Listen := sf_Listen default_ssh\<rparr> else cf_SSH c)"
  define s2 where "s2 = (if sf_HandshakeTimeout s1 \<le> 0 then s1\<lparr>sf_HandshakeTimeout := 30 * second\<rparr> else s1)"
  note v = assms [unfolded validate_def Let_def, folded s1_def, folded s2_def]
  note g1 = guard_left [OF v]
  note g2 = guard_left [OF g1 [THEN conjunct2]]
  note g3 = guard_left [OF g2 [THEN conjunct2]]
  note g4 = guard_left [OF g3 [THEN conjunct2]]
  note g5 = guard_left [OF g4 [THEN conjunct2]]
  have level: "lg_Level (cf_Log c) \<in> {[], ''debug'', ''info'', ''warn'', ''warning'', ''error''}"
    using g5 [THEN conjunct2] by (cases "lg_Level (cf_Log c) \<in> {[], ''debug'', ''info'', ''warn'', ''warning'', ''error''}")
      (simp_all only: parseLogLevel_def if_False if_True sum.case sum.distinct)
  then have c': "c' = c\<lparr>cf_SSH := s2, cf_Lifecycle := fill_lifecycle (cf_Lifecycle c)\<rparr>"
    using g5 [THEN conjunct2] by (simp only: parseLogLevel_def if_True sum.case sum.inject)
  have "sf_Listen s2 = sf_Listen s1" "0 < sf_HandshakeTimeout s2" by (simp_all add: s2_def second_def)
  then show ?thesis
    using g1 g2 g3 g4 g5 level fill_lifecycle_ok [of "cf_Lifecycle c"]
    unfolding config_ok_def c' by (simp only: config.simps ssh_config.simps) simp
qed

lemma validate_id:
  assumes "config_ok c"
  shows "validate Y c = Inr c"
proof -
  have "sf_Listen (cf_SSH c) \<noteq> []" using assms by (auto simp: config_ok_def SplitHostPort_def last_index_def)
  moreover have "parseLogLevel (lg_Level (cf_Log c)) = Inr (lg_Level (cf_Log c))"
    using assms unfolding config_ok_def parseLogLevel_def by (simp only: if_True simp_thms)
  moreover have "fill_lifecycle (cf_Lifecycle c) = cf_Lifecycle c"
    using assms by (intro fill_lifecycle_id) (simp_all add: config_ok_def)
  ultimately show ?thesis using assms by (simp add: validate_def config_ok_def Let_def)
qed


section \<open>From the configuration to the gateway (core/gateway/gateway.go)\<close>

definition lifecycle_options :: "'n config \<Rightarrow> options" where
  "lifecycle_options c =
    \<lparr>AutoCreate = lf_AutoCreate (cf_Lifecycle c), StartTimeout = lf_StartTimeout (cf_Lifecycle c),
     CreateTimeout = lf_CreateTimeout (cf_Lifecycle c), ConnectTimeout = lf_ConnectTimeout (cf_Lifecycle c),
     PollInterval = lf_StatusPollInterval (cf_Lifecycle c), ConnectRetries = lf_ConnectRetries (cf_Lifecycle c),
     StopOnLastDisconnect = lf_StopOnLastDisconnect (cf_Lifecycle c)\<rparr>"

definition auth_of :: "host_env \<Rightarrow> 'n config \<Rightarrow> auth_config" where
  "auth_of H c =
    \<lparr>ac_AuthorizedKeysFile = AuthorizedKeysPath H c, ac_AuthorizedKeysInline = sf_AuthorizedKeysInline (cf_SSH c),
     ac_PasswordAuth = sf_PasswordAuth (cf_SSH c), ac_Password = sf_Password (cf_SSH c),
     ac_AllowedUsers = sf_AllowedUsers (cf_SSH c), ac_AllowAnonymous = LoopbackListen (sf_Listen (cf_SSH c))\<rparr>"

text \<open>
  C18: A configuration that loads is complete and consistent. Whatever the YAML library makes of the
  file, \<open>Load\<close> only returns a configuration with a provider, a listen address of the form
  host:port, positive timeouts, a polling interval of at least 100 ms, limits and retries that
  are not negative, a known log level and a state directory; validating it again changes
  nothing, and the lifecycle manager corrects none of its options.
\<close>

theorem loaded_config_ok:
  assumes "Load_config Y H path0 read mode = Inr c"
  shows "config_ok c \<and> validate Y c = Inr c \<and>
    withDefaults (lifecycle_options c) = lifecycle_options c \<and>
    (DefaultStateDir H \<noteq> [] \<longrightarrow> cf_StateDir c \<noteq> [])"
proof -
  let ?path = "load_path H path0"
  obtain raw where r: "read ?path = FileContent raw"
    using assms by (cases "read ?path") (simp_all add: Load_config_def Let_def)
  obtain nodes where n: "y_parse Y raw = Inr nodes"
    using assms r by (cases "y_parse Y raw") (simp_all add: Load_config_def Let_def)
  obtain c0 where k: "load_keys Y nodes ((Defaults H)\<lparr>cf_path := ?path\<rparr>) = Inr c0"
    using assms r n
    by (cases "load_keys Y nodes ((Defaults H)\<lparr>cf_path := ?path\<rparr>)") (auto simp: Load_config_def Let_def)
  let ?c1 = "finish_config H ?path (mode ?path) c0"
  have v: "validate Y ?c1 = Inr c"
    using assms r n k by (cases "validate Y ?c1") (simp_all add: Load_config_def Let_def)
  have ok: "config_ok c" using validate_ok [OF v] by simp
  have "cf_StateDir c = cf_StateDir ?c1"
    using v by (auto simp: validate_def Let_def split: if_splits sum.splits)
  then have "DefaultStateDir H \<noteq> [] \<longrightarrow> cf_StateDir c \<noteq> []" by (simp add: finish_config_def Let_def)
  moreover have "withDefaults (lifecycle_options c) = lifecycle_options c"
    using ok by (simp add: withDefaults_def lifecycle_options_def config_ok_def Let_def minPollInterval_def second_def)
  ultimately show ?thesis using ok validate_id [OF ok] by simp
qed

definition host0 :: host_env where
  "host0 = \<lparr>he_getenv = (\<lambda>n. []), he_home = Inr ''/root''\<rparr>"

text \<open>A library whose files are all empty.\<close>

definition yaml0 :: "unit yaml" where
  "yaml0 = \<lparr>y_parse = (\<lambda>raw. Inr []), y_zero = (\<lambda>n. True), y_string = (\<lambda>n s. Inr s), y_ssh = (\<lambda>n s. Inr s),
     y_lifecycle = (\<lambda>n s. Inr s), y_log = (\<lambda>n s. Inr s), y_control = (\<lambda>n s. Inr s),
     y_badaddr = (\<lambda>s. Errorf ''bad address'')\<rparr>"

lemma loaded_config_ok_witness:
  "\<exists>c. Load_config yaml0 host0 ''c.yaml'' (\<lambda>p. FileContent []) (\<lambda>p. Some 384) = Inr c \<and> config_ok c"
proof -
  have "SplitHostPort ''127.0.0.1:2222'' = Some (''127.0.0.1'', ''2222'')"
    using SplitHostPort_plain [of "''127.0.0.1''" "''2222''"] by simp
  then obtain c where "Load_config yaml0 host0 ''c.yaml'' (\<lambda>p. FileContent []) (\<lambda>p. Some 384) = Inr c"
    by (simp add: Load_config_def yaml0_def Let_def validate_def finish_config_def Defaults_def default_ssh_def
        default_lifecycle_def parseLogLevel_def second_def)
  with loaded_config_ok [OF this] show ?thesis by blast
qed

end
