(* ===== verification/ConfigTree.thy ===== *)
theory ConfigTree
  imports ConfigFile
begin

text \<open>
  Changing and printing the configuration file (\<open>core/config/write.go\<close>, \<open>redact.go\<close>) on the YAML
  node tree: \<open>patch\<close>, which sets one nested key and leaves everything else, the redaction of
  credentials before a file is shown, and the atomic replacement of a file.
\<close>

section \<open>Nodes\<close>

text \<open>
  A node with its kind, tag, value, anchor, style, comments and children; \<open>NoNode\<close> is the zero kind
  that an empty file leaves. The value of an alias is the name of the anchor it stands for. Lines and columns are
  not kept: the printer does not read them.
\<close>

datatype node_kind = NoNode | DocumentNode | SequenceNode | MappingNode | ScalarNode | AliasNode

record node_extra =
  nx_anchor :: string
  nx_style :: nat
  nx_head :: string
  nx_line :: string
  nx_foot :: string

definition no_extra :: node_extra where
  "no_extra = \<lparr>nx_anchor = [], nx_style = 0, nx_head = [], nx_line = [], nx_foot = []\<rparr>"

datatype node = Node (n_kind: node_kind) (n_tag: string) (n_value: string) (n_extra: node_extra) (n_content: "node list")

definition scalar :: "string \<Rightarrow> string \<Rightarrow> node" where
  "scalar tag v = Node ScalarNode tag v no_extra []"

definition empty_map :: node where
  "empty_map = Node MappingNode ''!!map'' [] no_extra []"

fun mappingValue :: "string \<Rightarrow> node list \<Rightarrow> node option" where
  "mappingValue key (k # v # rest) = (if n_value k = key then Some v else mappingValue key rest)"
| "mappingValue key _ = None"

text \<open>
  Setting the value of a key: in place when the key is there, appended with its key node
  otherwise (\<open>appendMapping\<close>). The function gets the old value.
\<close>

fun set_value :: "string \<Rightarrow> (node option \<Rightarrow> node) \<Rightarrow> node list \<Rightarrow> node list" where
  "set_value key f (k # v # rest) =
    (if n_value k = key then k # f (Some v) # rest else k # v # set_value key f rest)"
| "set_value key f rest = rest @ [scalar ''!!str'' key, f None]"

text \<open>
  The next mapping on the way: a value of another kind becomes an empty mapping. Either change is made in the
  node itself, so its anchor and its comments stay; the style is reset with a new value only.
\<close>

definition as_map :: "node option \<Rightarrow> node" where
  "as_map v =
    (case v of
       None \<Rightarrow> empty_map
     | Some n \<Rightarrow> if n_kind n = MappingNode then n else Node MappingNode ''!!map'' [] (n_extra n) [])"

definition assign :: "string \<Rightarrow> string \<Rightarrow> node option \<Rightarrow> node" where
  "assign tag value v =
    (case v of
       None \<Rightarrow> scalar tag value
     | Some n \<Rightarrow> Node ScalarNode tag value ((n_extra n)\<lparr>nx_style := 0\<rparr>) [])"

definition with_content :: "node \<Rightarrow> node list \<Rightarrow> node" where
  "with_content n c = Node (n_kind n) (n_tag n) (n_value n) (n_extra n) c"

fun patch_map :: "string list \<Rightarrow> string \<Rightarrow> string \<Rightarrow> node \<Rightarrow> node" where
  "patch_map [] tag value n = n"
| "patch_map [key] tag value n = with_content n (set_value key (assign tag value) (n_content n))"
| "patch_map (key # keys) tag value n =
    with_content n (set_value key (\<lambda>old. patch_map keys tag value (as_map old)) (n_content n))"

text \<open>\<open>patch\<close> on the parsed document: the root is the first child of a document node.\<close>

definition patch_doc :: "string list \<Rightarrow> string \<Rightarrow> string \<Rightarrow> node \<Rightarrow> node option" where
  "patch_doc keys tag value doc =
    (if n_kind doc = DocumentNode then
       (let cs = (if n_content doc = [] then [empty_map] else n_content doc)
        in if n_kind (hd cs) \<noteq> MappingNode then None
           else Some (with_content doc (patch_map keys tag value (hd cs) # tl cs)))
     else if n_kind doc \<noteq> MappingNode then None
     else Some (patch_map keys tag value doc))"

definition top_error :: "string \<Rightarrow> goerr" where
  "top_error path = Errorf (path @ '': top level is not a mapping'')"

section \<open>Replacing a file\<close>

text \<open>
  A directory with the files that matter here and where the next fault strikes: creating the
  temporary file, changing its mode, writing (part of the data may be written), closing,
  renaming. \<open>writeAtomic\<close> removes the temporary file on every path.
\<close>

datatype write_fault = NoFault | FaultCreate | FaultChmod | FaultWrite nat | FaultClose | FaultRename

record dir_state =
  ds_files :: "string \<Rightarrow> string option"
  ds_fault :: write_fault

definition writeAtomic :: "string \<Rightarrow> string \<Rightarrow> string \<Rightarrow> dir_state \<Rightarrow> goerr option \<times> dir_state" where
  "writeAtomic tmp path data d =
    (let e = Some (Ext ''write failed'' None);
         created = d\<lparr>ds_files := (ds_files d)(tmp := Some [])\<rparr>;
         removed = (\<lambda>s. s\<lparr>ds_files := (ds_files s)(tmp := None)\<rparr>);
         written = created\<lparr>ds_files := (ds_files created)(tmp := Some data)\<rparr>
     in case ds_fault d of
          FaultCreate \<Rightarrow> (e, d)
        | FaultChmod \<Rightarrow> (e, removed created)
        | FaultWrite k \<Rightarrow> (e, removed (created\<lparr>ds_files := (ds_files created)(tmp := Some (take k data))\<rparr>))
        | FaultClose \<Rightarrow> (e, removed written)
        | FaultRename \<Rightarrow> (e, removed written)
        | NoFault \<Rightarrow> (None, removed (written\<lparr>ds_files := (ds_files written)(path := Some data)\<rparr>)))"

text \<open>
  \<open>patch\<close> as a whole: read, parse, change, print and replace. Parsing and printing are the
  library's.
\<close>

definition patch_file ::
  "(string \<Rightarrow> goerr + node) \<Rightarrow> (node \<Rightarrow> goerr + string) \<Rightarrow> string \<Rightarrow> string \<Rightarrow> string list \<Rightarrow> string \<Rightarrow> string \<Rightarrow>
   dir_state \<Rightarrow> goerr option \<times> dir_state" where
  "patch_file parse print tmp path keys value tag d =
    (if keys = [] then (Some (Errorf ''empty key path''), d)
     else
       (case ds_files d path of
          None \<Rightarrow> (Some (Ext (''open '' @ path @ '': no such file or directory'') None), d)
        | Some raw \<Rightarrow>
           (case parse raw of
              Inl e \<Rightarrow> (Some (Wrapf (''parse '' @ path @ '': '') e []), d)
            | Inr doc \<Rightarrow>
               (case patch_doc keys tag value doc of
                  None \<Rightarrow> (Some (top_error path), d)
                | Some doc1 \<Rightarrow>
                   (case print doc1 of
                      Inl e \<Rightarrow> (Some e, d)
                    | Inr out \<Rightarrow> writeAtomic tmp path out d)))))"

definition Patch ::
  "(string \<Rightarrow> goerr + node) \<Rightarrow> (node \<Rightarrow> goerr + string) \<Rightarrow> string \<Rightarrow> string \<Rightarrow> string list \<Rightarrow> string \<Rightarrow> dir_state \<Rightarrow>
   goerr option \<times> dir_state" where
  "Patch parse print tmp path keys value = patch_file parse print tmp path keys value ''!!str''"

definition PatchBool ::
  "(string \<Rightarrow> goerr + node) \<Rightarrow> (node \<Rightarrow> goerr + string) \<Rightarrow> string \<Rightarrow> string \<Rightarrow> string list \<Rightarrow> bool \<Rightarrow> dir_state \<Rightarrow>
   goerr option \<times> dir_state" where
  "PatchBool parse print tmp path keys b =
    patch_file parse print tmp path keys (if b then ''true'' else ''false'') ''!!bool''"

section \<open>Hiding credentials (core/config/redact.go)\<close>

definition sensitiveKey :: "string \<Rightarrow> bool" where
  "sensitiveKey key \<longleftrightarrow>
    (let k = ToLower key
     in \<not> list_ex (HasSuffix k) [''_file'', ''_path'', ''_auth'', ''_policy'', ''_source'', ''_type''] \<and>
        list_ex (Contains k) [''token'', ''password'', ''secret'', ''passphrase'', ''credential'', ''private_key''])"

fun redactNode :: "bool \<Rightarrow> node \<Rightarrow> node" and redact_pairs :: "bool \<Rightarrow> node list \<Rightarrow> node list" where
  "redactNode sens (Node k t v x c) =
    (if k = DocumentNode \<or> k = SequenceNode then Node k t v x (map (redactNode sens) c)
     else if k = MappingNode then Node k t v x (redact_pairs sens c)
     else if k = ScalarNode \<and> sens \<and> v \<noteq> [] \<and> (t = [] \<or> t = ''!!str'') then Node ScalarNode ''!!str'' Redacted x c
     else Node k t v x c)"
| "redact_pairs sens (key # val # rest) =
    key # redactNode (sens \<or> sensitiveKey (n_value key)) val # redact_pairs sens rest"
| "redact_pairs sens rest = rest"

definition RedactedFile ::
  "(string \<Rightarrow> goerr + node) \<Rightarrow> (node \<Rightarrow> goerr + string) \<Rightarrow> file_read \<Rightarrow> goerr + string" where
  "RedactedFile parse print read =
    (case read of
       FileMissing \<Rightarrow> Inl (Ext ''no such file or directory'' None)
     | FileError e \<Rightarrow> Inl e
     | FileContent raw \<Rightarrow> (case parse raw of Inl e \<Rightarrow> Inl e | Inr doc \<Rightarrow> print (redactNode False doc)))"

section \<open>What is hidden\<close>

text \<open>
  Nodes by their positions: the list of the child numbers on the way. A position is reached when the way leads through
  documents, sequences and the values of mappings only; it is named when one of the keys whose values it goes through names a
  credential.
\<close>

fun sub_node :: "nat list \<Rightarrow> node \<Rightarrow> node option" where
  "sub_node [] n = Some n"
| "sub_node (i # p) n = (if i < length (n_content n) then sub_node p (n_content n ! i) else None)"

fun reached :: "nat list \<Rightarrow> node \<Rightarrow> bool" where
  "reached [] n = True"
| "reached (i # p) n =
    ((n_kind n = DocumentNode \<or> n_kind n = SequenceNode \<or> n_kind n = MappingNode \<and> odd i) \<and> reached p (n_content n ! i))"

fun named :: "nat list \<Rightarrow> node \<Rightarrow> bool" where
  "named [] n = False"
| "named (i # p) n =
    (n_kind n = MappingNode \<and> sensitiveKey (n_value (n_content n ! (i - 1))) \<or> named p (n_content n ! i))"

definition text_node :: "node \<Rightarrow> bool" where
  "text_node n \<longleftrightarrow> n_kind n = ScalarNode \<and> n_value n \<noteq> [] \<and> (n_tag n = [] \<or> n_tag n = ''!!str'')"

text \<open>The node \<open>n'\<close> is \<open>n\<close> but for its children, with its text hidden or not.\<close>

definition same_node :: "bool \<Rightarrow> node \<Rightarrow> node \<Rightarrow> bool" where
  "same_node hidden n n' \<longleftrightarrow> n_kind n' = n_kind n \<and> n_extra n' = n_extra n \<and> length (n_content n') = length (n_content n) \<and>
     (n_tag n', n_value n') = (if hidden then (''!!str'', Redacted) else (n_tag n, n_value n))"

lemma redact_pairs_nth:
  "length (redact_pairs sens c) = length c"
  "i < length c \<Longrightarrow> redact_pairs sens c ! i =
    (if odd i then redactNode (sens \<or> sensitiveKey (n_value (c ! (i - 1)))) (c ! i) else c ! i)"
proof (induction c arbitrary: i rule: induct_list012)
  case (3 k v c)
  {
    case 1
    show ?case using 3 by simp
  next
    case 2
    show ?case
    proof (cases i)
      case (Suc i')
      note i = Suc
      show ?thesis
      proof (cases i')
        case (Suc n)
        with i 2 3(2) [of n] show ?thesis by (cases n) auto
      qed (use i in simp)
    qed simp
  }
qed simp_all

lemma same_self [simp]: "same_node False n n"
  by (simp add: same_node_def)

lemma redacted_at:
  "case sub_node p n of
     None \<Rightarrow> sub_node p (redactNode sens n) = None
   | Some m \<Rightarrow> \<exists>m'. sub_node p (redactNode sens n) = Some m' \<and> same_node (reached p n \<and> (sens \<or> named p n) \<and> text_node m) m m'"
proof (induction p arbitrary: sens n)
  case Nil
  show ?case by (cases n) (auto simp: same_node_def text_node_def redact_pairs_nth(1))
next
  case (Cons i p)
  obtain k t v x c where n: "n = Node k t v x c" by (cases n)
  have same: "case sub_node p m of None \<Rightarrow> sub_node p m = None | Some m0 \<Rightarrow> \<exists>m'. sub_node p m = Some m' \<and> same_node False m0 m'" for m
    by (simp split: option.split)
  show ?case
  proof (cases "i < length c")
    case True
    consider "k = DocumentNode \<or> k = SequenceNode" | "k = MappingNode" "odd i" | "k = MappingNode" "even i"
      | "k \<notin> {DocumentNode, SequenceNode, MappingNode}" by blast
    then show ?thesis
    proof cases
      case 1
      have "sub_node (i # p) (redactNode sens n) = sub_node p (redactNode sens (c ! i))" using True n 1 by auto
      moreover have "reached (i # p) n = reached p (c ! i)" "named (i # p) n = named p (c ! i)"
        "sub_node (i # p) n = sub_node p (c ! i)" using True n 1 by auto
      ultimately show ?thesis using Cons.IH [where n = "c ! i" and sens = sens] by (simp only:)
    next
      case 2
      let ?s = "sens \<or> sensitiveKey (n_value (c ! (i - 1)))"
      have "sub_node (i # p) (redactNode sens n) = sub_node p (redactNode ?s (c ! i))"
        using True n 2 by (simp add: redact_pairs_nth)
      moreover have "reached (i # p) n = reached p (c ! i)" "(sens \<or> named (i # p) n) = (?s \<or> named p (c ! i))"
        "sub_node (i # p) n = sub_node p (c ! i)" using True n 2 by auto
      ultimately show ?thesis using Cons.IH [where n = "c ! i" and sens = ?s] by (simp only:)
    next
      case 3
      have "sub_node (i # p) (redactNode sens n) = sub_node p (c ! i)" using True n 3 by (simp add: redact_pairs_nth)
      moreover have "\<not> reached (i # p) n" "sub_node (i # p) n = sub_node p (c ! i)" using True n 3 by auto
      ultimately show ?thesis using same [of "c ! i"] by (simp only: simp_thms)
    next
      case 4
      then have "sub_node (i # p) (redactNode sens n) = sub_node p (c ! i)" "\<not> reached (i # p) n"
        "sub_node (i # p) n = sub_node p (c ! i)" using True n by auto
      then show ?thesis using same [of "c ! i"] by (simp only: simp_thms)
    qed
  qed (use n in \<open>auto simp: redact_pairs_nth(1)\<close>)
qed

text \<open>
  C25: What \<open>gateway config show\<close> prints is the document with the credentials hidden and nothing else changed. At
  every position there is a node in the redacted document exactly if there is one in the document, of the same
  kind and with the same anchor, style, comments and number of children; its tag and value are the same too, key nodes and aliases
  included, unless it is a non-empty string under a key that names a credential, at any depth: then its value is the
  mark. So a credential that is given as a string there is not printed, while a number, or a string that is only referred to there by an
  alias, is.
\<close>

theorem redacted_values:
  "\<forall>p. case sub_node p doc of
     None \<Rightarrow> sub_node p (redactNode False doc) = None
   | Some n \<Rightarrow> \<exists>n'. sub_node p (redactNode False doc) = Some n' \<and>
       n_kind n' = n_kind n \<and> n_extra n' = n_extra n \<and> length (n_content n') = length (n_content n) \<and>
       (n_tag n', n_value n') =
         (if reached p doc \<and> named p doc \<and> n_kind n = ScalarNode \<and> n_value n \<noteq> [] \<and> n_tag n \<in> {[], ''!!str''}
          then (''!!str'', Redacted) else (n_tag n, n_value n))"
proof (rule allI, goal_cases)
  case (1 p)
  show ?case using redacted_at [where p = p and n = doc and sens = False]
    by (simp only: same_node_def text_node_def insert_iff empty_iff simp_thms)
qed

lemma sensitive_examples:
  "sensitiveKey ''api_token''" "sensitiveKey ''password''" "sensitiveKey ''token''" "\<not> sensitiveKey ''name''"
  by (simp_all add: sensitiveKey_def ToLower_def lower_char_def HasSuffix_def Contains_def Let_def)

text \<open>A number is printed, a string is hidden; a string under another key is printed though a credential refers to it.\<close>

lemma redacted_example:
  "redactNode False (Node MappingNode ''!!map'' [] no_extra
     [scalar ''!!str'' ''api_token'', scalar ''!!int'' ''1234'', scalar ''!!str'' ''password'', scalar ''!!str'' ''pw'']) =
   Node MappingNode ''!!map'' [] no_extra
     [scalar ''!!str'' ''api_token'', scalar ''!!int'' ''1234'', scalar ''!!str'' ''password'', scalar ''!!str'' Redacted]"
  by (simp add: sensitive_examples scalar_def)

lemma aliased_credential_printed:
  "redactNode False (Node MappingNode ''!!map'' [] no_extra
     [scalar ''!!str'' ''name'', Node ScalarNode ''!!str'' ''pw'' (no_extra\<lparr>nx_anchor := ''a''\<rparr>) [],
      scalar ''!!str'' ''password'', Node AliasNode [] ''a'' no_extra []]) =
   Node MappingNode ''!!map'' [] no_extra
     [scalar ''!!str'' ''name'', Node ScalarNode ''!!str'' ''pw'' (no_extra\<lparr>nx_anchor := ''a''\<rparr>) [],
      scalar ''!!str'' ''password'', Node AliasNode [] ''a'' no_extra []]"
  by (simp add: sensitive_examples scalar_def)

section \<open>What a change keeps\<close>

text \<open>The node at a path of keys.\<close>

fun node_at :: "string list \<Rightarrow> node \<Rightarrow> node option" where
  "node_at [] n = Some n"
| "node_at (key # keys) n =
    (if n_kind n = MappingNode then
       (case mappingValue key (n_content n) of None \<Rightarrow> None | Some v \<Rightarrow> node_at keys v)
     else None)"

text \<open>The trees that the parser makes below the document: mappings have as many keys as values, scalars and aliases no children.\<close>

fun tree_ok :: "node \<Rightarrow> bool" where
  "tree_ok (Node k t v x c) =
    (k \<in> {SequenceNode, MappingNode, ScalarNode, AliasNode} \<and> (k = MappingNode \<longrightarrow> even (length c)) \<and>
     (k \<in> {ScalarNode, AliasNode} \<longrightarrow> c = []) \<and> list_all tree_ok c)"

lemma tree_ok_content: "tree_ok n \<Longrightarrow> list_all tree_ok (n_content n)"
  and tree_ok_even: "tree_ok n \<Longrightarrow> n_kind n = MappingNode \<Longrightarrow> even (length (n_content n))"
  by (cases n, simp)+

lemma tree_ok_map:
  "n_kind n = MappingNode \<Longrightarrow> tree_ok (with_content n c) \<longleftrightarrow> even (length c) \<and> list_all tree_ok c"
  by (simp add: with_content_def)

lemma new_nodes_ok [simp]: "tree_ok empty_map" "tree_ok (scalar tag v)" "tree_ok (assign tag val old)"
  by (auto simp: empty_map_def scalar_def assign_def split: option.split)

lemma mappingValue_set:
  "even (length c) \<Longrightarrow> mappingValue k (set_value key f c) =
    (if k = key then Some (f (mappingValue key c)) else mappingValue k c)"
  by (induction key f c rule: set_value.induct) (auto simp: scalar_def)

lemma mappingValue_ok: "list_all tree_ok c \<Longrightarrow> mappingValue key c = Some v \<Longrightarrow> tree_ok v"
  by (induction key c rule: mappingValue.induct) (auto split: if_splits)

lemma set_value_ok:
  "even (length c) \<Longrightarrow> list_all tree_ok c \<Longrightarrow> (\<And>old. old = mappingValue key c \<Longrightarrow> tree_ok (f old)) \<Longrightarrow>
    even (length (set_value key f c)) \<and> list_all tree_ok (set_value key f c)"
  by (induction key f c rule: set_value.induct) (auto split: if_splits)

lemma with_content_simps [simp]:
  "n_kind (with_content n c) = n_kind n" "n_content (with_content n c) = c" "n_extra (with_content n c) = n_extra n"
  "n_tag (with_content n c) = n_tag n" "n_value (with_content n c) = n_value n"
  by (simp_all add: with_content_def)

lemma patch_map_kind [simp]: "n_kind (patch_map keys tag val n) = n_kind n"
  by (induction keys tag val n rule: patch_map.induct) simp_all

lemma as_map_kind [simp]: "n_kind (as_map v) = MappingNode"
  by (simp add: as_map_def empty_map_def split: option.split)

lemma as_map_ok: "list_all tree_ok c \<Longrightarrow> tree_ok (as_map (mappingValue key c))"
  by (auto simp: as_map_def split: option.splits intro: mappingValue_ok)

lemma patch_map_ok: "tree_ok n \<Longrightarrow> n_kind n = MappingNode \<Longrightarrow> tree_ok (patch_map keys tag val n)"
proof (induction keys tag val n rule: patch_map.induct)
  case (2 key tag val n)
  then show ?case
    using set_value_ok [OF tree_ok_even tree_ok_content, of n key "assign tag val"] by (simp add: tree_ok_map)
next
  case (3 key k2 ks tag val n)
  let ?f = "\<lambda>old. patch_map (k2 # ks) tag val (as_map old)"
  have "tree_ok (?f (mappingValue key (n_content n)))"
    using "3.IH" as_map_ok [OF tree_ok_content [OF 3(2)]] by simp
  then show ?case
    using set_value_ok [OF tree_ok_even tree_ok_content, of n key ?f] 3(2,3) by (simp add: tree_ok_map)
qed simp

lemma node_at_as_map:
  "keys \<noteq> [] \<Longrightarrow> node_at keys (as_map v) = (case v of None \<Rightarrow> None | Some n \<Rightarrow> node_at keys n)"
  by (cases keys; cases v) (auto simp: as_map_def empty_map_def)

text \<open>The new value: what \<open>assign\<close> makes of the old one, if there is one.\<close>

definition holds :: "string \<Rightarrow> string \<Rightarrow> node \<Rightarrow> bool" where
  "holds tag val n \<longleftrightarrow> n_kind n = ScalarNode \<and> n_tag n = tag \<and> n_value n = val \<and> n_content n = []"

lemma assign_holds: "holds tag val (assign tag val old)"
  by (simp add: holds_def assign_def scalar_def split: option.split)

lemma patch_map_at:
  "tree_ok n \<Longrightarrow> n_kind n = MappingNode \<Longrightarrow> keys \<noteq> [] \<Longrightarrow>
    \<exists>v. node_at keys (patch_map keys tag val n) = Some v \<and> holds tag val v"
proof (induction keys tag val n rule: patch_map.induct)
  case (2 key tag val n)
  then show ?case by (simp add: mappingValue_set tree_ok_even assign_holds)
next
  case (3 key k2 ks tag val n)
  have "\<exists>v. node_at (k2 # ks) (patch_map (k2 # ks) tag val (as_map (mappingValue key (n_content n)))) = Some v \<and> holds tag val v"
    using "3.IH" as_map_ok [OF tree_ok_content [OF 3(2)]] by simp
  then show ?case
    using 3(2,3) by (simp add: mappingValue_set tree_ok_even del: node_at.simps) (simp add: mappingValue_set tree_ok_even)
qed simp

lemma patch_map_other:
  assumes "tree_ok n" and "n_kind n = MappingNode"
    and "take (min (length q) (length keys)) q \<noteq> take (min (length q) (length keys)) keys"
  shows "node_at q (patch_map keys tag val n) = node_at q n"
  using assms
proof (induction keys tag val n arbitrary: q rule: patch_map.induct)
  case (2 key tag val n)
  then obtain k ks where q: "q = k # ks" "k \<noteq> key" by (cases q) auto
  with 2 show ?case by (simp add: mappingValue_set tree_ok_even)
next
  case (3 key k2 ks tag val n)
  then obtain k qs where q: "q = k # qs" by (cases q) auto
  show ?case
  proof (cases "k = key")
    case False
    with 3 q show ?thesis by (simp add: mappingValue_set tree_ok_even)
  next
    case True
    let ?old = "mappingValue key (n_content n)"
    have d: "take (min (length qs) (length (k2 # ks))) qs \<noteq> take (min (length qs) (length (k2 # ks))) (k2 # ks)"
      using 3(4) q True by simp
    then have ne: "qs \<noteq> []" by auto
    have eq: "node_at qs (patch_map (k2 # ks) tag val (as_map ?old)) = node_at qs (as_map ?old)"
      using "3.IH" [of ?old qs] as_map_ok [OF tree_ok_content [OF 3(2)]] d by simp
    have m: "mappingValue key (set_value key (\<lambda>old. patch_map (k2 # ks) tag val (as_map old)) (n_content n)) =
        Some (patch_map (k2 # ks) tag val (as_map ?old))"
      by (simp add: mappingValue_set tree_ok_even 3(2,3))
    show ?thesis unfolding q True patch_map.simps(3) node_at.simps(2) [of key] with_content_simps m option.case eq
      using 3(3) node_at_as_map [OF ne, of ?old] by simp
  qed
qed simp

section \<open>Anchors and aliases\<close>

text \<open>
  The anchored nodes in the order of the text, and whether every alias stands for an anchor that comes before it: the
  printer prints any tree, the parser refuses a text with an alias of no anchor.
\<close>

fun anchors :: "node \<Rightarrow> (string \<times> node) list" where
  "anchors (Node k t v x c) =
    (if nx_anchor x = [] then [] else [(nx_anchor x, Node k t v x c)]) @ concat (map anchors c)"

fun aliases_ok :: "string set \<Rightarrow> node \<Rightarrow> bool" and aliases_oks :: "string set \<Rightarrow> node list \<Rightarrow> bool" where
  "aliases_ok S (Node k t v x c) =
    ((k = AliasNode \<longrightarrow> v \<in> S) \<and> aliases_oks (if nx_anchor x = [] then S else insert (nx_anchor x) S) c)"
| "aliases_oks S [] = True"
| "aliases_oks S (n # ns) = (aliases_ok S n \<and> aliases_oks (S \<union> fst ` set (anchors n)) ns)"

text \<open>
  No anchor stands on the way to the key or in what the change replaces (the value of the key, or the first
  value on the way that is not a mapping).
\<close>

fun unanchored :: "string list \<Rightarrow> node \<Rightarrow> bool" where
  "unanchored [] n = (anchors n = [])"
| "unanchored (key # keys) n =
    (nx_anchor (n_extra n) = [] \<and>
     (case mappingValue key (n_content n) of
        None \<Rightarrow> True
      | Some v \<Rightarrow> if keys \<noteq> [] \<and> n_kind v = MappingNode then unanchored keys v else anchors v = []))"

definition all_anchors :: "node list \<Rightarrow> (string \<times> node) list" where
  "all_anchors c = concat (map anchors c)"

lemma all_anchors_simps [simp]: "all_anchors [] = []" "all_anchors (n # c) = anchors n @ all_anchors c"
  by (simp_all add: all_anchors_def)

lemma anchors_plain: "nx_anchor (n_extra n) = [] \<Longrightarrow> anchors n = all_anchors (n_content n)"
  by (cases n) (simp add: all_anchors_def)

lemma no_anchor: "anchors n = [] \<Longrightarrow> nx_anchor (n_extra n) = []"
  by (cases n) (auto split: if_splits)

lemma new_anchors [simp]: "anchors (scalar tag val) = []" "anchors empty_map = []"
  by (simp_all add: scalar_def empty_map_def no_extra_def)

lemma set_value_anchors:
  "even (length c) \<Longrightarrow> anchors (f (mappingValue key c)) = (case mappingValue key c of None \<Rightarrow> [] | Some v \<Rightarrow> anchors v) \<Longrightarrow>
    all_anchors (set_value key f c) = all_anchors c"
  by (induction key f c rule: set_value.induct) (auto split: if_splits)

lemma set_value_aliases:
  "even (length c) \<Longrightarrow> aliases_oks S c \<Longrightarrow>
    anchors (f (mappingValue key c)) = (case mappingValue key c of None \<Rightarrow> [] | Some v \<Rightarrow> anchors v) \<Longrightarrow>
    (\<And>S'. (case mappingValue key c of None \<Rightarrow> True | Some v \<Rightarrow> aliases_ok S' v) \<Longrightarrow> aliases_ok S' (f (mappingValue key c))) \<Longrightarrow>
    aliases_oks S (set_value key f c)"
proof (induction key f c arbitrary: S rule: set_value.induct)
  case (1 key f k v rest)
  then show ?case by (auto split: if_splits)
qed (auto simp: scalar_def no_extra_def)

lemma aliases_plain: "nx_anchor (n_extra n) = [] \<Longrightarrow> n_kind n = MappingNode \<Longrightarrow> aliases_ok S n = aliases_oks S (n_content n)"
  by (cases n) simp

lemma patch_map_extra [simp]: "n_extra (patch_map keys tag val n) = n_extra n"
  by (induction keys tag val n rule: patch_map.induct) simp_all

lemma fresh_map_aliases: "nx_anchor x = [] \<Longrightarrow> aliases_ok S (Node MappingNode t v x [])"
  by simp

text \<open>The mapping that \<open>as_map\<close> gives has the anchors of the value there was, and no alias that it did not have.\<close>

lemma as_map_unanchored:
  assumes "case v of None \<Rightarrow> True | Some n \<Rightarrow> if n_kind n = MappingNode then unanchored keys n else anchors n = []" and "keys \<noteq> []"
  shows "unanchored keys (as_map v)"
    and "anchors (as_map v) = (case v of None \<Rightarrow> [] | Some n \<Rightarrow> anchors n)"
    and "(case v of None \<Rightarrow> True | Some n \<Rightarrow> aliases_ok S n) \<Longrightarrow> aliases_ok S (as_map v)"
proof -
  obtain k ks where keys: "keys = k # ks" using assms(2) by (cases keys) auto
  show "unanchored keys (as_map v)" "anchors (as_map v) = (case v of None \<Rightarrow> [] | Some n \<Rightarrow> anchors n)"
    "(case v of None \<Rightarrow> True | Some n \<Rightarrow> aliases_ok S n) \<Longrightarrow> aliases_ok S (as_map v)"
    using assms(1) by (auto simp: as_map_def keys empty_map_def no_extra_def no_anchor split: option.splits)
qed

lemma patch_map_anchors:
  assumes "tree_ok n" and "n_kind n = MappingNode" and "unanchored keys n" and "keys \<noteq> []"
  shows "anchors (patch_map keys tag val n) = anchors n \<and> (aliases_ok S n \<longrightarrow> aliases_ok S (patch_map keys tag val n))"
  using assms
proof (induction keys tag val n arbitrary: S rule: patch_map.induct)
  case (2 key tag val n)
  let ?old = "mappingValue key (n_content n)"
  have x: "nx_anchor (n_extra n) = []" and u: "?old = Some v \<Longrightarrow> anchors v = []" for v using 2 by auto
  have a: "anchors (assign tag val ?old) = (case ?old of None \<Rightarrow> [] | Some v \<Rightarrow> anchors v)"
    using u by (auto simp: assign_def no_anchor split: option.split)
  have o: "aliases_ok S' (assign tag val ?old)" for S'
    by (simp add: assign_def scalar_def no_extra_def split: option.split)
  show ?case
    using x 2(2) set_value_anchors [OF tree_ok_even [OF 2(1,2)], where f = "assign tag val" and key = key] a
      set_value_aliases [OF tree_ok_even [OF 2(1,2)], where f = "assign tag val" and key = key] o
    by (simp add: anchors_plain aliases_plain)
next
  case (3 key k2 ks tag val n)
  let ?old = "mappingValue key (n_content n)" and ?f = "\<lambda>old. patch_map (k2 # ks) tag val (as_map old)"
  have x: "nx_anchor (n_extra n) = []"
    and u: "case ?old of None \<Rightarrow> True | Some v \<Rightarrow> if n_kind v = MappingNode then unanchored (k2 # ks) v else anchors v = []"
    using 3(4) by (auto split: option.splits simp del: unanchored.simps(2) simp: unanchored.simps(2) [of key])
  note U = as_map_unanchored [OF u]
  have IH: "anchors (?f ?old) = anchors (as_map ?old)" "aliases_ok S' (as_map ?old) \<Longrightarrow> aliases_ok S' (?f ?old)" for S'
    using "3.IH" [of ?old S'] U(1) as_map_ok [OF tree_ok_content [OF 3(2)]] by simp_all
  show ?case
    using x 3(3) set_value_anchors [OF tree_ok_even [OF 3(2,3)], where f = ?f and key = key] IH U(2,3)
      set_value_aliases [OF tree_ok_even [OF 3(2,3)], where f = ?f and key = key]
    by (simp add: anchors_plain aliases_plain)
qed simp

section \<open>Changing one key of the file\<close>

text \<open>A tree without its styles and comments.\<close>

fun data_of :: "node \<Rightarrow> node" where
  "data_of (Node k t v x c) = Node k t v (no_extra\<lparr>nx_anchor := nx_anchor x\<rparr>) (map data_of c)"

text \<open>
  The kinds, tags and values of the nodes of a tree. A tree is \<open>known\<close> to a parser when each of them, and each of its
  anchors, is one that the parser gives for some text: values of UTF-8 are (they can be written in quotes), a value that is not UTF-8 or
  an empty tag is not, and the printer would write something else for it.
\<close>

fun pieces :: "node \<Rightarrow> (node_kind \<times> string \<times> string) set" where
  "pieces (Node k t v x c) = insert (k, t, v) (\<Union> (set (map pieces c)))"

definition known :: "(string \<Rightarrow> goerr + node) \<Rightarrow> node \<Rightarrow> bool" where
  "known parse n \<longleftrightarrow>
    pieces n \<subseteq> {e. \<exists>raw doc. parse raw = Inr doc \<and> e \<in> pieces doc} \<and>
    fst ` set (anchors n) \<subseteq> {a. \<exists>raw doc. parse raw = Inr doc \<and> a \<in> fst ` set (anchors doc)}"

definition document_ok :: "node \<Rightarrow> bool" where
  "document_ok doc \<longleftrightarrow> n_kind doc = DocumentNode \<and>
     (case n_content doc of [root] \<Rightarrow> tree_ok root \<and> aliases_ok {} root | _ \<Rightarrow> False)"

text \<open>
  What is expected of the library: the parser gives a document, or the zero node for a file without one, and
  a document of known nodes that is printed and parsed again is the same but for styles and comments.
\<close>

definition yaml_library :: "(string \<Rightarrow> goerr + node) \<Rightarrow> (node \<Rightarrow> goerr + string) \<Rightarrow> bool" where
  "yaml_library parse print \<longleftrightarrow>
     (\<forall>raw doc. parse raw = Inr doc \<longrightarrow> n_kind doc = NoNode \<or> document_ok doc) \<and>
     (\<forall>doc raw. document_ok doc \<longrightarrow> known parse doc \<longrightarrow> print doc = Inr raw \<longrightarrow> (\<exists>doc'. parse raw = Inr doc' \<and> data_of doc' = data_of doc))"

definition doc_root :: "node \<Rightarrow> node" where
  "doc_root doc =
    (if n_kind doc = DocumentNode then (if n_content doc = [] then empty_map else hd (n_content doc)) else doc)"

definition incomparable :: "string list \<Rightarrow> string list \<Rightarrow> bool" where
  "incomparable q keys \<longleftrightarrow> take (min (length q) (length keys)) q \<noteq> take (min (length q) (length keys)) keys"

lemma data_sel [simp]:
  "n_kind (data_of n) = n_kind n" "n_tag (data_of n) = n_tag n" "n_value (data_of n) = n_value n"
  "n_content (data_of n) = map data_of (n_content n)"
  by (cases n; simp)+

lemma mappingValue_data: "mappingValue key (map data_of c) = map_option data_of (mappingValue key c)"
  by (induction key c rule: mappingValue.induct) simp_all

lemma node_at_data: "node_at q (data_of n) = map_option data_of (node_at q n)"
  by (induction q n rule: node_at.induct) (auto simp: mappingValue_data split: option.split)

lemma anchors_data: "anchors (data_of n) = map (map_prod id data_of) (anchors n)"
  by (induction n rule: data_of.induct) (simp add: map_concat comp_def cong: map_cong)

lemma data_root: "data_of doc' = data_of doc \<Longrightarrow> document_ok doc \<Longrightarrow> data_of (doc_root doc') = data_of (doc_root doc)"
  by (cases doc; cases doc') (auto simp: document_ok_def doc_root_def split: list.splits)

lemma holds_data: "holds tag val (data_of v) = holds tag val v"
  by (cases v) (simp add: holds_def)

text \<open>What the change adds: the value, the keys that were not there, and mappings on the way.\<close>

lemma pieces_node: "pieces n = insert (n_kind n, n_tag n, n_value n) (\<Union> (pieces ` set (n_content n)))"
  by (cases n) simp

lemma pieces_value: "mappingValue key c = Some v \<Longrightarrow> pieces v \<subseteq> \<Union> (pieces ` set c)"
  by (induction key c rule: mappingValue.induct) (auto split: if_splits)

lemma set_value_pieces:
  "\<Union> (pieces ` set (set_value key f c)) \<subseteq>
    \<Union> (pieces ` set c) \<union> {(ScalarNode, ''!!str'', key)} \<union> pieces (f (mappingValue key c))"
  by (induction key f c rule: set_value.induct) (auto simp: scalar_def)

definition added_pieces :: "string list \<Rightarrow> string \<Rightarrow> string \<Rightarrow> (node_kind \<times> string \<times> string) set" where
  "added_pieces keys tag val =
    {(ScalarNode, tag, val), (MappingNode, ''!!map'', [])} \<union> (\<lambda>key. (ScalarNode, ''!!str'', key)) ` set keys"

lemma as_map_pieces: "pieces (as_map (mappingValue key c)) \<subseteq> \<Union> (pieces ` set c) \<union> {(MappingNode, ''!!map'', [])}"
  using pieces_value [of key c] by (auto simp: as_map_def empty_map_def split: option.splits if_splits)

lemma patch_map_pieces: "pieces (patch_map keys tag val n) \<subseteq> pieces n \<union> added_pieces keys tag val"
proof (induction keys tag val n rule: patch_map.induct)
  case (2 key tag val n)
  have "pieces (assign tag val old) = {(ScalarNode, tag, val)}" for old
    by (simp add: assign_def scalar_def split: option.split)
  then show ?case
    using set_value_pieces [of key "assign tag val" "n_content n"]
    unfolding patch_map.simps pieces_node [of n] pieces_node [of "with_content n c" for c] with_content_simps
    by (auto simp: added_pieces_def)
next
  case (3 key k2 ks tag val n)
  let ?f = "\<lambda>old. patch_map (k2 # ks) tag val (as_map old)" and ?old = "mappingValue key (n_content n)"
  have "pieces (?f ?old) \<subseteq> \<Union> (pieces ` set (n_content n)) \<union> added_pieces (key # k2 # ks) tag val"
    using "3.IH" [of ?old] as_map_pieces [of key "n_content n"] by (auto simp: added_pieces_def)
  then show ?case
    using set_value_pieces [of key ?f "n_content n"]
    unfolding patch_map.simps(3) pieces_node [of n] pieces_node [of "with_content n c" for c] with_content_simps
    by (auto simp: added_pieces_def simp del: patch_map.simps)
qed simp

lemma patched_document:
  assumes "document_ok doc" and "patch_doc keys tag val doc = Some doc1" and "unanchored keys (doc_root doc)" and "keys \<noteq> []"
  shows "document_ok doc1" and "doc_root doc1 = patch_map keys tag val (doc_root doc)" and "n_kind (doc_root doc) = MappingNode"
    and "tree_ok (doc_root doc)" and "pieces doc1 \<subseteq> pieces doc \<union> added_pieces keys tag val"
    and "fst ` set (anchors doc1) = fst ` set (anchors doc)"
proof -
  obtain root where c: "n_content doc = [root]" and k: "n_kind doc = DocumentNode" and r: "tree_ok root" "aliases_ok {} root"
    using assms(1) by (auto simp: document_ok_def split: list.splits)
  have root: "doc_root doc = root" by (simp add: doc_root_def c k)
  have m: "n_kind root = MappingNode" and d: "doc1 = with_content doc [patch_map keys tag val root]"
    using assms(2) by (auto simp: patch_doc_def c k Let_def split: if_splits)
  show "document_ok doc1"
    using patch_map_ok [OF r(1) m] patch_map_anchors [OF r(1) m assms(3) [unfolded root] assms(4), where S = "{}"] r(2)
    by (simp add: document_ok_def d k)
  show "doc_root doc1 = patch_map keys tag val (doc_root doc)" by (simp add: root d doc_root_def [of "with_content doc c" for c] k)
  show "n_kind (doc_root doc) = MappingNode" "tree_ok (doc_root doc)" by (simp_all add: root m r)
  show "pieces doc1 \<subseteq> pieces doc \<union> added_pieces keys tag val"
    using patch_map_pieces [of keys tag val root]
    unfolding d pieces_node [of doc] pieces_node [of "with_content doc c" for c] with_content_simps c by auto
  have "anchors doc1 = (if nx_anchor (n_extra doc) = [] then [] else [(nx_anchor (n_extra doc), doc1)]) @ anchors root"
    using patch_map_anchors [OF r(1) m assms(3) [unfolded root] assms(4)] unfolding d by (cases doc) (simp add: with_content_def)
  moreover have "anchors doc = (if nx_anchor (n_extra doc) = [] then [] else [(nx_anchor (n_extra doc), doc)]) @ anchors root"
    using c by (cases doc) simp
  ultimately show "fst ` set (anchors doc1) = fst ` set (anchors doc)" by auto
qed

lemma patched_known:
  assumes "parse raw = Inr doc" and "document_ok doc" and "patch_doc keys tag val doc = Some doc1" and "unanchored keys (doc_root doc)"
    and "keys \<noteq> []" and "known parse (scalar tag val)" and "list_all (\<lambda>key. known parse (scalar ''!!str'' key)) keys" and "known parse empty_map"
  shows "known parse doc1"
proof -
  let ?P = "{e. \<exists>raw doc. parse raw = Inr doc \<and> e \<in> pieces doc}"
    and ?A = "{a. \<exists>raw doc. parse raw = Inr doc \<and> a \<in> fst ` set (anchors doc)}"
  have d: "pieces doc \<subseteq> ?P" "fst ` set (anchors doc) \<subseteq> ?A" using assms(1) by blast+
  have one: "(ScalarNode, t, v) \<in> ?P" if "known parse (scalar t v)" for t v
    using that unfolding known_def scalar_def pieces.simps by blast
  have "(MappingNode, ''!!map'', []) \<in> ?P" using assms(8) unfolding known_def empty_map_def pieces.simps by blast
  moreover have "(\<lambda>key. (ScalarNode, ''!!str'', key)) ` set keys \<subseteq> ?P"
    using one assms(7) unfolding list_all_iff by (intro image_subsetI) (elim ballE, assumption, simp)
  ultimately have "added_pieces keys tag val \<subseteq> ?P" using one [OF assms(6)] unfolding added_pieces_def by (intro Un_least insert_subsetI) simp_all
  with d(1) have "pieces doc \<union> added_pieces keys tag val \<subseteq> ?P" by (rule Un_least)
  with patched_document(5) [OF assms(2-5)] have "pieces doc1 \<subseteq> ?P" by (rule subset_trans)
  with d(2) patched_document(6) [OF assms(2-5)] show ?thesis unfolding known_def by simp
qed

lemma writeAtomic_result:
  assumes "writeAtomic tmp path data d = (e, d')" and "tmp \<noteq> path"
  shows "ds_files d' path = (if e = None then Some data else ds_files d path) \<and>
    (\<forall>f. f \<noteq> path \<longrightarrow> f \<noteq> tmp \<longrightarrow> ds_files d' f = ds_files d f) \<and>
    (ds_files d' tmp = None \<or> d' = d)"
  using assms by (cases "ds_fault d") (auto simp: writeAtomic_def Let_def)

text \<open>
  C17: Changing one key of the configuration file changes that key only, or nothing. After \<open>Patch\<close> has
  succeeded the file parses to a document with the new value at the key path, in which every path that is not on the way to it or below it
  leads to the node it led to before (the token among them), and in which every anchor stands for what it stood for, so
  that aliases mean what they meant; this is up to styles and comments, and provided that no anchor stands on the way to the key
  or in what is replaced, and that the value and the keys are texts YAML can hold. If it fails at any point, the file is as it was. No other file changes and no temporary file is left.
\<close>

theorem patch_keeps_rest:
  assumes "yaml_library parse print" and "ds_files d path = Some raw" and "parse raw = Inr doc"
    and "unanchored keys (doc_root doc)" and "tmp \<noteq> path" and "ds_files d tmp = None" and "keys \<noteq> []"
    and "known parse (scalar tag val)" and "list_all (\<lambda>key. known parse (scalar ''!!str'' key)) keys" and "known parse empty_map"
    and "patch_file parse print tmp path keys val tag d = (e, d')"
  shows "(e \<noteq> None \<longrightarrow> ds_files d' path = Some raw) \<and>
    (e = None \<longrightarrow> (\<exists>raw1 doc1. ds_files d' path = Some raw1 \<and> parse raw1 = Inr doc1 \<and>
       (\<exists>v. node_at keys (doc_root doc1) = Some v \<and> holds tag val v) \<and>
       (\<forall>q. incomparable q keys \<longrightarrow>
          map_option data_of (node_at q (doc_root doc1)) = map_option data_of (node_at q (doc_root doc))) \<and>
       map (map_prod id data_of) (anchors (doc_root doc1)) = map (map_prod id data_of) (anchors (doc_root doc)))) \<and>
    (\<forall>f. f \<noteq> path \<longrightarrow> ds_files d' f = ds_files d f)"
proof (cases "patch_doc keys tag val doc")
  case None
  with assms(2,3,7,11) show ?thesis by (auto simp: patch_file_def)
next
  case (Some doc2)
  show ?thesis
  proof (cases "print doc2")
    case (Inl e1)
    with Some assms(2,3,7,11) show ?thesis by (auto simp: patch_file_def)
  next
    case (Inr out)
    with Some assms(2,3,7,11) have w: "writeAtomic tmp path out d = (e, d')" by (simp add: patch_file_def)
    have ok: "document_ok doc"
      using assms(1,3) Some unfolding yaml_library_def by (fastforce simp: patch_doc_def)
    note P = patched_document [OF ok Some assms(4,7)]
    obtain doc1 where p: "parse out = Inr doc1" and same: "data_of doc1 = data_of doc2"
      using assms(1) P(1) Inr patched_known [OF assms(3) ok Some assms(4,7,8-10)] unfolding yaml_library_def by blast
    note r = data_root [OF same P(1), unfolded P(2)]
    note A = patch_map_anchors [OF P(4,3) assms(4,7)]
    have at: "map_option data_of (node_at q (doc_root doc1)) = map_option data_of (node_at q (patch_map keys tag val (doc_root doc)))" for q
      using r by (metis node_at_data)
    obtain v0 where "node_at keys (patch_map keys tag val (doc_root doc)) = Some v0" "holds tag val v0"
      using patch_map_at [OF P(4,3) assms(7)] by blast
    then have "\<exists>v. node_at keys (doc_root doc1) = Some v \<and> holds tag val v"
      using at [of keys] holds_data by (metis map_option_eq_Some)
    moreover have "map_option data_of (node_at q (doc_root doc1)) = map_option data_of (node_at q (doc_root doc))"
      if "incomparable q keys" for q
      using at [of q] patch_map_other [OF P(4,3) that [unfolded incomparable_def]] by simp
    moreover have "map (map_prod id data_of) (anchors (doc_root doc1)) = map (map_prod id data_of) (anchors (doc_root doc))"
      using r A by (metis anchors_data)
    moreover have "ds_files d' f = ds_files d f" if "f \<noteq> path" for f
      using writeAtomic_result [OF w assms(5)] that assms(6) by (cases "f = tmp") auto
    ultimately show ?thesis using writeAtomic_result [OF w assms(5)] assms(2) p by auto
  qed
qed

definition doc0 :: node where
  "doc0 = Node DocumentNode [] [] no_extra [Node MappingNode ''!!map'' [] no_extra
     [scalar ''!!str'' ''token'', scalar ''!!str'' ''gho_x'', scalar ''!!str'' ''provider'', scalar ''!!str'' ''github'']]"

text \<open>A toy library that knows the two documents of the example.\<close>

definition parse0 :: "node \<Rightarrow> string \<Rightarrow> goerr + node" where
  "parse0 after raw = (if raw = ''old'' then Inr doc0 else if raw = ''new'' then Inr after else Inl (Errorf ''yaml''))"

definition print0 :: "node \<Rightarrow> node \<Rightarrow> goerr + string" where
  "print0 after n = (if n = after then Inr ''new'' else Inl (Errorf ''yaml''))"

definition after0 :: node where
  "after0 = with_content doc0 [patch_map [''github'', ''codespace''] ''!!str'' ''box'' (doc_root doc0)]"

lemma toy_library: "yaml_library (parse0 after0) (print0 after0)"
proof -
  have ok: "document_ok doc0" by (simp add: document_ok_def doc0_def scalar_def no_extra_def)
  have "patch_doc [''github'', ''codespace''] ''!!str'' ''box'' doc0 = Some after0"
    by (simp add: patch_doc_def after0_def) (simp add: doc0_def doc_root_def)
  moreover have "unanchored [''github'', ''codespace''] (doc_root doc0)"
    by (simp add: doc0_def doc_root_def scalar_def no_extra_def)
  ultimately have "document_ok after0" using patched_document(1) [OF ok] by blast
  with ok show ?thesis by (auto simp: yaml_library_def parse0_def print0_def split: if_splits)
qed

lemma patch_keeps_rest_witness:
  "\<exists>d' raw1 doc1. patch_file (parse0 after0) (print0 after0) ''c.tmp'' ''c'' [''github'', ''codespace''] ''box'' ''!!str''
      \<lparr>ds_files = [''c'' \<mapsto> ''old''], ds_fault = NoFault\<rparr> = (None, d') \<and>
    ds_files d' ''c'' = Some raw1 \<and> parse0 after0 raw1 = Inr doc1 \<and>
    map_option data_of (node_at [''token''] (doc_root doc1)) = Some (scalar ''!!str'' ''gho_x'')"
proof -
  let ?d = "\<lparr>ds_files = [''c'' \<mapsto> ''old''], ds_fault = NoFault\<rparr>"
  have p: "parse0 after0 ''old'' = Inr doc0" by (simp add: parse0_def)
  have u: "unanchored [''github'', ''codespace''] (doc_root doc0)" by (simp add: doc0_def doc_root_def scalar_def no_extra_def)
  have pd: "patch_doc [''github'', ''codespace''] ''!!str'' ''box'' doc0 = Some after0"
    by (simp add: patch_doc_def after0_def) (simp add: doc0_def doc_root_def)
  obtain d' where w: "patch_file (parse0 after0) (print0 after0) ''c.tmp'' ''c'' [''github'', ''codespace''] ''box'' ''!!str'' ?d =
      (None, d')"
    by (simp add: patch_file_def p pd print0_def writeAtomic_def Let_def)
  have t: "map_option data_of (node_at [''token''] (doc_root doc0)) = Some (scalar ''!!str'' ''gho_x'')"
    by (simp add: doc0_def doc_root_def scalar_def no_extra_def)
  have inc: "incomparable [''token''] [''github'', ''codespace'']" by (simp add: incomparable_def)
  have after: "parse0 after0 ''new'' = Inr after0" by (simp add: parse0_def)
  have known: "known (parse0 after0) n" if "pieces n \<subseteq> pieces after0" "anchors n = []" for n
    using that after unfolding known_def by auto
  note eval = no_extra_def after0_def doc0_def doc_root_def scalar_def empty_map_def with_content_def as_map_def assign_def
  have str: "known (parse0 after0) (scalar ''!!str'' key)" if "key \<in> {''box'', ''github'', ''codespace''}" for key
    by (rule known) (use that in \<open>auto simp: eval\<close>)
  have k: "known (parse0 after0) (scalar ''!!str'' ''box'')"
    "list_all (\<lambda>key. known (parse0 after0) (scalar ''!!str'' key)) [''github'', ''codespace'']"
    by (simp_all add: str)
  have m: "known (parse0 after0) empty_map" by (rule known) (simp_all add: eval)
  from patch_keeps_rest [OF toy_library _ p u _ _ _ k m w] obtain raw1 doc1 where "ds_files d' ''c'' = Some raw1" "parse0 after0 raw1 = Inr doc1"
      "map_option data_of (node_at [''token''] (doc_root doc1)) = map_option data_of (node_at [''token''] (doc_root doc0))"
    using inc by auto
  with w t show ?thesis by (auto simp del: node_at.simps)
qed

text \<open>With an anchor on the value that is changed, every alias of it changes too: here \<open>other: *a\<close> stands for the new value.\<close>

lemma anchored_value_changes:
  "anchors (patch_map [''codespace''] ''!!str'' ''new'' (Node MappingNode ''!!map'' [] no_extra
     [scalar ''!!str'' ''codespace'', Node ScalarNode ''!!str'' ''old'' (no_extra\<lparr>nx_anchor := ''a''\<rparr>) [],
      scalar ''!!str'' ''other'', Node AliasNode [] ''a'' no_extra []])) =
   [(''a'', Node ScalarNode ''!!str'' ''new'' (no_extra\<lparr>nx_anchor := ''a''\<rparr>) [])]"
  by (simp add: scalar_def assign_def with_content_def no_extra_def)

end
