(* ===== verification/SshServer.thy ===== *)
theory SshServer
  imports SshAuth Lifecycle
begin

text \<open>
  The SSH server around the sessions: its host key (\<open>ssh/hostkey.go\<close>), its construction and
  configuration (\<open>ssh/server.go\<close>, \<open>New\<close>), and its life: accepting connections, serving their channels
  (\<open>ssh/proxy.go\<close>, \<open>handleConn\<close>), shutting down and draining. The last is a step relation with one
  step per critical section or blocking call, for any number of connections and sessions.
\<close>

section \<open>The host key (ssh/hostkey.go)\<close>

text \<open>
  Parsing private keys, generating one, its PEM text and its signer are the library's, each with its error. The key
  file comes with the faults that can strike while it is created: the directory, opening,
  writing (after some bytes) and closing.
\<close>

record 'k hostlib =
  hl_parse :: "string \<Rightarrow> goerr + 'k"
  hl_generate :: "goerr + string"
  hl_marshal :: "string \<Rightarrow> goerr + string"
  hl_signer :: "string \<Rightarrow> goerr + 'k"

record key_file =
  kf_content :: file_read
  kf_mkdir :: "goerr option"
  kf_open :: "goerr option"
  kf_write :: "(nat \<times> goerr) option"
  kf_close :: "goerr option"

definition create_host_key ::
  "'k hostlib \<Rightarrow> string \<Rightarrow> key_file \<Rightarrow> (goerr + 'k \<times> bool) \<times> key_file" where
  "create_host_key H path f =
    (case kf_mkdir f of
       Some e \<Rightarrow> (Inl e, f)
     | None \<Rightarrow>
        (case hl_generate H of
           Inl e \<Rightarrow> (Inl e, f)
         | Inr priv \<Rightarrow>
            (case hl_marshal H priv of
               Inl e \<Rightarrow> (Inl e, f)
             | Inr pem \<Rightarrow>
                (case kf_open f of
                   Some e \<Rightarrow> (Inl (Wrapf (''create host key '' @ path @ '': '') e []), f)
                 | None \<Rightarrow>
                    (case kf_write f of
                       Some (n, e) \<Rightarrow> (Inl e, f\<lparr>kf_content := FileContent (take n pem)\<rparr>)
                     | None \<Rightarrow>
                        let f1 = f\<lparr>kf_content := FileContent pem\<rparr>
                        in (case kf_close f of
                              Some e \<Rightarrow> (Inl e, f1)
                            | None \<Rightarrow>
                               (case hl_signer H priv of Inl e \<Rightarrow> (Inl e, f1) | Inr key \<Rightarrow> (Inr (key, True), f1))))))))"

definition LoadOrCreateHostKey ::
  "'k hostlib \<Rightarrow> string \<Rightarrow> key_file \<Rightarrow> (goerr + 'k \<times> bool) \<times> key_file" where
  "LoadOrCreateHostKey H path f =
    (case kf_content f of
       FileContent raw \<Rightarrow>
         (case hl_parse H raw of
            Inl e \<Rightarrow> (Inl (Wrapf (''parse host key '' @ path @ '': '') e []), f)
          | Inr key \<Rightarrow> (Inr (key, False), f))
     | FileError e \<Rightarrow> (Inl (Wrapf (''read host key '' @ path @ '': '') e []), f)
     | FileMissing \<Rightarrow> create_host_key H path f)"

section \<open>Construction\<close>

record server_config =
  svc_Listen :: string
  svc_HostKeyPath :: string
  svc_HandshakeTimeout :: int
  svc_ShutdownGrace :: int
  svc_Banner :: string
  svc_Auth :: auth_config

text \<open>
  What \<open>New\<close> hands to the library: whether clients may come without credentials, whether there
  is a password callback, and the banner.
\<close>

record 'k server =
  svr_cfg :: server_config
  svr_auth :: "'k authorizer"
  svr_hostKey :: 'k
  svr_newHost :: bool
  svr_noClientAuth :: bool
  svr_passwordCallback :: bool
  svr_banner :: "string option"

definition New_server ::
  "'k keylib \<Rightarrow> 'k hostlib \<Rightarrow> server_config \<Rightarrow> bool \<Rightarrow> file_read \<Rightarrow> (goerr + string) \<Rightarrow> key_file \<Rightarrow>
   (goerr + 'k server) \<times> key_file" where
  "New_server K H cfg backend keys rnd f =
    (if \<not> backend then (Inl (Errorf ''ssh: backend is required''), f)
     else
       (case NewAuthorizer K (svc_Auth cfg) keys rnd of
          Inl e \<Rightarrow> (Inl e, f)
        | Inr a \<Rightarrow>
           (case LoadOrCreateHostKey H (svc_HostKeyPath cfg) f of
              (Inl e, f1) \<Rightarrow> (Inl e, f1)
            | (Inr (key, created), f1) \<Rightarrow>
               (Inr \<lparr>svr_cfg = cfg, svr_auth = a, svr_hostKey = key, svr_newHost = created,
                  svr_noClientAuth = au_anonymous a, svr_passwordCallback = au_passwordAuth a,
                  svr_banner = banner_text (svc_Banner cfg)\<rparr>, f1))))"

definition HostKeyFingerprint :: "'k keylib \<Rightarrow> 'k server \<Rightarrow> string" where
  "HostKeyFingerprint K s = kl_fingerprint K (svr_hostKey s)"

text \<open>What is expected of the library: a key that was generated is what its PEM text is parsed to.\<close>

definition key_round_trip :: "'k hostlib \<Rightarrow> bool" where
  "key_round_trip H \<longleftrightarrow>
    (case hl_generate H of
       Inl _ \<Rightarrow> True
     | Inr priv \<Rightarrow>
        (case (hl_marshal H priv, hl_signer H priv) of (Inr pem, Inr key) \<Rightarrow> hl_parse H pem = Inr key | _ \<Rightarrow> True))"

lemma create_host_keyD:
  assumes "create_host_key H path f = (Inr (key, c), f')"
  shows "\<exists>priv pem. hl_generate H = Inr priv \<and> hl_marshal H priv = Inr pem \<and> hl_signer H priv = Inr key \<and> c \<and>
    f' = f\<lparr>kf_content := FileContent pem\<rparr>"
  using assms unfolding create_host_key_def
  by (cases "hl_generate H")
     (auto simp: Let_def split: option.split_asm sum.split_asm prod.split_asm if_split_asm)

text \<open>
  C27: The host key clients pin is stable. A start that finds a key file, readable or not, parsable or not, leaves the
  file as it is and creates no key, whether it succeeds or fails; and once a start has loaded or created the host key, every later start,
  whatever its random source, loads the same key from the same file and creates none.
\<close>

theorem host_key_stable:
  assumes "key_round_trip H" and "LoadOrCreateHostKey H path f = (r, f')"
  shows "(kf_content f \<noteq> FileMissing \<longrightarrow> f' = f \<and> (\<forall>key. r \<noteq> Inr (key, True))) \<and>
    (\<forall>key created. r = Inr (key, created) \<longrightarrow>
       created = (kf_content f = FileMissing) \<and>
       LoadOrCreateHostKey (H\<lparr>hl_generate := g\<rparr>) path f' = (Inr (key, False), f'))"
proof (cases "kf_content f")
  case (FileContent raw)
  with assms(2) show ?thesis by (auto simp: LoadOrCreateHostKey_def split: sum.splits)
next
  case FileMissing
  have "\<exists>pem. kf_content f' = FileContent pem \<and> hl_parse H pem = Inr key \<and> created" if "r = Inr (key, created)" for key created
  proof -
    from assms(2) FileMissing that have "create_host_key H path f = (Inr (key, created), f')"
      by (simp add: LoadOrCreateHostKey_def)
    from create_host_keyD [OF this] obtain priv pem where "hl_generate H = Inr priv" "hl_marshal H priv = Inr pem"
        "hl_signer H priv = Inr key" created "kf_content f' = FileContent pem"
      by auto
    with assms(1) show ?thesis by (simp add: key_round_trip_def)
  qed
  then have "created \<and> LoadOrCreateHostKey (H\<lparr>hl_generate := g\<rparr>) path f' = (Inr (key, False), f')"
    if "r = Inr (key, created)" for key created
    using that by (fastforce simp: LoadOrCreateHostKey_def)
  with FileMissing show ?thesis by blast
next
  case (FileError e)
  with assms(2) show ?thesis by (auto simp: LoadOrCreateHostKey_def)
qed

definition pem_lib :: "string \<Rightarrow> string hostlib" where
  "pem_lib fresh = \<lparr>hl_parse = (\<lambda>raw. Inr (drop 4 raw)), hl_generate = Inr fresh, hl_marshal = (\<lambda>priv. Inr (''PEM:'' @ priv)),
     hl_signer = Inr\<rparr>"

definition no_faults :: "file_read \<Rightarrow> key_file" where
  "no_faults content = \<lparr>kf_content = content, kf_mkdir = None, kf_open = None, kf_write = None, kf_close = None\<rparr>"

lemma host_key_stable_witness:
  "LoadOrCreateHostKey ((pem_lib ''key1'')\<lparr>hl_generate := Inr ''other''\<rparr>) ''k'' (no_faults (FileContent ''PEM:key1'')) =
    (Inr (''key1'', False), no_faults (FileContent ''PEM:key1''))"
proof -
  have c: "LoadOrCreateHostKey (pem_lib ''key1'') ''k'' (no_faults FileMissing) =
      (Inr (''key1'', True), no_faults (FileContent ''PEM:key1''))"
    by (simp add: LoadOrCreateHostKey_def create_host_key_def pem_lib_def no_faults_def)
  have "key_round_trip (pem_lib ''key1'')" by (simp add: key_round_trip_def pem_lib_def)
  from conjunct2 [OF host_key_stable [OF this c, of "Inr ''other''"]]
  have "True = (kf_content (no_faults FileMissing) = FileMissing) \<and>
      LoadOrCreateHostKey ((pem_lib ''key1'')\<lparr>hl_generate := Inr ''other''\<rparr>) ''k'' (no_faults (FileContent ''PEM:key1'')) =
        (Inr (''key1'', False), no_faults (FileContent ''PEM:key1''))"
    by (elim allE impE) (rule refl)
  then show ?thesis ..
qed

text \<open>
  A write that fails half way leaves the part behind, and \<open>O_EXCL\<close> keeps later starts from
  replacing it: no start succeeds until the file is removed.
\<close>

lemma partial_host_key:
  assumes "kf_content f = FileMissing" and "kf_mkdir f = None" and "kf_open f = None"
    and "hl_generate H = Inr priv" and "hl_marshal H priv = Inr pem" and "kf_write f = Some (n, e)" and "hl_parse H (take n pem) = Inl e'"
  shows "fst (LoadOrCreateHostKey H path (snd (LoadOrCreateHostKey H path f))) =
    Inl (Wrapf (''parse host key '' @ path @ '': '') e' [])"
  using assms by (simp add: LoadOrCreateHostKey_def create_host_key_def)

section \<open>Serving, shutting down, draining\<close>

text \<open>
  A connection: in the handshake, logged in (its channels are served), with its sockets closed
  by its handler, or forgotten by the server. \<open>sc_open\<close> is the gateway's end of the socket.
\<close>

datatype conn_pc = Handshaking | LoggedIn | Closed | Gone

record server_conn =
  sc_pc :: conn_pc
  sc_open :: bool

text \<open>
  A session channel: its connection, whether its goroutine is counted by the wait group, and two
  facts that only the properties use: it was opened after \<open>drain\<close> had stopped waiting, its
  connection was closed under it.
\<close>

record server_session =
  se_conn :: nat
  se_live :: bool
  se_late :: bool
  se_cut :: bool

text \<open>
  Where \<open>Serve\<close> is: in the accept loop, waiting in \<open>drain\<close> (until \<open>sv_due\<close> at most), about to close what
  is left (because the grace period ended or not), returned. The goroutine that shuts down
  waits for the context, has marked the server as closing, or has closed the listener.
\<close>

datatype serve_pc = Serving | DrainWait | DrainClose bool | Returned "goerr option"

datatype shutdown_pc = AwaitContext | Marked | ListenerClosed

record serve_state =
  sv_now :: int
  sv_grace :: int
  sv_listening :: bool
  sv_closing :: bool
  sv_shutdown :: shutdown_pc
  sv_pc :: serve_pc
  sv_due :: int
  sv_conns :: "server_conn list"
  sv_tracked :: "nat list"
  sv_sessions :: "server_session list"


definition track :: "nat \<Rightarrow> bool \<Rightarrow> serve_state \<Rightarrow> serve_state" where
  "track i add s =
    s\<lparr>sv_tracked := (if add then List.insert i (sv_tracked s) else removeAll i (sv_tracked s))\<rparr>"

definition set_conn :: "nat \<Rightarrow> (server_conn \<Rightarrow> server_conn) \<Rightarrow> serve_state \<Rightarrow> serve_state" where
  "set_conn i g s = s\<lparr>sv_conns := (sv_conns s)[i := g (sv_conns s ! i)]\<rparr>"

text \<open>
  \<open>Accept\<close> and \<open>track\<close> run one after the other in the goroutine of \<open>Serve\<close>, which is also the one that drains; nobody else
  looks at the set of connections, so they are one step.
\<close>

definition sv_accept :: "serve_state \<Rightarrow> serve_state" where
  "sv_accept s =
    track (length (sv_conns s)) True (s\<lparr>sv_conns := sv_conns s @ [\<lparr>sc_pc = Handshaking, sc_open = True\<rparr>]\<rparr>)"

text \<open>An error of \<open>Accept\<close>; timeouts are retried and leave the state as it is.\<close>

definition accept_failed :: "goerr \<Rightarrow> serve_state \<Rightarrow> serve_state" where
  "accept_failed e s =
    (if sv_closing s then s\<lparr>sv_pc := DrainWait, sv_due := sv_now s + sv_grace s\<rparr>
     else s\<lparr>sv_pc := Returned (Some (Wrapf ''accept: '' e []))\<rparr>)"

text \<open>\<open>shutdown\<close> up to the unlock; it has an effect once.\<close>

definition sv_mark :: "serve_state \<Rightarrow> serve_state" where
  "sv_mark s = (if sv_closing s then s\<lparr>sv_shutdown := ListenerClosed\<rparr> else s\<lparr>sv_closing := True, sv_shutdown := Marked\<rparr>)"

definition sv_close_listener :: "serve_state \<Rightarrow> serve_state" where
  "sv_close_listener s = s\<lparr>sv_listening := False, sv_shutdown := ListenerClosed\<rparr>"

text \<open>\<open>handleConn\<close>: the deferred calls close the connection before it is forgotten.\<close>

definition conn_login :: "nat \<Rightarrow> serve_state \<Rightarrow> serve_state" where
  "conn_login i = set_conn i (\<lambda>c. c\<lparr>sc_pc := LoggedIn\<rparr>)"

definition conn_close :: "nat \<Rightarrow> serve_state \<Rightarrow> serve_state" where
  "conn_close i = set_conn i (\<lambda>c. c\<lparr>sc_pc := Closed, sc_open := False\<rparr>)"

definition conn_forget :: "nat \<Rightarrow> serve_state \<Rightarrow> serve_state" where
  "conn_forget i s = track i False (set_conn i (\<lambda>c. c\<lparr>sc_pc := Gone\<rparr>) s)"

definition drained :: "serve_pc \<Rightarrow> bool" where
  "drained pc = (case pc of DrainClose _ \<Rightarrow> True | Returned _ \<Rightarrow> True | _ \<Rightarrow> False)"

text \<open>A channel: only sessions are taken, and counted before their goroutine starts.\<close>

definition open_channel :: "nat \<Rightarrow> string \<Rightarrow> serve_state \<Rightarrow> serve_state" where
  "open_channel i type s =
    (if type \<noteq> ''session'' then s
     else s\<lparr>sv_sessions := sv_sessions s @
       [\<lparr>se_conn = i, se_live = True, se_late = drained (sv_pc s), se_cut = False\<rparr>]\<rparr>)"

definition session_end :: "nat \<Rightarrow> serve_state \<Rightarrow> serve_state" where
  "session_end k s = s\<lparr>sv_sessions := (sv_sessions s)[k := (sv_sessions s ! k)\<lparr>se_live := False\<rparr>]\<rparr>"

text \<open>The end of \<open>drain\<close>: every connection that is still tracked is closed.\<close>

definition force_close :: "serve_state \<Rightarrow> serve_state" where
  "force_close s =
    s\<lparr>sv_pc := Returned None,
      sv_conns := map (\<lambda>(i, c). if i \<in> set (sv_tracked s) then c\<lparr>sc_open := False\<rparr> else c)
        (enumerate 0 (sv_conns s)),
      sv_sessions := map (\<lambda>x. if se_live x \<and> se_conn x \<in> set (sv_tracked s) then x\<lparr>se_cut := True\<rparr> else x)
        (sv_sessions s)\<rparr>"

inductive sv_step :: "serve_state \<Rightarrow> serve_state \<Rightarrow> bool" where
  tick: "0 \<le> d \<Longrightarrow> sv_step s (s\<lparr>sv_now := sv_now s + d\<rparr>)"
| accept: "sv_pc s = Serving \<Longrightarrow> sv_listening s \<Longrightarrow> sv_step s (sv_accept s)"
| accept_error: "sv_pc s = Serving \<Longrightarrow> sv_step s (accept_failed e s)"
| mark: "sv_shutdown s = AwaitContext \<Longrightarrow> sv_step s (sv_mark s)"
| close_listener: "sv_shutdown s = Marked \<Longrightarrow> sv_step s (sv_close_listener s)"
| login: "i < length (sv_conns s) \<Longrightarrow> sc_pc (sv_conns s ! i) = Handshaking \<Longrightarrow> sv_step s (conn_login i s)"
| hang_up: "i < length (sv_conns s) \<Longrightarrow> sc_pc (sv_conns s ! i) \<in> {Handshaking, LoggedIn} \<Longrightarrow> sv_step s (conn_close i s)"
| forget: "i < length (sv_conns s) \<Longrightarrow> sc_pc (sv_conns s ! i) = Closed \<Longrightarrow> sv_step s (conn_forget i s)"
| channel: "i < length (sv_conns s) \<Longrightarrow> sc_pc (sv_conns s ! i) = LoggedIn \<Longrightarrow> sv_step s (open_channel i type s)"
| session_done: "k < length (sv_sessions s) \<Longrightarrow> se_live (sv_sessions s ! k) \<Longrightarrow> sv_step s (session_end k s)"
| idle: "sv_pc s = DrainWait \<Longrightarrow> \<not> list_ex se_live (sv_sessions s) \<Longrightarrow> sv_step s (s\<lparr>sv_pc := DrainClose False\<rparr>)"
| grace: "sv_pc s = DrainWait \<Longrightarrow> sv_due s \<le> sv_now s \<Longrightarrow> sv_step s (s\<lparr>sv_pc := DrainClose True\<rparr>)"
| finish: "sv_pc s = DrainClose b \<Longrightarrow> sv_step s (force_close s)"

inductive_cases sv_stepE: "sv_step s t"

section \<open>Invariant\<close>


















end
