(* ===== verification/CliSshConfig.thy ===== *)
theory CliSshConfig
  imports SshAuth
begin

text \<open>
  The block that the gateway keeps in \<open>~/.ssh/config\<close> (\<open>cli/sshconfig.go\<close>): its text, finding,
  replacing and removing it, and the host and port it names (\<open>hostForConfig\<close> in
  \<open>cli/serve.go\<close>, \<open>listenPort\<close> in \<open>cli/cli.go\<close>).
\<close>

section \<open>The block\<close>

definition sshConfigBegin :: string where
  "sshConfigBegin = ''# >>> ssh-gateway >>>''"

definition sshConfigEnd :: string where
  "sshConfigEnd = ''# <<< ssh-gateway <<<''"

definition DefaultSSHHost :: string where
  "DefaultSSHHost = ''codespace''"

definition block_comment :: string where
  "block_comment = ''# '' @ utf8 [0x7531] @ '' gateway ssh-config '' @ utf8 [0x5199, 0x5165, 0xFF0C, 0x53EF, 0x4EE5, 0x7528] @
     '' `gateway ssh-config -remove` '' @ utf8 [0x5220, 0x9664, 0x3002]"

definition key_comment :: string where
  "key_comment = ''    # '' @ utf8 [0x7F51, 0x5173, 0x7684] @ '' host key '' @
     utf8 [0x662F, 0x56FA, 0x5B9A, 0x7684, 0xFF1A, 0x9996, 0x6B21, 0x8FDE, 0x63A5, 0x81EA, 0x52A8, 0x4FE1, 0x4EFB, 0xFF0C,
       0x4E4B, 0x540E, 0x53D8, 0x4E86, 0x4F1A, 0x62A5, 0x8B66, 0x3002]"

definition block_body :: "string \<Rightarrow> string \<Rightarrow> string \<Rightarrow> string" where
  "block_body host hostname port =
    Join [block_comment, ''Host '' @ host, ''    HostName '' @ hostname, ''    Port '' @ port, ''    User root'',
      key_comment, ''    StrictHostKeyChecking accept-new''] [newline]"

definition sshConfigBlock :: "string \<Rightarrow> string \<Rightarrow> string \<Rightarrow> string" where
  "sshConfigBlock host hostname port =
    sshConfigBegin @ [newline] @ block_body host hostname port @ [newline] @ sshConfigEnd @ [newline]"

text \<open>The host and the port clients of this machine should use.\<close>

definition listenPort :: "string \<Rightarrow> string" where
  "listenPort listen =
    (case SplitHostPort listen of Some (_, port) \<Rightarrow> if port \<noteq> [] then port else ''2222'' | None \<Rightarrow> ''2222'')"

definition hostForConfig :: "(goerr + string) \<Rightarrow> string \<Rightarrow> string" where
  "hostForConfig hostname listen =
    (case Cut listen '':'' of
       (host, _, found) \<Rightarrow>
         if host = ''127.0.0.1'' \<or> host = ''localhost'' \<or> host = ''[::1]'' then ''127.0.0.1''
         else if \<not> found \<or> host = [] \<or> host = ''0.0.0.0'' \<or> host = ''[::]'' then
           (case hostname of Inr h \<Rightarrow> if h \<noteq> [] then h else ''localhost'' | Inl _ \<Rightarrow> ''localhost'')
         else host)"

section \<open>The file\<close>

text \<open>
  The file with the faults that can strike while it is written: the directory cannot be made,
  or the write stops after some bytes (\<open>os.WriteFile\<close> truncates first).
\<close>

record user_file =
  uf_content :: file_read
  uf_mkdir :: "goerr option"
  uf_write :: "(nat \<times> goerr) option"

definition writeSSHConfig :: "string \<Rightarrow> user_file \<Rightarrow> goerr option \<times> user_file" where
  "writeSSHConfig content f =
    (case uf_mkdir f of
       Some e \<Rightarrow> (Some e, f)
     | None \<Rightarrow>
        (let data = (if TrimSpace content = [] then [] else content)
         in (case uf_write f of
               Some (n, e) \<Rightarrow> (Some e, f\<lparr>uf_content := FileContent (take n data)\<rparr>)
             | None \<Rightarrow> (None, f\<lparr>uf_content := FileContent data\<rparr>))))"

definition host_line :: "string \<Rightarrow> string \<Rightarrow> bool" where
  "host_line host line =
    (let fields = Fields line
     in 2 \<le> length fields \<and> EqualFold (hd fields) ''Host'' \<and> host \<in> set (tl fields))"

definition hasHostEntry :: "string \<Rightarrow> string \<Rightarrow> bool" where
  "hasHostEntry content host = list_ex (host_line host) (split_on newline content)"

definition said_same :: string where "said_same = utf8 [0x65E0, 0x9700, 0x6539, 0x52A8]"
definition said_updated :: string where "said_updated = utf8 [0x5DF2, 0x66F4, 0x65B0]"
definition said_removed :: string where "said_removed = utf8 [0x5DF2, 0x5220, 0x9664]"
definition said_written :: string where "said_written = utf8 [0x5DF2, 0x5199, 0x5165]"
definition said_none :: string where
  "said_none = utf8 [0x6CA1, 0x6709, 0x627E, 0x5230] @ '' gateway '' @ utf8 [0x5199, 0x5165, 0x7684, 0x6BB5, 0x843D]"

definition foreign_host :: "string \<Rightarrow> string \<Rightarrow> goerr" where
  "foreign_host path host = Errorf (path @ '' '' @
     utf8 [0x91CC, 0x5DF2, 0x7ECF, 0x6709, 0x4E00, 0x4E2A, 0x4E0D, 0x662F] @ '' gateway '' @ utf8 [0x5199, 0x7684] @
     '' `Host '' @ host @ ''`'' @ utf8 [0xFF0C, 0x8BF7, 0x624B, 0x52A8, 0x68C0, 0x67E5, 0xFF08, 0x6216, 0x7528] @
     '' -host '' @ utf8 [0x6362, 0x4E2A, 0x522B, 0x540D, 0xFF09])"

text \<open>
  The managed block, if there is one: where it begins and where the text after it begins.
\<close>

definition managed :: "string \<Rightarrow> (nat \<times> nat) option" where
  "managed content =
    (case (str_index content sshConfigBegin, str_index content sshConfigEnd) of
       (Some b, Some e) \<Rightarrow>
         if b < e then
           (let tail = e + length sshConfigEnd
            in Some (b, if tail < length content \<and> content ! tail = newline then tail + 1 else tail))
         else None
     | _ \<Rightarrow> None)"

text \<open>The text before a new block: an empty line separates it from what was there.\<close>

definition separated :: "string \<Rightarrow> string" where
  "separated content =
    (let c = (if content \<noteq> [] \<and> \<not> HasSuffix content [newline] then content @ [newline] else content)
     in if c \<noteq> [] then c @ [newline] else c)"

definition after_write :: "string \<Rightarrow> goerr option \<times> user_file \<Rightarrow> (goerr + string) \<times> user_file" where
  "after_write action r = (case r of (Some e, f) \<Rightarrow> (Inl e, f) | (None, f) \<Rightarrow> (Inr action, f))"

definition patchSSHConfig :: "string \<Rightarrow> string \<Rightarrow> string \<Rightarrow> user_file \<Rightarrow> (goerr + string) \<times> user_file" where
  "patchSSHConfig path block host f =
    (case uf_content f of
       FileError e \<Rightarrow> (Inl e, f)
     | r \<Rightarrow>
        (let content = (case r of FileContent raw \<Rightarrow> raw | _ \<Rightarrow> [])
         in (case managed content of
               Some (b, t) \<Rightarrow>
                 (let updated = take b content @ block @ drop t content
                  in if updated = content then after_write said_same (writeSSHConfig updated f)
                     else after_write (if block = [] then said_removed else said_updated) (writeSSHConfig updated f))
             | None \<Rightarrow>
                 if block = [] then (Inr said_none, f)
                 else if hasHostEntry content host then (Inl (foreign_host path host), f)
                 else after_write said_written (writeSSHConfig (separated content @ block) f))))"

section \<open>Searching in lines\<close>

lemma Contains_char: "x \<in> set sub \<Longrightarrow> x \<notin> set s \<Longrightarrow> \<not> Contains s sub"
  by (auto simp: Contains_iff)

lemma Contains_prefix: "Contains a sub \<Longrightarrow> Contains (a @ b) sub"
  by (auto simp: Contains_iff) (metis append.assoc)

lemma Contains_suffix: "Contains b sub \<Longrightarrow> Contains (a @ b) sub"
  by (auto simp: Contains_iff) (metis append.assoc)

text \<open>A text without line breaks occurs within a line.\<close>

lemma Contains_line:
  assumes "x \<notin> set sub" and "sub \<noteq> []"
  shows "Contains (u @ x # v) sub \<longleftrightarrow> Contains u sub \<or> Contains v sub"
proof
  assume "Contains (u @ x # v) sub"
  then obtain a b where eq: "u @ x # v = a @ sub @ b" by (auto simp: Contains_iff)
  show "Contains u sub \<or> Contains v sub"
  proof (cases "length u < length a")
    case True
    obtain us where "u @ us = a \<and> x # v = us @ sub @ b" using eq True by (auto simp: append_eq_append_conv2)
    with True obtain a' where "v = a' @ sub @ b" by (cases us) auto
    then show ?thesis by (auto simp: Contains_iff)
  next
    case False
    have "length a + length sub \<le> length u"
    proof (rule ccontr)
      assume "\<not> length a + length sub \<le> length u"
      with False have "(a @ sub @ b) ! length u \<in> set sub" by (auto simp: nth_append)
      moreover have "(a @ sub @ b) ! length u = x" unfolding eq [symmetric] by simp
      ultimately show False using assms by simp
    qed
    moreover have "(a @ sub) @ b = u @ x # v" using eq by simp
    ultimately obtain us where "u = (a @ sub) @ us" by (auto simp: append_eq_append_conv2)
    then show ?thesis by (auto simp: Contains_iff)
  qed
next
  assume "Contains u sub \<or> Contains v sub"
  then show "Contains (u @ x # v) sub"
    using Contains_prefix [of u sub "x # v"] Contains_suffix [of v sub "u @ [x]"] by auto
qed

text \<open>
  The first occurrence of a text whose first character does not occur in the rest of it.
\<close>

lemma str_index_first:
  assumes "\<not> Contains a (x # m)" and "x \<notin> set m"
  shows "str_index (a @ (x # m) @ r) (x # m) = Some (length a)"
proof (rule str_index_append)
  fix k assume k: "k < length a"
  show "\<not> HasPrefix (drop k (a @ (x # m) @ r)) (x # m)"
  proof
    assume "HasPrefix (drop k (a @ (x # m) @ r)) (x # m)"
    then obtain s where "drop k (a @ (x # m) @ r) = (x # m) @ s" by (auto simp: HasPrefix_iff)
    with k have eq: "drop k a @ (x # m) @ r = (x # m) @ s" by simp
    show False
    proof (cases "length m < length (drop k a)")
      case True
      then have "drop k a = (x # m) @ drop (Suc (length m)) (drop k a)"
        using eq by (metis append_eq_append_conv_if append_eq_conv_conj length_Cons Suc_leI append_take_drop_id)
      then have "Contains (drop k a) (x # m)" unfolding Contains_iff by (metis append_Nil)
      with assms(1) show False by (metis Contains_drop)
    next
      case False
      with k have "((x # m) @ s) ! (length a - k) \<in> set m"
        by (auto simp: nth_append nth_Cons' )
      moreover have "((x # m) @ s) ! (length a - k) = x"
        unfolding eq [symmetric] using k by (simp add: nth_append)
      ultimately show False using assms(2) by simp
    qed
  qed
qed simp

lemma utf8_high:
  assumes "x \<in> set (utf8 cps)" and "\<forall>n \<in> set cps. 0x80 \<le> n \<and> n < 0x110000"
  shows "0x80 \<le> (of_char x :: nat)"
proof -
  obtain n where n: "n \<in> set cps" "x \<in> set (utf8_rune n)" using assms(1) by (auto simp: utf8_def)
  with assms(2) have b: "0x80 \<le> n" "n < 0x110000" by auto
  have m: "128 \<le> (128 + k mod 64) mod (256::nat)" for k by (simp add: mod_less)
  show ?thesis using n(2) b
    by (auto simp: utf8_rune_def m split: if_splits)
qed

section \<open>The block in a file\<close>

lemma trim_front_keeps: "x \<in> set s \<Longrightarrow> \<forall>p \<in> set pats. x \<notin> set p \<Longrightarrow> x \<in> set (trim_front pats s)"
proof (induction pats s rule: trim_front.induct)
  case (1 pats s)
  show ?case
  proof (cases "leading pats s")
    case None
    with 1 show ?thesis by (subst trim_front.simps) simp
  next
    case (Some p)
    then have "HasPrefix s p" "p \<in> set pats" by (auto simp: leading_def find_Some_iff)
    then obtain r where "s = p @ r" "x \<notin> set p" using 1(3) by (auto simp: HasPrefix_iff)
    with 1 Some show ?thesis by (subst trim_front.simps) auto
  qed
qed

lemma TrimSpace_visible:
  assumes "plain x" and "x \<in> set s"
  shows "TrimSpace s \<noteq> []"
proof -
  have n: "\<forall>p \<in> set space_runes. x \<notin> set p" using assms(1) by (auto simp: space_runes_def plain_def)
  have "x \<in> set (TrimLeft s)" unfolding TrimLeft_def using assms(2) n by (rule trim_front_keeps)
  then have "x \<in> set (trim_front (map rev space_runes) (rev (TrimLeft s)))" by (intro trim_front_keeps) (use n in auto)
  then show ?thesis by (auto simp: TrimSpace_def TrimRight_def)
qed

lemma markers:
  "sshConfigBegin = CHR ''#'' # '' >>> ssh-gateway >>>''" "sshConfigEnd = CHR ''#'' # '' <<< ssh-gateway <<<''"
  "newline \<notin> set sshConfigBegin" "newline \<notin> set sshConfigEnd" "sshConfigBegin \<noteq> []" "sshConfigEnd \<noteq> []"
  "CHR ''<'' \<in> set sshConfigEnd" "CHR ''<'' \<notin> set sshConfigBegin"
  by (simp_all add: sshConfigBegin_def sshConfigEnd_def)

lemma comments_plain: "CHR ''<'' \<notin> set block_comment" "CHR ''<'' \<notin> set key_comment"
proof -
  have "CHR ''<'' \<notin> set (utf8 cps)" if "\<forall>n \<in> set cps. 0x80 \<le> n \<and> n < 0x110000" for cps
    using utf8_high [OF _ that] by force
  then show "CHR ''<'' \<notin> set block_comment" "CHR ''<'' \<notin> set key_comment"
    by (simp_all add: block_comment_def key_comment_def)
qed

definition word_ok :: "string \<Rightarrow> bool" where
  "word_ok s \<longleftrightarrow> newline \<notin> set s \<and> CHR ''<'' \<notin> set s"

lemma body_plain:
  assumes "word_ok host" "word_ok hostname" "word_ok port"
  shows "CHR ''<'' \<notin> set (block_body host hostname port)"
  using assms comments_plain by (simp add: block_body_def word_ok_def)

lemma no_marker_newlines:
  "newline \<notin> set sub \<Longrightarrow> sub \<noteq> [] \<Longrightarrow> Contains (c @ replicate k newline) sub \<longleftrightarrow> Contains c sub"
proof (induction k)
  case (Suc k)
  have "Contains (c @ replicate (Suc k) newline) sub \<longleftrightarrow> Contains ((c @ replicate k newline) @ newline # []) sub"
    by (simp add: replicate_append_same [symmetric] del: replicate_append_same)
  also have "\<dots> \<longleftrightarrow> Contains (c @ replicate k newline) sub"
    unfolding Contains_line [OF Suc.prems] using Suc.prems(2) by simp
  finally show ?case using Suc by simp
qed simp

lemma managed_none: "\<not> Contains c sshConfigBegin \<Longrightarrow> managed c = None"
  by (simp add: managed_def Contains_def)

lemma managed_block:
  assumes "\<not> Contains u sshConfigBegin" and "\<not> Contains u sshConfigEnd"
    and "word_ok host" "word_ok hostname" "word_ok port"
  shows "managed ((u @ [newline]) @ sshConfigBlock host hostname port) =
    Some (length (u @ [newline]), length ((u @ [newline]) @ sshConfigBlock host hostname port))"
proof -
  let ?pre = "u @ [newline]" and ?b = "block_body host hostname port"
  define c where c: "c = ?pre @ sshConfigBlock host hostname port"
  let ?a = "?pre @ sshConfigBegin @ [newline] @ ?b @ [newline]"
  have "\<not> Contains ?pre sshConfigBegin"
    using assms(1) Contains_line [OF markers(3,5), of u "[]"] markers(5) by simp
  then have 1: "str_index c sshConfigBegin = Some (length ?pre)"
    using str_index_first [of ?pre "CHR ''#''" "'' >>> ssh-gateway >>>''"]
    by (simp add: c sshConfigBlock_def markers(1) [symmetric])
  have "\<not> Contains (sshConfigBegin @ [newline] @ ?b @ [newline]) sshConfigEnd"
    using body_plain [OF assms(3-5)] markers(7,8) by (intro Contains_char [of "CHR ''<''"]) auto
  then have "\<not> Contains ?a sshConfigEnd"
    using assms(2) Contains_line [OF markers(4,6), of u] by simp
  then have 2: "str_index c sshConfigEnd = Some (length ?a)"
    using str_index_first [of ?a "CHR ''#''" "'' <<< ssh-gateway <<<''" "[newline]"]
    by (simp add: c sshConfigBlock_def markers(2) [symmetric])
  have "c = (?a @ sshConfigEnd) @ [newline]" by (simp add: c sshConfigBlock_def)
  then have l: "length c = length ?a + length sshConfigEnd + 1" and n: "c ! (length ?a + length sshConfigEnd) = newline"
    by (simp, metis length_append nth_append_length)
  have lt: "length ?pre < length ?a" by simp
  have "managed c = Some (length ?pre, length c)"
    unfolding managed_def 1 2 prod.case option.case Let_def n using lt l by simp
  then show ?thesis by (simp only: c)
qed

section \<open>Runs of the command\<close>

text \<open>Writing the block for an alias, or removing it.\<close>

datatype ssh_op = WriteBlock string string string | RemoveBlock string

fun op_block :: "ssh_op \<Rightarrow> string" where
  "op_block (WriteBlock host hostname port) = sshConfigBlock host hostname port"
| "op_block (RemoveBlock host) = []"

fun op_host :: "ssh_op \<Rightarrow> string" where
  "op_host (WriteBlock host hostname port) = host"
| "op_host (RemoveBlock host) = host"

fun op_fits :: "string \<Rightarrow> ssh_op \<Rightarrow> bool" where
  "op_fits c (WriteBlock host hostname port) \<longleftrightarrow>
     word_ok host \<and> word_ok hostname \<and> word_ok port \<and> \<not> hasHostEntry c host"
| "op_fits c (RemoveBlock host) \<longleftrightarrow> True"

fun ssh_run :: "string \<Rightarrow> ssh_op list \<Rightarrow> user_file \<Rightarrow> (goerr + string) list \<times> user_file" where
  "ssh_run path [] f = ([], f)"
| "ssh_run path (op # ops) f =
    (let (r, f1) = patchSSHConfig path (op_block op) (op_host op) f; (rs, f2) = ssh_run path ops f1 in (r # rs, f2))"

definition writable :: "user_file \<Rightarrow> bool" where
  "writable f \<longleftrightarrow> uf_mkdir f = None \<and> uf_write f = None"

lemma host_lines_newlines: "hasHostEntry (c @ replicate k newline) host \<longleftrightarrow> hasHostEntry c host"
proof (induction c)
  case Nil
  have "split_on newline (replicate k newline) = replicate (Suc k) []" by (induction k) auto
  moreover have "\<not> host_line host []" by (simp add: host_line_def Fields_def fields_from.simps)
  ultimately show ?case by (simp add: hasHostEntry_def list_ex_iff)
next
  case (Cons x c)
  have e: "\<not> host_line host []" by (simp add: host_line_def Fields_def fields_from.simps)
  have "\<exists>y ys zs. split_on newline c = y # ys \<and> split_on newline (c @ replicate k newline) = y # zs \<and>
      list_ex (host_line host) zs = list_ex (host_line host) ys"
  proof (induction c)
    case Nil
    have "split_on newline (replicate k newline) = replicate (Suc k) []" by (induction k) auto
    then show ?case using e by (simp add: list_ex_iff)
  next
    case (Cons x c)
    then obtain y ys zs where "split_on newline c = y # ys" "split_on newline (c @ replicate k newline) = y # zs"
      "list_ex (host_line host) zs = list_ex (host_line host) ys" by blast
    then show ?case by (cases "x = newline") auto
  qed
  then show ?case by (auto simp: hasHostEntry_def)
qed

lemma separated_newlines:
  assumes "c \<noteq> []"
  shows "\<exists>j. separated (c @ replicate k newline) = (c @ replicate j newline) @ [newline]"
proof -
  have ne: "c @ replicate k newline \<noteq> []" using assms by simp
  show ?thesis
  proof (cases "HasSuffix (c @ replicate k newline) [newline]")
    case True
    with ne have "separated (c @ replicate k newline) = (c @ replicate k newline) @ [newline]"
      by (simp add: separated_def)
    then show ?thesis by blast
  next
    case False
    with ne have "separated (c @ replicate k newline) = (c @ replicate (Suc k) newline) @ [newline]"
      by (simp add: separated_def replicate_append_same)
    then show ?thesis by blast
  qed
qed

text \<open>
  The operator's own text: without the markers, with something visible in it. After any run
  the file is that text, line breaks, and the block written last.
\<close>

definition own_text :: "string \<Rightarrow> bool" where
  "own_text c \<longleftrightarrow> \<not> Contains c sshConfigBegin \<and> \<not> Contains c sshConfigEnd \<and> (\<exists>x \<in> set c. plain x)"

definition ssh_form :: "string \<Rightarrow> string \<Rightarrow> user_file \<Rightarrow> bool" where
  "ssh_form c blk f \<longleftrightarrow>
    (\<exists>k. uf_content f = FileContent ((c @ replicate k newline) @ blk) \<and>
       (blk = [] \<or> (\<exists>j host hostname port. k = Suc j \<and> blk = sshConfigBlock host hostname port \<and>
          word_ok host \<and> word_ok hostname \<and> word_ok port)))"

lemma write_visible:
  assumes "writable f" and "own_text c"
  shows "writeSSHConfig (c @ r) f = (None, f\<lparr>uf_content := FileContent (c @ r)\<rparr>)"
proof -
  obtain x where "plain x" "x \<in> set (c @ r)" using assms(2) by (auto simp: own_text_def)
  then have "TrimSpace (c @ r) \<noteq> []" by (rule TrimSpace_visible)
  with assms(1) show ?thesis by (simp add: writeSSHConfig_def writable_def)
qed

lemma block_nonempty [simp]: "sshConfigBlock host hostname port \<noteq> []"
  by (simp add: sshConfigBlock_def)

lemma fits_form:
  assumes "op_fits c op"
  shows "op_block op = [] \<or> (\<exists>host hostname port. op_block op = sshConfigBlock host hostname port \<and>
    word_ok host \<and> word_ok hostname \<and> word_ok port \<and> \<not> hasHostEntry c (op_host op))"
  using assms by (cases op) auto

lemma patch_without_block:
  assumes c: "own_text c" and f: "writable f" "uf_content f = FileContent (c @ replicate k newline)"
    and op: "op_fits c op"
  shows "\<exists>r f1. patchSSHConfig path (op_block op) (op_host op) f = (Inr r, f1) \<and> ssh_form c (op_block op) f1 \<and> writable f1"
proof -
  have m: "managed (c @ replicate k newline) = None"
    using c by (intro managed_none) (simp add: own_text_def no_marker_newlines markers)
  show ?thesis
  proof (cases "op_block op = []")
    case True
    then show ?thesis using f m by (auto simp: patchSSHConfig_def ssh_form_def)
  next
    case False
    with fits_form [OF op] have b: "\<exists>host hostname port. op_block op = sshConfigBlock host hostname port \<and>
        word_ok host \<and> word_ok hostname \<and> word_ok port" and h: "\<not> hasHostEntry c (op_host op)" by auto
    have "c \<noteq> []" using c by (auto simp: own_text_def)
    then obtain j where j: "separated (c @ replicate k newline) = (c @ replicate j newline) @ [newline]"
      using separated_newlines by blast
    then have s: "separated (c @ replicate k newline) = c @ replicate (Suc j) newline"
      by (simp add: replicate_append_same)
    let ?f1 = "f\<lparr>uf_content := FileContent (c @ replicate (Suc j) newline @ op_block op)\<rparr>"
    have "patchSSHConfig path (op_block op) (op_host op) f = (Inr said_written, ?f1)"
      using f m False h write_visible [OF f(1) c]
      by (simp add: patchSSHConfig_def host_lines_newlines s after_write_def del: replicate_Suc)
    moreover have "ssh_form c (op_block op) ?f1" unfolding ssh_form_def
      by (rule exI [of _ "Suc j"]) (use b in \<open>auto simp del: replicate_Suc\<close>)
    ultimately show ?thesis using f(1) by (auto simp: writable_def)
  qed
qed

lemma patch_with_block:
  assumes c: "own_text c" and f: "writable f" "uf_content f = FileContent ((c @ replicate (Suc j) newline) @ blk)"
    and b: "blk = sshConfigBlock host hostname port" "word_ok host" "word_ok hostname" "word_ok port"
    and op: "op_fits c op"
  shows "\<exists>r f1. patchSSHConfig path (op_block op) (op_host op) f = (Inr r, f1) \<and> ssh_form c (op_block op) f1 \<and>
    writable f1 \<and> (op_block op = blk \<longrightarrow> r = said_same \<and> uf_content f1 = uf_content f)"
proof -
  let ?u = "c @ replicate j newline"
  let ?pre = "c @ replicate (Suc j) newline"
  have pre: "?pre = ?u @ [newline]" by (simp add: replicate_append_same)
  have "\<not> Contains ?u sshConfigBegin" "\<not> Contains ?u sshConfigEnd"
    using c by (simp_all add: own_text_def no_marker_newlines markers)
  then have m: "managed (?pre @ blk) = Some (length ?pre, length (?pre @ blk))"
    unfolding pre b(1) using b(2-4) by (rule managed_block)
  let ?f1 = "f\<lparr>uf_content := FileContent (?pre @ op_block op)\<rparr>"
  have w: "writeSSHConfig (?pre @ op_block op) f = (None, ?f1)"
    using write_visible [OF f(1) c, of "replicate (Suc j) newline @ op_block op"] by simp
  have p: "patchSSHConfig path (op_block op) (op_host op) f =
      (Inr (if op_block op = blk then said_same else if op_block op = [] then said_removed else said_updated), ?f1)"
    unfolding patchSSHConfig_def f(2) file_read.case Let_def m option.case prod.case
    using w by (cases "op_block op = blk") (simp_all add: after_write_def)
  have "ssh_form c (op_block op) ?f1" unfolding ssh_form_def
    by (rule exI [of _ "Suc j"]) (use fits_form [OF op] in \<open>auto simp del: replicate_Suc\<close>)
  with p f show ?thesis by (auto simp: writable_def)
qed

lemma patch_step:
  assumes "own_text c" and "writable f" and "ssh_form c blk f" and "op_fits c op"
  shows "\<exists>r f1. patchSSHConfig path (op_block op) (op_host op) f = (Inr r, f1) \<and> ssh_form c (op_block op) f1 \<and>
    writable f1 \<and> (blk \<noteq> [] \<longrightarrow> op_block op = blk \<longrightarrow> r = said_same \<and> uf_content f1 = uf_content f)"
proof -
  obtain k where k: "uf_content f = FileContent ((c @ replicate k newline) @ blk)"
    "blk = [] \<or> (\<exists>j host hostname port. k = Suc j \<and> blk = sshConfigBlock host hostname port \<and>
       word_ok host \<and> word_ok hostname \<and> word_ok port)"
    using assms(3) unfolding ssh_form_def by blast
  show ?thesis
  proof (cases "blk = []")
    case True
    with k(1) have "uf_content f = FileContent (c @ replicate k newline)" by simp
    from patch_without_block [OF assms(1,2) this assms(4), of path] True show ?thesis by blast
  next
    case False
    with k obtain j host hostname port where b: "uf_content f = FileContent ((c @ replicate (Suc j) newline) @ blk)"
      "blk = sshConfigBlock host hostname port" "word_ok host" "word_ok hostname" "word_ok port" by blast
    from patch_with_block [OF assms(1,2) b assms(4), of path] show ?thesis by blast
  qed
qed

lemma ssh_run_form:
  assumes "own_text c"
  shows "writable f \<Longrightarrow> ssh_form c blk f \<Longrightarrow> \<forall>op \<in> set ops. op_fits c op \<Longrightarrow> ssh_run path ops f = (rs, f') \<Longrightarrow>
    list_all is_ok rs \<and> ssh_form c (if ops = [] then blk else op_block (last ops)) f' \<and> writable f'"
proof (induction ops arbitrary: f blk rs f')
  case (Cons op ops)
  obtain r f1 where p: "patchSSHConfig path (op_block op) (op_host op) f = (Inr r, f1)" "ssh_form c (op_block op) f1"
    "writable f1"
    using patch_step [OF assms Cons.prems(1,2)] Cons.prems(3) by fastforce
  obtain rs1 f2 where r: "ssh_run path ops f1 = (rs1, f2)" by fastforce
  with p Cons.prems(4) have e: "rs = Inr r # rs1" "f' = f2" by auto
  have "list_all is_ok rs1 \<and> ssh_form c (if ops = [] then op_block op else op_block (last ops)) f2 \<and> writable f2"
    using Cons.IH [OF p(3,2) _ r] Cons.prems(3) by simp
  with e show ?case by (cases ops) auto
qed simp

text \<open>
  C28: The gateway manages its block and nothing else in \<open>~/.ssh/config\<close>. Starting from any file
  the operator wrote, without the markers and without an entry for the aliases used, any
  sequence of writing the block (for any alias, address and port) and removing it succeeds and
  leaves the operator's text as it was, followed by line breaks and the block written last, if
  it was not removed; writing the same block again changes nothing and says so.
\<close>

theorem ssh_config_managed:
  assumes "own_text c" and "writable f" and "uf_content f = FileContent c"
    and "\<forall>op \<in> set (ops @ [op]). op_fits c op" and "ssh_run path (ops @ [op]) f = (rs, f')"
  shows "list_all is_ok rs \<and>
    (\<exists>k. uf_content f' = FileContent (c @ replicate k newline @ op_block op)) \<and>
    (op_block op \<noteq> [] \<longrightarrow> (\<exists>f2. patchSSHConfig path (op_block op) (op_host op) f' = (Inr said_same, f2) \<and>
       uf_content f2 = uf_content f'))"
proof -
  have "ssh_form c [] f" unfolding ssh_form_def by (rule exI [of _ 0]) (simp add: assms(3))
  from ssh_run_form [OF assms(1,2) this assms(4,5)]
  have r: "list_all is_ok rs" "ssh_form c (op_block op) f'" "writable f'" by auto
  have "op_fits c op" using assms(4) by simp
  from patch_step [OF assms(1) r(3,2) this]
  have "op_block op \<noteq> [] \<longrightarrow> (\<exists>f2. patchSSHConfig path (op_block op) (op_host op) f' = (Inr said_same, f2) \<and>
       uf_content f2 = uf_content f')" by metis
  with r(1,2) show ?thesis unfolding ssh_form_def by auto
qed

lemma fields_end: "fields_from cur [] = (if cur = [] then [] else [rev cur])"
  by (simp add: fields_from.simps)

lemma fields_plain: "plain x \<Longrightarrow> fields_from cur (x # s) = fields_from (x # cur) s"
proof -
  assume x: "plain x"
  have "leading space_runes (x # s) = None"
    using x space_ends by (fastforce simp: leading_None_iff HasPrefix_iff neq_Nil_conv)
  then show ?thesis by (subst fields_from.simps) simp
qed

lemma fields_blank: "fields_from cur (CHR '' '' # s) = (if cur = [] then [] else [rev cur]) @ fields_from [] s"
proof -
  have "leading space_runes (CHR '' '' # s) = Some '' ''" by (simp add: leading_def space_runes_def)
  then show ?thesis by (subst fields_from.simps) simp
qed

text \<open>Two aliases written one after the other, and the second removed.\<close>

lemma ssh_config_managed_witness:
  "\<exists>rs f' k. ssh_run ''c'' [WriteBlock ''a'' ''127.0.0.1'' ''2222'', WriteBlock ''b'' ''127.0.0.1'' ''22'', RemoveBlock ''b'']
      \<lparr>uf_content = FileContent ''Host x'', uf_mkdir = None, uf_write = None\<rparr> = (rs, f') \<and>
    list_all is_ok rs \<and> uf_content f' = FileContent (''Host x'' @ replicate k newline)"
proof -
  let ?f = "\<lparr>uf_content = FileContent ''Host x'', uf_mkdir = None, uf_write = None\<rparr>"
  let ?ops = "[WriteBlock ''a'' ''127.0.0.1'' ''2222'', WriteBlock ''b'' ''127.0.0.1'' ''22'']"
  obtain rs f' where r: "ssh_run ''c'' (?ops @ [RemoveBlock ''b'']) ?f = (rs, f')" by fastforce
  have o: "own_text ''Host x''"
    by (simp add: own_text_def sshConfigBegin_def sshConfigEnd_def Contains_def plain_def)
  have w: "writable ?f" by (simp add: writable_def)
  have "Fields ''Host x'' = [''Host'', ''x'']"
    by (simp add: Fields_def fields_end fields_plain fields_blank plain_def)
  then have h: "hasHostEntry ''Host x'' host \<longleftrightarrow> host = ''x''" for host
    by (simp add: hasHostEntry_def host_line_def EqualFold_def)
  have "op_fits ''Host x'' q" if "q \<in> set (?ops @ [RemoveBlock ''b''])" for q
    using that by (auto simp: h word_ok_def)
  then have fits: "\<forall>q \<in> set (?ops @ [RemoveBlock ''b'']). op_fits ''Host x'' q" by blast
  from ssh_config_managed [OF o w _ fits r] have "list_all is_ok rs" "\<exists>k. uf_content f' = FileContent (''Host x'' @ replicate k newline)"
    by auto
  with r show ?thesis by auto
qed

text \<open>
  \<open>os.WriteFile\<close> truncates before it writes: a write that fails loses what the file held.
\<close>

lemma failed_write_truncates:
  assumes "uf_content f = FileContent c" and "own_text c" and "uf_mkdir f = None" and "uf_write f = Some (0, e)"
    and "op_fits c (WriteBlock host hostname port)"
  shows "patchSSHConfig path (sshConfigBlock host hostname port) host f = (Inl e, f\<lparr>uf_content := FileContent []\<rparr>)"
  using assms
  by (simp add: patchSSHConfig_def managed_none own_text_def after_write_def writeSSHConfig_def)

text \<open>An IPv6 loopback listener is written into the block as the host name of one bracket.\<close>

lemma ipv6_host: "hostForConfig h ''[::1]:2222'' = ''[''"
  by (simp add: hostForConfig_def Cut_def)

end
