(* ===== verification/CliPrompt.thy ===== *)
theory CliPrompt
  imports GoStrings
begin

text \<open>
  The line-based menus of the interactive setup (\<open>cli/prompt.go\<close>) on a terminal whose input is the
  text that is still to be read. The loops that ask again are \<open>forever\<close>; that they return on
  every input is proved.
\<close>

section \<open>The terminal\<close>

record terminal =
  tm_in :: string
  tm_eof :: bool
  tm_out :: string
  tm_err :: string

definition print :: "string \<Rightarrow> terminal \<Rightarrow> terminal" where
  "print s t = t\<lparr>tm_out := tm_out t @ s\<rparr>"

definition print_err :: "string \<Rightarrow> terminal \<Rightarrow> terminal" where
  "print_err s t = t\<lparr>tm_err := tm_err t @ s\<rparr>"

definition println :: "string \<Rightarrow> terminal \<Rightarrow> terminal" where
  "println s = print (s @ [newline])"

text \<open>
  \<open>prompter.line\<close>: up to the next line break, or what is left; when nothing is left the prompter
  remembers that the input has ended.
\<close>

definition prompt_line :: "terminal \<Rightarrow> string \<times> terminal" where
  "prompt_line t =
    (if tm_in t = [] then ([], t\<lparr>tm_eof := True\<rparr>)
     else
       (case str_index (tm_in t) [newline] of
          Some i \<Rightarrow> (TrimSpace (take (i + 1) (tm_in t)), t\<lparr>tm_in := drop (i + 1) (tm_in t)\<rparr>)
        | None \<Rightarrow> (TrimSpace (tm_in t), t\<lparr>tm_in := []\<rparr>)))"

definition ask :: "string \<Rightarrow> string \<Rightarrow> terminal \<Rightarrow> string \<times> terminal" where
  "ask question def t =
    (let t1 = print (if def \<noteq> [] then question @ '' ['' @ def @ '']: '' else question @ '': '') t;
         (answer, t2) = prompt_line t1
     in (if answer = [] then def else answer, t2))"

section \<open>Yes or no\<close>

definition answer_yn :: string where
  "answer_yn = ''  '' @ utf8 [0x8BF7, 0x56DE, 0x7B54] @ '' y '' @ utf8 [0x6216] @ '' n''"

definition confirm_round :: "string \<Rightarrow> bool \<Rightarrow> terminal \<Rightarrow> terminal + bool \<times> terminal" where
  "confirm_round question def t =
    (let (answer, t1) = prompt_line (print (question @ '' ['' @ (if def then ''Y/n'' else ''y/N'') @ '']: '') t);
         a = ToLower answer
     in if a = [] then Inr (def, t1)
        else if a = ''y'' \<or> a = ''yes'' then Inr (True, t1)
        else if a = ''n'' \<or> a = ''no'' then Inr (False, t1)
        else if tm_eof t1 then Inr (def, t1)
        else Inl (println answer_yn t1))"

definition confirm :: "string \<Rightarrow> bool \<Rightarrow> terminal \<Rightarrow> (bool \<times> terminal) option" where
  "confirm question def t = forever (confirm_round question def) t"

section \<open>Menus\<close>

record menu_item =
  mi_Label :: string
  mi_Detail :: string

fun menu_lines :: "nat \<Rightarrow> nat \<Rightarrow> menu_item list \<Rightarrow> string" where
  "menu_lines def i [] = []"
| "menu_lines def i (item # items) =
    '' '' @ (if i = def then ''*'' else '' '') @ '' '' @ show_nat (i + 1) @ '') '' @ mi_Label item @ [newline] @
    (if mi_Detail item \<noteq> [] then ''       '' @ mi_Detail item @ [newline] else []) @ menu_lines def (i + 1) items"

definition choose_text :: "nat \<Rightarrow> string" where
  "choose_text def = utf8 [0x9009, 0x62E9] @ '' ['' @ show_nat (def + 1) @ '']: ''"

definition number_please :: "nat \<Rightarrow> string" where
  "number_please n = ''  '' @ utf8 [0x8BF7, 0x8F93, 0x5165] @ '' 1 '' @ utf8 [0x5230] @ '' '' @ show_nat n @ '' '' @
     utf8 [0x4E4B, 0x95F4, 0x7684, 0x6570, 0x5B57]"

definition menu_round :: "nat \<Rightarrow> nat \<Rightarrow> terminal \<Rightarrow> terminal + nat \<times> terminal" where
  "menu_round n def t =
    (let (answer, t1) = prompt_line (print (choose_text def) t)
     in if answer = [] then Inr (def, t1)
        else
          (case Atoi answer of
             Some k \<Rightarrow>
               if 1 \<le> k \<and> k \<le> int n then Inr (nat (k - 1), t1)
               else if tm_eof t1 then Inr (def, t1) else Inl (println (number_please n) t1)
           | None \<Rightarrow> if tm_eof t1 then Inr (def, t1) else Inl (println (number_please n) t1)))"

definition menu :: "string \<Rightarrow> menu_item list \<Rightarrow> nat \<Rightarrow> terminal \<Rightarrow> (nat \<times> terminal) option" where
  "menu title items def t =
    forever (menu_round (length items) def)
      (print ([newline] @ title @ [newline] @ menu_lines def 0 items) t)"

section \<open>Credentials\<close>

definition echo_notice :: string where
  "echo_notice = ''  '' @ utf8 [0xFF08, 0x6CE8, 0x610F, 0xFF1A, 0x8FD9, 0x4E2A, 0x7EC8, 0x7AEF, 0x65E0, 0x6CD5, 0x5173, 0x95ED,
     0x56DE, 0x663E, 0xFF0C, 0x8F93, 0x5165, 0x5185, 0x5BB9, 0x4F1A, 0x663E, 0x793A, 0x51FA, 0x6765, 0xFF09]"

text \<open>\<open>quiet\<close>: whether \<open>stty\<close> could turn the echo off.\<close>

definition prompt_secret :: "bool \<Rightarrow> string \<Rightarrow> terminal \<Rightarrow> string \<times> terminal" where
  "prompt_secret quiet question t =
    (let t1 = (if quiet then t else println echo_notice t);
         (answer, t2) = prompt_line (print (question @ '': '') t1)
     in (answer, if quiet then println [] t2 else t2))"

section \<open>Reading goes on\<close>

text \<open>
  Where a terminal can have come from: input is only consumed, the end of the input is never
  forgotten and only seen at the end. \<open>advanced\<close>: something was read, or the end was seen.
\<close>

definition later :: "terminal \<Rightarrow> terminal \<Rightarrow> bool" where
  "later t t' \<longleftrightarrow> (\<exists>read. tm_in t = read @ tm_in t') \<and> (tm_eof t \<longrightarrow> tm_eof t') \<and>
     (tm_eof t' \<longrightarrow> tm_eof t \<or> tm_in t' = [])"

definition advanced :: "terminal \<Rightarrow> terminal \<Rightarrow> bool" where
  "advanced t t' \<longleftrightarrow> later t t' \<and> (length (tm_in t') < length (tm_in t) \<or> tm_eof t')"

lemma later_refl [simp]: "later t t"
  by (simp add: later_def)

lemma later_trans: "later t u \<Longrightarrow> later u v \<Longrightarrow> later t v"
  by (auto simp: later_def)

lemma later_length: "later t u \<Longrightarrow> length (tm_in u) \<le> length (tm_in t)"
  by (auto simp: later_def)

lemma advanced_trans: "advanced t u \<Longrightarrow> later u v \<Longrightarrow> advanced t v" "later t u \<Longrightarrow> advanced u v \<Longrightarrow> advanced t v"
proof -
  have eof: "tm_eof u \<Longrightarrow> tm_eof v" if "later u v" for u v using that by (simp add: later_def)
  show "advanced t u \<Longrightarrow> later u v \<Longrightarrow> advanced t v"
    using later_trans [of t u v] later_length [of u v] eof [of u v] by (auto simp: advanced_def)
  show "later t u \<Longrightarrow> advanced u v \<Longrightarrow> advanced t v"
    using later_trans [of t u v] later_length [of t u] by (auto simp: advanced_def)
qed

lemma advanced_later: "advanced t u \<Longrightarrow> later t u"
  by (simp add: advanced_def)

lemma print_reads [simp]: "tm_in (print s t) = tm_in t" "tm_eof (print s t) = tm_eof t"
  "tm_in (println s t) = tm_in t" "tm_eof (println s t) = tm_eof t"
  "tm_in (print_err s t) = tm_in t" "tm_eof (print_err s t) = tm_eof t"
  by (simp_all add: print_def println_def print_err_def)

lemma later_print [simp]: "later t (print s u) = later t u" "later (print s t) u = later t u"
  "later t (println s u) = later t u" "later (println s t) u = later t u"
  "later t (print_err s u) = later t u" "later (print_err s t) u = later t u"
  by (simp_all add: later_def)

lemma advanced_print [simp]: "advanced t (print s u) = advanced t u" "advanced (print s t) u = advanced t u"
  "advanced t (println s u) = advanced t u" "advanced (println s t) u = advanced t u"
  "advanced t (print_err s u) = advanced t u" "advanced (print_err s t) u = advanced t u"
  by (simp_all add: advanced_def)

lemma line_advances:
  assumes "prompt_line t = (a, t')"
  shows "advanced t t' \<and> (tm_in t = [] \<longrightarrow> a = [])"
proof (cases "tm_in t = []")
  case True
  with assms show ?thesis by (auto simp: prompt_line_def advanced_def later_def)
next
  case False
  show ?thesis
  proof (cases "str_index (tm_in t) [newline]")
    case None
    with False assms show ?thesis by (auto simp: prompt_line_def advanced_def later_def)
  next
    case (Some i)
    with False assms have t': "t' = t\<lparr>tm_in := drop (i + 1) (tm_in t)\<rparr>" by (auto simp: prompt_line_def)
    have "i + 1 \<le> length (tm_in t)" using str_index_Some [OF Some] by simp
    moreover have "\<exists>read. tm_in t = read @ drop (i + 1) (tm_in t)"
      by (rule exI [of _ "take (i + 1) (tm_in t)"]) simp
    ultimately show ?thesis using False unfolding t' by (auto simp: advanced_def later_def)
  qed
qed

text \<open>A loop whose every round reads a line, and that goes on only while the input lasts, returns.\<close>

lemma asking_returns:
  assumes "\<And>t t'. round t = Inl t' \<Longrightarrow> advanced t t' \<and> \<not> tm_eof t'"
    and "\<And>t r t'. round t = Inr (r, t') \<Longrightarrow> advanced t t' \<and> P r"
  shows "\<exists>r t'. forever round t = Some (r, t') \<and> advanced t t' \<and> P r"
proof -
  have "\<exists>x. forever round t = Some x"
    by (rule forever_terminates [of "measure (\<lambda>t. length (tm_in t))" "\<lambda>_. True"])
      (use assms(1) in \<open>auto simp: advanced_def\<close>)
  then obtain r t' where f: "forever round t = Some (r, t')" by auto
  have "case x of (r, u) \<Rightarrow> advanced t u \<and> P r" if "forever round t = Some x" for x
    using that
  proof (induction rule: forever_induct)
    case (returns t x)
    then show ?case using assms(2) by (cases x) simp
  next
    case (again t t1 x)
    then show ?case using assms(1) [of t t1] advanced_trans(1) advanced_later by (cases x) blast
  qed
  from this [OF f] f show ?thesis by auto
qed

lemma confirm_returns: "\<exists>r t'. confirm question def t = Some (r, t') \<and> advanced t t'"
proof -
  have "\<exists>r t'. forever (confirm_round question def) t = Some (r, t') \<and> advanced t t' \<and> True"
    by (rule asking_returns)
      (auto simp: confirm_round_def Let_def split: prod.splits if_splits dest: line_advances)
  then show ?thesis by (auto simp: confirm_def)
qed

lemma menu_returns:
  assumes "def < length items"
  shows "\<exists>n t'. menu title items def t = Some (n, t') \<and> advanced t t' \<and> n < length items"
proof -
  have "\<exists>n t'. forever (menu_round (length items) def) u = Some (n, t') \<and> advanced u t' \<and> n < length items" for u
  proof (rule asking_returns)
    fix t t' assume "menu_round (length items) def t = Inl t'"
    then show "advanced t t' \<and> \<not> tm_eof t'"
      by (auto simp: menu_round_def Let_def split: prod.splits if_splits option.splits dest: line_advances)
  next
    fix t n t' assume "menu_round (length items) def t = Inr (n, t')"
    then show "advanced t t' \<and> n < length items" using assms
      by (auto simp: menu_round_def Let_def split: prod.splits if_splits option.splits dest: line_advances)
  qed
  from this [of "print ([newline] @ title @ [newline] @ menu_lines def 0 items) t"] show ?thesis by (simp add: menu_def)
qed

end
