(* ===== verification/GatewayControl.thy ===== *)
theory GatewayControl
  imports GatewayBackend SshServer ConfigFile GoJsonRound
begin

text \<open>
  The running gateway as its operator sees it: building the provider (\<open>BuildProvider\<close> in
  \<open>core/gateway/gateway.go\<close>), the status snapshot (\<open>core/gateway/status.go\<close>), the local API on the
  control socket (\<open>core/gateway/control.go\<close>) and its client (\<open>cli/control_client.go\<close>). HTTP itself,
  the socket and the text that \<open>encoding/json\<close> makes of a status are parameters.
\<close>

section \<open>Building the provider\<close>

text \<open>
  A factory gets its section of the configuration, its state directory and the redactor.
\<close>

type_synonym ('n, 'c, 'w) factory =
  "'n option \<Rightarrow> string \<Rightarrow> redactor option \<Rightarrow> 'w \<Rightarrow> (goerr + 'c) \<times> redactor option \<times> 'w"

definition BuildProvider ::
  "'n yaml \<Rightarrow> ('n, 'c, 'w) factory registry \<Rightarrow> (string \<Rightarrow> goerr option) \<Rightarrow> 'n config \<Rightarrow> redactor option \<Rightarrow> 'w \<Rightarrow>
   (goerr + 'c) \<times> redactor option \<times> 'w" where
  "BuildProvider Y reg mkdir cfg red w =
    (case Lookup (cf_Provider cfg) reg of
       None \<Rightarrow>
         (Inl (Errorf (''unknown provider '' @ quote (cf_Provider cfg) @ '' in '' @ cf_path cfg @ '' (available: ['' @
            Join (map reg_Name (Registrations reg)) '' '' @ ''])'')), red, w)
     | Some r \<Rightarrow>
        (let dir = ProviderStateDir cfg (reg_Name r)
         in (case mkdir dir of
               Some e \<Rightarrow> (Inl (Wrapf ''prepare provider state dir: '' e []), red, w)
             | None \<Rightarrow>
                (case New_provider (cf_Provider cfg) reg of
                   Inl e \<Rightarrow> (Inl (Wrapf (''provider '' @ cf_Provider cfg @ '': '') e []), red, w)
                 | Inr f \<Rightarrow>
                    (case f (ProviderSection Y cfg (reg_ConfigKey r)) dir red w of
                       (Inl e, red1, w1) \<Rightarrow> (Inl (Wrapf (''provider '' @ cf_Provider cfg @ '': '') e []), red1, w1)
                     | (Inr p, red1, w1) \<Rightarrow> (Inr p, red1, w1))))))"

section \<open>Putting the gateway together\<close>

definition server_config_of :: "host_env \<Rightarrow> 'n config \<Rightarrow> server_config" where
  "server_config_of H cfg =
    \<lparr>svc_Listen = sf_Listen (cf_SSH cfg), svc_HostKeyPath = HostKeyPath H cfg,
     svc_HandshakeTimeout = sf_HandshakeTimeout (cf_SSH cfg), svc_ShutdownGrace = sf_ShutdownGrace (cf_SSH cfg),
     svc_Banner = sf_Banner (cf_SSH cfg), svc_Auth = auth_of H cfg\<rparr>"

text \<open>
  \<open>New\<close>. \<open>mkdir\<close> is \<open>EnsureDir\<close>, \<open>close\<close> the provider's \<open>Close\<close>, \<open>keys\<close> what reading the key file
  gives, \<open>rnd\<close> the random bytes of a generated password, \<open>f\<close> the host key file. The redactor is
  shared: what is added after the gateway was built is known to it.
\<close>

definition gateway_New ::
  "'n yaml \<Rightarrow> host_env \<Rightarrow> 'k keylib \<Rightarrow> 'k hostlib \<Rightarrow> ('n, 'c, 'w) factory registry \<Rightarrow>
   (string \<Rightarrow> goerr option) \<Rightarrow> ('c \<Rightarrow> 'w \<Rightarrow> 'w) \<Rightarrow> 'n config \<Rightarrow> file_read \<Rightarrow> (goerr + string) \<Rightarrow>
   redactor option \<Rightarrow> key_file \<Rightarrow> 'w \<Rightarrow>
   (goerr + 'c \<times> gateway \<times> 'k server) \<times> redactor option \<times> key_file \<times> 'w" where
  "gateway_New Y H K L reg mkdir close cfg keys rnd red f w =
    (case mkdir (cf_StateDir cfg) of
       Some e \<Rightarrow> (Inl (Wrapf ''prepare state dir: '' e []), red, f, w)
     | None \<Rightarrow>
        (case BuildProvider Y reg mkdir cfg red w of
           (Inl e, red1, w1) \<Rightarrow> (Inl e, red1, f, w1)
         | (Inr P, red1, w1) \<Rightarrow>
            (let life = New_manager (lifecycle_options cfg);
                 sessions = SetHooks True False
                   (NewManager (sf_MaxSessions (cf_SSH cfg)) (sf_MaxSessionsPerEnv (cf_SSH cfg)))
             in (case New_server K L (server_config_of H cfg) True keys rnd f of
                   (Inl e, f1) \<Rightarrow> (Inl e, red1, f1, close P w1)
                 | (Inr srv, f1) \<Rightarrow>
                    let red2 = (case GeneratedPassword (svr_auth srv) of None \<Rightarrow> red1 | Some pw \<Rightarrow> Add red1 [pw])
                    in (Inr (P, \<lparr>gw_life = life, gw_sess = sessions, gw_redact = red2, gw_released = []\<rparr>, srv),
                        red2, f1, w1)))))"

section \<open>Running\<close>

text \<open>
  The operating system as the control socket and the pid file use it; \<open>os_dial\<close> says whether
  someone listens.
\<close>

record 'w os_ops =
  os_mkdir :: "string \<Rightarrow> 'w \<Rightarrow> goerr option \<times> 'w"
  os_dial :: "string \<Rightarrow> 'w \<Rightarrow> bool \<times> 'w"
  os_remove :: "string \<Rightarrow> 'w \<Rightarrow> 'w"
  os_listen :: "string \<Rightarrow> 'w \<Rightarrow> goerr option \<times> 'w"
  os_chmod :: "string \<Rightarrow> 'w \<Rightarrow> goerr option \<times> 'w"
  os_unlisten :: "string \<Rightarrow> 'w \<Rightarrow> 'w"
  os_write :: "string \<Rightarrow> string \<Rightarrow> 'w \<Rightarrow> goerr option \<times> 'w"

definition newControlServer :: "'w os_ops \<Rightarrow> string \<Rightarrow> 'w \<Rightarrow> goerr option \<times> 'w" where
  "newControlServer S path w =
    (case os_mkdir S (path_Dir path) w of
       (Some e, w1) \<Rightarrow> (Some e, w1)
     | (None, w1) \<Rightarrow>
        (case os_dial S path w1 of
           (True, w2) \<Rightarrow> (Some (Errorf (''another gateway is already using '' @ path)), w2)
         | (False, w2) \<Rightarrow>
            (case os_listen S path (os_remove S path w2) of
               (Some e, w3) \<Rightarrow> (Some e, w3)
             | (None, w3) \<Rightarrow>
                (case os_chmod S path w3 of
                   (Some e, w4) \<Rightarrow> (Some e, os_unlisten S path w4)
                 | (None, w4) \<Rightarrow> (None, w4)))))"

definition control_close :: "'w os_ops \<Rightarrow> string \<Rightarrow> 'w \<Rightarrow> 'w" where
  "control_close S path w = os_remove S path (os_unlisten S path w)"

definition PIDFile :: "string \<Rightarrow> string" where
  "PIDFile stateDir = path_Join [stateDir, ''gateway.pid'']"

definition writePIDFile :: "'w os_ops \<Rightarrow> nat \<Rightarrow> string \<Rightarrow> 'w \<Rightarrow> goerr option \<times> 'w" where
  "writePIDFile S pid stateDir w =
    (case os_mkdir S (path_Dir (PIDFile stateDir)) w of
       (Some e, w1) \<Rightarrow> (Some e, w1)
     | (None, w1) \<Rightarrow> os_write S (PIDFile stateDir) (show_nat pid @ [CHR 0x0A]) w1)"

text \<open>
  \<open>Run\<close>, from the bound port to the deferred calls. \<open>listen\<close> binds the port if it is not bound,
  \<open>serve\<close> is \<open>Server.Serve\<close> until it returns, with the control socket served beside it.
\<close>

definition gateway_Run ::
  "'w os_ops \<Rightarrow> host_env \<Rightarrow> nat \<Rightarrow> ('w \<Rightarrow> goerr option \<times> 'w) \<Rightarrow> ('w \<Rightarrow> goerr option \<times> 'w) \<Rightarrow> bool \<Rightarrow> 'n config \<Rightarrow>
   'w \<Rightarrow> goerr option \<times> 'w" where
  "gateway_Run S H pid listen serve bound cfg w =
    (case (if bound then (None, w) else listen w) of
       (Some e, w1) \<Rightarrow> (Some e, w1)
     | (None, w1) \<Rightarrow>
        (let sock = ControlSocketPath H cfg;
             (ctrl, w2) = (if ct_Enabled (cf_Control cfg)
               then (case newControlServer S sock w1 of (e, w2) \<Rightarrow> (e = None, w2)) else (False, w1));
             (pf, w3) = (case writePIDFile S pid (cf_StateDir cfg) w2 of (e, w3) \<Rightarrow> (e = None, w3));
             (r, w4) = serve w3;
             w5 = (if pf then os_remove S (PIDFile (cf_StateDir cfg)) w4 else w4)
         in (r, if ctrl then control_close S sock w5 else w5)))"

text \<open>
  A live socket stays: when another gateway answers on it, nothing is removed, and the new gateway
  does not remove it either when it ends.
\<close>

lemma live_socket_kept:
  assumes "os_mkdir S (path_Dir path) w = (None, w1)" and "os_dial S path w1 = (True, w2)"
  shows "newControlServer S path w = (Some (Errorf (''another gateway is already using '' @ path)), w2)"
  using assms by (simp add: newControlServer_def)

lemma run_without_control:
  assumes "ct_Enabled (cf_Control cfg)" and "newControlServer S (ControlSocketPath H cfg) w = (Some e, w1)"
    and "writePIDFile S pid (cf_StateDir cfg) w1 = (None, w2)" and "serve w2 = (r, w3)"
  shows "gateway_Run S H pid listen serve True cfg w = (r, os_remove S (PIDFile (cf_StateDir cfg)) w3)"
  using assms by (simp add: gateway_Run_def Let_def)

section \<open>Status\<close>

text \<open>
  What does not change while the gateway runs. \<open>rn_info\<close> is the provider's introspection, if it has
  one, \<open>rn_bound\<close> the address the server listens on.
\<close>

record ('n, 'k, 'w) running =
  rn_cfg :: "'n config"
  rn_prov :: "'w prov"
  rn_info :: "(string, string) gomap option"
  rn_summary :: "string option"
  rn_keylib :: "'k keylib"
  rn_server :: "'k server"
  rn_bound :: "string option"
  rn_startedAt :: int

definition Addr :: "('n, 'k, 'w) running \<Rightarrow> string" where
  "Addr R = (case rn_bound R of Some a \<Rightarrow> a | None \<Rightarrow> sf_Listen (cf_SSH (rn_cfg R)))"

record gateway_status =
  gs_Provider :: string
  gs_ProviderSummary :: string
  gs_ProviderInfo :: "(string, string) gomap"
  gs_Capabilities :: capabilities
  gs_Listen :: string
  gs_HostKeyFingerprint :: string
  gs_DefaultEnvironment :: string
  gs_ConfigPath :: string
  gs_StateDir :: string
  gs_StartedAt :: int
  gs_Uptime :: string
  gs_AuthorizedKeys :: nat
  gs_PasswordAuth :: bool
  gs_ClientAuth :: string
  gs_AutoCreate :: bool
  gs_StopOnLastDisconnect :: bool
  gs_Sessions :: "info list"
  gs_Environments :: "env_status list"

text \<open>The environments: those the manager knows, and the configured default.\<close>

definition status_environments :: "int \<Rightarrow> string \<Rightarrow> manager \<Rightarrow> env_status list \<times> manager" where
  "status_environments now def m =
    (let (sts, m1) = All_status now m
     in if def \<noteq> [] \<and> \<not> list_ex (\<lambda>e. st_Environment e = def) sts
        then (case Lifecycle.Status now def m1 of (st, m2) \<Rightarrow> (sts @ [st], m2))
        else (sts, m1))"

definition gateway_Status :: "('n, 'k, 'w) running \<Rightarrow> gateway \<Rightarrow> 'w \<Rightarrow> gateway_status \<times> gateway" where
  "gateway_Status R g w =
    (let P = rn_prov R; now = w_now P w; a = svr_auth (rn_server R);
         (envs, m) = status_environments now (w_DefaultEnvironment P) (gw_life g)
     in (\<lparr>gs_Provider = w_Name P,
          gs_ProviderSummary = (case rn_summary R of None \<Rightarrow> [] | Some s \<Rightarrow> s),
          gs_ProviderInfo = (case rn_info R of None \<Rightarrow> [] | Some i \<Rightarrow> i),
          gs_Capabilities = w_Capabilities P, gs_Listen = Addr R,
          gs_HostKeyFingerprint = HostKeyFingerprint (rn_keylib R) (rn_server R),
          gs_DefaultEnvironment = w_DefaultEnvironment P, gs_ConfigPath = cf_path (rn_cfg R),
          gs_StateDir = cf_StateDir (rn_cfg R), gs_StartedAt = rn_startedAt R,
          gs_Uptime = seconds_text (round_second (now - rn_startedAt R)), gs_AuthorizedKeys = KeyCount a,
          gs_PasswordAuth = au_passwordAuth a, gs_ClientAuth = auth_Mode a,
          gs_AutoCreate = lf_AutoCreate (cf_Lifecycle (rn_cfg R)),
          gs_StopOnLastDisconnect = lf_StopOnLastDisconnect (cf_Lifecycle (rn_cfg R)),
          gs_Sessions = List_sessions (gw_sess g), gs_Environments = envs\<rparr>,
         g\<lparr>gw_life := m\<rparr>))"

section \<open>Query strings (net/url)\<close>

definition query_char :: "char \<Rightarrow> bool" where
  "query_char c \<longleftrightarrow> alnum c \<or> c \<in> {CHR ''-'', CHR ''_'', CHR ''.'', CHR ''~''}"

definition query_escape_char :: "char \<Rightarrow> string" where
  "query_escape_char c =
    (if query_char c then [c] else if c = CHR '' '' then ''+''
     else [CHR ''%'', upper_hex (byte c div 16), upper_hex (byte c mod 16)])"

definition QueryEscape :: "string \<Rightarrow> string" where
  "QueryEscape s = concat (map query_escape_char s)"

fun QueryUnescape :: "string \<Rightarrow> string option" where
  "QueryUnescape [] = Some []"
| "QueryUnescape (c # s) =
    (if c = CHR ''%'' then
       (case s of
          a # b # r \<Rightarrow>
            (case (hex_val a, hex_val b) of
               (Some x, Some y) \<Rightarrow> map_option ((#) (char_of (16 * x + y))) (QueryUnescape r)
             | _ \<Rightarrow> None)
        | _ \<Rightarrow> None)
     else map_option ((#) (if c = CHR ''+'' then CHR '' '' else c)) (QueryUnescape s))"

text \<open>\<open>Query().Get\<close>: the first value of the key; parts that cannot be read are skipped.\<close>

definition query_part :: "string \<Rightarrow> (string \<times> string) option" where
  "query_part p =
    (if CHR '';'' \<in> set p \<or> p = [] then None
     else
       (case Cut p ''='' of
          (k, v, _) \<Rightarrow>
            (case (QueryUnescape k, QueryUnescape v) of (Some k1, Some v1) \<Rightarrow> Some (k1, v1) | _ \<Rightarrow> None)))"

definition query_get :: "string \<Rightarrow> string \<Rightarrow> string" where
  "query_get key query =
    (case find (\<lambda>(k, v). k = key) (List.map_filter query_part (split_on (CHR ''&'') query)) of
       None \<Rightarrow> [] | Some (k, v) \<Rightarrow> v)"

section \<open>The control API\<close>

record http_answer =
  ha_code :: nat
  ha_body :: string

definition writeJSON :: "nat \<Rightarrow> json \<Rightarrow> http_answer" where
  "writeJSON code v = \<lparr>ha_code = code, ha_body = json_indent v @ [CHR 0x0A]\<rparr>"

definition string_object :: "(string \<times> string) list \<Rightarrow> json" where
  "string_object kvs = JObj (map (\<lambda>(k, v). (k, JStr v)) (sort_key fst kvs))"

definition handleStop :: http_answer where
  "handleStop = writeJSON 200 (string_object [(''status'', ''stopping'')])"

definition handleStopEnvironment ::
  "'w prov \<Rightarrow> ctx \<Rightarrow> string \<Rightarrow> gateway \<Rightarrow> 'w \<Rightarrow> http_answer \<times> gateway \<times> 'w" where
  "handleStopEnvironment P c query g w =
    (case ResolveEnvironment P c (query_get ''name'' query) None (gw_life g) w of
       (Inl e, m1, w1) \<Rightarrow>
         (writeJSON 400 (string_object [(''error'', Redact (gw_redact g) (err_text e))]), g\<lparr>gw_life := m1\<rparr>, w1)
     | (Inr name, m1, w1) \<Rightarrow>
         (case Stop P c name m1 w1 of
            (Some e, m2, w2) \<Rightarrow>
              (writeJSON 500 (string_object [(''error'', Redact (gw_redact g) (err_text e))]), g\<lparr>gw_life := m2\<rparr>, w2)
          | (None, m2, w2) \<Rightarrow>
              (writeJSON 200 (string_object [(''status'', ''stopped''), (''environment'', name)]), g\<lparr>gw_life := m2\<rparr>, w2)))"

text \<open>
  The mux. The result says whether the gateway was asked to shut down; \<open>enc\<close> is the JSON text of a
  status, \<open>c\<close> the context of the request.
\<close>

definition control_serve ::
  "(gateway_status \<Rightarrow> string) \<Rightarrow> ('n, 'k, 'w) running \<Rightarrow> ctx \<Rightarrow> string \<Rightarrow> string \<Rightarrow> gateway \<Rightarrow> 'w \<Rightarrow>
   http_answer \<times> bool \<times> gateway \<times> 'w" where
  "control_serve enc R c method target g w =
    (case Cut target ''?'' of
       (path, query, _) \<Rightarrow>
         let bad = \<lparr>ha_code = 405, ha_body = ''Method Not Allowed'' @ [CHR 0x0A]\<rparr>
         in if path = ''/status'' then
              (if method = ''GET'' \<or> method = ''HEAD'' then
                 (case gateway_Status R g w of (st, g1) \<Rightarrow> (\<lparr>ha_code = 200, ha_body = enc st\<rparr>, False, g1, w))
               else (bad, False, g, w))
            else if path = ''/stop'' then
              (if method = ''POST'' then (handleStop, True, g, w) else (bad, False, g, w))
            else if path = ''/environment/stop'' then
              (if method = ''POST'' then
                 (case handleStopEnvironment (rn_prov R) c query g w of (a, g1, w1) \<Rightarrow> (a, False, g1, w1))
               else (bad, False, g, w))
            else (\<lparr>ha_code = 404, ha_body = ''404 page not found'' @ [CHR 0x0A]\<rparr>, False, g, w))"

section \<open>The client (cli/control_client.go)\<close>

definition status_line :: "nat \<Rightarrow> string" where
  "status_line code =
    show_nat code @ '' '' @
    (if code = 200 then ''OK'' else if code = 400 then ''Bad Request'' else if code = 404 then ''Not Found''
     else if code = 405 then ''Method Not Allowed'' else if code = 500 then ''Internal Server Error'' else [])"

definition into_error_text :: "string \<Rightarrow> string \<Rightarrow> json \<Rightarrow> string option" where
  "into_error_text k old v =
    (if EqualFold k ''error'' then (case into_string old v of None \<Rightarrow> Some old | Some s \<Rightarrow> Some s) else Some old)"

definition control_error :: "http_answer \<Rightarrow> goerr" where
  "control_error a =
    (case unmarshal (into_struct into_error_text) [] (take (4 * 2 ^ 20) (ha_body a)) of
       Some (c # msg) \<Rightarrow> Errorf (''gateway: '' @ c # msg)
     | _ \<Rightarrow> Errorf (''gateway returned '' @ status_line (ha_code a)))"

text \<open>\<open>send\<close> is one request over the socket; \<open>decode\<close> reads the answer where the caller wants it.\<close>

definition control_do ::
  "('w \<Rightarrow> (goerr + http_answer) \<times> 'w) \<Rightarrow> string \<Rightarrow> (string \<Rightarrow> goerr + 'a) \<Rightarrow> 'w \<Rightarrow> (goerr + 'a) \<times> 'w" where
  "control_do send sock decode w =
    (case send w of
       (Inl e, w1) \<Rightarrow> (Inl (Wrapf (''control socket '' @ sock @ '': '') e []), w1)
     | (Inr a, w1) \<Rightarrow>
         (if ha_code a \<noteq> 200 then Inl (control_error a) else decode (take (4 * 2 ^ 20) (ha_body a)), w1))"

type_synonym 'w control_socket = "string \<Rightarrow> string \<Rightarrow> 'w \<Rightarrow> (goerr + http_answer) \<times> 'w"

definition control_status :: "'w control_socket \<Rightarrow> string \<Rightarrow> (string \<Rightarrow> goerr + gateway_status) \<Rightarrow> 'w \<Rightarrow> (goerr + gateway_status) \<times> 'w" where
  "control_status S sock decode = control_do (S ''GET'' ''/status'') sock decode"

definition control_stop :: "'w control_socket \<Rightarrow> string \<Rightarrow> 'w \<Rightarrow> (goerr + unit) \<times> 'w" where
  "control_stop S sock = control_do (S ''POST'' ''/stop'') sock (\<lambda>_. Inr ())"

definition stopEnvironment :: "'w control_socket \<Rightarrow> string \<Rightarrow> string \<Rightarrow> 'w \<Rightarrow> (goerr + unit) \<times> 'w" where
  "stopEnvironment S sock name =
    control_do (S ''POST'' (''/environment/stop?name='' @ QueryEscape name)) sock (\<lambda>_. Inr ())"


section \<open>What the status lists\<close>

lemma All_from_each:
  "distinct ns \<Longrightarrow>
    map st_Environment (fst (All_from now ns m)) = ns \<and>
    (\<forall>e\<in>set (fst (All_from now ns m)). st_State e = stateLocked now (st_Environment e) m)"
proof (induction ns arbitrary: m)
  case (Cons n ns)
  have n: "st_Environment (fst (Lifecycle.Status now n m)) = n"
    "st_State (fst (Lifecycle.Status now n m)) = stateLocked now n m"
    "snd (Lifecycle.Status now n m) = bump now n (\<lambda>st. st) m"
    by (auto simp: Lifecycle.Status_def Let_def split: option.splits)
  obtain s m1 where st: "Lifecycle.Status now n m = (s, m1)" by fastforce
  obtain ss m2 where all: "All_from now ns m1 = (ss, m2)" by fastforce
  have "map st_Environment ss = ns" "\<forall>e\<in>set ss. st_State e = stateLocked now (st_Environment e) m1"
    using Cons.IH [of m1] Cons.prems all by auto
  moreover have "st_Environment e \<noteq> n" if "e \<in> set ss" for e
    using calculation(1) Cons.prems that by force
  ultimately show ?case using n st all by auto
qed simp

text \<open>
  The snapshot shows every environment the manager knows, once and in order of name, and the
  configured default if it is not among them; for each the state is the manager's.
\<close>

lemma status_lists:
  assumes "distinct (gokeys (m_states m))"
  shows "let names = sort (gokeys (m_states m)); sts = fst (status_environments now def m)
    in map st_Environment sts = names @ (if def = [] \<or> def \<in> set names then [] else [def]) \<and>
       (\<forall>e\<in>set sts. st_Environment e \<in> set names \<longrightarrow> st_State e = stateLocked now (st_Environment e) m)"
proof -
  let ?names = "sort (gokeys (m_states m))"
  obtain sts m1 where a: "All_from now ?names m = (sts, m1)" by fastforce
  obtain st m2 where s: "Lifecycle.Status now def m1 = (st, m2)" by fastforce
  have e: "st_Environment st = def"
    using s by (auto simp: Lifecycle.Status_def Let_def split: option.splits)
  have each: "map st_Environment sts = ?names"
    "\<forall>e\<in>set sts. st_State e = stateLocked now (st_Environment e) m"
    using All_from_each [of ?names now m] assms a by simp_all
  have mem: "list_ex (\<lambda>e. st_Environment e = def) sts \<longleftrightarrow> def \<in> set ?names"
    by (subst each(1) [symmetric]) (auto simp: list_ex_iff)
  show ?thesis
  proof (cases "def = [] \<or> def \<in> set ?names")
    case True
    with mem a have "status_environments now def m = (sts, m1)"
      by (auto simp: status_environments_def All_status_def)
    with True each show ?thesis by (auto simp: Let_def)
  next
    case False
    with mem a s have "status_environments now def m = (sts @ [st], m2)"
      by (auto simp: status_environments_def All_status_def)
    with False each e show ?thesis by (auto simp: Let_def)
  qed
qed

text \<open>Asking for the status changes neither the sessions nor what is redacted.\<close>

lemma status_keeps:
  "gw_sess (snd (gateway_Status R g w)) = gw_sess g \<and> gw_redact (snd (gateway_Status R g w)) = gw_redact g \<and>
   gs_Sessions (fst (gateway_Status R g w)) = List_sessions (gw_sess g)"
  by (simp add: gateway_Status_def Let_def split: prod.split)

section \<open>Names travel unchanged\<close>

lemma query_char_hex: "n < 16 \<Longrightarrow> query_char (upper_hex n)"
  by (auto simp: query_char_def alnum_def upper_hex_def byte_def of_char_of Let_def)

lemma QueryEscape_chars: "c \<in> set (QueryEscape s) \<Longrightarrow> query_char c \<or> c = CHR ''%'' \<or> c = CHR ''+''"
proof (induction s)
  case (Cons d s)
  have "byte d < 256" by (rule byte_less)
  then have "query_char (upper_hex (byte d div 16))" "query_char (upper_hex (byte d mod 16))"
    by (auto intro: query_char_hex)
  with Cons show ?case by (auto simp: QueryEscape_def query_escape_char_def split: if_splits)
qed (simp add: QueryEscape_def)

lemma query_char_no_mark:
  "query_char c \<Longrightarrow> c \<noteq> CHR ''%'' \<and> c \<noteq> CHR ''+'' \<and> c \<noteq> CHR ''&'' \<and> c \<noteq> CHR '';''"
  by (auto simp: query_char_def alnum_def byte_def)

lemma QueryEscape_no_mark: "CHR ''&'' \<notin> set (QueryEscape s)" "CHR '';'' \<notin> set (QueryEscape s)"
  using QueryEscape_chars [of _ s] query_char_no_mark by force+

lemma QueryUnescape_escape: "QueryUnescape (QueryEscape s) = Some s"
proof (induction s)
  case Nil
  then show ?case by (simp add: QueryEscape_def)
next
  case (Cons c s)
  have b: "byte c < 256" by (rule byte_less)
  then have h: "byte c div 16 < 16" "byte c mod 16 < 16" by auto
  have "char_of (16 * (byte c div 16) + byte c mod 16) = c" by (simp add: byte_def)
  then show ?case using Cons h query_char_no_mark [of c]
    by (auto simp: QueryEscape_def query_escape_char_def upper_hex_val)
qed

lemma Cut_name: "Cut (''name='' @ v) ''='' = (''name'', v, True)"
  by (simp add: Cut_def)

lemma query_get_name: "query_get ''name'' (''name='' @ QueryEscape n) = n"
proof -
  have "split_on (CHR ''&'') (''name='' @ QueryEscape n) = [''name='' @ QueryEscape n]"
    using QueryEscape_no_mark(1) by (intro split_on_none) auto
  moreover have "query_part (''name='' @ QueryEscape n) = Some (''name'', n)"
    using QueryEscape_no_mark(2) [of n] Cut_name [of "QueryEscape n"]
    by (simp add: query_part_def QueryUnescape_escape)
  ultimately show ?thesis by (simp add: query_get_def List.map_filter_def)
qed

lemma written_error:
  assumes "ascii s" and "s \<noteq> []" and "length s \<le> 2 ^ 19"
  shows "control_error (writeJSON code (string_object [(''error'', s)])) = Errorf (''gateway: '' @ s)"
proof -
  let ?b = "ha_body (writeJSON code (string_object [(''error'', s)]))"
  have obj: "string_object [(''error'', s)] = JObj [(''error'', JStr s)]" by (simp add: string_object_def)
  have "ascii ''error''" by (simp add: byte_def)
  then have ok: "json_ok (string_object [(''error'', s)])" using assms(1) unfolding obj by simp
  have p: "json_parse ?b = Some (JObj [(''error'', JStr s)])"
    using json_parse_indent_line [OF ok] unfolding obj by (simp add: writeJSON_def)
  have "length (json_string ''error'') = 7"
    by (simp add: json_string_def json_ascii_def byte_def)
  then have "length ?b \<le> 6 * length s + 20"
    unfolding obj using json_chars_size [of s] assms(1)
    by (simp add: writeJSON_def json_indent_def json_string_def [of s] json_chars_ascii)
  then have t: "take (4 * 2 ^ 20) ?b = ?b" using assms(3) by simp
  have e: "EqualFold ''error'' ''error''" by (simp add: EqualFold_def)
  show ?thesis using assms(2) unfolding control_error_def t unmarshal_def p
    by (cases s) (simp_all add: into_struct_def into_error_text_def into_string_def e)
qed

section \<open>The client and the gateway together\<close>

text \<open>A socket that works: the client's request reaches the mux and the answer comes back.\<close>

definition local_socket ::
  "(gateway_status \<Rightarrow> string) \<Rightarrow> ('n, 'k, 'w) running \<Rightarrow> ctx \<Rightarrow> (gateway \<times> 'w) control_socket" where
  "local_socket enc R c method target v =
    (case control_serve enc R c method target (fst v) (snd v) of (a, _, g, w) \<Rightarrow> (Inr a, (g, w)))"

lemma stop_target:
  "Cut (''/environment/stop?name='' @ v) ''?'' = (''/environment/stop'', ''name='' @ v, True)"
proof -
  have "Cut (''/environment/stop'' @ CHR ''?'' # (''name='' @ v)) ''?'' =
    (''/environment/stop'', ''name='' @ v, True)"
    by (rule Cut_char) simp
  then show ?thesis by simp
qed

lemma serve_stop_environment:
  assumes "Cut target ''?'' = (''/environment/stop'', q, b)"
  shows "local_socket enc R c ''POST'' target (g, w) =
    (case handleStopEnvironment (rn_prov R) c q g w of (a, v) \<Rightarrow> (Inr a, v))"
  using assms by (simp add: local_socket_def control_serve_def split: prod.splits)

lemma handle_named:
  assumes "TrimSpace (query_get ''name'' q) = name" and "name \<noteq> []" and "validEnvironmentName name = None"
    and "Stop P c name (gw_life g) w = (r, m', w')"
  shows "handleStopEnvironment P c q g w =
    (case r of
       Some e \<Rightarrow> writeJSON 500 (string_object [(''error'', Redact (gw_redact g) (err_text e))])
     | None \<Rightarrow> writeJSON 200 (string_object [(''status'', ''stopped''), (''environment'', name)]),
     g\<lparr>gw_life := m'\<rparr>, w')"
  using assms by (simp add: handleStopEnvironment_def ResolveEnvironment_def Let_def split: option.splits)

text \<open>
  C32: stopping an environment from another terminal does what the operator asked, through the
  escaping, the socket and the answer. A name that can be an environment's reaches the lifecycle
  manager unchanged and the gateway and the world end up as after \<open>Stop\<close> of exactly that
  environment; the command reports success if and only if \<open>Stop\<close> did, and otherwise the error is the
  manager's, redacted by the gateway before it left the process (for an ASCII text of at most
  half a megabyte).
\<close>

theorem control_stop_environment:
  assumes "TrimSpace name \<noteq> []" and "validEnvironmentName (TrimSpace name) = None"
    and "Stop (rn_prov R) c (TrimSpace name) (gw_life g) w = (r, m', w')"
  shows "\<exists>out. stopEnvironment (local_socket enc R c) sock name (g, w) = (out, (g\<lparr>gw_life := m'\<rparr>, w')) \<and>
    (case r of
       None \<Rightarrow> out = Inr ()
     | Some e \<Rightarrow>
         isl out \<and>
         (let t = Redact (gw_redact g) (err_text e)
          in \<not> (ascii t \<and> t \<noteq> [] \<and> length t \<le> 2 ^ 19) \<or> out = Inl (Errorf (''gateway: '' @ t))))"
proof -
  have "stopEnvironment (local_socket enc R c) sock name (g, w) =
    (case r of
       Some e \<Rightarrow> Inl (control_error (writeJSON 500 (string_object [(''error'', Redact (gw_redact g) (err_text e))])))
     | None \<Rightarrow> Inr (), (g\<lparr>gw_life := m'\<rparr>, w'))"
    unfolding stopEnvironment_def control_do_def serve_stop_environment [OF stop_target]
      handle_named [OF arg_cong [OF query_get_name] assms]
    by (cases r) (simp_all add: writeJSON_def)
  then show ?thesis using written_error by (cases r) (auto simp: Let_def)
qed

text \<open>A provider that refuses to stop, for the witness.\<close>

definition stubborn_prov :: "int prov" where
  "stubborn_prov = (running_prov None)\<lparr>w_Stop := \<lambda>c h w. (Some (Errorf ''no''), w + 1)\<rparr>"

lemma control_stop_environment_witness:
  "\<forall>enc R. stopEnvironment (local_socket enc (R\<lparr>rn_prov := stubborn_prov\<rparr>) ctx_bg) ''/run/s'' ''box'' (gateway0, 0) =
     (Inl (Errorf (''gateway: stop environment box: no'')),
      (gateway0\<lparr>gw_life := fst (snd (Stop stubborn_prov ctx_bg ''box'' (gw_life gateway0) 0))\<rparr>, 1))"
proof (intro allI)
  fix enc and R :: "('n, 'k, int) running"
  let ?m = "gw_life gateway0" and ?e = "Wrapf ''stop environment box: '' (Errorf ''no'') []"
  have id: "ResolvedID ''box'' ?m = ''box''"
    by (simp add: ResolvedID_def gateway0_def New_manager_def stateLocked_def)
  obtain m' where st: "Stop (rn_prov (R\<lparr>rn_prov := stubborn_prov\<rparr>)) ctx_bg ''box'' ?m 0 = (Some ?e, m', 1)"
    by (simp add: Stop_def id stubborn_prov_def)
  have t: "Redact (gw_redact gateway0) (err_text ?e) = ''stop environment box: no''"
    by (simp add: gateway0_def) code_simp
  have "ascii ''stop environment box: no''" by (simp add: byte_def)
  with control_stop_environment [of "''box''", unfolded box_name(1), OF _ box_name(2) st, of enc "''/run/s''"] st t
  show "stopEnvironment (local_socket enc (R\<lparr>rn_prov := stubborn_prov\<rparr>) ctx_bg) ''/run/s'' ''box'' (gateway0, 0) =
     (Inl (Errorf (''gateway: stop environment box: no'')),
      (gateway0\<lparr>gw_life := fst (snd (Stop stubborn_prov ctx_bg ''box'' ?m 0))\<rparr>, 1))"
    by auto
qed


section \<open>A gateway that was built\<close>

lemma generated_password_long:
  assumes "NewAuthorizer K cfg keys rnd = Inr a" and "\<And>buf. rnd = Inr buf \<Longrightarrow> length buf = 20"
    and "GeneratedPassword a = Some pw"
  shows "length pw = 32"
proof -
  have g: "au_generated a" and pw: "pw = Reveal (au_password a)"
    using assms(3) by (auto simp: GeneratedPassword_def split: if_splits)
  obtain p where p: "randomPassword rnd = Inr p" "au_password a = secret_New p"
    using NewAuthorizerE [OF assms(1)] g by metis
  then obtain buf where "rnd = Inr buf" by (cases rnd) (auto simp: randomPassword_def)
  with p randomPassword_strong [of buf p] assms(2) pw show ?thesis by simp
qed

lemma New_server_auth:
  assumes "New_server K L c True keys rnd f = (Inr srv, f1)"
  shows "NewAuthorizer K (svc_Auth c) keys rnd = Inr (svr_auth srv) \<and> svr_noClientAuth srv = au_anonymous (svr_auth srv)"
  using assms by (auto simp: New_server_def split: sum.splits prod.splits)

lemma fresh_sessions: "sess_inv (SetHooks f l (NewManager mt me)) \<and> Total (SetHooks f l (NewManager mt me)) = 0"
  by (auto simp: sess_inv_def SetHooks_def NewManager_def live_def env_live_def Total_def)

text \<open>The ways in which \<open>New\<close> ends, each with what it leaves.\<close>

lemma gateway_NewE:
  assumes "gateway_New Y H K L reg mkdir close cfg keys rnd red f w = (res, red', f', w')"
  obtains (dir) e where "mkdir (cf_StateDir cfg) = Some e" "res = Inl (Wrapf ''prepare state dir: '' e [])"
  | (provider) e red1 where "BuildProvider Y reg mkdir cfg red w = (Inl e, red1, w')" "res = Inl e"
  | (server) P red1 w1 e f1 where "BuildProvider Y reg mkdir cfg red w = (Inr P, red1, w1)"
      "New_server K L (server_config_of H cfg) True keys rnd f = (Inl e, f1)" "res = Inl e" "w' = close P w1"
  | (built) P red1 srv f1 where "BuildProvider Y reg mkdir cfg red w = (Inr P, red1, w')"
      "New_server K L (server_config_of H cfg) True keys rnd f = (Inr srv, f1)"
      "red' = (case GeneratedPassword (svr_auth srv) of None \<Rightarrow> red1 | Some pw \<Rightarrow> Add red1 [pw])"
      "res = Inr (P, \<lparr>gw_life = New_manager (lifecycle_options cfg),
         gw_sess = SetHooks True False (NewManager (sf_MaxSessions (cf_SSH cfg)) (sf_MaxSessionsPerEnv (cf_SSH cfg))),
         gw_redact = red', gw_released = []\<rparr>, srv)"
  using assms by (auto simp: gateway_New_def Let_def split: option.splits sum.splits prod.splits)

text \<open>A password that was made up is long enough for the redactor to take it.\<close>

lemma generated_hidden:
  assumes "NewAuthorizer K cfg keys rnd = Inr a" and "\<And>buf. rnd = Inr buf \<Longrightarrow> length buf = 20"
    and "GeneratedPassword a = Some pw" and "Add red [pw] = Some r" and "hideable r"
  shows "\<not> Contains (Redact (Some r) t) pw"
proof -
  have "length pw = 32" by (rule generated_password_long [OF assms(1-3)])
  then have "pw \<in> set (secrets r)"
    using assms(4) by (auto simp: Add_def set_secrets_foldl set_secrets_add minRedactLen_def split: option.splits)
  with assms(5) show ?thesis by (rule red.hides)
qed

text \<open>
  C29: A gateway is built whole or not at all. When \<open>New\<close> succeeds, the session registry is in order
  and empty with the configured limits, the lifecycle manager has the configured options, the
  authorizer was made from the configuration with anonymous access only for a loopback
  listener, and a password that was generated is never seen in redacted text; when the
  SSH server cannot be built after the provider was, the provider is closed.
\<close>

theorem gateway_new_sound:
  assumes "gateway_New Y H K L reg mkdir close cfg keys rnd red f w = (res, red', f', w')"
    and "red' = Some r" and "hideable r" and "\<And>buf. rnd = Inr buf \<Longrightarrow> length buf = 20"
  shows "case res of
      Inl e \<Rightarrow>
        mkdir (cf_StateDir cfg) \<noteq> None \<or>
        (case BuildProvider Y reg mkdir cfg red w of
           (Inl e', _, w1) \<Rightarrow> e = e' \<and> w' = w1
         | (Inr P, _, w1) \<Rightarrow> w' = close P w1)
    | Inr (P, g, srv) \<Rightarrow>
        sess_inv (gw_sess g) \<and> Total (gw_sess g) = 0 \<and> maxTotal (gw_sess g) = sf_MaxSessions (cf_SSH cfg) \<and>
        maxPerEnv (gw_sess g) = sf_MaxSessionsPerEnv (cf_SSH cfg) \<and>
        gw_life g = New_manager (lifecycle_options cfg) \<and> gw_redact g = red' \<and>
        NewAuthorizer K (auth_of H cfg) keys rnd = Inr (svr_auth srv) \<and>
        (svr_noClientAuth srv \<longrightarrow> LoopbackListen (sf_Listen (cf_SSH cfg))) \<and>
        (case GeneratedPassword (svr_auth srv) of
           None \<Rightarrow> True | Some pw \<Rightarrow> \<not> Contains (Redact (gw_redact g) t) pw)"
  using assms(1)
proof (cases rule: gateway_NewE)
  case (built P red1 srv f1)
  have a: "NewAuthorizer K (auth_of H cfg) keys rnd = Inr (svr_auth srv)" "svr_noClientAuth srv = au_anonymous (svr_auth srv)"
    using New_server_auth [OF built(2)] by (simp_all add: server_config_of_def)
  then have anon: "svr_noClientAuth srv \<longrightarrow> LoopbackListen (sf_Listen (cf_SSH cfg))"
    using NewAuthorizerE [OF a(1)] by (simp add: auth_of_def) metis
  have "\<not> Contains (Redact red' t) pw" if "GeneratedPassword (svr_auth srv) = Some pw" for pw
    using generated_hidden [OF a(1) assms(4) that, of red1 r] that built(3) assms(2,3) by simp
  then show ?thesis
    using built(4) a anon fresh_sessions by (auto simp: SetHooks_def NewManager_def split: option.split)
qed simp_all

text \<open>A configuration with a password still to be made up, and a provider, for the witness.\<close>

definition password_config :: "unit config" where
  "password_config = (Defaults host0)\<lparr>cf_Provider := ''p'',
     cf_SSH := default_ssh\<lparr>sf_PasswordAuth := True\<rparr>\<rparr>"

definition one_provider :: "(unit, int prov, int) factory registry" where
  "one_provider = [(''p'', \<lparr>reg_Name = ''p'', reg_Summary = [], reg_ConfigKey = ''p'',
     reg_DefaultEnvironmentKey = ''environment'',
     reg_Factory = Some (\<lambda>sec dir red w. (Inr (running_prov None), red, w))\<rparr>)]"

definition hostlib0 :: "nat hostlib" where
  "hostlib0 = \<lparr>hl_parse = (\<lambda>raw. Inr 1), hl_generate = Inr ''key'', hl_marshal = (\<lambda>priv. Inr ''PEM''), hl_signer = (\<lambda>priv. Inr 1)\<rparr>"

definition no_key_file :: key_file where
  "no_key_file = \<lparr>kf_content = FileMissing, kf_mkdir = None, kf_open = None, kf_write = None, kf_close = None\<rparr>"

lemma random_zeros: "randomPassword (Inr (replicate 20 (CHR 0x00))) = Inr (replicate 32 (CHR ''a''))"
proof -
  have c: "b32_char (False # False # False # False # False # bs) = CHR ''A''" for bs
    by (simp add: b32_char_def char_of_def bit_0)
  have z: "b32_groups (replicate (5 * n) False) = replicate n (CHR ''A'')" for n
  proof (induction n)
    case (Suc n)
    have "replicate (5 * Suc n) False = replicate 5 False @ replicate (5 * n) False"
      by (simp add: replicate_add [symmetric])
    with Suc c show ?case by (simp add: numeral_eq_Suc)
  qed simp
  have "concat (replicate n (replicate k False)) = replicate (n * k) False" for n k
    by (induction n) (simp_all add: replicate_add)
  then have "concat (replicate 20 (replicate 8 False)) = replicate (20 * 8) False" .
  moreover have "byte_bits (CHR 0x00) = replicate 8 False" by code_simp
  moreover have "(20 * 8 :: nat) = 5 * 32" by simp
  ultimately have b: "concat (map byte_bits (replicate 20 (CHR 0x00))) = replicate (5 * 32) False"
    unfolding map_replicate by metis
  have l: "ToLower (replicate n (CHR ''A'')) = replicate n (CHR ''a'')" for n
  proof -
    have "lower_char (CHR ''A'') = CHR ''a''" by code_simp
    then show ?thesis by (simp add: ToLower_def)
  qed
  show ?thesis unfolding randomPassword_def sum.case b z l ..
qed

lemma gateway_new_sound_witness:
  "\<exists>P g srv f'. gateway_New yaml0 host0 keylib0 hostlib0 one_provider (\<lambda>p. None) (\<lambda>P w. w + 1) password_config
      FileMissing (Inr (replicate 20 (CHR 0x00))) (Some NewRedactor) no_key_file 0 =
      (Inr (P, g, srv), gw_redact g, f', 0) \<and>
    GeneratedPassword (svr_auth srv) = Some (replicate 32 (CHR ''a'')) \<and>
    (\<forall>t. \<not> Contains (Redact (gw_redact g) t) (replicate 32 (CHR ''a'')))"
proof -
  let ?pw = "replicate 32 (CHR ''a'')" and ?rnd = "Inr (replicate 20 (CHR 0x00)) :: goerr + string"
  have tr: "TrimSpace ?pw = ?pw"
    by (intro TrimSpace_trimmed trimmed_plain) (auto simp: plain_def)
  have au: "sf_PasswordAuth (cf_SSH password_config)" "sf_AuthorizedKeysInline (cf_SSH password_config) = []"
    "sf_Password (cf_SSH password_config) = Value []" "cf_Provider password_config = ''p''"
    by (simp_all add: password_config_def default_ssh_def)
  have e: "Empty (Value [])" by (simp add: Empty_def)
  obtain a where a: "NewAuthorizer keylib0 (auth_of host0 password_config) FileMissing ?rnd = Inr a"
    "GeneratedPassword a = Some ?pw"
    using au e tr random_zeros by (auto simp: NewAuthorizer_def auth_of_def read_file_keys_def Let_def GeneratedPassword_def)
  have N: "\<exists>srv f'. New_server keylib0 hostlib0 (server_config_of host0 password_config) True FileMissing ?rnd no_key_file
    = (Inr srv, f') \<and> svr_auth srv = a"
    using a(1) by (simp add: New_server_def server_config_of_def LoadOrCreateHostKey_def create_host_key_def
        hostlib0_def no_key_file_def)
  then obtain srv f' where N: "New_server keylib0 hostlib0 (server_config_of host0 password_config) True FileMissing ?rnd no_key_file
    = (Inr srv, f')" "svr_auth srv = a" by blast
  have B: "BuildProvider yaml0 one_provider (\<lambda>p. None) password_config (Some NewRedactor) 0 =
    (Inr (running_prov None), Some NewRedactor, 0)"
    by (simp add: BuildProvider_def au Lookup_def New_provider_def one_provider_def Let_def)
  obtain g where g: "gateway_New yaml0 host0 keylib0 hostlib0 one_provider (\<lambda>p. None) (\<lambda>P w. w + 1) password_config
      FileMissing ?rnd (Some NewRedactor) no_key_file 0 =
      (Inr (running_prov None, g, srv), gw_redact g, f', 0)" "gw_redact g = Add (Some NewRedactor) [?pw]"
    by (simp add: gateway_New_def B N a(2) Let_def)
  have r: "gw_redact g = Some (add_secret NewRedactor ?pw)" by (simp add: g(2) Add_def)
  have h: "hideable (add_secret NewRedactor ?pw)"
    using redactor_ok_add_secret [OF redactor_ok_New] by (auto simp: hideable_def set_secrets_add NewRedactor_def)
  show ?thesis
    using gateway_new_sound [OF g(1) r h] g(1) N(2) a(2) by auto
qed

end
