(* ===== verification/CliFlags.thy ===== *)
theory CliFlags
  imports CliPrompt SshServer ConfigTree GatewayControl
begin

text \<open>
  The command line: Go's flag sets, the flags every command takes, what a command sees of
  its surroundings, and how its outcome becomes an exit code (\<open>cli/cli.go\<close>).
\<close>

section \<open>Flag sets (Go standard library)\<close>

text \<open>
  A flag stores its value in a state \<open>'s\<close>; an error of \<open>Set\<close> is its text. The parser follows
  \<open>FlagSet.parseOne\<close>: it stops at the first argument that is not a flag, or after \<open>--\<close>.
\<close>

record 's flag =
  fl_bool :: bool
  fl_set :: "string \<Rightarrow> 's \<Rightarrow> string option \<times> 's"

datatype flag_failure = AskedHelp | BadFlags string

definition flag_name :: "string \<Rightarrow> string" where
  "flag_name s = (if s ! 1 = CHR ''-'' then drop 2 s else drop 1 s)"

definition split_value :: "string \<Rightarrow> string \<times> string option" where
  "split_value name =
    (case str_index (tl name) ''='' of
       None \<Rightarrow> (name, None) | Some i \<Rightarrow> (take (i + 1) name, Some (drop (i + 2) name)))"

definition bad_value :: "string \<Rightarrow> string \<Rightarrow> string \<Rightarrow> flag_failure" where
  "bad_value v name e = BadFlags (''invalid value '' @ quote v @ '' for flag -'' @ name @ '': '' @ e)"

fun parse_flags ::
  "(string \<Rightarrow> 's flag option) \<Rightarrow> string list \<Rightarrow> 's \<Rightarrow> (flag_failure + string list) \<times> 's" where
  "parse_flags F [] st = (Inr [], st)"
| "parse_flags F (s # args) st =
    (if length s < 2 \<or> hd s \<noteq> CHR ''-'' then (Inr (s # args), st)
     else if s = ''--'' then (Inr args, st)
     else
       (let name0 = flag_name s
        in if name0 = [] \<or> hd name0 = CHR ''-'' \<or> hd name0 = CHR ''='' then
             (Inl (BadFlags (''bad flag syntax: '' @ s)), st)
           else
             (case split_value name0 of
                (name, value) \<Rightarrow>
                  (case F name of
                     None \<Rightarrow>
                       if name = ''help'' \<or> name = ''h'' then (Inl AskedHelp, st)
                       else (Inl (BadFlags (''flag provided but not defined: -'' @ name)), st)
                   | Some f \<Rightarrow>
                       if fl_bool f then
                         (case fl_set f (case value of Some v \<Rightarrow> v | None \<Rightarrow> ''true'') st of
                            (Some e, st1) \<Rightarrow>
                              (Inl (BadFlags (case value of
                                 Some v \<Rightarrow> ''invalid boolean value '' @ quote v @ '' for -'' @ name @ '': '' @ e
                               | None \<Rightarrow> ''invalid boolean flag '' @ name @ '': '' @ e)), st1)
                          | (None, st1) \<Rightarrow> parse_flags F args st1)
                       else
                         (case value of
                            Some v \<Rightarrow>
                              (case fl_set f v st of
                                 (Some e, st1) \<Rightarrow> (Inl (bad_value v name e), st1)
                               | (None, st1) \<Rightarrow> parse_flags F args st1)
                          | None \<Rightarrow>
                              (case args of
                                 [] \<Rightarrow> (Inl (BadFlags (''flag needs an argument: -'' @ name)), st)
                               | v # rest \<Rightarrow>
                                   (case fl_set f v st of
                                      (Some e, st1) \<Rightarrow> (Inl (bad_value v name e), st1)
                                    | (None, st1) \<Rightarrow> parse_flags F rest st1)))))))"

text \<open>\<open>strconv.ParseBool\<close>.\<close>

definition ParseBool :: "string \<Rightarrow> bool option" where
  "ParseBool s =
    (if s \<in> {''1'', ''t'', ''T'', ''TRUE'', ''true'', ''True''} then Some True
     else if s \<in> {''0'', ''f'', ''F'', ''FALSE'', ''false'', ''False''} then Some False
     else None)"

definition bool_flag :: "(bool \<Rightarrow> 's \<Rightarrow> 's) \<Rightarrow> 's flag" where
  "bool_flag upd = \<lparr>fl_bool = True, fl_set = (\<lambda>v st.
     case ParseBool v of Some b \<Rightarrow> (None, upd b st) | None \<Rightarrow> (Some ''parse error'', upd False st))\<rparr>"

definition string_flag :: "(string \<Rightarrow> 's \<Rightarrow> 's) \<Rightarrow> 's flag" where
  "string_flag upd = \<lparr>fl_bool = False, fl_set = (\<lambda>v st. (None, upd v st))\<rparr>"

section \<open>Global flags\<close>

record app =
  ap_configPath :: string
  ap_logLevel :: string
  ap_jsonOut :: bool

text \<open>
  \<open>flagSet\<close>: the global flags, whose defaults are the values they have, beside the flags of the
  command; \<open>'x\<close> holds the latter.
\<close>

type_synonym 'x flags = "string \<Rightarrow> (app \<times> 'x) flag option"

definition own :: "(('x \<Rightarrow> 'x) \<Rightarrow> app \<times> 'x \<Rightarrow> app \<times> 'x)" where
  "own f = (\<lambda>(a, x). (a, f x))"

definition flagSet :: "(string \<times> (app \<times> 'x) flag) list \<Rightarrow> 'x flags" where
  "flagSet extra name =
    (if name = ''config'' then Some (string_flag (\<lambda>v (a, x). (a\<lparr>ap_configPath := v\<rparr>, x)))
     else if name = ''log-level'' then Some (string_flag (\<lambda>v (a, x). (a\<lparr>ap_logLevel := v\<rparr>, x)))
     else if name = ''json'' then Some (bool_flag (\<lambda>b (a, x). (a\<lparr>ap_jsonOut := b\<rparr>, x)))
     else map_of extra name)"

end
