(* ===== verification/CliApp.thy ===== *)
theory CliApp
  imports CliFlags CliSshConfig GithubDiagnose
begin

text \<open>
  What the commands share: the surroundings and the state of one invocation, printing, the
  configuration and its warnings, the logger, tables, and the exit code (\<open>cli/cli.go\<close>), with
  the file operations of \<open>core/config\<close> they use.
\<close>

section \<open>Surroundings and state\<close>

text \<open>A provider with the optional interfaces that commands ask for.\<close>

record 'w cli_provider =
  cp_prov :: "'w prov"
  cp_close :: "'w \<Rightarrow> 'w"
  cp_info :: "(string, string) gomap option"
  cp_machines :: "(ctx \<Rightarrow> string \<Rightarrow> 'w \<Rightarrow> (goerr + machine_type list) \<times> 'w) option"
  cp_sources :: "(ctx \<Rightarrow> int \<Rightarrow> 'w \<Rightarrow> (goerr + (string \<times> string) list) \<times> 'w) option"
  cp_forget :: "(string \<Rightarrow> 'w \<Rightarrow> (goerr + nat) \<times> 'w) option"
  cp_diagnose :: "(ctx \<Rightarrow> 'w \<Rightarrow> diagnostic list \<times> 'w) option"

text \<open>
  What an invocation does not change: the user's environment, the YAML library, permission bits,
  faults of the file system, the terminal, the compiled-in providers, the clock and how times and
  sizes are printed, sockets, processes and the control socket of a gateway that may be
  running. \<open>ce_encode\<close> and \<open>ce_decode\<close> are the JSON text of a status. \<open>ce_serve\<close> is a serving that
  has come to its end (by a signal, a stop request or an error): a gateway that is not told to stop serves on, and
  nothing here says that it ends.
\<close>

datatype append_fault = AppendOk | AppendOpen goerr | AppendWrite nat goerr

record ('n, 'k, 'w) cli_env =
  ce_host :: host_env
  ce_yaml :: "'n yaml"
  ce_parse :: "string \<Rightarrow> goerr + node"
  ce_print :: "node \<Rightarrow> goerr + string"
  ce_mode :: "string \<Rightarrow> nat option"
  ce_unreadable :: "string \<Rightarrow> goerr option"
  ce_mkdir :: "string \<Rightarrow> nat \<Rightarrow> goerr option"
  ce_chmod :: "string \<Rightarrow> nat \<Rightarrow> goerr option"
  ce_stat :: "string \<Rightarrow> goerr option"
  ce_append :: "string \<Rightarrow> append_fault"
  ce_overwrite :: "string \<Rightarrow> (nat \<times> goerr) option"
  ce_glob :: "string \<Rightarrow> goerr + string list"
  ce_tmp :: string
  ce_hostname :: "goerr + string"
  ce_interactive :: bool
  ce_chardevice :: bool
  ce_quiet :: bool
  ce_logfile :: "string \<Rightarrow> goerr option"
  ce_defaults :: "string \<Rightarrow> string"
  ce_now :: "'w \<Rightarrow> int"
  ce_keys :: "'k keylib"
  ce_keytype :: "'k \<Rightarrow> string"
  ce_hostlib :: "'k hostlib"
  ce_random :: "goerr + string"
  ce_registry :: "('n, 'w cli_provider, 'w) factory registry"
  ce_jsontime :: "int \<Rightarrow> string"
  ce_showtime :: "int \<Rightarrow> string"
  ce_gigabytes :: "64 word \<Rightarrow> string"
  ce_listen :: "string \<Rightarrow> goerr option"
  ce_keyfault :: key_file
  ce_encode :: "gateway_status \<Rightarrow> string"
  ce_decode :: "string \<Rightarrow> goerr + gateway_status"
  ce_process :: "int \<Rightarrow> goerr option"
  ce_sigterm :: "int \<Rightarrow> 'w \<Rightarrow> goerr option \<times> 'w"
  ce_os :: "'w os_ops"
  ce_bind :: "string \<Rightarrow> 'w \<Rightarrow> (goerr + string) \<times> 'w"
  ce_serve :: "'w \<Rightarrow> goerr option \<times> 'w"
  ce_pid :: nat
  ce_alive :: "string \<Rightarrow> 'w \<Rightarrow> bool"
  ce_socket :: "string \<Rightarrow> 'w control_socket"

record 'w cli =
  cl_app :: app
  cl_tm :: terminal
  cl_red :: "redactor option"
  cl_dir :: dir_state
  cl_world :: 'w

datatype cmd_error = FlagHelp | CmdError goerr

type_synonym 'w outcome_cmd = "cmd_error option \<times> 'w cli"

definition out :: "string \<Rightarrow> 'w cli \<Rightarrow> 'w cli" where
  "out s c = c\<lparr>cl_tm := print s (cl_tm c)\<rparr>"

definition outln :: "string \<Rightarrow> 'w cli \<Rightarrow> 'w cli" where
  "outln s = out (s @ [newline])"

definition warn :: "string \<Rightarrow> 'w cli \<Rightarrow> 'w cli" where
  "warn s c = c\<lparr>cl_tm := print_err s (cl_tm c)\<rparr>"

definition warnln :: "string \<Rightarrow> 'w cli \<Rightarrow> 'w cli" where
  "warnln s = warn (s @ [newline])"

definition ok_cmd :: "'w cli \<Rightarrow> 'w outcome_cmd" where
  "ok_cmd c = (None, c)"

definition fail_cmd :: "goerr \<Rightarrow> 'w cli \<Rightarrow> 'w outcome_cmd" where
  "fail_cmd e c = (Some (CmdError e), c)"

definition usage_error :: "string \<Rightarrow> 'w cli \<Rightarrow> 'w outcome_cmd" where
  "usage_error s = fail_cmd (Errorf s)"

text \<open>The message a failed command ends with; asking for help is no failure.\<close>

definition cmd_exit :: "'w outcome_cmd \<Rightarrow> nat \<times> 'w cli" where
  "cmd_exit r =
    (case r of
       (None, c) \<Rightarrow> (0, c)
     | (Some FlagHelp, c) \<Rightarrow> (0, c)
     | (Some (CmdError e), c) \<Rightarrow>
         (let c1 = warnln (''gateway: '' @ Redact (cl_red c) (err_text e)) c
          in (1, if errors_Is e ErrNoConfig
                 then warnln (newline # ''Run `gateway setup` (interactive) or `gateway config init`.'') c1 else c1)))"

section \<open>Flags of a command\<close>

text \<open>
  \<open>flagSet\<close> and \<open>Parse\<close>: a failure is printed with the usage before it is returned.
\<close>

definition parse_cmd ::
  "('n, 'k, 'w) cli_env \<Rightarrow> string \<Rightarrow> (string \<times> (app \<times> 'x) flag) list \<Rightarrow> 'x \<Rightarrow> string list \<Rightarrow> 'w cli \<Rightarrow>
   (cmd_error + string list \<times> 'x) \<times> 'w cli" where
  "parse_cmd E name extra x args c =
    (case parse_flags (flagSet extra) args (cl_app c, x) of
       (Inr rest, (a, x1)) \<Rightarrow> (Inr (rest, x1), c\<lparr>cl_app := a\<rparr>)
     | (Inl failure, (a, x1)) \<Rightarrow>
         (let c1 = c\<lparr>cl_app := a\<rparr>; usage = ''Usage of '' @ name @ '':'' @ [newline] @ ce_defaults E name
          in (case failure of
                AskedHelp \<Rightarrow> (Inl FlagHelp, warn usage c1)
              | BadFlags msg \<Rightarrow> (Inl (CmdError (Errorf msg)), warn usage (warnln msg c1)))))"

definition with_flags ::
  "('n, 'k, 'w) cli_env \<Rightarrow> string \<Rightarrow> (string \<times> (app \<times> 'x) flag) list \<Rightarrow> 'x \<Rightarrow> string list \<Rightarrow>
   (string list \<Rightarrow> 'x \<Rightarrow> 'w cli \<Rightarrow> 'w outcome_cmd) \<Rightarrow> 'w cli \<Rightarrow> 'w outcome_cmd" where
  "with_flags E name extra x args k c =
    (case parse_cmd E name extra x args c of
       (Inl e, c1) \<Rightarrow> (Some e, c1)
     | (Inr (rest, x1), c1) \<Rightarrow> k rest x1 c1)"

section \<open>Files\<close>

definition read_file :: "('n, 'k, 'w) cli_env \<Rightarrow> 'w cli \<Rightarrow> string \<Rightarrow> file_read" where
  "read_file E c path =
    (case ce_unreadable E path of
       Some e \<Rightarrow> FileError e
     | None \<Rightarrow> (case ds_files (cl_dir c) path of None \<Rightarrow> FileMissing | Some raw \<Rightarrow> FileContent raw))"

text \<open>\<open>os.Stat\<close>: whether the file is there; it need not be readable.\<close>

definition stat_file :: "('n, 'k, 'w) cli_env \<Rightarrow> 'w cli \<Rightarrow> string \<Rightarrow> file_read" where
  "stat_file E c path =
    (case ce_stat E path of
       Some e \<Rightarrow> FileError e
     | None \<Rightarrow> (case ds_files (cl_dir c) path of None \<Rightarrow> FileMissing | Some raw \<Rightarrow> FileContent []))"

definition file_exists :: "('n, 'k, 'w) cli_env \<Rightarrow> 'w cli \<Rightarrow> string \<Rightarrow> bool" where
  "file_exists E c path = (case stat_file E c path of FileContent _ \<Rightarrow> True | _ \<Rightarrow> False)"

definition EnsureDir ::
  "(string \<Rightarrow> nat \<Rightarrow> goerr option) \<Rightarrow> (string \<Rightarrow> nat \<Rightarrow> goerr option) \<Rightarrow> string \<Rightarrow> nat \<Rightarrow> goerr option" where
  "EnsureDir mkdir chmod dir mode =
    (if dir = [] then Some (Errorf ''empty directory path'')
     else (case mkdir dir mode of
             Some e \<Rightarrow> Some e
           | None \<Rightarrow> if mode mod 64 = 0 then chmod dir mode else None))"

definition private_dir :: "('n, 'k, 'w) cli_env \<Rightarrow> string \<Rightarrow> goerr option" where
  "private_dir E dir = EnsureDir (ce_mkdir E) (ce_chmod E) dir 448"

definition WriteFile :: "('n, 'k, 'w) cli_env \<Rightarrow> string \<Rightarrow> string \<Rightarrow> 'w cli \<Rightarrow> goerr option \<times> 'w cli" where
  "WriteFile E path content c =
    (case private_dir E (path_Dir path) of
       Some e \<Rightarrow> (Some e, c)
     | None \<Rightarrow> (case writeAtomic (ce_tmp E) path content (cl_dir c) of (r, d) \<Rightarrow> (r, c\<lparr>cl_dir := d\<rparr>)))"

definition patch_config ::
  "('n, 'k, 'w) cli_env \<Rightarrow> string \<Rightarrow> string list \<Rightarrow> string \<Rightarrow> 'w cli \<Rightarrow> goerr option \<times> 'w cli" where
  "patch_config E path keys v c =
    (case Patch (ce_parse E) (ce_print E) (ce_tmp E) path keys v (cl_dir c) of (r, d) \<Rightarrow> (r, c\<lparr>cl_dir := d\<rparr>))"

section \<open>Configuration and logger\<close>

definition configPathOrDefault :: "('n, 'k, 'w) cli_env \<Rightarrow> 'w cli \<Rightarrow> string" where
  "configPathOrDefault E c =
    (if ap_configPath (cl_app c) \<noteq> [] then ExpandPath (ce_host E) (ap_configPath (cl_app c))
     else DefaultConfigPath (ce_host E))"

definition config_Load :: "('n, 'k, 'w) cli_env \<Rightarrow> string \<Rightarrow> 'w cli \<Rightarrow> goerr + 'n config" where
  "config_Load E path c = Load_config (ce_yaml E) (ce_host E) path (read_file E c) (ce_mode E)"

definition providerForConfigKey :: "string \<Rightarrow> 'f registry \<Rightarrow> 'f registration option" where
  "providerForConfigKey key reg = find (\<lambda>r. reg_ConfigKey r = key) (Registrations reg)"

definition warnUnknownSections :: "('n, 'k, 'w) cli_env \<Rightarrow> 'n config \<Rightarrow> 'w cli \<Rightarrow> 'w cli" where
  "warnUnknownSections E cfg c =
    fold (\<lambda>key c. if providerForConfigKey key (ce_registry E) = None
       then warnln (''gateway: warning: config section '' @ quote key @ '' does not belong to any compiled-in provider'') c
       else c) (gokeys (cf_sections cfg)) c"

definition loadConfig :: "('n, 'k, 'w) cli_env \<Rightarrow> 'w cli \<Rightarrow> (goerr + 'n config) \<times> 'w cli" where
  "loadConfig E c =
    (case config_Load E (ap_configPath (cl_app c)) c of
       Inl e \<Rightarrow> (Inl e, c)
     | Inr cfg \<Rightarrow>
        (let cfg1 = (if ap_logLevel (cl_app c) \<noteq> []
               then cfg\<lparr>cf_Log := (cf_Log cfg)\<lparr>lg_Level := ap_logLevel (cl_app c)\<rparr>\<rparr> else cfg);
             c1 = fold (\<lambda>w. warnln (''gateway: warning: '' @ w)) (cf_warnings cfg1) c
         in (Inr cfg1, warnUnknownSections E cfg1 c1)))"

definition with_config ::
  "('n, 'k, 'w) cli_env \<Rightarrow> ('n config \<Rightarrow> 'w cli \<Rightarrow> 'w outcome_cmd) \<Rightarrow> 'w cli \<Rightarrow> 'w outcome_cmd" where
  "with_config E k c = (case loadConfig E c of (Inl e, c1) \<Rightarrow> fail_cmd e c1 | (Inr cfg, c1) \<Rightarrow> k cfg c1)"

text \<open>\<open>logging.New\<close>: the file is opened before the level and the format are looked at.\<close>

definition logging_New :: "(string \<Rightarrow> goerr option) \<Rightarrow> string \<Rightarrow> string \<Rightarrow> string \<Rightarrow> goerr option" where
  "logging_New opens level format file =
    (case (if file \<noteq> [] then opens file else None) of
       Some e \<Rightarrow> Some (Wrapf ''open log file: '' e [])
     | None \<Rightarrow>
        (case ParseLevel level of
           Inl e \<Rightarrow> Some e
         | Inr _ \<Rightarrow>
             if ToLower (TrimSpace format) \<in> {[], ''text'', ''json''} then None
             else Some (Errorf (''unknown log format '' @ quote format @ '' (want text or json)''))))"

definition app_logger :: "('n, 'k, 'w) cli_env \<Rightarrow> 'n config \<Rightarrow> bool \<Rightarrow> 'w cli \<Rightarrow> goerr option" where
  "app_logger E cfg quiet c =
    (let l = cf_Log cfg; q = quiet \<and> ap_logLevel (cl_app c) = []
     in logging_New (ce_logfile E) (if q then ''warn'' else lg_Level l) (lg_Format l) (if q then [] else lg_File l))"

definition fieldOrDash :: "string \<Rightarrow> string" where
  "fieldOrDash s = (if TrimSpace s = [] then ''-'' else s)"

definition onOff :: "bool \<Rightarrow> string" where
  "onOff b = (if b then ''on'' else ''off'')"

definition sortedKeys :: "(string, string) gomap \<Rightarrow> string list" where
  "sortedKeys m = sort (gokeys m)"

definition app_writeJSON :: "json \<Rightarrow> 'w cli \<Rightarrow> 'w cli" where
  "app_writeJSON v = outln (json_indent v)"

section \<open>Tables (text/tabwriter)\<close>

text \<open>
  A table is the list of its lines, a line the list of its cells; all but the last cell of a
  line end with a tab. As the commands use it, a column is as wide as its widest cell in the
  lines around that have the column, and two blanks more. Widths are counted in runes.
\<close>

fun rune_count :: "nat \<Rightarrow> string \<Rightarrow> nat" where
  "rune_count 0 s = 0"
| "rune_count (Suc n) s = (if s = [] then 0 else 1 + rune_count n (drop (max 1 (rune_len s)) s))"

definition text_width :: "string \<Rightarrow> nat" where
  "text_width s = rune_count (length s) s"

text \<open>The column \<open>j\<close> of the lines from the first on that have it.\<close>

definition column_width :: "nat \<Rightarrow> string list list \<Rightarrow> nat" where
  "column_width j ls = foldr max (map (\<lambda>l. text_width (l ! j)) (takeWhile (\<lambda>l. Suc j < length l) ls)) 0"

definition line_text :: "string list list \<Rightarrow> string list \<Rightarrow> string list list \<Rightarrow> string" where
  "line_text before l below =
    concat (map (\<lambda>j. if Suc j < length l
        then l ! j @ replicate (max (column_width j (l # below)) (column_width j before) + 2 - text_width (l ! j)) (CHR '' '')
        else l ! j) [0..<length l]) @ [newline]"

fun table_lines :: "string list list \<Rightarrow> string list list \<Rightarrow> string" where
  "table_lines before [] = []"
| "table_lines before (l # ls) = line_text before l ls @ table_lines (l # before) ls"

definition out_table :: "string list list \<Rightarrow> 'w cli \<Rightarrow> 'w cli" where
  "out_table ls = out (table_lines [] ls)"

end
