(* ===== verification/CliConfig.thy ===== *)
theory CliConfig
  imports CliApp
begin

text \<open>
  \<open>gateway config ...\<close> (\<open>cli/config_cmd.go\<close>) with the starter file (\<open>core/config/write.go\<close>).
\<close>

section \<open>The starter file\<close>

definition template_head :: string where
  "template_head = ''# ssh-gateway '' @ utf8 [0x914D, 0x7F6E, 0x6587, 0x4EF6, 0x3002, 0x53EF, 0x80FD, 0x5305, 0x542B] @
     '' token'' @ utf8 [0xFF0C, 0x8BF7, 0x4FDD, 0x6301] @ '' 0600 '' @ utf8 [0x6743, 0x9650, 0x3002] @
     [newline] @ ''# '' @ utf8 [0x6700, 0x5C11, 0x53EA, 0x9700, 0x8981, 0x586B, 0x4E00, 0x4E2A] @ '' token'' @
     utf8 [0xFF0C, 0x7136, 0x540E] @ '' `gateway start` '' @ utf8 [0x5C31, 0x80FD, 0x7528] @
     '' ssh root@codespace '' @ utf8 [0x8FDE, 0x63A5, 0x3002] @ [newline] @ [newline] @ ''provider: ''"

definition template_token :: string where
  "template_token = ''github:'' @ [newline] @ ''  # GitHub token'' @ utf8 [0xFF0C, 0x9700, 0x8981] @ '' codespace '' @
     utf8 [0x6743, 0x9650, 0x3002] @ [newline] @ ''  # '' @
     utf8 [0x7559, 0x7A7A, 0x5219, 0x4F9D, 0x6B21, 0x5C1D, 0x8BD5] @ '' $GITHUB_TOKEN'' @ utf8 [0x3001] @
     ''$GH_TOKEN'' @ utf8 [0x3001] @ ''gh auth token'' @ utf8 [0x3002] @ [newline] @ ''  token: ''"

definition template_codespace :: string where
  "template_codespace = [newline] @ ''  # '' @ utf8 [0x8981, 0x8FDE, 0x63A5, 0x7684] @ '' codespace'' @
     utf8 [0xFF08, 0x540D, 0x5B57, 0x6216, 0x663E, 0x793A, 0x540D, 0x90FD, 0x884C, 0xFF09, 0x3002] @
     [newline] @ ''  # '' @ utf8 [0x7559, 0x7A7A] @ '' = '' @
     utf8 [0x81EA, 0x52A8, 0x4F7F, 0x7528, 0x4F60, 0x8D26, 0x53F7, 0x4E0B, 0x552F, 0x4E00] @
     utf8 [0x7684, 0x90A3, 0x4E2A] @ '' codespace'' @ utf8 [0x3002] @ [newline] @ ''  codespace: ''"

definition template_create :: string where
  "template_create = [newline] @ [newline] @ ''  # codespace '' @
     utf8 [0x4E0D, 0x5B58, 0x5728, 0x65F6, 0x81EA, 0x52A8, 0x521B, 0x5EFA, 0x3002] @ ''gateway '' @
     utf8 [0x4F1A, 0x8BB0, 0x4F4F, 0x4F60, 0x8FDE, 0x8FC7, 0x7684] @ '' codespace '' @
     utf8 [0x662F, 0x4ECE, 0x54EA, 0x4E2A, 0x4ED3, 0x5E93, 0x6765, 0x7684, 0xFF0C] @ [newline] @ ''  # '' @
     utf8 [0x6240, 0x4EE5, 0x5220, 0x6389, 0x518D, 0x8FDE, 0x901A, 0x5E38, 0x4E0D, 0x7528] @
     utf8 [0x586B, 0x8FD9, 0x91CC, 0xFF1B, 0x60F3, 0x6307, 0x5B9A, 0x89C4, 0x683C] @ ''/'' @
     utf8 [0x5730, 0x533A, 0x5C31, 0x53D6, 0x6D88, 0x6CE8, 0x91CA, 0xFF1A] @ [newline] @ ''  create:'' @
     [newline] @ ''    repository: '' @ [CHR 0x22] @ [CHR 0x22] @ ''            # owner/name'' @
     utf8 [0xFF0C, 0x4E0D, 0x586B, 0x5C31, 0x7528, 0x8BB0, 0x4F4F, 0x7684, 0x90A3, 0x4E2A] @ [newline] @
     ''    branch: '' @ [CHR 0x22] @ [CHR 0x22] @ ''                # '' @
     utf8 [0x9ED8, 0x8BA4, 0x7528, 0x4ED3, 0x5E93, 0x9ED8, 0x8BA4, 0x5206, 0x652F] @ [newline] @
     ''    machine: '' @ [CHR 0x22] @ [CHR 0x22] @ ''               # '' @
     utf8 [0x89C4, 0x683C, 0xFF0C, 0x7528] @ '' `gateway codespace machines` '' @
     utf8 [0x67E5, 0x53EF, 0x9009, 0x503C] @ [newline] @
     ''                              #   basicLinux32gb   = 2 core / 8 GB'' @ [newline] @
     ''                              #   standardLinux32gb = 4 core / 16 GB'' @ [newline] @
     ''                              #   premiumLinux     = 8 core / 32 GB'' @ [newline] @ ''    location: '' @
     [CHR 0x22] @ [CHR 0x22] @ ''              # '' @ utf8 [0x5730, 0x533A, 0xFF0C, 0x5982] @
     '' WestUs2 / EastUs / WestEurope / SouthEastAsia'' @ [newline] @
     ''    idle_timeout_minutes: 30  # GitHub '' @
     utf8 [0x81EA, 0x5DF1, 0x7684, 0x7A7A, 0x95F2, 0x505C, 0x673A, 0x65F6, 0x95F4, 0xFF08] @ ''5-240'' @
     utf8 [0xFF09] @ [newline] @ ''    retention_period_minutes: 0'' @ [newline] @ [newline]"

definition template_ssh :: string where
  "template_ssh = ''ssh:'' @ [newline] @ ''  # '' @
     utf8 [0x53EA, 0x76D1, 0x542C, 0x672C, 0x673A, 0xFF1A, 0x672C, 0x673A, 0x8FDE, 0x63A5] @
     utf8 [0x4E0D, 0x9700, 0x8981, 0x4EFB, 0x4F55, 0x5BC6, 0x94A5, 0x6216, 0x5BC6, 0x7801] @ utf8 [0x3002] @
     [newline] @ ''  # '' @
     utf8 [0x60F3, 0x8BA9, 0x522B, 0x7684, 0x673A, 0x5668, 0x8FDE, 0x8FDB, 0x6765, 0xFF0C] @
     utf8 [0x5C31, 0x6539, 0x6210] @ '' '' @ [CHR 0x22] @ '':2222'' @ [CHR 0x22] @ '' '' @
     utf8 [0x5E76, 0x914D, 0x7F6E] @ '' authorized_keys '' @ utf8 [0x6216] @ '' ssh.password_auth'' @
     utf8 [0x3002] @ [newline] @ ''  listen: ''"

definition template_rest :: string where
  "template_rest = [newline] @ [newline] @ ''# '' @
     utf8 [0x5176, 0x4ED6, 0x53EF, 0x9009, 0x9879, 0xFF08, 0x8FDE, 0x63A5, 0x540E, 0x7AEF] @
     utf8 [0x3001, 0x81EA, 0x52A8, 0x521B, 0x5EFA] @ '' codespace'' @ utf8 [0x3001, 0x516C, 0x94A5] @ ''/'' @
     utf8 [0x5BC6, 0x7801, 0x8BA4, 0x8BC1, 0x3001, 0x8D85, 0x65F6, 0x3001, 0x65E5, 0x5FD7, 0xFF09] @
     [newline] @ ''# '' @
     utf8 [0x90FD, 0x6709, 0x5408, 0x7406, 0x9ED8, 0x8BA4, 0x503C, 0xFF0C, 0x9700, 0x8981] @
     utf8 [0x65F6, 0x53C2, 0x8003] @ '' README'' @ utf8 [0x3002] @ [newline]"

definition Template :: "string \<Rightarrow> string \<Rightarrow> string \<Rightarrow> string \<Rightarrow> string" where
  "Template provider0 token environment listen0 =
    (let provider = (if provider0 = [] then ''github'' else provider0);
         listen = (if listen0 = [] then ''127.0.0.1:2222'' else listen0)
     in template_head @ provider @ [newline, newline] @
        (if provider = ''github''
         then template_token @ quote token @ template_codespace @ quote environment @ template_create else []) @
        template_ssh @ quote listen @ template_rest)"

section \<open>Reading a secret\<close>

definition readSecretStdin :: "('n, 'k, 'w) cli_env \<Rightarrow> 'w cli \<Rightarrow> (goerr + secret_value) \<times> 'w cli" where
  "readSecretStdin E c =
    (let c1 = (if ce_chardevice E
           then warnln ''paste the token and press Enter (or pipe it in: echo $TOKEN | gateway config set-token):''
             (warnln ''reading token from the terminal; it will be visible as you type.'' c)
           else c);
         t = tm_in (cl_tm c1)
     in if t = [] then (Inl (Wrapf ''read token from stdin: '' (Ext ''EOF'' None) []), c1)
        else (Inr (secret_New (case str_index t [newline] of Some i \<Rightarrow> take (i + 1) t | None \<Rightarrow> t)), c1))"

section \<open>The key file\<close>

text \<open>
  \<open>appendLine\<close>: what is there is not looked at; when its last line is not ended, the new line
  continues it.
\<close>

definition append_text :: "('n, 'k, 'w) cli_env \<Rightarrow> string \<Rightarrow> string \<Rightarrow> 'w cli \<Rightarrow> goerr option \<times> 'w cli" where
  "append_text E path s c =
    (let d = cl_dir c; old = (case ds_files d path of None \<Rightarrow> [] | Some raw \<Rightarrow> raw);
         put = (\<lambda>x. c\<lparr>cl_dir := d\<lparr>ds_files := (ds_files d)(path := Some (old @ x))\<rparr>\<rparr>)
     in (case ce_append E path of
           AppendOpen e \<Rightarrow> (Some e, c)
         | AppendWrite n e \<Rightarrow> (Some e, put (take n s))
         | AppendOk \<Rightarrow> (None, put s)))"

definition appendLine :: "('n, 'k, 'w) cli_env \<Rightarrow> string \<Rightarrow> string \<Rightarrow> 'w cli \<Rightarrow> goerr option \<times> 'w cli" where
  "appendLine E path line c =
    (case private_dir E (path_Dir path) of
       Some e \<Rightarrow> (Some e, c)
     | None \<Rightarrow> append_text E path (TrimSpace line @ [newline]) c)"

text \<open>The user's own public keys: the files that can be read and hold a key.\<close>

definition local_key_lines :: "('n, 'k, 'w) cli_env \<Rightarrow> 'w cli \<Rightarrow> string list \<Rightarrow> string list" where
  "local_key_lines E c entries =
    List.map_filter (\<lambda>p. case read_file E c p of
       FileContent raw \<Rightarrow> (case kl_parse (ce_keys E) raw of Inl _ \<Rightarrow> None | Inr _ \<Rightarrow> Some (TrimSpace raw))
     | _ \<Rightarrow> None) entries"

definition import_comment :: string where
  "import_comment = ''# imported from ~/.ssh by `gateway config init`'' @ [newline]"

definition importLocalPublicKeys ::
  "('n, 'k, 'w) cli_env \<Rightarrow> string \<Rightarrow> 'w cli \<Rightarrow> (nat \<times> string \<times> goerr option) \<times> 'w cli" where
  "importLocalPublicKeys E configDir c =
    (let dest = path_Join [configDir, ''authorized_keys'']
     in if file_exists E c dest then ((0, dest, None), c)
        else
            (case he_home (ce_host E) of
               Inl e \<Rightarrow> ((0, dest, Some e), c)
             | Inr home \<Rightarrow>
                (case ce_glob E (path_Join [home, ''.ssh'', ''*.pub'']) of
                   Inl _ \<Rightarrow> ((0, dest, None), c)
                 | Inr entries \<Rightarrow>
                    (let lines = local_key_lines E c entries
                     in if lines = [] then ((0, dest, None), c)
                        else
                          (case WriteFile E dest (import_comment @ Join lines [newline] @ [newline]) c of
                             (Some e, c1) \<Rightarrow> ((0, dest, Some e), c1)
                           | (None, c1) \<Rightarrow> ((length lines, dest, None), c1))))))"

section \<open>config init\<close>

record init_flags =
  if_tokenStdin :: bool
  if_environment :: string
  if_listen :: string
  if_provider :: string
  if_force :: bool

definition init_flagset :: "(string \<times> (app \<times> init_flags) flag) list" where
  "init_flagset =
    [(''token-stdin'', bool_flag (\<lambda>b. own (\<lambda>x. x\<lparr>if_tokenStdin := b\<rparr>))),
     (''codespace'', string_flag (\<lambda>v. own (\<lambda>x. x\<lparr>if_environment := v\<rparr>))),
     (''listen'', string_flag (\<lambda>v. own (\<lambda>x. x\<lparr>if_listen := v\<rparr>))),
     (''provider'', string_flag (\<lambda>v. own (\<lambda>x. x\<lparr>if_provider := v\<rparr>))),
     (''force'', bool_flag (\<lambda>b. own (\<lambda>x. x\<lparr>if_force := b\<rparr>)))]"

definition init_default :: init_flags where
  "init_default = \<lparr>if_tokenStdin = False, if_environment = [], if_listen = ''127.0.0.1:2222'',
     if_provider = ''github'', if_force = False\<rparr>"

definition init_hints :: "string \<Rightarrow> nat \<Rightarrow> 'w cli \<Rightarrow> 'w cli" where
  "init_hints token imported c =
    (let c1 = outln (newline # ''Next steps:'') c;
         c2 = (if token = []
           then outln ''  1. store a token:   gateway config set-token   (or run `gh auth login`)'' c1 else c1);
         c3 = (if imported = 0
           then outln ''  2. authorize a key: gateway config authorized-key add ~/.ssh/id_ed25519.pub'' c2 else c2)
     in outln ''  5. run:             gateway start''
          (outln ''  4. verify:          gateway doctor''
            (outln ''  3. pick a target:   gateway codespace list && gateway codespace select <name>'' c3)))"

definition init_write :: "('n, 'k, 'w) cli_env \<Rightarrow> string \<Rightarrow> string \<Rightarrow> init_flags \<Rightarrow> 'w cli \<Rightarrow> 'w outcome_cmd" where
  "init_write E path token x c =
    (case WriteFile E path (Template (if_provider x) token (if_environment x) (if_listen x)) c of
       (Some e, c1) \<Rightarrow> fail_cmd e c1
     | (None, c1) \<Rightarrow>
        (case importLocalPublicKeys E (path_Dir path) (outln (''wrote '' @ path @ '' (mode 0600)'') c1) of
           ((imported, keyPath, err), c2) \<Rightarrow>
             let c3 = (case err of
                 Some e \<Rightarrow> warnln (''gateway: warning: could not import local public keys: '' @ err_text e) c2
               | None \<Rightarrow> if imported > 0
                   then outln (''imported '' @ show_nat imported @ '' public key(s) from ~/.ssh into '' @ keyPath) c2 else c2)
             in ok_cmd (init_hints token imported c3)))"

definition configInit :: "('n, 'k, 'w) cli_env \<Rightarrow> string list \<Rightarrow> 'w cli \<Rightarrow> 'w outcome_cmd" where
  "configInit E args =
    with_flags E ''config init'' init_flagset init_default args (\<lambda>rest x c.
      let path = configPathOrDefault E c
      in if file_exists E c path \<and> \<not> if_force x then
           usage_error (path @ '' already exists (use -force to overwrite)'') c
         else if Lookup (if_provider x) (ce_registry E) = None then
           usage_error (''unknown provider '' @ quote (if_provider x)) c
         else if if_tokenStdin x then
           (case readSecretStdin E c of
              (Inl e, c1) \<Rightarrow> fail_cmd e c1
            | (Inr tok, c1) \<Rightarrow> init_write E path (Reveal tok) x (c1\<lparr>cl_red := Add (cl_red c1) [Reveal tok]\<rparr>))
         else init_write E path [] x c)"

section \<open>config show, config path\<close>

definition configShow :: "('n, 'k, 'w) cli_env \<Rightarrow> string list \<Rightarrow> 'w cli \<Rightarrow> 'w outcome_cmd" where
  "configShow E args =
    with_flags E ''config show'' [] () args (\<lambda>rest x c.
      let path = configPathOrDefault E c
      in (case RedactedFile (ce_parse E) (ce_print E) (read_file E c path) of
            Inl e \<Rightarrow> fail_cmd e c
          | Inr text \<Rightarrow> ok_cmd (out (''# '' @ path @ [newline] @ text) c)))"

definition cmdConfigPathInfo :: "('n, 'k, 'w) cli_env \<Rightarrow> string list \<Rightarrow> 'w cli \<Rightarrow> 'w outcome_cmd" where
  "cmdConfigPathInfo E args =
    with_flags E ''config path'' [] () args (\<lambda>rest x c.
      let path = configPathOrDefault E c; H = ce_host E
      in (case config_Load E path c of
            Inl _ \<Rightarrow>
              ok_cmd (outln (''state dir  '' @ DefaultStateDir H) (outln (''config     '' @ path @ '' (not present)'') c))
          | Inr cfg \<Rightarrow>
              ok_cmd (out_table
                [[''config'', cf_path cfg], [''state dir'', cf_StateDir cfg], [''host key'', HostKeyPath H cfg],
                 [''authorized keys'', AuthorizedKeysPath H cfg], [''control socket'', ControlSocketPath H cfg],
                 [''provider state'', ProviderStateDir cfg (cf_Provider cfg)]] c)))"

section \<open>config set-token\<close>

definition configSetToken :: "('n, 'k, 'w) cli_env \<Rightarrow> string list \<Rightarrow> 'w cli \<Rightarrow> 'w outcome_cmd" where
  "configSetToken E args =
    with_flags E ''config set-token'' [(''provider'', string_flag (\<lambda>v. own (\<lambda>_. v)))] [] args (\<lambda>rest x c.
      let path = configPathOrDefault E c
      in (case config_Load E path c of
            Inl e \<Rightarrow> fail_cmd e c
          | Inr cfg \<Rightarrow>
             (let name = (if x = [] then cf_Provider cfg else x)
              in (case Lookup name (ce_registry E) of
                    None \<Rightarrow> usage_error (''unknown provider '' @ quote name) c
                  | Some reg \<Rightarrow>
                     (case readSecretStdin E c of
                        (Inl e, c1) \<Rightarrow> fail_cmd e c1
                      | (Inr tok, c1) \<Rightarrow>
                          if Empty tok then usage_error ''no token read from stdin'' c1
                          else
                            (case patch_config E path [reg_ConfigKey reg, ''token''] (Reveal tok)
                                (c1\<lparr>cl_red := Add (cl_red c1) [Reveal tok]\<rparr>) of
                               (Some e, c2) \<Rightarrow> fail_cmd e c2
                             | (None, c2) \<Rightarrow>
                                 ok_cmd (outln (''stored a '' @ show_nat (secret_Len tok) @ '' character token in '' @ path @
                                   '' ('' @ reg_ConfigKey reg @ ''.token)'') c2)))))))"

section \<open>config authorized-key\<close>

definition key_line_text :: "('n, 'k, 'w) cli_env \<Rightarrow> 'k \<Rightarrow> string \<Rightarrow> string" where
  "key_line_text E key comment = ce_keytype E key @ '' '' @ kl_fingerprint (ce_keys E) key @ '' '' @ comment"

definition list_key_line :: "('n, 'k, 'w) cli_env \<Rightarrow> string \<Rightarrow> 'w cli \<Rightarrow> 'w cli" where
  "list_key_line E line0 c =
    (let line = TrimSpace line0
     in if line = [] \<or> HasPrefix line ''#'' then c
        else (case kl_parse (ce_keys E) line of
                Inl _ \<Rightarrow> outln (''  (unparseable) '' @ line) c
              | Inr (key, comment, _) \<Rightarrow> outln (''  '' @ key_line_text E key comment) c))"

definition list_keys :: "('n, 'k, 'w) cli_env \<Rightarrow> 'n config \<Rightarrow> 'w cli \<Rightarrow> 'w outcome_cmd" where
  "list_keys E cfg c =
    (let keyFile = AuthorizedKeysPath (ce_host E) cfg; inline = length (sf_AuthorizedKeysInline (cf_SSH cfg))
     in (case read_file E c keyFile of
           FileError e \<Rightarrow> fail_cmd e c
         | FileMissing \<Rightarrow>
             let c1 = outln (''no authorized_keys file at '' @ keyFile) c
             in ok_cmd (if inline > 0 then outln (show_nat inline @ '' inline key(s) in the config file'') c1 else c1)
         | FileContent raw \<Rightarrow>
             ok_cmd (fold (list_key_line E) (split_on newline raw) (outln (''# '' @ keyFile) c))))"

definition add_key :: "('n, 'k, 'w) cli_env \<Rightarrow> 'n config \<Rightarrow> string list \<Rightarrow> 'w cli \<Rightarrow> 'w outcome_cmd" where
  "add_key E cfg given c =
    (if given = [] then usage_error ''usage: gateway config authorized-key add <path-to-pub-key|key-line>'' c
     else
       (let keyFile = AuthorizedKeysPath (ce_host E) cfg; arg = Join given '' '';
            line = (case read_file E c (ExpandPath (ce_host E) arg) of FileContent raw \<Rightarrow> TrimSpace raw | _ \<Rightarrow> arg)
        in (case kl_parse (ce_keys E) line of
              Inl e \<Rightarrow> fail_cmd (Wrapf ''not a valid public key: '' e []) c
            | Inr (key, comment, _) \<Rightarrow>
                (case appendLine E keyFile line c of
                   (Some e, c1) \<Rightarrow> fail_cmd e c1
                 | (None, c1) \<Rightarrow> ok_cmd (outln (''added '' @ key_line_text E key comment @ '' to '' @ keyFile) c1)))))"

definition configAuthorizedKey :: "('n, 'k, 'w) cli_env \<Rightarrow> string list \<Rightarrow> 'w cli \<Rightarrow> 'w outcome_cmd" where
  "configAuthorizedKey E args =
    with_flags E ''config authorized-key'' [] () args (\<lambda>rest x c.
      let action = (case rest of [] \<Rightarrow> ''list'' | a # _ \<Rightarrow> a)
      in (case config_Load E (configPathOrDefault E c) c of
            Inl e \<Rightarrow> fail_cmd e c
          | Inr cfg \<Rightarrow>
              if action = ''list'' then list_keys E cfg c
              else if action = ''add'' then add_key E cfg (tl rest) c
              else usage_error (''unknown authorized-key action '' @ quote action @ '' (want list or add)'') c))"

definition cmdConfig :: "('n, 'k, 'w) cli_env \<Rightarrow> string list \<Rightarrow> 'w cli \<Rightarrow> 'w outcome_cmd" where
  "cmdConfig E args c =
    (case args of
       [] \<Rightarrow> usage_error ''usage: gateway config <init|show|path|set-token|authorized-key>'' c
     | sub # rest \<Rightarrow>
         if sub = ''init'' then configInit E rest c
         else if sub = ''show'' then configShow E rest c
         else if sub = ''path'' \<or> sub = ''paths'' then cmdConfigPathInfo E rest c
         else if sub = ''set-token'' then configSetToken E rest c
         else if sub \<in> {''authorized-key'', ''authorized-keys'', ''key''} then configAuthorizedKey E rest c
         else usage_error (''unknown config subcommand '' @ quote sub) c)"

section \<open>Adding a key\<close>

lemma file_keys_append:
  "file_keys K p n (xs @ ys) =
    (case file_keys K p n xs of
       Inl e \<Rightarrow> Inl e
     | Inr ks \<Rightarrow> (case file_keys K p (n + length xs) ys of Inl e \<Rightarrow> Inl e | Inr ks' \<Rightarrow> Inr (ks @ ks')))"
proof (induction xs arbitrary: n)
  case Nil
  then show ?case by (simp split: sum.split)
next
  case (Cons x xs)
  then show ?case by (auto simp: Let_def split: sum.split)
qed

text \<open>A file whose last line is ended gets one line more; otherwise its last line is continued.\<close>

lemma appended_lines:
  assumes "newline \<notin> set t"
  shows "old = [] \<or> last old = newline \<Longrightarrow>
      split_on newline (old @ t @ [newline]) = butlast (split_on newline old) @ [t, []]"
    and "\<not> (old = [] \<or> last old = newline) \<Longrightarrow>
      split_on newline (old @ t @ [newline]) =
        butlast (split_on newline old) @ [last (split_on newline old) @ t, []] \<and> last (split_on newline old) \<noteq> []"
proof -
  have t: "split_on newline (t @ [newline]) = [t, []]"
    using split_on_append [OF assms, of "[]"] by simp
  show "split_on newline (old @ t @ [newline]) = butlast (split_on newline old) @ [t, []]"
    if "old = [] \<or> last old = newline"
  proof (cases "old = []")
    case False
    with that obtain pre where old: "old = pre @ [newline]" by (metis append_butlast_last_id)
    show ?thesis unfolding old using split_on_at [of newline pre "t @ [newline]"] split_on_at [of newline pre "[]"] t
      by (simp add: butlast_append)
  qed (use t in simp)
  assume n: "\<not> (old = [] \<or> last old = newline)"
  define l where "l = last (split_on newline old)"
  have "Join (split_on newline old) [newline] = old" by (rule Join_split_on)
  obtain pre where pre: "old = pre @ l \<and> (pre = [] \<and> split_on newline old = [l] \<or>
      (\<exists>q. pre = q @ [newline] \<and> split_on newline old = split_on newline q @ [l]))"
  proof (cases "newline \<in> set old")
    case True
    then obtain q r where q: "old = q @ newline # r" "newline \<notin> set r" by (metis split_list_last)
    then have "split_on newline old = split_on newline q @ [r]"
      using split_on_at [of newline q r] split_on_none [of newline r] by simp
    then show thesis using q that [of "q @ [newline]"] by (simp add: l_def)
  next
    case False
    then show thesis using that [of "[]"] by (simp add: l_def split_on_none)
  qed
  have "newline \<notin> set l" using split_on_no_sep [of l newline old] by (simp add: l_def)
  then have lt: "split_on newline (l @ t @ [newline]) = [l @ t, []]"
    using split_on_append [of newline "l @ t" "[]"] assms by simp
  have "l \<noteq> []" using pre n by auto
  moreover have "split_on newline (old @ t @ [newline]) = butlast (split_on newline old) @ [l @ t, []]"
    using pre
  proof (elim conjE disjE exE)
    fix q assume "old = pre @ l" "pre = q @ [newline]" "split_on newline old = split_on newline q @ [l]"
    then show ?thesis using split_on_at [of newline q "l @ t @ [newline]"] lt by simp
  qed (use lt in simp)
  ultimately show "split_on newline (old @ t @ [newline]) =
      butlast (split_on newline old) @ [last (split_on newline old) @ t, []] \<and> last (split_on newline old) \<noteq> []"
    by (simp add: l_def)
qed

abbreviation keys_path :: "('n, 'k, 'w) cli_env \<Rightarrow> 'n config \<Rightarrow> string" where
  "keys_path E cfg \<equiv> AuthorizedKeysPath (ce_host E) cfg"

definition given_line :: "('n, 'k, 'w) cli_env \<Rightarrow> string list \<Rightarrow> 'w cli \<Rightarrow> string" where
  "given_line E given c =
    (let arg = Join given '' ''
     in case read_file E c (ExpandPath (ce_host E) arg) of FileContent raw \<Rightarrow> TrimSpace raw | _ \<Rightarrow> arg)"

text \<open>
  What a parser of \<open>authorized_keys\<close> (sshd(8)) does with one line: white space around it does not matter, and
  an empty line or a comment holds no key. Of a text of several lines, and of one with a carriage return, nothing is assumed.
\<close>

definition one_line :: "string \<Rightarrow> bool" where
  "one_line l \<longleftrightarrow> newline \<notin> set l \<and> CHR 0x0D \<notin> set l"

definition key_parser_ok :: "'k keylib \<Rightarrow> bool" where
  "key_parser_ok K \<longleftrightarrow>
    (\<forall>l. one_line l \<longrightarrow> kl_parse K (TrimSpace l) = kl_parse K l \<and>
       (isl (kl_parse K l) \<or> TrimSpace l \<noteq> [] \<and> \<not> HasPrefix (TrimSpace l) ''#''))"

lemma set_TrimSpace: "set (TrimSpace s) \<subseteq> set s"
proof -
  have "set (trim_front pats t) \<subseteq> set t" for pats t
    using trim_front_suffix [of t pats] by (metis set_append sup_ge2)
  then show ?thesis unfolding TrimSpace_def TrimLeft_def TrimRight_def by (metis set_rev subset_trans)
qed

lemma add_key_appends:
  assumes "add_key E cfg given c = (None, c')"
  shows "\<exists>key comment options. kl_parse (ce_keys E) (given_line E given c) = Inr (key, comment, options) \<and>
    ds_files (cl_dir c') (AuthorizedKeysPath (ce_host E) cfg) =
      Some ((case ds_files (cl_dir c) (AuthorizedKeysPath (ce_host E) cfg) of None \<Rightarrow> [] | Some raw \<Rightarrow> raw) @
        TrimSpace (given_line E given c) @ [newline])"
  using assms
  by (auto simp: add_key_def usage_error_def fail_cmd_def ok_cmd_def given_line_def Let_def appendLine_def append_text_def
      outln_def out_def split: if_splits sum.splits option.splits append_fault.splits prod.splits)

text \<open>
  C33: An added key works, if the file's last line was ended. Then \<open>config authorized-key add\<close> leaves a
  file from which the gateway reads the keys it read before and the new one, from that file, when what was given is one line; unless the
  line carries options, which the command takes and the gateway refuses, together with the whole file.
\<close>

theorem authorized_key_added:
  assumes "add_key E cfg given c = (None, c')" and "key_parser_ok (ce_keys E)"
    and "one_line (given_line E given c)"
    and "ce_unreadable E (keys_path E cfg) = None" and "keys_path E cfg \<noteq> []"
    and "case ds_files (cl_dir c) (keys_path E cfg) of None \<Rightarrow> True | Some old \<Rightarrow> old = [] \<or> last old = newline"
    and "read_file_keys (ce_keys E) (auth_of (ce_host E) cfg) (read_file E c (keys_path E cfg)) = Inr ks"
  shows "\<exists>key comment options. kl_parse (ce_keys E) (given_line E given c) = Inr (key, comment, options) \<and>
    (if options = []
     then read_file_keys (ce_keys E) (auth_of (ce_host E) cfg) (read_file E c' (keys_path E cfg)) =
       Inr (ks @ [\<lparr>ak_key = key, ak_comment = comment, ak_source = keys_path E cfg\<rparr>])
     else isl (read_file_keys (ce_keys E) (auth_of (ce_host E) cfg) (read_file E c' (keys_path E cfg))))"
proof -
  let ?K = "ce_keys E" and ?l = "given_line E given c" and ?f = "keys_path E cfg"
  define old where "old = (case ds_files (cl_dir c) ?f of None \<Rightarrow> [] | Some raw \<Rightarrow> raw)"
  define t where "t = TrimSpace ?l"
  obtain key comment options where k: "kl_parse ?K ?l = Inr (key, comment, options)"
    and f': "ds_files (cl_dir c') ?f = Some (old @ t @ [newline])"
    using add_key_appends [OF assms(1)] by (auto simp: old_def t_def)
  have "kl_parse ?K t = kl_parse ?K ?l \<and> (isl (kl_parse ?K ?l) \<or> t \<noteq> [] \<and> \<not> HasPrefix t ''#'')"
    using assms(2,3) unfolding key_parser_ok_def t_def by blast
  then have t: "kl_parse ?K t = Inr (key, comment, options)" "t \<noteq> []" "\<not> HasPrefix t ''#''" "TrimSpace t = t"
    using k by (auto simp: t_def)
  have one: "newline \<notin> set t" using assms(3) set_TrimSpace [of ?l] by (auto simp: one_line_def t_def)
  have keyfile: "ac_AuthorizedKeysFile (auth_of (ce_host E) cfg) = ?f" by (simp add: auth_of_def)
  have ks: "file_keys ?K ?f 0 (split_on newline old) = Inr ks"
    using assms(4,5,7) by (auto simp: read_file_keys_def keyfile read_file_def old_def split: option.splits)
  let ?ls = "butlast (split_on newline old)"
  have ended: "old = [] \<or> last old = newline" using assms(6) by (auto simp: old_def split: option.splits)
  have lines: "split_on newline (old @ t @ [newline]) = ?ls @ [t, []]"
    by (rule appended_lines(1) [OF one ended])
  have "split_on newline old = ?ls @ [last (split_on newline old)]" by simp
  moreover have "last (split_on newline old) = []"
    using ended split_on_at [of newline "butlast old" "[]"] append_butlast_last_id [of old] by (cases "old = []") auto
  ultimately have "file_keys ?K ?f 0 (?ls @ [[]]) = Inr ks" using ks by simp
  then have "file_keys ?K ?f 0 ?ls = Inr ks" by (simp add: file_keys_append split: sum.splits)
  then have "file_keys ?K ?f 0 (?ls @ [t, []]) =
    (if options = [] then Inr (ks @ [\<lparr>ak_key = key, ak_comment = comment, ak_source = ?f\<rparr>])
     else file_keys ?K ?f 0 (?ls @ [t, []])) \<and> (options \<noteq> [] \<longrightarrow> isl (file_keys ?K ?f 0 (?ls @ [t, []])))"
    using t by (simp add: file_keys_append parseAuthorizedKey_def)
  moreover have "read_file_keys ?K (auth_of (ce_host E) cfg) (read_file E c' ?f) = file_keys ?K ?f 0 (?ls @ [t, []])"
    using assms(4,5) f' lines by (simp add: read_file_keys_def keyfile read_file_def)
  ultimately show ?thesis using k by auto
qed

text \<open>Otherwise the new line is not read as a line: it becomes part of the comment of the last key.\<close>

lemma unended_key_file:
  assumes "add_key E cfg given c = (None, c')" and "newline \<notin> set (TrimSpace (given_line E given c))"
    and "ds_files (cl_dir c) (AuthorizedKeysPath (ce_host E) cfg) = Some old" and "old \<noteq> []" and "last old \<noteq> newline"
  shows "\<exists>new. ds_files (cl_dir c') (AuthorizedKeysPath (ce_host E) cfg) = Some new \<and>
    split_on newline new = butlast (split_on newline old) @
      [last (split_on newline old) @ TrimSpace (given_line E given c), []]"
  using add_key_appends [OF assms(1)] appended_lines(2) [OF assms(2), of old] assms(3-5) by auto

text \<open>A machine with one key in the file, for the witness.\<close>

definition key_lines :: "nat keylib" where
  "key_lines = \<lparr>kl_parse = (\<lambda>l. if TrimSpace l = ''k'' then Inr (1, ''c'', []) else
       if TrimSpace l = ''n'' then Inr (2, ''d'', []) else Inl (Errorf ''bad'')),
     kl_marshal = show_nat, kl_fingerprint = show_nat\<rparr>"

definition machine0 :: "(unit, nat, int) cli_env" where
  "machine0 = \<lparr>ce_host = host0, ce_yaml = yaml0, ce_parse = (\<lambda>raw. Inl (Errorf ''yaml'')),
     ce_print = (\<lambda>n. Inl (Errorf ''yaml'')), ce_mode = (\<lambda>p. Some 384), ce_unreadable = (\<lambda>p. None),
     ce_mkdir = (\<lambda>p m. None), ce_chmod = (\<lambda>p m. None), ce_stat = (\<lambda>p. None), ce_append = (\<lambda>p. AppendOk),
     ce_overwrite = (\<lambda>p. None), ce_glob = (\<lambda>p. Inr []), ce_tmp = ''/t'', ce_hostname = Inr ''host'',
     ce_interactive = True, ce_chardevice = True, ce_quiet = True, ce_logfile = (\<lambda>p. None), ce_defaults = (\<lambda>n. []),
     ce_now = (\<lambda>w. w), ce_keys = key_lines, ce_keytype = (\<lambda>k. ''ssh-ed25519''), ce_hostlib = hostlib0,
     ce_random = Inl (Errorf []),
     ce_registry = [(''github'', \<lparr>reg_Name = ''github'', reg_Summary = [], reg_ConfigKey = ''github'',
       reg_DefaultEnvironmentKey = ''codespace'',
       reg_Factory = Some (\<lambda>sec dir red w. (Inr \<lparr>cp_prov = running_prov None, cp_close = (\<lambda>w. w), cp_info = None,
         cp_machines = None, cp_sources = None, cp_forget = None, cp_diagnose = None\<rparr>, red, w))\<rparr>)],
     ce_jsontime = show_int, ce_showtime = show_int, ce_gigabytes = (\<lambda>b. []), ce_listen = (\<lambda>a. None),
     ce_keyfault = no_key_file, ce_encode = (\<lambda>s. []), ce_decode = (\<lambda>s. Inl (Errorf [])),
     ce_process = (\<lambda>p. None), ce_sigterm = (\<lambda>p w. (None, w)),
     ce_os = \<lparr>os_mkdir = (\<lambda>p w. (None, w)), os_dial = (\<lambda>p w. (False, w)), os_remove = (\<lambda>p w. w),
       os_listen = (\<lambda>p w. (None, w)), os_chmod = (\<lambda>p w. (None, w)), os_unlisten = (\<lambda>p w. w),
       os_write = (\<lambda>p s w. (None, w))\<rparr>,
     ce_bind = (\<lambda>a w. (Inr a, w)), ce_serve = (\<lambda>w. (None, w)), ce_pid = 1,
     ce_alive = (\<lambda>p w. False), ce_socket = (\<lambda>p m t w. (Inl (Errorf []), w))\<rparr>"

definition cli0 :: "(string \<Rightarrow> string option) \<Rightarrow> string \<Rightarrow> int cli" where
  "cli0 files input = \<lparr>cl_app = \<lparr>ap_configPath = [], ap_logLevel = [], ap_jsonOut = False\<rparr>,
     cl_tm = \<lparr>tm_in = input, tm_eof = False, tm_out = [], tm_err = []\<rparr>, cl_red = Some NewRedactor,
     cl_dir = \<lparr>ds_files = files, ds_fault = NoFault\<rparr>, cl_world = 0\<rparr>"

definition config_keys :: "unit config" where
  "config_keys = (Defaults host0)\<lparr>cf_SSH := default_ssh\<lparr>sf_AuthorizedKeys := ''/a''\<rparr>\<rparr>"

lemma authorized_key_added_witness:
  "\<exists>c'. add_key machine0 config_keys [''n''] (cli0 [''/a'' \<mapsto> ''k'' @ [newline]] []) = (None, c') \<and>
    read_file_keys key_lines (auth_of host0 config_keys) (read_file machine0 c' ''/a'') =
      Inr [\<lparr>ak_key = 1, ak_comment = ''c'', ak_source = ''/a''\<rparr>, \<lparr>ak_key = 2, ak_comment = ''d'', ak_source = ''/a''\<rparr>]"
proof -
  let ?c = "cli0 [''/a'' \<mapsto> ''k'' @ [newline]] []"
  have tr: "TrimSpace ''/a'' = ''/a''" "TrimSpace ''n'' = ''n''" "TrimSpace ''k'' = ''k''"
    by (intro TrimSpace_trimmed trimmed_plain; simp add: plain_def)+
  have p: "keys_path machine0 config_keys = ''/a''"
    by (simp add: AuthorizedKeysPath_def config_keys_def machine0_def ExpandPath_def tr Let_def HasPrefix_def)
  have g: "given_line machine0 [''n''] ?c = ''n''"
    by (simp add: given_line_def Let_def ExpandPath_def tr HasPrefix_def read_file_def machine0_def cli0_def)
  have ok: "key_parser_ok (ce_keys machine0)"
    by (auto simp: key_parser_ok_def key_lines_def HasPrefix_def machine0_def)
  have par: "kl_parse (ce_keys machine0) ''n'' = Inr (2, ''d'', [])" by (simp add: machine0_def key_lines_def tr)
  have a: "\<exists>c'. add_key machine0 config_keys [''n''] ?c = (None, c')"
    unfolding add_key_def using g par
    by (simp add: given_line_def Let_def appendLine_def private_dir_def EnsureDir_def append_text_def machine0_def ok_cmd_def
        path_Dir_def path_Clean_def)
  then obtain c' where c': "add_key machine0 config_keys [''n''] ?c = (None, c')" by blast
  have ks: "read_file_keys (ce_keys machine0) (auth_of (ce_host machine0) config_keys)
      (read_file machine0 ?c (keys_path machine0 config_keys)) = Inr [\<lparr>ak_key = 1, ak_comment = ''c'', ak_source = ''/a''\<rparr>]"
    using p by (simp add: read_file_keys_def auth_of_def read_file_def machine0_def cli0_def key_lines_def Let_def tr
        parseAuthorizedKey_def HasPrefix_def)
  show ?thesis
    using authorized_key_added [OF c' ok _ _ _ _ ks] g tr par c'
    by (simp add: p) (simp add: machine0_def cli0_def one_line_def)
qed

end
