(* ===== verification/CliCommands.thy ===== *)
theory CliCommands
  imports CliConfig
begin

text \<open>
  The commands that talk to a provider or to a running gateway: \<open>gateway codespace ...\<close>
  (\<open>cli/codespace_cmd.go\<close>), \<open>provider list\<close> (\<open>cli/provider_cmd.go\<close>), \<open>doctor\<close> (\<open>cli/doctor.go\<close>),
  \<open>status\<close> and \<open>stop\<close> (\<open>cli/serve.go\<close>).
\<close>

section \<open>A provider for one command\<close>

definition build_provider ::
  "('n, 'k, 'w) cli_env \<Rightarrow> 'n config \<Rightarrow> 'w cli \<Rightarrow> (goerr + 'w cli_provider) \<times> 'w cli" where
  "build_provider E cfg c =
    (case BuildProvider (ce_yaml E) (ce_registry E) (private_dir E) cfg (cl_red c) (cl_world c) of
       (r, red, w) \<Rightarrow> (r, c\<lparr>cl_red := red, cl_world := w\<rparr>))"

definition close_provider :: "'w cli_provider \<Rightarrow> 'w cli \<Rightarrow> 'w cli" where
  "close_provider p c = c\<lparr>cl_world := cp_close p (cl_world c)\<rparr>"

definition withProvider ::
  "('n, 'k, 'w) cli_env \<Rightarrow> int \<Rightarrow> (ctx \<Rightarrow> 'n config \<Rightarrow> 'w cli_provider \<Rightarrow> 'w cli \<Rightarrow> 'w outcome_cmd) \<Rightarrow> 'w cli \<Rightarrow>
   'w outcome_cmd" where
  "withProvider E timeout fn =
    with_config E (\<lambda>cfg c.
      case app_logger E cfg True c of
        Some e \<Rightarrow> fail_cmd e c
      | None \<Rightarrow>
          (let x = WithTimeout ctx_bg timeout (ce_now E (cl_world c))
           in (case build_provider E cfg c of
                 (Inl e, c1) \<Rightarrow> fail_cmd e c1
               | (Inr p, c1) \<Rightarrow> (case fn x cfg p c1 of (r, c2) \<Rightarrow> (r, close_provider p c2)))))"

text \<open>One call of the provider.\<close>

definition ask_world :: "('w \<Rightarrow> (goerr + 'a) \<times> 'w) \<Rightarrow> ('a \<Rightarrow> 'w cli \<Rightarrow> 'w outcome_cmd) \<Rightarrow> 'w cli \<Rightarrow> 'w outcome_cmd" where
  "ask_world f k c =
    (case f (cl_world c) of
       (Inl e, w) \<Rightarrow> fail_cmd e (c\<lparr>cl_world := w\<rparr>) | (Inr a, w) \<Rightarrow> k a (c\<lparr>cl_world := w\<rparr>))"

definition do_world :: "('w \<Rightarrow> goerr option \<times> 'w) \<Rightarrow> ('w cli \<Rightarrow> 'w outcome_cmd) \<Rightarrow> 'w cli \<Rightarrow> 'w outcome_cmd" where
  "do_world f k c =
    (case f (cl_world c) of
       (Some e, w) \<Rightarrow> fail_cmd e (c\<lparr>cl_world := w\<rparr>) | (None, w) \<Rightarrow> k (c\<lparr>cl_world := w\<rparr>))"

definition resolve_hint :: "'n config \<Rightarrow> 'w prov \<Rightarrow> ctx \<Rightarrow> string \<Rightarrow> 'w \<Rightarrow> (goerr + string) \<times> 'w" where
  "resolve_hint cfg P x hint w =
    (case ResolveEnvironment P x hint None (New_manager (lifecycle_options cfg)) w of (r, _, w1) \<Rightarrow> (r, w1))"

definition first_arg :: "string list \<Rightarrow> string" where
  "first_arg rest = (case rest of [] \<Rightarrow> [] | a # _ \<Rightarrow> a)"

section \<open>Environments as JSON\<close>

definition omit_empty :: "string \<Rightarrow> string \<Rightarrow> (string \<times> json) list" where
  "omit_empty k s = (if s = [] then [] else [(k, JStr s)])"

definition string_map :: "(string, string) gomap \<Rightarrow> json" where
  "string_map m = JObj (map (\<lambda>k. (k, JStr (getz m k []))) (sortedKeys m))"

definition environment_json :: "('n, 'k, 'w) cli_env \<Rightarrow> environment \<Rightarrow> json" where
  "environment_json E e =
    JObj ([(''id'', JStr (env_ID e))] @ omit_empty ''display_name'' (env_DisplayName e) @
      [(''provider'', JStr (env_Provider e)), (''state'', JStr (state_name (env_State e)))] @
      omit_empty ''native_state'' (env_NativeState e) @
      (if env_Attributes e = [] then [] else [(''attributes'', string_map (env_Attributes e))]) @
      (if env_IdleTimeout e = 0 then [] else [(''idle_timeout'', JNum (show_int (env_IdleTimeout e)))]) @
      (case env_LastUsedAt e of None \<Rightarrow> [] | Some t \<Rightarrow> [(''last_used_at'', JStr (ce_jsontime E t))]) @
      omit_empty ''web_url'' (env_WebURL e))"

text \<open>Idle timeouts are whole seconds.\<close>

definition idle_text :: "int \<Rightarrow> string" where
  "idle_text d = seconds_text (d div second)"

section \<open>codespace list, status\<close>

definition env_row :: "string \<Rightarrow> environment \<Rightarrow> string list" where
  "env_row def e =
    [(if env_ID e = def \<or> (env_DisplayName e \<noteq> [] \<and> env_DisplayName e = def) then ''* '' else ''  '') @ env_ID e,
     state_name (env_State e), fieldOrDash (env_NativeState e),
     if env_IdleTimeout e > 0 then idle_text (env_IdleTimeout e) else ''-'', AttrLine e]"

definition envList :: "('n, 'k, 'w) cli_env \<Rightarrow> string list \<Rightarrow> 'w cli \<Rightarrow> 'w outcome_cmd" where
  "envList E args =
    with_flags E ''codespace list'' [] () args (\<lambda>rest _.
      withProvider E (120 * second) (\<lambda>x cfg p. ask_world (w_List (cp_prov p) x) (\<lambda>envs c.
        if ap_jsonOut (cl_app c) then ok_cmd (app_writeJSON (JArr (map (environment_json E) envs)) c)
        else if envs = [] then ok_cmd (outln ''no environments found for this token'' c)
        else
          ok_cmd (outln (newline # ''* = default target. Change it with `gateway codespace select <name>`.'')
            (out_table ([''  NAME'', ''STATE'', ''PROVIDER STATE'', ''IDLE'', ''DETAILS''] #
              map (env_row (w_DefaultEnvironment (cp_prov p))) envs) c)))))"

definition env_fields :: "('n, 'k, 'w) cli_env \<Rightarrow> environment \<Rightarrow> string list list" where
  "env_fields E e =
    [''name'', env_ID e] #
    (if env_DisplayName e \<noteq> [] then [[''display name'', env_DisplayName e]] else []) @
    [[''state'', state_name (env_State e) @ '' (provider: '' @ fieldOrDash (env_NativeState e) @ '')'']] @
    (if env_IdleTimeout e > 0
     then [[''idle timeout'', idle_text (env_IdleTimeout e) @ '' (enforced by the provider)'']] else []) @
    (case env_LastUsedAt e of None \<Rightarrow> [] | Some t \<Rightarrow> [[''last used'', ce_showtime E t]]) @
    map (\<lambda>k. [ReplaceAll k ''_'' '' '', getz (env_Attributes e) k []]) (sortedKeys (env_Attributes e)) @
    (if env_WebURL e \<noteq> [] then [[''web url'', env_WebURL e]] else [])"

definition envStatus :: "('n, 'k, 'w) cli_env \<Rightarrow> string list \<Rightarrow> 'w cli \<Rightarrow> 'w outcome_cmd" where
  "envStatus E args =
    with_flags E ''codespace status'' [] () args (\<lambda>rest _.
      withProvider E (120 * second) (\<lambda>x cfg p.
        ask_world (resolve_hint cfg (cp_prov p) x (first_arg rest)) (\<lambda>name.
          ask_world (w_Get (cp_prov p) x name) (\<lambda>env c.
            if ap_jsonOut (cl_app c) then ok_cmd (app_writeJSON (environment_json E env) c)
            else ok_cmd (out_table (env_fields E env) c)))))"

section \<open>codespace select\<close>

definition select_missing :: "string \<Rightarrow> goerr" where
  "select_missing name = Errorf (name @ '' does not exist yet; use -force to select it anyway '' @
     ''(the gateway will create it on first connection when github.create.repository is set)'')"

definition select_write ::
  "('n, 'k, 'w) cli_env \<Rightarrow> 'n config \<Rightarrow> 'f registration \<Rightarrow> string \<Rightarrow> 'w cli \<Rightarrow> 'w outcome_cmd" where
  "select_write E cfg reg name c =
    (case patch_config E (cf_path cfg) [reg_ConfigKey reg, reg_DefaultEnvironmentKey reg] name c of
       (Some e, c1) \<Rightarrow> fail_cmd e c1
     | (None, c1) \<Rightarrow>
         ok_cmd (outln ''restart the gateway for it to take effect (`gateway stop && gateway start`)''
           (outln (''default environment set to '' @ name @ '' in '' @ cf_path cfg) c1)))"

definition envSelect :: "('n, 'k, 'w) cli_env \<Rightarrow> string list \<Rightarrow> 'w cli \<Rightarrow> 'w outcome_cmd" where
  "envSelect E args =
    with_flags E ''codespace select'' [(''force'', bool_flag (\<lambda>b. own (\<lambda>_. b)))] False args (\<lambda>rest force c.
      case rest of
        [name] \<Rightarrow>
          withProvider E (120 * second) (\<lambda>x cfg p c.
            case Lookup (cf_Provider cfg) (ce_registry E) of
              None \<Rightarrow> usage_error (''unknown provider '' @ quote (cf_Provider cfg)) c
            | Some reg \<Rightarrow>
                if force then select_write E cfg reg name c
                else
                  (case w_Get (cp_prov p) x name (cl_world c) of
                     (r, w) \<Rightarrow>
                       let c1 = c\<lparr>cl_world := w\<rparr>
                       in (case r of
                             Inr env \<Rightarrow>
                               select_write E cfg reg name
                                 (outln (env_ID env @ '' is '' @ state_name (env_State env) @ '' (provider state '' @
                                    env_NativeState env @ '')'') c1)
                           | Inl e \<Rightarrow> if errors_Is e ErrNotFound then fail_cmd (select_missing name) c1 else fail_cmd e c1))) c
      | _ \<Rightarrow> usage_error ''usage: gateway codespace select <name>'' c)"

section \<open>codespace stop\<close>

definition envStop :: "('n, 'k, 'w) cli_env \<Rightarrow> string list \<Rightarrow> 'w cli \<Rightarrow> 'w outcome_cmd" where
  "envStop E args =
    with_flags E ''codespace stop'' [] () args (\<lambda>rest _.
      with_config E (\<lambda>cfg c.
        let sock = ControlSocketPath (ce_host E) cfg; name = first_arg rest
        in if ce_alive E sock (cl_world c) then
             ask_world (stopEnvironment (ce_socket E sock) sock name)
               (\<lambda>_ c. ok_cmd (outln ''stop requested through the running gateway'' c)) c
           else
             withProvider E (300 * second) (\<lambda>x cfg p.
               ask_world (resolve_hint cfg (cp_prov p) x name) (\<lambda>target.
                 ask_world (w_Get (cp_prov p) x target) (\<lambda>env.
                   do_world (w_Stop (cp_prov p) x (env_ID env))
                     (\<lambda>c. ok_cmd (outln (''requested stop of '' @ env_ID env) c))))) c))"

section \<open>codespace create\<close>

definition option_Set :: "string \<Rightarrow> string list \<Rightarrow> string option \<times> string list" where
  "option_Set v opts =
    (if \<not> Contains v ''='' then (Some (''option '' @ quote v @ '' must be key=value''), opts) else (None, opts @ [v]))"

definition option_flag :: "(app \<times> string list) flag" where
  "option_flag = \<lparr>fl_bool = False, fl_set = (\<lambda>v (a, opts). case option_Set v opts of (e, o1) \<Rightarrow> (e, (a, o1)))\<rparr>"

fun options_parse :: "string list \<Rightarrow> (string, anyval) gomap \<Rightarrow> goerr + (string, anyval) gomap" where
  "options_parse [] acc = Inr acc"
| "options_parse (kv # kvs) acc =
    (case Cut kv ''='' of
       (k, v, _) \<Rightarrow>
         if TrimSpace k = [] then Inl (Errorf (''option '' @ quote kv @ '' has an empty key''))
         else options_parse kvs (AList.update (TrimSpace k) (AnyString v) acc))"

definition envCreate :: "('n, 'k, 'w) cli_env \<Rightarrow> string list \<Rightarrow> 'w cli \<Rightarrow> 'w outcome_cmd" where
  "envCreate E args =
    with_flags E ''codespace create'' [(''option'', option_flag)] [] args (\<lambda>rest options.
      withProvider E (1500 * second) (\<lambda>x cfg p c.
        let name = (case rest of [] \<Rightarrow> w_DefaultEnvironment (cp_prov p) | a # _ \<Rightarrow> a)
        in (case options_parse options [] of
              Inl e \<Rightarrow> fail_cmd e c
            | Inr opts \<Rightarrow>
                ask_world (w_Create (cp_prov p) x \<lparr>cs_Name = name, cs_Options = opts\<rparr>) (\<lambda>env c.
                  let c1 = outln (''created '' @ env_ID env @ '' (state '' @ env_NativeState env @ '')'') c
                  in ok_cmd (if env_DisplayName env \<noteq> [] \<and> env_DisplayName env \<noteq> env_ID env
                      then outln (''display name '' @ quote (env_DisplayName env) @ '' keeps working as the gateway handle'') c1
                      else c1)) c)))"

section \<open>codespace machines, forget-host-key\<close>

definition no_machines :: "string \<Rightarrow> goerr" where
  "no_machines name = Errorf (''provider '' @ name @ '' '' @ utf8 [0x4E0D, 0x533A, 0x5206, 0x673A, 0x5668, 0x89C4, 0x683C])"

text \<open>\<open>%.0f\<close> of the size in units of \<open>2 ^ 30\<close>, half to even; exact below \<open>2 ^ 53\<close> bytes.\<close>

definition whole_gigabytes :: "64 word \<Rightarrow> string" where
  "whole_gigabytes b =
    (let n = unat b; q = n div 2 ^ 30; r = n mod 2 ^ 30
     in show_nat (if r > 2 ^ 29 \<or> (r = 2 ^ 29 \<and> odd q) then q + 1 else q))"

definition machine_json :: "('n, 'k, 'w) cli_env \<Rightarrow> machine_type \<Rightarrow> json" where
  "machine_json E m =
    JObj ([(''name'', JStr (mt_Name m))] @ omit_empty ''display_name'' (mt_DisplayName m) @
      (if mt_CPUs m = 0 then [] else [(''cpus'', JNum (show_int (mt_CPUs m)))]) @
      (if mt_MemoryBytes m = 0 then [] else [(''memory_gb'', JNum (ce_gigabytes E (mt_MemoryBytes m)))]) @
      (if mt_StorageBytes m = 0 then [] else [(''storage_gb'', JNum (ce_gigabytes E (mt_StorageBytes m)))]) @
      omit_empty ''note'' (mt_Note m))"

definition machine_rows :: "machine_type list \<Rightarrow> string list list" where
  "machine_rows ms =
    [''NAME'', ''CPU'', utf8 [0x5185, 0x5B58], utf8 [0x5B58, 0x50A8], utf8 [0x8BF4, 0x660E]] #
    map (\<lambda>m. [mt_Name m, show_int (mt_CPUs m), whole_gigabytes (mt_MemoryBytes m) @ '' GB'',
      whole_gigabytes (mt_StorageBytes m) @ '' GB'', mt_Note m]) ms"

definition envMachines :: "('n, 'k, 'w) cli_env \<Rightarrow> string list \<Rightarrow> 'w cli \<Rightarrow> 'w outcome_cmd" where
  "envMachines E args =
    with_flags E ''codespace machines'' [] () args (\<lambda>rest _.
      withProvider E (120 * second) (\<lambda>x cfg p c.
        case cp_machines p of
          None \<Rightarrow> fail_cmd (no_machines (w_Name (cp_prov p))) c
        | Some lister \<Rightarrow>
            ask_world (lister x (first_arg rest)) (\<lambda>machines c.
              if ap_jsonOut (cl_app c) then ok_cmd (app_writeJSON (JArr (map (machine_json E) machines)) c)
              else ok_cmd (outln ([newline] @ utf8 [0x5199, 0x8FDB, 0x914D, 0x7F6E, 0xFF1A] @ ''github.create.machine: '' @ ''<NAME>'') (out_table (machine_rows machines) c))) c))"

definition envForgetHostKey :: "('n, 'k, 'w) cli_env \<Rightarrow> string list \<Rightarrow> 'w cli \<Rightarrow> 'w outcome_cmd" where
  "envForgetHostKey E args =
    with_flags E ''codespace forget-host-key'' [] () args (\<lambda>rest _.
      withProvider E (60 * second) (\<lambda>x cfg p c.
        case cp_forget p of
          None \<Rightarrow> fail_cmd (Errorf (''provider '' @ w_Name (cp_prov p) @ '' does not pin environment host keys'')) c
        | Some forget \<Rightarrow>
            ask_world (forget (first_arg rest)) (\<lambda>n c.
              ok_cmd (if n = 0 then outln ''no pinned host keys matched'' c
                else outln (''forgot '' @ show_nat n @ '' pinned host key(s)'') c)) c))"

definition cmdEnvironment :: "('n, 'k, 'w) cli_env \<Rightarrow> string list \<Rightarrow> 'w cli \<Rightarrow> 'w outcome_cmd" where
  "cmdEnvironment E args c =
    (case args of
       [] \<Rightarrow> usage_error ''usage: gateway codespace <list|select|status|stop|create|forget-host-key>'' c
     | sub # rest \<Rightarrow>
         if sub \<in> {''list'', ''ls''} then envList E rest c
         else if sub \<in> {''select'', ''use''} then envSelect E rest c
         else if sub \<in> {''status'', ''show'', ''get''} then envStatus E rest c
         else if sub = ''stop'' then envStop E rest c
         else if sub \<in> {''create'', ''new''} then envCreate E rest c
         else if sub \<in> {''machines'', ''machine''} then envMachines E rest c
         else if sub = ''forget-host-key'' then envForgetHostKey E rest c
         else usage_error (''unknown codespace subcommand '' @ quote sub) c)"

section \<open>provider list\<close>

definition provider_json :: "string \<Rightarrow> 'f registration \<Rightarrow> json" where
  "provider_json selected r =
    JObj [(''name'', JStr (reg_Name r)), (''summary'', JStr (reg_Summary r)), (''config_key'', JStr (reg_ConfigKey r)),
      (''selected'', JBool (reg_Name r = selected))]"

definition providerList :: "('n, 'k, 'w) cli_env \<Rightarrow> string list \<Rightarrow> 'w cli \<Rightarrow> 'w outcome_cmd" where
  "providerList E args =
    with_flags E ''provider list'' [] () args (\<lambda>rest _ c.
      let selected = (case config_Load E (ap_configPath (cl_app c)) c of Inl _ \<Rightarrow> [] | Inr cfg \<Rightarrow> cf_Provider cfg);
          regs = Registrations (ce_registry E)
      in if ap_jsonOut (cl_app c) then ok_cmd (app_writeJSON (JArr (map (provider_json selected) regs)) c)
         else ok_cmd (out_table ([''NAME'', ''CONFIG KEY'', ''SELECTED'', ''DESCRIPTION''] #
           map (\<lambda>r. [reg_Name r, reg_ConfigKey r, if reg_Name r = selected then ''*'' else [], reg_Summary r]) regs) c))"

definition cmdProvider :: "('n, 'k, 'w) cli_env \<Rightarrow> string list \<Rightarrow> 'w cli \<Rightarrow> 'w outcome_cmd" where
  "cmdProvider E args0 c =
    (let args = (if args0 = [] then [''list''] else args0)
     in if hd args \<in> {''list'', ''ls''} then providerList E (tl args) c
        else usage_error (''unknown provider subcommand '' @ quote (hd args) @ '' (want list)'') c)"

end
