(* ===== verification/CliServe.thy ===== *)
theory CliServe
  imports CliCommands
begin

text \<open>
  \<open>gateway doctor\<close> (\<open>cli/doctor.go\<close>), \<open>start\<close>, \<open>stop\<close> and \<open>status\<close> (\<open>cli/serve.go\<close>), and
  \<open>ssh-config\<close> (\<open>cli/sshconfig.go\<close>).
\<close>

section \<open>doctor\<close>

text \<open>The host key as the doctor sees it; it is created when it is missing.\<close>

definition put_file :: "string \<Rightarrow> file_read \<Rightarrow> 'w cli \<Rightarrow> 'w cli" where
  "put_file path r c =
    (case r of
       FileContent raw \<Rightarrow> c\<lparr>cl_dir := (cl_dir c)\<lparr>ds_files := (ds_files (cl_dir c))(path := Some raw)\<rparr>\<rparr>
     | _ \<Rightarrow> c)"

definition load_host_key ::
  "('n, 'k, 'w) cli_env \<Rightarrow> 'n config \<Rightarrow> 'w cli \<Rightarrow> (goerr + 'k \<times> bool) \<times> 'w cli" where
  "load_host_key E cfg c =
    (let path = HostKeyPath (ce_host E) cfg
     in (case LoadOrCreateHostKey (ce_hostlib E) path ((ce_keyfault E)\<lparr>kf_content := read_file E c path\<rparr>) of
           (r, f) \<Rightarrow> (r, put_file path (kf_content f) c)))"

definition permission_check :: "('n, 'k, 'w) cli_env \<Rightarrow> 'n config \<Rightarrow> diagnostic" where
  "permission_check E cfg =
    (let w = PermWarning (cf_path cfg) (ce_mode E (cf_path cfg))
     in if w \<noteq> [] then diag ''config permissions'' False w ''chmod 600 the config file''
        else diag ''config permissions'' True ''owner-only'' [])"

definition listen_check :: "('n, 'k, 'w) cli_env \<Rightarrow> 'n config \<Rightarrow> diagnostic" where
  "listen_check E cfg =
    (let addr = sf_Listen (cf_SSH cfg)
     in (case ce_listen E addr of
           Some e \<Rightarrow> diag ''listen address'' False (addr @ '': '' @ err_text e)
             ''stop the other process or change ssh.listen''
         | None \<Rightarrow> diag ''listen address'' True (addr @ '' is free'') []))"

definition auth_check :: "('n, 'k, 'w) cli_env \<Rightarrow> 'n config \<Rightarrow> 'w cli \<Rightarrow> diagnostic" where
  "auth_check E cfg c =
    (case NewAuthorizer (ce_keys E) (auth_of (ce_host E) cfg) (read_file E c (keys_path E cfg)) (ce_random E) of
       Inl e \<Rightarrow> diag ''client auth'' False (err_text e)
         ''bind ssh.listen to 127.0.0.1, or add a key with `gateway config authorized-key add`''
     | Inr a \<Rightarrow> diag ''client auth'' True (auth_Mode a) [])"

definition host_key_check :: "('n, 'k, 'w) cli_env \<Rightarrow> 'n config \<Rightarrow> goerr + 'k \<times> bool \<Rightarrow> diagnostic" where
  "host_key_check E cfg r =
    (case r of
       Inl e \<Rightarrow> diag ''host key'' False (err_text e) []
     | Inr (key, created) \<Rightarrow>
         diag ''host key'' True (kl_fingerprint (ce_keys E) key @ '' ('' @ HostKeyPath (ce_host E) cfg @ '', '' @
           (if created then ''generated now'' else ''existing'') @ '')'') [])"

definition attribution_text :: "idle_attribution \<Rightarrow> string" where
  "attribution_text a =
    (case a of IdleAttributionUnverified \<Rightarrow> ''unverified'' | IdleAttributionDocumented \<Rightarrow> ''documented''
     | IdleAttributionNone \<Rightarrow> ''none'')"

definition provider_checks ::
  "('n, 'k, 'w) cli_env \<Rightarrow> ctx \<Rightarrow> 'n config \<Rightarrow> 'w cli \<Rightarrow> diagnostic list \<times> 'w cli_provider option \<times> 'w cli" where
  "provider_checks E x cfg c =
    (let name = ''provider '' @ cf_Provider cfg
     in (case build_provider E cfg c of
           (Inl e, c1) \<Rightarrow> ([diag name False (err_text e) []], None, c1)
         | (Inr p, c1) \<Rightarrow>
            (let caps = w_Capabilities (cp_prov p);
                 idle = diag ''idle handling'' True (cap_IdleMechanism caps @ ''; ssh-as-activity: '' @
                   attribution_text (cap_SSHActivityAttribution caps)) ''the gateway never runs its own idle timer''
             in (case cp_diagnose p of
                   Some d \<Rightarrow> (case d x (cl_world c1) of (ds, w) \<Rightarrow> (ds @ [idle], Some p, c1\<lparr>cl_world := w\<rparr>))
                 | None \<Rightarrow> ([diag name True ''instantiated (no self-checks available)'' [], idle], Some p, c1)))))"

definition check_json :: "diagnostic \<Rightarrow> json" where
  "check_json d = JObj ([(''name'', JStr (dg_Name d)), (''ok'', JBool (dg_OK d))] @
     omit_empty ''detail'' (dg_Detail d) @ omit_empty ''hint'' (dg_Hint d))"

definition pad_right :: "nat \<Rightarrow> string \<Rightarrow> string" where
  "pad_right n s = s @ replicate (n - text_width s) (CHR '' '')"

definition check_text :: "diagnostic \<Rightarrow> string" where
  "check_text d =
    ''['' @ (if dg_OK d then ''ok  '' else ''FAIL'') @ ''] '' @ pad_right 20 (dg_Name d) @ '' '' @ dg_Detail d @ [newline] @
    (if dg_Hint d \<noteq> [] \<and> \<not> dg_OK d then ''       hint: '' @ dg_Hint d @ [newline] else [])"

definition errNotHealthy :: goerr where
  "errNotHealthy = Errorf ''one or more checks failed''"

definition doctor_report :: "diagnostic list \<Rightarrow> 'w cli \<Rightarrow> 'w outcome_cmd" where
  "doctor_report checks c =
    (let failures = length (filter (\<lambda>d. \<not> dg_OK d) checks)
     in if ap_jsonOut (cl_app c) then
          (let c1 = app_writeJSON (JObj [(''checks'', JArr (map check_json checks)), (''ok'', JBool (failures = 0))]) c
           in if failures > 0 then fail_cmd errNotHealthy c1 else ok_cmd c1)
        else
          (let c1 = out (concat (map check_text checks) @ [newline]) c
           in if failures > 0 then fail_cmd (Errorf (show_nat failures @ '' check(s) failed'')) c1
              else ok_cmd (outln ''all checks passed; run `gateway start`'' c1)))"

definition doctor_checks ::
  "('n, 'k, 'w) cli_env \<Rightarrow> 'n config \<Rightarrow> 'w cli \<Rightarrow> (goerr + diagnostic list \<times> 'w cli_provider option) \<times> 'w cli" where
  "doctor_checks E cfg c =
    (let here = [diag ''config file'' True (cf_path cfg) [], permission_check E cfg, listen_check E cfg, auth_check E cfg c]
     in (case load_host_key E cfg c of
           (r, c1) \<Rightarrow>
             (case app_logger E cfg True c1 of
                Some e \<Rightarrow> (Inl e, c1)
              | None \<Rightarrow>
                 (case provider_checks E (WithTimeout ctx_bg (180 * second) (ce_now E (cl_world c1))) cfg c1 of
                    (ds, p, c2) \<Rightarrow> (Inr (here @ [host_key_check E cfg r] @ ds, p), c2)))))"

definition cmdDoctor :: "('n, 'k, 'w) cli_env \<Rightarrow> string list \<Rightarrow> 'w cli \<Rightarrow> 'w outcome_cmd" where
  "cmdDoctor E args =
    with_flags E ''doctor'' [] () args (\<lambda>rest _.
      with_config E (\<lambda>cfg c.
        case doctor_checks E cfg c of
          (Inl e, c1) \<Rightarrow> fail_cmd e c1
        | (Inr (checks, p), c1) \<Rightarrow>
            (case doctor_report checks c1 of
               (r, c2) \<Rightarrow> (r, case p of None \<Rightarrow> c2 | Some p \<Rightarrow> close_provider p c2))))"

section \<open>ssh-config\<close>

definition patch_ssh ::
  "('n, 'k, 'w) cli_env \<Rightarrow> string \<Rightarrow> string \<Rightarrow> string \<Rightarrow> 'w cli \<Rightarrow> (goerr + string) \<times> 'w cli" where
  "patch_ssh E path block host c =
    (case patchSSHConfig path block host \<lparr>uf_content = read_file E c path, uf_mkdir = ce_mkdir E (path_Dir path) 448,
        uf_write = ce_overwrite E path\<rparr> of
       (r, f) \<Rightarrow> (r, put_file path (uf_content f) c))"

definition own_block :: "('n, 'k, 'w) cli_env \<Rightarrow> string \<Rightarrow> 'n config \<Rightarrow> string" where
  "own_block E host cfg =
    (let listen = sf_Listen (cf_SSH cfg)
     in sshConfigBlock host (hostForConfig (ce_hostname E) listen) (listenPort listen))"

record ssh_flags =
  sg_write :: bool
  sg_remove :: bool
  sg_host :: string
  sg_path :: string

definition ssh_flagset :: "(string \<times> (app \<times> ssh_flags) flag) list" where
  "ssh_flagset =
    [(''write'', bool_flag (\<lambda>b. own (\<lambda>x. x\<lparr>sg_write := b\<rparr>))), (''remove'', bool_flag (\<lambda>b. own (\<lambda>x. x\<lparr>sg_remove := b\<rparr>))),
     (''host'', string_flag (\<lambda>v. own (\<lambda>x. x\<lparr>sg_host := v\<rparr>))), (''file'', string_flag (\<lambda>v. own (\<lambda>x. x\<lparr>sg_path := v\<rparr>)))]"

definition ssh_default :: ssh_flags where
  "ssh_default = \<lparr>sg_write = False, sg_remove = False, sg_host = DefaultSSHHost, sg_path = []\<rparr>"

definition said :: "string \<Rightarrow> string \<Rightarrow> string" where
  "said target action = target @ utf8 [0xFF1A] @ action"

definition ssh_config_run :: "('n, 'k, 'w) cli_env \<Rightarrow> ssh_flags \<Rightarrow> string \<Rightarrow> 'w cli \<Rightarrow> 'w outcome_cmd" where
  "ssh_config_run E x target c =
    (if sg_remove x then
       (case patch_ssh E target [] (sg_host x) c of
          (Inl e, c1) \<Rightarrow> fail_cmd e c1
        | (Inr action, c1) \<Rightarrow> ok_cmd (outln (said target action) c1))
     else
       with_config E (\<lambda>cfg c.
         let block = own_block E (sg_host x) cfg
         in if \<not> sg_write x then
              ok_cmd (outln ([newline] @ utf8 [0x52A0, 0x4E0A] @ '' -write '' @ utf8 [0x53EF, 0x76F4, 0x63A5, 0x5199, 0x5165] @ '' '' @ target) (out block c))
            else
              (case patch_ssh E target block (sg_host x) c of
                 (Inl e, c1) \<Rightarrow> fail_cmd e c1
               | (Inr action, c1) \<Rightarrow>
                   ok_cmd (outln (utf8 [0x73B0, 0x5728, 0x53EF, 0x4EE5, 0x76F4, 0x63A5, 0xFF1A] @ '' ssh root@'' @ sg_host x) (outln (said target action) c1)))) c)"

definition cmdSSHConfig :: "('n, 'k, 'w) cli_env \<Rightarrow> string list \<Rightarrow> 'w cli \<Rightarrow> 'w outcome_cmd" where
  "cmdSSHConfig E args =
    with_flags E ''ssh-config'' ssh_flagset ssh_default args (\<lambda>rest x c.
      if sg_path x \<noteq> [] then ssh_config_run E x (sg_path x) c
      else (case he_home (ce_host E) of
              Inl e \<Rightarrow> fail_cmd e c
            | Inr home \<Rightarrow> ssh_config_run E x (path_Join [home, ''.ssh'', ''config'']) c))"

section \<open>start\<close>

definition ensureSSHAlias :: "('n, 'k, 'w) cli_env \<Rightarrow> 'n config \<Rightarrow> 'w cli \<Rightarrow> 'w cli" where
  "ensureSSHAlias E cfg c =
    (if \<not> AliasEnabled cfg then c
     else
       (case he_home (ce_host E) of
          Inl _ \<Rightarrow> c
        | Inr home \<Rightarrow>
           (let path = path_Join [home, ''.ssh'', ''config'']
            in (case patch_ssh E path (own_block E DefaultSSHHost cfg) DefaultSSHHost c of
                  (Inl e, c1) \<Rightarrow> warnln (''gateway: '' @ utf8 [0x6CA1, 0x6709, 0x66F4, 0x65B0] @ '' '' @ path @ utf8 [0xFF1A] @ err_text e) c1
                | (Inr action, c1) \<Rightarrow>
                    if action = said_written \<or> action = said_updated then
                      outln (action @ '' '' @ path @ utf8 [0xFF1A] @ ''ssh root@'' @ DefaultSSHHost @ '' '' @ utf8 [0x73B0, 0x5728, 0x53EF, 0x7528]) c1
                    else c1))))"

definition idleSummary :: "gateway_status \<Rightarrow> string" where
  "idleSummary st =
    (if gs_StopOnLastDisconnect st then
       utf8 [0x65AD, 0x5F00, 0x6700, 0x540E, 0x4E00, 0x4E2A, 0x4F1A, 0x8BDD, 0x5373, 0x8C03, 0x7528] @
     '' Provider.Stop()'' @ utf8 [0xFF08] @ ''stop_on_last_disconnect: true'' @ utf8 [0xFF09]
     else if \<not> cap_ProviderManagedIdle (gs_Capabilities st) then ''provider '' @ utf8 [0x4E0D, 0x7BA1, 0x7406] @ '' idle '' @ utf8 [0x72B6, 0x6001]
     else utf8 [0x4EA4, 0x7ED9] @ '' '' @ cap_IdleMechanism (gs_Capabilities st) @ utf8 [0xFF08] @ ''ssh '' @ utf8 [0x662F, 0x5426, 0x7B97, 0x6D3B, 0x8DC3, 0xFF1A] @
       attribution_text (cap_SSHActivityAttribution (gs_Capabilities st)) @ utf8 [0xFF1B] @ ''gateway '' @ utf8 [0x81EA, 0x5DF1, 0x6CA1, 0x6709, 0x8BA1, 0x65F6, 0x5668, 0xFF09])"

definition banner_rows :: "gateway_status \<Rightarrow> string \<Rightarrow> string list list" where
  "banner_rows st path =
    [[''  provider'', gs_Provider st], [''  '' @ utf8 [0x76EE, 0x6807] @ '' codespace'', fieldOrDash (gs_DefaultEnvironment st)],
     [''  '' @ utf8 [0x5BA2, 0x6237, 0x7AEF, 0x8BA4, 0x8BC1], gs_ClientAuth st], [''  host key'', gs_HostKeyFingerprint st], [''  '' @ utf8 [0x505C, 0x673A, 0x7B56, 0x7565], idleSummary st]] @
    (if path \<noteq> [] then [[''  '' @ utf8 [0x914D, 0x7F6E, 0x6587, 0x4EF6], path]] else [])"

definition printBanner ::
  "('n, 'k, 'w) cli_env \<Rightarrow> gateway_status \<Rightarrow> string option \<Rightarrow> 'n config \<Rightarrow> 'w cli \<Rightarrow> 'w cli" where
  "printBanner E st pw cfg c =
    (let port = listenPort (gs_Listen st); host = hostForConfig (ce_hostname E) (gs_Listen st);
         c1 = out_table (banner_rows st (cf_path cfg))
           (out ([newline] @ ''ssh-gateway 0.1.0 '' @ utf8 [0x5DF2, 0x542F, 0x52A8, 0xFF0C, 0x76D1, 0x542C] @ '' '' @ gs_Listen st @ [newline, newline]) c);
         c2 = (case pw of
             None \<Rightarrow> c1
           | Some p \<Rightarrow> outln (''  '' @ utf8 [0x60F3, 0x56FA, 0x5B9A, 0x4E0B, 0x6765, 0x5C31, 0x5728, 0x914D, 0x7F6E, 0x91CC, 0x5199] @
     '' ssh.password'' @ utf8 [0x3002])
               (outln ([newline] @ ''  '' @ utf8 [0x672C, 0x6B21, 0x751F, 0x6210, 0x7684] @ '' ssh '' @
     utf8 [0x5BC6, 0x7801, 0xFF08, 0x53EA, 0x663E, 0x793A, 0x4E00, 0x6B21, 0xFF09, 0xFF1A] @ p) c1))
     in out (''  Host codespace'' @ [newline] @ ''    HostName '' @ host @ [newline] @ ''    Port '' @ port @ [newline] @ ''    User root'' @ [newline] @ [newline]) (outln ([newline] @ utf8 [0x60F3, 0x76F4, 0x63A5, 0x7528] @ '' `ssh root@codespace`'' @
     utf8 [0xFF0C, 0x628A, 0x8FD9, 0x6BB5, 0x52A0, 0x8FDB] @ '' ~/.ssh/config'' @ utf8 [0xFF1A])
          (outln ([newline] @ utf8 [0x73B0, 0x5728, 0x5C31, 0x80FD, 0x8FDE, 0xFF1A] @ [newline] @ ''  ssh -p '' @ port @ '' root@'' @ host) c2)))"

definition start_gateway ::
  "('n, 'k, 'w) cli_env \<Rightarrow> 'n config \<Rightarrow> 'w cli \<Rightarrow> (goerr + 'w cli_provider \<times> gateway \<times> 'k server) \<times> 'w cli" where
  "start_gateway E cfg c =
    (let path = HostKeyPath (ce_host E) cfg
     in (case gateway_New (ce_yaml E) (ce_host E) (ce_keys E) (ce_hostlib E) (ce_registry E) (private_dir E) cp_close cfg
             (read_file E c (keys_path E cfg)) (ce_random E) (cl_red c)
             ((ce_keyfault E)\<lparr>kf_content := read_file E c path\<rparr>) (cl_world c) of
           (r, red, f, w) \<Rightarrow> (r, put_file path (kf_content f) (c\<lparr>cl_red := red, cl_world := w\<rparr>))))"

definition running_of ::
  "('n, 'k, 'w) cli_env \<Rightarrow> 'n config \<Rightarrow> 'w cli_provider \<Rightarrow> 'k server \<Rightarrow> string \<Rightarrow> int \<Rightarrow> ('n, 'k, 'w) running" where
  "running_of E cfg p srv addr started =
    \<lparr>rn_cfg = cfg, rn_prov = cp_prov p, rn_info = cp_info p,
     rn_summary = map_option reg_Summary (Lookup (w_Name (cp_prov p)) (ce_registry E)), rn_keylib = ce_keys E,
     rn_server = srv, rn_bound = Some addr, rn_startedAt = started\<rparr>"

definition run_started ::
  "('n, 'k, 'w) cli_env \<Rightarrow> 'n config \<Rightarrow> 'w cli_provider \<Rightarrow> gateway \<Rightarrow> 'k server \<Rightarrow> int \<Rightarrow> 'w cli \<Rightarrow> 'w outcome_cmd" where
  "run_started E cfg p g srv started c =
    (case ce_bind E (sf_Listen (cf_SSH cfg)) (cl_world c) of
       (Inl e, w) \<Rightarrow> fail_cmd e (c\<lparr>cl_world := w\<rparr>)
     | (Inr addr, w) \<Rightarrow>
        (let c1 = ensureSSHAlias E cfg (c\<lparr>cl_world := w\<rparr>);
             st = fst (gateway_Status (running_of E cfg p srv addr started) g (cl_world c1));
             c2 = printBanner E st (GeneratedPassword (svr_auth srv)) cfg c1
         in do_world (gateway_Run (ce_os E) (ce_host E) (ce_pid E) (\<lambda>w. (None, w)) (ce_serve E) True cfg) ok_cmd c2))"

definition cmdStart :: "('n, 'k, 'w) cli_env \<Rightarrow> string list \<Rightarrow> 'w cli \<Rightarrow> 'w outcome_cmd" where
  "cmdStart E args =
    with_flags E ''start'' [(''listen'', string_flag (\<lambda>v. own (\<lambda>_. v)))] [] args (\<lambda>rest listen.
      with_config E (\<lambda>cfg0 c.
        let cfg = (if listen \<noteq> [] then cfg0\<lparr>cf_SSH := (cf_SSH cfg0)\<lparr>sf_Listen := listen\<rparr>\<rparr> else cfg0)
        in (case app_logger E cfg False c of
              Some e \<Rightarrow> fail_cmd e c
            | None \<Rightarrow>
               (case start_gateway E cfg c of
                  (Inl e, c1) \<Rightarrow> fail_cmd e c1
                | (Inr (p, g, srv), c1) \<Rightarrow>
                    (case run_started E cfg p g srv (ce_now E (cl_world c)) c1 of
                       (r, c2) \<Rightarrow> (r, close_provider p c2))))))"

section \<open>stop\<close>

text \<open>\<open>Sscanf("%d")\<close>: a sign and digits, whatever follows.\<close>

definition scan_int :: "string \<Rightarrow> int option" where
  "scan_int s =
    (let (neg, r) = (case s of c # cs \<Rightarrow> if c = CHR ''-'' then (True, cs) else if c = CHR ''+'' then (False, cs) else (False, s)
         | [] \<Rightarrow> (False, s));
         ds = takeWhile is_digit r
     in (case read_digits 0 ds of
           Some n \<Rightarrow>
             if ds = [] \<or> int n \<ge> 2 ^ 63 then None else Some (if neg then - int n else int n)
         | None \<Rightarrow> None))"

definition readPID :: "('n, 'k, 'w) cli_env \<Rightarrow> string \<Rightarrow> 'w cli \<Rightarrow> goerr + int" where
  "readPID E path c =
    (case read_file E c path of
       FileContent raw \<Rightarrow>
         (case scan_int (TrimSpace raw) of
            Some pid \<Rightarrow>
              if pid \<le> 0 then Inl (Errorf (''unreadable pid file '' @ path))
              else (case ce_process E pid of
                      Some e \<Rightarrow> Inl (Wrapf (''pid '' @ show_int pid @ '' is not running: '') e [])
                    | None \<Rightarrow> Inr pid)
          | None \<Rightarrow> Inl (Errorf (''unreadable pid file '' @ path)))
     | FileMissing \<Rightarrow> Inl (Ext (''open '' @ path @ '': no such file or directory'') None)
     | FileError e \<Rightarrow> Inl e)"

definition cmdStop :: "('n, 'k, 'w) cli_env \<Rightarrow> string list \<Rightarrow> 'w cli \<Rightarrow> 'w outcome_cmd" where
  "cmdStop E args =
    with_flags E ''stop'' [] () args (\<lambda>rest _.
      with_config E (\<lambda>cfg c.
        let sock = ControlSocketPath (ce_host E) cfg
        in if ce_alive E sock (cl_world c) then
             ask_world (control_stop (ce_socket E sock) sock) (\<lambda>_ c. ok_cmd (outln ''gateway stopping'' c)) c
           else
             (case readPID E (PIDFile (cf_StateDir cfg)) c of
                Inl _ \<Rightarrow> usage_error (''no running gateway found (no control socket at '' @ sock @ '')'') c
              | Inr pid \<Rightarrow>
                 (case ce_sigterm E pid (cl_world c) of
                    (Some e, w) \<Rightarrow> fail_cmd (Wrapf (''signal pid '' @ show_int pid @ '': '') e []) (c\<lparr>cl_world := w\<rparr>)
                  | (None, w) \<Rightarrow> ok_cmd (outln (''sent SIGTERM to pid '' @ show_int pid) (c\<lparr>cl_world := w\<rparr>))))))"

section \<open>status\<close>

definition status_rows :: "gateway_status \<Rightarrow> string list list" where
  "status_rows st =
    [[''  listen'', gs_Listen st], [''  provider'', gs_Provider st @ '' ('' @ gs_ProviderSummary st @ '')'']] @
    map (\<lambda>k. [''    '' @ k, getz (gs_ProviderInfo st) k []]) (sortedKeys (gs_ProviderInfo st)) @
    [[''  default environment'', fieldOrDash (gs_DefaultEnvironment st)], [''  host key'', gs_HostKeyFingerprint st],
     [''  sessions'', show_nat (length (gs_Sessions st))], [''  idle handling'', idleSummary st],
     [''  stop on last disconnect'', onOff (gs_StopOnLastDisconnect st)]]"

definition since_text :: "int \<Rightarrow> int \<Rightarrow> string" where
  "since_text now t = seconds_text (round_second (now - t))"

definition status_env_row :: "int \<Rightarrow> env_status \<Rightarrow> string list" where
  "status_env_row now e =
    (let s = st_State e
     in [''  '' @ (if es_resolved s \<noteq> [] \<and> es_resolved s \<noteq> st_Environment e
           then st_Environment e @ '' -> '' @ es_resolved s else st_Environment e),
         phase_name (es_phase s), fieldOrDash (es_native s), show_int (es_starts s), show_int (es_connects s),
         since_text now (es_since s)])"

text \<open>A session without a start time has the longest duration there is as its age.\<close>

definition session_row :: "int \<Rightarrow> info \<Rightarrow> string list" where
  "session_row now i =
    [''  '' @ i_ID i, i_User i, i_Environment i, i_Kind i, if i_PTY i then ''true'' else ''false'', i_RemoteAddr i,
     case i_StartedAt i of Some t \<Rightarrow> since_text now t | None \<Rightarrow> ''2562047h47m16.854775807s'']"

definition printStatus :: "int \<Rightarrow> gateway_status \<Rightarrow> 'w cli \<Rightarrow> 'w cli" where
  "printStatus now st c =
    (let c1 = out_table (status_rows st) (out (''gateway is running (uptime '' @ gs_Uptime st @ '')'' @ [newline, newline]) c);
         c2 = (if gs_Environments st = [] then c1
           else
             (let t = out_table ([''  HANDLE'', ''PHASE'', ''PROVIDER STATE'', ''STARTS'', ''CONNECTS'', ''SINCE''] #
                  map (status_env_row now) (gs_Environments st)) (outln (newline # ''Environments:'') c1)
              in fold (\<lambda>e. if es_lastErr (st_State e) \<noteq> []
                   then outln (''  last error ('' @ st_Environment e @ ''): '' @ es_lastErr (st_State e)) else id)
                 (gs_Environments st) t));
         c3 = (if gs_Sessions st = [] then c2
           else out_table ([''  ID'', ''USER'', ''ENVIRONMENT'', ''KIND'', ''PTY'', ''FROM'', ''AGE''] #
             map (session_row now) (gs_Sessions st)) (outln (newline # ''Sessions:'') c2))
     in if cap_Notes (gs_Capabilities st) = [] then c3
        else fold (\<lambda>n. outln (''  - '' @ n)) (cap_Notes (gs_Capabilities st)) (outln (newline # ''Provider notes:'') c3))"

definition stopped_json :: "('n, 'k, 'w) cli_env \<Rightarrow> 'n config \<Rightarrow> json" where
  "stopped_json E cfg =
    JObj [(''auto_create'', JBool (lf_AutoCreate (cf_Lifecycle cfg))), (''config_path'', JStr (cf_path cfg)),
      (''control_socket'', JStr (ControlSocketPath (ce_host E) cfg)), (''listen'', JStr (sf_Listen (cf_SSH cfg))),
      (''provider'', JStr (cf_Provider cfg)), (''running'', JBool False), (''state_dir'', JStr (cf_StateDir cfg)),
      (''stop_on_disconnect'', JBool (lf_StopOnLastDisconnect (cf_Lifecycle cfg)))]"

definition stopped_rows :: "'n config \<Rightarrow> string list list" where
  "stopped_rows cfg =
    [[''  config'', cf_path cfg], [''  provider'', cf_Provider cfg], [''  listen'', sf_Listen (cf_SSH cfg)],
     [''  state dir'', cf_StateDir cfg], [''  auto create'', onOff (lf_AutoCreate (cf_Lifecycle cfg))],
     [''  stop on last disconnect'', onOff (lf_StopOnLastDisconnect (cf_Lifecycle cfg))]]"

definition cmdStatus :: "('n, 'k, 'w) cli_env \<Rightarrow> string list \<Rightarrow> 'w cli \<Rightarrow> 'w outcome_cmd" where
  "cmdStatus E args =
    with_flags E ''status'' [] () args (\<lambda>rest _.
      with_config E (\<lambda>cfg c.
        let sock = ControlSocketPath (ce_host E) cfg
        in if ce_alive E sock (cl_world c) then
             ask_world (control_status (ce_socket E sock) sock (ce_decode E)) (\<lambda>st c.
               if ap_jsonOut (cl_app c) then ok_cmd (out (ce_encode E st) c)
               else ok_cmd (printStatus (ce_now E (cl_world c)) st c)) c
           else if ap_jsonOut (cl_app c) then ok_cmd (app_writeJSON (stopped_json E cfg) c)
           else
             ok_cmd (outln (newline # ''Run `gateway doctor` to check it against the provider.'')
               (out_table (stopped_rows cfg)
                 (out (''gateway is not running (no control socket at '' @ sock @ '')'' @ [newline, newline]) c)))))"

end
