(* ===== verification/CliSetup.thy ===== *)
theory CliSetup
  imports CliServe "HOL-Library.Monad_Syntax"
begin

text \<open>
  The interactive setup (\<open>cli/setup.go\<close>) and the dispatch of the command line (\<open>Run\<close> in
  \<open>cli/cli.go\<close>). Prompts ask again until they get an answer, so the functions here are partial;
  that they return on every input is proved at the end.
\<close>

section \<open>Asking\<close>

definition on_tm :: "'a \<times> terminal \<Rightarrow> 'w cli \<Rightarrow> 'a \<times> 'w cli" where
  "on_tm r c = (fst r, c\<lparr>cl_tm := snd r\<rparr>)"

definition p_confirm :: "string \<Rightarrow> bool \<Rightarrow> 'w cli \<Rightarrow> (bool \<times> 'w cli) option" where
  "p_confirm q def c = map_option (\<lambda>r. on_tm r c) (confirm q def (cl_tm c))"

definition p_menu :: "string \<Rightarrow> menu_item list \<Rightarrow> nat \<Rightarrow> 'w cli \<Rightarrow> (nat \<times> 'w cli) option" where
  "p_menu title items def c = map_option (\<lambda>r. on_tm r c) (menu title items def (cl_tm c))"

definition p_ask :: "string \<Rightarrow> string \<Rightarrow> 'w cli \<Rightarrow> string \<times> 'w cli" where
  "p_ask q def c = on_tm (ask q def (cl_tm c)) c"

definition p_secret :: "('n, 'k, 'w) cli_env \<Rightarrow> string \<Rightarrow> 'w cli \<Rightarrow> string \<times> 'w cli" where
  "p_secret E q c = on_tm (prompt_secret (ce_interactive E \<and> ce_quiet E) q (cl_tm c)) c"

definition ended :: "'w cli \<Rightarrow> bool" where
  "ended c = tm_eof (cl_tm c)"

definition item :: "string \<Rightarrow> string \<Rightarrow> menu_item" where
  "item label detail = \<lparr>mi_Label = label, mi_Detail = detail\<rparr>"

text \<open>A loop whose rounds may not return either.\<close>

partial_function (option) ask_again :: "('s \<Rightarrow> ('s + 'r) option) \<Rightarrow> 's \<Rightarrow> 'r option" where
  "ask_again f s = do { x \<leftarrow> f s; case x of Inl s1 \<Rightarrow> ask_again f s1 | Inr r \<Rightarrow> Some r }"

section \<open>The provider and the file\<close>

definition setupProvider ::
  "('n, 'k, 'w) cli_env \<Rightarrow> 'w cli \<Rightarrow>
   ((goerr + ('n, 'w cli_provider, 'w) factory registration) \<times> 'w cli) option" where
  "setupProvider E c =
    (let regs = Registrations (ce_registry E)
     in (case regs of
           [] \<Rightarrow> Some (Inl (Errorf (utf8 [0x8FD9, 0x4E2A, 0x6784, 0x5EFA, 0x6CA1, 0x6709, 0x7F16, 0x8BD1, 0x8FDB, 0x4EFB, 0x4F55] @ '' provider'')), c)
         | [r] \<Rightarrow> Some (Inr r, outln (''Provider'' @ utf8 [0xFF1A] @ reg_Name r) c)
         | _ \<Rightarrow>
             do { (k, c1) \<leftarrow> p_menu (utf8 [0x7528, 0x54EA, 0x4E2A] @ '' provider'' @ utf8 [0xFF1F]) (map (\<lambda>r. item (reg_Name r) (reg_Summary r)) regs) 0 c;
                  Some (Inr (regs ! k), c1) }))"

definition setupConfigFile ::
  "('n, 'k, 'w) cli_env \<Rightarrow> string \<Rightarrow> string \<Rightarrow> 'w cli \<Rightarrow> (goerr option \<times> 'w cli) option" where
  "setupConfigFile E path provider c =
    (case stat_file E c path of
       FileContent _ \<Rightarrow>
         do { (b, c1) \<leftarrow> p_confirm (utf8 [0x7EE7, 0x7EED, 0xFF1F]) True (outln (newline # path @ '' '' @ utf8 [0x5DF2, 0x5B58, 0x5728, 0xFF0C, 0x5C06, 0x5C31, 0x5730, 0x4FEE, 0x6539, 0x3002]) c);
              Some (if b then (None, c1) else (Some (Errorf (utf8 [0x5DF2, 0x53D6, 0x6D88])), c1)) }
     | FileError e \<Rightarrow> Some (Some e, c)
     | FileMissing \<Rightarrow>
         (case WriteFile E path (Template provider [] [] []) c of
            (Some e, c1) \<Rightarrow> Some (Some e, c1)
          | (None, c1) \<Rightarrow> Some (None, outln ([newline] @ utf8 [0x5DF2, 0x521B, 0x5EFA] @ '' '' @ path @ utf8 [0xFF08, 0x6743, 0x9650] @ '' 0600'' @ utf8 [0xFF09]) c1)))"

section \<open>The credential\<close>

definition tryProvider ::
  "('n, 'k, 'w) cli_env \<Rightarrow> string \<Rightarrow> 'w cli \<Rightarrow> (goerr + 'w cli_provider \<times> environment list) \<times> 'w cli" where
  "tryProvider E path c =
    (case config_Load E path c of
       Inl e \<Rightarrow> (Inl e, c)
     | Inr cfg \<Rightarrow>
        (case app_logger E cfg True c of
           Some e \<Rightarrow> (Inl e, c)
         | None \<Rightarrow>
            (let x = WithTimeout ctx_bg (60 * second) (ce_now E (cl_world c))
             in (case build_provider E cfg c of
                   (Inl e, c1) \<Rightarrow> (Inl e, c1)
                 | (Inr p, c1) \<Rightarrow>
                    (case w_List (cp_prov p) x (cl_world c1) of
                       (Inl e, w) \<Rightarrow> (Inl e, close_provider p (c1\<lparr>cl_world := w\<rparr>))
                     | (Inr envs, w) \<Rightarrow> (Inr (p, envs), c1\<lparr>cl_world := w\<rparr>))))))"

definition token_items :: "string \<Rightarrow> menu_item list" where
  "token_items path =
    [item (utf8 [0x73B0, 0x5728, 0x7C98, 0x8D34] @ '' token'') (utf8 [0x5199, 0x5165] @ '' '' @ path @ utf8 [0xFF0C, 0x6743, 0x9650] @ '' 0600''),
     item (utf8 [0x7528, 0x73AF, 0x5883, 0x53D8, 0x91CF] @ '' $GITHUB_TOKEN / $GH_TOKEN'') (utf8 [0x4E0D, 0x5199, 0x5165, 0x78C1, 0x76D8]),
     item (utf8 [0x7528] @ '' gh '' @ utf8 [0x5DF2, 0x767B, 0x5F55, 0x7684, 0x8D26, 0x53F7]) (''gateway '' @ utf8 [0x542F, 0x52A8, 0x65F6, 0x8C03, 0x7528] @ '' `gh auth token`''),
     item (utf8 [0x4EE5, 0x540E, 0x518D, 0x8BF4]) (utf8 [0x4E4B, 0x540E, 0x53EF, 0x8FD0, 0x884C] @ '' `gateway config set-token`'')]"

text \<open>The end of a round: try what is there now.\<close>

definition token_try ::
  "('n, 'k, 'w) cli_env \<Rightarrow> string \<Rightarrow> 'w cli \<Rightarrow> ('w cli + 'w cli_provider option \<times> 'w cli) option" where
  "token_try E path c =
    (if ended c then Some (Inr (None, c))
     else
       (case tryProvider E path c of
          (Inl e, c1) \<Rightarrow>
            do { (b, c2) \<leftarrow> p_confirm (''  '' @ utf8 [0x6362, 0x4E00, 0x79CD, 0x65B9, 0x5F0F, 0xFF1F]) True
                   (outln ([newline] @ ''  '' @ utf8 [0x8FD9, 0x4E2A, 0x51ED, 0x636E, 0x7528, 0x4E0D, 0x4E86, 0xFF1A] @ Redact (cl_red c1) (err_text e)) c1);
                 Some (if b then Inl c2 else Inr (None, c2)) }
        | (Inr (p, envs), c1) \<Rightarrow>
            Some (Inr (Some p, outln ([newline] @ ''  '' @ utf8 [0x5DF2, 0x9A8C, 0x8BC1, 0xFF1A, 0x53EF, 0x89C1] @ '' '' @ show_nat (length envs) @ '' '' @ utf8 [0x4E2A] @ '' codespace'') c1))))"

definition token_pasted ::
  "('n, 'k, 'w) cli_env \<Rightarrow> string \<Rightarrow> string \<Rightarrow> 'w cli \<Rightarrow> ('w cli + 'w cli_provider option \<times> 'w cli) option" where
  "token_pasted E path key c =
    (case p_secret E (''Token'' @ utf8 [0xFF08, 0x8F93, 0x5165, 0x4E0D, 0x56DE, 0x663E, 0xFF09]) c of
       (token, c1) \<Rightarrow>
         if token = [] then
           (let c2 = outln (''  '' @ utf8 [0x6CA1, 0x6709, 0x8F93, 0x5165, 0x5185, 0x5BB9]) c1 in Some (if ended c2 then Inr (None, c2) else Inl c2))
         else
           (case patch_config E path [key, ''token''] token (c1\<lparr>cl_red := Add (cl_red c1) [token]\<rparr>) of
              (Some e, c2) \<Rightarrow> Some (Inl (warnln (''gateway: '' @ err_text e) c2))
            | (None, c2) \<Rightarrow> token_try E path c2))"

definition token_from_env ::
  "('n, 'k, 'w) cli_env \<Rightarrow> string \<Rightarrow> 'w cli \<Rightarrow> ('w cli + 'w cli_provider option \<times> 'w cli) option" where
  "token_from_env E path c =
    (if he_getenv (ce_host E) ''GITHUB_TOKEN'' = [] \<and> he_getenv (ce_host E) ''GH_TOKEN'' = [] then
       do { (b, c1) \<leftarrow> p_confirm (''  '' @ utf8 [0x4ECD, 0x7136, 0x7EE7, 0x7EED, 0xFF1F]) False
              (outln (''  '' @ utf8 [0x5F53, 0x524D] @ '' shell '' @ utf8 [0x91CC] @ '' $GITHUB_TOKEN '' @ utf8 [0x548C] @ ''
     $GH_TOKEN '' @ utf8 [0x90FD, 0x662F, 0x7A7A, 0x7684]) c);
            if b then token_try E path c1 else Some (Inl c1) }
     else token_try E path c)"

definition token_answer ::
  "('n, 'k, 'w) cli_env \<Rightarrow> string \<Rightarrow> string \<Rightarrow> nat \<Rightarrow> 'w cli \<Rightarrow>
   ('w cli + 'w cli_provider option \<times> 'w cli) option" where
  "token_answer E path key k c =
    (if k = 0 then token_pasted E path key c
     else if k = 1 then token_from_env E path c
     else if k = 2 then token_try E path (outln (''  gateway '' @ utf8 [0x542F, 0x52A8, 0x65F6, 0x4F1A, 0x8C03, 0x7528] @ '' `gh auth token`'') c)
     else Some (Inr (None, c)))"

definition token_round ::
  "('n, 'k, 'w) cli_env \<Rightarrow> string \<Rightarrow> string \<Rightarrow> 'w cli \<Rightarrow> ('w cli + 'w cli_provider option \<times> 'w cli) option" where
  "token_round E path key c =
    do { (k, c1) \<leftarrow> p_menu (''token '' @ utf8 [0x600E, 0x4E48, 0x7ED9, 0xFF1F]) (token_items path) 0 c; token_answer E path key k c1 }"

definition setupToken ::
  "('n, 'k, 'w) cli_env \<Rightarrow> string \<Rightarrow> string \<Rightarrow> 'w cli \<Rightarrow> ('w cli_provider option \<times> 'w cli) option" where
  "setupToken E path key c =
    (case tryProvider E path c of
       (Inr (p, envs), c1) \<Rightarrow>
         Some (Some p, outln ([newline] @ utf8 [0x5DF2, 0x68C0, 0x6D4B, 0x5230, 0x53EF, 0x7528, 0x51ED, 0x636E, 0xFF1A, 0x53EF, 0x89C1] @ ''
     '' @ show_nat (length envs) @ '' '' @ utf8 [0x4E2A] @ '' codespace'') c1)
     | (Inl _, c1) \<Rightarrow>
         ask_again (token_round E path key)
           (outln (utf8 [0xFF08] @ ''https://github.com/settings/tokens '' @ utf8 [0x65B0, 0x5EFA, 0xFF0C, 0x52FE, 0x9009] @ ''
     codespace'' @ utf8 [0xFF09])
             (out ([newline] @ utf8 [0x9700, 0x8981, 0x4E00, 0x4E2A, 0x6709] @ '' codespace '' @ utf8 [0x6743, 0x9650, 0x7684] @
     '' GitHub token'') c1)))"

section \<open>The environment\<close>

definition setup_lists ::
  "'w cli_provider \<Rightarrow> ctx \<Rightarrow> 'w cli \<Rightarrow> (string \<times> string) list \<times> 'w cli" where
  "setup_lists p x c =
    (case cp_sources p of
       None \<Rightarrow> ([], c)
     | Some lister \<Rightarrow>
        (case lister x 20 (cl_world c) of
           (Inl e, w) \<Rightarrow>
             ([], outln (''  '' @ utf8 [0x5217, 0x4E3E, 0x4ED3, 0x5E93, 0x5931, 0x8D25, 0xFF1A] @ Redact (cl_red c) (err_text e)) (c\<lparr>cl_world := w\<rparr>))
         | (Inr sources, w) \<Rightarrow> (sources, c\<lparr>cl_world := w\<rparr>)))"

definition source_items :: "(string \<times> string) list \<Rightarrow> menu_item list" where
  "source_items sources = map (\<lambda>(name, detail). item name detail) sources @
     [item (utf8 [0x624B, 0x52A8, 0x8F93, 0x5165] @ '' owner/name'') [],
      item (utf8 [0x4EE5, 0x540E, 0x518D, 0x8BF4]) (utf8 [0x4E4B, 0x540E, 0x53EF, 0x4EE5, 0x81EA, 0x5DF1, 0x5728, 0x7F51, 0x9875, 0x5EFA] @ '' codespace'' @ utf8
     [0xFF0C] @ ''gateway '' @ utf8 [0x4F1A, 0x8BB0, 0x4F4F, 0x5B83, 0x7684, 0x4ED3, 0x5E93])]"

definition remember_repository ::
  "('n, 'k, 'w) cli_env \<Rightarrow> string \<Rightarrow> 'f registration \<Rightarrow> string \<Rightarrow> 'w cli \<Rightarrow> goerr option \<times> 'w cli" where
  "remember_repository E path reg repo c =
    (if repo = [] then (None, c)
     else
       (case patch_config E path [reg_ConfigKey reg, ''create'', ''repository''] repo c of
          (Some e, c1) \<Rightarrow> (Some e, c1)
        | (None, c1) \<Rightarrow>
            patch_config E path [reg_ConfigKey reg, reg_DefaultEnvironmentKey reg] []
              (outln (''  '' @ utf8 [0x5DF2, 0x8BB0, 0x4E0B, 0xFF1A] @ repo @
                 utf8 [0xFF08, 0x89C4, 0x683C, 0x7528] @ '' `gateway codespace machines` '' @ utf8 [0x53EF, 0x67E5, 0xFF0C,
     0x9ED8, 0x8BA4, 0x7531] @ '' GitHub '' @ utf8 [0x51B3, 0x5B9A, 0xFF09]) c1)))"

definition setupCreateSource ::
  "('n, 'k, 'w) cli_env \<Rightarrow> string \<Rightarrow> 'f registration \<Rightarrow> 'w cli_provider \<Rightarrow> 'w cli \<Rightarrow>
   (goerr option \<times> 'w cli) option" where
  "setupCreateSource E path reg p c =
    (let c1 = outln ([newline] @ utf8 [0x8FD9, 0x4E2A, 0x8D26, 0x53F7, 0x8FD8, 0x6CA1, 0x6709] @ '' codespace'' @ utf8 [0x3002,
     0x9009, 0x4E00, 0x4E2A, 0x4ED3, 0x5E93, 0xFF0C, 0x7B2C, 0x4E00, 0x6B21] @ '' ssh '' @ utf8 [0x65F6] @ ''
     gateway '' @ utf8 [0x4F1A, 0x81EA, 0x52A8, 0x5EFA, 0x4E00, 0x4E2A, 0xFF1A]) c
     in if cp_sources p = None then
          Some (None, outln (utf8 [0xFF08] @ ''provider '' @ reg_Name reg @ '' '' @ utf8 [0x4E0D, 0x652F, 0x6301, 0x5217, 0x4E3E, 0xFF0C, 0x8BF7, 0x624B, 0x52A8, 0x586B] @ ''
     github.create.repository'' @ utf8 [0xFF09]) c1)
        else
          (case setup_lists p (WithTimeout ctx_bg (60 * second) (ce_now E (cl_world c))) c1 of
             (sources, c2) \<Rightarrow>
               do { (k, c3) \<leftarrow> p_menu (utf8 [0x4ECE, 0x54EA, 0x4E2A, 0x4ED3, 0x5E93, 0x521B, 0x5EFA, 0xFF1F]) (source_items sources) 0 c2;
                    if k = length sources + 1 then Some (None, c3)
                    else if k = length sources then
                      (case p_ask (utf8 [0x4ED3, 0x5E93, 0xFF08] @ ''owner/name'' @ utf8 [0xFF09]) [] c3 of
                         (repo, c4) \<Rightarrow> Some (remember_repository E path reg repo c4))
                    else Some (remember_repository E path reg (fst (sources ! k)) c3) }))"

definition environment_items :: "environment list \<Rightarrow> menu_item list" where
  "environment_items envs =
    map (\<lambda>e. item (env_ID e) (utf8 [0x72B6, 0x6001] @ '' '' @ state_name (env_State e) @
      (let repo = getz (env_Attributes e) ''repository'' [] in if repo \<noteq> [] then utf8 [0xFF0C] @ repo else []))) envs"

definition setupEnvironment ::
  "('n, 'k, 'w) cli_env \<Rightarrow> string \<Rightarrow> 'f registration \<Rightarrow> 'w cli_provider \<Rightarrow> 'w cli \<Rightarrow>
   (goerr option \<times> 'w cli) option" where
  "setupEnvironment E path reg p c =
    (case w_List (cp_prov p) (WithTimeout ctx_bg (60 * second) (ce_now E (cl_world c))) (cl_world c) of
       (Inl _, w) \<Rightarrow> Some (None, c\<lparr>cl_world := w\<rparr>)
     | (Inr envs, w) \<Rightarrow>
        (let c1 = c\<lparr>cl_world := w\<rparr>; key = [reg_ConfigKey reg, reg_DefaultEnvironmentKey reg]
         in (case envs of
               [] \<Rightarrow> setupCreateSource E path reg p c1
             | [e] \<Rightarrow>
                 Some (patch_config E path key (env_ID e)
                   (outln ([newline] @ utf8 [0x53EA, 0x6709, 0x4E00, 0x4E2A] @ '' codespace'' @ utf8 [0xFF0C, 0x76F4, 0x63A5, 0x4F7F,
     0x7528, 0xFF1A] @ env_ID e @ utf8 [0xFF08] @ state_name (env_State e) @ utf8 [0xFF09]) c1))
             | _ \<Rightarrow>
                 do { (k, c2) \<leftarrow> p_menu (utf8 [0x8FDE, 0x63A5, 0x54EA, 0x4E2A] @ '' codespace'' @ utf8 [0xFF1F]) (environment_items envs) 0 c1;
                      Some (patch_config E path key (env_ID (envs ! k)) c2) })))"

section \<open>gateway setup\<close>

definition setup_banner :: "string \<Rightarrow> string" where
  "setup_banner path = [newline] @ ''ssh-gateway '' @ utf8 [0x9996, 0x6B21, 0x914D, 0x7F6E] @ [newline] @ ''--------------------'' @
     [newline] @ utf8 [0x914D, 0x7F6E, 0x6587, 0x4EF6, 0xFF1A] @ path @ utf8 [0xFF08, 0x6743, 0x9650] @ '' 0600'' @ utf8 [0xFF09] @ [newline] @ utf8 [0x76F4, 0x63A5, 0x56DE, 0x8F66,
     0x5373, 0x63A5, 0x53D7, 0x65B9, 0x62EC, 0x53F7, 0x91CC, 0x7684, 0x9ED8, 0x8BA4, 0x503C, 0x3002] @
     [newline] @ [newline]"

definition setupSSHAlias :: "('n, 'k, 'w) cli_env \<Rightarrow> 'w cli \<Rightarrow> 'w cli option" where
  "setupSSHAlias E c =
    do { (b, c1) \<leftarrow> p_confirm (utf8 [0x628A] @ '' `Host '' @ DefaultSSHHost @ ''` '' @ utf8 [0x5199, 0x8FDB] @ '' ~/.ssh/config'' @ utf8 [0xFF0C, 0x4EE5, 0x540E, 0x76F4, 0x63A5] @ '' `ssh
     root@'' @
             DefaultSSHHost @ ''`'' @ utf8 [0xFF1F]) True c;
         Some (if \<not> b then c1
           else
             (case cmdSSHConfig E [''-write''] c1 of
                (None, c2) \<Rightarrow> c2
              | (Some e, c2) \<Rightarrow>
                  outln (''  '' @ utf8 [0x53EF, 0x4EE5, 0x4E4B, 0x540E, 0x624B, 0x52A8, 0x8FD0, 0x884C] @ '' `gateway ssh-config
     -write`'')
                    (warnln (''gateway: '' @ (case e of FlagHelp \<Rightarrow> ''flag: help requested'' | CmdError x \<Rightarrow> err_text x)) c2))) }"

definition setupHints :: "('n, 'k, 'w) cli_env \<Rightarrow> string \<Rightarrow> 'w cli \<Rightarrow> 'w cli" where
  "setupHints E path c =
    (case config_Load E path c of
       Inl _ \<Rightarrow> c
     | Inr cfg \<Rightarrow>
        (let listen = sf_Listen (cf_SSH cfg);
             c1 = outln (if LoopbackListen listen
               then utf8 [0x53EA, 0x76D1, 0x542C, 0x672C, 0x673A] @ '' '' @ listen @ utf8 [0xFF0C, 0x672C, 0x673A, 0x8FDE, 0x63A5, 0x4E0D, 0x9700, 0x8981, 0x5BC6, 0x94A5, 0x6216, 0x5BC6, 0x7801,
     0x3002]
               else utf8 [0x76D1, 0x542C] @ '' '' @ listen @ utf8 [0xFF08, 0x5BF9, 0x5916, 0x5F00, 0x653E, 0xFF09, 0xFF0C, 0x8BF7, 0x5148, 0x914D, 0x7F6E, 0x516C, 0x94A5,
     0x6216, 0x5BC6, 0x7801, 0x3002]) c
         in outln ([newline] @ utf8 [0x8FDE, 0x63A5, 0x65B9, 0x5F0F, 0xFF1A] @ [newline] @ ''  ssh root@'' @ DefaultSSHHost @ [newline] @ ''  ssh -p '' @ listenPort listen @ '' root@127.0.0.1   '' @ utf8 [0xFF08, 0x7B49, 0x4EF7, 0x5199, 0x6CD5, 0xFF09]) c1))"

text \<open>From the finished file on.\<close>

definition setup_finish :: "('n, 'k, 'w) cli_env \<Rightarrow> string \<Rightarrow> bool \<Rightarrow> 'w cli \<Rightarrow> 'w outcome_cmd option" where
  "setup_finish E path autoStart c =
    do { c1 \<leftarrow> setupSSHAlias E (outln ([newline] @ utf8 [0x914D, 0x7F6E, 0x5B8C, 0x6210, 0xFF1A] @ path) c);
         (b, c2) \<leftarrow> (if autoStart then Some (True, setupHints E path c1)
                    else p_confirm ([newline] @ utf8 [0x73B0, 0x5728, 0x542F, 0x52A8] @ '' gateway'' @ utf8 [0xFF1F]) True (setupHints E path c1));
         Some (if b then cmdStart E [] (outln [] c2)
               else ok_cmd (outln ([newline] @ utf8 [0x4E4B, 0x540E, 0x7528] @ '' `gateway start` '' @ utf8 [0x542F, 0x52A8, 0x3002]) c2)) }"

definition setup_environment_then ::
  "('n, 'k, 'w) cli_env \<Rightarrow> string \<Rightarrow> bool \<Rightarrow> 'f registration \<Rightarrow> 'w cli_provider option \<Rightarrow> 'w cli \<Rightarrow>
   'w outcome_cmd option" where
  "setup_environment_then E path autoStart reg prov c =
    (case prov of
       None \<Rightarrow> setup_finish E path autoStart c
     | Some p \<Rightarrow>
         do { (err, c1) \<leftarrow> setupEnvironment E path reg p c;
              (r, c2) \<leftarrow> (case err of Some e \<Rightarrow> Some (fail_cmd e c1) | None \<Rightarrow> setup_finish E path autoStart c1);
              Some (r, close_provider p c2) })"

definition input_over :: goerr where
  "input_over = Errorf (utf8 [0x8F93, 0x5165, 0x5DF2, 0x7ED3, 0x675F, 0xFF0C, 0x914D, 0x7F6E, 0x672A, 0x5B8C, 0x6210, 0xFF1B, 0x91CD,
     0x65B0, 0x8FD0, 0x884C] @ '' `gateway setup` '' @ utf8 [0x5373, 0x53EF])"

definition no_terminal :: goerr where
  "no_terminal = Errorf (''gateway setup '' @ utf8 [0x9700, 0x8981, 0x4EA4, 0x4E92, 0x5F0F, 0x7EC8, 0x7AEF, 0xFF1B, 0x811A, 0x672C,
     0x91CC, 0x8BF7, 0x7528] @ '' `gateway config init` '' @ utf8 [0x518D, 0x628A] @ '' token '' @ utf8
     [0x5199, 0x8FDB, 0x914D, 0x7F6E, 0x6587, 0x4EF6])"

definition setup_run :: "('n, 'k, 'w) cli_env \<Rightarrow> bool \<Rightarrow> 'w cli \<Rightarrow> 'w outcome_cmd option" where
  "setup_run E autoStart c0 =
    (let path = configPathOrDefault E c0;
         c = out (setup_banner path) (c0\<lparr>cl_tm := (cl_tm c0)\<lparr>tm_eof := False\<rparr>\<rparr>)
     in do { (r, c1) \<leftarrow> setupProvider E c;
             case r of
               Inl e \<Rightarrow> Some (fail_cmd e c1)
             | Inr reg \<Rightarrow>
                 do { (err, c2) \<leftarrow> setupConfigFile E path (reg_Name reg) c1;
                      case err of
                        Some e \<Rightarrow> Some (fail_cmd e c2)
                      | None \<Rightarrow>
                          do { (prov, c3) \<leftarrow> setupToken E path (reg_ConfigKey reg) c2;
                               if ended c3 then Some (fail_cmd input_over c3)
                               else setup_environment_then E path autoStart reg prov c3 } } })"

definition cmdSetup :: "('n, 'k, 'w) cli_env \<Rightarrow> string list \<Rightarrow> 'w cli \<Rightarrow> 'w outcome_cmd option" where
  "cmdSetup E args c =
    (case parse_cmd E ''setup'' [(''start'', bool_flag (\<lambda>b. own (\<lambda>_. b)))] False args c of
       (Inl e, c1) \<Rightarrow> Some (Some e, c1)
     | (Inr (rest, autoStart), c1) \<Rightarrow>
         if \<not> ce_interactive E then Some (fail_cmd no_terminal c1) else setup_run E autoStart c1)"

section \<open>Run\<close>

definition usage_text :: "('n, 'k, 'w) cli_env \<Rightarrow> string" where
  "usage_text E = ''ssh-gateway - use a cloud development environment as a plain SSH server.'' @ [newline] @ [newline] @
     ''Usage:'' @ [newline] @ ''  gateway [flags] <command> [args]'' @ [newline] @ [newline] @ ''Commands:'' @
     [newline] @ ''  setup                     Interactive first-time setup (menu driven)'' @ [newline] @
     ''  start                     Run the gateway in the foreground (default command)'' @ [newline] @
     ''  stop                      Stop the running gateway'' @ [newline] @
     ''  status                    Show the running gateway, or the configuration if it is not running'' @
     [newline] @ ''  doctor                    Check the configuration against the real provider'' @
     [newline] @ ''  config init               Write a starter config file'' @ [newline] @
     ''  config show               Print the effective configuration (token redacted)'' @ [newline] @
     ''  config path               Print the config and state paths'' @ [newline] @
     ''  config set-token          Read a token from stdin and store it'' @ [newline] @
     ''  config authorized-key     Add or list gateway client keys'' @ [newline] @
     ''  ssh-config [-write]       '' @ utf8 [0x6253, 0x5370, 0x6216, 0x5199, 0x5165] @ '' ~/.ssh/config '' @
     utf8 [0x91CC, 0x7684] @ '' Host codespace '' @ utf8 [0x6BB5, 0x843D] @ [newline] @
     ''  provider list             List compiled-in providers'' @ [newline] @
     ''  codespace list            List environments known to the provider'' @ [newline] @
     ''  codespace select <name>   Set the default environment'' @ [newline] @
     ''  codespace status [name]   Show one environment'' @ [CHR 0x27] @ ''s provider state'' @ [newline] @
     ''  codespace stop [name]     Stop an environment now'' @ [newline] @
     ''  codespace create [name]   Create an environment from the configured template'' @ [newline] @
     ''  codespace machines [repo] List the machine types a new environment can use'' @ [newline] @
     ''  codespace forget-host-key [name]'' @ [newline] @
     ''                            Drop pinned codespace host keys'' @ [newline] @
     ''  version                   Print the version'' @ [newline] @ [newline] @ ''Flags:'' @ [newline] @
     ''  -config <path>   Config file (default '' @ DefaultConfigPath (ce_host E) @
     '')'' @ [newline] @ ''  -log-level <l>   debug | info | warn | error'' @ [newline] @
     ''  -json            Machine-readable output where supported'' @ [newline] @ [newline] @
     ''Environments can also be chosen per connection:'' @ [newline] @ ''  ssh root+<environment>@gateway'' @
     [newline] @ ''  ssh -o SetEnv=GATEWAY_ENV=<environment> root@gateway'' @ [newline]"

definition startOrSetup :: "('n, 'k, 'w) cli_env \<Rightarrow> 'w cli \<Rightarrow> 'w outcome_cmd option" where
  "startOrSetup E c =
    (let path = configPathOrDefault E c
     in if stat_file E c path = FileMissing then
          (if ce_interactive E then cmdSetup E [] c
           else Some (fail_cmd (Wrapf [] (Sentinel ErrNoConfig) ('' at '' @ path @ '' (run `gateway setup`)'')) c))
        else Some (cmdStart E [] c))"

definition run_command :: "('n, 'k, 'w) cli_env \<Rightarrow> string \<Rightarrow> string list \<Rightarrow> 'w cli \<Rightarrow> (nat \<times> 'w cli) option" where
  "run_command E cmd args c =
    (if cmd \<in> {''help'', ''-h'', ''--help''} then Some (0, out (usage_text E) c)
     else if cmd = ''version'' then Some (0, outln ''ssh-gateway 0.1.0'' c)
     else if cmd \<in> {''setup'', ''wizard''} then map_option cmd_exit (cmdSetup E args c)
     else if cmd \<in> {''ssh-config'', ''sshconfig''} then Some (cmd_exit (cmdSSHConfig E args c))
     else if cmd \<in> {''start'', ''serve'', ''run''} then Some (cmd_exit (cmdStart E args c))
     else if cmd = ''stop'' then Some (cmd_exit (cmdStop E args c))
     else if cmd = ''status'' then Some (cmd_exit (cmdStatus E args c))
     else if cmd = ''doctor'' then Some (cmd_exit (cmdDoctor E args c))
     else if cmd = ''config'' then Some (cmd_exit (cmdConfig E args c))
     else if cmd \<in> {''provider'', ''providers''} then Some (cmd_exit (cmdProvider E args c))
     else if cmd \<in> {''codespace'', ''environment'', ''env''} then Some (cmd_exit (cmdEnvironment E args c))
     else Some (2, out (usage_text E) (warnln (''gateway: unknown command '' @ quote cmd @ [newline]) c)))"

definition Run :: "('n, 'k, 'w) cli_env \<Rightarrow> string list \<Rightarrow> 'w cli \<Rightarrow> (nat \<times> 'w cli) option" where
  "Run E args c =
    (case parse_flags (flagSet []) args (cl_app c, ()) of
       (Inl failure, (a, _)) \<Rightarrow>
         (let c1 = c\<lparr>cl_app := a\<rparr>
          in (case failure of
                AskedHelp \<Rightarrow> Some (0, out (usage_text E) c1)
              | BadFlags msg \<Rightarrow> Some (2, out (usage_text E) (warnln msg c1))))
     | (Inr rest, (a, _)) \<Rightarrow>
         (let c1 = c\<lparr>cl_app := a\<rparr>
          in (case rest of
                [] \<Rightarrow> map_option cmd_exit (startOrSetup E c1)
              | cmd # cmdArgs \<Rightarrow> run_command E cmd cmdArgs c1)))"

section \<open>The dialogues end\<close>

definition tm_ok :: "'w cli \<Rightarrow> bool" where
  "tm_ok c \<longleftrightarrow> (ended c \<longrightarrow> tm_in (cl_tm c) = [])"

definition goes_on :: "'w cli \<Rightarrow> 'w cli \<Rightarrow> bool" where
  "goes_on c c' \<longleftrightarrow> later (cl_tm c) (cl_tm c')"

lemma goes_on_refl [simp]: "goes_on c c"
  by (simp add: goes_on_def)

lemma goes_on_trans: "goes_on a b \<Longrightarrow> goes_on b c \<Longrightarrow> goes_on a c"
  unfolding goes_on_def by (rule later_trans)

lemma prints_simps [simp]:
  "goes_on a (out s c) = goes_on a c" "goes_on a (outln s c) = goes_on a c"
  "goes_on a (warn s c) = goes_on a c" "goes_on a (warnln s c) = goes_on a c"
  "goes_on (out s a) c = goes_on a c" "goes_on (outln s a) c = goes_on a c"
  "ended (out s c) = ended c" "ended (outln s c) = ended c" "ended (warnln s c) = ended c" "ended (warn s c) = ended c"
  by (simp_all add: goes_on_def out_def outln_def warn_def warnln_def ended_def)

lemma updates_keep [simp]:
  "goes_on a (c\<lparr>cl_red := r\<rparr>) = goes_on a c" "goes_on a (c\<lparr>cl_dir := d\<rparr>) = goes_on a c"
  "goes_on a (c\<lparr>cl_world := w\<rparr>) = goes_on a c" "ended (c\<lparr>cl_red := r\<rparr>) = ended c" "ended (c\<lparr>cl_dir := d\<rparr>) = ended c"
  "ended (c\<lparr>cl_world := w\<rparr>) = ended c" "ended (close_provider p c) = ended c" "goes_on a (close_provider p c) = goes_on a c"
  by (simp_all add: goes_on_def ended_def close_provider_def)

lemma patch_config_keeps: "patch_config E path keys v c = (r, c') \<Longrightarrow> goes_on a c' = goes_on a c \<and> ended c' = ended c"
  by (auto simp: patch_config_def split: prod.splits)

lemma tryProvider_keeps: "tryProvider E path c = (r, c') \<Longrightarrow> goes_on a c' = goes_on a c \<and> ended c' = ended c"
  by (auto simp: tryProvider_def build_provider_def Let_def split: sum.splits option.splits prod.splits)

lemma p_confirm_returns: "\<exists>b c'. p_confirm q def c = Some (b, c') \<and> goes_on c c'"
  using confirm_returns [of q def "cl_tm c"] by (auto simp: p_confirm_def on_tm_def goes_on_def advanced_later)

lemma p_menu_returns:
  assumes "def < length items"
  shows "\<exists>k c'. p_menu title items def c = Some (k, c') \<and> k < length items \<and> goes_on c c' \<and>
    advanced (cl_tm c) (cl_tm c')"
  using menu_returns [OF assms, of title "cl_tm c"] by (auto simp: p_menu_def on_tm_def goes_on_def advanced_later)

text \<open>When nothing is left to read the menu answers with its default and the prompt with nothing.\<close>

lemma menu_at_end:
  assumes "tm_in (cl_tm c) = []"
  shows "\<exists>c'. p_menu title items def c = Some (def, c') \<and> tm_in (cl_tm c') = [] \<and> ended c'"
proof -
  let ?t = "print ([newline] @ title @ [newline] @ menu_lines def 0 items) (cl_tm c)"
  have "menu_round (length items) def ?t = Inr (def, (print (choose_text def) ?t)\<lparr>tm_eof := True\<rparr>)"
    using assms by (simp add: menu_round_def prompt_line_def)
  then have "menu title items def (cl_tm c) = Some (def, (print (choose_text def) ?t)\<lparr>tm_eof := True\<rparr>)"
    unfolding menu_def by (subst forever.simps) simp
  then show ?thesis using assms by (simp add: p_menu_def on_tm_def ended_def)
qed

lemma prompt_secret_later:
  assumes "prompt_secret quiet q t = (s, t')"
  shows "later t t' \<and> (tm_in t = [] \<longrightarrow> s = [] \<and> tm_eof t')"
proof -
  define t1 where "t1 = (if quiet then t else println echo_notice t)"
  obtain a t2 where l: "prompt_line (print (q @ '': '') t1) = (a, t2)" by fastforce
  have t1: "later t t1" "tm_in t1 = tm_in t" by (simp_all add: t1_def)
  have t': "s = a" "t' = (if quiet then println [] t2 else t2)"
    using assms l by (simp_all add: prompt_secret_def Let_def t1_def)
  have "later t1 t2" using line_advances [OF l] by (simp add: advanced_later)
  then have "later t t2" using t1(1) later_trans by blast
  moreover have "tm_in t = [] \<longrightarrow> a = [] \<and> tm_eof t2"
    using l t1(2) by (auto simp: prompt_line_def)
  ultimately show ?thesis using t' by simp
qed

lemma secret_goes_on: "p_secret E q c = (s, c') \<Longrightarrow> goes_on c c' \<and> (tm_in (cl_tm c) = [] \<longrightarrow> s = [] \<and> ended c')"
  using prompt_secret_later [where quiet = "ce_interactive E \<and> ce_quiet E" and q = q and t = "cl_tm c",
      OF prod.collapse [symmetric]]
  by (auto simp: p_secret_def on_tm_def goes_on_def ended_def)

text \<open>
  A round either ends the dialogue or leaves less to read; none begins a further one after the
  end of the input was seen.
\<close>

definition round_ok :: "'w cli \<Rightarrow> ('w cli + 'a) option \<Rightarrow> bool" where
  "round_ok c r \<longleftrightarrow> (case r of None \<Rightarrow> False | Some (Inl c') \<Rightarrow> goes_on c c' | Some (Inr _) \<Rightarrow> True)"

lemma round_ok_simps [simp]:
  "round_ok c (Some (Inl c')) = goes_on c c'" "round_ok c (Some (Inr x))"
  by (simp_all add: round_ok_def)

lemma round_ok_trans: "goes_on a b \<Longrightarrow> round_ok b r \<Longrightarrow> round_ok a r"
  by (auto simp: round_ok_def intro: goes_on_trans split: option.splits sum.splits)

lemma after_confirm:
  assumes "\<And>b c'. goes_on c c' \<Longrightarrow> round_ok a (k b c')"
  shows "round_ok a (do { (b, c') \<leftarrow> p_confirm q def c; k b c' })"
  using p_confirm_returns [of q def c] assms by auto

lemma token_try_ok: "round_ok c (token_try E path c)"
proof (cases "ended c")
  case False
  obtain r c1 where t: "tryProvider E path c = (r, c1)" by fastforce
  have k: "goes_on c c1" using tryProvider_keeps [OF t] by simp
  show ?thesis
  proof (cases r)
    case (Inl e)
    with False t k show ?thesis
      unfolding token_try_def by (auto intro!: after_confirm intro: goes_on_trans)
  next
    case (Inr a)
    with False t show ?thesis by (cases a) (simp add: token_try_def)
  qed
qed (simp add: token_try_def)

lemma after_secret:
  assumes "\<And>s c'. goes_on c c' \<Longrightarrow> round_ok a (k s c')"
  shows "round_ok a (case p_secret E q c of (s, c') \<Rightarrow> k s c')"
  using assms secret_goes_on [of E q c] by (auto split: prod.split)

lemma token_pasted_ok:
  fixes c :: "'w cli"
  shows "round_ok c (token_pasted E path key c)"
  unfolding token_pasted_def Let_def
proof (rule after_secret)
  fix s and c' :: "'w cli" assume g: "goes_on c c'"
  obtain r c2 where p: "patch_config E path [key, ''token''] s (c'\<lparr>cl_red := Add (cl_red c') [s]\<rparr>) = (r, c2)"
    by fastforce
  have "goes_on c c2" using patch_config_keeps [OF p] g by simp
  then show "round_ok c (if s = [] then
      Some (if ended (outln (''  '' @ utf8 [0x6CA1, 0x6709, 0x8F93, 0x5165, 0x5185, 0x5BB9]) c') then Inr (None, outln (''  '' @ utf8 [0x6CA1, 0x6709, 0x8F93, 0x5165, 0x5185, 0x5BB9]) c')
        else Inl (outln (''  '' @ utf8 [0x6CA1, 0x6709, 0x8F93, 0x5165, 0x5185, 0x5BB9]) c'))
    else (case patch_config E path [key, ''token''] s (c'\<lparr>cl_red := Add (cl_red c') [s]\<rparr>) of
       (Some e, c2) \<Rightarrow> Some (Inl (warnln (''gateway: '' @ err_text e) c2))
     | (None, c2) \<Rightarrow> token_try E path c2))"
    using g p round_ok_trans [OF _ token_try_ok [of _ E path], of c] by (simp split: option.split)
qed

lemma token_from_env_ok: "round_ok c (token_from_env E path c)"
  unfolding token_from_env_def
  by (auto intro!: after_confirm token_try_ok round_ok_trans [OF _ token_try_ok])

lemma tm_ok_later: "tm_ok c \<Longrightarrow> goes_on c c' \<Longrightarrow> tm_ok c'"
  by (auto simp: tm_ok_def ended_def goes_on_def later_def)

lemma token_menu:
  obtains k c1 where "p_menu (''token '' @ utf8 [0x600E, 0x4E48, 0x7ED9, 0xFF1F]) (token_items path) 0 c = Some (k, c1)" "goes_on c c1"
    "advanced (cl_tm c) (cl_tm c1)"
proof -
  have "0 < length (token_items path)" by (simp add: token_items_def)
  from p_menu_returns [OF this] that show thesis by blast
qed

text \<open>The menu of a round; at the end of the input it is the first choice, which finds nothing.\<close>

lemma token_answer_ok: "round_ok c (token_answer E path key k c)"
  using token_pasted_ok [of c E path key] token_from_env_ok [of c E path] round_ok_trans [OF _ token_try_ok [of _ E path], of c]
  by (simp add: token_answer_def)

lemma token_round_ok: "round_ok c (token_round E path key c)"
proof -
  obtain k c1 where m: "p_menu (''token '' @ utf8 [0x600E, 0x4E48, 0x7ED9, 0xFF1F]) (token_items path) 0 c = Some (k, c1)" "goes_on c c1"
    by (rule token_menu)
  then show ?thesis using round_ok_trans [OF m(2) token_answer_ok [of _ E path key k]] by (simp add: token_round_def)
qed

lemma token_round_end:
  assumes "tm_in (cl_tm c) = []"
  shows "\<exists>x. token_round E path key c = Some (Inr x)"
proof -
  obtain c1 where m: "p_menu (''token '' @ utf8 [0x600E, 0x4E48, 0x7ED9, 0xFF1F]) (token_items path) 0 c = Some (0, c1)"
    "tm_in (cl_tm c1) = []" using menu_at_end [OF assms] by blast
  obtain s c2 where p: "p_secret E (''Token'' @ utf8 [0xFF08, 0x8F93, 0x5165, 0x4E0D, 0x56DE, 0x663E, 0xFF09]) c1 = (s, c2)" by fastforce
  show ?thesis using secret_goes_on [OF p] m p by (simp add: token_round_def token_answer_def token_pasted_def)
qed

text \<open>A loop of at most so many rounds.\<close>

fun rounds :: "nat \<Rightarrow> ('s \<Rightarrow> ('s + 'r) option) \<Rightarrow> 's \<Rightarrow> 'r option" where
  "rounds 0 f s = None"
| "rounds (Suc n) f s = do { x \<leftarrow> f s; case x of Inl s1 \<Rightarrow> rounds n f s1 | Inr r \<Rightarrow> Some r }"

lemma rounds_ask_again:
  assumes "\<And>s s'. P s \<Longrightarrow> f s = Some (Inl s') \<Longrightarrow> P s' \<and> m s' < (m s :: nat)" and "\<And>s. P s \<Longrightarrow> f s \<noteq> None" and "P s"
  shows "\<exists>n r. n \<le> m s + 1 \<and> rounds n f s = Some r \<and> ask_again f s = Some r"
  using assms(3)
proof (induction s rule: measure_induct_rule [of m])
  case (less s)
  obtain x where x: "f s = Some x" using assms(2) less.prems by blast
  show ?case
  proof (cases x)
    case (Inl s')
    with x assms(1) less.prems have s': "P s'" "m s' < m s" by blast+
    then obtain n r where "n \<le> m s' + 1" "rounds n f s' = Some r" "ask_again f s' = Some r" using less.IH by blast
    then show ?thesis using x Inl s' by (intro exI [of _ "Suc n"] exI [of _ r]) (subst ask_again.simps, simp)
  next
    case (Inr r)
    then show ?thesis using x by (intro exI [of _ "1"] exI [of _ r]) (subst ask_again.simps, simp)
  qed
qed

text \<open>
  What counts down: the unread input. Every round that is followed by another has read something; the round that sees the end
  of the input is the last.
\<close>

lemma token_round_reads:
  assumes r: "token_round E path key c = Some (Inl c')" and ok: "tm_ok c"
  shows "tm_ok c' \<and> length (tm_in (cl_tm c')) < length (tm_in (cl_tm c))"
proof -
  have "tm_in (cl_tm c) \<noteq> []" using token_round_end [of c E path key] r by auto
  obtain k c1 where m: "p_menu (''token '' @ utf8 [0x600E, 0x4E48, 0x7ED9, 0xFF1F]) (token_items path) 0 c = Some (k, c1)"
    "advanced (cl_tm c) (cl_tm c1)" by (rule token_menu)
  have "goes_on c1 c'" using r m(1) token_answer_ok [of c1 E path key k] by (simp add: token_round_def)
  then have a: "advanced (cl_tm c) (cl_tm c')" using m(2) advanced_trans(1) by (auto simp: goes_on_def)
  then have l: "later (cl_tm c) (cl_tm c')" by (rule advanced_later)
  then have ok': "tm_ok c'" using tm_ok_later [OF ok] by (simp add: goes_on_def)
  have "length (tm_in (cl_tm c')) < length (tm_in (cl_tm c))"
  proof (rule ccontr)
    assume n: "\<not> length (tm_in (cl_tm c')) < length (tm_in (cl_tm c))"
    with a have "tm_eof (cl_tm c')" by (simp add: advanced_def)
    with ok' \<open>tm_in (cl_tm c) \<noteq> []\<close> n show False by (simp add: tm_ok_def ended_def)
  qed
  with ok' show ?thesis by blast
qed

lemma token_rounds:
  assumes "tm_ok c"
  shows "\<exists>n r. n \<le> length (tm_in (cl_tm c)) + 1 \<and> rounds n (token_round E path key) c = Some r \<and>
    ask_again (token_round E path key) c = Some r"
proof (rule rounds_ask_again [where P = tm_ok and m = "\<lambda>c. length (tm_in (cl_tm c))"])
  show "token_round E path key c \<noteq> None" for c
    using token_round_ok [of c E path key] by (auto simp: round_ok_def split: option.splits)
qed (use assms token_round_reads in blast)+

lemma setupToken_returns:
  assumes "tm_ok c"
  shows "\<exists>prov c'. setupToken E path key c = Some (prov, c')"
proof -
  have ag: "\<exists>r. ask_again (token_round E path key) c = Some r" if "tm_ok c" for c
    using token_rounds [OF that] by blast
  obtain r c1 where t: "tryProvider E path c = (r, c1)" by fastforce
  have "goes_on c (outln u (out v c1))" for u v using tryProvider_keeps [OF t] by simp
  then have "tm_ok (outln u (out v c1))" for u v using tm_ok_later [OF assms] by blast
  with ag t show ?thesis by (cases r) (auto simp: setupToken_def)
qed

text \<open>The other dialogues.\<close>

lemma confirm_then:
  assumes "\<And>b c'. goes_on c c' \<Longrightarrow> k b c' \<noteq> None"
  shows "do { (b, c') \<leftarrow> p_confirm q def c; k b c' } \<noteq> None"
  using p_confirm_returns [of q def c] assms by auto

lemma menu_then:
  assumes "def < length items" and "\<And>n c'. n < length items \<Longrightarrow> goes_on c c' \<Longrightarrow> k n c' \<noteq> None"
  shows "do { (n, c') \<leftarrow> p_menu title items def c; k n c' } \<noteq> None"
  using p_menu_returns [OF assms(1), of title c] assms(2) by auto

lemma setupProvider_returns: "\<exists>r c'. setupProvider E c = Some (r, c') \<and> goes_on c c'"
proof -
  consider "Registrations (ce_registry E) = []" | r where "Registrations (ce_registry E) = [r]"
    | r s rs where "Registrations (ce_registry E) = r # s # rs"
    by (metis list.exhaust)
  then show ?thesis
  proof cases
    case 3
    let ?items = "map (\<lambda>r. item (reg_Name r) (reg_Summary r)) (r # s # rs)"
    obtain k c1 where "p_menu (utf8 [0x7528, 0x54EA, 0x4E2A] @ '' provider'' @ utf8 [0xFF1F]) ?items 0 c = Some (k, c1)" "goes_on c c1"
      using p_menu_returns [of 0 ?items] by fastforce
    then show ?thesis using 3 by (simp add: setupProvider_def)
  qed (simp_all add: setupProvider_def)
qed

lemma setupConfigFile_returns: "\<exists>r c'. setupConfigFile E path provider c = Some (r, c') \<and> goes_on c c'"
proof (cases "stat_file E c path")
  case (FileContent x)
  obtain b c1 where "p_confirm (utf8 [0x7EE7, 0x7EED, 0xFF1F]) True (outln (newline # path @ '' '' @ utf8 [0x5DF2, 0x5B58, 0x5728, 0xFF0C, 0x5C06, 0x5C31, 0x5730, 0x4FEE, 0x6539, 0x3002]) c) = Some (b, c1)"
    "goes_on c c1" using p_confirm_returns by fastforce
  with FileContent show ?thesis by (simp add: setupConfigFile_def)
next
  case FileMissing
  obtain r c1 where w: "WriteFile E path (Template provider [] [] []) c = (r, c1)" by fastforce
  then have "goes_on c c1" by (auto simp: WriteFile_def split: option.splits prod.splits)
  with FileMissing w show ?thesis by (cases r) (simp_all add: setupConfigFile_def)
qed (simp add: setupConfigFile_def)

lemma setupCreateSource_returns:
  fixes E :: "('n, 'k, 'w) cli_env"
  shows "setupCreateSource E path reg p c \<noteq> None"
proof -
  have m: "(case r of (sources, c2) \<Rightarrow> do { (k, c3) \<leftarrow> p_menu t (source_items sources) 0 c2; f sources k c3 }) \<noteq> None"
    if "\<And>sources k c3. f sources k c3 \<noteq> None"
    for r :: "(string \<times> string) list \<times> 'w cli" and t
      and f :: "(string \<times> string) list \<Rightarrow> nat \<Rightarrow> 'w cli \<Rightarrow> (goerr option \<times> 'w cli) option"
  proof -
    obtain a b where r: "r = (a, b)" by fastforce
    have "0 < length (source_items a)" by (simp add: source_items_def)
    from p_menu_returns [OF this] obtain k c' where "p_menu t (source_items a) 0 b = Some (k, c')" by blast
    then show ?thesis using that by (simp add: r)
  qed
  show ?thesis
  proof (cases "cp_sources p = None")
    case False
    then show ?thesis unfolding setupCreateSource_def Let_def
      by (simp only: if_False) (rule m, simp split: prod.split)
  qed (simp add: setupCreateSource_def)
qed

lemma setupEnvironment_returns:
  fixes E :: "('n, 'k, 'w) cli_env"
  shows "setupEnvironment E path reg p c \<noteq> None"
proof -
  have "do { (k, c2) \<leftarrow> p_menu t (environment_items (a # b # es)) 0 c1; Some (f k c2) } \<noteq> None" for t a b es c1
      and f :: "nat \<Rightarrow> 'w cli \<Rightarrow> goerr option \<times> 'w cli"
    by (rule menu_then) (simp_all add: environment_items_def)
  then show ?thesis using setupCreateSource_returns
    unfolding setupEnvironment_def Let_def
    by (auto split: sum.split prod.split list.split)
qed

lemma setup_finish_returns:
  fixes E :: "('n, 'k, 'w) cli_env"
  shows "setup_finish E path autoStart c \<noteq> None"
proof -
  have a: "setupSSHAlias E c \<noteq> None" for c unfolding setupSSHAlias_def by (rule confirm_then) simp
  have b: "do { (b, c2) \<leftarrow> (if autoStart then Some (True, c1) else p_confirm q True c1); Some (f b c2) } \<noteq> None" for q c1
      and f :: "bool \<Rightarrow> 'w cli \<Rightarrow> 'w outcome_cmd"
    using confirm_then [of c1 "\<lambda>b c2. Some (f b c2)" q True] by simp
  have ab: "do { c1 \<leftarrow> x; do { (b, c2) \<leftarrow> (if autoStart then Some (True, h c1) else p_confirm q True (h c1)); Some (f b c2) } } \<noteq> None"
    if "x \<noteq> None" for x q h and f :: "bool \<Rightarrow> 'w cli \<Rightarrow> 'w outcome_cmd"
    using b that by auto
  show ?thesis unfolding setup_finish_def by (rule ab [OF a])
qed

lemma setup_environment_then_returns: "setup_environment_then E path autoStart reg prov c \<noteq> None"
proof (cases prov)
  case (Some p)
  obtain err c1 where e: "setupEnvironment E path reg p c = Some (err, c1)"
    using setupEnvironment_returns [of E path reg p c] by auto
  obtain r c2 where "setup_finish E path autoStart c1 = Some (r, c2)"
    using setup_finish_returns [of E path autoStart c1] by auto
  with Some e show ?thesis by (cases err) (simp_all add: setup_environment_then_def fail_cmd_def)
qed (simp add: setup_environment_then_def setup_finish_returns del: not_None_eq)

lemma setup_run_returns:
  fixes c0 :: "'w cli"
  shows "setup_run E autoStart c0 \<noteq> None"
proof -
  define path where "path = configPathOrDefault E c0"
  define c where "c = out (setup_banner path) (c0\<lparr>cl_tm := (cl_tm c0)\<lparr>tm_eof := False\<rparr>\<rparr>)"
  have ok: "tm_ok c" by (simp add: c_def tm_ok_def) (simp add: ended_def)
  obtain r c1 where p: "setupProvider E c = Some (r, c1)" "goes_on c c1" using setupProvider_returns by blast
  have def_run: "setup_run E autoStart c0 = do { (r, c1) \<leftarrow> setupProvider E c;
             case r of
               Inl e \<Rightarrow> Some (fail_cmd e c1)
             | Inr reg \<Rightarrow>
                 do { (err, c2) \<leftarrow> setupConfigFile E path (reg_Name reg) c1;
                      case err of
                        Some e \<Rightarrow> Some (fail_cmd e c2)
                      | None \<Rightarrow>
                          do { (prov, c3) \<leftarrow> setupToken E path (reg_ConfigKey reg) c2;
                               if ended c3 then Some (fail_cmd input_over c3)
                               else setup_environment_then E path autoStart reg prov c3 } } }"
    unfolding setup_run_def Let_def c_def path_def ..
  show ?thesis
  proof (cases r)
    case (Inl e)
    with p show ?thesis by (simp add: def_run fail_cmd_def)
  next
    case (Inr reg)
    obtain err c2 where f: "setupConfigFile E path (reg_Name reg) c1 = Some (err, c2)" "goes_on c1 c2"
      using setupConfigFile_returns by blast
    have "tm_ok c2" using tm_ok_later [OF ok goes_on_trans [OF p(2) f(2)]] .
    then obtain prov c3 where t: "setupToken E path (reg_ConfigKey reg) c2 = Some (prov, c3)"
      using setupToken_returns by blast
    then show ?thesis
      using p f Inr setup_environment_then_returns [of E path autoStart reg prov c3]
      by (cases err) (simp_all add: def_run fail_cmd_def)
  qed
qed

text \<open>The terminal as \<open>setup_run\<close> begins with it: its end was not seen yet.\<close>

definition fresh_input :: "'w cli \<Rightarrow> 'w cli" where
  "fresh_input c = c\<lparr>cl_tm := (cl_tm c)\<lparr>tm_eof := False\<rparr>\<rparr>"

lemma cmdSetup_returns: "cmdSetup E args c \<noteq> None"
  using setup_run_returns unfolding cmdSetup_def by (auto split: prod.split sum.split)

lemma cmd_exit_code: "fst (cmd_exit r) \<le> 1"
  by (auto simp: cmd_exit_def Let_def split: prod.split option.split cmd_error.split)

definition finished :: "(nat \<times> 'w cli) option \<Rightarrow> bool" where
  "finished x \<longleftrightarrow> (\<exists>code c'. x = Some (code, c') \<and> code \<le> 2)"

lemma finished_if: "finished x \<Longrightarrow> finished y \<Longrightarrow> finished (if b then x else y)"
  by simp

lemma finished_simps [simp]: "finished (Some (code, c)) = (code \<le> 2)" "finished (Some (cmd_exit r))"
  using cmd_exit_code [of r] by (cases "cmd_exit r"; simp add: finished_def)+

lemma finished_exit: "x \<noteq> None \<Longrightarrow> finished (map_option cmd_exit x)"
  by auto

lemma run_command_returns: "finished (run_command E cmd args c)"
  unfolding run_command_def by (intro finished_if finished_exit cmdSetup_returns) simp_all

lemma startOrSetup_returns: "startOrSetup E c \<noteq> None"
  using cmdSetup_returns [of E "[]" c] unfolding startOrSetup_def Let_def by (simp del: not_None_eq)

text \<open>
  C30: The interactive setup does not ask forever. Whatever is typed, and wherever the input ends, the setup comes to its end: every
  menu and question gets an answer, and the dialogue about the token, which starts over after a token that does not
  work, an empty one or a refusal, takes at most one round more than there are characters of input. The calls of the setup to the
  provider, and the gateway it starts at its end, are parameters; that they return is not part of this.
\<close>

theorem setup_ends:
  "cmdSetup E args c \<noteq> None \<and>
   (\<exists>n r. n \<le> length (tm_in (cl_tm c)) + 1 \<and>
      rounds n (token_round E path key) (fresh_input c) = Some r \<and> ask_again (token_round E path key) (fresh_input c) = Some r)"
proof -
  have "tm_ok (fresh_input c)" by (simp add: fresh_input_def tm_ok_def ended_def)
  from token_rounds [OF this, of E path key] cmdSetup_returns show ?thesis by (simp add: fresh_input_def)
qed

text \<open>
  The exit code of an invocation. That there is one says something of the setup only: the other commands have no loop of their own, and what they
  call (the serving of \<open>gateway start\<close>, which goes on until it is told to stop, the provider, the control socket) is a parameter.
\<close>

lemma run_returns: "\<exists>code c'. Run E args c = Some (code, c') \<and> code \<le> 2"
proof -
  obtain r a x where p: "parse_flags (flagSet []) args (cl_app c, ()) = (r, (a, x))" by (metis prod_cases3)
  have "finished (Run E args c)"
  proof (cases r)
    case (Inl f)
    then show ?thesis using p by (cases f) (simp_all add: Run_def)
  next
    case (Inr rest)
    then show ?thesis using p finished_exit [OF startOrSetup_returns] run_command_returns
      by (cases rest) (simp_all add: Run_def)
  qed
  then show ?thesis by (simp add: finished_def)
qed

section \<open>Global flags anywhere\<close>

text \<open>The global flags as they can be written, and what they do.\<close>

datatype setting = SetConfig string | SetLevel string | SetJson

fun setting_args :: "bool \<times> setting \<Rightarrow> string list" where
  "setting_args (joined, SetConfig v) = (if joined then [''-config='' @ v] else [''-config'', v])"
| "setting_args (joined, SetLevel v) = (if joined then [''-log-level='' @ v] else [''-log-level'', v])"
| "setting_args (joined, SetJson) = (if joined then [''-json=true''] else [''-json''])"

fun apply_setting :: "bool \<times> setting \<Rightarrow> app \<Rightarrow> app" where
  "apply_setting (_, SetConfig v) a = a\<lparr>ap_configPath := v\<rparr>"
| "apply_setting (_, SetLevel v) a = a\<lparr>ap_logLevel := v\<rparr>"
| "apply_setting (_, SetJson) a = a\<lparr>ap_jsonOut := True\<rparr>"

definition args_of :: "(bool \<times> setting) list \<Rightarrow> string list" where
  "args_of ss = concat (map setting_args ss)"

definition with_settings :: "(bool \<times> setting) list \<Rightarrow> 'w cli \<Rightarrow> 'w cli" where
  "with_settings ss c = c\<lparr>cl_app := fold apply_setting ss (cl_app c)\<rparr>"

lemma parse_setting:
  "parse_flags (flagSet extra) (setting_args s @ rest) (a, x) = parse_flags (flagSet extra) rest (apply_setting s a, x)"
proof (cases s)
  case (Pair joined t)
  have sp: "split_value ''config'' = (''config'', None)" "split_value ''log-level'' = (''log-level'', None)"
    "split_value ''json'' = (''json'', None)" "split_value ''json=true'' = (''json'', Some ''true'')"
    "split_value (''config='' @ v) = (''config'', Some v)" "split_value (''log-level='' @ v) = (''log-level'', Some v)" for v
    by (simp_all add: split_value_def HasPrefix_def)
  show ?thesis
    by (cases t; cases joined)
      (simp_all add: Pair flag_name_def sp [simplified] flagSet_def string_flag_def bool_flag_def ParseBool_def)
qed

lemma parse_settings:
  "parse_flags (flagSet extra) (args_of ss @ rest) (a, x) = parse_flags (flagSet extra) rest (fold apply_setting ss a, x)"
  by (induction ss arbitrary: a) (simp_all add: args_of_def parse_setting)

lemma parse_cmd_settings:
  "parse_cmd E name extra x (args_of ss @ rest) c = parse_cmd E name extra x rest (with_settings ss c)"
  by (simp add: parse_cmd_def parse_settings with_settings_def Let_def split: prod.split sum.split flag_failure.split)

lemma with_flags_settings:
  "with_flags E name extra x (args_of ss @ rest) k c = with_flags E name extra x rest k (with_settings ss c)"
  by (simp add: with_flags_def parse_cmd_settings)

text \<open>The words that name a command which takes flags.\<close>

definition command_words :: "string list list" where
  "command_words =
    map (\<lambda>w. [w]) [''setup'', ''wizard'', ''ssh-config'', ''sshconfig'', ''start'', ''serve'', ''run'', ''stop'', ''status'', ''doctor''] @
    map (\<lambda>w. [''config'', w]) [''init'', ''show'', ''path'', ''paths'', ''set-token'', ''authorized-key'', ''authorized-keys'', ''key''] @
    map (\<lambda>w. [''provider'', w]) [''list'', ''ls''] @
    map (\<lambda>w. [''codespace'', w]) [''list'', ''ls'', ''select'', ''use'', ''status'', ''show'', ''get'', ''stop'', ''create'', ''new'',
      ''machines'', ''machine'', ''forget-host-key'']"

lemmas commands_settings = with_flags_settings parse_cmd_settings

lemma single_commands:
  "cmdSetup E (args_of ss @ rest) c = cmdSetup E rest (with_settings ss c)"
  "cmdSSHConfig E (args_of ss @ rest) c = cmdSSHConfig E rest (with_settings ss c)"
  "cmdStart E (args_of ss @ rest) c = cmdStart E rest (with_settings ss c)"
  "cmdStop E (args_of ss @ rest) c = cmdStop E rest (with_settings ss c)"
  "cmdStatus E (args_of ss @ rest) c = cmdStatus E rest (with_settings ss c)"
  "cmdDoctor E (args_of ss @ rest) c = cmdDoctor E rest (with_settings ss c)"
  unfolding cmdSetup_def cmdSSHConfig_def cmdStart_def cmdStop_def cmdStatus_def cmdDoctor_def commands_settings
  by (rule refl)+

lemma config_commands:
  "configInit E (args_of ss @ rest) c = configInit E rest (with_settings ss c)"
  "configShow E (args_of ss @ rest) c = configShow E rest (with_settings ss c)"
  "cmdConfigPathInfo E (args_of ss @ rest) c = cmdConfigPathInfo E rest (with_settings ss c)"
  "configSetToken E (args_of ss @ rest) c = configSetToken E rest (with_settings ss c)"
  "configAuthorizedKey E (args_of ss @ rest) c = configAuthorizedKey E rest (with_settings ss c)"
  "providerList E (args_of ss @ rest) c = providerList E rest (with_settings ss c)"
  unfolding configInit_def configShow_def cmdConfigPathInfo_def configSetToken_def configAuthorizedKey_def providerList_def
    commands_settings
  by (rule refl)+

lemma codespace_commands:
  "envList E (args_of ss @ rest) c = envList E rest (with_settings ss c)"
  "envSelect E (args_of ss @ rest) c = envSelect E rest (with_settings ss c)"
  "envStatus E (args_of ss @ rest) c = envStatus E rest (with_settings ss c)"
  "envStop E (args_of ss @ rest) c = envStop E rest (with_settings ss c)"
  "envCreate E (args_of ss @ rest) c = envCreate E rest (with_settings ss c)"
  "envMachines E (args_of ss @ rest) c = envMachines E rest (with_settings ss c)"
  "envForgetHostKey E (args_of ss @ rest) c = envForgetHostKey E rest (with_settings ss c)"
  unfolding envList_def envSelect_def envStatus_def envStop_def envCreate_def envMachines_def envForgetHostKey_def
    commands_settings
  by (rule refl)+

lemmas settings_in_commands = single_commands config_commands codespace_commands

lemma Run_command:
  "length cmd < 2 \<or> hd cmd \<noteq> CHR ''-'' \<Longrightarrow> Run E (args_of ss @ cmd # rest) c = run_command E cmd rest (with_settings ss c)"
  by (simp add: Run_def parse_settings with_settings_def)

text \<open>
  C31: The global flags work before or after the subcommand. For every command of the program that takes
  flags, writing \<open>-config\<close>, \<open>-log-level\<close> and \<open>-json\<close>, in any number and either spelling,
  before the command or between the command and its own arguments is the same invocation: same exit code, same
  output, same effects.
\<close>

theorem flags_before_or_after:
  assumes "words \<in> set command_words"
  shows "Run E (args_of ss @ words @ rest) c = Run E (words @ args_of ss @ rest) c"
proof -
  have none: "args_of [] @ r = r" "with_settings [] c = c" for r
    by (simp_all add: args_of_def with_settings_def)
  have before: "Run E (args_of ss @ (cmd # r)) c = run_command E cmd r (with_settings ss c)"
    and after: "Run E (cmd # r) c = run_command E cmd r c"
    if "length cmd < 2 \<or> hd cmd \<noteq> CHR ''-''" for cmd r
    using Run_command [OF that, of E ss r c] Run_command [OF that, of E "[]" r c] by (simp_all add: none)
  show ?thesis
    using assms
    by (auto simp: command_words_def before after run_command_def cmdConfig_def cmdProvider_def cmdEnvironment_def
        settings_in_commands Let_def)
qed

lemma flags_before_or_after_witness:
  "Run machine0 ([''-json''] @ [''config'', ''path''] @ []) (cli0 Map.empty []) =
   Run machine0 ([''config'', ''path''] @ [''-json''] @ []) (cli0 Map.empty [])"
  using flags_before_or_after [of "[''config'', ''path'']" machine0 "[(False, SetJson)]" "[]" "cli0 Map.empty []"]
  by (simp add: command_words_def args_of_def)

section \<open>When the input ends\<close>

text \<open>
  Only the dialogue about the token looks at the end of the input. After it every question is
  answered by its default: the first of several codespaces is written to the configuration.
\<close>

lemma end_of_input_picks_first:
  assumes "tm_in (cl_tm c) = []"
    and "w_List (cp_prov p) (WithTimeout ctx_bg (60 * second) (ce_now E (cl_world c))) (cl_world c) = (Inr (a # b # es), w)"
  shows "\<exists>c'. setupEnvironment E path reg p c =
    Some (patch_config E path [reg_ConfigKey reg, reg_DefaultEnvironmentKey reg] (env_ID a) c') \<and> ended c'"
proof -
  obtain c' where "p_menu (utf8 [0x8FDE, 0x63A5, 0x54EA, 0x4E2A] @ '' codespace'' @ utf8 [0xFF1F]) (environment_items (a # b # es)) 0 (c\<lparr>cl_world := w\<rparr>) = Some (0, c')" "ended c'"
    using menu_at_end [of "c\<lparr>cl_world := w\<rparr>"] assms(1) by fastforce
  then show ?thesis using assms(2) by (intro exI [of _ c']) (simp add: setupEnvironment_def)
qed

end
