(* ===== verification/GithubKeys.thy ===== *)
theory GithubKeys
  imports GithubProviderSpec SshServer ConfigFile
begin

text \<open>
  The gateway's own key pair for the codespaces (\<open>providers/github/keys.go\<close>, \<open>ensureKeyPair\<close>): loaded
  from the state directory or made there, with its public half in a file for \<open>gh\<close>. It is the
  outcome \<open>pd_keys\<close> that \<open>New_github\<close> depends on. Parsing, generating and rendering keys are the
  library's (\<open>hostlib\<close>, as for the SSH server's host key).
\<close>

section \<open>The two files\<close>

text \<open>
  The directory with the faults that can strike while the pair is prepared. The private key's file is
  created exclusively; the public key's file is written over, which truncates it first.
\<close>

datatype write_fault = WriteWhole | WriteOpen goerr | WritePart nat goerr

record key_dir =
  kd_mkdir :: "goerr option"
  kd_private :: key_file
  kd_public :: "string option"
  kd_stat :: "goerr option"
  kd_write :: write_fault

record 'k pairlib =
  pl_host :: "'k hostlib"
  pl_line :: "'k \<Rightarrow> string"
  pl_fingerprint :: "'k \<Rightarrow> string"

definition writePublicKey :: "'k pairlib \<Rightarrow> 'k \<Rightarrow> key_dir \<Rightarrow> goerr option \<times> key_dir" where
  "writePublicKey L key d =
    (case kd_write d of
       WriteWhole \<Rightarrow> (None, d\<lparr>kd_public := Some (pl_line L key)\<rparr>)
     | WriteOpen e \<Rightarrow> (Some e, d)
     | WritePart n e \<Rightarrow> (Some e, d\<lparr>kd_public := Some (take n (pl_line L key))\<rparr>))"

definition private_path :: "string \<Rightarrow> string" where
  "private_path dir = path_Join [dir, ''codespace_ed25519'']"

definition public_path :: "string \<Rightarrow> string" where
  "public_path dir = private_path dir @ ''.pub''"

definition pair_at :: "'k pairlib \<Rightarrow> string \<Rightarrow> 'k \<Rightarrow> key_pair" where
  "pair_at L dir key =
    \<lparr>kp_PrivatePath = private_path dir, kp_PublicPath = public_path dir, kp_fingerprint = pl_fingerprint L key\<rparr>"

definition stat_public :: "key_dir \<Rightarrow> bool" where
  "stat_public d \<longleftrightarrow> kd_public d \<noteq> None \<and> kd_stat d = None"

text \<open>The public half is written and the pair returned.\<close>

definition finish_pair :: "'k pairlib \<Rightarrow> string \<Rightarrow> 'k \<Rightarrow> key_dir \<Rightarrow> (goerr + 'k \<times> key_pair) \<times> key_dir" where
  "finish_pair L dir key d =
    (case writePublicKey L key d of
       (Some e, d1) \<Rightarrow> (Inl e, d1)
     | (None, d1) \<Rightarrow> (Inr (key, pair_at L dir key), d1))"

definition create_pair :: "'k pairlib \<Rightarrow> string \<Rightarrow> key_dir \<Rightarrow> (goerr + 'k \<times> key_pair) \<times> key_dir" where
  "create_pair L dir d =
    (case hl_generate (pl_host L) of
       Inl e \<Rightarrow> (Inl e, d)
     | Inr priv \<Rightarrow>
        (case hl_marshal (pl_host L) priv of
           Inl e \<Rightarrow> (Inl e, d)
         | Inr pem \<Rightarrow>
            (let f = kd_private d
             in (case kf_open f of
                   Some e \<Rightarrow> (Inl (Wrapf (''create '' @ private_path dir @ '': '') e []), d)
                 | None \<Rightarrow>
                    (case kf_write f of
                       Some (n, e) \<Rightarrow> (Inl e, d\<lparr>kd_private := f\<lparr>kf_content := FileContent (take n pem)\<rparr>\<rparr>)
                     | None \<Rightarrow>
                        (let d1 = d\<lparr>kd_private := f\<lparr>kf_content := FileContent pem\<rparr>\<rparr>
                         in (case kf_close f of
                               Some e \<Rightarrow> (Inl e, d1)
                             | None \<Rightarrow>
                                (case hl_signer (pl_host L) priv of
                                   Inl e \<Rightarrow> (Inl e, d1)
                                 | Inr key \<Rightarrow> finish_pair L dir key d1))))))))"

definition ensureKeyPair :: "'k pairlib \<Rightarrow> string \<Rightarrow> key_dir \<Rightarrow> (goerr + 'k \<times> key_pair) \<times> key_dir" where
  "ensureKeyPair L dir d =
    (case kd_mkdir d of
       Some e \<Rightarrow> (Inl e, d)
     | None \<Rightarrow>
        (case kf_content (kd_private d) of
           FileContent raw \<Rightarrow>
             (case hl_parse (pl_host L) raw of
                Inl e \<Rightarrow> (Inl (Wrapf (''parse '' @ private_path dir @ '': '') e []), d)
              | Inr key \<Rightarrow>
                 if stat_public d then (Inr (key, pair_at L dir key), d) else finish_pair L dir key d)
         | FileError e \<Rightarrow> (Inl e, d)
         | FileMissing \<Rightarrow> create_pair L dir d))"

section \<open>The pair lasts\<close>

text \<open>What a private key file that is there is used for: it is read, never written.\<close>

lemma finish_pair_private: "kd_private (snd (finish_pair L dir key d)) = kd_private d"
  by (auto simp: finish_pair_def writePublicKey_def split: write_fault.split)

lemma private_kept:
  "kf_content (kd_private d) \<noteq> FileMissing \<Longrightarrow> kd_private (snd (ensureKeyPair L dir d)) = kd_private d"
  by (auto simp: ensureKeyPair_def finish_pair_private split: option.split file_read.split sum.split)

text \<open>
  A key pair, once prepared, is the pair of every later start, whatever the random source; then the
  codespaces that know the public half keep letting the gateway in.
\<close>

theorem key_pair_stable:
  assumes "key_round_trip (pl_host L)"
    and "ensureKeyPair L dir d = (Inr (key, kp), d')" and "kd_stat d = None"
  shows "ensureKeyPair (L\<lparr>pl_host := (pl_host L)\<lparr>hl_generate := g\<rparr>\<rparr>) dir d' = (Inr (key, kp), d') \<and>
    (kd_public d = None \<longrightarrow> kd_public d' = Some (pl_line L key))"
proof -
  let ?L = "L\<lparr>pl_host := (pl_host L)\<lparr>hl_generate := g\<rparr>\<rparr>"
  have "kd_mkdir d = None" using assms(2) by (auto simp: ensureKeyPair_def split: option.splits)
  have finish: "kp = pair_at L dir key \<and> d' = e\<lparr>kd_public := Some (pl_line L key)\<rparr> \<and> k = key"
    if "finish_pair L dir k e = (Inr (key, kp), d')" for k e
    using that by (auto simp: finish_pair_def writePublicKey_def split: write_fault.splits)
  have "\<exists>raw. kf_content (kd_private d') = FileContent raw \<and> hl_parse (pl_host L) raw = Inr key \<and> stat_public d' \<and>
      kd_mkdir d' = None \<and> kp = pair_at L dir key \<and> (kd_public d = None \<longrightarrow> kd_public d' = Some (pl_line L key))"
  proof (cases "kf_content (kd_private d)")
    case (FileContent raw)
    with assms(2,3) \<open>kd_mkdir d = None\<close> show ?thesis
      by (auto simp: ensureKeyPair_def stat_public_def split: sum.splits if_splits dest!: finish)
  next
    case FileMissing
    with assms \<open>kd_mkdir d = None\<close> show ?thesis
      by (auto simp: ensureKeyPair_def create_pair_def stat_public_def key_round_trip_def Let_def split: sum.splits option.splits dest!: finish)
  next
    case (FileError e)
    with assms(2) \<open>kd_mkdir d = None\<close> show ?thesis by (simp add: ensureKeyPair_def)
  qed
  then show ?thesis by (auto simp: ensureKeyPair_def pair_at_def)
qed

text \<open>
  The public half is only looked for, not read: one that a failed write cut short is what \<open>gh\<close> gets
  from the next start on.
\<close>

lemma public_half_cut:
  assumes "kd_mkdir d = None" and "kf_content (kd_private d) = FileContent raw" and "hl_parse (pl_host L) raw = Inr key"
    and "kd_public d = None" and "kd_stat d = None" and "kd_write d = WritePart n e"
  shows "\<exists>d1. ensureKeyPair L dir d = (Inl e, d1) \<and>
    ensureKeyPair L dir d1 = (Inr (key, pair_at L dir key), d1) \<and> kd_public d1 = Some (take n (pl_line L key))"
  using assms by (simp add: ensureKeyPair_def finish_pair_def writePublicKey_def stat_public_def)

end
