(* ===== verification/FakeGithub.thy ===== *)
theory FakeGithub
  imports GithubProviderSpec
begin

text \<open>
  The GitHub API that the test suite runs the gateway against (\<open>internal/testenv/github.go\<close>,
  \<open>github_state.go\<close>): its state, its requests, the faults a test can inject; and the network
  (\<open>net\<close>) with this server at its far end, a clock, and time-outs. It gives the properties of the
  client, the provider and the lifecycle manager a concrete GitHub to hold against.
\<close>

section \<open>State (github.go)\<close>

record fake_codespace =
  fk_Name :: string
  fk_DisplayName :: string
  fk_State :: string
  fk_Repository :: string
  fk_IdleTimeoutMinutes :: int
  fk_PendingOperation :: bool
  fk_PollsBeforeAvailable :: int

record fault =
  fa_pathContains :: string
  fa_status :: int
  fa_body :: string
  fa_times :: int

record fake_github =
  fg_codespaces :: "(string, fake_codespace) gomap"
  fg_calls :: "(string, int) gomap"
  fg_token :: string
  fg_faults :: "fault list"
  fg_created :: int
  fg_createdRepo :: string
  fg_StartError :: int
  fg_CreateError :: int
  fg_FailStartTransition :: bool
  fg_Latency :: int

definition NewGitHub :: "string \<Rightarrow> fake_github" where
  "NewGitHub token = \<lparr>fg_codespaces = [], fg_calls = [], fg_token = token, fg_faults = [], fg_created = 0,
     fg_createdRepo = [], fg_StartError = 0, fg_CreateError = 0, fg_FailStartTransition = False, fg_Latency = 0\<rparr>"

definition hub_Add :: "fake_codespace \<Rightarrow> fake_github \<Rightarrow> fake_github" where
  "hub_Add cs g = g\<lparr>fg_codespaces := AList.update (fk_Name cs) cs (fg_codespaces g)\<rparr>"

definition hub_change :: "string \<Rightarrow> (fake_codespace \<Rightarrow> fake_codespace) \<Rightarrow> fake_github \<Rightarrow> fake_github" where
  "hub_change name f g =
    (case map_of (fg_codespaces g) name of
       None \<Rightarrow> g
     | Some cs \<Rightarrow> g\<lparr>fg_codespaces := AList.update name (f cs) (fg_codespaces g)\<rparr>)"

definition hub_SetState :: "string \<Rightarrow> string \<Rightarrow> fake_github \<Rightarrow> fake_github" where
  "hub_SetState name s = hub_change name (\<lambda>cs. cs\<lparr>fk_State := s\<rparr>)"

definition hub_State :: "string \<Rightarrow> fake_github \<Rightarrow> string" where
  "hub_State name g = (case map_of (fg_codespaces g) name of None \<Rightarrow> [] | Some cs \<Rightarrow> fk_State cs)"

definition hub_Calls :: "string \<Rightarrow> fake_github \<Rightarrow> int" where
  "hub_Calls fragment g = sum_list (map snd (filter (\<lambda>(path, n). Contains path fragment) (fg_calls g)))"

definition hub_Delete :: "string \<Rightarrow> fake_github \<Rightarrow> fake_github" where
  "hub_Delete name g = g\<lparr>fg_codespaces := AList.delete name (fg_codespaces g)\<rparr>"

definition hub_Inject :: "string \<Rightarrow> int \<Rightarrow> string \<Rightarrow> int \<Rightarrow> fake_github \<Rightarrow> fake_github" where
  "hub_Inject pathContains status body n g =
    g\<lparr>fg_faults := fg_faults g @ [\<lparr>fa_pathContains = pathContains, fa_status = status, fa_body = body, fa_times = n\<rparr>]\<rparr>"

section \<open>Answers\<close>

definition content_json :: "(string, string) gomap" where
  "content_json = [(''Content-Type'', ''application/json'')]"

definition answer_json :: "int \<Rightarrow> json \<Rightarrow> http_response" where
  "answer_json code v = \<lparr>hr_Status = code, hr_Header = content_json, hr_Body = json_print v @ [nl], hr_BodyErr = None\<rparr>"

definition answer_raw :: "int \<Rightarrow> string \<Rightarrow> http_response" where
  "answer_raw code body =
    \<lparr>hr_Status = code,
     hr_Header = content_json @ (if code = 403 then [(''X-Ratelimit-Remaining'', ''0'')] else []),
     hr_Body = (if body = [] then ''{'' @ quote ''message'' @ '':'' @ quote (''injected '' @ show_int code) @ ''}'' else body),
     hr_BodyErr = None\<rparr>"

definition message_json :: "string \<Rightarrow> json" where
  "message_json s = JObj [(''message'', JStr s)]"

definition not_found :: http_response where
  "not_found = answer_json 404 (message_json ''Not Found'')"

section \<open>Codespaces (github_state.go)\<close>

text \<open>
  The payload; \<open>json.Encoder\<close> sorts the keys of a map. \<open>stamp\<close> renders a time as \<open>time.RFC3339\<close> in the
  machine's time zone.
\<close>

definition payload :: "(int \<Rightarrow> string) \<Rightarrow> int \<Rightarrow> fake_codespace \<Rightarrow> json" where
  "payload stamp now cs = JObj
    [(''created_at'', JStr (stamp (now - 3600 * second))),
     (''display_name'', JStr (fk_DisplayName cs)),
     (''git_status'', JObj [(''ref'', JStr ''main'')]),
     (''idle_timeout_minutes'', JNum (show_int (fk_IdleTimeoutMinutes cs))),
     (''last_used_at'', JStr (stamp (now - 60 * second))),
     (''location'', JStr ''WestEurope''),
     (''machine'', JObj [(''display_name'', JStr ''2 cores''), (''name'', JStr ''basicLinux32gb'')]),
     (''name'', JStr (fk_Name cs)),
     (''owner'', JObj [(''login'', JStr ''tester'')]),
     (''pending_operation'', JBool (fk_PendingOperation cs)),
     (''repository'', JObj
        [(''full_name'', JStr (if fk_Repository cs = [] then ''octo/demo'' else fk_Repository cs)), (''id'', JNum (show_int 4242))]),
     (''state'', JStr (fk_State cs)),
     (''web_url'', JStr (''https://github.com/codespaces/'' @ fk_Name cs))]"

definition hub_list :: "(int \<Rightarrow> string) \<Rightarrow> int \<Rightarrow> fake_github \<Rightarrow> http_response" where
  "hub_list stamp now g =
    (let out = map (payload stamp now \<circ> snd) (fg_codespaces g)
     in answer_json 200 (JObj [(''codespaces'', JArr out), (''total_count'', JNum (show_nat (length out)))]))"

text \<open>Looking at a codespace that starts brings it closer to its end.\<close>

definition advance :: "bool \<Rightarrow> fake_codespace \<Rightarrow> fake_codespace" where
  "advance failing cs =
    (if fk_State cs \<in> {''Starting'', ''Provisioning'', ''Queued''} then
       (if fk_PollsBeforeAvailable cs > 0 then cs\<lparr>fk_PollsBeforeAvailable := fk_PollsBeforeAvailable cs - 1\<rparr>
        else cs\<lparr>fk_State := if failing then ''Failed'' else ''Available''\<rparr>)
     else cs)"

definition hub_get :: "(int \<Rightarrow> string) \<Rightarrow> int \<Rightarrow> string \<Rightarrow> fake_github \<Rightarrow> http_response \<times> fake_github" where
  "hub_get stamp now name g =
    (case map_of (fg_codespaces g) name of
       None \<Rightarrow> (not_found, g)
     | Some cs \<Rightarrow>
        (let cs1 = advance (fg_FailStartTransition g) cs
         in (answer_json 200 (payload stamp now cs1), hub_change name (\<lambda>_. cs1) g)))"

definition hub_start :: "(int \<Rightarrow> string) \<Rightarrow> int \<Rightarrow> string \<Rightarrow> fake_github \<Rightarrow> http_response \<times> fake_github" where
  "hub_start stamp now name g =
    (if fg_StartError g \<noteq> 0 then
       (answer_raw (fg_StartError g) (''{'' @ quote ''message'' @ '':'' @ quote ''start refused'' @ ''}''), g)
     else
       (case map_of (fg_codespaces g) name of
          None \<Rightarrow> (not_found, g)
        | Some cs \<Rightarrow>
           if fk_State cs = ''Available'' then (answer_json 409 (message_json ''already running''), g)
           else (let cs1 = cs\<lparr>fk_State := ''Starting''\<rparr>
                 in (answer_json 200 (payload stamp now cs1), hub_change name (\<lambda>_. cs1) g))))"

definition hub_stop :: "string \<Rightarrow> fake_github \<Rightarrow> http_response \<times> fake_github" where
  "hub_stop name g =
    (case map_of (fg_codespaces g) name of
       None \<Rightarrow> (not_found, g)
     | Some cs \<Rightarrow> (answer_json 200 (JObj [(''state'', JStr ''Shutdown'')]), hub_SetState name ''Shutdown'' g))"

text \<open>\<open>itoa\<close> fills a buffer of eight bytes from the right; a longer number panics.\<close>

fun itoa_from :: "nat \<Rightarrow> nat \<Rightarrow> string \<Rightarrow> string option" where
  "itoa_from pos i acc =
    (if i = 0 then Some acc
     else case pos of
       0 \<Rightarrow> None
     | Suc p \<Rightarrow> itoa_from p (i div 10) (char_of (48 + i mod 10) # acc))"

definition itoa :: "nat \<Rightarrow> string option" where
  "itoa i = (if i = 0 then Some ''0'' else itoa_from 8 i [])"

text \<open>
  The name of a new codespace: the first free one. The first argument bounds the number of candidates;
  one more than there are codespaces is enough.
\<close>

fun free_name :: "nat \<Rightarrow> nat \<Rightarrow> string list \<Rightarrow> string \<Rightarrow> string option" where
  "free_name 0 i taken name = None"
| "free_name (Suc n) i taken name =
    (if name \<notin> set taken then Some name
     else case itoa i of None \<Rightarrow> None | Some d \<Rightarrow> free_name n (i + 1) taken (''generated-codespace-'' @ d))"

definition repoForID :: "int \<Rightarrow> string" where
  "repoForID i = (if i = 4242 then ''octo/demo'' else [])"

text \<open>
  The body of a create request: the repository's id, the display name, the idle time. A member of
  the wrong type is skipped, since the decoder's error is ignored.
\<close>

definition into_create_body :: "string \<Rightarrow> int \<times> string \<times> int \<Rightarrow> json \<Rightarrow> (int \<times> string \<times> int) option" where
  "into_create_body k b v =
    (case b of (repo, display, idle) \<Rightarrow>
       Some (if EqualFold k ''repository_id'' then (case into_int repo v of None \<Rightarrow> b | Some n \<Rightarrow> (n, display, idle))
             else if EqualFold k ''display_name'' then
               (case into_string display v of None \<Rightarrow> b | Some s \<Rightarrow> (repo, s, idle))
             else if EqualFold k ''idle_timeout_minutes'' then
               (case into_int idle v of None \<Rightarrow> b | Some n \<Rightarrow> (repo, display, n))
             else b))"

definition hub_create ::
  "(int \<Rightarrow> string) \<Rightarrow> int \<Rightarrow> string option \<Rightarrow> fake_github \<Rightarrow> http_response option \<times> fake_github" where
  "hub_create stamp now body g =
    (case (case body of None \<Rightarrow> None | Some raw \<Rightarrow> unmarshal (into_struct into_create_body) (0, [], 0) raw) of
       r \<Rightarrow>
        (let (repo, display, idle) = (case r of None \<Rightarrow> (0, [], 0) | Some b \<Rightarrow> b)
         in if fg_CreateError g \<noteq> 0 then
              (Some (answer_raw (fg_CreateError g) (''{'' @ quote ''message'' @ '':'' @ quote ''create refused'' @ ''}'')), g)
            else
              (let g1 = g\<lparr>fg_created := fg_created g + 1, fg_createdRepo := repoForID repo\<rparr>
               in (case free_name (length (fg_codespaces g) + 1) 2 (map fst (fg_codespaces g)) ''generated-codespace-1'' of
                     None \<Rightarrow> (None, g1)
                   | Some name \<Rightarrow>
                      (let cs = \<lparr>fk_Name = name, fk_DisplayName = display, fk_State = ''Queued'', fk_Repository = [],
                             fk_IdleTimeoutMinutes = idle, fk_PendingOperation = False, fk_PollsBeforeAvailable = 1\<rparr>
                       in (Some (answer_json 201 (payload stamp now cs)), hub_Add cs g1))))))"

section \<open>Requests (github.go, handle)\<close>

text \<open>The first fault that matches the path and is not used up strikes; a status of 0 drops the connection.\<close>

fun strike :: "string \<Rightarrow> fault list \<Rightarrow> (fault option \<times> fault list)" where
  "strike path [] = (None, [])"
| "strike path (f # fs) =
    (if fa_times f > 0 \<and> Contains path (fa_pathContains f) then (Some f, f\<lparr>fa_times := fa_times f - 1\<rparr> # fs)
     else (case strike path fs of (r, fs') \<Rightarrow> (r, f # fs')))"

definition nameFromPath :: "string \<Rightarrow> string \<Rightarrow> string" where
  "nameFromPath path suffix = TrimPrefix (TrimSuffix path suffix) ''/user/codespaces/''"

definition repo_json :: "int \<Rightarrow> string \<Rightarrow> string \<Rightarrow> bool \<Rightarrow> string \<Rightarrow> json" where
  "repo_json n full branch private pushed = JObj
    [(''default_branch'', JStr branch), (''full_name'', JStr full), (''id'', JNum (show_int n)),
     (''private'', JBool private), (''pushed_at'', JStr pushed)]"

definition hub_route ::
  "(int \<Rightarrow> string) \<Rightarrow> int \<Rightarrow> string \<Rightarrow> string \<Rightarrow> string option \<Rightarrow> fake_github \<Rightarrow> http_response option \<times> fake_github" where
  "hub_route stamp now meth path body g =
    (if path = ''/user'' then (Some (answer_json 200 (JObj [(''login'', JStr ''tester'')])), g)
     else if path = ''/user/codespaces'' \<and> meth = ''GET'' then (Some (hub_list stamp now g), g)
     else if path = ''/user/codespaces'' \<and> meth = ''POST'' then hub_create stamp now body g
     else if path = ''/user/repos'' \<and> meth = ''GET'' then
       (Some (answer_json 200 (JArr
          [repo_json 4242 ''octo/demo'' ''main'' False ''2026-09-01T10:00:00Z'',
           repo_json 4243 ''octo/other'' ''trunk'' True ''2026-08-20T10:00:00Z''])), g)
     else if HasPrefix path ''/repos/'' then
       (Some (answer_json 200 (JObj
          [(''default_branch'', JStr ''main''), (''full_name'', JStr (TrimPrefix path ''/repos/'')),
           (''id'', JNum (show_int 4242))])), g)
     else if HasSuffix path ''/start'' \<and> meth = ''POST'' then
       apfst Some (hub_start stamp now (nameFromPath path ''/start'') g)
     else if HasSuffix path ''/stop'' \<and> meth = ''POST'' then apfst Some (hub_stop (nameFromPath path ''/stop'') g)
     else if HasPrefix path ''/user/codespaces/'' \<and> meth = ''GET'' then
       apfst Some (hub_get stamp now (TrimPrefix path ''/user/codespaces/'') g)
     else (Some not_found, g))"

definition count_call :: "string \<Rightarrow> fake_github \<Rightarrow> fake_github" where
  "count_call call g = g\<lparr>fg_calls := AList.update call (getz (fg_calls g) call 0 + 1) (fg_calls g)\<rparr>"

text \<open>The answer is none where the connection is dropped.\<close>

definition hub_handle ::
  "(int \<Rightarrow> string) \<Rightarrow> int \<Rightarrow> string \<Rightarrow> string \<Rightarrow> (string, string) gomap \<Rightarrow> string option \<Rightarrow> fake_github \<Rightarrow>
   http_response option \<times> fake_github" where
  "hub_handle stamp now meth path header body g =
    (let g1 = count_call (meth @ '' '' @ path) g
     in (case strike path (fg_faults g1) of
           (Some f, fs) \<Rightarrow>
             (if fa_status f = 0 then None else Some (answer_raw (fa_status f) (fa_body f)), g1\<lparr>fg_faults := fs\<rparr>)
         | (None, _) \<Rightarrow>
             if getz header ''Authorization'' [] \<noteq> ''Bearer '' @ fg_token g1 then
               (Some (answer_json 401 (message_json ''Bad credentials'')), g1)
             else hub_route stamp now meth path body g1))"

section \<open>The network with this server\<close>

text \<open>
  \<open>url_path\<close> is the decoded path of a request for the server at \<open>base\<close>. The world is the time and
  the server. A request takes the server's latency, a timer fires when it is due, and a context
  that ends first ends either; nobody gives a signal. A request that was sent is handled, even
  when its answer comes too late.
\<close>

record fake_world =
  fw_now :: int
  fw_hub :: fake_github

definition url_path :: "string \<Rightarrow> string \<Rightarrow> string" where
  "url_path base url =
    (let raw = fst (Cut (drop (length base) url) ''?'') in case unescape raw of None \<Rightarrow> raw | Some p \<Rightarrow> p)"

definition ctx_err :: "ctx \<Rightarrow> int \<Rightarrow> goerr option" where
  "ctx_err x now = (case ctx_end x of Some (d, e) \<Rightarrow> if d \<le> now then Some e else None | None \<Rightarrow> None)"

definition fake_sel :: "ctx \<Rightarrow> int \<Rightarrow> 'a fake_world_scheme \<Rightarrow> goerr option \<times> 'a fake_world_scheme" where
  "fake_sel x due w =
    (case ctx_end x of
       Some (d, e) \<Rightarrow>
         if d \<le> due then (Some e, w\<lparr>fw_now := max (fw_now w) d\<rparr>)
         else (None, w\<lparr>fw_now := max (fw_now w) due\<rparr>)
     | None \<Rightarrow> (None, w\<lparr>fw_now := max (fw_now w) due\<rparr>))"

definition fake_http ::
  "(int \<Rightarrow> string) \<Rightarrow> string \<Rightarrow> ctx \<Rightarrow> http_request \<Rightarrow> 'a fake_world_scheme \<Rightarrow> (goerr + http_response) \<times> 'a fake_world_scheme" where
  "fake_http stamp base x q w =
    (case ctx_err x (fw_now w) of
       Some e \<Rightarrow> (Inl e, w)
     | None \<Rightarrow>
       (let t = fw_now w + max 0 (fg_Latency (fw_hub w));
            (late, w1) = fake_sel x t w;
            (a, g) = hub_handle stamp t (hq_Method q) (url_path base (hq_URL q)) (hq_Header q) (hq_Body q) (fw_hub w);
            r = (case late of
                   Some e \<Rightarrow> Inl e
                 | None \<Rightarrow> (case a of None \<Rightarrow> Inl (Ext ''EOF'' None) | Some rs \<Rightarrow> Inr rs))
        in (r, w1\<lparr>fw_hub := g\<rparr>)))"

definition fake_net :: "(int \<Rightarrow> string) \<Rightarrow> string \<Rightarrow> 'a fake_world_scheme net" where
  "fake_net stamp base =
    \<lparr>n_now = fw_now,
     n_err = (\<lambda>x w. ctx_err x (fw_now w)),
     n_sel = fake_sel, n_http = fake_http stamp base, n_badreq = (\<lambda>u. None), n_badjson = (\<lambda>raw. ''invalid character'')\<rparr>"

end
