(* ===== verification/GithubSystem.thy ===== *)
theory GithubSystem
  imports FakeGithub GithubConnectSpec LifecycleSpec
begin

text \<open>
  The provider, the API client and GitHub together.
\<close>

section \<open>What the client reads\<close>

definition seen :: "(int \<Rightarrow> string) \<Rightarrow> int \<Rightarrow> fake_codespace \<Rightarrow> codespace" where
  "seen stamp now cs =
    \<lparr>gc_Name = fk_Name cs, gc_DisplayName = fk_DisplayName cs, gc_State = fk_State cs,
     gc_CreatedAt = stamp (now - 3600 * second), gc_LastUsedAt = stamp (now - 60 * second),
     gc_WebURL = ''https://github.com/codespaces/'' @ fk_Name cs, gc_Location = ''WestEurope'',
     gc_DevContainerPath = [], gc_IdleTimeoutMinutes = fk_IdleTimeoutMinutes cs, gc_RetentionPeriodMinutes = 0,
     gc_PendingOperation = fk_PendingOperation cs, gc_PendingReason = [], gc_MachineName = ''basicLinux32gb'',
     gc_MachineDisplayName = ''2 cores'', gc_RepositoryID = 4242,
     gc_RepositoryFullName = (if fk_Repository cs = [] then ''octo/demo'' else fk_Repository cs),
     gc_GitRef = ''main'', gc_OwnerLogin = ''tester''\<rparr>"

definition fine :: "fake_codespace \<Rightarrow> bool" where
  "fine cs \<longleftrightarrow> ascii (fk_Name cs) \<and> ascii (fk_DisplayName cs) \<and> ascii (fk_State cs) \<and> ascii (fk_Repository cs) \<and>
     length (fk_Name cs) \<le> 10 ^ 5 \<and> length (fk_DisplayName cs) \<le> 10 ^ 5 \<and> length (fk_State cs) \<le> 10 ^ 5 \<and>
     length (fk_Repository cs) \<le> 10 ^ 5 \<and> 0 \<le> fk_IdleTimeoutMinutes cs \<and> fk_IdleTimeoutMinutes cs < 10 ^ 9"

lemma lower_keys: "EqualFold ''name'' ''name''" by (simp add: EqualFold_def)

lemma decode_payload:
  assumes "0 \<le> fk_IdleTimeoutMinutes cs" "fk_IdleTimeoutMinutes cs < 10 ^ 9"
  shows "into_codespace no_codespace (payload stamp now cs) = Some (seen stamp now cs)"
proof -
  have i: "Atoi (show_int (fk_IdleTimeoutMinutes cs)) = Some (fk_IdleTimeoutMinutes cs)"
    using assms Atoi_show_nat [of "nat (fk_IdleTimeoutMinutes cs)"] by (simp add: show_int_def)
  have r: "Atoi (show_int 4242) = Some 4242"
    using Atoi_show_nat [of 4242] by (simp add: show_int_def)
  show ?thesis
    by (simp add: payload_def seen_def into_codespace_def into_struct_def into_codespace_field_def i r
        into_repository_part_def into_git_part_def into_machine_part_def into_owner_part_def into_string_def into_int_def into_bool_def
        EqualFold_def ToLower_def lower_char_def no_codespace_def)
qed

text \<open>A bound on the length of a printed value.\<close>

fun print_bound :: "json \<Rightarrow> nat" where
  "print_bound JNull = 4"
| "print_bound (JBool b) = 5"
| "print_bound (JNum l) = length l"
| "print_bound (JStr s) = 6 * length s + 2"
| "print_bound (JArr vs) = 2 + sum_list (map (\<lambda>v. print_bound v + 1) vs)"
| "print_bound (JObj ms) = 2 + sum_list (map (\<lambda>m. 6 * length (fst m) + 4 + print_bound (snd m)) ms)"

lemma Join_length: "length (Join xs sep) \<le> sum_list (map (\<lambda>x. length x + length sep) xs)"
  by (induction xs sep rule: Join.induct) auto

lemma print_bound: "json_ok v \<Longrightarrow> length (json_layout (\<lambda>d. []) [] d v) \<le> print_bound v"
proof (induction v arbitrary: d)
  case (JStr s)
  then show ?case using json_string_size by simp
next
  case (JArr vs)
  have "sum_list (map (\<lambda>x. length x + 1) (map (json_layout (\<lambda>d. []) [] (Suc d)) vs)) \<le>
      sum_list (map (\<lambda>v. print_bound v + 1) vs)"
    unfolding map_map by (rule sum_list_mono) (use JArr in auto)
  then show ?case using Join_length [of "map (json_layout (\<lambda>d. []) [] (Suc d)) vs" "'',''"] by simp
next
  case (JObj ms)
  let ?f = "\<lambda>(k, v). json_string k @ '':'' @ json_layout (\<lambda>d. []) [] (Suc d) v"
  have "sum_list (map (\<lambda>x. length x + 1) (map ?f ms)) \<le>
      sum_list (map (\<lambda>m. 6 * length (fst m) + 4 + print_bound (snd m)) ms)"
    unfolding map_map
  proof (rule sum_list_mono)
    fix m assume m: "m \<in> set ms"
    obtain k v where kv: "m = (k, v)" by fastforce
    have "length (json_string k) \<le> 6 * length k + 2" using JObj.prems m kv by (intro json_string_size) auto
    moreover have "length (json_layout (\<lambda>d. []) [] (Suc d) v) \<le> print_bound v"
      using JObj.IH [of m v] JObj.prems m kv by auto
    ultimately show "((\<lambda>x. length x + 1) \<circ> ?f) m \<le> 6 * length (fst m) + 4 + print_bound (snd m)" using kv by simp
  qed
  then show ?case using Join_length [of "map ?f ms" "'',''"] by (simp add: case_prod_unfold)
qed auto

definition stamp_ok :: "(int \<Rightarrow> string) \<Rightarrow> bool" where
  "stamp_ok stamp \<longleftrightarrow> (\<forall>t. ascii (stamp t) \<and> length (stamp t) \<le> 100)"

lemma show_int_fine: "0 \<le> n \<Longrightarrow> num_ok (show_int n)"
  by (simp add: show_int_def num_ok_nat)

lemma show_nat_length: "n < 10 ^ k \<Longrightarrow> 0 < k \<Longrightarrow> length (show_nat n) \<le> k"
proof (induction k arbitrary: n)
  case (Suc k)
  show ?case
  proof (cases "n < 10")
    case False
    then have "0 < k" using Suc.prems by (cases k) auto
    moreover have "n div 10 < 10 ^ k" using Suc.prems by (simp add: less_mult_imp_div_less mult.commute)
    ultimately have "length (show_nat (n div 10)) \<le> k" by (intro Suc.IH)
    with False show ?thesis by (subst show_nat.simps) simp
  qed (subst show_nat.simps, simp)
qed simp

lemma payload_ok: "fine cs \<Longrightarrow> stamp_ok stamp \<Longrightarrow> json_ok (payload stamp now cs)"
  by (simp add: payload_def fine_def stamp_ok_def show_int_fine) (simp add: ascii_def byte_def)

lemma payload_size:
  assumes "fine cs" and "stamp_ok stamp"
  shows "length (json_print (payload stamp now cs)) + 1 < maxBody"
proof -
  have "length (json_print (payload stamp now cs)) \<le> print_bound (payload stamp now cs)"
    unfolding json_print_def using print_bound payload_ok [OF assms] by blast
  moreover have "print_bound (payload stamp now cs) \<le> 3100000"
  proof -
    have i: "length (show_int (fk_IdleTimeoutMinutes cs)) \<le> 9"
      using assms(1) show_nat_length [of "nat (fk_IdleTimeoutMinutes cs)" 9] by (auto simp: fine_def show_int_def)
    have r: "length (show_int 4242) \<le> 9" using show_nat_length [of 4242 9] by (simp add: show_int_def)
    have t: "length (stamp t) \<le> 100" for t using assms(2) by (simp add: stamp_ok_def)
    have l: "length (fk_Name cs) \<le> 100000" "length (fk_DisplayName cs) \<le> 100000" "length (fk_State cs) \<le> 100000"
      "length (if fk_Repository cs = [] then ''octo/demo'' else fk_Repository cs) \<le> 100000"
      using assms(1) by (simp_all add: fine_def)
    show ?thesis
      using i r t [of "now - 3600 * second"] t [of "now - 60 * second"] l unfolding payload_def by simp
  qed
  ultimately show ?thesis by (simp add: maxBody_def)
qed

section \<open>Requests that arrive\<close>

text \<open>
  A world in which nothing goes wrong: the server answers at once, no faults are injected, and it accepts
  the client's token.
\<close>

definition calm :: "api_client \<Rightarrow> 'a fake_world_scheme \<Rightarrow> bool" where
  "calm c w \<longleftrightarrow> fg_Latency (fw_hub w) = 0 \<and> fg_faults (fw_hub w) = [] \<and> fg_StartError (fw_hub w) = 0 \<and>
     \<not> fg_FailStartTransition (fw_hub w) \<and> fg_token (fw_hub w) = ac_token c \<and> 0 < ac_timeout c"

text \<open>The time is not over for a context.\<close>

definition in_time :: "ctx \<Rightarrow> int \<Rightarrow> bool" where
  "in_time x t \<longleftrightarrow> ctx_err x t = None"

lemma in_time_WithTimeout: "in_time (WithTimeout x d t0) t \<longleftrightarrow> in_time x t \<and> t < t0 + d"
  by (auto simp: in_time_def ctx_err_def ctx_end_def WithTimeout_def split: option.splits if_splits)

lemma in_time_request: "in_time x t \<Longrightarrow> 0 < d \<Longrightarrow> in_time (WithTimeout x d t) t"
  by (simp add: in_time_WithTimeout)

lemma in_time_mono: "in_time x t \<Longrightarrow> t' \<le> t \<Longrightarrow> in_time x t'"
  by (auto simp: in_time_def ctx_err_def split: option.splits if_splits)

lemma in_time_ctx1 [simp]: "in_time ctx1 t"
  by (simp add: in_time_def ctx_err_def ctx_end_def ctx1_def)

lemma fake_http_in_time:
  assumes "in_time x (fw_now w)" and "fg_Latency (fw_hub w) = 0"
  shows "fake_http stamp base x q w =
    (case hub_handle stamp (fw_now w) (hq_Method q) (url_path base (hq_URL q)) (hq_Header q) (hq_Body q) (fw_hub w) of
       (None, g) \<Rightarrow> (Inl (Ext ''EOF'' None), w\<lparr>fw_hub := g\<rparr>)
     | (Some rs, g) \<Rightarrow> (Inr rs, w\<lparr>fw_hub := g\<rparr>))"
  using assms by (auto simp: fake_http_def fake_sel_def in_time_def ctx_err_def Let_def split: option.splits prod.splits if_splits)

text \<open>A request of the client, from its method and path to the route the server takes and back.\<close>

lemma attempt_answered:
  fixes w :: "'a fake_world_scheme"
  assumes "calm c w" and "in_time x (fw_now w)" and "url_path (ac_base c) (ac_base c @ path) = p"
    and "hub_route stamp (fw_now w) meth p (map_option json_print body) (count_call (meth @ '' '' @ p) (fw_hub w)) =
      (Some \<lparr>hr_Status = status, hr_Header = h, hr_Body = raw, hr_BodyErr = None\<rparr>, g)"
    and "length raw < maxBody"
  shows "attempt_once (fake_net stamp (ac_base c)) c x meth path body dec z final w =
    (if 200 \<le> status \<and> status < 300
     then (Inl (status, decode_answer (fake_net stamp (ac_base c) :: 'a fake_world_scheme net) meth path dec z raw), w\<lparr>fw_hub := g\<rparr>)
     else
       let ae = parseAPIError meth path status h raw
       in (if \<not> api_temporary ae \<or> final then Inl (status, Inl (ApiError ae)) else Inr (ApiError ae), w\<lparr>fw_hub := g\<rparr>))"
proof -
  have t: "in_time (WithTimeout x (ac_timeout c) (fw_now w)) (fw_now w)"
    using assms(1,2) by (intro in_time_request) (simp_all add: calm_def)
  have h: "hub_handle stamp (fw_now w) meth p
      ([(''Accept'', ''application/vnd.github+json''), (''X-GitHub-Api-Version'', ''2022-11-28''),
        (''User-Agent'', ac_agent c), (''Authorization'', ''Bearer '' @ ac_token c)] @ hd1)
      (map_option json_print body) (fw_hub w) =
      (Some \<lparr>hr_Status = status, hr_Header = h, hr_Body = raw, hr_BodyErr = None\<rparr>, g)" for hd1
    using assms(1,4) by (simp add: hub_handle_def calm_def count_call_def getz_def Let_def)
  show ?thesis
    using assms(1,5) h
    by (simp add: attempt_once_def newRequest_def fake_net_def fake_http_in_time [OF t] calm_def assms(3) read_limited_def Let_def)
qed

lemmas attempt_route = attempt_answered [THEN trans, OF _ _ _ _ _ if_P, OF _ _ _ _ _ conjI]

lemma plain_url:
  assumes "unescape path = Some p" and "CHR ''?'' \<notin> set path"
  shows "url_path base (base @ path) = p" "url_path base (base @ path @ CHR ''?'' # q) = p"
proof -
  have "str_index path ''?'' = None" using assms(2) by (simp add: str_index_char_None)
  then have "Cut path ''?'' = (path, [], False)" by (simp add: Cut_def)
  moreover have "Cut (path @ CHR ''?'' # q) ''?'' = (path, q, True)" using Cut_char [of "CHR ''?''" path q] assms(2) by simp
  ultimately show "url_path base (base @ path) = p" "url_path base (base @ path @ CHR ''?'' # q) = p"
    using assms(1) by (simp_all add: url_path_def)
qed

lemma api_do_first:
  assumes "attempt_once N c x meth path body dec z False w = (Inl r, w1)"
  shows "api_do N c x meth path body dec z w = (r, w1)"
  using assms by (simp add: api_do_def maxAttempts_def numeral_3_eq_3)

text \<open>The path of a codespace on the server, and of what is asked of it.\<close>

definition hub_path :: "string \<Rightarrow> string \<Rightarrow> string" where
  "hub_path name suffix = ''/user/codespaces/'' @ name @ suffix"

lemma unescape_segment: "unescape (PathEscape s @ r) = map_option ((@) s) (unescape r)"
proof (induction s)
  case (Cons c s)
  have "byte c div 16 < 16" "byte c mod 16 < 16" using byte_less [of c] by auto
  moreover have "char_of (16 * (byte c div 16) + byte c mod 16) = c" by (simp add: byte_def)
  moreover have "c \<noteq> CHR ''%''" if "segment_char c" using that by (auto simp: segment_char_def alnum_def byte_def)
  ultimately show ?case using Cons
    by (auto simp: PathEscape_def escape_char_def upper_hex_val option.map_comp comp_def)
qed (simp add: PathEscape_def option.map_ident)

lemma segment_no_query: "CHR ''?'' \<notin> set (PathEscape s)"
  using PathEscape_chars [of "CHR ''?''" s] by (auto simp: segment_char_def alnum_def byte_def)

lemma codespace_path_decoded:
  "unescape suffix = Some suffix \<Longrightarrow> unescape (codespace_path name @ suffix) = Some (hub_path name suffix)"
  by (simp add: codespace_path_def hub_path_def unescape_segment)

lemma codespace_path_no_query: "CHR ''?'' \<notin> set suffix \<Longrightarrow> CHR ''?'' \<notin> set (codespace_path name @ suffix)"
  using segment_no_query [of name] by (simp add: codespace_path_def)

text \<open>Where requests about a codespace end up, whatever its name.\<close>

lemma route_get:
  assumes "name \<noteq> []"
  shows "hub_route stamp now ''GET'' (hub_path name []) body g = apfst Some (hub_get stamp now name g)"
proof -
  have "HasPrefix (''/user/codespaces/'' @ name) ''/user/codespaces/''" by (rule HasPrefix_append)
  moreover have "\<not> HasPrefix (''/user/codespaces/'' @ name) ''/repos/''" by (simp add: HasPrefix_def)
  moreover have "TrimPrefix (''/user/codespaces/'' @ name) ''/user/codespaces/'' = name"
    by (simp add: TrimPrefix_def HasPrefix_append [of "''/user/codespaces/''" name, simplified])
  ultimately show ?thesis using assms by (simp add: hub_route_def hub_path_def)
qed

lemma route_start:
  "hub_route stamp now ''POST'' (hub_path name ''/start'') body g = apfst Some (hub_start stamp now name g)"
proof -
  let ?p = "''/user/codespaces/'' @ name @ ''/start''"
  have "HasSuffix ?p ''/start''" unfolding HasSuffix_iff by (intro exI [of _ "''/user/codespaces/'' @ name"]) simp
  then have "nameFromPath ?p ''/start'' = TrimPrefix (''/user/codespaces/'' @ name) ''/user/codespaces/''"
    by (simp add: nameFromPath_def TrimSuffix_def)
  also have "\<dots> = name"
    by (simp add: TrimPrefix_def HasPrefix_append [of "''/user/codespaces/''" name, simplified])
  finally have n: "nameFromPath ?p ''/start'' = name" .
  have "\<not> HasPrefix ?p ''/repos/''" by (simp add: HasPrefix_def)
  with n \<open>HasSuffix ?p ''/start''\<close> show ?thesis by (simp add: hub_route_def hub_path_def)
qed

section \<open>The provider's operations on this server\<close>

lemma count_call_simps [simp]:
  "fg_codespaces (count_call k g) = fg_codespaces g" "fg_StartError (count_call k g) = fg_StartError g"
  "fg_FailStartTransition (count_call k g) = fg_FailStartTransition g" "fg_token (count_call k g) = fg_token g"
  "fg_faults (count_call k g) = fg_faults g" "fg_Latency (count_call k g) = fg_Latency g"
  by (simp_all add: count_call_def)

abbreviation hub_of :: "(int \<Rightarrow> string) \<Rightarrow> api_client \<Rightarrow> 'a fake_world_scheme net" where
  "hub_of stamp c \<equiv> fake_net stamp (ac_base c)"

text \<open>The server after a request that changed one codespace.\<close>

definition after :: "string \<Rightarrow> string \<Rightarrow> fake_codespace \<Rightarrow> 'a fake_world_scheme \<Rightarrow> 'a fake_world_scheme" where
  "after call name cs w = w\<lparr>fw_hub := hub_change name (\<lambda>_. cs) (count_call call (fw_hub w))\<rparr>"

definition get_call :: "string \<Rightarrow> string" where
  "get_call name = ''GET'' @ '' '' @ hub_path name []"

definition start_call :: "string \<Rightarrow> string" where
  "start_call name = ''POST'' @ '' '' @ hub_path name ''/start''"

lemma get_on_hub:
  fixes w :: "'a fake_world_scheme"
  assumes "calm c w" and "in_time x (fw_now w)" and "name \<noteq> []" and "stamp_ok stamp"
    and "map_of (fg_codespaces (fw_hub w)) name = Some cs" and "fine (advance False cs)"
  shows "getCodespace (hub_of stamp c) c x name w =
    (Inr (seen stamp (fw_now w) (advance False cs)), after (get_call name) name (advance False cs) w)"
proof -
  let ?p = "hub_path name []" and ?v = "payload stamp (fw_now w) (advance False cs)"
  let ?g = "count_call (''GET'' @ '' '' @ ?p) (fw_hub w)"
  have h: "hub_get stamp (fw_now w) name ?g = (answer_json 200 ?v, hub_change name (\<lambda>_. advance False cs) ?g)"
    using assms(1,5) by (simp add: hub_get_def calm_def Let_def)
  have r: "hub_route stamp (fw_now w) ''GET'' ?p (map_option json_print None) ?g =
      (Some \<lparr>hr_Status = 200, hr_Header = content_json, hr_Body = json_print ?v @ [nl], hr_BodyErr = None\<rparr>,
       hub_change name (\<lambda>_. advance False cs) ?g)"
    unfolding route_get [OF assms(3)] h by (simp add: answer_json_def)
  have "url_path (ac_base c) (ac_base c @ codespace_path name) = ?p"
    using codespace_path_decoded [of "[]" name] codespace_path_no_query [of "[]" name] by (intro plain_url) simp_all
  then have a: "attempt_once (hub_of stamp c) c x ''GET'' (codespace_path name) None dec z False w =
      (Inl (200, decode_answer (hub_of stamp c :: 'a fake_world_scheme net) ''GET'' (codespace_path name) dec z (json_print ?v @ [nl])),
       w\<lparr>fw_hub := hub_change name (\<lambda>_. advance False cs) ?g\<rparr>)" for dec and z :: codespace
    using assms(1-4,6) payload_size [OF assms(6,4), of "fw_now w"] r
    by (intro attempt_route [where h = content_json]) simp_all
  have "unmarshal into_codespace no_codespace (json_print ?v @ [nl]) = Some (seen stamp (fw_now w) (advance False cs))"
    using json_parse_print_line [OF payload_ok [OF assms(6,4)], of "fw_now w"] assms(6)
    by (simp add: unmarshal_def decode_payload fine_def nl_def)
  then show ?thesis
    using api_do_first [OF a] by (simp add: getCodespace_def decode_answer_def after_def get_call_def)
qed

lemma start_on_hub:
  fixes w :: "'a fake_world_scheme"
  assumes "calm c w" and "in_time x (fw_now w)" and "stamp_ok stamp"
    and "map_of (fg_codespaces (fw_hub w)) name = Some cs" and "fk_State cs \<noteq> ''Available''"
    and "fine (cs\<lparr>fk_State := ''Starting''\<rparr>)"
  shows "startCodespace (hub_of stamp c) c x name w =
    (None, after (start_call name) name (cs\<lparr>fk_State := ''Starting''\<rparr>) w)"
proof -
  let ?cs = "cs\<lparr>fk_State := ''Starting''\<rparr>"
  let ?p = "hub_path name ''/start''" and ?v = "payload stamp (fw_now w) ?cs"
  let ?g = "count_call (''POST'' @ '' '' @ ?p) (fw_hub w)"
  have h: "hub_start stamp (fw_now w) name ?g = (answer_json 200 ?v, hub_change name (\<lambda>_. ?cs) ?g)"
    using assms(1,4,5) by (simp add: hub_start_def calm_def Let_def)
  have r: "hub_route stamp (fw_now w) ''POST'' ?p (map_option json_print None) ?g =
      (Some \<lparr>hr_Status = 200, hr_Header = content_json, hr_Body = json_print ?v @ [nl], hr_BodyErr = None\<rparr>,
       hub_change name (\<lambda>_. ?cs) ?g)"
    unfolding route_start h by (simp add: answer_json_def)
  have "url_path (ac_base c) (ac_base c @ codespace_path name @ ''/start'') = ?p"
    using codespace_path_decoded [of "''/start''" name] codespace_path_no_query [of "''/start''" name]
    by (intro plain_url) simp_all
  then have a: "attempt_once (hub_of stamp c) c x ''POST'' (codespace_path name @ ''/start'') None None () False w =
      (Inl (200, decode_answer (hub_of stamp c :: 'a fake_world_scheme net) ''POST'' (codespace_path name @ ''/start'') None () (json_print ?v @ [nl])),
       w\<lparr>fw_hub := hub_change name (\<lambda>_. ?cs) ?g\<rparr>)"
    using assms(1-3,6) payload_size [OF assms(6,3), of "fw_now w"] r
    by (intro attempt_route [where h = content_json]) simp_all
  then show ?thesis
    using api_do_first [OF a] by (simp add: startCodespace_def decode_answer_def after_def start_call_def)
qed

lemma env_of_seen:
  "env_ID (codespace_environment (seen stamp now cs)) = fk_Name cs"
  "env_State (codespace_environment (seen stamp now cs)) = stateFor (fk_State cs)"
  by (simp_all add: codespace_environment_def seen_def)

lemma remember_fields [simp]:
  "gp_api (rememberSource g hs p) = gp_api p" "gp_cfg (rememberSource g hs p) = gp_cfg p"
  by (simp_all add: rememberSource_def)

lemma Get_on_hub:
  assumes "calm (gp_api p) w" and "in_time x (fw_now w)" and "name \<noteq> []" and "stamp_ok stamp"
    and "map_of (fg_codespaces (fw_hub w)) name = Some cs" and "fine (advance False cs)"
  shows "gh_Get (hub_of stamp (gp_api p)) x name p w =
    (Inr (codespace_environment (seen stamp (fw_now w) (advance False cs))),
     rememberSource (seen stamp (fw_now w) (advance False cs)) [name] p, after (get_call name) name (advance False cs) w)"
  unfolding gh_Get_def get_on_hub [OF assms] using assms(3) by simp

lemma advance_still: "fk_State cs \<notin> {''Starting'', ''Provisioning'', ''Queued''} \<Longrightarrow> advance b cs = cs"
  by (simp add: advance_def)

lemma after_simps [simp]:
  "fw_now (after call name cs w) = fw_now w"
  "map_of (fg_codespaces (fw_hub w)) name = Some cs0 \<Longrightarrow>
    map_of (fg_codespaces (fw_hub (after call name cs w))) n = (if n = name then Some cs else map_of (fg_codespaces (fw_hub w)) n)"
  "calm c (after call name cs w) = calm c w"
  by (auto simp: after_def hub_change_def calm_def map_of_update split: option.split)

lemma Start_on_hub:
  assumes "calm (gp_api p) w" and "in_time x (fw_now w)" and "name \<noteq> []" and "stamp_ok stamp"
    and "map_of (fg_codespaces (fw_hub w)) name = Some cs" and "fk_State cs = ''Shutdown''" and "\<not> fk_PendingOperation cs"
    and "fine cs" and "fine (cs\<lparr>fk_State := ''Starting''\<rparr>)"
  shows "gh_Start (hub_of stamp (gp_api p)) x name p w =
    Some (None, after (start_call name) name (cs\<lparr>fk_State := ''Starting''\<rparr>) (after (get_call name) name cs w))"
proof -
  have a: "advance False cs = cs" using assms(6) by (intro advance_still) simp
  have g: "getCodespace (hub_of stamp (gp_api p)) (gp_api p) x name w =
      (Inr (seen stamp (fw_now w) cs), after (get_call name) name cs w)"
    using get_on_hub [OF assms(1-5)] a assms(8) by simp
  have "awaitNoPendingOperation (hub_of stamp (gp_api p)) (gp_api p) x name w =
      Some (None, after (get_call name) name cs w)"
    unfolding awaitNoPendingOperation_def
    by (rule forever_return) (simp add: await_round_def g seen_def assms(7))
  moreover have "startCodespace (hub_of stamp (gp_api p)) (gp_api p) x name (after (get_call name) name cs w) =
      (None, after (start_call name) name (cs\<lparr>fk_State := ''Starting''\<rparr>) (after (get_call name) name cs w))"
    using assms by (intro start_on_hub) simp_all
  ultimately show ?thesis by (simp add: gh_Start_def)
qed

section \<open>The provider as the lifecycle manager sees it\<close>

text \<open>
  The GitHub provider as a \<open>prov\<close>: its state, the connections it has opened and the world are what its
  operations change. \<open>Start\<close> always returns (\<open>start_returns\<close>).
\<close>

definition github_prov ::
  "'w tools \<Rightarrow> 'w net \<Rightarrow> 'w transport \<Rightarrow> gh_provider \<Rightarrow> (gh_provider \<times> live_conn list \<times> 'w) prov" where
  "github_prov T N X p0 =
    \<lparr>w_now = (\<lambda>(p, l, w). n_now N w),
     w_err = (\<lambda>c (p, l, w). n_err N c w),
     w_sel = (\<lambda>c t (p, l, w). case n_sel N c t w of (r, w1) \<Rightarrow> (r, p, l, w1)),
     w_Name = ProviderName,
     w_Capabilities = Capabilities p0,
     w_DefaultEnvironment = gf_Codespace (gp_cfg p0),
     w_List = (\<lambda>c (p, l, w). case gh_List N c p w of (r, p1, w1) \<Rightarrow> (r, p1, l, w1)),
     w_Get = (\<lambda>c h (p, l, w). case gh_Get N c h p w of (r, p1, w1) \<Rightarrow> (r, p1, l, w1)),
     w_Create = (\<lambda>c spec (p, l, w). case gh_Create N c spec p w of (r, p1, w1) \<Rightarrow> (r, p1, l, w1)),
     w_Start = (\<lambda>c h (p, l, w). case gh_Start N c h p w of
        Some (r, w1) \<Rightarrow> (r, p, l, w1) | None \<Rightarrow> (Some (Errorf ''start does not return''), p, l, w)),
     w_Stop = (\<lambda>c h (p, l, w). case gh_Stop N c h p w of (r, w1) \<Rightarrow> (r, p, l, w1)),
     w_Connect = (\<lambda>c h req (p, l, w). case gh_Connect T X c h req p w of
        (Inl e, p1, w1) \<Rightarrow> (Inl e, p1, l, w1)
      | (Inr conn, p1, w1) \<Rightarrow> (Inr (length l), p1, l @ [conn], w1))\<rparr>"

lemma github_prov_simps [simp]:
  "w_now (github_prov T N X p0) (p, l, w) = n_now N w"
  "w_sel (github_prov T N X p0) c t (p, l, w) = (case n_sel N c t w of (r, w1) \<Rightarrow> (r, p, l, w1))"
  "w_Get (github_prov T N X p0) c h (p, l, w) = (case gh_Get N c h p w of (r, p1, w1) \<Rightarrow> (r, p1, l, w1))"
  "w_Start (github_prov T N X p0) c h (p, l, w) = (case gh_Start N c h p w of
     Some (r, w1) \<Rightarrow> (r, p, l, w1) | None \<Rightarrow> (Some (Errorf ''start does not return''), p, l, w))"
  "n_now (fake_net stamp b) = fw_now" "n_sel (fake_net stamp b) = fake_sel"
  by (simp_all add: github_prov_def fake_net_def)

section \<open>A cold start\<close>

lemma fine_state:
  assumes "fine cs"
  shows "fine (cs\<lparr>fk_State := ''Starting''\<rparr>)" "fine (cs\<lparr>fk_State := ''Available''\<rparr>)"
    "fine (cs\<lparr>fk_PollsBeforeAvailable := k\<rparr>)"
  using assms by (simp_all add: fine_def ascii_def byte_def)

lemma fine_advance: "fine cs \<Longrightarrow> fine (advance False cs)"
  by (simp add: advance_def fine_state)

text \<open>What of the provider does not change while environments are only looked up: all but its memory of sources.\<close>

definition settings :: "gh_provider \<Rightarrow> gh_provider" where
  "settings p = p\<lparr>gp_sources := newSourceCache fresh_file\<rparr>"

lemma settings_remember [simp]: "settings (rememberSource g hs p) = settings p"
  by (simp add: settings_def rememberSource_def)

text \<open>How often a codespace was started, and what stays.\<close>

definition starts :: "string \<Rightarrow> 'a fake_world_scheme \<Rightarrow> int" where
  "starts name w = getz (fg_calls (fw_hub w)) (start_call name) 0"

definition others_kept :: "string \<Rightarrow> 'a fake_world_scheme \<Rightarrow> 'a fake_world_scheme \<Rightarrow> bool" where
  "others_kept name w w' \<longleftrightarrow>
     (\<forall>n. n \<noteq> name \<longrightarrow> map_of (fg_codespaces (fw_hub w')) n = map_of (fg_codespaces (fw_hub w)) n) \<and>
     (\<forall>call. call \<notin> {get_call name, start_call name} \<longrightarrow> getz (fg_calls (fw_hub w')) call 0 = getz (fg_calls (fw_hub w)) call 0) \<and>
     fake_world.more w' = fake_world.more w"

lemma calls_differ: "get_call name \<noteq> start_call name'"
  by (simp add: get_call_def start_call_def)

lemma starts_after [simp]:
  "starts name (after (get_call name') name' cs w) = starts name w"
  "starts name (after (start_call name) name' cs w) = starts name w + 1"
  "starts name (w\<lparr>fw_now := t\<rparr>) = starts name w"
  using calls_differ [of name' name]
  by (simp_all add: starts_def after_def hub_change_def count_call_def split: option.split)

lemma others_kept_simps [simp]:
  "others_kept name w w" "others_kept name (w0\<lparr>fw_now := t\<rparr>) w = others_kept name w0 w"
  "others_kept name w0 (w\<lparr>fw_now := t\<rparr>) = others_kept name w0 w"
  by (auto simp: others_kept_def)

lemma others_kept_after:
  "call \<in> {get_call name, start_call name} \<Longrightarrow> others_kept name w0 (after call name cs w) = others_kept name w0 w"
  by (auto simp: others_kept_def after_def hub_change_def count_call_def map_of_update split: option.split)

lemma others_kept_calls [simp]:
  "others_kept name w0 (after (get_call name) name cs w) = others_kept name w0 w"
  "others_kept name w0 (after (start_call name) name cs w) = others_kept name w0 w"
  by (rule others_kept_after, simp)+

text \<open>
  \<open>phase_at\<close>: the server knows the codespace \<open>cs\<close>, in this state and so many polls from being available.
\<close>

definition phase_at :: "fake_codespace \<Rightarrow> string \<Rightarrow> int \<Rightarrow> api_client \<Rightarrow> 'a fake_world_scheme \<Rightarrow> bool" where
  "phase_at cs state k c w \<longleftrightarrow> calm c w \<and> fine cs \<and> fk_Name cs \<noteq> [] \<and>
     map_of (fg_codespaces (fw_hub w)) (fk_Name cs) = Some (cs\<lparr>fk_State := state, fk_PollsBeforeAvailable := k\<rparr>)"

lemma phase_at_time [simp]: "phase_at cs state k c (w\<lparr>fw_now := t\<rparr>) = phase_at cs state k c w"
  by (simp add: phase_at_def calm_def)

lemma fake_sel_in_time: "in_time x due \<Longrightarrow> fake_sel x due w = (None, w\<lparr>fw_now := max (fw_now w) due\<rparr>)"
  by (auto simp: fake_sel_def in_time_def ctx_err_def split: option.splits if_splits)

lemma next_tick_at: "0 < d \<Longrightarrow> next_tick t0 d (t0 + i * d) = t0 + (i + 1) * d"
  by (simp add: next_tick_def)

text \<open>
  One look at a codespace that starts, through the provider: it is still starting, or it has become
  available.
\<close>

definition coming :: "string \<Rightarrow> bool" where
  "coming st \<longleftrightarrow> st \<in> {''Starting'', ''Provisioning'', ''Queued''}"

lemma look_at_coming:
  assumes "coming st" and "phase_at cs st k (gp_api p) w" and "in_time x (fw_now w)" and "stamp_ok stamp"
  obtains env p' w' where "gh_Get (hub_of stamp (gp_api p)) x (fk_Name cs) p w = (Inr env, p', w')"
    and "gp_api p' = gp_api p" "fw_now w' = fw_now w" "starts (fk_Name cs) w' = starts (fk_Name cs) w"
    and "others_kept (fk_Name cs) w w'" "env_ID env = fk_Name cs" "settings p' = settings p"
    and "if 0 < k then env_State env \<in> {StateStarting, StateProvisioning} \<and> phase_at cs st (k - 1) (gp_api p) w'
      else env_State env = StateRunning \<and> phase_at cs ''Available'' k (gp_api p) w'"
proof -
  let ?cs = "cs\<lparr>fk_State := st, fk_PollsBeforeAvailable := k\<rparr>"
  have c: "calm (gp_api p) w" "fk_Name cs \<noteq> []" "map_of (fg_codespaces (fw_hub w)) (fk_Name cs) = Some ?cs"
    and f: "fine cs" using assms(2) by (simp_all add: phase_at_def)
  have st: "ascii st" "length st \<le> 10 ^ 5" using assms(1) by (auto simp: coming_def ascii_def byte_def)
  have "fine (advance False ?cs)" using f st by (intro fine_advance) (simp add: fine_def)
  note G = Get_on_hub [OF c(1) assms(3) c(2) assms(4) c(3) this]
  have native: "stateFor st \<in> {StateStarting, StateProvisioning}" "stateFor ''Available'' = StateRunning"
    using assms(1) unfolding coming_def by (elim insertE emptyE) (simp_all add: stateFor_def)
  have step: "advance False ?cs = (if 0 < k then cs\<lparr>fk_State := st, fk_PollsBeforeAvailable := k - 1\<rparr>
      else cs\<lparr>fk_State := ''Available'', fk_PollsBeforeAvailable := k\<rparr>)"
    using assms(1) by (simp add: advance_def coming_def)
  show thesis
    by (rule that [OF G]) (use c f native in \<open>simp_all add: env_of_seen step phase_at_def\<close>)
qed

text \<open>
  One round of the polling loop, \<open>j\<close> poll intervals after its start: it waits for the next tick, looks, and
  goes on or returns.
\<close>

lemma poll_once:
  assumes "coming st" and "phase_at cs st k (gp_api p) w" and "gp_api p = c" and "stamp_ok stamp"
    and d: "0 < d" "PollInterval (m_opts m) = d"
    and t: "fw_now w = t0 + j * d" "ws_due s = t0 + (j + 1) * d" "in_time x (t0 + (j + 1) * d)"
  obtains env s' m' p' w' where "gp_api p' = c" "fw_now w' = t0 + (j + 1) * d" "m_opts m' = m_opts m"
    and "starts (fk_Name cs) w' = starts (fk_Name cs) w" "others_kept (fk_Name cs) w w'" "settings p' = settings p"
    and "if 0 < k then
        wait_iter (github_prov T (hub_of stamp c) X p0) x handle (fk_Name cs) what Connectable t0 (s, m, p, l, w) =
          Inl (s', m', p', l, w') \<and> ws_due s' = t0 + (j + 1 + 1) * d \<and> phase_at cs st (k - 1) c w'
      else
        wait_iter (github_prov T (hub_of stamp c) X p0) x handle (fk_Name cs) what Connectable t0 (s, m, p, l, w) =
          Inr (Inr env, m', p', l, w') \<and> env_ID env = fk_Name cs \<and> env_State env = StateRunning \<and>
          phase_at cs ''Available'' k c w'"
proof -
  let ?w = "w\<lparr>fw_now := t0 + (j + 1) * d\<rparr>"
  let ?it = "wait_iter (github_prov T (hub_of stamp c) X p0) x handle (fk_Name cs) what Connectable t0 (s, m, p, l, w)"
  have now: "max (fw_now w) (ws_due s) = t0 + (j + 1) * d" using t d(1) by (simp add: algebra_simps)
  have sel: "fake_sel x (ws_due s) w = (None, ?w)" using fake_sel_in_time [of x "ws_due s" w] t now by simp
  have tick: "next_tick t0 d (t0 + (j + 1) * d) = t0 + (j + 1 + 1) * d" using next_tick_at [OF d(1)] by blast
  obtain env p' w' where G: "gh_Get (hub_of stamp (gp_api p)) x (fk_Name cs) p ?w = (Inr env, p', w')"
    and r: "gp_api p' = gp_api p" "fw_now w' = fw_now ?w" "starts (fk_Name cs) w' = starts (fk_Name cs) ?w"
      "others_kept (fk_Name cs) ?w w'" "env_ID env = fk_Name cs" "settings p' = settings p"
      "if 0 < k then env_State env \<in> {StateStarting, StateProvisioning} \<and> phase_at cs st (k - 1) (gp_api p) w'
       else env_State env = StateRunning \<and> phase_at cs ''Available'' k (gp_api p) w'"
    by (rule look_at_coming [of st cs k p ?w x stamp]) (use assms in simp_all)
  show thesis
  proof (cases "0 < k")
    case True
    then have st: "env_State env \<in> {StateStarting, StateProvisioning}" using r(7) by simp
    obtain s' m' where "?it = Inl (s', m', p', l, w')" "ws_due s' = t0 + (j + 1 + 1) * d" "m_opts m' = m_opts m"
      using G r(1,2,5) assms(3) d(2) sel st tick
      by (auto simp: wait_iter_def github_prov_def fake_net_def Connectable_def Let_def split: if_splits)
    with True r(7) show thesis using that [of p' w' m' s' env] r(1-4,6) assms(3) by simp
  next
    case False
    have "?it = Inr (Inr env, observe (fw_now w') env m, p', l, w')"
      using False G r assms(3) sel by (simp add: wait_iter_def github_prov_def fake_net_def Connectable_def Let_def)
    with False r show thesis using that [of p' w' "observe (fw_now w') env m" s env] assms(3) by simp
  qed
qed

text \<open>The polling loop: it looks \<open>k + 1\<close> more times, once per poll interval.\<close>

lemma polls_until_available:
  assumes "coming st" and "phase_at cs st (int k) (gp_api p) w" and "gp_api p = c" and "stamp_ok stamp"
    and d: "0 < d" "PollInterval (m_opts m) = d"
    and t: "fw_now w = t0 + j * d" "ws_due s = t0 + (j + 1) * d" "in_time x (t0 + (j + 1 + int k) * d)"
  shows "\<exists>env m' p' w'.
    forever (wait_iter (github_prov T (hub_of stamp c) X p0) x handle (fk_Name cs) what Connectable t0) (s, m, p, l, w) =
      Some (Inr env, m', p', l, w') \<and> env_ID env = fk_Name cs \<and> env_State env = StateRunning \<and>
    m_opts m' = m_opts m \<and> gp_api p' = c \<and> fw_now w' = t0 + (j + 1 + int k) * d \<and>
    phase_at cs ''Available'' 0 c w' \<and> starts (fk_Name cs) w' = starts (fk_Name cs) w \<and> others_kept (fk_Name cs) w w' \<and>
    settings p' = settings p"
  using assms(2,3) d(2) t
proof (induction k arbitrary: p w m j s)
  case 0
  show ?case
    by (rule poll_once [of st cs "int 0" p w c stamp d m t0 j s x T X p0 handle what l])
      (use 0 assms(1,4) d(1) forever_return in \<open>fastforce+\<close>)
next
  case (Suc k)
  have early: "in_time x (t0 + (j + 1) * d)"
  proof -
    have "(j + 1) * d \<le> (j + 1 + int (Suc k)) * d" using d(1) by (intro mult_right_mono) simp_all
    then show ?thesis using Suc.prems(6) in_time_mono by auto
  qed
  let ?f = "wait_iter (github_prov T (hub_of stamp c) X p0) x handle (fk_Name cs) what Connectable t0"
  obtain env s' m' p' w' where r: "gp_api p' = c" "fw_now w' = t0 + (j + 1) * d" "m_opts m' = m_opts m"
      "starts (fk_Name cs) w' = starts (fk_Name cs) w" "others_kept (fk_Name cs) w w'" "settings p' = settings p"
    and i: "if 0 < int (Suc k) then ?f (s, m, p, l, w) = Inl (s', m', p', l, w') \<and> ws_due s' = t0 + (j + 1 + 1) * d \<and>
        phase_at cs st (int (Suc k) - 1) c w'
      else ?f (s, m, p, l, w) = Inr (Inr env, m', p', l, w') \<and> env_ID env = fk_Name cs \<and> env_State env = StateRunning \<and>
        phase_at cs ''Available'' (int (Suc k)) c w'"
    by (rule poll_once [of st cs "int (Suc k)" p w c stamp d m t0 j s x T X p0 handle what l])
      (use Suc.prems early assms(1,4) d(1) in simp_all)
  then have it: "?f (s, m, p, l, w) = Inl (s', m', p', l, w')" and s': "ws_due s' = t0 + (j + 1 + 1) * d"
    and st: "phase_at cs st (int k) (gp_api p') w'" by simp_all
  have "in_time x (t0 + (j + 1 + 1 + int k) * d)" using Suc.prems(6) by (simp add: algebra_simps)
  from Suc.IH [OF st r(1) _ r(2) s' this, of m'] r(3) Suc.prems(3)
  obtain env' m2 p2 w2 where I: "forever ?f (s', m', p', l, w') = Some (Inr env', m2, p2, l, w2)"
    "env_ID env' = fk_Name cs" "env_State env' = StateRunning" "m_opts m2 = m_opts m" "gp_api p2 = c"
    "fw_now w2 = t0 + (j + 1 + 1 + int k) * d" "phase_at cs ''Available'' 0 c w2"
    "starts (fk_Name cs) w2 = starts (fk_Name cs) w'" "others_kept (fk_Name cs) w' w2" "settings p2 = settings p'"
    by auto
  have "others_kept (fk_Name cs) w w2" using I(9) r(5) by (simp add: others_kept_def)
  moreover have "forever ?f (s, m, p, l, w) = forever ?f (s', m', p', l, w')" by (rule forever_next) (rule it)
  ultimately show ?case using I r(4,6) by (auto simp: algebra_simps)
qed

text \<open>The stages before the polling: the lookup finds the codespace stopped, and it is started.\<close>

lemma lookup_on_hub:
  assumes "phase_at cs ''Shutdown'' k (gp_api p) w" and "in_time x (fw_now w)" and "stamp_ok stamp"
  obtains env p' w' where
    "ensure_lookup (github_prov T (hub_of stamp (gp_api p)) X p0) x (fk_Name cs) m (p, l, w) = (Inr env, m, p', l, w')"
    and "gp_api p' = gp_api p" "fw_now w' = fw_now w" "starts (fk_Name cs) w' = starts (fk_Name cs) w"
    and "others_kept (fk_Name cs) w w'" "env_ID env = fk_Name cs" "env_State env = StateStopped" "settings p' = settings p"
    and "phase_at cs ''Shutdown'' k (gp_api p) w'"
proof -
  let ?cs = "cs\<lparr>fk_State := ''Shutdown'', fk_PollsBeforeAvailable := k\<rparr>"
  have c: "calm (gp_api p) w" "fk_Name cs \<noteq> []" "map_of (fg_codespaces (fw_hub w)) (fk_Name cs) = Some ?cs"
    and f: "fine cs" using assms(1) by (simp_all add: phase_at_def)
  have still: "advance False ?cs = ?cs" by (rule advance_still) simp
  have fine: "fine ?cs" using f by (simp add: fine_def ascii_def byte_def)
  have "fine (advance False ?cs)" unfolding still by (rule fine)
  note G = Get_on_hub [OF c(1) assms(2) c(2) assms(3) c(3) this, unfolded still]
  let ?env = "codespace_environment (seen stamp (fw_now w) ?cs)"
  have "ensure_lookup (github_prov T (hub_of stamp (gp_api p)) X p0) x (fk_Name cs) m (p, l, w) =
      (Inr ?env, m, rememberSource (seen stamp (fw_now w) ?cs) [fk_Name cs] p, l, after (get_call (fk_Name cs)) (fk_Name cs) ?cs w)"
    by (simp add: ensure_lookup_def manager_get_def numeral_3_eq_3 github_prov_def G)
  then show thesis
    by (rule that) (use c f in \<open>simp_all add: env_of_seen stateFor_def phase_at_def\<close>)
qed

lemma start_from_hub:
  assumes "phase_at cs ''Shutdown'' k (gp_api p) w" and "in_time x (fw_now w)" and "stamp_ok stamp"
    and "\<not> fk_PendingOperation cs"
  obtains w' where "gh_Start (hub_of stamp (gp_api p)) x (fk_Name cs) p w = Some (None, w')"
    and "fw_now w' = fw_now w" "starts (fk_Name cs) w' = starts (fk_Name cs) w + 1"
    and "others_kept (fk_Name cs) w w'" "phase_at cs ''Starting'' k (gp_api p) w'"
proof -
  let ?cs = "cs\<lparr>fk_State := ''Shutdown'', fk_PollsBeforeAvailable := k\<rparr>"
  have c: "calm (gp_api p) w" "fk_Name cs \<noteq> []" "map_of (fg_codespaces (fw_hub w)) (fk_Name cs) = Some ?cs"
    and f: "fine cs" using assms(1) by (simp_all add: phase_at_def)
  have "fine ?cs" "fine (?cs\<lparr>fk_State := ''Starting''\<rparr>)" using f by (simp_all add: fine_def ascii_def byte_def)
  note S = Start_on_hub [OF c(1) assms(2) c(2) assms(3) c(3) _ _ this]
  show thesis
    by (rule that [OF S]) (use c f assms(4) in \<open>simp_all add: phase_at_def\<close>)
qed

lemma wait_on_hub:
  assumes "coming st" and "phase_at cs st (int k) c w" and "gp_api p = c" and "stamp_ok stamp" and "0 < PollInterval (m_opts m)"
    and "in_time x (fw_now w + (int k + 1) * PollInterval (m_opts m))"
  obtains env m' p' w' where
    "waitFor (github_prov T (hub_of stamp c) X p0) x handle (fk_Name cs) what Connectable m (p, l, w) =
      Some (Inr env, m', p', l, w')" and "env_ID env = fk_Name cs" "env_State env = StateRunning"
    and "fw_now w' = fw_now w + (int k + 1) * PollInterval (m_opts m)" "phase_at cs ''Available'' 0 c w'"
    and "starts (fk_Name cs) w' = starts (fk_Name cs) w" "others_kept (fk_Name cs) w w'" "settings p' = settings p"
proof -
  let ?s = "\<lparr>ws_due = fw_now w + PollInterval (m_opts m), ws_last = StateUnknown, ws_fails = 0, ws_notified = fw_now w\<rparr>"
  have "waitFor (github_prov T (hub_of stamp c) X p0) x handle (fk_Name cs) what Connectable m (p, l, w) =
      forever (wait_iter (github_prov T (hub_of stamp c) X p0) x handle (fk_Name cs) what Connectable (fw_now w)) (?s, m, p, l, w)"
    by (simp add: waitFor_def Let_def)
  then show thesis
    using that polls_until_available [of st cs k p w c stamp "PollInterval (m_opts m)" m "fw_now w" 0 ?s x T X p0 handle what l]
      assms by (auto simp: algebra_simps)
qed

lemma ensure_cold:
  assumes "phase_at cs ''Shutdown'' (int n) c w" and "gp_api p = c" and "stamp_ok stamp" and "\<not> fk_PendingOperation cs"
    and "0 < PollInterval (m_opts m)" and "(int n + 1) * PollInterval (m_opts m) < StartTimeout (m_opts m)"
    and "in_time x (fw_now w + (int n + 1) * PollInterval (m_opts m))"
  shows "\<exists>env m' p' w'.
    ensure (github_prov T (hub_of stamp c) X p0) x (fk_Name cs) m (p, l, w) = Some (Inr env, m', p', l, w') \<and>
    env_ID env = fk_Name cs \<and> env_State env = StateRunning \<and> es_phase (state_of (fk_Name cs) m') = PhaseRunning \<and>
    hub_State (fk_Name cs) (fw_hub w') = ''Available'' \<and> starts (fk_Name cs) w' = starts (fk_Name cs) w + 1 \<and>
    others_kept (fk_Name cs) w w' \<and> settings p' = settings p \<and> fw_now w' = fw_now w + (int n + 1) * PollInterval (m_opts m)"
proof -
  let ?P = "github_prov T (hub_of stamp c) X p0" and ?d = "PollInterval (m_opts m)" and ?h = "fk_Name cs"
  let ?x = "WithTimeout x (StartTimeout (m_opts m)) (fw_now w)"
  have "0 \<le> (int n + 1) * ?d" using assms(5) by simp
  then have now: "in_time x (fw_now w)" "in_time ?x (fw_now w)" "in_time ?x (fw_now w + (int n + 1) * ?d)"
    using assms(6,7) in_time_mono [OF assms(7), of "fw_now w"] by (simp_all add: in_time_WithTimeout)
  obtain env p1 w1 where L: "ensure_lookup ?P x ?h m (p, l, w) = (Inr env, m, p1, l, w1)"
    and l: "gp_api p1 = gp_api p" "fw_now w1 = fw_now w" "starts ?h w1 = starts ?h w" "others_kept ?h w w1"
      "env_ID env = ?h" "env_State env = StateStopped" "settings p1 = settings p" "phase_at cs ''Shutdown'' (int n) (gp_api p) w1"
    using lookup_on_hub [of cs "int n" p w x stamp T X p0 m l] assms(1-3) now(1) by metis
  obtain w2 where S: "gh_Start (hub_of stamp c) ?x ?h p1 w1 = Some (None, w2)"
    and s: "fw_now w2 = fw_now w1" "starts ?h w2 = starts ?h w1 + 1" "others_kept ?h w1 w2"
      "phase_at cs ''Starting'' (int n) (gp_api p1) w2"
    using start_from_hub [of cs "int n" p1 w1 ?x stamp] l now(2) assms(2,3,4) by metis
  define m1 where "m1 = observe (fw_now w1) env (resolve (fw_now w1) ?h env m)"
  define m2 where "m2 = bump (fw_now w2) ?h (\<lambda>st. st\<lparr>es_starts := es_starts st + 1\<rparr>)
    (setPhase (fw_now w1) ?h PhaseStarting ''start requested for incoming ssh session'' m1)"
  have o1: "m_opts m2 = m_opts m" by (simp add: m2_def m1_def)
  obtain env' m3 p3 w3 where W:
    "waitFor ?P ?x ?h ?h ''environment to become RUNNING'' Connectable m2 (p1, l, w2) = Some (Inr env', m3, p3, l, w3)"
    and r: "env_ID env' = ?h" "env_State env' = StateRunning" "fw_now w3 = fw_now w2 + (int n + 1) * ?d"
      "phase_at cs ''Available'' 0 c w3" "starts ?h w3 = starts ?h w2" "others_kept ?h w2 w3" "settings p3 = settings p1"
    by (rule wait_on_hub [of "''Starting''" cs n c w2 p1 stamp m2 ?x T X p0 ?h "''environment to become RUNNING''" l])
      (use s l(1,2) assms(2,3,5) o1 now(3) in \<open>simp_all add: s(1) l(2) coming_def\<close>)
  have E: "ensure ?P x ?h m (p, l, w) = Some (Inr env', setPhase (fw_now w3) ?h PhaseRunning ''environment ready'' m3, p3, l, w3)"
    using L l(2,5,6) S W
    by (simp add: ensure_def ensure_found_def ensure_ready_def ensure_start_def Connectable_def Startable_def m1_def m2_def Let_def)
  have "others_kept ?h w w3" using l(4) s(3) r(6) by (simp add: others_kept_def)
  moreover have "hub_State ?h (fw_hub w3) = ''Available''" using r(4) by (simp add: phase_at_def hub_State_def)
  ultimately show ?thesis using E ensure_ok [OF E] r l s by auto
qed

text \<open>
  C3: A cold start works, through every layer. A codespace that is shut down on GitHub (the server of
  the test suite, which needs any number \<open>n\<close> of looks until a started codespace is available) is brought
  up by \<open>ensure\<close>: the lookup, the start request and the polls go through the provider and the API client
  as JSON over HTTP; exactly one start request is sent, no other codespace is touched and nothing but this codespace asked for, the result is the running
  environment after exactly \<open>n + 1\<close> poll intervals, and the handle's phase is RUNNING; this whatever the
  codespace's name is.
\<close>

theorem cold_start:
  assumes "phase_at cs ''Shutdown'' (int n) c w" and "gp_api p = c" and "stamp_ok stamp" and "\<not> fk_PendingOperation cs"
    and "0 < PollInterval (m_opts m)" and "(int n + 1) * PollInterval (m_opts m) < StartTimeout (m_opts m)"
    and "in_time x (fw_now w + (int n + 1) * PollInterval (m_opts m))"
  shows "\<exists>env m' p' w'.
    ensure (github_prov T (hub_of stamp c) X p0) x (fk_Name cs) m (p, l, w) = Some (Inr env, m', p', l, w') \<and>
    env_ID env = fk_Name cs \<and> env_State env = StateRunning \<and> es_phase (state_of (fk_Name cs) m') = PhaseRunning \<and>
    hub_State (fk_Name cs) (fw_hub w') = ''Available'' \<and> starts (fk_Name cs) w' = starts (fk_Name cs) w + 1 \<and>
    others_kept (fk_Name cs) w w' \<and> fw_now w' = fw_now w + (int n + 1) * PollInterval (m_opts m)"
  using ensure_cold [OF assms] by blast

text \<open>
  A codespace with a slash and a question mark in its name, three looks away from being available.
\<close>

definition cold_box :: fake_codespace where
  "cold_box = \<lparr>fk_Name = ''a/b?'', fk_DisplayName = ''demo'', fk_State = ''Shutdown'', fk_Repository = [],
     fk_IdleTimeoutMinutes = 30, fk_PendingOperation = False, fk_PollsBeforeAvailable = 3\<rparr>"

definition cold_world :: fake_world where
  "cold_world = \<lparr>fw_now = 0, fw_hub = hub_Add cold_box (NewGitHub (ac_token client0))\<rparr>"

lemma cold_start_witness:
  "\<forall>T X. \<exists>env m' p' w'.
    ensure (github_prov T (hub_of (\<lambda>t. ''2026-01-01T00:00:00Z'') client0) X provider0) ctx1 ''a/b?'' mgr1
      (provider0, [], cold_world) = Some (Inr env, m', p', [], w') \<and> env_State env = StateRunning \<and>
    fw_now w' = 8 * second"
proof -
  have "phase_at cold_box ''Shutdown'' (int 3) client0 cold_world"
    by (simp add: phase_at_def cold_world_def cold_box_def calm_def fine_def NewGitHub_def hub_Add_def client0_def
        ascii_def byte_def second_def)
  moreover have "stamp_ok (\<lambda>t. ''2026-01-01T00:00:00Z'')" by (simp add: stamp_ok_def ascii_def byte_def)
  moreover have "PollInterval (m_opts mgr1) = 2 * second" "StartTimeout (m_opts mgr1) = 300 * second"
    by (simp_all add: lc_eval)
  moreover have "fw_now cold_world = 0" "fk_Name cold_box = ''a/b?''" "\<not> fk_PendingOperation cold_box" "gp_api provider0 = client0"
    by (simp_all add: cold_world_def cold_box_def provider0_def)
  ultimately show ?thesis
    using cold_start [of cold_box 3 client0 cold_world provider0 "\<lambda>t. ''2026-01-01T00:00:00Z''" mgr1 ctx1 _ _
        provider0 "[]"]
    by (fastforce simp: second_def)
qed

end
