(* ===== verification/GithubRebuild.thy ===== *)
theory GithubRebuild
  imports GithubSystem
begin

text \<open>
  A codespace that is gone: the lookup that finds nothing, the request that creates a new one, and the
  polls until it runs, against the server of the test suite.
\<close>

section \<open>Names of new codespaces\<close>

text \<open>\<open>itoa\<close> is the decimal rendering, for numbers of at most eight digits.\<close>

lemma itoa_from_show:
  "0 < i \<Longrightarrow> i < 10 ^ pos \<Longrightarrow> itoa_from pos i acc = Some (show_nat i @ acc)"
proof (induction pos arbitrary: i acc)
  case (Suc p)
  have s: "show_nat i = (if i < 10 then [char_of (48 + i)] else show_nat (i div 10) @ [char_of (48 + i mod 10)])"
    by (subst show_nat.simps) simp
  show ?case
  proof (cases "i < 10")
    case True
    then have "i div 10 = 0" "i mod 10 = i" by simp_all
    with Suc.prems True s show ?thesis by (cases p) simp_all
  next
    case False
    then have "0 < i div 10" "i div 10 < 10 ^ p" using Suc.prems by (auto simp: less_mult_imp_div_less mult.commute)
    with Suc.IH [of "i div 10"] Suc.prems False s show ?thesis by simp
  qed
qed simp

lemma itoa_show: "i < 10 ^ 8 \<Longrightarrow> itoa i = Some (show_nat i)"
  using itoa_from_show [of i 8 "[]"] by (auto simp: itoa_def show_nat.simps [of 0] char_of_def bit_0)

definition nth_name :: "nat \<Rightarrow> string" where
  "nth_name i = ''generated-codespace-'' @ show_nat i"

lemma nth_name_inj: "nth_name i = nth_name j \<longleftrightarrow> i = j"
  using show_nat_inj by (auto simp: nth_name_def)

text \<open>The search for a name ends with the first one that is free, among the first \<open>n + 1\<close>.\<close>

lemma free_name_first:
  assumes "free_name n (i + 1) taken (nth_name i) = r" and "i + n < 10 ^ 8"
  shows "case r of
      Some name \<Rightarrow> \<exists>j\<in>{i..<i + n}. name = nth_name j \<and> name \<notin> set taken \<and> nth_name ` {i..<j} \<subseteq> set taken
    | None \<Rightarrow> nth_name ` {i..<i + n} \<subseteq> set taken"
  using assms
proof (induction n arbitrary: i)
  case (Suc n)
  show ?case
  proof (cases "nth_name i \<in> set taken")
    case False
    with Suc.prems show ?thesis by (auto intro!: bexI [of _ i])
  next
    case True
    have "free_name n (i + 1 + 1) taken (nth_name (i + 1)) = r"
      using Suc.prems True by (simp add: itoa_show nth_name_def)
    note IH = Suc.IH [OF this]
    have ivl: "{i..<k} = insert i {i + 1..<k}" if "i < k" for k using that by auto
    show ?thesis
    proof (cases r)
      case None
      with IH Suc.prems True show ?thesis by (simp add: ivl [of "Suc (i + n)"])
    next
      case (Some name)
      with IH Suc.prems obtain j where "j \<in> {i + 1..<i + 1 + n}" "name = nth_name j" "name \<notin> set taken"
        "nth_name ` {i + 1..<j} \<subseteq> set taken" by auto
      moreover from this have "nth_name ` {i..<j} \<subseteq> set taken" using True by (simp add: ivl [of j])
      ultimately show ?thesis using Some by (auto intro!: bexI [of _ j])
    qed
  qed
qed auto

lemma free_name_found:
  assumes "length taken + 2 < 10 ^ 8"
  obtains j where "0 < j" "j \<le> length taken + 1"
    and "free_name (length taken + 1) 2 taken ''generated-codespace-1'' = Some (nth_name j)" and "nth_name j \<notin> set taken"
proof -
  have one: "nth_name 1 = ''generated-codespace-1''"
    by (simp add: nth_name_def show_one)
  let ?r = "free_name (length taken + 1) (1 + 1) taken (nth_name 1)"
  have F: "case ?r of
      Some name \<Rightarrow> \<exists>j\<in>{1..<1 + (length taken + 1)}. name = nth_name j \<and> name \<notin> set taken \<and> nth_name ` {1..<j} \<subseteq> set taken
    | None \<Rightarrow> nth_name ` {1..<1 + (length taken + 1)} \<subseteq> set taken"
    by (rule free_name_first) (use assms in simp_all)
  have "?r \<noteq> None"
  proof
    assume "?r = None"
    with F have "nth_name ` {1..<1 + (length taken + 1)} \<subseteq> set taken" by simp
    then have "card (nth_name ` {1..<1 + (length taken + 1)}) \<le> card (set taken)" by (intro card_mono) simp_all
    moreover have "inj_on nth_name {1..<1 + (length taken + 1)}" using nth_name_inj by (auto simp: inj_on_def)
    ultimately have "length taken + 1 \<le> card (set taken)" by (simp add: card_image)
    with card_length [of taken] show False by simp
  qed
  then obtain name where N: "?r = Some name" by blast
  with F obtain j where j: "j \<in> {1..<1 + (length taken + 1)}" "name = nth_name j" "name \<notin> set taken" by auto
  have N': "free_name (length taken + 1) 2 taken ''generated-codespace-1'' = Some (nth_name j)"
    using N unfolding one one_add_one j(2) .
  show thesis by (rule that [of j, OF _ _ N']) (use j in auto)
qed

section \<open>Requests that find nothing\<close>

definition absent :: "string \<Rightarrow> string \<Rightarrow> api_error" where
  "absent meth path = \<lparr>ae_Method = meth, ae_Path = path, ae_Status = 404, ae_Message = ''Not Found'', ae_DocURL = [],
     ae_RetryAfter = 0, ae_rateLimit = False\<rparr>"

lemma parse_absent: "parseAPIError meth path 404 content_json (json_print (message_json ''Not Found'') @ [nl]) = absent meth path"
proof -
  have "json_ok (message_json ''Not Found'')" by (simp add: message_json_def ascii_def byte_def)
  then have p: "json_parse (json_print (message_json ''Not Found'') @ [nl]) = Some (message_json ''Not Found'')"
    using json_parse_print_line nl_def by simp
  have u: "unmarshal (into_struct into_error_payload) ([], []) (json_print (message_json ''Not Found'') @ [nl]) =
      Some (''Not Found'', [])"
    unfolding unmarshal_def p
    by (simp add: message_json_def into_struct_def into_error_payload_def into_string_def EqualFold_def)
  have t: "TrimSpace ''Not Found'' = ''Not Found''" by (rule TrimSpace_trimmed, rule trimmed_plain, simp_all add: plain_def)
  have r: "\<not> Contains (ToLower ''Not Found'') ''rate limit''"
    by (simp add: ToLower_def lower_char_def Contains_Cons Contains_Nil HasPrefix_def)
  show ?thesis
    unfolding parseAPIError_def u using t r
    by (simp add: absent_def content_json_def getz_def retry_after_def Atoi_def)
qed

text \<open>The whole account is empty.\<close>

definition empty_account :: "api_client \<Rightarrow> 'a fake_world_scheme \<Rightarrow> bool" where
  "empty_account c w \<longleftrightarrow> calm c w \<and> fg_codespaces (fw_hub w) = [] \<and> fg_CreateError (fw_hub w) = 0"

definition called :: "string \<Rightarrow> 'a fake_world_scheme \<Rightarrow> 'a fake_world_scheme" where
  "called call w = w\<lparr>fw_hub := count_call call (fw_hub w)\<rparr>"

lemma empty_account_called [simp]: "empty_account c (called call w) = empty_account c w" "fw_now (called call w) = fw_now w"
  by (simp_all add: empty_account_def called_def calm_def count_call_def)

lemma message_small: "length (json_print (message_json ''Not Found'') @ [nl]) < maxBody"
proof -
  have "length (json_print (message_json ''Not Found'')) \<le> print_bound (message_json ''Not Found'')"
    unfolding json_print_def by (rule print_bound) (simp add: message_json_def ascii_def byte_def)
  then show ?thesis by (simp add: message_json_def maxBody_def)
qed

lemma get_absent:
  assumes "empty_account c w" and "in_time x (fw_now w)" and "name \<noteq> []"
  shows "getCodespace (hub_of stamp c) c x name w =
    (Inl (ApiError (absent ''GET'' (codespace_path name))), called (get_call name) w)"
proof -
  let ?p = "hub_path name []" and ?g = "count_call (''GET'' @ '' '' @ hub_path name []) (fw_hub w)"
  let ?raw = "json_print (message_json ''Not Found'') @ [nl]"
  have u: "url_path (ac_base c) (ac_base c @ codespace_path name) = ?p"
    using codespace_path_decoded [of "[]" name] codespace_path_no_query [of "[]" name] by (intro plain_url) simp_all
  have h: "hub_get stamp (fw_now w) name ?g = (not_found, ?g)"
    using assms(1) by (simp add: hub_get_def empty_account_def)
  have r: "hub_route stamp (fw_now w) ''GET'' ?p (map_option json_print None) ?g =
      (Some \<lparr>hr_Status = 404, hr_Header = content_json, hr_Body = ?raw, hr_BodyErr = None\<rparr>, ?g)"
    unfolding route_get [OF assms(3)] h by (simp add: not_found_def answer_json_def)
  have a: "attempt_once (hub_of stamp c) c x ''GET'' (codespace_path name) None dec z False w =
      (Inl (404, Inl (ApiError (parseAPIError ''GET'' (codespace_path name) 404 content_json ?raw))), w\<lparr>fw_hub := ?g\<rparr>)"
    for dec and z :: codespace
    using attempt_answered [OF _ assms(2) u r message_small, of dec z False] assms(1)
    by (simp add: parse_absent absent_def api_temporary_def empty_account_def)
  then show ?thesis
    using api_do_first [OF a] by (simp add: getCodespace_def called_def get_call_def parse_absent)
qed

text \<open>The list of an empty account.\<close>

definition list_call :: string where
  "list_call = ''GET'' @ '' '' @ ''/user/codespaces''"

lemma plain_segment: "unescape ''/user/codespaces'' = Some ''/user/codespaces''"
  by simp

lemma list_empty:
  fixes w :: "'a fake_world_scheme"
  assumes "empty_account c w" and "in_time x (fw_now w)"
  shows "listCodespaces (hub_of stamp c) c x w = (Inr [], called list_call w)"
proof -
  let ?p = "''/user/codespaces''" and ?v = "JObj [(''codespaces'', JArr []), (''total_count'', JNum (show_nat 0))]"
  let ?g = "count_call (''GET'' @ '' '' @ ''/user/codespaces'') (fw_hub w)"
  have ok: "json_ok ?v" by (simp add: num_ok_nat ascii_def byte_def)
  have small: "length (json_print ?v @ [nl]) < maxBody"
  proof -
    have "length (json_print ?v) \<le> print_bound ?v" unfolding json_print_def by (rule print_bound [OF ok])
    moreover have "length (show_nat 0) \<le> 1" using show_nat_length [of 0 1] by simp
    ultimately show ?thesis by (simp add: maxBody_def)
  qed
  have "page_path 1 = ''/user/codespaces'' @ CHR ''?'' # (''per_page='' @ show_nat perPage @ ''&page='' @ show_nat 1)"
    by (simp add: page_path_def)
  then have u: "url_path (ac_base c) (ac_base c @ page_path 1) = ?p"
    using plain_url(2) [OF plain_segment] by simp
  have r: "hub_route stamp (fw_now w) ''GET'' ?p (map_option json_print None) ?g =
      (Some \<lparr>hr_Status = 200, hr_Header = content_json, hr_Body = json_print ?v @ [nl], hr_BodyErr = None\<rparr>, ?g)"
    using assms(1) by (simp add: hub_route_def hub_list_def answer_json_def empty_account_def)
  have a: "attempt_once (hub_of stamp c) c x ''GET'' (page_path 1) None dec z False w =
      (Inl (200, decode_answer (hub_of stamp c :: 'a fake_world_scheme net) ''GET'' (page_path 1) dec z (json_print ?v @ [nl])), w\<lparr>fw_hub := ?g\<rparr>)"
    for dec and z :: "int \<times> codespace list"
    by (rule attempt_route [OF _ assms(2) u r small]) (use assms(1) in \<open>simp_all add: empty_account_def\<close>)
  have d: "unmarshal (into_struct into_page) (0, []) (json_print ?v @ [nl]) = Some (0, [])"
    using json_parse_print_line [OF ok] Atoi_show_nat [of 0]
    by (simp add: unmarshal_def nl_def into_struct_def into_page_def into_slice_def into_int_def EqualFold_def ToLower_def
        lower_char_def)
  have "get_page (hub_of stamp c) c x 1 w = ((200, Inr (0, [])), called list_call w)"
    using api_do_first [OF a] d by (simp add: get_page_def decode_answer_def called_def list_call_def)
  then show ?thesis by (simp add: listCodespaces_def perPage_def numeral_eq_Suc)
qed

lemma Get_absent:
  assumes "empty_account (gp_api p) w" and "in_time x (fw_now w)" and "name \<noteq> []"
  shows "gh_Get (hub_of stamp (gp_api p)) x name p w =
    (Inl (NotFoundError ProviderName name), p, called list_call (called (get_call name) w))"
  using get_absent [OF assms] list_empty [of "gp_api p" "called (get_call name) w" x stamp] assms
  by (simp add: gh_Get_def absent_def api_unwrap_def)

section \<open>Creating\<close>

definition repo_call :: "string \<Rightarrow> string \<Rightarrow> string" where
  "repo_call owner name = ''GET'' @ '' '' @ ''/repos/'' @ owner @ ''/'' @ name"

lemma into_members_append:
  "into_members f r (xs @ ys) = (case into_members f r xs of None \<Rightarrow> None | Some r' \<Rightarrow> into_members f r' ys)"
  by (induction xs arbitrary: r) (auto split: option.split)

lemma repository_on_hub:
  fixes w :: "'a fake_world_scheme"
  assumes "calm c w" and "in_time x (fw_now w)" and "split_repository nwo = Inr (owner, name)"
    and "ascii owner" "ascii name" "length owner \<le> 10 ^ 5" "length name \<le> 10 ^ 5"
  shows "\<exists>repo. getRepository (hub_of stamp c) c x nwo w = (Inr repo, called (repo_call owner name) w) \<and> rp_ID repo = 4242"
proof -
  let ?p = "''/repos/'' @ owner @ ''/'' @ name"
  let ?v = "JObj [(''default_branch'', JStr ''main''), (''full_name'', JStr (owner @ ''/'' @ name)), (''id'', JNum (show_int 4242))]"
  let ?g = "count_call (''GET'' @ '' '' @ ?p) (fw_hub w)"
  have ok: "json_ok ?v" using assms(4,5) by (simp add: show_int_fine) (simp add: ascii_def byte_def)
  have small: "length (json_print ?v @ [nl]) < maxBody"
  proof -
    have "length (json_print ?v) \<le> print_bound ?v" unfolding json_print_def by (rule print_bound [OF ok])
    moreover have "length (show_int 4242) \<le> 9" using show_nat_length [of 4242 9] by (simp add: show_int_def)
    ultimately show ?thesis using assms(6,7) by (simp add: maxBody_def)
  qed
  have u: "url_path (ac_base c) (ac_base c @ repo_path owner name) = ?p"
    by (rule plain_url) (simp_all add: repo_path_def unescape_segment segment_no_query unescape_segment [of _ "[]", simplified])
  have "TrimPrefix ?p ''/repos/'' = owner @ ''/'' @ name" "HasPrefix ?p ''/repos/''"
    by (simp_all add: TrimPrefix_def HasPrefix_append [of "''/repos/''", simplified])
  then have r: "hub_route stamp (fw_now w) ''GET'' ?p (map_option json_print None) ?g =
      (Some \<lparr>hr_Status = 200, hr_Header = content_json, hr_Body = json_print ?v @ [nl], hr_BodyErr = None\<rparr>, ?g)"
    by (simp add: hub_route_def answer_json_def)
  have a: "attempt_once (hub_of stamp c) c x ''GET'' (repo_path owner name) None dec z False w =
      (Inl (200, decode_answer (hub_of stamp c :: 'a fake_world_scheme net) ''GET'' (repo_path owner name) dec z (json_print ?v @ [nl])), w\<lparr>fw_hub := ?g\<rparr>)"
    for dec and z :: repository
    by (rule attempt_route [OF assms(1,2) u r small]) simp_all
  have "unmarshal (into_struct into_repository_field) no_repository (json_print ?v @ [nl]) =
      Some (no_repository\<lparr>rp_DefaultBranch := ''main'', rp_FullName := owner @ ''/'' @ name, rp_ID := 4242\<rparr>)"
    using json_parse_print_line [OF ok] Atoi_show_nat [of 4242]
    by (simp add: unmarshal_def nl_def into_struct_def into_repository_field_def into_string_def into_int_def show_int_def
        EqualFold_def ToLower_def lower_char_def no_repository_def)
  then show ?thesis
    using api_do_first [OF a] assms(3) by (simp add: getRepository_def decode_answer_def called_def repo_call_def)
qed

text \<open>What the server reads from the body of a create request.\<close>

definition plain_request :: "create_request \<Rightarrow> bool" where
  "plain_request r \<longleftrightarrow> ascii (crq_Ref r) \<and> ascii (crq_Location r) \<and> ascii (crq_Machine r) \<and>
     ascii (crq_DevContainerPath r) \<and> ascii (crq_DisplayName r) \<and> length (crq_DisplayName r) \<le> 10 ^ 5 \<and>
     crq_RepositoryID r = 4242 \<and> 0 \<le> crq_IdleTimeoutMinutes r \<and> crq_IdleTimeoutMinutes r < 10 ^ 9 \<and>
     0 \<le> crq_RetentionPeriodMinutes r"

lemma omitted_members:
  "\<not> EqualFold k ''repository_id'' \<Longrightarrow> \<not> EqualFold k ''display_name'' \<Longrightarrow> \<not> EqualFold k ''idle_timeout_minutes'' \<Longrightarrow>
    into_members into_create_body b (omit_str k v) = Some b \<and> into_members into_create_body b (omit_int k n) = Some b"
  by (auto simp: omit_str_def omit_int_def into_create_body_def)

lemma ascii_literals:
  "ascii ''repository_id''" "ascii ''ref''" "ascii ''location''" "ascii ''machine''" "ascii ''devcontainer_path''"
  "ascii ''idle_timeout_minutes''" "ascii ''retention_period_minutes''" "ascii ''display_name''"
  by (simp_all add: ascii_def byte_def)

lemma omit_str_ok: "ascii k \<Longrightarrow> ascii v \<Longrightarrow> m \<in> set (omit_str k v) \<Longrightarrow> ascii (fst m) \<and> json_ok (snd m)"
  by (auto split: if_splits simp add: omit_str_def)

lemma omit_int_ok: "ascii k \<Longrightarrow> num_ok (show_int n) \<Longrightarrow> m \<in> set (omit_int k n) \<Longrightarrow> ascii (fst m) \<and> json_ok (snd m)"
  by (auto split: if_splits simp add: omit_int_def)

lemma read_create_body:
  assumes "plain_request r"
  shows "unmarshal (into_struct into_create_body) (0, [], 0) (json_print (create_body r)) =
    Some (4242, crq_DisplayName r, crq_IdleTimeoutMinutes r)"
proof -
  have n: "num_ok (show_int (crq_RepositoryID r))" "num_ok (show_int (crq_IdleTimeoutMinutes r))"
    "num_ok (show_int (crq_RetentionPeriodMinutes r))"
    using assms by (simp_all add: plain_request_def show_int_fine)
  have ok: "json_ok (create_body r)"
    using assms n omit_str_ok omit_int_ok ascii_literals
    unfolding create_body_def plain_request_def json_ok.simps set_append ball_Un list.set ball_simps fst_conv snd_conv
    by blast
  have at: "Atoi (show_int (crq_RepositoryID r)) = Some 4242"
    "Atoi (show_int (crq_IdleTimeoutMinutes r)) = Some (crq_IdleTimeoutMinutes r)"
  proof -
    have b: "crq_IdleTimeoutMinutes r < 1000000000" "0 \<le> crq_IdleTimeoutMinutes r" "crq_RepositoryID r = 4242"
      using assms by (simp_all add: plain_request_def)
    then have "nat (crq_IdleTimeoutMinutes r) < 9223372036854775808" by linarith
    with b show "Atoi (show_int (crq_RepositoryID r)) = Some 4242"
      "Atoi (show_int (crq_IdleTimeoutMinutes r)) = Some (crq_IdleTimeoutMinutes r)"
      using Atoi_show_nat [of 4242] Atoi_show_nat [of "nat (crq_IdleTimeoutMinutes r)"] by (simp_all add: show_int_def)
  qed
  have keys: "into_members into_create_body b (omit_str ''ref'' v) = Some b"
    "into_members into_create_body b (omit_str ''location'' v) = Some b"
    "into_members into_create_body b (omit_str ''machine'' v) = Some b"
    "into_members into_create_body b (omit_str ''devcontainer_path'' v) = Some b"
    "into_members into_create_body b (omit_int ''retention_period_minutes'' n) = Some b" for v n b
    using omitted_members [of "''ref''" b v n] omitted_members [of "''location''" b v n] omitted_members [of "''machine''" b v n]
      omitted_members [of "''devcontainer_path''" b v n] omitted_members [of "''retention_period_minutes''" b v n]
    by (simp_all add: EqualFold_def ToLower_def lower_char_def)
  have first: "into_create_body ''repository_id'' (0, [], 0) (JNum (show_int (crq_RepositoryID r))) = Some (4242, [], 0)"
    using at(1) by (simp add: into_create_body_def into_int_def EqualFold_def)
  have idle: "into_members into_create_body (4242, [], 0) (omit_int ''idle_timeout_minutes'' (crq_IdleTimeoutMinutes r)) =
      Some (4242, [], crq_IdleTimeoutMinutes r)"
    using at(2) by (simp add: omit_int_def into_create_body_def into_int_def EqualFold_def ToLower_def lower_char_def)
  have last1: "into_members into_create_body (4242, [], i) (omit_str ''display_name'' (crq_DisplayName r)) =
      Some (4242, crq_DisplayName r, i)" for i
    by (simp add: omit_str_def into_create_body_def into_string_def EqualFold_def ToLower_def lower_char_def)
  have "into_struct into_create_body (0, [], 0) (create_body r) = Some (4242, crq_DisplayName r, crq_IdleTimeoutMinutes r)"
    using keys first idle last1 by (simp add: create_body_def into_struct_def into_members_append)
  with json_parse_print [OF ok] show ?thesis by (simp add: unmarshal_def)
qed

definition fresh_box :: "create_request \<Rightarrow> fake_codespace" where
  "fresh_box r = \<lparr>fk_Name = nth_name 1, fk_DisplayName = crq_DisplayName r, fk_State = ''Queued'', fk_Repository = [],
     fk_IdleTimeoutMinutes = crq_IdleTimeoutMinutes r, fk_PendingOperation = False, fk_PollsBeforeAvailable = 1\<rparr>"

definition create_call :: string where
  "create_call = ''POST'' @ '' '' @ ''/user/codespaces''"

definition created :: "create_request \<Rightarrow> 'a fake_world_scheme \<Rightarrow> 'a fake_world_scheme" where
  "created r w = w\<lparr>fw_hub := hub_Add (fresh_box r)
     ((count_call create_call (fw_hub w))\<lparr>fg_created := fg_created (fw_hub w) + 1, fg_createdRepo := ''octo/demo''\<rparr>)\<rparr>"

lemma one_name: "nth_name 1 = ''generated-codespace-1''"
  by (simp add: nth_name_def show_one)

lemma fine_fresh: "plain_request r \<Longrightarrow> fine (fresh_box r)"
  unfolding fine_def fresh_box_def plain_request_def one_name by (simp add: ascii_def byte_def)

lemma create_on_hub:
  fixes w :: "'a fake_world_scheme"
  assumes "empty_account c w" and "in_time x (fw_now w)" and "stamp_ok stamp" and "plain_request r"
  shows "createCodespace (hub_of stamp c) c x r w = (Inr (seen stamp (fw_now w) (fresh_box r)), created r w)"
proof -
  let ?p = "''/user/codespaces''" and ?v = "payload stamp (fw_now w) (fresh_box r)"
  let ?g = "count_call (''POST'' @ '' '' @ ''/user/codespaces'') (fw_hub w)"
  have f: "fine (fresh_box r)" by (rule fine_fresh [OF assms(4)])
  have u: "url_path (ac_base c) (ac_base c @ ''/user/codespaces'') = ?p" by (rule plain_url(1) [OF plain_segment]) simp
  have "hub_create stamp (fw_now w) (Some (json_print (create_body r))) ?g =
      (Some (answer_json 201 ?v), hub_Add (fresh_box r) (?g\<lparr>fg_created := fg_created (fw_hub w) + 1, fg_createdRepo := ''octo/demo''\<rparr>))"
    using assms(1) read_create_body [OF assms(4)]
    by (simp add: hub_create_def empty_account_def fresh_box_def one_name [symmetric] repoForID_def count_call_def Let_def)
  then have r: "hub_route stamp (fw_now w) ''POST'' ?p (map_option json_print (Some (create_body r))) ?g =
      (Some \<lparr>hr_Status = 201, hr_Header = content_json, hr_Body = json_print ?v @ [nl], hr_BodyErr = None\<rparr>,
       hub_Add (fresh_box r) (?g\<lparr>fg_created := fg_created (fw_hub w) + 1, fg_createdRepo := ''octo/demo''\<rparr>))"
    by (simp add: hub_route_def answer_json_def)
  have small: "length (json_print ?v @ [nl]) < maxBody" using payload_size [OF f assms(3)] by simp
  have a: "attempt_once (hub_of stamp c) c x ''POST'' ''/user/codespaces'' (Some (create_body r)) dec z False w =
      (Inl (201, decode_answer (hub_of stamp c :: 'a fake_world_scheme net) ''POST'' ''/user/codespaces'' dec z (json_print ?v @ [nl])), created r w)"
    for dec and z :: codespace
    unfolding created_def create_call_def
    by (rule attempt_route [OF _ assms(2) u r small]) (use assms(1) in \<open>simp_all add: empty_account_def\<close>)
  have "unmarshal into_codespace no_codespace (json_print ?v @ [nl]) = Some (seen stamp (fw_now w) (fresh_box r))"
    using json_parse_print_line [OF payload_ok [OF f assms(3)], of "fw_now w"] f
    by (simp add: unmarshal_def decode_payload fine_def nl_def)
  moreover have "gc_Name (seen stamp (fw_now w) (fresh_box r)) \<noteq> []" by (simp add: seen_def fresh_box_def nth_name_def)
  ultimately show ?thesis using api_do_first [OF a] by (simp add: createCodespace_def decode_answer_def)
qed


section \<open>The whole rebuild\<close>

definition makes :: "'a fake_world_scheme \<Rightarrow> int" where
  "makes w = getz (fg_calls (fw_hub w)) create_call 0"

text \<open>The request is plain whatever the repository's number; the server knows one repository.\<close>

definition request_fine :: "create_config \<Rightarrow> string \<Rightarrow> bool" where
  "request_fine cfg handle \<longleftrightarrow> (\<forall>repo. rp_ID repo = 4242 \<longrightarrow> plain_request (request_of cfg handle repo)) \<and>
     (\<exists>owner name. split_repository (cc_Repository cfg) = Inr (owner, name) \<and> ascii owner \<and> ascii name \<and>
        length owner \<le> 10 ^ 5 \<and> length name \<le> 10 ^ 5)"

lemma makes_called [simp]:
  "makes (called (get_call n) w) = makes w" "makes (called list_call w) = makes w"
  "makes (called (repo_call owner name) w) = makes w"
  by (simp_all add: makes_def called_def count_call_def get_call_def list_call_def repo_call_def create_call_def)

lemma created_simps [simp]:
  "fw_now (created r w) = fw_now w" "makes (created r w) = makes w + 1"
  "empty_account c w \<Longrightarrow> calm c (created r w)"
  "map_of (fg_codespaces (fw_hub (created r w))) (nth_name 1) = Some (fresh_box r)"
  by (simp_all add: created_def makes_def hub_Add_def count_call_def fresh_box_def empty_account_def calm_def)

lemma makes_time [simp]: "makes (w\<lparr>fw_now := t\<rparr>) = makes w"
  by (simp add: makes_def)

lemma recall_keeps_api: "recallSource h p = (r, p1) \<Longrightarrow> gp_api p1 = gp_api p"
  by (auto simp: recallSource_def split: prod.splits bool.splits)

lemma create_from_api: "create_from spec p = (r, p1) \<Longrightarrow> gp_api p1 = gp_api p"
  by (auto simp: create_from_def Let_def recall_keeps_api split: sum.splits prod.splits if_splits)

lemma remember_api [simp]: "gp_api (rememberSource g hs p) = gp_api p"
  by (simp add: rememberSource_def)

lemma Create_on_hub:
  assumes "empty_account (gp_api p) w" and "in_time x (fw_now w)" and "stamp_ok stamp"
    and "create_from \<lparr>cs_Name = handle, cs_Options = []\<rparr> p = (Inr cfg, p1)" and "request_fine cfg handle"
  obtains r p2 w' where "plain_request r"
    and "gh_Create (hub_of stamp (gp_api p)) x \<lparr>cs_Name = handle, cs_Options = []\<rparr> p w =
      (Inr (codespace_environment (seen stamp (fw_now w) (fresh_box r))), p2, w')"
    and "gp_api p2 = gp_api p" "fw_now w' = fw_now w" "makes w' = makes w + 1"
    and "phase_at (fresh_box r) ''Queued'' 1 (gp_api p) w'"
proof -
  obtain owner name where s: "split_repository (cc_Repository cfg) = Inr (owner, name)" "ascii owner" "ascii name"
    "length owner \<le> 10 ^ 5" "length name \<le> 10 ^ 5" using assms(5) by (auto simp: request_fine_def)
  have "calm (gp_api p) w" using assms(1) by (simp add: empty_account_def)
  from repository_on_hub [OF this assms(2) s] obtain repo where
    G: "getRepository (hub_of stamp (gp_api p)) (gp_api p) x (cc_Repository cfg) w = (Inr repo, called (repo_call owner name) w)"
    and "rp_ID repo = 4242" by blast
  then have r: "plain_request (request_of cfg handle repo)" using assms(5) by (simp add: request_fine_def)
  let ?r = "request_of cfg handle repo" and ?w = "called (repo_call owner name) w"
  have "createCodespace (hub_of stamp (gp_api p)) (gp_api p) x ?r ?w = (Inr (seen stamp (fw_now ?w) (fresh_box ?r)), created ?r ?w)"
    by (rule create_on_hub) (use assms r in simp_all)
  then have C: "gh_Create (hub_of stamp (gp_api p)) x \<lparr>cs_Name = handle, cs_Options = []\<rparr> p w =
      (Inr (codespace_environment (seen stamp (fw_now w) (fresh_box ?r))),
       rememberSource (seen stamp (fw_now w) (fresh_box ?r)) [handle] p1, created ?r ?w)"
    using assms(4) G by (simp add: gh_Create_def)
  have "phase_at (fresh_box ?r) ''Queued'' 1 (gp_api p) (created ?r ?w)"
    using assms(1) fine_fresh [OF r] created_simps(4) [of ?r ?w]
    by (simp add: phase_at_def) (simp add: fresh_box_def nth_name_def)
  then show thesis
    by (intro that [OF r C]) (use create_from_api [OF assms(4)] in simp_all)
qed

lemma lookup_creates:
  assumes "empty_account (gp_api p) w" and "in_time x (fw_now w)" and "stamp_ok stamp" and "handle \<noteq> []"
    and "AutoCreate (m_opts m)" and "0 < CreateTimeout (m_opts m)"
    and "create_from \<lparr>cs_Name = handle, cs_Options = []\<rparr> p = (Inr cfg, p1)" and "request_fine cfg handle"
  obtains r m' p' w' where "plain_request r"
    and "ensure_lookup (github_prov T (hub_of stamp (gp_api p)) X p0) x handle m (p, l, w) =
      (Inr (codespace_environment (seen stamp (fw_now w) (fresh_box r))), m', p', l, w')"
    and "m_opts m' = m_opts m" "gp_api p' = gp_api p" "fw_now w' = fw_now w" "makes w' = makes w + 1"
    and "phase_at (fresh_box r) ''Queued'' 1 (gp_api p) w'"
proof -
  let ?N = "hub_of stamp (gp_api p)"
  let ?P = "github_prov T ?N X p0" and ?w = "called list_call (called list_call (called (get_call handle) w))"
  let ?x = "WithTimeout x (CreateTimeout (m_opts m)) (fw_now w)"
  have x: "in_time ?x (fw_now ?w)" using assms(2,6) by (auto simp: in_time_WithTimeout)
  obtain r p2 w' where r: "plain_request r"
    and C: "gh_Create ?N ?x \<lparr>cs_Name = handle, cs_Options = []\<rparr> p ?w =
      (Inr (codespace_environment (seen stamp (fw_now ?w) (fresh_box r))), p2, w')"
    and k: "gp_api p2 = gp_api p" "fw_now w' = fw_now ?w" "makes w' = makes ?w + 1"
      "phase_at (fresh_box r) ''Queued'' 1 (gp_api p) w'"
    by (rule Create_on_hub [of p ?w ?x stamp handle cfg p1]) (use assms x in simp_all)
  have L: "gh_List ?N x p (called list_call (called (get_call handle) w)) = (Inr [], p, ?w)"
    using list_empty [of "gp_api p" "called list_call (called (get_call handle) w)" x stamp] assms by (simp add: gh_List_def)
  have G: "manager_get ?P x handle m (p, l, w) =
      (Inl (NotFoundError ProviderName handle), m, p, l, called list_call (called (get_call handle) w))"
    using Get_absent [OF assms(1,2,4), of stamp] by (simp add: manager_get_def numeral_3_eq_3)
  have "ensure_lookup ?P x handle m (p, l, w) = create ?P x handle m (p, l, ?w)"
    using G L assms(5) by (simp add: ensure_lookup_def adopt_def github_prov_def)
  moreover obtain m' where "create ?P x handle m (p, l, ?w) =
      (Inr (codespace_environment (seen stamp (fw_now w) (fresh_box r))), m', p2, l, w')" "m_opts m' = m_opts m"
    using C by (simp add: create_def github_prov_def fake_net_def Let_def)
  ultimately show thesis using that [OF r, of m' p2 w'] k by simp
qed

text \<open>
  C4: A codespace that is gone comes back. When the account is empty (the codespace was deleted on
  GitHub) and the lifecycle may create one, \<open>ensure\<close> learns through the provider that the handle names nothing, sends exactly
  one create request (server of the test suite, JSON over HTTP), waits two poll intervals while the new codespace is
  queued, and returns the new environment, running, under the new codespace's own name; the handle's phase is RUNNING.
\<close>

theorem rebuild_after_delete:
  assumes "empty_account (gp_api p) w" and "stamp_ok stamp" and "handle \<noteq> []"
    and "AutoCreate (m_opts m)" and "0 < CreateTimeout (m_opts m)"
    and "create_from \<lparr>cs_Name = handle, cs_Options = []\<rparr> p = (Inr cfg, p1)" and "request_fine cfg handle"
    and "0 < PollInterval (m_opts m)" and "2 * PollInterval (m_opts m) < StartTimeout (m_opts m)"
    and "in_time x (fw_now w + 2 * PollInterval (m_opts m))"
  shows "\<exists>env m' p' w'.
    ensure (github_prov T (hub_of stamp (gp_api p)) X p0) x handle m (p, l, w) = Some (Inr env, m', p', l, w') \<and>
    env_ID env = ''generated-codespace-1'' \<and> env_State env = StateRunning \<and>
    es_phase (state_of handle m') = PhaseRunning \<and> hub_State (env_ID env) (fw_hub w') = ''Available'' \<and>
    makes w' = makes w + 1 \<and> fw_now w' = fw_now w + 2 * PollInterval (m_opts m)"
proof -
  let ?c = "gp_api p" and ?d = "PollInterval (m_opts m)" and ?x = "WithTimeout x (StartTimeout (m_opts m)) (fw_now w)"
  let ?P = "github_prov T (hub_of stamp ?c) X p0"
  have now: "in_time x (fw_now w)" "in_time ?x (fw_now w + 2 * ?d)"
    using assms(8,9,10) in_time_mono [OF assms(10), of "fw_now w"] by (simp_all add: in_time_WithTimeout)
  obtain r m1 p2 w1 where L: "ensure_lookup ?P x handle m (p, l, w) =
      (Inr (codespace_environment (seen stamp (fw_now w) (fresh_box r))), m1, p2, l, w1)"
    and k: "m_opts m1 = m_opts m" "gp_api p2 = ?c" "fw_now w1 = fw_now w" "makes w1 = makes w + 1"
      "phase_at (fresh_box r) ''Queued'' (int 1) ?c w1"
    by (rule lookup_creates [of p w x stamp handle m cfg p1 T X p0 l]) (use assms now in simp_all)
  define env where "env = codespace_environment (seen stamp (fw_now w) (fresh_box r))"
  have e: "env_ID env = nth_name 1" "env_State env = StateProvisioning"
    by (simp_all add: env_def env_of_seen fresh_box_def stateFor_def)
  define m2 where "m2 = setPhase (fw_now w1) handle (PhaseForState (env_State env))
    (''environment already transitioning ('' @ state_name (env_State env) @ '')'')
    (observe (fw_now w1) env (resolve (fw_now w1) handle env m1))"
  have o2: "m_opts m2 = m_opts m" using k(1) by (simp add: m2_def)
  have n1: "fk_Name (fresh_box r) = nth_name 1" by (simp add: fresh_box_def)
  obtain env' m3 p3 w3 where W:
    "waitFor ?P ?x handle (nth_name 1) ''environment to become RUNNING'' Connectable m2 (p2, l, w1) = Some (Inr env', m3, p3, l, w3)"
    and f: "env_ID env' = nth_name 1" "env_State env' = StateRunning" "fw_now w3 = fw_now w1 + (int 1 + 1) * ?d"
      "phase_at (fresh_box r) ''Available'' 0 ?c w3" "others_kept (nth_name 1) w1 w3"
    by (rule wait_on_hub [of "''Queued''" "fresh_box r" 1 ?c w1 p2 stamp m2 ?x T X p0 handle "''environment to become RUNNING''" l,
          unfolded n1])
      (use k assms(2,8) o2 now(2) in \<open>simp_all add: coming_def\<close>)
  have E: "ensure ?P x handle m (p, l, w) =
      Some (Inr env', setPhase (fw_now w3) handle PhaseRunning ''environment ready'' m3, p3, l, w3)"
    using L e k(1,3) W
    by (simp add: ensure_def ensure_found_def ensure_ready_def ensure_start_def Connectable_def Startable_def m2_def
        env_def [symmetric] Let_def)
  have "hub_State (nth_name 1) (fw_hub w3) = ''Available''" using f(4) by (simp add: phase_at_def hub_State_def n1)
  moreover have "makes w3 = makes w1"
  proof -
    have "create_call \<notin> {get_call (nth_name 1), start_call (nth_name 1)}"
      by (simp add: create_call_def get_call_def start_call_def hub_path_def)
    then show ?thesis using f(5) unfolding others_kept_def makes_def by blast
  qed
  ultimately show ?thesis using E ensure_ok [OF E] f k(3,4) by (auto simp: one_name [unfolded One_nat_def])
qed


definition rebuilder :: gh_provider where
  "rebuilder = provider0\<lparr>gp_cfg := (gp_cfg provider0)\<lparr>gf_Create := no_create\<lparr>cc_Repository := ''octo/demo''\<rparr>\<rparr>\<rparr>"

definition rebuilt_config :: create_config where
  "rebuilt_config = no_create\<lparr>cc_Repository := ''octo/demo''\<rparr>"

definition empty_world :: fake_world where
  "empty_world = \<lparr>fw_now = 0, fw_hub = NewGitHub (ac_token client0)\<rparr>"

lemma rebuild_after_delete_witness:
  "\<forall>T X. \<exists>env m' p' w'.
    ensure (github_prov T (hub_of (\<lambda>t. ''2026-01-01T00:00:00Z'') client0) X rebuilder) ctx1 ''old'' mgr1
      (rebuilder, [], empty_world) = Some (Inr env, m', p', [], w') \<and> env_ID env = ''generated-codespace-1'' \<and>
    makes w' = 1 \<and> fw_now w' = 4 * second"
proof -
  have api: "gp_api rebuilder = client0" by (simp add: rebuilder_def provider0_def)
  have empty: "empty_account (gp_api rebuilder) empty_world"
    by (simp add: api) (simp add: empty_account_def calm_def empty_world_def NewGitHub_def client0_def second_def)
  have "create_from \<lparr>cs_Name = ''old'', cs_Options = []\<rparr> rebuilder = (Inr rebuilt_config, rebuilder)"
    by (simp add: create_from_def rebuilder_def rebuilt_config_def provider0_def no_config_def no_create_def
        mergeCreateOptions_def count_char_def)
  moreover have "request_fine rebuilt_config ''old''"
  proof -
    have "split_repository ''octo/demo'' = Inr (''octo'', ''demo'')"
      using Cut_char [of "CHR ''/''" "''octo''" "''demo''"] by (simp add: split_repository_def)
    then show ?thesis
      by (simp add: request_fine_def plain_request_def request_of_def rebuilt_config_def no_create_def ascii_def byte_def)
  qed
  moreover have "stamp_ok (\<lambda>t. ''2026-01-01T00:00:00Z'')" by (simp add: stamp_ok_def ascii_def byte_def)
  moreover have "PollInterval (m_opts mgr1) = 2 * second" "StartTimeout (m_opts mgr1) = 300 * second" "AutoCreate (m_opts mgr1)"
    "0 < CreateTimeout (m_opts mgr1)" by (simp_all add: lc_eval second_def)
  moreover have "fw_now empty_world = 0" "makes empty_world = 0"
    by (simp_all add: empty_world_def makes_def NewGitHub_def getz_def)
  ultimately show ?thesis
    using rebuild_after_delete [OF empty, of "\<lambda>t. ''2026-01-01T00:00:00Z''" "''old''" mgr1 rebuilt_config rebuilder ctx1 _ _
        rebuilder "[]"] api
    by (fastforce simp: second_def)
qed

end
