(* ===== verification/FakeGh.thy ===== *)
theory FakeGh
  imports GithubConnect SshAuth
begin

text \<open>
  The stand-in for the \<open>gh\<close> program (\<open>internal/testenv/fakegh.go\<close>): how it reads the arguments the
  gateway gives it, what it prints, and which command line of \<open>ssh\<close> it makes of the exec
  connector's arguments. It follows \<open>gh\<close> in what matters to the gateway, so the last section proves what the gateway's
  own argument lists mean to it.
\<close>

section \<open>Reading the arguments\<close>

record gh_ssh_args =
  gs_codespace :: string
  gs_config :: bool
  gs_stdio :: bool
  gs_passthru :: "string list"

fun parse_ssh_args :: "string list \<Rightarrow> gh_ssh_args \<Rightarrow> gh_ssh_args" where
  "parse_ssh_args [] out = out"
| "parse_ssh_args (a # args) out =
    (if a = ''-c'' \<or> a = ''--codespace'' then
       (case args of [] \<Rightarrow> out | v # rest \<Rightarrow> parse_ssh_args rest (out\<lparr>gs_codespace := v\<rparr>))
     else if a = ''--config'' then parse_ssh_args args (out\<lparr>gs_config := True\<rparr>)
     else if a = ''--stdio'' then parse_ssh_args args (out\<lparr>gs_stdio := True\<rparr>)
     else if a = ''--'' then out\<lparr>gs_passthru := gs_passthru out @ args\<rparr>
     else parse_ssh_args args (out\<lparr>gs_passthru := gs_passthru out @ [a]\<rparr>))"

definition parseGHSSHArgs :: "string list \<Rightarrow> gh_ssh_args" where
  "parseGHSSHArgs args =
    parse_ssh_args args \<lparr>gs_codespace = [], gs_config = False, gs_stdio = False, gs_passthru = []\<rparr>"

text \<open>Which flags of \<open>ssh\<close> take a value, and where the remote command begins.\<close>

definition unary_flags :: string where
  "unary_flags = ''bcDEeFIiJLlmOopQRSWw''"

fun splitSSHFlags :: "string list \<Rightarrow> string list \<times> string list" where
  "splitSSHFlags [] = ([], [])"
| "splitSSHFlags (arg # args) =
    (if HasPrefix arg ''-'' \<and> 1 < length arg then
       (case args of
          v # rest \<Rightarrow>
            if length arg = 2 \<and> arg ! 1 \<in> set unary_flags then
              (case splitSSHFlags rest of (flags, command) \<Rightarrow> (arg # v # flags, command))
            else (case splitSSHFlags args of (flags, command) \<Rightarrow> (arg # flags, command))
        | [] \<Rightarrow> ([arg], []))
     else ([], arg # args))"

section \<open>The program\<close>

text \<open>
  What a run of it comes to: it prints and ends, it connects its standard streams to the SSH server at an
  address, or it becomes a run of \<open>ssh\<close> with these arguments. \<open>look\<close> is \<open>exec.LookPath\<close>.
\<close>

record gh_exit =
  ge_stdout :: string
  ge_stderr :: string
  ge_code :: int

datatype gh_outcome = Exits gh_exit | ProxiesTo string | RunsSSH string "string list"

definition out_line :: "string \<Rightarrow> gh_exit" where
  "out_line s = \<lparr>ge_stdout = s @ [nl], ge_stderr = [], ge_code = 0\<rparr>"

definition err_line :: "string \<Rightarrow> gh_exit" where
  "err_line s = \<lparr>ge_stdout = [], ge_stderr = s @ [nl], ge_code = 1\<rparr>"

definition tab :: char where
  "tab = CHR 0x09"

definition config_text :: "string \<Rightarrow> string \<Rightarrow> string" where
  "config_text codespace user =
    ''Host cs.'' @ codespace @ ''.main'' @ [nl] @ [tab] @ ''User '' @ user @ [nl] @
    [tab] @ ''ProxyCommand gh cs ssh -c '' @ codespace @ '' --stdio -- -i ~/.ssh/codespaces.auto'' @ [nl] @
    [tab] @ ''UserKnownHostsFile=/dev/null'' @ [nl] @ [tab] @ ''StrictHostKeyChecking no'' @ [nl] @ [tab] @ ''LogLevel quiet'' @ [nl] @
    [tab] @ ''ControlMaster auto'' @ [nl] @ [tab] @ ''IdentityFile ~/.ssh/codespaces.auto'' @ [nl, nl]"

definition execRealSSH :: "(string \<Rightarrow> string) \<Rightarrow> (string \<Rightarrow> string option) \<Rightarrow> string \<Rightarrow> string list \<Rightarrow> gh_outcome" where
  "execRealSSH env look user passthru =
    (let addr = env ''GATEWAY_FAKE_GH_SSHD''
     in (case SplitHostPort addr of
           None \<Rightarrow> Exits (err_line (''bad sshd address '' @ quote addr))
         | Some (host, port) \<Rightarrow>
            (case look ''ssh'' of
               None \<Rightarrow> Exits (err_line ''no ssh binary available'')
             | Some path \<Rightarrow>
                (case splitSSHFlags
                    ([''-o'', ''NoHostAuthenticationForLocalhost=yes'', ''-o'', ''StrictHostKeyChecking=no'',
                      ''-o'', ''UserKnownHostsFile=/dev/null'', ''-o'', ''PasswordAuthentication=no'',
                      ''-o'', ''LogLevel=ERROR'', ''-p'', port] @ passthru) of
                   (flags, command) \<Rightarrow> RunsSSH path (flags @ [user @ ''@'' @ host] @ command)))))"

text \<open>\<open>proxyStdio\<close> from its dialling to its end: the tunnel always ends with an error, as with the real program.\<close>

definition proxy_end :: "goerr option \<Rightarrow> gh_exit" where
  "proxy_end dial =
    (case dial of
       Some e \<Rightarrow> err_line (''failed to connect to forwarded port: '' @ err_text e)
     | None \<Rightarrow> err_line ''tunnel closed'')"

definition ssh_user :: "(string \<Rightarrow> string) \<Rightarrow> string" where
  "ssh_user env = (if env ''GATEWAY_FAKE_GH_USER'' = [] then ''vscode'' else env ''GATEWAY_FAKE_GH_USER'')"

definition fakeCodespaceSSH ::
  "(string \<Rightarrow> string) \<Rightarrow> (string \<Rightarrow> string option) \<Rightarrow> string list \<Rightarrow> gh_outcome" where
  "fakeCodespaceSSH env look args =
    (let parsed = parseGHSSHArgs args
     in if gs_config parsed then
          (if env ''GATEWAY_FAKE_GH_CONFIG_FAIL'' = ''1''
           then Exits (err_line ''error getting ssh server details: could not start ssh server'')
           else Exits \<lparr>ge_stdout = config_text (gs_codespace parsed) (ssh_user env), ge_stderr = [], ge_code = 0\<rparr>)
        else if gs_stdio parsed then
          (if env ''GATEWAY_FAKE_GH_NO_STDIO'' = ''1'' then Exits (err_line ''unknown flag: --stdio'')
           else if gs_codespace parsed = [] then Exits (err_line ''`--stdio` requires explicit `--codespace`'')
           else ProxiesTo (env ''GATEWAY_FAKE_GH_SSHD''))
        else execRealSSH env look (ssh_user env) (gs_passthru parsed))"

definition runFakeGH :: "(string \<Rightarrow> string) \<Rightarrow> (string \<Rightarrow> string option) \<Rightarrow> string list \<Rightarrow> gh_outcome" where
  "runFakeGH env look args =
    (if env ''GATEWAY_FAKE_GH_FAIL'' \<noteq> [] then Exits (err_line (env ''GATEWAY_FAKE_GH_FAIL''))
     else if args = [''--version''] then
       Exits \<lparr>ge_stdout = ''gh version 2.99.0 (fake)'' @ [nl] @ ''https://github.com/cli/cli/releases/tag/v2.99.0'' @ [nl],
         ge_stderr = [], ge_code = 0\<rparr>
     else if args = [''auth'', ''token''] then
       (if env ''GATEWAY_FAKE_GH_TOKEN'' = [] then Exits (err_line ''not logged in'')
        else Exits (out_line (env ''GATEWAY_FAKE_GH_TOKEN'')))
     else if take 2 args = [''codespace'', ''ssh''] then fakeCodespaceSSH env look (drop 2 args)
     else Exits (err_line (''unknown command: '' @ Join args '' '')))"

text \<open>The line it leaves in the log of its calls, and where.\<close>

definition args_log :: "(string \<Rightarrow> string) \<Rightarrow> string list \<Rightarrow> (string \<times> string) option" where
  "args_log env args =
    (let path = env ''GATEWAY_FAKE_GH_ARGS_LOG'' in if path = [] then None else Some (path, Join args '' '' @ [nl]))"

section \<open>What the gateway's arguments mean to gh\<close>

text \<open>Everything after \<open>--\<close> passes through, whatever was asked for before.\<close>

lemma parse_passthru:
  "parseGHSSHArgs ([''-c'', name] @ ''--'' # rest) = \<lparr>gs_codespace = name, gs_config = False, gs_stdio = False, gs_passthru = rest\<rparr>"
  "parseGHSSHArgs ([''-c'', name, ''--stdio''] @ ''--'' # rest) =
    \<lparr>gs_codespace = name, gs_config = False, gs_stdio = True, gs_passthru = rest\<rparr>"
  "parseGHSSHArgs [''-c'', name, ''--config''] =
    \<lparr>gs_codespace = name, gs_config = True, gs_stdio = False, gs_passthru = []\<rparr>"
  by (simp_all add: parseGHSSHArgs_def)

text \<open>The stdio connector and the probe for the login name are understood, whatever the codespace's name is.\<close>

lemma stdio_understood:
  "parseGHSSHArgs (drop 2 (stdio_args name p)) =
    \<lparr>gs_codespace = name, gs_config = False, gs_stdio = True, gs_passthru = [''-i'', kp_PrivatePath (gp_keys p)]\<rparr>"
  using parse_passthru(2) [of name "[''-i'', kp_PrivatePath (gp_keys p)]"] by (simp add: stdio_args_def)

definition option_like :: "string \<Rightarrow> bool" where
  "option_like w \<longleftrightarrow> HasPrefix w ''-'' \<and> 1 < length w"


lemma split_value:
  "splitSSHFlags (''-o'' # v # rest) = (''-o'' # v # fst (splitSSHFlags rest), snd (splitSSHFlags rest))"
  "splitSSHFlags (''-i'' # v # rest) = (''-i'' # v # fst (splitSSHFlags rest), snd (splitSSHFlags rest))"
  "splitSSHFlags (''-p'' # v # rest) = (''-p'' # v # fst (splitSSHFlags rest), snd (splitSSHFlags rest))"
  by (simp_all add: HasPrefix_def unary_flags_def split: prod.split)

lemma split_plain:
  "splitSSHFlags (''-tt'' # rest) = (''-tt'' # fst (splitSSHFlags rest), snd (splitSSHFlags rest))"
  "splitSSHFlags (''-T'' # rest) = (''-T'' # fst (splitSSHFlags rest), snd (splitSSHFlags rest))"
  "splitSSHFlags (''-s'' # rest) = (''-s'' # fst (splitSSHFlags rest), snd (splitSSHFlags rest))"
  by (cases rest; simp add: HasPrefix_def unary_flags_def split: prod.split)+

lemma split_word: "splitSSHFlags [w] = (if option_like w then ([w], []) else ([], [w]))"
  by (simp add: option_like_def)

definition setenv_flags :: "string list \<Rightarrow> string list" where
  "setenv_flags kvs = concat (map (\<lambda>kv. [''-o'', ''SetEnv='' @ kv]) kvs)"

lemma split_environment:
  "splitSSHFlags (setenv_flags kvs @ rest) = (setenv_flags kvs @ fst (splitSSHFlags rest), snd (splitSSHFlags rest))"
  by (induction kvs) (simp_all del: splitSSHFlags.simps add: setenv_flags_def split_value)

text \<open>What the client asks to be run: a subsystem, a command, or nothing.\<close>

definition remote_words :: "connect_request \<Rightarrow> string list" where
  "remote_words req =
    (if req_Subsystem req \<noteq> [] then [req_Subsystem req] else if req_Command req \<noteq> [] then [req_Command req] else [])"

definition exec_flags :: "connect_request \<Rightarrow> gh_provider \<Rightarrow> string list" where
  "exec_flags req p = [''-i'', kp_PrivatePath (gp_keys p), if req_PTY req then ''-tt'' else ''-T''] @
     setenv_flags (safeSetEnv (req_Env req)) @ (if req_Subsystem req \<noteq> [] then [''-s''] else [])"

lemma exec_understood:
  "parseGHSSHArgs (drop 2 (exec_args name req p)) =
    \<lparr>gs_codespace = name, gs_config = False, gs_stdio = False, gs_passthru = exec_flags req p @ remote_words req\<rparr>"
proof -
  have "exec_args name req p = [''codespace'', ''ssh'', ''-c'', name] @ ''--'' # exec_flags req p @ remote_words req"
    by (simp add: exec_args_def exec_flags_def setenv_flags_def remote_words_def)
  then show ?thesis using parse_passthru(1) [of name "exec_flags req p @ remote_words req"] by simp
qed

lemma exec_split:
  "splitSSHFlags (exec_flags req p @ remote_words req) =
    (exec_flags req p @ filter option_like (remote_words req), filter (\<lambda>w. \<not> option_like w) (remote_words req))"
proof -
  have words: "splitSSHFlags (remote_words req) = (filter option_like (remote_words req), filter (\<lambda>w. \<not> option_like w) (remote_words req))"
    by (simp add: remote_words_def split_word del: splitSSHFlags.simps(2))
  show ?thesis
    using words by (simp add: exec_flags_def split_value split_plain split_environment del: splitSSHFlags.simps)
qed

text \<open>
  C8: What the exec connector's arguments come to. \<open>gh\<close> takes the codespace's name for the name whatever it
  looks like, runs neither its configuration nor its tunnel, and hands \<open>ssh\<close> the key, the terminal flag and every variable of the
  client's environment as flags with their values; the client's command or subsystem is the one word of the remote command, unless it
  begins with a dash: then it becomes one more flag of the \<open>ssh\<close> that runs on the gateway's host, and no remote command is left.
\<close>

theorem exec_command_line:
  "parseGHSSHArgs (drop 2 (exec_args name req p)) =
     \<lparr>gs_codespace = name, gs_config = False, gs_stdio = False, gs_passthru = exec_flags req p @ remote_words req\<rparr> \<and>
   splitSSHFlags (exec_flags req p @ remote_words req) =
     (exec_flags req p @ filter option_like (remote_words req), filter (\<lambda>w. \<not> option_like w) (remote_words req))"
  using exec_understood exec_split by blast

text \<open>So a client can pass \<open>ssh\<close> an option, for instance one that names a program to run on the gateway's host.\<close>

lemma command_becomes_option:
  assumes "req_Subsystem req = []" and "req_Command req = ''-oProxyCommand='' @ cmd"
    and "env ''GATEWAY_FAKE_GH_FAIL'' = []" and "SplitHostPort (env ''GATEWAY_FAKE_GH_SSHD'') = Some (host, port)" and "look ''ssh'' = Some path"
  shows "\<exists>flags. runFakeGH env look (exec_args name req p) = RunsSSH path (flags @ [''-oProxyCommand='' @ cmd, ssh_user env @ ''@'' @ host])"
proof -
  have w: "remote_words req = [''-oProxyCommand='' @ cmd]" "option_like (''-oProxyCommand='' @ cmd)"
    using assms(1,2) by (simp_all add: remote_words_def option_like_def HasPrefix_def)
  have "take 2 (exec_args name req p) = [''codespace'', ''ssh'']" "exec_args name req p \<noteq> [''--version'']"
    "exec_args name req p \<noteq> [''auth'', ''token'']" by (simp_all add: exec_args_def)
  then have "runFakeGH env look (exec_args name req p) =
      execRealSSH env look (ssh_user env) (exec_flags req p @ remote_words req)"
    using assms(3) by (simp add: runFakeGH_def fakeCodespaceSSH_def exec_understood)
  then show ?thesis
    using exec_split [of req p] w assms(4,5)
    by (simp add: execRealSSH_def split_value del: splitSSHFlags.simps)
qed

end
