(* ===== verification/FakeSshd.thy ===== *)
theory FakeSshd
  imports GithubConnect
begin

text \<open>
  The stand-in for the SSH server inside a codespace (\<open>internal/testenv/sshd.go\<close>,
  \<open>sshd_session.go\<close>): it records what it is asked to do and answers a few commands. The packets
  are decoded by the SSH library; a request is its decoded payload, \<open>None\<close> when that fails.
\<close>

section \<open>Its state\<close>

record sshd_session =
  ds_PTY :: bool
  ds_Term :: string
  ds_Rows :: "32 word"
  ds_Cols :: "32 word"
  ds_Env :: "(string, string) gomap"
  ds_Kind :: string
  ds_Command :: string
  ds_WindowChanges :: "(32 word \<times> 32 word) list"
  ds_Signals :: "string list"

record sshd =
  sd_hostKey :: host_key
  sd_sessions :: "sshd_session list"
  sd_offeredKeys :: "string list"
  sd_refuse :: int
  sd_closed :: bool

definition NewSSHD :: "host_key \<Rightarrow> sshd" where
  "NewSSHD key = \<lparr>sd_hostKey = key, sd_sessions = [], sd_offeredKeys = [], sd_refuse = 0, sd_closed = False\<rparr>"

definition RefuseNext :: "int \<Rightarrow> sshd \<Rightarrow> sshd" where
  "RefuseNext n s = s\<lparr>sd_refuse := n\<rparr>"

definition LastSession :: "sshd \<Rightarrow> sshd_session option" where
  "LastSession s = (if sd_sessions s = [] then None else Some (last (sd_sessions s)))"

definition sshd_Close :: "sshd \<Rightarrow> sshd" where
  "sshd_Close s = s\<lparr>sd_closed := True\<rparr>"

text \<open>A connection that arrives is served or, as often as was asked for, dropped; a closed server accepts none.\<close>

definition sshd_accept :: "sshd \<Rightarrow> bool \<times> sshd" where
  "sshd_accept s =
    (if sd_closed s then (False, s)
     else if 0 < sd_refuse s then (False, s\<lparr>sd_refuse := sd_refuse s - 1\<rparr>) else (True, s))"

text \<open>Every key is let in and noted.\<close>

definition sshd_login :: "string \<Rightarrow> sshd \<Rightarrow> sshd" where
  "sshd_login fingerprint s = s\<lparr>sd_offeredKeys := sd_offeredKeys s @ [fingerprint]\<rparr>"

section \<open>One session\<close>

definition new_session :: sshd_session where
  "new_session = \<lparr>ds_PTY = False, ds_Term = [], ds_Rows = 0, ds_Cols = 0, ds_Env = [], ds_Kind = [], ds_Command = [],
     ds_WindowChanges = [], ds_Signals = []\<rparr>"

datatype sshd_request =
    AskPty "(string \<times> 32 word \<times> 32 word) option"
  | AskEnv "(string \<times> string) option"
  | AskWindow "(32 word \<times> 32 word) option"
  | AskSignal "string option"
  | AskShell
  | AskExec "string option"
  | AskSubsystem "string option"
  | AskOther

text \<open>What is started for a request, if anything.\<close>

datatype sshd_run = RunShell | RunCommand string | RunSubsystem string

definition handle_request :: "sshd_request \<Rightarrow> sshd_session \<Rightarrow> bool \<times> sshd_session \<times> sshd_run option" where
  "handle_request q r =
    (case q of
       AskPty v \<Rightarrow>
         (True, (case v of None \<Rightarrow> r
           | Some (term, rows, cols) \<Rightarrow> r\<lparr>ds_PTY := True, ds_Term := term, ds_Rows := rows, ds_Cols := cols\<rparr>), None)
     | AskEnv v \<Rightarrow>
         (True, (case v of None \<Rightarrow> r | Some (name, value) \<Rightarrow> r\<lparr>ds_Env := AList.update name value (ds_Env r)\<rparr>), None)
     | AskWindow v \<Rightarrow>
         (True, (case v of None \<Rightarrow> r | Some dims \<Rightarrow> r\<lparr>ds_WindowChanges := ds_WindowChanges r @ [dims]\<rparr>), None)
     | AskSignal v \<Rightarrow>
         (False, (case v of None \<Rightarrow> r | Some sig \<Rightarrow> r\<lparr>ds_Signals := ds_Signals r @ [sig]\<rparr>), None)
     | AskShell \<Rightarrow> (True, r\<lparr>ds_Kind := ''shell''\<rparr>, Some RunShell)
     | AskExec v \<Rightarrow>
         (case v of None \<Rightarrow> (False, r, None)
          | Some cmd \<Rightarrow> (True, r\<lparr>ds_Kind := ''exec'', ds_Command := cmd\<rparr>, Some (RunCommand cmd)))
     | AskSubsystem v \<Rightarrow>
         (case v of None \<Rightarrow> (False, r, None)
          | Some name \<Rightarrow> (True, r\<lparr>ds_Kind := ''subsystem'', ds_Command := name\<rparr>, Some (RunSubsystem name)))
     | AskOther \<Rightarrow> (False, r, None))"

section \<open>What it runs\<close>

text \<open>What is sent on the channel: output, error output, the exit status, and the end.\<close>

datatype channel_event = ChOut string | ChErr string | ChExit "32 word" | ChClose

definition sendExit_to :: "int \<Rightarrow> channel_event list" where
  "sendExit_to code = [ChExit (of_int code), ChClose]"

definition cr_nl :: string where
  "cr_nl = [CHR 0x0D, nl]"

definition trim_crs :: "string \<Rightarrow> string" where
  "trim_crs l = rev (dropWhile (\<lambda>c. c = CHR 0x0D) (rev l))"

text \<open>The shell echoes each line until one says \<open>exit\<close>; its input is what arrives until the end.\<close>

fun shell_lines :: "string list \<Rightarrow> channel_event list" where
  "shell_lines [] = []"
| "shell_lines (l # ls) =
    (if trim_crs l = ''exit'' then [] else ChOut (''echo: '' @ trim_crs l @ cr_nl) # shell_lines ls)"

definition runShell :: "sshd_session \<Rightarrow> string \<Rightarrow> channel_event list" where
  "runShell r input =
    ChOut (''codespace ready (pty='' @ (if ds_PTY r then ''true'' else ''false'') @ '' term='' @ ds_Term r @ '')'' @ cr_nl) #
    shell_lines (scan_lines input) @ sendExit_to 0"

text \<open>
  \<open>Sscanf\<close> with \<open>%d\<close>: blanks, a sign, as many digits as there are; the number stays zero when
  there are none or they do not fit.
\<close>

definition scan_number :: "string \<Rightarrow> int" where
  "scan_number s =
    (let t = dropWhile (\<lambda>c. c \<in> {CHR '' '', CHR 0x09, CHR 0x0B, CHR 0x0C, CHR 0x0D}) s;
         neg = HasPrefix t ''-'';
         u = (if neg \<or> HasPrefix t ''+'' then drop 1 t else t)
     in (case read_digits 0 (takeWhile is_digit u) of
           None \<Rightarrow> 0
         | Some n \<Rightarrow>
            (let v = (if neg then - int n else int n)
             in if takeWhile is_digit u = [] \<or> v < - (2 ^ 63) \<or> 2 ^ 63 \<le> v then 0 else v)))"

definition runCommand :: "string \<Rightarrow> channel_event list" where
  "runCommand cmd =
    (if HasPrefix cmd ''echo '' then ChOut (TrimPrefix cmd ''echo '' @ [nl]) # sendExit_to 0
     else if cmd = ''whoami'' then ChOut (''vscode'' @ [nl]) # sendExit_to 0
     else if cmd = ''to-stderr'' then ChErr (''this is stderr'' @ [nl]) # sendExit_to 0
     else if HasPrefix cmd ''exit '' then sendExit_to (scan_number (TrimPrefix cmd ''exit ''))
     else if cmd = ''env'' then sendExit_to 0
     else ChErr (''sh: '' @ cmd @ '': command not found'' @ [nl]) # sendExit_to 127)"

definition runSubsystem :: "string \<Rightarrow> channel_event list" where
  "runSubsystem name = ChOut (''subsystem:'' @ name @ [nl]) # sendExit_to 0"

fun sshd_output :: "sshd_run \<Rightarrow> sshd_session \<Rightarrow> string \<Rightarrow> channel_event list" where
  "sshd_output RunShell r input = runShell r input"
| "sshd_output (RunCommand cmd) r input = runCommand cmd"
| "sshd_output (RunSubsystem name) r input = runSubsystem name"

text \<open>Whatever is run, the exit status is sent once, after all output, and the channel is closed after it.\<close>

definition well_ended :: "channel_event list \<Rightarrow> bool" where
  "well_ended es \<longleftrightarrow> (\<exists>out code. es = out @ [ChExit code, ChClose] \<and> (\<forall>e\<in>set out. \<exists>t. e = ChOut t \<or> e = ChErr t))"

lemma well_ended_simps [simp]:
  "well_ended (ChOut t # es) = well_ended es" "well_ended (ChErr t # es) = well_ended es" "well_ended (sendExit_to code)"
proof -
  have step: "well_ended (e # es) = well_ended es" if "\<exists>t. e = ChOut t \<or> e = ChErr t" for e
  proof
    assume "well_ended (e # es)"
    then obtain out code where o: "e # es = out @ [ChExit code, ChClose]" "\<forall>e\<in>set out. \<exists>t. e = ChOut t \<or> e = ChErr t"
      by (auto simp: well_ended_def)
    then show "well_ended es" using that by (cases out) (auto simp: well_ended_def)
  next
    assume "well_ended es"
    then obtain out code where "es = out @ [ChExit code, ChClose]" "\<forall>e\<in>set out. \<exists>t. e = ChOut t \<or> e = ChErr t"
      by (auto simp: well_ended_def)
    with that show "well_ended (e # es)" unfolding well_ended_def by (intro exI [of _ "e # out"] exI [of _ code]) auto
  qed
  show "well_ended (ChOut t # es) = well_ended es" "well_ended (ChErr t # es) = well_ended es" by (rule step, blast)+
  show "well_ended (sendExit_to code)" by (simp add: well_ended_def sendExit_to_def)
qed

lemma shell_well_ended: "well_ended (shell_lines ls @ sendExit_to 0)"
  by (induction ls) simp_all

lemma sshd_output_well_ended: "well_ended (sshd_output run r input)"
  by (cases run) (simp_all add: runShell_def runCommand_def runSubsystem_def shell_well_ended)

end
