(* ===== verification/GithubGateway.thy ===== *)
theory GithubGateway
  imports GithubSystem GatewayBackend FakeGh FakeSshd
begin

text \<open>
  One client of the SSH gateway, through every layer: \<open>OpenSession\<close> of the gateway core, the session
  registry, the lifecycle manager, the GitHub provider with its API client against the server of the test
  suite, and the tunnel into the codespace.
\<close>

section \<open>The codespace's side\<close>

text \<open>
  The world of the API server with what is on the other side of the tunnel: the environment of the stand-in
  for \<open>gh\<close>, the children that run it, the SSH server of the codespace, and the SSH clients in the tunnels with their sessions;
  and two facts of the gateway's machine: whether it has \<open>gh\<close>, and descriptors for pipes.
\<close>

record tunnel_world = fake_world +
  tw_env :: "string \<Rightarrow> string"
  tw_sshd :: sshd
  tw_procs :: "gh_outcome list"
  tw_clients :: "nat option list"
  tw_gh :: bool
  tw_pipes :: bool

text \<open>
  What the SSH library's client does, as its documentation says: each call sends one request to the
  server and reports whether it was accepted; window changes and signals want no reply.
\<close>

fun wire :: "session_op \<Rightarrow> sshd_request option" where
  "wire (OpSetenv name value) = Some (AskEnv (Some (name, value)))"
| "wire (OpPty term rows cols modes) = Some (AskPty (Some (term, of_int rows, of_int cols)))"
| "wire (OpSubsystem name) = Some (AskSubsystem (Some name))"
| "wire (OpStart cmd) = Some (AskExec (Some cmd))"
| "wire OpShell = Some AskShell"
| "wire (OpWindow rows cols) = Some (AskWindow (Some (of_int rows, of_int cols)))"
| "wire (OpSignal sig) = Some (AskSignal (Some sig))"
| "wire _ = None"

definition unanswered :: "session_op \<Rightarrow> bool" where
  "unanswered op1 \<longleftrightarrow> (\<exists>rows cols. op1 = OpWindow rows cols) \<or> (\<exists>sig. op1 = OpSignal sig)"

definition client_op :: "nat \<Rightarrow> session_op \<Rightarrow> tunnel_world \<Rightarrow> goerr option \<times> tunnel_world" where
  "client_op c op1 w =
    (let s = tw_sshd w
     in if op1 = OpNewSession then
          (None, w\<lparr>tw_sshd := s\<lparr>sd_sessions := sd_sessions s @ [new_session]\<rparr>,
             tw_clients := (tw_clients w)[c := Some (length (sd_sessions s))]\<rparr>)
        else
          (case (wire op1, tw_clients w ! c) of
             (Some q, Some i) \<Rightarrow>
               (case handle_request q (sd_sessions s ! i) of
                  (ok, r, _) \<Rightarrow>
                    (if ok \<or> unanswered op1 then None else Some (Errorf ''ssh: request failed''),
                     w\<lparr>tw_sshd := s\<lparr>sd_sessions := (sd_sessions s)[i := r]\<rparr>\<rparr>))
           | _ \<Rightarrow> (None, w)))"

definition lib_tunnel :: "nat \<Rightarrow> tunnel_world \<Rightarrow> tunnel_result \<times> tunnel_world" where
  "lib_tunnel k w =
    (case tw_procs w ! k of
       ProxiesTo addr \<Rightarrow>
         (case sshd_accept (tw_sshd w) of
            (True, s) \<Rightarrow> (TunnelKey (sd_hostKey s), w\<lparr>tw_sshd := s\<rparr>)
          | (False, s) \<Rightarrow> (TunnelFailed (Ext ''EOF'' None), w\<lparr>tw_sshd := s\<rparr>))
     | _ \<Rightarrow> (TunnelExited ''exit status 1'', w))"

text \<open>The child's tunnel, over which a login is possible: it reaches a server that has not been closed.\<close>

definition tunnel_up :: "nat \<Rightarrow> tunnel_world \<Rightarrow> bool" where
  "tunnel_up k w \<longleftrightarrow> (\<exists>addr. tw_procs w ! k = ProxiesTo addr) \<and> \<not> sd_closed (tw_sshd w)"

text \<open>
  What is documented of \<open>os/exec\<close> and of the SSH library, success and failure. A pipe can be made while there are descriptors; a program can
  be started that exists, on its pipes (the context of the command is not the client's, so its end does not matter); the wait for the
  host key ends with the client's context; a login over a tunnel that is up offers the client's key, whose
  fingerprint is \<open>fp\<close>, and this server accepts every key; the calls of a session are requests to the server.
\<close>

definition library_client :: "string \<Rightarrow> tunnel_world transport \<Rightarrow> bool" where
  "library_client fp X \<longleftrightarrow>
     (\<forall>kind w. if tw_pipes w then \<exists>h. x_pipe X kind w = (Inr h, w) else \<exists>e. x_pipe X kind w = (Inl e, w)) \<and>
     (\<forall>x args env ps w.
        if tw_gh w then x_start X x args env (OnPipes ps) w =
          (Inr (length (tw_procs w)), w\<lparr>tw_procs := tw_procs w @ [runFakeGH (tw_env w) (\<lambda>_. None) args]\<rparr>)
        else \<exists>e. x_start X x args env (OnPipes ps) w = (Inl e, w)) \<and>
     (\<forall>x k w. x_tunnel X x k w =
        (case ctx_err x (fw_now w) of Some e \<Rightarrow> (TunnelDone e, w) | None \<Rightarrow> lib_tunnel k w)) \<and>
     (\<forall>k user w.
        if tunnel_up k w then x_login X k user w =
          (LoggedIn (length (tw_clients w)),
           w\<lparr>tw_sshd := sshd_login fp (tw_sshd w), tw_clients := tw_clients w @ [None]\<rparr>)
        else \<exists>e. x_login X k user w = (LoginFailed e, w)) \<and>
     (\<forall>c op1 w. c < length (tw_clients w) \<longrightarrow> x_op X c op1 w = client_op c op1 w)"

lemma library_pipes:
  assumes "library_client fp X" and "tw_pipes w"
  shows "\<exists>hs. open_pipes X kinds w = (Inr hs, w)"
proof (induction kinds)
  case (Cons kind kinds)
  from assms obtain h where "x_pipe X kind w = (Inr h, w)" unfolding library_client_def by metis
  with Cons show ?case by (auto simp: open_pipes.simps)
qed (simp add: open_pipes.simps)

lemma library_start:
  assumes "library_client fp X" and "tw_gh w"
  shows "x_start X x args env (OnPipes ps) w =
    (Inr (length (tw_procs w)), w\<lparr>tw_procs := tw_procs w @ [runFakeGH (tw_env w) (\<lambda>_. None) args]\<rparr>)"
  using assms unfolding library_client_def by metis

lemma library_login:
  assumes "library_client fp X" and "tunnel_up k w"
  shows "x_login X k user w = (LoggedIn (length (tw_clients w)),
     w\<lparr>tw_sshd := sshd_login fp (tw_sshd w), tw_clients := tw_clients w @ [None]\<rparr>)"
  using assms unfolding library_client_def by metis

lemma library_tunnel: "library_client fp X \<Longrightarrow> in_time x (fw_now w) \<Longrightarrow> x_tunnel X x k w = lib_tunnel k w"
  by (simp add: library_client_def in_time_def)

lemma library_op: "library_client fp X \<Longrightarrow> c < length (tw_clients w) \<Longrightarrow> x_op X c op1 w = client_op c op1 w"
  by (simp add: library_client_def)

text \<open>
  All is well on that side: \<open>gh\<close> can be run and has the tunnel, the server takes connections.
\<close>

definition side_ready :: "tunnel_world \<Rightarrow> bool" where
  "side_ready w \<longleftrightarrow> tw_gh w \<and> tw_pipes w \<and>
     tw_env w ''GATEWAY_FAKE_GH_FAIL'' = [] \<and> tw_env w ''GATEWAY_FAKE_GH_NO_STDIO'' \<noteq> ''1'' \<and>
     \<not> sd_closed (tw_sshd w) \<and> sd_refuse (tw_sshd w) \<le> 0"

section \<open>A session in the codespace is what was asked for\<close>

definition with_session :: "nat \<Rightarrow> sshd_session list \<Rightarrow> sshd_session \<Rightarrow> tunnel_world \<Rightarrow> tunnel_world" where
  "with_session c olds r w = w\<lparr>tw_sshd := (tw_sshd w)\<lparr>sd_sessions := olds @ [r]\<rparr>,
     tw_clients := (tw_clients w)[c := Some (length olds)]\<rparr>"

lemma with_session_clients [simp]: "length (tw_clients (with_session c olds r w)) = length (tw_clients w)"
  by (simp add: with_session_def)

lemma client_op_new:
  "client_op c OpNewSession w = (None, with_session c (sd_sessions (tw_sshd w)) new_session w)"
  by (simp add: client_op_def with_session_def Let_def)

lemma client_op_request:
  assumes "c < length (tw_clients w)" and "wire op1 \<noteq> None" and "fst (handle_request (the (wire op1)) r)"
  shows "client_op c op1 (with_session c olds r w) =
    (None, with_session c olds (fst (snd (handle_request (the (wire op1)) r))) w)"
  using assms by (cases op1) (auto simp: client_op_def with_session_def Let_def split: prod.split)

lemma client_op_pipe:
  "op1 \<in> {OpStdinPipe, OpStdoutPipe, OpStderrPipe} \<Longrightarrow> client_op c op1 w = (None, w)"
  by (auto simp: client_op_def Let_def)

definition add_env :: "(string \<times> string) list \<Rightarrow> sshd_session \<Rightarrow> sshd_session" where
  "add_env env r = r\<lparr>ds_Env := fold (\<lambda>(k, v). AList.update k v) env (ds_Env r)\<rparr>"

lemma set_env_on:
  assumes "library_client fp X" and "c < length (tw_clients w)"
  shows "set_env X c env (with_session c olds r w) = with_session c olds (add_env env r) w"
proof (induction env arbitrary: r)
  case Nil
  show ?case by (simp add: add_env_def)
next
  case (Cons kv env)
  obtain k v where kv: "kv = (k, v)" by (cases kv)
  have "client_op c (OpSetenv k v) (with_session c olds r w) = (None, with_session c olds (r\<lparr>ds_Env := AList.update k v (ds_Env r)\<rparr>) w)"
    by (simp add: client_op_request [OF assms(2)] handle_request_def)
  with Cons [of "r\<lparr>ds_Env := AList.update k v (ds_Env r)\<rparr>"] library_op [OF assms(1)] assms(2) show ?case
    by (simp add: kv add_env_def)
qed

definition asked_for :: "connect_request \<Rightarrow> sshd_session" where
  "asked_for req =
    (let (kind, cmd) =
       (if req_Subsystem req \<noteq> [] then (''subsystem'', req_Subsystem req)
        else if req_Command req \<noteq> [] then (''exec'', req_Command req) else (''shell'', []))
     in \<lparr>ds_PTY = req_PTY req, ds_Term = (if req_PTY req then termOr (req_Term req) else []),
         ds_Rows = (if req_PTY req then of_int (dimOr (req_Rows req) 24) else 0),
         ds_Cols = (if req_PTY req then of_int (dimOr (req_Cols req) 80) else 0), ds_Env = req_Env req,
         ds_Kind = kind, ds_Command = cmd, ds_WindowChanges = [], ds_Signals = []\<rparr>)"

text \<open>Every session ends up as the request says, and no request of it is refused.\<close>

lemma fold_env:
  "distinct (map fst env) \<Longrightarrow> fst ` set env \<inter> fst ` set base = {} \<Longrightarrow>
    fold (\<lambda>(k, v). AList.update k v) env base = base @ env"
proof (induction env arbitrary: base)
  case (Cons kv env)
  obtain k v where kv: "kv = (k, v)" by (cases kv)
  have "AList.update k v base = base @ [(k, v)]" using Cons.prems by (intro update_fresh) (auto simp: kv)
  moreover have "fst ` set env \<inter> fst ` set (base @ [(k, v)]) = {}" using Cons.prems by (auto simp: kv)
  ultimately show ?case using Cons by (simp add: kv)
qed simp

lemma startSession_on:
  assumes L: "library_client fp X" and c: "c < length (tw_clients w)" and "distinct (map fst (req_Env req))"
  shows "startSession X c req w = (None, with_session c (sd_sessions (tw_sshd w)) (asked_for req) w)"
proof -
  let ?olds = "sd_sessions (tw_sshd w)"
  have x: "x_op X c op1 w = client_op c op1 w" "x_op X c op1 (with_session c olds r w) = client_op c op1 (with_session c olds r w)"
    for op1 olds r
    using library_op [OF L] c by simp_all
  have env: "add_env (req_Env req) new_session = new_session\<lparr>ds_Env := req_Env req\<rparr>"
    using fold_env [OF assms(3), of "[]"] by (simp add: add_env_def new_session_def)
  note ask = client_op_request [OF c, where olds = ?olds] and pipe = client_op_pipe
  show ?thesis
    unfolding startSession_def x client_op_new prod.case option.case set_env_on [OF L c] env session_ops_def
    by (simp add: x ask pipe handle_request_def new_session_def asked_for_def)
qed

section \<open>The tunnel\<close>

text \<open>The provider can connect: \<open>gh\<close> is there, the login name is configured, the host key is the expected one.\<close>

definition may_connect :: "gh_provider \<Rightarrow> string \<Rightarrow> host_key \<Rightarrow> bool" where
  "may_connect p name key \<longleftrightarrow> gh_Available (gp_gh p) \<and> gf_SSHUser (gp_cfg p) \<noteq> [] \<and>
     gp_connector p \<in> {''auto'', ''stdio''} \<and>
     fst (hk_check (gf_HostKeyPolicy (gp_cfg p)) name key (gp_hostKeys p)) = None"

lemma settings_keep:
  assumes "settings p' = settings p"
  shows "may_connect p' name key = may_connect p name key" "gp_cfg p' = gp_cfg p" "gp_keys p' = gp_keys p"
  using assms by (cases p; cases p'; simp add: settings_def may_connect_def)+

lemma gh_opens_tunnel:
  "side_ready w \<Longrightarrow> name \<noteq> [] \<Longrightarrow>
    runFakeGH (tw_env w) look (stdio_args name p) = ProxiesTo (tw_env w ''GATEWAY_FAKE_GH_SSHD'')"
  using stdio_understood [of name p] by (simp add: runFakeGH_def fakeCodespaceSSH_def side_ready_def stdio_args_def)

lemma connect_on_side:
  assumes L: "library_client (kp_fingerprint (gp_keys p)) X" and ready: "side_ready w" and may: "may_connect p name (sd_hostKey (tw_sshd w))"
    and time: "in_time x (fw_now w)" and name: "name \<noteq> []" and env: "distinct (map fst (req_Env req))"
  shows "\<exists>p' w'. gh_Connect T X x name req p w =
      (Inr (new_conn name (length (tw_procs w)) (ViaStdio (gf_SSHUser (gp_cfg p)) (length (tw_clients w)))), p', w') \<and>
    fw_now w' = fw_now w \<and> fw_hub w' = fw_hub w \<and>
    sd_sessions (tw_sshd w') = sd_sessions (tw_sshd w) @ [asked_for req] \<and>
    sd_offeredKeys (tw_sshd w') = sd_offeredKeys (tw_sshd w) @ [kp_fingerprint (gp_keys p)]"
proof -
  let ?u = "gf_SSHUser (gp_cfg p)" and ?p = "tell req tunnel_notice p" and ?key = "sd_hostKey (tw_sshd w)"
  let ?w1 = "w\<lparr>tw_procs := tw_procs w @ [ProxiesTo (tw_env w ''GATEWAY_FAKE_GH_SSHD'')]\<rparr>"
  let ?w2 = "?w1\<lparr>tw_sshd := sshd_login (kp_fingerprint (gp_keys p)) (tw_sshd w), tw_clients := tw_clients w @ [None]\<rparr>"
  let ?w3 = "with_session (length (tw_clients w)) (sd_sessions (tw_sshd ?w2)) (asked_for req) ?w2"
  let ?c = "new_conn name (length (tw_procs w)) (ViaStdio ?u (length (tw_clients w)))"
  have same: "gp_cfg ?p = gp_cfg p" "gp_hostKeys ?p = gp_hostKeys p" by (simp_all add: tell_def split: option.split)
  have u: "sshUserFor T x name req p w = (Inr (?u, False), p, w)" using may by (simp add: sshUserFor_def may_connect_def)
  obtain f where f: "hk_check (gf_HostKeyPolicy (gp_cfg p)) name ?key (gp_hostKeys p) = (None, f)"
    using may by (metis may_connect_def prod.collapse)
  have tun: "x_tunnel X x (length (tw_procs w)) ?w1 = (TunnelKey ?key, ?w1)"
    using library_tunnel [OF L, of x ?w1] time ready by (simp add: lib_tunnel_def sshd_accept_def side_ready_def)
  have log: "x_login X (length (tw_procs w)) user ?w1 = (LoggedIn (length (tw_clients w)), ?w2)" for user
    using library_login [OF L, of "length (tw_procs w)" ?w1] ready by (simp add: tunnel_up_def side_ready_def)
  have sess: "startSession X (length (tw_clients w)) req ?w2 = (None, ?w3)"
    by (rule startSession_on [OF L _ env]) simp
  have "connect_tunnel X x name req ?u False (length (tw_procs w)) ?p ?w1 = (Inr ?c, ?p\<lparr>gp_hostKeys := f\<rparr>, ?w3)"
    by (simp add: connect_tunnel_def connect_login_def tun log sess same f)
  moreover have "tw_pipes w" using ready by (simp add: side_ready_def)
  then obtain hs where "open_pipes X [PipeIn, PipeOut] w = (Inr hs, w)"
    using library_pipes [OF L] by blast
  moreover have "x_start X x (stdio_args name ?p) (command_env T (gp_gh ?p)) (OnPipes hs) w = (Inr (length (tw_procs w)), ?w1)"
    using library_start [OF L, of w] gh_opens_tunnel [OF ready name] ready by (simp add: side_ready_def)
  ultimately have "connectStdio T X x name req p w = (Inr ?c, ?p\<lparr>gp_hostKeys := f\<rparr>, ?w3)"
    by (simp add: connectStdio_def u Let_def)
  then have "gh_Connect T X x name req p w = (Inr ?c, ?p\<lparr>gp_hostKeys := f\<rparr>, ?w3)"
    using may by (auto simp: gh_Connect_def may_connect_def)
  then show ?thesis by (simp add: with_session_def sshd_login_def)
qed

section \<open>Waiting in the gateway\<close>

text \<open>
  The call of a caller who is the first and whose context lasts long enough: the work runs under the budget of
  \<open>Ensure\<close> and until the caller leaves.
\<close>

lemma in_time_until_left: "ctx_cancel oc = None \<Longrightarrow> in_time (until_left x oc) t \<longleftrightarrow> in_time oc t \<and> in_time x t"
  by (auto simp: in_time_def ctx_err_def until_left_def ctx_end_def split: option.splits if_splits)

lemma Ensure_alone_cold:
  assumes "phase_at cs ''Shutdown'' (int n) c w" and "gp_api p = c" and "stamp_ok stamp" and "\<not> fk_PendingOperation cs"
    and "0 < PollInterval (m_opts m)" and "(int n + 1) * PollInterval (m_opts m) < StartTimeout (m_opts m)"
    and "0 \<le> CreateTimeout (m_opts m)" and "map_of (m_ops m) (fk_Name cs) = None"
    and "in_time x (fw_now w + (int n + 1) * PollInterval (m_opts m))"
  obtains env m' p' w' where
    "Ensure_alone (github_prov T (hub_of stamp c) X p0) x (fk_Name cs) fn m (p, l, w) = Some (Inr env, m', p', l, w')"
    and "env_ID env = fk_Name cs" "m_opts m' = m_opts m" "settings p' = settings p"
    and "hub_State (fk_Name cs) (fw_hub w') = ''Available''" "starts (fk_Name cs) w' = starts (fk_Name cs) w + 1"
    and "others_kept (fk_Name cs) w w'" "fw_now w' = fw_now w + (int n + 1) * PollInterval (m_opts m)"
proof -
  let ?P = "github_prov T (hub_of stamp c) X p0" and ?h = "fk_Name cs"
  have h: "?h \<noteq> []" using assms(1) by (simp add: phase_at_def)
  obtain k j token oc m1 where en: "ensure_enter (w_now ?P (p, l, w)) x ?h fn m = (k, j, token, oc, m1)" by (metis prod_cases5)
  then have j: "\<not> j" and o: "m_opts m1 = m_opts m"
    and oc: "oc = WithTimeout (WithoutCancel x) (ensure_budget (m_opts m)) (fw_now w)"
    using assms(8) by (auto simp: ensure_enter_def Let_def split: prod.splits)
  have "in_time (until_left x oc) (fw_now w + (int n + 1) * PollInterval (m_opts m1))"
  proof (subst in_time_until_left)
    show "ctx_cancel oc = None" by (simp add: oc WithTimeout_def WithoutCancel_def)
    have "in_time (WithoutCancel x) t" for t by (simp add: in_time_def ctx_err_def ctx_end_def WithoutCancel_def)
    then show "in_time oc (fw_now w + (int n + 1) * PollInterval (m_opts m1)) \<and> in_time x (fw_now w + (int n + 1) * PollInterval (m_opts m1))"
      using assms(6,7,9) by (auto simp: oc o in_time_WithTimeout ensure_budget_def second_def)
  qed
  then obtain env m2 p' w' where E: "ensure ?P (until_left x oc) ?h m1 (p, l, w) = Some (Inr env, m2, p', l, w')"
    and e: "env_ID env = ?h" "settings p' = settings p" "hub_State ?h (fw_hub w') = ''Available''"
      "starts ?h w' = starts ?h w + 1" "others_kept ?h w w'"
      "fw_now w' = fw_now w + (int n + 1) * PollInterval (m_opts m)"
    using ensure_cold [of cs n c w p stamp m1 "until_left x oc" T X p0 l] assms(1-6) o by auto
  have alive: "w_err ?P x (p', l, w') = None"
    using assms(9) e(6) by (simp add: github_prov_def fake_net_def in_time_def)
  have A: "Ensure_alone ?P x ?h fn m (p, l, w) =
      Some (Inr env, ensure_leave k token (release ?h k False (close_done k (op_cancel k (run_finish ?h k (Inr env) m2)))), p', l, w')"
    using h en j E alive by (simp add: Ensure_alone_def runEnsure_def)
  show thesis
    by (rule that [OF A]) (use e Ensure_alone_keeps(1) [OF A] in simp_all)
qed

section \<open>A session on a cold codespace\<close>

lemma deliver_opts [simp]: "m_opts (deliver fn msg m) = m_opts m" "m_ops (deliver fn msg m) = m_ops m"
  by (simp_all add: deliver_def split: option.split)

lemma hinted:
  "TrimSpace hint = name \<Longrightarrow> name \<noteq> [] \<Longrightarrow> validEnvironmentName name = None \<Longrightarrow>
    ResolveEnvironment P c hint fn m w = (Inr name, m, w)"
  by (simp add: ResolveEnvironment_def Let_def)

lemma connect_first:
  assumes "w_Connect P (WithTimeout c (ConnectTimeout (m_opts m)) (w_now P w)) (env_ID env) req w = (Inr conn, w1)"
  shows "connect_from P c handle req (Suc n) 0 b env e m w =
    Some (Inr conn, env, bump (w_now P w1) handle (\<lambda>st. st\<lparr>es_connects := es_connects st + 1\<rparr>) m, w1)"
  using assms by (simp add: connect_from.simps)


definition not_full :: "session_mgr \<Rightarrow> string \<Rightarrow> bool" where
  "not_full s h \<longleftrightarrow> (0 < maxTotal s \<longrightarrow> Total s < maxTotal s) \<and> (0 < maxPerEnv s \<longrightarrow> CountFor s h < maxPerEnv s)"

lemma not_full_opens: "not_full s (i_Environment i) \<Longrightarrow> \<exists>r s'. Open i now s = (Inr r, s')"
  by (auto simp: not_full_def Open_def Total_def CountFor_def Let_def)

lemma same_side:
  assumes "others_kept name w w'"
  shows "tw_env w' = tw_env w" "tw_sshd w' = tw_sshd w" "tw_procs w' = tw_procs w" "tw_clients w' = tw_clients w"
    "tw_gh w' = tw_gh w" "tw_pipes w' = tw_pipes w"
  using assms by (cases w; cases w'; simp add: others_kept_def)+

text \<open>The lifecycle part: \<open>Connect\<close> of the manager on a codespace that is shut down.\<close>

lemma Connect_cold:
  assumes cold: "phase_at cs ''Shutdown'' (int n) c w" "gp_api p = c" "stamp_ok stamp" "\<not> fk_PendingOperation cs"
    and time: "0 < PollInterval (m_opts m)" "(int n + 1) * PollInterval (m_opts m) < StartTimeout (m_opts m)"
      "0 \<le> CreateTimeout (m_opts m)" "0 < ConnectTimeout (m_opts m)" "in_time x (fw_now w + (int n + 1) * PollInterval (m_opts m))"
      and idle: "map_of (m_ops m) (fk_Name cs) = None"
    and side: "library_client (kp_fingerprint (gp_keys p)) X" "side_ready w" "may_connect p (fk_Name cs) (sd_hostKey (tw_sshd w))"
    and env: "distinct (map fst (req_Env req))"
  shows "\<exists>e m' p' w'. Connect_env (github_prov T (hub_of stamp c) X p0) x (fk_Name cs) req m (p, l, w) =
      Some (Inr (length l), e, m', p',
        l @ [new_conn (fk_Name cs) (length (tw_procs w)) (ViaStdio (gf_SSHUser (gp_cfg p)) (length (tw_clients w)))], w') \<and>
    env_ID e = fk_Name cs \<and> hub_State (fk_Name cs) (fw_hub w') = ''Available'' \<and>
    starts (fk_Name cs) w' = starts (fk_Name cs) w + 1 \<and>
    fw_now w' = fw_now w + (int n + 1) * PollInterval (m_opts m) \<and>
    sd_sessions (tw_sshd w') = sd_sessions (tw_sshd w) @ [asked_for req] \<and>
    sd_offeredKeys (tw_sshd w') = sd_offeredKeys (tw_sshd w) @ [kp_fingerprint (gp_keys p)]"
proof -
  let ?P = "github_prov T (hub_of stamp c) X p0" and ?h = "fk_Name cs"
  have h: "?h \<noteq> []" using cold(1) by (simp add: phase_at_def)
  obtain e m1 p1 w1 where E: "Ensure_alone ?P x ?h (req_Progress req) m (p, l, w) = Some (Inr e, m1, p1, l, w1)"
    and e: "env_ID e = ?h" "m_opts m1 = m_opts m" "settings p1 = settings p" "hub_State ?h (fw_hub w1) = ''Available''"
      "starts ?h w1 = starts ?h w + 1" "others_kept ?h w w1" "fw_now w1 = fw_now w + (int n + 1) * PollInterval (m_opts m)"
    by (rule Ensure_alone_cold [of cs n c w p stamp m x T X p0 "req_Progress req" l]) (use cold time idle in simp_all)
  note s = settings_keep [OF e(3)] and t = same_side [OF e(6)]
  let ?m2 = "setPhase (fw_now w1) ?h PhaseConnecting ''opening session'' m1"
  let ?x = "WithTimeout x (ConnectTimeout (m_opts ?m2)) (fw_now w1)"
  let ?c = "new_conn ?h (length (tw_procs w)) (ViaStdio (gf_SSHUser (gp_cfg p)) (length (tw_clients w)))"
  have "side_ready w1" using side(2) by (simp add: side_ready_def t)
  moreover have "in_time ?x (fw_now w1)" using time(4,5) e(2,7) by (simp add: in_time_WithTimeout)
  ultimately obtain p2 w2 where G: "gh_Connect T X ?x ?h req p1 w1 = (Inr ?c, p2, w2)"
    and g: "fw_now w2 = fw_now w1" "fw_hub w2 = fw_hub w1" "sd_sessions (tw_sshd w2) = sd_sessions (tw_sshd w) @ [asked_for req]"
      "sd_offeredKeys (tw_sshd w2) = sd_offeredKeys (tw_sshd w) @ [kp_fingerprint (gp_keys p)]"
    using connect_on_side [of p1 X w1 ?h ?x req T] side h env by (auto simp: s t)
  have "w_Connect ?P (WithTimeout x (ConnectTimeout (m_opts ?m2)) (w_now ?P (p1, l, w1))) (env_ID e) req (p1, l, w1) =
      (Inr (length l), p2, l @ [?c], w2)"
    using G e(1) by (simp add: github_prov_def fake_net_def)
  from connect_first [OF this] E
  have "Connect_env ?P x ?h req m (p, l, w) = Some (Inr (length l), e,
      bump (fw_now w2) ?h (\<lambda>st. st\<lparr>es_connects := es_connects st + 1\<rparr>) ?m2, p2, l @ [?c], w2)"
    by (simp add: Connect_env_def)
  then show ?thesis using e g by (simp add: starts_def)
qed

text \<open>
  C5: A client's session on a cold codespace, through every layer. The client names a codespace that is shut down on
  GitHub; \<open>OpenSession\<close> registers the session, has the codespace started by exactly one request (through the provider and
  its API client, as JSON over HTTP), waits exactly \<open>n + 1\<close> poll intervals until the server reports it available, opens the tunnel by running \<open>gh\<close>,
  logs in with the gateway's key, and the codespace's SSH server has then exactly one session more, which is what the client asked for: kind,
  command, terminal and environment. The session is counted, and the phase is CONNECTED. The client's context must last until the codespace is
  available (a client that leaves before that gets an error, \<open>Ensure_alone_left\<close>).
\<close>

theorem cold_session:
  assumes "phase_at cs ''Shutdown'' (int n) c w" and "gp_api p = c" and "stamp_ok stamp" and "\<not> fk_PendingOperation cs"
    and "0 < PollInterval (m_opts (gw_life g))" and "(int n + 1) * PollInterval (m_opts (gw_life g)) < StartTimeout (m_opts (gw_life g))"
    and "0 \<le> CreateTimeout (m_opts (gw_life g))" and "map_of (m_ops (gw_life g)) (fk_Name cs) = None"
    and "library_client (kp_fingerprint (gp_keys p)) X" and "side_ready w" and "may_connect p (fk_Name cs) (sd_hostKey (tw_sshd w))"
    and "TrimSpace (or_EnvironmentHint req) = fk_Name cs" and "validEnvironmentName (fk_Name cs) = None"
    and "distinct (map fst (req_Env (or_Connect req)))"
    and "sess_inv (gw_sess g)" and "room (gw_sess g)" and "not_full (gw_sess g) (fk_Name cs)"
    and "0 < ConnectTimeout (m_opts (gw_life g))" and "in_time x (fw_now w + (int n + 1) * PollInterval (m_opts (gw_life g)))"
  shows "\<exists>res g' p' conn w'.
    OpenSession (github_prov T (hub_of stamp c) X p0) x req g (p, l, w) = Some (Inr res, g', p', l @ [conn], w') \<and>
    ores_Environment res = fk_Name cs \<and> ores_Conn res = length l \<and>
    conn = new_conn (fk_Name cs) (length (tw_procs w)) (ViaStdio (gf_SSHUser (gp_cfg p)) (length (tw_clients w))) \<and>
    sd_sessions (tw_sshd w') = sd_sessions (tw_sshd w) @ [asked_for (or_Connect req)] \<and>
    sd_offeredKeys (tw_sshd w') = sd_offeredKeys (tw_sshd w) @ [kp_fingerprint (gp_keys p)] \<and>
    hub_State (fk_Name cs) (fw_hub w') = ''Available'' \<and> starts (fk_Name cs) w' = starts (fk_Name cs) w + 1 \<and>
    fw_now w' = fw_now w + (int n + 1) * PollInterval (m_opts (gw_life g)) \<and>
    Total (gw_sess g') = Total (gw_sess g) + 1 \<and> es_phase (state_of (fk_Name cs) (gw_life g')) = PhaseConnected"
proof -
  let ?P = "github_prov T (hub_of stamp c) X p0" and ?h = "fk_Name cs" and ?rq = "or_Connect req"
  let ?m = "deliver (req_Progress ?rq) preparing_notice (gw_life g)"
  have h: "?h \<noteq> []" using assms(1) by (simp add: phase_at_def)
  have R: "ResolveEnvironment ?P x (or_EnvironmentHint req) (req_Progress ?rq) ?m (p, l, w) = (Inr ?h, ?m, p, l, w)"
    by (rule hinted) (use assms(12,13) h in simp_all)
  obtain r s1 where O: "Open (session_info req ?h) (w_now ?P (p, l, w)) (gw_sess g) = (Inr r, s1)"
    using not_full_opens [of "gw_sess g" "session_info req ?h" "w_now ?P (p, l, w)"] assms(17) by (auto simp: session_info_def)
  obtain e m2 p2 w2 where C: "Connect_env ?P x ?h ?rq ?m (p, l, w) = Some (Inr (length l), e, m2, p2,
      l @ [new_conn ?h (length (tw_procs w)) (ViaStdio (gf_SSHUser (gp_cfg p)) (length (tw_clients w)))], w2)"
    and c: "env_ID e = ?h" "hub_State ?h (fw_hub w2) = ''Available''" "starts ?h w2 = starts ?h w + 1"
      "fw_now w2 = fw_now w + (int n + 1) * PollInterval (m_opts ?m)"
      "sd_sessions (tw_sshd w2) = sd_sessions (tw_sshd w) @ [asked_for ?rq]"
      "sd_offeredKeys (tw_sshd w2) = sd_offeredKeys (tw_sshd w) @ [kp_fingerprint (gp_keys p)]"
    using Connect_cold [of cs n c w p stamp ?m x X ?rq T p0 l] assms(1-11,14,18,19) by auto
  let ?res = "\<lparr>ores_Conn = length l, ores_Environment = env_ID e, ores_Session = r, ores_Handle = ?h\<rparr>"
  obtain g' where S: "OpenSession ?P x req g (p, l, w) = Some (Inr ?res, g', p2,
      l @ [new_conn ?h (length (tw_procs w)) (ViaStdio (gf_SSHUser (gp_cfg p)) (length (tw_clients w)))], w2)"
    using R O C by (simp add: OpenSession_def Let_def)
  from OpenSession_opened [OF S assms(15,16)] S c show ?thesis by auto
qed


section \<open>An instance\<close>

text \<open>A transport that behaves as documented, and everything that takes part in the example.\<close>

definition library_transport :: "string \<Rightarrow> tunnel_world transport" where
  "library_transport fp =
    \<lparr>x_ptySupported = True, x_file = (\<lambda>f w. (Inr 0, w)),
     x_pipe = (\<lambda>kind w. (if tw_pipes w then Inr 0 else Inl ''too many open files'', w)),
     x_start = (\<lambda>x args env io w.
       if tw_gh w then (Inr (length (tw_procs w)), w\<lparr>tw_procs := tw_procs w @ [runFakeGH (tw_env w) (\<lambda>_. None) args]\<rparr>)
       else (Inl (Errorf ''no such file or directory''), w)),
     x_early = (\<lambda>k w. (None, w)),
     x_tunnel = (\<lambda>x k w. case ctx_err x (fw_now w) of Some e \<Rightarrow> (TunnelDone e, w) | None \<Rightarrow> lib_tunnel k w), x_refuse = (\<lambda>e. e),
     x_login = (\<lambda>k user w.
       if \<not> sd_closed (tw_sshd w) \<and> (case tw_procs w ! k of ProxiesTo _ \<Rightarrow> True | _ \<Rightarrow> False) then (LoggedIn (length (tw_clients w)),
         w\<lparr>tw_sshd := sshd_login fp (tw_sshd w), tw_clients := tw_clients w @ [None]\<rparr>)
       else (LoginFailed (Errorf ''EOF''), w)),
     x_late_key = (\<lambda>k w. (None, w)), x_late = (\<lambda>k user w. (None, w)),
     x_op = client_op, x_cancel = (\<lambda>k w. w), x_stderr = (\<lambda>w. []), x_wait = (\<lambda>c w. (WaitNil, w)),
     x_exit = (\<lambda>k w. (Some 0, w)), x_done = (\<lambda>k w. (True, w)), x_kill = (\<lambda>k w. w)\<rparr>"

lemma library_transport: "library_client fp (library_transport fp)"
  by (auto simp: library_client_def library_transport_def tunnel_up_def split: gh_outcome.splits)

definition sleeping_box :: fake_codespace where
  "sleeping_box = cold_box\<lparr>fk_Name := ''box''\<rparr>"

definition sleeping_world :: tunnel_world where
  "sleeping_world = \<lparr>fw_now = 0, fw_hub = hub_Add sleeping_box (NewGitHub (ac_token client0)),
     tw_env = (\<lambda>_. []), tw_sshd = NewSSHD \<lparr>hk_line = ''ssh-ed25519 AAAA'', hk_fingerprint = ''SHA256:x''\<rparr>,
     tw_procs = [], tw_clients = [], tw_gh = True, tw_pipes = True\<rparr>"

definition ready_provider :: gh_provider where
  "ready_provider = provider0\<lparr>gp_cfg := no_config\<lparr>gf_SSHUser := ''vscode''\<rparr>\<rparr>"

definition gateway1 :: gateway where
  "gateway1 = gateway0\<lparr>gw_life := mgr1\<rparr>"

lemma cold_session_witness:
  "\<forall>T. \<exists>res g' p' conn w'.
    OpenSession (github_prov T (hub_of (\<lambda>t. ''2026-01-01T00:00:00Z'') client0) (library_transport ''f'') ready_provider) ctx1 open0 gateway1
      (ready_provider, [], sleeping_world) = Some (Inr res, g', p', [conn], w') \<and>
    ores_Environment res = ''box'' \<and> sd_sessions (tw_sshd w') = [asked_for (or_Connect open0)] \<and>
    starts ''box'' w' = 1 \<and> fw_now w' = 8 * second"
proof -
  have "phase_at sleeping_box ''Shutdown'' (int 3) client0 sleeping_world"
    by (simp add: phase_at_def sleeping_world_def sleeping_box_def cold_box_def calm_def fine_def NewGitHub_def hub_Add_def client0_def
        ascii_def byte_def second_def)
  moreover have "stamp_ok (\<lambda>t. ''2026-01-01T00:00:00Z'')" by (simp add: stamp_ok_def ascii_def byte_def)
  moreover have "PollInterval (m_opts mgr1) = 2 * second" "StartTimeout (m_opts mgr1) = 300 * second" "0 \<le> CreateTimeout (m_opts mgr1)"
    "0 < ConnectTimeout (m_opts mgr1)" "m_ops mgr1 = []" by (simp_all add: lc_eval second_def)
  moreover have "fw_now sleeping_world = 0" "fk_Name sleeping_box = ''box''" "\<not> fk_PendingOperation sleeping_box" "gp_api ready_provider = client0"
    "sd_sessions (tw_sshd sleeping_world) = []" "starts ''box'' sleeping_world = 0"
    by (simp_all add: sleeping_world_def sleeping_box_def cold_box_def ready_provider_def provider0_def NewSSHD_def starts_def NewGitHub_def hub_Add_def getz_def)
  moreover have "side_ready sleeping_world" by (simp add: side_ready_def sleeping_world_def NewSSHD_def)
  moreover have "kp_fingerprint (gp_keys ready_provider) = ''f''" by (simp add: ready_provider_def provider0_def)
  moreover have "may_connect ready_provider ''box'' (sd_hostKey (tw_sshd sleeping_world))"
    by (simp add: may_connect_def ready_provider_def provider0_def no_config_def gh_Available_def hk_check_def hk_load_def hk_append_def
        fresh_file_def)
  moreover have "TrimSpace ''box'' = ''box''" by (rule TrimSpace_trimmed, rule trimmed_plain, simp_all add: plain_def)
  moreover have "validEnvironmentName ''box'' = None" by (simp add: validEnvironmentName_def name_char_def)
  moreover have "gw_life gateway1 = mgr1" "gw_sess gateway1 = gw_sess gateway0" by (simp_all add: gateway1_def)
  moreover have "not_full (gw_sess gateway0) ''box''"
    by (simp add: not_full_def gateway0_def NewManager_def Total_def CountFor_def getz_def)
  moreover have "or_EnvironmentHint open0 = ''box''" "req_Env (or_Connect open0) = []" by (simp_all add: open0_def)
  ultimately show ?thesis
    using cold_session [of sleeping_box 3 client0 sleeping_world ready_provider "\<lambda>t. ''2026-01-01T00:00:00Z''" gateway1
        "library_transport ''f''" open0 ctx1 _ ready_provider "[]"] library_transport [of "''f''"] gateway0_facts(1,2)
    by (fastforce simp: second_def)
qed

end
