(* ===== verification/SshPump.thy ===== *)
theory SshPump
  imports SshSession Lifecycle
begin

text \<open>
  What \<open>pump\<close> of \<open>ssh/forward.go\<close> does once a session is open: three goroutines copy the client's
  input to the environment and its output and error output back, and the first of them, when the output is at its
  end, reports how the remote session ended. Any interleaving of them, of the client, of the environment and
  of the clock is a run of the step relation.
\<close>

section \<open>State\<close>

text \<open>
  A stream with what its source has produced so far, whether that was all, and how much of it a copier has
  read. \<open>io.Copy\<close> reads a piece and then writes it; a write may send the piece in parts and blocks while there
  is no room for more. Between a read and the end of the write the copier holds what is still to be written
  (\<open>WriteOut\<close>, \<open>pu_errHeld\<close>, \<open>pu_inHeld\<close>). What the client lets the gateway send, output and error output together, is
  the channel's window (\<open>pu_room\<close>), which the client opens further as it reads. \<open>conn.Wait\<close> returns when the remote session is over
  (\<open>pu_ended\<close>); what it then gives is fixed with the run. The messages the client gets are kept in the order in which they are sent.
\<close>

record source =
  so_got :: string
  so_over :: bool
  so_read :: nat

datatype chan_msg = MOut string | MErr string | MExit exit_msg | MEOF | MClose

datatype pump_pc =
    CopyOut | WriteOut string | Flush int | Waiting | Exiting exit_msg | Ending exit_msg | Closing exit_msg | Finished exit_msg

record pump =
  pu_now :: int
  pu_out :: source
  pu_err :: source
  pu_in :: source
  pu_room :: nat
  pu_ended :: bool
  pu_hasErr :: bool
  pu_wait :: "exit_status \<times> goerr option"
  pu_main :: pump_pc
  pu_errDone :: bool
  pu_errHeld :: string
  pu_inDone :: bool
  pu_inHeld :: string
  pu_fed :: string
  pu_fedClosed :: bool
  pu_sent :: "chan_msg list"
  pu_broken :: bool
  pu_timedOut :: bool

definition pump_start :: "pump \<Rightarrow> bool" where
  "pump_start s \<longleftrightarrow> so_read (pu_out s) = 0 \<and> so_read (pu_err s) = 0 \<and> so_read (pu_in s) = 0 \<and>
     pu_main s = CopyOut \<and> pu_errDone s = (\<not> pu_hasErr s) \<and> pu_errHeld s = [] \<and> \<not> pu_inDone s \<and> pu_inHeld s = [] \<and>
     pu_fed s = [] \<and> \<not> pu_fedClosed s \<and> pu_sent s = [] \<and> \<not> pu_broken s \<and> \<not> pu_timedOut s"

text \<open>What one read of \<open>io.Copy\<close> gets: some of what is there.\<close>

definition chunk :: "source \<Rightarrow> nat \<Rightarrow> string" where
  "chunk s k = take k (drop (so_read s) (so_got s))"

definition may_read :: "source \<Rightarrow> nat \<Rightarrow> bool" where
  "may_read s k \<longleftrightarrow> 0 < k \<and> so_read s + k \<le> length (so_got s)"

definition advance_by :: "nat \<Rightarrow> source \<Rightarrow> source" where
  "advance_by k s = s\<lparr>so_read := so_read s + k\<rparr>"

definition at_end :: "source \<Rightarrow> bool" where
  "at_end s \<longleftrightarrow> so_over s \<and> so_read s = length (so_got s)"

text \<open>
  Part of a held piece can be sent as far as the window has room, until the channel is closed; a write fails
  when the channel is gone or its end was sent.
\<close>

definition can_write :: "nat \<Rightarrow> string \<Rightarrow> pump \<Rightarrow> bool" where
  "can_write j bs s \<longleftrightarrow> 0 < j \<and> j \<le> length bs \<and> j \<le> pu_room s \<and> \<not> pu_broken s \<and> MClose \<notin> set (pu_sent s)"

definition write_fails :: "pump \<Rightarrow> bool" where
  "write_fails s \<longleftrightarrow> pu_broken s \<or> MEOF \<in> set (pu_sent s)"

definition put :: "chan_msg \<Rightarrow> pump \<Rightarrow> pump" where
  "put m s = (if pu_broken s then s else s\<lparr>pu_sent := pu_sent s @ [m]\<rparr>)"

definition put_data :: "chan_msg \<Rightarrow> nat \<Rightarrow> pump \<Rightarrow> pump" where
  "put_data m j s = (put m s)\<lparr>pu_room := pu_room s - j\<rparr>"

definition writing :: "string \<Rightarrow> pump_pc" where
  "writing bs = (if bs = [] then CopyOut else WriteOut bs)"

definition flush_time :: int where
  "flush_time = 2 * second"

text \<open>What the client is told of the status that \<open>Wait\<close> returns.\<close>

definition wait_message :: "pump \<Rightarrow> exit_msg" where
  "wait_message s = exit_message (pump_status (fst (pu_wait s)) (snd (pu_wait s)))"

section \<open>Steps\<close>

text \<open>The goroutine that runs \<open>pump\<close>, and the clock: these alone are \<open>own_step\<close>.\<close>

inductive own_step :: "pump \<Rightarrow> pump \<Rightarrow> bool" where
  tick: "0 < d \<Longrightarrow> own_step s (s\<lparr>pu_now := pu_now s + d\<rparr>)"
| read_out: "pu_main s = CopyOut \<Longrightarrow> may_read (pu_out s) k \<Longrightarrow>
    own_step s (s\<lparr>pu_main := WriteOut (chunk (pu_out s) k), pu_out := advance_by k (pu_out s)\<rparr>)"
| write_out: "pu_main s = WriteOut bs \<Longrightarrow> can_write j bs s \<Longrightarrow>
    own_step s ((put_data (MOut (take j bs)) j s)\<lparr>pu_main := writing (drop j bs)\<rparr>)"
| out_fails: "pu_main s = WriteOut bs \<Longrightarrow> write_fails s \<Longrightarrow> own_step s (s\<lparr>pu_main := Flush (pu_now s + flush_time)\<rparr>)"
| out_ends: "pu_main s = CopyOut \<Longrightarrow> at_end (pu_out s) \<Longrightarrow> own_step s (s\<lparr>pu_main := Flush (pu_now s + flush_time)\<rparr>)"
| flushed: "pu_main s = Flush t \<Longrightarrow> pu_errDone s \<Longrightarrow> own_step s (s\<lparr>pu_main := Waiting\<rparr>)"
| flush_late: "pu_main s = Flush t \<Longrightarrow> t \<le> pu_now s \<Longrightarrow> own_step s (s\<lparr>pu_main := Waiting, pu_timedOut := True\<rparr>)"
| waited: "pu_main s = Waiting \<Longrightarrow> pu_ended s \<Longrightarrow> own_step s (s\<lparr>pu_main := Exiting (wait_message s)\<rparr>)"
| send_exit: "pu_main s = Exiting m \<Longrightarrow> own_step s ((put (MExit m) s)\<lparr>pu_main := Ending m\<rparr>)"
| send_eof: "pu_main s = Ending m \<Longrightarrow> own_step s ((put MEOF s)\<lparr>pu_main := Closing m\<rparr>)"
| send_close: "pu_main s = Closing m \<Longrightarrow> own_step s ((put MClose s)\<lparr>pu_main := Finished m\<rparr>)"

text \<open>All steps: those, the two other copiers, the client and the environment.\<close>

inductive pump_step :: "pump \<Rightarrow> pump \<Rightarrow> bool" where
  own: "own_step s t \<Longrightarrow> pump_step s t"
| remote_out: "\<not> so_over (pu_out s) \<Longrightarrow> pump_step s (s\<lparr>pu_out := (pu_out s)\<lparr>so_got := so_got (pu_out s) @ bs, so_over := o1\<rparr>\<rparr>)"
| remote_err: "\<not> so_over (pu_err s) \<Longrightarrow> pump_step s (s\<lparr>pu_err := (pu_err s)\<lparr>so_got := so_got (pu_err s) @ bs, so_over := o1\<rparr>\<rparr>)"
| remote_exit: "pump_step s (s\<lparr>pu_ended := True\<rparr>)"
| client_in: "\<not> so_over (pu_in s) \<Longrightarrow> pump_step s (s\<lparr>pu_in := (pu_in s)\<lparr>so_got := so_got (pu_in s) @ bs, so_over := o1\<rparr>\<rparr>)"
| client_reads: "pump_step s (s\<lparr>pu_room := pu_room s + n\<rparr>)"
| client_gone: "pump_step s (s\<lparr>pu_broken := True, pu_in := (pu_in s)\<lparr>so_over := True\<rparr>\<rparr>)"
| read_err: "\<not> pu_errDone s \<Longrightarrow> pu_errHeld s = [] \<Longrightarrow> may_read (pu_err s) k \<Longrightarrow>
    pump_step s (s\<lparr>pu_errHeld := chunk (pu_err s) k, pu_err := advance_by k (pu_err s)\<rparr>)"
| write_err: "\<not> pu_errDone s \<Longrightarrow> can_write j (pu_errHeld s) s \<Longrightarrow>
    pump_step s ((put_data (MErr (take j (pu_errHeld s))) j s)\<lparr>pu_errHeld := drop j (pu_errHeld s)\<rparr>)"
| err_fails: "\<not> pu_errDone s \<Longrightarrow> pu_errHeld s \<noteq> [] \<Longrightarrow> write_fails s \<Longrightarrow> pump_step s (s\<lparr>pu_errDone := True, pu_errHeld := []\<rparr>)"
| err_ends: "\<not> pu_errDone s \<Longrightarrow> pu_errHeld s = [] \<Longrightarrow> at_end (pu_err s) \<Longrightarrow> pump_step s (s\<lparr>pu_errDone := True\<rparr>)"
| read_in: "\<not> pu_inDone s \<Longrightarrow> pu_inHeld s = [] \<Longrightarrow> may_read (pu_in s) k \<Longrightarrow>
    pump_step s (s\<lparr>pu_inHeld := chunk (pu_in s) k, pu_in := advance_by k (pu_in s)\<rparr>)"
| write_in: "\<not> pu_inDone s \<Longrightarrow> 0 < j \<Longrightarrow> j \<le> length (pu_inHeld s) \<Longrightarrow>
    pump_step s (s\<lparr>pu_fed := pu_fed s @ take j (pu_inHeld s), pu_inHeld := drop j (pu_inHeld s)\<rparr>)"
| in_fails: "\<not> pu_inDone s \<Longrightarrow> pu_inHeld s \<noteq> [] \<Longrightarrow> pump_step s (s\<lparr>pu_inDone := True, pu_inHeld := [], pu_fedClosed := True\<rparr>)"
| in_ends: "\<not> pu_inDone s \<Longrightarrow> pu_inHeld s = [] \<Longrightarrow> at_end (pu_in s) \<Longrightarrow> pump_step s (s\<lparr>pu_inDone := True, pu_fedClosed := True\<rparr>)"

inductive_cases own_stepE: "own_step s t"
inductive_cases pump_stepE: "pump_step s t"

section \<open>What has been delivered\<close>

fun out_of :: "chan_msg list \<Rightarrow> string" where
  "out_of [] = []"
| "out_of (MOut t # ms) = t @ out_of ms"
| "out_of (_ # ms) = out_of ms"

fun err_of :: "chan_msg list \<Rightarrow> string" where
  "err_of [] = []"
| "err_of (MErr t # ms) = t @ err_of ms"
| "err_of (_ # ms) = err_of ms"

definition data_msg :: "chan_msg \<Rightarrow> bool" where
  "data_msg m \<longleftrightarrow> (\<exists>t. m = MOut t) \<or> (\<exists>t. m = MErr t)"

definition controls :: "chan_msg list \<Rightarrow> chan_msg list" where
  "controls ms = filter (\<lambda>m. \<not> data_msg m) ms"

lemma out_of_append [simp]: "out_of (a @ b) = out_of a @ out_of b"
  by (induction a rule: out_of.induct) simp_all

lemma err_of_append [simp]: "err_of (a @ b) = err_of a @ err_of b"
  by (induction a rule: err_of.induct) simp_all

lemma controls_simps [simp]:
  "controls [] = []" "controls (a @ b) = controls a @ controls b" "controls [MOut t] = []" "controls [MErr t] = []"
  "controls [MExit m] = [MExit m]" "controls [MEOF] = [MEOF]" "controls [MClose] = [MClose]"
  by (simp_all add: controls_def data_msg_def)

lemma eof_control: "MEOF \<in> set ms \<longleftrightarrow> MEOF \<in> set (controls ms)"
  by (auto simp: controls_def data_msg_def)

text \<open>A message at the end of a list, and what follows a given one.\<close>

lemma follows_snoc:
  "(\<forall>a b. ms @ [x] = a @ y # b \<longrightarrow> Q b) \<longleftrightarrow> (x = y \<longrightarrow> Q []) \<and> (\<forall>a b. ms = a @ y # b \<longrightarrow> Q (b @ [x]))"
proof (intro iffI conjI allI impI)
  fix a b
  assume all: "(x = y \<longrightarrow> Q []) \<and> (\<forall>a b. ms = a @ y # b \<longrightarrow> Q (b @ [x]))" and "ms @ [x] = a @ y # b"
  then show "Q b" by (cases b rule: rev_cases) auto
qed auto

text \<open>What the main goroutine has sent after the data, by where it is.\<close>

fun closing :: "pump_pc \<Rightarrow> chan_msg list" where
  "closing (Ending m) = [MExit m]"
| "closing (Closing m) = [MExit m, MEOF]"
| "closing (Finished m) = [MExit m, MEOF, MClose]"
| "closing _ = []"

definition copied :: "source \<Rightarrow> string" where
  "copied s = take (so_read s) (so_got s)"

lemma copied_advance: "may_read s k \<Longrightarrow> copied (advance_by k s) = copied s @ chunk s k"
  by (simp add: copied_def advance_by_def chunk_def may_read_def take_add)

lemma copied_more: "so_read s \<le> length (so_got s) \<Longrightarrow> copied (s\<lparr>so_got := so_got s @ bs, so_over := b\<rparr>) = copied s"
  by (simp add: copied_def)

lemma copied_at_end: "at_end s \<Longrightarrow> copied s = so_got s"
  by (simp add: at_end_def copied_def)


section \<open>The invariant\<close>

definition is_start :: "string \<Rightarrow> string \<Rightarrow> bool" where
  "is_start a b \<longleftrightarrow> take (length a) b = a"

lemma is_start_iff: "is_start a b \<longleftrightarrow> (\<exists>r. b = a @ r)"
  unfolding is_start_def by (metis append_eq_conv_conj)

lemma copied_start: "is_start (copied s) (so_got s)"
  by (simp add: copied_def is_start_def min_def)

lemma is_start_copied: "is_start a (copied s) \<Longrightarrow> is_start a (so_got s)"
  using copied_start [of s] by (auto simp: is_start_iff)

lemma is_start_self [simp]: "is_start a a" "is_start a (a @ b)"
  by (simp_all add: is_start_def)

lemma is_start_longer: "is_start a b \<Longrightarrow> is_start a (b @ c)"
  by (auto simp: is_start_iff)

definition in_bounds :: "source \<Rightarrow> bool" where
  "in_bounds s \<longleftrightarrow> so_read s \<le> length (so_got s)"

text \<open>What the copier of the output holds, while it copies.\<close>

fun held_out :: "pump_pc \<Rightarrow> string option" where
  "held_out CopyOut = Some []"
| "held_out (WriteOut bs) = Some bs"
| "held_out _ = None"

lemma held_writing [simp]: "held_out (writing bs) = Some bs"
  by (simp add: writing_def)

definition streams_ok :: "pump \<Rightarrow> bool" where
  "streams_ok s \<longleftrightarrow> in_bounds (pu_out s) \<and> in_bounds (pu_err s) \<and> in_bounds (pu_in s) \<and>
     is_start (out_of (pu_sent s)) (copied (pu_out s)) \<and> is_start (err_of (pu_sent s)) (copied (pu_err s)) \<and>
     is_start (pu_fed s) (copied (pu_in s)) \<and>
     (\<forall>bs. held_out (pu_main s) = Some bs \<longrightarrow> out_of (pu_sent s) @ bs = copied (pu_out s)) \<and>
     (\<not> pu_errDone s \<longrightarrow> err_of (pu_sent s) @ pu_errHeld s = copied (pu_err s)) \<and>
     (\<not> pu_inDone s \<longrightarrow> pu_fed s @ pu_inHeld s = copied (pu_in s)) \<and> pu_fedClosed s = pu_inDone s"

definition ending_ok :: "pump \<Rightarrow> bool" where
  "ending_ok s \<longleftrightarrow> (\<not> pu_broken s \<longrightarrow> controls (pu_sent s) = closing (pu_main s)) \<and>
     (\<exists>rest. closing (pu_main s) = controls (pu_sent s) @ rest)"

definition beyond :: "pump \<Rightarrow> bool" where
  "beyond s \<longleftrightarrow> held_out (pu_main s) = None \<and> (\<forall>t. pu_main s \<noteq> Flush t)"

definition all_out :: "pump \<Rightarrow> bool" where
  "all_out s \<longleftrightarrow> at_end (pu_out s) \<and> out_of (pu_sent s) = so_got (pu_out s)"

definition all_err :: "pump \<Rightarrow> bool" where
  "all_err s \<longleftrightarrow> at_end (pu_err s) \<and> err_of (pu_sent s) = so_got (pu_err s)"

definition complete_ok :: "pump \<Rightarrow> bool" where
  "complete_ok s \<longleftrightarrow> (held_out (pu_main s) = None \<and> \<not> pu_broken s \<longrightarrow> all_out s) \<and>
     (pu_errDone s \<and> pu_hasErr s \<and> \<not> pu_broken s \<and> MEOF \<notin> set (pu_sent s) \<longrightarrow> all_err s) \<and>
     (beyond s \<and> \<not> pu_timedOut s \<longrightarrow> pu_errDone s) \<and>
     (beyond s \<and> \<not> pu_timedOut s \<and> pu_hasErr s \<and> \<not> pu_broken s \<longrightarrow> all_err s)"

definition order_ok :: "pump \<Rightarrow> bool" where
  "order_ok s \<longleftrightarrow>
     (\<forall>a b. \<forall>m. pu_sent s = a @ MExit m # b \<longrightarrow> out_of b = [] \<and> (\<not> pu_timedOut s \<longrightarrow> err_of b = []))"

definition flush_ok :: "pump \<Rightarrow> bool" where
  "flush_ok s \<longleftrightarrow> (\<forall>t. pu_main s = Flush t \<longrightarrow> t \<le> pu_now s + flush_time) \<and> pu_main s \<noteq> WriteOut []"

fun told :: "pump_pc \<Rightarrow> exit_msg option" where
  "told (Exiting m) = Some m"
| "told (Ending m) = Some m"
| "told (Closing m) = Some m"
| "told (Finished m) = Some m"
| "told _ = None"

definition status_ok :: "pump \<Rightarrow> bool" where
  "status_ok s \<longleftrightarrow> told (pu_main s) \<in> {None, Some (wait_message s)}"


definition pump_inv :: "pump \<Rightarrow> bool" where
  "pump_inv s \<longleftrightarrow> streams_ok s \<and> ending_ok s \<and> complete_ok s \<and> order_ok s \<and> status_ok s \<and> flush_ok s"

lemma put_simps [simp]:
  "pu_now (put m s) = pu_now s" "pu_out (put m s) = pu_out s" "pu_err (put m s) = pu_err s" "pu_in (put m s) = pu_in s"
  "pu_room (put m s) = pu_room s" "pu_ended (put m s) = pu_ended s" "pu_errHeld (put m s) = pu_errHeld s" "pu_inHeld (put m s) = pu_inHeld s"
  "pu_hasErr (put m s) = pu_hasErr s" "pu_wait (put m s) = pu_wait s" "pu_main (put m s) = pu_main s" "pu_errDone (put m s) = pu_errDone s"
  "pu_inDone (put m s) = pu_inDone s" "pu_fed (put m s) = pu_fed s" "pu_fedClosed (put m s) = pu_fedClosed s"
  "pu_broken (put m s) = pu_broken s" "pu_timedOut (put m s) = pu_timedOut s"
  "pu_sent (put m s) = (if pu_broken s then pu_sent s else pu_sent s @ [m])"
  by (simp_all add: put_def)

lemma in_bounds_steps [simp]:
  "may_read s k \<Longrightarrow> in_bounds (advance_by k s)" "in_bounds s \<Longrightarrow> in_bounds (s\<lparr>so_got := so_got s @ bs, so_over := b\<rparr>)"
  "in_bounds s \<Longrightarrow> in_bounds (s\<lparr>so_got := so_got s @ bs\<rparr>)" "in_bounds s \<Longrightarrow> copied (s\<lparr>so_got := so_got s @ bs\<rparr>) = copied s"
  "in_bounds (s\<lparr>so_over := b\<rparr>) = in_bounds s" "copied (s\<lparr>so_over := b\<rparr>) = copied s"
  "in_bounds s \<Longrightarrow> copied (s\<lparr>so_got := so_got s @ bs, so_over := b\<rparr>) = copied s"
  by (simp_all add: may_read_def advance_by_def in_bounds_def copied_def)

lemma writing_cases: "writing bs = CopyOut \<and> bs = [] \<or> writing bs = WriteOut bs \<and> bs \<noteq> []"
  by (simp add: writing_def)

lemma split_start: "a @ bs = c \<Longrightarrow> is_start (a @ take j bs) c \<and> a @ take j bs @ drop j bs = c"
  by (auto simp: is_start_iff intro: exI [of _ "drop j bs"])

lemma streams_own: "own_step s t \<Longrightarrow> streams_ok s \<Longrightarrow> streams_ok t"
  by (cases rule: own_step.cases, assumption)
    (auto simp: streams_ok_def copied_advance can_write_def put_data_def is_start_longer dest: split_start)

lemma streams_step:
  assumes "pump_step s t" and "streams_ok s"
  shows "streams_ok t"
  using assms(1)
proof cases
  case own
  with assms(2) show ?thesis by (blast intro: streams_own)
qed (use assms(2) in \<open>auto simp: streams_ok_def copied_advance can_write_def put_data_def is_start_longer dest: split_start\<close>)

lemma closing_more:
  "[MExit m] = p @ rest \<Longrightarrow> \<exists>r. [MExit m, MEOF] = p @ r"
  "[MExit m, MEOF] = p @ rest \<Longrightarrow> \<exists>r. [MExit m, MEOF, MClose] = p @ r"
  by (auto simp: Cons_eq_append_conv)

lemma closing_writing [simp]: "closing (writing bs) = []"
  by (simp add: writing_def)

lemma ending_own: "own_step s t \<Longrightarrow> ending_ok s \<Longrightarrow> ending_ok t"
  by (cases rule: own_step.cases, assumption) (auto simp: ending_ok_def put_data_def dest: closing_more)

lemma ending_step: "pump_step s t \<Longrightarrow> ending_ok s \<Longrightarrow> ending_ok t"
  by (cases rule: pump_step.cases, assumption) (simp_all add: ending_own, auto simp: ending_ok_def put_data_def)

lemma no_eof: "ending_ok s \<Longrightarrow> MEOF \<notin> set (closing (pu_main s)) \<Longrightarrow> MEOF \<notin> set (pu_sent s)"
  unfolding ending_ok_def eof_control [of "pu_sent s"] by (metis Un_iff set_append)

lemma at_end_advance: "at_end s \<Longrightarrow> \<not> may_read s k"
  by (auto simp: at_end_def may_read_def)

lemma all_outI: "streams_ok s \<Longrightarrow> pu_main s = CopyOut \<Longrightarrow> at_end (pu_out s) \<Longrightarrow> all_out s"
  by (simp add: streams_ok_def all_out_def copied_at_end)

lemma all_errI: "streams_ok s \<Longrightarrow> \<not> pu_errDone s \<Longrightarrow> pu_errHeld s = [] \<Longrightarrow> at_end (pu_err s) \<Longrightarrow> all_err s"
  by (simp add: streams_ok_def all_err_def copied_at_end)

lemmas all_simps = all_out_def all_err_def

lemma beyond_writing [simp]: "held_out p = Some bs \<Longrightarrow> pu_main s = p \<Longrightarrow> \<not> beyond s"
  by (simp add: beyond_def)

lemma complete_own: "own_step s t \<Longrightarrow> streams_ok s \<Longrightarrow> ending_ok s \<Longrightarrow> complete_ok s \<Longrightarrow> complete_ok t"
  by (cases rule: own_step.cases, assumption)
    (use all_outI [of s] no_eof [of s] in \<open>auto simp: complete_ok_def beyond_def put_data_def write_fails_def all_simps\<close>)

lemma complete_step:
  assumes "pump_step s t" and "streams_ok s" and "ending_ok s" and "complete_ok s"
  shows "complete_ok t"
  using assms(1)
proof cases
  case own
  with assms(2-4) show ?thesis by (blast intro: complete_own)
qed (use assms(2-4) all_errI [OF assms(2)] in \<open>auto simp: complete_ok_def beyond_def put_data_def write_fails_def all_simps at_end_def may_read_def\<close>)

lemma sent_control:
  assumes "ending_ok s" and "\<not> data_msg x" and "x \<in> set (pu_sent s)"
  shows "x \<in> set (closing (pu_main s))"
proof -
  have "x \<in> set (controls (pu_sent s))" using assms(2,3) by (simp add: controls_def)
  then show ?thesis using assms(1) unfolding ending_ok_def by force
qed

lemma exit_sent: "ending_ok s \<Longrightarrow> MExit m \<in> set (pu_sent s) \<Longrightarrow> MExit m \<in> set (closing (pu_main s))"
  and eof_sent: "ending_ok s \<Longrightarrow> MEOF \<in> set (pu_sent s) \<Longrightarrow> MEOF \<in> set (closing (pu_main s))"
  and close_sent: "ending_ok s \<Longrightarrow> MClose \<in> set (pu_sent s) \<Longrightarrow> MClose \<in> set (closing (pu_main s))"
  by (rule sent_control, simp_all add: data_msg_def)+

lemma order_same:
  "order_ok s \<Longrightarrow> pu_sent t = pu_sent s \<Longrightarrow> (pu_timedOut s \<longrightarrow> pu_timedOut t) \<Longrightarrow> order_ok t"
  unfolding order_ok_def by metis

lemma order_snoc:
  assumes "order_ok s" and "pu_sent t = pu_sent s @ [x]" and "pu_timedOut t = pu_timedOut s"
    and "\<And>m. MExit m \<in> set (pu_sent s) \<Longrightarrow> out_of [x] = [] \<and> (\<not> pu_timedOut s \<longrightarrow> err_of [x] = [])"
  shows "order_ok t"
  unfolding order_ok_def assms(2)
proof (intro allI impI)
  fix a b m
  assume "pu_sent s @ [x] = a @ MExit m # b"
  then show "out_of b = [] \<and> (\<not> pu_timedOut t \<longrightarrow> err_of b = [])"
  proof (cases b rule: rev_cases)
    case (snoc b' y)
    with \<open>pu_sent s @ [x] = a @ MExit m # b\<close> have "pu_sent s = a @ MExit m # b'" "y = x" by auto
    moreover from this have "MExit m \<in> set (pu_sent s)" by simp
    ultimately show ?thesis using assms(1,3) assms(4) [of m] snoc unfolding order_ok_def by auto
  qed simp
qed

lemma order_own:
  assumes "own_step s t" and e: "ending_ok s" and o: "order_ok s"
  shows "order_ok t"
  using assms(1)
proof cases
  case (write_out bs j)
  then show ?thesis using e by (intro order_snoc [OF o]) (auto dest: exit_sent simp: can_write_def put_data_def)
next
  case (send_exit m)
  then show ?thesis using order_same [OF o, of t] by (cases "pu_broken s") (auto intro!: order_snoc [OF o])
next
  case (send_eof m)
  then show ?thesis using order_same [OF o, of t] by (cases "pu_broken s") (auto intro!: order_snoc [OF o])
next
  case (send_close m)
  then show ?thesis using order_same [OF o, of t] by (cases "pu_broken s") (auto intro!: order_snoc [OF o])
qed (rule order_same [OF o]; simp)+

lemma order_step:
  assumes "pump_step s t" and e: "ending_ok s" and c: "complete_ok s" and o: "order_ok s"
  shows "order_ok t"
  using assms(1)
proof cases
  case own
  then show ?thesis by (rule order_own [OF _ e o])
next
  case (write_err j)
  have "pu_timedOut s" if "MExit m \<in> set (pu_sent s)" for m
    using exit_sent [OF e that] c write_err(2) by (cases "pu_main s") (auto simp: complete_ok_def beyond_def)
  with write_err show ?thesis by (intro order_snoc [OF o]) (auto simp: can_write_def put_data_def)
qed (rule order_same [OF o]; simp)+

lemma put_data_simps [simp]: "wait_message (put_data m j s) = wait_message s" "wait_message (put m s) = wait_message s"
  by (simp_all add: put_data_def wait_message_def)

lemma wait_own: "own_step s t \<Longrightarrow> wait_message t = wait_message s"
  by (cases rule: own_step.cases, assumption) (simp_all add: wait_message_def put_data_def)

lemma wait_fixed: "pump_step s t \<Longrightarrow> wait_message t = wait_message s"
  by (cases rule: pump_step.cases, assumption) (simp_all add: wait_own, simp_all add: wait_message_def put_data_def)

lemma told_writing [simp]: "told (writing bs) = None"
  by (simp add: writing_def)

lemma status_own: "own_step s t \<Longrightarrow> status_ok s \<Longrightarrow> status_ok t"
  by (frule wait_own, cases rule: own_step.cases, assumption) (auto simp: status_ok_def put_data_def)

lemma status_step:
  assumes "pump_step s t" and "status_ok s"
  shows "status_ok t"
  using assms(1)
proof cases
  case own
  with assms(2) show ?thesis by (blast intro: status_own)
qed (use assms(2) wait_fixed [OF assms(1)] in \<open>auto simp: status_ok_def put_data_def\<close>)

lemma flush_writing [simp]: "writing bs \<noteq> Flush t" "Flush t \<noteq> writing bs"
  by (simp_all add: writing_def)

lemma chunk_some: "may_read s k \<Longrightarrow> chunk s k \<noteq> []"
  by (simp add: may_read_def chunk_def)

lemma flush_own: "own_step s t \<Longrightarrow> flush_ok s \<Longrightarrow> flush_ok t"
  by (cases rule: own_step.cases, assumption) (auto simp: flush_ok_def put_data_def writing_def chunk_some)

lemma flush_step:
  assumes "pump_step s t" and "flush_ok s"
  shows "flush_ok t"
  using assms(1)
proof cases
  case own
  with assms(2) show ?thesis by (blast intro: flush_own)
qed (use assms(2) in \<open>auto simp: flush_ok_def put_data_def\<close>)

lemma pump_inv_start: "pump_start s \<Longrightarrow> pump_inv s"
  by (auto simp: pump_inv_def pump_start_def streams_ok_def ending_ok_def complete_ok_def order_ok_def beyond_def copied_def
      status_ok_def flush_ok_def in_bounds_def)

interpretation pumping: step_system pump_start pump_step pump_inv
proof
  show "pump_start s \<Longrightarrow> pump_inv s" for s by (rule pump_inv_start)
  show "pump_step s t \<Longrightarrow> pump_inv s \<Longrightarrow> pump_inv t" for s t
    unfolding pump_inv_def using streams_step ending_step complete_step order_step status_step flush_step by blast
qed

section \<open>What the client gets\<close>

lemma finished_sent:
  assumes i: "pump_inv s" and f: "pu_main s = Finished m" and b: "\<not> pu_broken s"
  obtains data rest where "pu_sent s = data @ MExit m # rest" and "out_of data = so_got (pu_out s)" and "out_of rest = []"
    and "pu_hasErr s \<Longrightarrow> \<not> pu_timedOut s \<Longrightarrow> err_of data = so_got (pu_err s)" and "m = wait_message s"
    and "controls (pu_sent s) = [MExit m, MEOF, MClose]"
proof -
  have c: "controls (pu_sent s) = [MExit m, MEOF, MClose]" using i f b by (simp add: pump_inv_def ending_ok_def)
  then have "MExit m \<in> set (controls (pu_sent s))" by simp
  then obtain data rest where s: "pu_sent s = data @ MExit m # rest" by (auto simp: controls_def in_set_conv_decomp)
  have o: "out_of rest = []" and e: "\<not> pu_timedOut s \<Longrightarrow> err_of rest = []"
    using i s unfolding pump_inv_def order_ok_def by blast+
  have d: "out_of (pu_sent s) = so_got (pu_out s)" "pu_hasErr s \<Longrightarrow> \<not> pu_timedOut s \<Longrightarrow> err_of (pu_sent s) = so_got (pu_err s)"
    using i f b by (simp_all add: pump_inv_def complete_ok_def beyond_def all_simps)
  then have "out_of data = so_got (pu_out s)" "pu_hasErr s \<Longrightarrow> \<not> pu_timedOut s \<Longrightarrow> err_of data = so_got (pu_err s)"
    using s o e by simp_all
  moreover have "m = wait_message s" using i f by (simp add: pump_inv_def status_ok_def)
  ultimately show thesis using that s o c by blast
qed

text \<open>
  C6: Whatever the interleaving of the copying goroutines, the client, the environment and the clock, what the
  client has been sent of the output, and of the error output, is a start of what the environment produced, in
  order and with nothing added, and what the environment was fed is a start of what the client sent, its input being
  closed when the copying of it ends. If the client stays until \<open>pump\<close> returns, it has got the whole output before
  the exit report, and the whole error output too unless the two second flush wait ran out; the report is
  made from what \<open>Wait\<close> returned, is sent once, no output follows it, and the end of the stream and the close of the
  channel are sent after it, once each.
\<close>

theorem pump_delivers:
  assumes "pump_start s0" and "pump_step\<^sup>*\<^sup>* s0 s"
  shows "is_start (out_of (pu_sent s)) (so_got (pu_out s)) \<and> is_start (err_of (pu_sent s)) (so_got (pu_err s)) \<and>
    is_start (pu_fed s) (so_got (pu_in s)) \<and> (pu_fedClosed s \<longleftrightarrow> pu_inDone s) \<and>
    (\<forall>m. pu_main s = Finished m \<and> \<not> pu_broken s \<longrightarrow>
       (\<exists>data rest. pu_sent s = data @ MExit m # rest \<and> out_of data = so_got (pu_out s) \<and> out_of rest = [] \<and>
          (pu_hasErr s \<and> \<not> pu_timedOut s \<longrightarrow> err_of data = so_got (pu_err s))) \<and>
       m = exit_message (pump_status (fst (pu_wait s)) (snd (pu_wait s))) \<and>
       controls (pu_sent s) = [MExit m, MEOF, MClose])"
proof -
  have i: "pump_inv s" by (rule pumping.inv_reachable [OF assms])
  then have "is_start (out_of (pu_sent s)) (so_got (pu_out s))" "is_start (err_of (pu_sent s)) (so_got (pu_err s))"
    "is_start (pu_fed s) (so_got (pu_in s))" "pu_fedClosed s = pu_inDone s"
    by (simp_all add: pump_inv_def streams_ok_def is_start_copied)
  then show ?thesis using finished_sent [OF i] unfolding wait_message_def by metis
qed


section \<open>That pump returns\<close>

text \<open>The output that is still to be sent.\<close>

definition unsent :: "pump \<Rightarrow> nat" where
  "unsent s = (case held_out (pu_main s) of
     None \<Rightarrow> 0 | Some bs \<Rightarrow> length bs + (length (so_got (pu_out s)) - so_read (pu_out s)))"

definition reported :: "pump \<Rightarrow> pump" where
  "reported s = (put MClose (put MEOF (put (MExit (wait_message s)) s)))\<lparr>pu_main := Finished (wait_message s)\<rparr>"

lemma put_change [simp]: "put m (s\<lparr>pu_main := p\<rparr>) = (put m s)\<lparr>pu_main := p\<rparr>"
  by (simp add: put_def)

lemma own_trans: "own_step s t \<Longrightarrow> own_step\<^sup>*\<^sup>* t u \<Longrightarrow> own_step\<^sup>*\<^sup>* s u"
  by (rule converse_rtranclp_into_rtranclp)

lemma close_run:
  assumes "pu_main s = Closing m"
  shows "own_step\<^sup>*\<^sup>* s ((put MClose s)\<lparr>pu_main := Finished m\<rparr>)"
  using own_step.send_close [OF assms] by blast

lemma end_run:
  assumes "pu_main s = Ending m"
  shows "own_step\<^sup>*\<^sup>* s ((put MClose (put MEOF s))\<lparr>pu_main := Finished m\<rparr>)"
  using own_trans [OF own_step.send_eof [OF assms] close_run] by simp

lemma exit_run:
  assumes "pu_main s = Exiting m"
  shows "own_step\<^sup>*\<^sup>* s ((put MClose (put MEOF (put (MExit m) s)))\<lparr>pu_main := Finished m\<rparr>)"
  using own_trans [OF own_step.send_exit [OF assms] end_run] by simp

lemma report_run:
  assumes "pu_main s = Waiting" and "pu_ended s"
  shows "own_step\<^sup>*\<^sup>* s (reported s)"
  using own_trans [OF own_step.waited [OF assms] exit_run] by (simp add: reported_def)

text \<open>Within the flush time the wait is over, by the error output's end or by the clock.\<close>

lemma flush_run:
  assumes "pu_main s = Flush t" and "pu_ended s" and "t \<le> pu_now s + flush_time"
  shows "\<exists>u. own_step\<^sup>*\<^sup>* s u \<and> pu_main u = Finished (wait_message s) \<and> pu_now u \<le> pu_now s + flush_time"
proof -
  let ?a = "if t \<le> pu_now s then s else s\<lparr>pu_now := t\<rparr>"
  let ?b = "?a\<lparr>pu_main := Waiting, pu_timedOut := True\<rparr>"
  have a: "own_step\<^sup>*\<^sup>* s ?a"
    using own_step.tick [of "t - pu_now s" s] by auto
  have "own_step ?a ?b" by (rule own_step.flush_late [where t = t]) (use assms in auto)
  with a have "own_step\<^sup>*\<^sup>* s ?b" by (rule rtranclp.rtrancl_into_rtrancl)
  also have "own_step\<^sup>*\<^sup>* ?b (reported ?b)" by (rule report_run) (use assms in auto)
  finally have run: "own_step\<^sup>*\<^sup>* s (reported ?b)" .
  have "0 \<le> flush_time" by (simp add: flush_time_def second_def)
  then show ?thesis using assms(3) run by (intro exI [of _ "reported ?b"]) (auto simp: reported_def wait_message_def)
qed

lemma flush_from:
  assumes "own_step s (s\<lparr>pu_main := Flush (pu_now s + flush_time)\<rparr>)" and "pu_ended s"
  shows "\<exists>u. own_step\<^sup>*\<^sup>* s u \<and> pu_main u = Finished (wait_message s) \<and> pu_now u \<le> pu_now s + flush_time"
  using flush_run [of "s\<lparr>pu_main := Flush (pu_now s + flush_time)\<rparr>"] assms own_trans [OF assms(1)]
  by (fastforce simp: wait_message_def)

text \<open>Copying what is left: it all fits in the window, or the channel is gone.\<close>

definition sendable :: "pump \<Rightarrow> bool" where
  "sendable s \<longleftrightarrow> pu_ended s \<and> so_over (pu_out s) \<and> in_bounds (pu_out s) \<and> MClose \<notin> set (pu_sent s) \<and>
     (pu_broken s \<or> unsent s \<le> pu_room s)"

lemma write_run:
  assumes "pu_main s = WriteOut bs" and "bs \<noteq> []" and "sendable s" and "\<not> pu_broken s"
  obtains u where "own_step s u" and "pu_main u = CopyOut" and "sendable u" and "pu_out u = pu_out s"
    and "pu_now u = pu_now s" and "wait_message u = wait_message s"
proof -
  let ?u = "(put_data (MOut (take (length bs) bs)) (length bs) s)\<lparr>pu_main := writing (drop (length bs) bs)\<rparr>"
  have "own_step s ?u"
    by (rule own_step.write_out) (use assms in \<open>auto simp: can_write_def sendable_def unsent_def\<close>)
  moreover have "sendable ?u" using assms by (auto simp: sendable_def unsent_def put_data_def put_def writing_def)
  moreover have "wait_message ?u = wait_message s" by (simp add: wait_message_def put_data_def)
  ultimately show thesis by (intro that [of ?u]) (simp_all add: writing_def put_data_def)
qed

lemma copy_run:
  assumes "pu_main s = CopyOut" and "sendable s"
  shows "\<exists>u. own_step\<^sup>*\<^sup>* s u \<and> pu_main u = Finished (wait_message s) \<and> pu_now u \<le> pu_now s + flush_time"
proof (cases "at_end (pu_out s)")
  case True
  then show ?thesis using flush_from [OF own_step.out_ends] assms by (simp add: sendable_def)
next
  case False
  let ?k = "length (so_got (pu_out s)) - so_read (pu_out s)"
  let ?a = "s\<lparr>pu_main := WriteOut (chunk (pu_out s) ?k), pu_out := advance_by ?k (pu_out s)\<rparr>"
  have k: "may_read (pu_out s) ?k" using False assms(2) by (auto simp: at_end_def may_read_def sendable_def in_bounds_def)
  have a: "own_step s ?a" by (rule own_step.read_out [OF assms(1) k])
  have same: "wait_message ?a = wait_message s" "pu_now ?a = pu_now s" "pu_ended ?a" "pu_broken ?a = pu_broken s"
    using assms(2) by (simp_all add: wait_message_def sendable_def)
  have ok: "sendable ?a" "at_end (pu_out ?a)"
    using assms k by (auto simp: sendable_def unsent_def advance_by_def chunk_def in_bounds_def at_end_def may_read_def)
  have "\<exists>u. own_step\<^sup>*\<^sup>* ?a u \<and> pu_main u = Finished (wait_message ?a) \<and> pu_now u \<le> pu_now ?a + flush_time"
  proof (cases "pu_broken s")
    case True
    show ?thesis
      by (rule flush_from [OF own_step.out_fails [of _ "chunk (pu_out s) ?k"] same(3)]) (simp_all add: write_fails_def True)
  next
    case False
    then obtain u where u: "own_step ?a u" "pu_main u = CopyOut" "sendable u" "pu_out u = pu_out ?a" "pu_now u = pu_now ?a"
        "wait_message u = wait_message ?a"
      using write_run [of ?a "chunk (pu_out s) ?k"] chunk_some [OF k] ok(1) by auto
    have "\<exists>v. own_step\<^sup>*\<^sup>* u v \<and> pu_main v = Finished (wait_message u) \<and> pu_now v \<le> pu_now u + flush_time"
      by (rule flush_from [OF own_step.out_ends]) (use u ok(2) in \<open>simp_all add: sendable_def\<close>)
    with u show ?thesis using own_trans [OF u(1)] by auto
  qed
  then show ?thesis using own_trans [OF a] same(1,2) by auto
qed

text \<open>
  C7: \<open>pump\<close> returns. At any point of any run at which the remote session is over, with its output, and the client's window has
  room for what of the output is still to be sent (or the client is gone), steps of \<open>pump\<close>'s own goroutine and of the clock alone lead to
  its return, at most the flush time of two seconds later, with the report made from what \<open>Wait\<close> returned: whether the error
  output ends, whether it can be sent and whether the client ends its input plays no part.
\<close>

theorem pump_returns:
  assumes "pump_start s0" and "pump_step\<^sup>*\<^sup>* s0 s" and "so_over (pu_out s)" and "pu_ended s"
    and "pu_broken s \<or> unsent s \<le> pu_room s"
  shows "\<exists>t. own_step\<^sup>*\<^sup>* s t \<and> pu_now t \<le> pu_now s + flush_time \<and>
    pu_main t = Finished (exit_message (pump_status (fst (pu_wait s)) (snd (pu_wait s))))"
proof -
  have i: "pump_inv s" by (rule pumping.inv_reachable [OF assms(1,2)])
  then have m: "told (pu_main s) \<in> {None, Some (wait_message s)}" by (simp add: pump_inv_def status_ok_def)
  have f: "0 \<le> flush_time" by (simp add: flush_time_def second_def)
  have ok: "sendable s" if "closing (pu_main s) = []"
    using i that assms(3-5) close_sent [of s] by (auto simp: sendable_def pump_inv_def streams_ok_def)
  have "\<exists>u. own_step\<^sup>*\<^sup>* s u \<and> pu_main u = Finished (wait_message s) \<and> pu_now u \<le> pu_now s + flush_time"
  proof (cases "pu_main s")
    case CopyOut
    then show ?thesis using copy_run ok by simp
  next
    case (WriteOut bs)
    show ?thesis
    proof (cases "pu_broken s")
      case True
      then show ?thesis using flush_from [OF own_step.out_fails [OF WriteOut] assms(4)] by (simp add: write_fails_def)
    next
      case False
      then obtain u where u: "own_step s u" "pu_main u = CopyOut" "sendable u" "pu_now u = pu_now s" "wait_message u = wait_message s"
        using write_run [OF WriteOut] ok i WriteOut by (auto simp: pump_inv_def flush_ok_def)
      then show ?thesis using copy_run [of u] own_trans [OF u(1)] by auto
    qed
  next
    case (Flush t)
    then show ?thesis using flush_run assms(4) i by (simp add: pump_inv_def flush_ok_def)
  next
    case Waiting
    then show ?thesis using report_run [OF Waiting assms(4)] f by (intro exI [of _ "reported s"]) (simp add: reported_def)
  next
    case (Exiting m')
    then show ?thesis using exit_run [OF Exiting] m f by (intro exI [of _ "(put MClose (put MEOF (put (MExit m') s)))\<lparr>pu_main := Finished m'\<rparr>"]) simp
  next
    case (Ending m')
    then show ?thesis using end_run [OF Ending] m f by (intro exI [of _ "(put MClose (put MEOF s))\<lparr>pu_main := Finished m'\<rparr>"]) simp
  next
    case (Closing m')
    then show ?thesis using close_run [OF Closing] m f by (intro exI [of _ "(put MClose s)\<lparr>pu_main := Finished m'\<rparr>"]) simp
  next
    case (Finished m')
    then show ?thesis using m f by (intro exI [of _ s]) simp
  qed
  then show ?thesis unfolding wait_message_def by blast
qed

text \<open>A run: a session that prints two bytes, then ends with status 3, without an error stream.\<close>

definition pu0 :: pump where
  "pu0 = \<lparr>pu_now = 0, pu_out = \<lparr>so_got = ''hi'', so_over = True, so_read = 0\<rparr>,
     pu_err = \<lparr>so_got = [], so_over = True, so_read = 0\<rparr>, pu_in = \<lparr>so_got = ''x'', so_over = False, so_read = 0\<rparr>,
     pu_room = 100, pu_ended = True, pu_hasErr = False, pu_wait = (\<lparr>ex_Code = 3, ex_Signal = []\<rparr>, None), pu_main = CopyOut,
     pu_errDone = True, pu_errHeld = [], pu_inDone = False, pu_inHeld = [], pu_fed = [],
     pu_fedClosed = False, pu_sent = [], pu_broken = False, pu_timedOut = False\<rparr>"

definition pu1 :: pump where
  "pu1 = pu0\<lparr>pu_out := \<lparr>so_got = ''hi'', so_over = True, so_read = 2\<rparr>, pu_main := Finished (ExitStatusMsg 3), pu_room := 98,
     pu_sent := [MOut ''hi'', MExit (ExitStatusMsg 3), MEOF, MClose]\<rparr>"

lemmas pu_eval = pu0_def pu1_def wait_message_def exit_message_def pump_status_def reported_def put_def put_data_def writing_def
  may_read_def can_write_def chunk_def advance_by_def at_end_def flush_time_def

lemma pu0_starts: "pump_start pu0"
  by (simp add: pump_start_def pu0_def)

lemma own_run: "own_step\<^sup>*\<^sup>* s t \<Longrightarrow> pump_step\<^sup>*\<^sup>* s t"
  by (rule rtranclp_mono [THEN predicate2D, rotated]) (auto intro: pump_step.own)

lemma pu0_run: "pump_step\<^sup>*\<^sup>* pu0 pu1"
proof (rule own_run)
  let ?a = "pu0\<lparr>pu_main := WriteOut (chunk (pu_out pu0) 2), pu_out := advance_by 2 (pu_out pu0)\<rparr>"
  let ?b = "(put_data (MOut (take 2 ''hi'')) 2 ?a)\<lparr>pu_main := writing (drop 2 ''hi'')\<rparr>"
  let ?c = "?b\<lparr>pu_main := Flush (pu_now ?b + flush_time)\<rparr>"
  have a: "own_step pu0 ?a" by (rule own_step.read_out) (simp_all add: pu_eval)
  have b: "own_step ?a ?b" by (rule own_step.write_out) (simp_all add: pu_eval)
  have c: "own_step ?b ?c" by (rule own_step.out_ends) (simp_all add: pu_eval)
  have d: "own_step ?c (?c\<lparr>pu_main := Waiting\<rparr>)"
    by (rule own_step.flushed [where t = "pu_now ?b + flush_time"]) (simp_all add: pu_eval)
  have e: "own_step\<^sup>*\<^sup>* (?c\<lparr>pu_main := Waiting\<rparr>) (reported (?c\<lparr>pu_main := Waiting\<rparr>))"
    by (rule report_run) (simp_all add: pu_eval)
  have "reported (?c\<lparr>pu_main := Waiting\<rparr>) = pu1" by (simp add: pu_eval)
  with own_trans [OF a own_trans [OF b own_trans [OF c own_trans [OF d e]]]] show "own_step\<^sup>*\<^sup>* pu0 pu1" by simp
qed

lemma pump_delivers_witness:
  "is_start (out_of (pu_sent pu1)) (so_got (pu_out pu1)) \<and> ExitStatusMsg 3 = exit_message (pump_status (fst (pu_wait pu1)) (snd (pu_wait pu1))) \<and>
   controls (pu_sent pu1) = [MExit (ExitStatusMsg 3), MEOF, MClose]"
  using pump_delivers [OF pu0_starts pu0_run] by (auto simp: pu1_def pu0_def simp del: One_nat_def)

lemma pump_returns_witness: "\<exists>t. own_step\<^sup>*\<^sup>* pu0 t \<and> pu_now t \<le> 2 * second \<and> pu_main t = Finished (ExitStatusMsg 3)"
  using pump_returns [OF pu0_starts rtranclp.rtrancl_refl] by (simp add: pu_eval unsent_def)

end
