(* ===== verification/Spec2Isabelle.thy ===== *)
theory Spec2Isabelle
  imports RegistrySpec LifecycleSpec SingleFlight SshAuth SshSession GatewayBackend GithubApiSpec HostKeySpec
    GithubProviderSpec GithubConnectSpec GithubDiagnose ConfigTree SshServer CliSshConfig CliPrompt
    GatewayControl CliSetup GithubKeys GithubRebuild GithubGateway SshPump
begin

text \<open>
  A model of \<open>codespace-ssh-gateway\<close>, an SSH server that accepts ordinary SSH clients and puts
  each of them into a GitHub Codespace, starting, adopting or creating the codespace on the way.

  The path of a connection. The SSH server (\<open>ssh/server.go\<close>) accepts connections, authenticates
  the client (\<open>ssh/auth.go\<close>) and runs one state machine per session channel
  (\<open>ssh/session.go\<close>, \<open>ssh/forward.go\<close>). The gateway core (\<open>core/gateway/backend.go\<close>) chooses the
  environment, registers the session (\<open>core/session\<close>) and asks the lifecycle manager
  (\<open>core/lifecycle\<close>) to make the environment ready and to connect to it. The lifecycle manager
  talks to a provider (\<open>providers/\<close>, with the one implementation \<open>providers/github\<close>), which talks
  to GitHub's API, to the \<open>gh\<close> program and to the SSH server of the codespace. Secrets are kept out of
  logs and of messages by \<open>core/secret\<close> and \<open>core/logging\<close>. Around this path stand the configuration
  (\<open>core/config\<close>), the control socket (\<open>core/gateway/control.go\<close>) and the command line (\<open>cli\<close>).

  The theories, in the order in which the code's parts depend on each other. Common ground:

  \<^item> \<open>Prelude\<close>: collections, Go maps as association lists, the loop combinator \<open>forever\<close>, the locale
    \<open>step_system\<close> of step relations with an invariant.
  \<^item> \<open>GoStrings\<close>: the functions of Go's \<open>strings\<close> and \<open>strconv\<close> that the source uses, on byte
    strings.
  \<^item> \<open>GoJson\<close>, \<open>GoJsonRound\<close>: what the source uses of \<open>encoding/json\<close>, \<open>net/url\<close> and \<open>time\<close>; the
    parser is a left inverse of the printer for every layout of white space (locale
    \<open>json_whitespace\<close>).
  \<^item> \<open>Errors\<close>: the error values of the program as one datatype, with \<open>errors.Is\<close>,
    \<open>IsTemporary\<close> and the texts (\<open>providers/errors.go\<close>, \<open>providers/github/api.go\<close>).
  \<^item> \<open>Providers\<close>: states, environments, capabilities, the registry of providers.

  The core:

  \<^item> \<open>Redaction\<close>: secret values, the redactor, the log handler. The locale \<open>redaction\<close> is what
    the gateway relies on.
  \<^item> \<open>Sessions\<close>: the session registry with its invariant. The locale \<open>session_registry\<close> is what the
    gateway relies on.
  \<^item> \<open>Lifecycle\<close>, \<open>Ensure\<close>, \<open>Connect\<close>: the lifecycle manager. A provider is a record of functions
    on a world \<open>'w\<close>; the clock, contexts and waiting are operations of that record, so that an
    interpretation of it fixes what time and the network do. \<open>Ensure_alone\<close> is the run of a caller whom nobody joins, until
    the work is done or the caller's context ends. Every operation takes the
    manager and the world and returns them changed; the polling loop is \<open>forever\<close>, whose value
    is \<open>None\<close> exactly when the loop does not end. The locales \<open>kept\<close> and \<open>kept_counts\<close> state
    what every step of the machine keeps.
  \<^item> \<open>Calls\<close>: the same machine over a provider that counts its calls.
  \<^item> \<open>SingleFlight\<close>: the concurrency of \<open>Manager.Ensure\<close>, one step per critical section, for any number
    of callers and operations.
  \<^item> \<open>LifecycleSpec\<close>: the properties of the manager over whole calls and whole runs.
  \<^item> \<open>GatewayBackend\<close>: \<open>OpenSession\<close>, its release function, the choice of the environment and
    the texts a client sees.
  \<^item> \<open>RegistrySpec\<close>: the registries and the log over whole runs.

  The SSH side:

  \<^item> \<open>SshAuth\<close>: who may log in, and on which address the gateway dares to listen without
    credentials.
  \<^item> \<open>SshSession\<close>: the session channel: requests, the goroutine that opens and pumps, teardown.
  \<^item> \<open>SshPump\<close>: what \<open>pump\<close> does with an open session, as a step relation of its three copiers, the client,
    the environment and the clock, with reads and writes as steps of their own and writes that wait for room in the client's window:
    what the client gets, in which order, and that the goroutine of \<open>pump\<close> returns by its own steps (\<open>own_step\<close>) and in bounded
    time once the session has ended and its output can be sent.
  \<^item> \<open>SshServer\<close>: the host key and its file, construction, callbacks, and \<open>Serve\<close> with its connections
    and sessions as a step relation, from the first accept to the end of the drain.

  The provider for GitHub:

  \<^item> \<open>GithubApi\<close>, \<open>GithubApiSpec\<close>: requests with retries and limits, error answers, paging, every
    operation on codespaces. The transport is a function of the request and the world.
  \<^item> \<open>GithubStores\<close>, \<open>GithubStoresSpec\<close>: the caches on disk and the provider's configuration. The locale
    \<open>name_store\<close> states what the provider relies on and has both caches as instances.
  \<^item> \<open>HostKeySpec\<close>: the pinned host keys refine a finite map with a policy.
  \<^item> \<open>GithubCli\<close>: finding \<open>gh\<close>, the environment it gets, what is read from its output.
  \<^item> \<open>GithubProvider\<close>, \<open>GithubProviderSpec\<close>: construction and the operations that the lifecycle
    manager calls.
  \<^item> \<open>GithubConnect\<close>, \<open>GithubConnectSpec\<close>: both ways into a codespace, the live connections they give
    (waiting, resizing, signalling, closing), with the children, clients, sessions, files and pipes they
    open counted in the world, and the goroutine of the handshake going on after the wait for it was given up.
  \<^item> \<open>GithubKeys\<close>: the gateway's own key pair and its two files.
  \<^item> \<open>GithubDiagnose\<close>: the self-checks.
  \<^item> \<open>FakeGithub\<close>: the server that the test suite puts in GitHub's place (\<open>internal/testenv/github.go\<close>,
    \<open>github_state.go\<close>), with every handler, as an instance of the HTTP transport.
  \<^item> \<open>GithubSystem\<close>, \<open>GithubRebuild\<close>: the layers together. The GitHub provider is an instance of what
    the lifecycle manager calls (\<open>github_prov\<close>), its requests go to the server as JSON over HTTP,
    and \<open>ensure\<close> brings a stopped codespace up and creates a deleted one anew.
  \<^item> \<open>FakeGh\<close>, \<open>FakeSshd\<close>: the stand-ins of the test suite for the \<open>gh\<close> program and for the SSH server of a
    codespace (\<open>internal/testenv/fakegh.go\<close>, \<open>sshd.go\<close>, \<open>sshd_session.go\<close>): what the gateway's argument
    lists mean to \<open>gh\<close> and to \<open>ssh\<close>, and what a session is asked to do.
  \<^item> \<open>GithubGateway\<close>: every layer on one session, from \<open>OpenSession\<close> of the gateway core to the SSH server
    of a codespace that is shut down at first. The SSH client library and the child process are an instance
    of the provider's transport, with their documented behaviour, failures included, as a hypothesis (\<open>library_client\<close>).

  Configuration, operation, command line:

  \<^item> \<open>ConfigFile\<close>, \<open>ConfigTree\<close>: loading, defaults and validation; changing one key of the YAML tree and
    printing it redacted.
  \<^item> \<open>GatewayControl\<close>: \<open>New\<close> and \<open>Run\<close> of the gateway, its status, the control socket from both ends.
  \<^item> \<open>CliFlags\<close>, \<open>CliApp\<close>: Go's flag parser, the state of an invocation (\<open>cli\<close>: output, files, the
    terminal, the world) and its surroundings (\<open>cli_env\<close>), errors and exit codes.
  \<^item> \<open>CliSshConfig\<close>, \<open>CliPrompt\<close>: the managed block of \<open>~/.ssh/config\<close>; questions and menus on an
    input that may end.
  \<^item> \<open>CliConfig\<close>, \<open>CliCommands\<close>, \<open>CliServe\<close>, \<open>CliSetup\<close>: every command, the interactive setup and
    \<open>Run\<close>, which composes them all.

  Strings are lists of bytes, Go maps association lists in insertion order, pointers to
  sessions and operations indices into a list of all ever made. Durations and times are integers
  of nanoseconds; \<open>int\<close> values that the source keeps at a width (sequence numbers, window
  sizes, exit codes) are words. Where Go ranges over a map in an order it chooses at random, the model
  takes the order as an argument, or the property quantifies over it.

  Loops and fuel. A loop of the source that has no bound of its own is \<open>partial_function (option)\<close>
  (\<open>forever\<close> for the polling loops, \<open>ask_again\<close> for the dialogues): its value is \<open>None\<close> when it
  does not end, and that it ends is a property of its own (\<open>ensure_terminates\<close>, \<open>start_returns\<close>,
  \<open>setup_ends\<close>). The serving of \<open>gateway start\<close> is a parameter, and nothing is said of its end. The JSON parser is given as much fuel as its text is long, and every level
  of nesting consumes a byte, so it does not run out; \<open>GoJsonRound\<close> proves that what was printed is
  read back. Retries, pages and host-name labels are bounded by the constants of the source.

  Parameters. Code that the source calls and that is not under \<open>src/\<close> is an argument of the
  definitions: the SSH library with its keys and handshake (\<open>keylib\<close>, \<open>hostlib\<close>), the YAML library
  (\<open>yaml\<close>), the HTTP transport, the operating system's files, processes, sockets and clock
  (records of functions, or functions of the world), the random bytes. A property that relies on them
  says how in its hypotheses and has a witness at a concrete instance.

  Not modelled:

  \<^item> \<open>setWinsize\<close> and \<open>ptyProcAttr\<close> of \<open>providers/github/pty_linux.go\<close>, \<open>pty_other.go\<close>, \<open>cli/tty_*.go\<close>,
    \<open>main.go\<close>: one or a few system calls each, with no decision of their own.
  \<^item> The ticker that prints progress and \<open>pipeConn\<close>, which hands every call on to the child's pipes: their
    state is that of the sockets. What \<open>io.Copy\<close> does is in the steps of \<open>SshPump\<close>.
  \<^item> \<open>watchProcess\<close>, which waits for a child in a goroutine: whether a child has ended and how are answers of
    the transport (\<open>x_done\<close>, \<open>x_exit\<close>).
  \<^item> The texts that package \<open>flag\<close> prints about defaults, switching off the echo of a terminal, the
    JSON text of a status: arguments of the commands that use them.
  \<^item> Log lines that no other code reads.
  \<^item> The listeners and goroutines of the test suite's servers, and the delay and the copying of the fake \<open>gh\<close>'s
    tunnel: the transport answers for them.
\<close>

end
